(* ===== verification/Prelude.thy ===== *)
theory Prelude
  imports Main "HOL-Library.Multiset" "HOL-Library.AList" "HOL-Library.Char_ord" "HOL-Library.List_Lexorder"
begin

text \<open>
  The vocabulary every component shares: Python exceptions as the left side of a sum,
  ordered dictionaries as association lists, the string operations of the standard library
  that the source uses, decimal numerals, and the two contracts that several components
  satisfy (a codec between a value and its representation, and a machine whose operations
  keep an invariant).

  A Python string is a \<open>string\<close>, one \<open>char\<close> for each code point; the model's alphabet is
  the first 256 code points (Latin-1), so a character above U+007F takes two bytes in UTF-8.
\<close>

named_theorems result_simps \<open>equations of the exception plumbing\<close>
named_theorems py_defs \<open>definitions of the standard-library operations\<close>

section \<open>Results\<close>

definition bind_r :: "'e + 'a \<Rightarrow> ('a \<Rightarrow> 'e + 'b) \<Rightarrow> 'e + 'b" where
  "bind_r m f = (case m of Inl e \<Rightarrow> Inl e | Inr x \<Rightarrow> f x)"

definition guard_r :: "bool \<Rightarrow> 'e \<Rightarrow> 'e + 'a \<Rightarrow> 'e + 'a" where
  "guard_r ok e k = (if ok then k else Inl e)"

fun traverse :: "('a \<Rightarrow> 'e + 'b) \<Rightarrow> 'a list \<Rightarrow> 'e + 'b list" where
  "traverse f [] = Inr []"
| "traverse f (x # xs) =
     (case f x of Inl e \<Rightarrow> Inl e
      | Inr y \<Rightarrow> (case traverse f xs of Inl e \<Rightarrow> Inl e | Inr ys \<Rightarrow> Inr (y # ys)))"

definition is_ok :: "'e + 'a \<Rightarrow> bool" where
  "is_ok m = (case m of Inl _ \<Rightarrow> False | Inr _ \<Rightarrow> True)"

lemma bind_r_simps [simp, result_simps]:
  "bind_r (Inl e) f = Inl e"
  "bind_r (Inr x) f = f x"
  by (simp_all add: bind_r_def)

lemma bind_r_Inr_iff [result_simps]:
  "bind_r m f = Inr y \<longleftrightarrow> (\<exists>x. m = Inr x \<and> f x = Inr y)"
  by (cases m) simp_all

lemma guard_r_simps [simp, result_simps]:
  "guard_r True e k = k"
  "guard_r False e k = Inl e"
  by (simp_all add: guard_r_def)

lemma guard_r_Inr_iff [simp, result_simps]: "guard_r ok e k = Inr y \<longleftrightarrow> ok \<and> k = Inr y"
  by (simp add: guard_r_def)

lemma is_ok_simps [simp]: "is_ok (Inr x)" "\<not> is_ok (Inl e)"
  by (simp_all add: is_ok_def)

lemma traverse_map_ok:
  "(\<And>x. x \<in> set xs \<Longrightarrow> f (g x) = Inr x) \<Longrightarrow> traverse f (map g xs) = Inr xs"
  by (induction xs) auto

lemma traverse_Inr_all:
  "traverse f xs = Inr ys \<Longrightarrow> y \<in> set ys \<Longrightarrow> \<exists>x \<in> set xs. f x = Inr y"
  by (induction xs arbitrary: ys) (auto split: sum.splits)

lemma find_Some_mem: "find P xs = Some x \<Longrightarrow> x \<in> set xs \<and> P x"
  by (induction xs) (auto split: if_splits)

section \<open>Ordered dictionaries\<close>

text \<open>
  A Python dict (and an OrderedDict) is an association list: \<open>map_of d k\<close> reads a key,
  \<open>AList.update k v d\<close> is \<open>d[k] = v\<close> (the position of an old key is kept, a new key goes
  last), \<open>AList.delete k d\<close> is \<open>del d[k]\<close>.
\<close>

abbreviation dict_keys :: "('k \<times> 'v) list \<Rightarrow> 'k list" where
  "dict_keys d \<equiv> map fst d"

definition dict_get :: "('k \<times> 'v) list \<Rightarrow> 'k \<Rightarrow> 'v \<Rightarrow> 'v" where
  "dict_get d k dflt = (case map_of d k of None \<Rightarrow> dflt | Some v \<Rightarrow> v)"

lemma update_fresh: "k \<notin> set (dict_keys d) \<Longrightarrow> AList.update k v d = d @ [(k, v)]"
  by (induction d) auto

lemma map_of_distinct_mem:
  "distinct (dict_keys d) \<Longrightarrow> (k, v) \<in> set d \<Longrightarrow> map_of d k = Some v"
  by (simp add: map_of_is_SomeI)

lemma dict_keys_filter_subset: "set (dict_keys (filter P d)) \<subseteq> set (dict_keys d)"
  by auto

lemma distinct_keys_filter [intro]:
  "distinct (dict_keys d) \<Longrightarrow> distinct (dict_keys (filter P d))"
  by (induction d) auto

section \<open>Strings of the standard library\<close>

definition py_isspace :: "char \<Rightarrow> bool" where
  "py_isspace c = (let n = (of_char c :: nat) in
     (9 \<le> n \<and> n \<le> 13) \<or> (28 \<le> n \<and> n \<le> 32) \<or> n = 133 \<or> n = 160)"

definition py_strip :: "string \<Rightarrow> string" where
  "py_strip s = rev (dropWhile py_isspace (rev (dropWhile py_isspace s)))"

definition py_startswith :: "string \<Rightarrow> string \<Rightarrow> bool" where
  "py_startswith s p = (take (length p) s = p)"

text \<open>\<open>s.partition(sep)\<close> for a one-character separator: the head, whether it was found, the rest.\<close>

definition py_partition :: "char \<Rightarrow> string \<Rightarrow> string \<times> bool \<times> string" where
  "py_partition sep s =
     (takeWhile (\<lambda>c. c \<noteq> sep) s, sep \<in> set s, tl (dropWhile (\<lambda>c. c \<noteq> sep) s))"

fun py_join :: "string \<Rightarrow> string list \<Rightarrow> string" where
  "py_join sep [] = []"
| "py_join sep [x] = x"
| "py_join sep (x # xs) = x @ sep @ py_join sep xs"

lemma py_startswith_append [simp]: "py_startswith (p @ s) p"
  by (simp add: py_startswith_def)

lemma py_startswith_iff: "py_startswith s p \<longleftrightarrow> (\<exists>r. s = p @ r)"
proof
  assume "py_startswith s p"
  then have "s = p @ drop (length p) s"
    by (metis append_take_drop_id py_startswith_def)
  then show "\<exists>r. s = p @ r" ..
qed (auto simp: py_startswith_def)

lemma py_startswith_trans: "py_startswith a b \<Longrightarrow> py_startswith b c \<Longrightarrow> py_startswith a c"
  by (auto simp: py_startswith_iff)

lemma py_startswith_comparable:
  "py_startswith s a \<Longrightarrow> py_startswith s b \<Longrightarrow> py_startswith a b \<or> py_startswith b a"
  by (auto simp: py_startswith_iff append_eq_append_conv2)

lemma py_partition_append:
  "sep \<notin> set a \<Longrightarrow> py_partition sep (a @ sep # b) = (a, True, b)"
  by (induction a) (auto simp: py_partition_def)

lemma py_partition_absent: "sep \<notin> set s \<Longrightarrow> py_partition sep s = (s, False, [])"
  by (induction s) (auto simp: py_partition_def)

lemma py_partition_found:
  "py_partition sep s = (a, True, b) \<Longrightarrow> s = a @ sep # b \<and> sep \<notin> set a"
  by (induction s arbitrary: a b) (auto simp: py_partition_def split: if_splits)

lemma py_partition_missing:
  "py_partition sep s = (a, False, b) \<Longrightarrow> s = a \<and> b = [] \<and> sep \<notin> set s"
  by (induction s arbitrary: a b) (auto simp: py_partition_def split: if_splits)

text \<open>\<open>s.split()\<close>: the maximal runs of characters that are not white space.\<close>

fun py_words :: "string \<Rightarrow> string \<Rightarrow> string list" where
  "py_words word [] = (if word = [] then [] else [rev word])"
| "py_words word (c # cs) =
     (if py_isspace c then (if word = [] then py_words [] cs else rev word # py_words [] cs)
      else py_words (c # word) cs)"

definition py_split :: "string \<Rightarrow> string list" where
  "py_split s = py_words [] s"

text \<open>\<open>s.removeprefix(p)\<close> and \<open>sorted(set(xs))\<close> on strings.\<close>

definition py_removeprefix :: "string \<Rightarrow> string \<Rightarrow> string" where
  "py_removeprefix s p = (if py_startswith s p then drop (length p) s else s)"

definition sorted_set :: "string list \<Rightarrow> string list" where
  "sorted_set xs = sort (remdups xs)"

text \<open>\<open>dict.fromkeys(xs)\<close>: the first occurrences, in order.\<close>

fun from_keys :: "'a list \<Rightarrow> 'a list \<Rightarrow> 'a list" where
  "from_keys seen [] = []"
| "from_keys seen (x # xs) = (if x \<in> set seen then from_keys seen xs else x # from_keys (x # seen) xs)"

section \<open>Decimal numerals\<close>

definition digit_char :: "nat \<Rightarrow> char" where
  "digit_char d = char_of (48 + d)"

definition is_digit :: "char \<Rightarrow> bool" where
  "is_digit c = (48 \<le> (of_char c :: nat) \<and> (of_char c :: nat) \<le> 57)"

fun show_nat :: "nat \<Rightarrow> string" where
  "show_nat n = (if n < 10 then [digit_char n] else show_nat (n div 10) @ [digit_char (n mod 10)])"

definition show_int :: "int \<Rightarrow> string" where
  "show_int i = (if i < 0 then CHR ''-'' # show_nat (nat (- i)) else show_nat (nat i))"

definition read_digits :: "string \<Rightarrow> nat" where
  "read_digits s = foldl (\<lambda>acc c. 10 * acc + (of_char c - 48)) 0 s"

text \<open>
  \<open>int(s)\<close> on a string of ASCII digits: CPython refuses more than 4300 digits with a
  \<open>ValueError\<close> (here \<open>None\<close>).
\<close>

definition py_int_digits :: "string \<Rightarrow> nat option" where
  "py_int_digits s = (if length s \<le> 4300 then Some (read_digits s) else None)"

text \<open>\<open>s.isascii() and s.isdecimal()\<close>\<close>

definition ascii_decimal :: "string \<Rightarrow> bool" where
  "ascii_decimal s = (s \<noteq> [] \<and> list_all is_digit s)"

declare show_nat.simps [simp del]

lemma of_digit_char [simp]: "d < 10 \<Longrightarrow> (of_char (digit_char d) :: nat) = 48 + d"
  by (simp add: digit_char_def)

lemma is_digit_digit_char [simp]: "d < 10 \<Longrightarrow> is_digit (digit_char d)"
  by (simp add: is_digit_def)

lemma digit_char_of_digit: "is_digit c \<Longrightarrow> digit_char (of_char c - 48) = c"
  by (simp add: is_digit_def digit_char_def)

lemma show_nat_nonempty [simp]: "show_nat n \<noteq> []"
  by (subst show_nat.simps) simp

lemma show_nat_digits: "list_all is_digit (show_nat n)"
proof (induction n rule: show_nat.induct)
  case (1 n)
  then show ?case by (subst show_nat.simps) auto
qed

lemma ascii_decimal_show_nat [simp]: "ascii_decimal (show_nat n)"
  by (simp add: ascii_decimal_def show_nat_digits)

lemma read_digits_snoc: "read_digits (s @ [c]) = 10 * read_digits s + (of_char c - 48)"
  by (simp add: read_digits_def)

lemma read_show_nat [simp]: "read_digits (show_nat n) = n"
proof (induction n rule: show_nat.induct)
  case (1 n)
  show ?case
  proof (cases "n < 10")
    case True
    then show ?thesis by (subst show_nat.simps) (simp add: read_digits_def)
  next
    case False
    with 1 have "read_digits (show_nat (n div 10)) = n div 10" by simp
    with False show ?thesis by (subst show_nat.simps) (simp add: read_digits_snoc)
  qed
qed

lemma show_nat_inject [simp]: "show_nat m = show_nat n \<longleftrightarrow> m = n"
  by (metis read_show_nat)

lemma digit_not_dash: "is_digit c \<Longrightarrow> c \<noteq> CHR ''-''"
  by (auto simp: is_digit_def)

lemma read_digits_zero_head:
  "is_digit c \<Longrightarrow> c \<noteq> CHR ''0'' \<Longrightarrow> 0 < (of_char c :: nat) - 48"
proof -
  assume d: "is_digit c" and nz: "c \<noteq> CHR ''0''"
  have "(of_char c :: nat) \<noteq> 48"
  proof
    assume "(of_char c :: nat) = 48"
    then have "c = char_of (48 :: nat)" by (metis char_of_char)
    also have "\<dots> = CHR ''0''" by code_simp
    finally show False using nz by simp
  qed
  with d show ?thesis by (simp add: is_digit_def)
qed

text \<open>A canonical numeral: digits without a superfluous leading zero are what \<open>str(int(s))\<close> prints.\<close>

lemma read_digits_pos:
  "list_all is_digit s \<Longrightarrow> s \<noteq> [] \<Longrightarrow> hd s \<noteq> CHR ''0'' \<Longrightarrow> 0 < read_digits s"
proof (induction s rule: rev_induct)
  case (snoc c s)
  show ?case
  proof (cases "s = []")
    case True
    with snoc.prems show ?thesis
      using read_digits_zero_head [of c] by (simp add: read_digits_def)
  next
    case False
    with snoc show ?thesis by (simp add: read_digits_snoc)
  qed
qed simp

lemma show_read_digits:
  "list_all is_digit s \<Longrightarrow> s \<noteq> [] \<Longrightarrow> hd s \<noteq> CHR ''0'' \<Longrightarrow> show_nat (read_digits s) = s"
proof (induction s rule: rev_induct)
  case (snoc c s)
  have c: "is_digit c" using snoc.prems by simp
  then have d: "(of_char c :: nat) - 48 < 10" unfolding is_digit_def by linarith
  show ?case
  proof (cases "s = []")
    case True
    with d c show ?thesis
      by (subst show_nat.simps) (simp add: read_digits_def digit_char_of_digit)
  next
    case False
    with snoc.prems have s: "list_all is_digit s" "hd s \<noteq> CHR ''0''" by auto
    then have "0 < read_digits s" and IH: "show_nat (read_digits s) = s"
      using read_digits_pos [of s] snoc.IH False by auto
    then have "\<not> read_digits (s @ [c]) < 10" by (simp add: read_digits_snoc)
    moreover have "read_digits (s @ [c]) div 10 = read_digits s"
      and "read_digits (s @ [c]) mod 10 = of_char c - 48"
      using d by (simp_all add: read_digits_snoc)
    ultimately show ?thesis
      using IH c by (subst show_nat.simps) (simp add: digit_char_of_digit)
  qed
qed simp

section \<open>Shared contracts\<close>

text \<open>
  A codec: values with an invariant, printed into a representation and parsed back. The
  providers are the \<open>to_json\<close>/\<open>from_json\<close> and \<open>__str__\<close>/\<open>parse\<close> pairs of the source.
\<close>

locale codec =
  fixes enc :: "'a \<Rightarrow> 'r"
    and dec :: "'r \<Rightarrow> 'e + 'a"
    and wf :: "'a \<Rightarrow> bool"
  assumes dec_enc: "wf x \<Longrightarrow> dec (enc x) = Inr x"
    and dec_wf: "dec r = Inr x \<Longrightarrow> wf x"
begin

lemma enc_inject: "wf x \<Longrightarrow> wf y \<Longrightarrow> enc x = enc y \<longleftrightarrow> x = y"
  by (metis dec_enc sum.inject(2))

lemma dec_stable: "dec r = Inr x \<Longrightarrow> dec (enc x) = Inr x"
  by (blast intro: dec_enc dec_wf)

lemma wf_iff_image: "wf x \<longleftrightarrow> (\<exists>r. dec r = Inr x)"
  by (blast intro: dec_enc dec_wf)

end

text \<open>A codec whose printed form is canonical: every accepted representation is the printed one.\<close>

locale canonical_codec = codec enc dec wf
  for enc :: "'a \<Rightarrow> 'r" and dec :: "'r \<Rightarrow> 'e + 'a" and wf :: "'a \<Rightarrow> bool" +
  assumes enc_dec: "dec r = Inr x \<Longrightarrow> enc x = r"
begin

lemma dec_inject: "dec r = Inr x \<Longrightarrow> dec r' = Inr x \<Longrightarrow> r = r'"
  by (metis enc_dec)

lemma accepts_iff: "is_ok (dec r) \<longleftrightarrow> (\<exists>x. wf x \<and> r = enc x)"
  by (metis dec_enc dec_wf enc_dec is_ok_def sum.case_eq_if sum.collapse(2) is_ok_simps(1))

end

text \<open>
  A machine: operations on a state, each keeping an invariant. A run is a list of
  operations; the exception an operation may raise is part of its output and does not stop
  the run, because the object outlives the call that raised.
\<close>

fun run_ops :: "('op \<Rightarrow> 's \<Rightarrow> 's \<times> 'o) \<Rightarrow> 'op list \<Rightarrow> 's \<Rightarrow> 's \<times> 'o list" where
  "run_ops step [] s = (s, [])"
| "run_ops step (x # xs) s =
     (case step x s of (s', out) \<Rightarrow> (case run_ops step xs s' of (s'', outs) \<Rightarrow> (s'', out # outs)))"

lemma run_ops_fst_Cons: "fst (run_ops step (x # xs) s) = fst (run_ops step xs (fst (step x s)))"
  by (simp split: prod.splits)

lemma run_ops_append:
  "fst (run_ops step (xs @ ys) s) = fst (run_ops step ys (fst (run_ops step xs s)))"
  by (induction xs arbitrary: s) (simp_all add: run_ops_fst_Cons del: run_ops.simps(2))

locale machine =
  fixes step :: "'op \<Rightarrow> 's \<Rightarrow> 's \<times> 'o"
    and inv :: "'s \<Rightarrow> bool"
  assumes step_inv: "inv s \<Longrightarrow> inv (fst (step x s))"
begin

lemma run_inv: "inv s \<Longrightarrow> inv (fst (run_ops step xs s))"
  by (induction xs arbitrary: s) (simp_all add: run_ops_fst_Cons step_inv del: run_ops.simps(2))

end

text \<open>A machine with a measure no operation decreases (a sequence counter, a growing log).\<close>

locale monotone_machine = machine step inv
  for step :: "'op \<Rightarrow> 's \<Rightarrow> 's \<times> 'o" and inv :: "'s \<Rightarrow> bool" +
  fixes level :: "'s \<Rightarrow> nat"
  assumes step_level: "inv s \<Longrightarrow> level s \<le> level (fst (step x s))"
begin

lemma run_level: "inv s \<Longrightarrow> level s \<le> level (fst (run_ops step xs s))"
proof (induction xs arbitrary: s)
  case (Cons x xs)
  from Cons.prems have "level s \<le> level (fst (step x s))" by (rule step_level)
  also have "\<dots> \<le> level (fst (run_ops step xs (fst (step x s))))"
    by (rule Cons.IH) (rule step_inv, rule Cons.prems)
  finally show ?case by (simp only: run_ops_fst_Cons)
qed simp

end

text \<open>
  Idempotent admission: an identified item submitted again while its receipt is retained changes
  nothing and answers with the number of the first admission. The providers are the event bus,
  the Turn inbox and its replies.
\<close>

locale idempotent_admission =
  fixes submit :: "'r \<Rightarrow> 's \<Rightarrow> 's \<times> ('e + 'n \<times> bool)"
    and recorded :: "'s \<Rightarrow> 'r \<Rightarrow> 'n option"
    and inv :: "'s \<Rightarrow> bool"
  assumes replay: "recorded s r = Some n \<Longrightarrow> submit r s = (s, Inr (n, False))"
    and records: "inv s \<Longrightarrow> submit r s = (s', Inr (n, b)) \<Longrightarrow> recorded s' r = Some n"
begin

lemma resubmit: "inv s \<Longrightarrow> submit r s = (s', Inr (n, b)) \<Longrightarrow> submit r s' = (s', Inr (n, False))"
  by (blast intro: replay records)

lemma resubmit_many:
  assumes "inv s" "submit r s = (s', Inr (n, b))"
  shows "run_ops submit (replicate k r) s' = (s', replicate k (Inr (n, False)))"
  using resubmit [OF assms] by (induction k) simp_all

end

section \<open>Dropping the oldest entries\<close>

text \<open>\<open>while len(d) > capacity: d.popitem(last=False)\<close>\<close>

fun trim_oldest :: "nat \<Rightarrow> 'a list \<Rightarrow> 'a list" where
  "trim_oldest capacity [] = []"
| "trim_oldest capacity (x # xs) =
     (if length (x # xs) > capacity then trim_oldest capacity xs else x # xs)"

lemma trim_oldest_drop: "trim_oldest capacity xs = drop (length xs - capacity) xs"
  by (induction xs) (auto simp: Suc_diff_le)

lemma length_trim_oldest: "length (trim_oldest capacity xs) = min capacity (length xs)"
  by (simp add: trim_oldest_drop)

lemma trim_oldest_snoc: "0 < capacity \<Longrightarrow> \<exists>ys. trim_oldest capacity (xs @ [x]) = ys @ [x]"
  by (cases "length xs + 1 - capacity") (auto simp: trim_oldest_drop)

lemma set_trim_oldest: "set (trim_oldest capacity xs) \<subseteq> set xs"
  by (simp add: trim_oldest_drop set_drop_subset)

end
