(* ===== verification/Concurrency.thy ===== *)
theory Concurrency
  imports Prelude
begin

text \<open>
  The concurrency boundaries of tinysoul/infra/concurrency.py: the asynchronous and the threaded
  readers-writer lock, the scope that owns resources, the joined operation and the mailbox.

  An asyncio task runs without interruption from one \<open>await\<close> to the next, so an operation is a
  function of the object between two suspensions. A system is the object and a table of tasks; a
  task that waits for the event \<open>_changed\<close> carries whether a \<open>set()\<close> has woken it since. A task
  suspends only right after it has cleared the event itself, so waking everyone whenever the event
  is set is what \<open>set()\<close> does.
\<close>

section \<open>Tables of tasks\<close>

definition count_tasks :: "('m \<Rightarrow> bool) \<Rightarrow> (nat \<times> 'm) list \<Rightarrow> nat" where
  "count_tasks p ts = length (filter (\<lambda>(t, m). p m) ts)"

lemma count_tasks_simps [simp]:
  "count_tasks p [] = 0"
  "count_tasks p ((t, m) # ts) = (if p m then 1 else 0) + count_tasks p ts"
  by (simp_all add: count_tasks_def)

lemma count_update_new:
  "map_of ts t = None \<Longrightarrow> count_tasks p (AList.update t m ts) = count_tasks p ts + (if p m then 1 else 0)"
  by (induction ts) (auto split: if_splits)

lemma count_update_old:
  "map_of ts t = Some m0 \<Longrightarrow> distinct (map fst ts)
     \<Longrightarrow> count_tasks p (AList.update t m ts) + (if p m0 then 1 else 0) = count_tasks p ts + (if p m then 1 else 0)"
  by (induction ts) (auto split: if_splits)

definition task_mode :: "'m \<Rightarrow> (nat \<times> 'm) list \<Rightarrow> nat \<Rightarrow> 'm" where
  "task_mode away ts t = (case map_of ts t of None \<Rightarrow> away | Some m \<Rightarrow> m)"

lemma count_update:
  assumes "distinct (map fst ts)" and "\<not> p away"
  shows "int (count_tasks p (AList.update t m ts))
     = int (count_tasks p ts) + (if p m then 1 else 0) - (if p (task_mode away ts t) then 1 else 0)"
proof (cases "map_of ts t")
  case None
  with assms count_update_new [OF None, of p m] show ?thesis by (simp add: task_mode_def)
next
  case (Some m0)
  from count_update_old [OF Some assms(1), of p m] show ?thesis
    by (auto simp: task_mode_def Some split: if_splits)
qed

lemma task_mode_update:
  "task_mode away (AList.update t m ts) t' = (if t' = t then m else task_mode away ts t')"
  by (simp add: task_mode_def update_conv')

definition map_tasks :: "('m \<Rightarrow> 'm) \<Rightarrow> (nat \<times> 'm) list \<Rightarrow> (nat \<times> 'm) list" where
  "map_tasks f ts = map (\<lambda>(t, m). (t, f m)) ts"

lemma map_tasks_keys [simp]: "map fst (map_tasks f ts) = map fst ts"
  by (simp add: map_tasks_def split_beta)

lemma count_map_tasks: "(\<And>m. p (f m) = p m) \<Longrightarrow> count_tasks p (map_tasks f ts) = count_tasks p ts"
  by (induction ts) (auto simp: map_tasks_def)

lemma task_mode_map: "f away = away \<Longrightarrow> task_mode away (map_tasks f ts) t = f (task_mode away ts t)"
  by (induction ts) (auto simp: map_tasks_def task_mode_def)

lemma count_positive: "distinct (map fst ts) \<Longrightarrow> \<not> p away \<Longrightarrow> p (task_mode away ts t) \<Longrightarrow> 0 < count_tasks p ts"
  by (induction ts) (auto simp: task_mode_def split: if_splits)

lemma count_zero: "count_tasks p ts = 0 \<Longrightarrow> \<not> p away \<Longrightarrow> \<not> p (task_mode away ts t)"
  by (induction ts) (auto simp: task_mode_def split: if_splits)

definition all_tasks :: "('m \<Rightarrow> bool) \<Rightarrow> (nat \<times> 'm) list \<Rightarrow> bool" where
  "all_tasks p ts = list_all (\<lambda>(t, m). p m) ts"

lemma all_tasks_update: "all_tasks p ts \<Longrightarrow> p m \<Longrightarrow> all_tasks p (AList.update t m ts)"
  unfolding all_tasks_def by (induction ts) auto

lemma all_tasks_map: "all_tasks p (map_tasks f ts) = all_tasks (\<lambda>m. p (f m)) ts"
  by (auto simp: all_tasks_def map_tasks_def list_all_iff)

lemma all_tasks_mono: "all_tasks p ts \<Longrightarrow> (\<And>m. p m \<Longrightarrow> q m) \<Longrightarrow> all_tasks q ts"
  by (auto simp: all_tasks_def list_all_iff)

lemma all_tasks_mode: "all_tasks p ts \<Longrightarrow> p away \<Longrightarrow> p (task_mode away ts t)"
  unfolding all_tasks_def task_mode_def by (induction ts) auto

section \<open>The contract of a readers-writer lock\<close>

text \<open>
  A system of tasks around a lock: how many tasks hold the shared side, how many the exclusive
  side, and how many wait for the exclusive side.
\<close>

locale rw_lock = machine step inv
  for step :: "'e \<Rightarrow> 's \<Rightarrow> 's \<times> 'o" and inv :: "'s \<Rightarrow> bool" +
  fixes readers :: "'s \<Rightarrow> nat" and writers :: "'s \<Rightarrow> nat" and waiting :: "'s \<Rightarrow> nat"
  assumes exclusive: "inv s \<Longrightarrow> writers s = 0 \<or> writers s = 1 \<and> readers s = 0"
    and preference: "inv s \<Longrightarrow> 0 < waiting s \<Longrightarrow> readers (fst (step e s)) \<le> readers s"
begin

lemma run_exclusive: "inv s \<Longrightarrow> writers (fst (run_ops step es s)) = 0
    \<or> writers (fst (run_ops step es s)) = 1 \<and> readers (fst (run_ops step es s)) = 0"
  using exclusive [OF run_inv] .

lemma run_preference:
  assumes "inv s" and "\<And>k. k < length es \<Longrightarrow> 0 < waiting (fst (run_ops step (take k es) s))"
  shows "readers (fst (run_ops step es s)) \<le> readers s"
  using assms
proof (induction es arbitrary: s)
  case (Cons e es)
  have "0 < waiting s" using Cons.prems(2) [of 0] by simp
  with preference [OF Cons.prems(1)] have "readers (fst (step e s)) \<le> readers s" .
  moreover have "readers (fst (run_ops step es (fst (step e s)))) \<le> readers (fst (step e s))"
  proof (rule Cons.IH)
    show "inv (fst (step e s))" by (rule step_inv [OF Cons.prems(1)])
    show "0 < waiting (fst (run_ops step (take k es) (fst (step e s))))" if "k < length es" for k
      using Cons.prems(2) [of "Suc k"] that by (simp add: run_ops_fst_Cons del: run_ops.simps(2))
  qed
  ultimately show ?case by (simp add: run_ops_fst_Cons del: run_ops.simps(2))
qed simp

end

section \<open>AsyncReadWriteLock\<close>

record async_lock =
  al_readers :: int
  al_writer :: bool
  al_waiting_writers :: int
  al_changed :: bool

definition mk_async_lock :: async_lock where
  "mk_async_lock = \<lparr>al_readers = 0, al_writer = False, al_waiting_writers = 0, al_changed = False\<rparr>"

text \<open>One pass of the loop of \<open>read_locked\<close>; False is a task that has cleared the event and waits.\<close>

definition al_read_pass :: "async_lock \<Rightarrow> async_lock \<times> bool" where
  "al_read_pass l =
     (if al_writer l \<or> al_waiting_writers l \<noteq> 0 then (l\<lparr>al_changed := False\<rparr>, False)
      else (l\<lparr>al_readers := al_readers l + 1\<rparr>, True))"

definition al_read_exit :: "async_lock \<Rightarrow> async_lock" where
  "al_read_exit l = l\<lparr>al_readers := al_readers l - 1, al_changed := True\<rparr>"

definition al_write_begin :: "async_lock \<Rightarrow> async_lock" where
  "al_write_begin l = l\<lparr>al_waiting_writers := al_waiting_writers l + 1\<rparr>"

text \<open>The \<open>finally\<close> of the waiting part, reached by acquiring and by cancellation.\<close>

definition al_write_settled :: "async_lock \<Rightarrow> async_lock" where
  "al_write_settled l = l\<lparr>al_waiting_writers := al_waiting_writers l - 1, al_changed := True\<rparr>"

definition al_write_pass :: "async_lock \<Rightarrow> async_lock \<times> bool" where
  "al_write_pass l =
     (if al_writer l \<or> al_readers l \<noteq> 0 then (l\<lparr>al_changed := False\<rparr>, False)
      else (al_write_settled (l\<lparr>al_writer := True\<rparr>), True))"

definition al_write_exit :: "async_lock \<Rightarrow> async_lock" where
  "al_write_exit l = l\<lparr>al_writer := False, al_changed := True\<rparr>"

text \<open>The tasks around the lock; the flag of a waiting task tells whether it has been woken.\<close>

datatype lock_task = LAway | LReadWait bool | LReading | LWriteWait bool | LWriting

datatype lock_event = LRead nat | LWrite nat | LResume nat | LCancel nat | LExit nat

record lock_system =
  ls_lock :: async_lock
  ls_tasks :: "(nat \<times> lock_task) list"

fun lock_wake :: "lock_task \<Rightarrow> lock_task" where
  "lock_wake (LReadWait woken) = LReadWait True"
| "lock_wake (LWriteWait woken) = LWriteWait True"
| "lock_wake m = m"

definition lock_commit :: "nat \<Rightarrow> lock_task \<Rightarrow> async_lock \<Rightarrow> lock_system \<Rightarrow> lock_system" where
  "lock_commit t m l s = (let ts = AList.update t m (ls_tasks s)
     in \<lparr>ls_lock = l, ls_tasks = (if al_changed l then map_tasks lock_wake ts else ts)\<rparr>)"

definition lock_try_read :: "nat \<Rightarrow> async_lock \<Rightarrow> lock_system \<Rightarrow> lock_system" where
  "lock_try_read t l s = (case al_read_pass l of (l', acquired) \<Rightarrow>
     lock_commit t (if acquired then LReading else LReadWait False) l' s)"

definition lock_try_write :: "nat \<Rightarrow> async_lock \<Rightarrow> lock_system \<Rightarrow> lock_system" where
  "lock_try_write t l s = (case al_write_pass l of (l', acquired) \<Rightarrow>
     lock_commit t (if acquired then LWriting else LWriteWait False) l' s)"

definition lock_mode :: "lock_system \<Rightarrow> nat \<Rightarrow> lock_task" where
  "lock_mode s t = task_mode LAway (ls_tasks s) t"

text \<open>An event that does not fit the mode of its task cannot happen and changes nothing.\<close>

fun lock_step :: "lock_event \<Rightarrow> lock_system \<Rightarrow> lock_system \<times> unit" where
  "lock_step (LRead t) s = ((case lock_mode s t of LAway \<Rightarrow> lock_try_read t (ls_lock s) s | _ \<Rightarrow> s), ())"
| "lock_step (LWrite t) s =
     ((case lock_mode s t of LAway \<Rightarrow> lock_try_write t (al_write_begin (ls_lock s)) s | _ \<Rightarrow> s), ())"
| "lock_step (LResume t) s = ((case lock_mode s t of
       LReadWait True \<Rightarrow> lock_try_read t (ls_lock s) s
     | LWriteWait True \<Rightarrow> lock_try_write t (ls_lock s) s
     | _ \<Rightarrow> s), ())"
| "lock_step (LCancel t) s = ((case lock_mode s t of
       LReadWait woken \<Rightarrow> lock_commit t LAway (ls_lock s) s
     | LWriteWait woken \<Rightarrow> lock_commit t LAway (al_write_settled (ls_lock s)) s
     | _ \<Rightarrow> s), ())"
| "lock_step (LExit t) s = ((case lock_mode s t of
       LReading \<Rightarrow> lock_commit t LAway (al_read_exit (ls_lock s)) s
     | LWriting \<Rightarrow> lock_commit t LAway (al_write_exit (ls_lock s)) s
     | _ \<Rightarrow> s), ())"

fun is_write_wait :: "lock_task \<Rightarrow> bool" where
  "is_write_wait (LWriteWait woken) = True"
| "is_write_wait m = False"

text \<open>A task that sleeps unwoken cannot proceed; this is what excludes lost wake-ups.\<close>

fun lock_justified :: "async_lock \<Rightarrow> lock_task \<Rightarrow> bool" where
  "lock_justified l (LReadWait False) = (al_writer l \<or> al_waiting_writers l > 0)"
| "lock_justified l (LWriteWait False) = (al_writer l \<or> al_readers l > 0)"
| "lock_justified l m = True"

definition lock_inv :: "lock_system \<Rightarrow> bool" where
  "lock_inv s = (distinct (map fst (ls_tasks s))
     \<and> al_readers (ls_lock s) = int (count_tasks (\<lambda>m. m = LReading) (ls_tasks s))
     \<and> al_waiting_writers (ls_lock s) = int (count_tasks is_write_wait (ls_tasks s))
     \<and> count_tasks (\<lambda>m. m = LWriting) (ls_tasks s) = (if al_writer (ls_lock s) then 1 else 0)
     \<and> (al_writer (ls_lock s) \<longrightarrow> al_readers (ls_lock s) = 0)
     \<and> all_tasks (lock_justified (ls_lock s)) (ls_tasks s))"

lemma lock_wake_inv: "(lock_wake m = LReading) = (m = LReading)" "(lock_wake m = LWriting) = (m = LWriting)"
  "is_write_wait (lock_wake m) = is_write_wait m" "lock_justified l (lock_wake m)"
  by (cases m; simp)+

text \<open>
  What a commit has to keep: the counters follow the mode of the task, and either the event is set
  or every sleeping task and the committed one are justified under the new lock.
\<close>

lemma lock_commit_inv:
  assumes inv: "lock_inv s" and old: "lock_mode s t = m0"
    and "al_readers l = al_readers (ls_lock s) + (if m = LReading then 1 else 0) - (if m0 = LReading then 1 else 0)"
    and "al_waiting_writers l = al_waiting_writers (ls_lock s) + (if is_write_wait m then 1 else 0)
      - (if is_write_wait m0 then 1 else 0)"
    and "(if al_writer l then 1 else 0) = (if al_writer (ls_lock s) then 1 else 0) + (if m = LWriting then 1 else 0)
      - (if m0 = LWriting then 1 else (0 :: int))"
    and "al_writer l \<longrightarrow> al_readers l = 0"
    and "al_changed l \<or> lock_justified l m \<and> (\<forall>m'. lock_justified (ls_lock s) m' \<longrightarrow> lock_justified l m')"
  shows "lock_inv (lock_commit t m l s)"
proof -
  let ?ts = "AList.update t m (ls_tasks s)"
  let ?ts' = "if al_changed l then map_tasks lock_wake ?ts else ?ts"
  have dist: "distinct (map fst (ls_tasks s))" using inv by (simp add: lock_inv_def)
  have counts: "count_tasks (\<lambda>m. m = LReading) ?ts' = count_tasks (\<lambda>m. m = LReading) ?ts"
    "count_tasks (\<lambda>m. m = LWriting) ?ts' = count_tasks (\<lambda>m. m = LWriting) ?ts"
    "count_tasks is_write_wait ?ts' = count_tasks is_write_wait ?ts"
    by (simp_all add: count_map_tasks lock_wake_inv)
  have old': "task_mode LAway (ls_tasks s) t = m0" using old by (simp add: lock_mode_def)
  have r: "al_readers l = int (count_tasks (\<lambda>m. m = LReading) ?ts)"
    using assms(3) inv count_update [OF dist, of "\<lambda>m. m = LReading" LAway t m] by (simp add: lock_inv_def old')
  have w: "al_waiting_writers l = int (count_tasks is_write_wait ?ts)"
    using assms(4) inv count_update [OF dist, of is_write_wait LAway t m] by (simp add: lock_inv_def old')
  have "int (count_tasks (\<lambda>m. m = LWriting) ?ts) = (if al_writer l then 1 else 0)"
    unfolding assms(5) using inv count_update [OF dist, of "\<lambda>m. m = LWriting" LAway t m]
    by (simp add: lock_inv_def old')
  then have x: "count_tasks (\<lambda>m. m = LWriting) ?ts = (if al_writer l then 1 else 0)" by (simp split: if_splits)
  have just: "all_tasks (lock_justified l) ?ts'"
  proof (cases "al_changed l")
    case True
    have "all_tasks (\<lambda>m. lock_justified l (lock_wake m)) ?ts" by (simp add: all_tasks_def list_all_iff lock_wake_inv)
    with True show ?thesis by (simp add: all_tasks_map)
  next
    case False
    with assms(7) have "lock_justified l m" "\<And>m'. lock_justified (ls_lock s) m' \<Longrightarrow> lock_justified l m'" by blast+
    with inv False show ?thesis by (auto simp: lock_inv_def intro: all_tasks_update all_tasks_mono)
  qed
  have "distinct (map fst ?ts')" using dist by (simp add: distinct_update)
  with r w x just counts assms(6) show ?thesis
    by (simp add: lock_inv_def lock_commit_def Let_def)
qed

lemma lock_justified_mono:
  "lock_justified l m \<Longrightarrow> (al_writer l \<longrightarrow> al_writer l') \<Longrightarrow> al_readers l \<le> al_readers l'
     \<Longrightarrow> al_waiting_writers l \<le> al_waiting_writers l' \<Longrightarrow> lock_justified l' m"
  by (cases "(l, m)" rule: lock_justified.cases) auto

lemma lock_inv_facts:
  assumes "lock_inv s"
  shows "al_writer (ls_lock s) \<longrightarrow> al_readers (ls_lock s) = 0"
    "al_readers (ls_lock s) \<ge> 0" "al_waiting_writers (ls_lock s) \<ge> 0" "distinct (map fst (ls_tasks s))"
    "al_readers (ls_lock s) = int (count_tasks (\<lambda>m. m = LReading) (ls_tasks s))"
    "al_waiting_writers (ls_lock s) = int (count_tasks is_write_wait (ls_tasks s))"
    "count_tasks (\<lambda>m. m = LWriting) (ls_tasks s) = (if al_writer (ls_lock s) then 1 else 0)"
    "all_tasks (lock_justified (ls_lock s)) (ls_tasks s)"
  using assms unfolding lock_inv_def by (blast, (linarith | blast)+)

lemma lock_mode_fact: "lock_inv s \<Longrightarrow> lock_mode s t = LReading \<Longrightarrow> 0 < al_readers (ls_lock s) \<and> \<not> al_writer (ls_lock s)"
  "lock_inv s \<Longrightarrow> lock_mode s t = LWriting \<Longrightarrow> al_writer (ls_lock s) \<and> al_readers (ls_lock s) = 0"
  using lock_inv_facts [of s] count_positive [of "ls_tasks s" "\<lambda>m. m = LReading" LAway t]
    count_positive [of "ls_tasks s" "\<lambda>m. m = LWriting" LAway t]
  by (auto simp: lock_mode_def split: if_splits)

lemma lock_try_read_inv:
  assumes "lock_inv s" and "lock_mode s t = m0" and "m0 = LAway \<or> m0 = LReadWait True"
  shows "lock_inv (lock_try_read t (ls_lock s) s)"
proof -
  note facts = lock_inv_facts(1-3) [OF assms(1)]
  show ?thesis
  proof (cases "al_writer (ls_lock s) \<or> al_waiting_writers (ls_lock s) \<noteq> 0")
    case True
    then have "lock_try_read t (ls_lock s) s = lock_commit t (LReadWait False) (ls_lock s\<lparr>al_changed := False\<rparr>) s"
      by (simp add: lock_try_read_def al_read_pass_def)
    moreover have "lock_inv (lock_commit t (LReadWait False) (ls_lock s\<lparr>al_changed := False\<rparr>) s)"
      by (rule lock_commit_inv [OF assms(1,2)]) (use assms(3) facts True in \<open>auto elim: lock_justified_mono\<close>)
    ultimately show ?thesis by simp
  next
    case False
    then have "lock_try_read t (ls_lock s) s = lock_commit t LReading (ls_lock s\<lparr>al_readers := al_readers (ls_lock s) + 1\<rparr>) s"
      by (simp add: lock_try_read_def al_read_pass_def)
    moreover have "lock_inv (lock_commit t LReading (ls_lock s\<lparr>al_readers := al_readers (ls_lock s) + 1\<rparr>) s)"
      by (rule lock_commit_inv [OF assms(1,2)]) (use assms(3) facts False in \<open>auto elim: lock_justified_mono\<close>)
    ultimately show ?thesis by simp
  qed
qed

lemma lock_write_pass_inv:
  assumes "lock_inv s" and "lock_mode s t = m0" and m0: "m0 = LAway \<and> l = al_write_begin (ls_lock s)
      \<or> m0 = LWriteWait True \<and> l = ls_lock s"
  shows "lock_inv (lock_try_write t l s)"
proof -
  note facts = lock_inv_facts(1-3) [OF assms(1)]
  have l: "al_readers l = al_readers (ls_lock s)" "al_writer l = al_writer (ls_lock s)"
    "al_waiting_writers l = al_waiting_writers (ls_lock s) + (if m0 = LAway then 1 else 0)"
    using m0 by (auto simp: al_write_begin_def)
  show ?thesis
  proof (cases "al_writer l \<or> al_readers l \<noteq> 0")
    case True
    then have "lock_try_write t l s = lock_commit t (LWriteWait False) (l\<lparr>al_changed := False\<rparr>) s"
      by (simp add: lock_try_write_def al_write_pass_def)
    moreover have "lock_inv (lock_commit t (LWriteWait False) (l\<lparr>al_changed := False\<rparr>) s)"
      by (rule lock_commit_inv [OF assms(1,2)]) (use m0 facts l True in \<open>auto elim: lock_justified_mono\<close>)
    ultimately show ?thesis by simp
  next
    case False
    then have "lock_try_write t l s = lock_commit t LWriting (al_write_settled (l\<lparr>al_writer := True\<rparr>)) s"
      by (simp add: lock_try_write_def al_write_pass_def)
    moreover have "lock_inv (lock_commit t LWriting (al_write_settled (l\<lparr>al_writer := True\<rparr>)) s)"
      by (rule lock_commit_inv [OF assms(1,2)]) (use m0 facts l False in \<open>auto simp: al_write_settled_def\<close>)
    ultimately show ?thesis by simp
  qed
qed

lemma lock_step_inv:
  assumes "lock_inv s"
  shows "lock_inv (fst (lock_step e s))"
proof -
  note excl = lock_inv_facts(1) [OF assms]
  show ?thesis
  proof (cases e)
    case (LRead t)
    with assms show ?thesis by (auto split: lock_task.split intro: lock_try_read_inv)
  next
    case (LWrite t)
    with assms show ?thesis by (auto split: lock_task.split intro: lock_write_pass_inv)
  next
    case (LResume t)
    with assms show ?thesis by (auto split: lock_task.split bool.split intro: lock_try_read_inv lock_write_pass_inv)
  next
    case (LCancel t)
    have "lock_inv (lock_commit t LAway (ls_lock s) s)" if "lock_mode s t = LReadWait w" for w
      using lock_commit_inv [OF assms that, of "ls_lock s" LAway] excl by simp
    moreover have "lock_inv (lock_commit t LAway (al_write_settled (ls_lock s)) s)" if "lock_mode s t = LWriteWait w" for w
      using lock_commit_inv [OF assms that, of "al_write_settled (ls_lock s)" LAway] excl
      by (simp add: al_write_settled_def)
    ultimately show ?thesis using LCancel assms by (auto split: lock_task.split)
  next
    case (LExit t)
    have "lock_inv (lock_commit t LAway (al_read_exit (ls_lock s)) s)" if "lock_mode s t = LReading"
      using lock_commit_inv [OF assms that, of "al_read_exit (ls_lock s)" LAway] lock_mode_fact(1) [OF assms that]
      by (simp add: al_read_exit_def)
    moreover have "lock_inv (lock_commit t LAway (al_write_exit (ls_lock s)) s)" if "lock_mode s t = LWriting"
      using lock_commit_inv [OF assms that, of "al_write_exit (ls_lock s)" LAway] lock_mode_fact(2) [OF assms that]
      by (simp add: al_write_exit_def)
    ultimately show ?thesis using LExit assms by (auto split: lock_task.split)
  qed
qed

lemma lock_commit_readers:
  assumes "lock_inv s"
  shows "int (count_tasks (\<lambda>m. m = LReading) (ls_tasks (lock_commit t m l s)))
     = al_readers (ls_lock s) + (if m = LReading then 1 else 0) - (if lock_mode s t = LReading then 1 else 0)"
proof -
  note facts = lock_inv_facts(4,5) [OF assms]
  have "count_tasks (\<lambda>m. m = LReading) (ls_tasks (lock_commit t m l s))
      = count_tasks (\<lambda>m. m = LReading) (AList.update t m (ls_tasks s))"
    by (simp add: lock_commit_def Let_def count_map_tasks lock_wake_inv)
  then show ?thesis unfolding lock_mode_def facts(2) by (simp only:) (rule count_update [OF facts(1)], simp)
qed

lemma lock_writer_waits:
  assumes "lock_inv s" and "0 < count_tasks is_write_wait (ls_tasks s)"
  shows "count_tasks (\<lambda>m. m = LReading) (ls_tasks (fst (lock_step e s))) \<le> count_tasks (\<lambda>m. m = LReading) (ls_tasks s)"
proof -
  have wait: "al_waiting_writers (ls_lock s) \<noteq> 0" using assms by (simp add: lock_inv_def)
  have r: "al_readers (ls_lock s) = int (count_tasks (\<lambda>m. m = LReading) (ls_tasks s))"
    using assms(1) by (simp add: lock_inv_def)
  have "count_tasks (\<lambda>m. m = LReading) (ls_tasks (lock_commit t m l s)) \<le> count_tasks (\<lambda>m. m = LReading) (ls_tasks s)"
    if "m \<noteq> LReading" for t m l
    using lock_commit_readers [OF assms(1), of t m l] that r by (auto split: if_splits)
  with wait show ?thesis
    by (cases e) (auto simp: lock_try_read_def lock_try_write_def al_read_pass_def al_write_pass_def split: lock_task.split bool.split)
qed

definition lock_start :: lock_system where
  "lock_start = \<lparr>ls_lock = mk_async_lock, ls_tasks = []\<rparr>"

lemma lock_start_inv: "lock_inv lock_start"
  by (simp add: lock_start_def lock_inv_def mk_async_lock_def all_tasks_def)

interpretation async_rw: rw_lock lock_step lock_inv
  "\<lambda>s. count_tasks (\<lambda>m. m = LReading) (ls_tasks s)"
  "\<lambda>s. count_tasks (\<lambda>m. m = LWriting) (ls_tasks s)"
  "\<lambda>s. count_tasks is_write_wait (ls_tasks s)"
proof unfold_locales
  show "lock_inv s \<Longrightarrow> lock_inv (fst (lock_step e s))" for e s by (rule lock_step_inv)
  show "lock_inv s \<Longrightarrow> count_tasks (\<lambda>m. m = LWriting) (ls_tasks s) = 0
    \<or> count_tasks (\<lambda>m. m = LWriting) (ls_tasks s) = 1 \<and> count_tasks (\<lambda>m. m = LReading) (ls_tasks s) = 0" for s
    by (auto simp: lock_inv_def)
  show "lock_inv s \<Longrightarrow> 0 < count_tasks is_write_wait (ls_tasks s)
    \<Longrightarrow> count_tasks (\<lambda>m. m = LReading) (ls_tasks (fst (lock_step e s))) \<le> count_tasks (\<lambda>m. m = LReading) (ls_tasks s)" for s e
    by (rule lock_writer_waits)
qed

section \<open>ReadWriteLock\<close>

text \<open>
  The lock of threads. An acquisition runs under the condition, so it is one step that happens
  once its guard holds; None is a thread that has to wait.
\<close>

datatype contract_error = ConcurrencyContractError string

record thread_lock =
  tk_readers :: "(int \<times> nat) list"
  tk_writer :: "int option"
  tk_writer_depth :: nat

definition mk_thread_lock :: thread_lock where
  "mk_thread_lock = \<lparr>tk_readers = [], tk_writer = None, tk_writer_depth = 0\<rparr>"

definition read_depth :: "int \<Rightarrow> thread_lock \<Rightarrow> nat" where
  "read_depth me l = (case map_of (tk_readers l) me of None \<Rightarrow> 0 | Some n \<Rightarrow> n)"

definition acquire_read :: "int \<Rightarrow> thread_lock \<Rightarrow> thread_lock option" where
  "acquire_read me l =
     (if tk_writer l = None \<or> tk_writer l = Some me \<or> me \<in> set (map fst (tk_readers l))
      then Some (l\<lparr>tk_readers := AList.update me (read_depth me l + 1) (tk_readers l)\<rparr>)
      else None)"

definition release_read :: "int \<Rightarrow> thread_lock \<Rightarrow> thread_lock \<times> (contract_error + unit)" where
  "release_read me l =
     (let depth = read_depth me l in
      if depth = 0 then (l, Inl (ConcurrencyContractError ''release_read without a matching acquire_read''))
      else if depth = 1 then (l\<lparr>tk_readers := AList.delete me (tk_readers l)\<rparr>, Inr ())
      else (l\<lparr>tk_readers := AList.update me (depth - 1) (tk_readers l)\<rparr>, Inr ()))"

definition acquire_write :: "int \<Rightarrow> thread_lock \<Rightarrow> thread_lock option" where
  "acquire_write me l =
     (if tk_writer l = Some me \<or> tk_writer l = None \<and> list_all (\<lambda>(reader, n). reader = me) (tk_readers l)
      then Some (l\<lparr>tk_writer := Some me, tk_writer_depth := tk_writer_depth l + 1\<rparr>)
      else None)"

definition release_write :: "int \<Rightarrow> thread_lock \<Rightarrow> thread_lock \<times> (contract_error + unit)" where
  "release_write me l =
     (if tk_writer l \<noteq> Some me \<or> tk_writer_depth l = 0
      then (l, Inl (ConcurrencyContractError ''release_write without a matching acquire_write''))
      else
        (let depth = tk_writer_depth l - 1
         in (l\<lparr>tk_writer_depth := depth, tk_writer := (if depth = 0 then None else tk_writer l)\<rparr>, Inr ())))"

datatype thread_event = TAcquireRead int | TReleaseRead int | TAcquireWrite int | TReleaseWrite int

fun thread_step :: "thread_event \<Rightarrow> thread_lock \<Rightarrow> thread_lock \<times> bool" where
  "thread_step (TAcquireRead me) l = (case acquire_read me l of None \<Rightarrow> (l, False) | Some l' \<Rightarrow> (l', True))"
| "thread_step (TReleaseRead me) l = apsnd is_ok (release_read me l)"
| "thread_step (TAcquireWrite me) l = (case acquire_write me l of None \<Rightarrow> (l, False) | Some l' \<Rightarrow> (l', True))"
| "thread_step (TReleaseWrite me) l = apsnd is_ok (release_write me l)"

definition thread_lock_inv :: "thread_lock \<Rightarrow> bool" where
  "thread_lock_inv l = (distinct (map fst (tk_readers l)) \<and> list_all (\<lambda>(t, n). 0 < n) (tk_readers l)
     \<and> (tk_writer l = None) = (tk_writer_depth l = 0)
     \<and> pred_option (\<lambda>w. list_all (\<lambda>(t, n). t = w) (tk_readers l)) (tk_writer l))"

lemma list_all_put: "list_all p d \<Longrightarrow> p (k, v) \<Longrightarrow> list_all p (AList.update k v d)"
  by (induction d) auto

lemma list_all_removed: "list_all p d \<Longrightarrow> list_all p (AList.delete k d)"
  by (simp add: AList.delete_eq list_all_iff)

lemma thread_step_inv:
  assumes "thread_lock_inv l"
  shows "thread_lock_inv (fst (thread_step e l))"
proof (cases e)
  case (TAcquireRead me)
  show ?thesis
  proof (cases "acquire_read me l")
    case (Some l')
    then have l': "l' = l\<lparr>tk_readers := AList.update me (read_depth me l + 1) (tk_readers l)\<rparr>"
      and guard: "tk_writer l = None \<or> tk_writer l = Some me \<or> me \<in> set (map fst (tk_readers l))"
      by (auto simp: acquire_read_def split: if_splits)
    have "w = me" if "tk_writer l = Some w" for w
      using guard assms that by (auto simp: thread_lock_inv_def list_all_iff)
    then show ?thesis using TAcquireRead Some assms
      by (auto simp: l' thread_lock_inv_def distinct_update pred_option_def intro!: list_all_put)
  qed (use TAcquireRead assms in simp)
next
  case (TReleaseRead me)
  show ?thesis
  proof (cases "read_depth me l = 0")
    case False
    then have "map_of (tk_readers l) me \<noteq> None" by (auto simp: read_depth_def split: option.splits)
    then have mem: "me \<in> fst ` set (tk_readers l)" by (metis map_of_eq_None_iff)
    have "w = me" if "tk_writer l = Some w" for w
      using mem assms that by (auto simp: thread_lock_inv_def list_all_iff)
    then show ?thesis using TReleaseRead False assms
      by (auto simp: release_read_def Let_def thread_lock_inv_def distinct_update distinct_delete pred_option_def
          intro!: list_all_put list_all_removed)
  qed (use TReleaseRead assms in \<open>simp add: release_read_def\<close>)
next
  case (TAcquireWrite me)
  with assms show ?thesis
    by (auto simp: acquire_write_def thread_lock_inv_def split: option.split)
next
  case (TReleaseWrite me)
  with assms show ?thesis by (auto simp: release_write_def Let_def thread_lock_inv_def)
qed

interpretation thread_rw: machine thread_step thread_lock_inv
  by unfold_locales (rule thread_step_inv)

section \<open>JoinedOperations\<close>

text \<open>
  The outcome of an owned operation: it raised CancelledError itself, another exception, or has a
  result. \<open>interrupted\<close> tells whether the caller was cancelled while the operation ran.
\<close>

datatype 'e joined_error = JoinCancelled | JoinFailed 'e

record joined_operations =
  jo_cancelled :: bool

definition joined_finish ::
  "('w \<Rightarrow> 'w \<times> ('e joined_error + 'a)) \<Rightarrow> bool \<Rightarrow> joined_operations \<Rightarrow> 'w
     \<Rightarrow> joined_operations \<times> 'w \<times> ('e joined_error + 'a)" where
  "joined_finish operation interrupted jo w =
     (case operation w of (w', r) \<Rightarrow>
        (jo\<lparr>jo_cancelled := jo_cancelled jo \<or> interrupted \<or> r = Inl JoinCancelled\<rparr>, w', r))"

definition joined_run ::
  "('w \<Rightarrow> 'w \<times> ('e joined_error + 'a)) \<Rightarrow> bool \<Rightarrow> joined_operations \<Rightarrow> 'w
     \<Rightarrow> joined_operations \<times> 'w \<times> ('e joined_error + 'a)" where
  "joined_run operation interrupted jo w =
     (if jo_cancelled jo then (jo, w, Inl JoinCancelled) else joined_finish operation interrupted jo w)"

definition check_cancelled :: "joined_operations \<Rightarrow> 'e joined_error + unit" where
  "check_cancelled jo = (if jo_cancelled jo then Inl JoinCancelled else Inr ())"

text \<open>An interruption never hides what the operation did or answered; only the next one is refused.\<close>

lemma joined_run_result:
  "\<not> jo_cancelled jo \<Longrightarrow> snd (joined_run operation interrupted jo w) = operation w"
  "interrupted \<Longrightarrow> joined_run operation interrupted jo w = (jo', w', r)
     \<Longrightarrow> joined_run operation' interrupted' jo' w' = (jo', w', Inl JoinCancelled)"
  by (auto simp: joined_run_def joined_finish_def split: prod.splits if_splits)

section \<open>AsyncResourceScope\<close>

record cleanup_diagnostic =
  cd_resource :: string
  cd_error_type :: string

definition mk_cleanup_diagnostic :: "string \<Rightarrow> string \<Rightarrow> contract_error + cleanup_diagnostic" where
  "mk_cleanup_diagnostic resource error_type =
     (if resource = [] \<or> error_type = []
      then Inl (ConcurrencyContractError ''Cleanup diagnostic identity is required'')
      else Inr \<lparr>cd_resource = resource, cd_error_type = error_type\<rparr>)"

text \<open>A closer answers nested diagnostics (or nothing), or raises an exception of a named type.\<close>

type_synonym 'w closer = "'w \<Rightarrow> 'w \<times> (string + cleanup_diagnostic list option)"

record 'w resource_scope =
  sc_callbacks :: "(string \<times> 'w closer) list"
  sc_closed :: "cleanup_diagnostic list option"

definition mk_resource_scope :: "'w resource_scope" where
  "mk_resource_scope = \<lparr>sc_callbacks = [], sc_closed = None\<rparr>"

definition register_resource ::
  "string \<Rightarrow> 'w closer \<Rightarrow> 'w resource_scope \<Rightarrow> 'w resource_scope \<times> (contract_error + unit)" where
  "register_resource resource close s =
     (if resource = [] \<or> resource \<in> set (map fst (sc_callbacks s)) \<or> sc_closed s \<noteq> None
      then (s, Inl (ConcurrencyContractError ''Resource registration is invalid''))
      else (s\<lparr>sc_callbacks := sc_callbacks s @ [(resource, close)]\<rparr>, Inr ()))"

fun run_closers ::
  "(string \<times> 'w closer) list \<Rightarrow> cleanup_diagnostic list \<Rightarrow> 'w \<Rightarrow> 'w \<times> cleanup_diagnostic list" where
  "run_closers [] diagnostics w = (w, diagnostics)"
| "run_closers ((resource, close) # rest) diagnostics w =
     (case close w of
        (w', Inl error_type) \<Rightarrow>
          run_closers rest (diagnostics @ [\<lparr>cd_resource = resource, cd_error_type = error_type\<rparr>]) w'
      | (w', Inr None) \<Rightarrow> run_closers rest diagnostics w'
      | (w', Inr (Some nested)) \<Rightarrow> run_closers rest (diagnostics @ nested) w')"

text \<open>
  \<open>close\<close>: the first caller starts \<open>_close_all\<close>, every caller joins it to its end; None is the
  CancelledError of a caller that was cancelled meanwhile.
\<close>

definition scope_close ::
  "bool \<Rightarrow> 'w resource_scope \<Rightarrow> 'w \<Rightarrow> 'w resource_scope \<times> 'w \<times> cleanup_diagnostic list option" where
  "scope_close cancelled s w =
     (case sc_closed s of
        Some diagnostics \<Rightarrow> (s, w, if cancelled then None else Some diagnostics)
      | None \<Rightarrow>
          (case run_closers (rev (sc_callbacks s)) [] w of (w', diagnostics) \<Rightarrow>
             (s\<lparr>sc_closed := Some diagnostics\<rparr>, w', if cancelled then None else Some diagnostics)))"

lemma run_closers_world:
  "fst (run_closers cs ds w) = foldl (\<lambda>w (r, close). fst (close w)) w cs"
  by (induction cs ds w rule: run_closers.induct) (simp_all split: prod.split sum.split option.split)

text \<open>Every closer runs once, newest first, whatever the others raise; closing again runs none.\<close>

lemma scope_close_once:
  assumes "sc_closed s = None" and "scope_close c s w = (s', w', r)"
  shows "w' = foldl (\<lambda>w (r, close). fst (close w)) w (rev (sc_callbacks s))"
    and "scope_close c' s' w'' = (s', w'', if c' then None else sc_closed s')"
    and "is_ok (snd (register_resource resource close s')) = False"
proof -
  obtain v ds where run: "run_closers (rev (sc_callbacks s)) [] w = (v, ds)" by fastforce
  with assms have eq: "w' = v" "s' = s\<lparr>sc_closed := Some ds\<rparr>" by (auto simp: scope_close_def)
  show "w' = foldl (\<lambda>w (r, close). fst (close w)) w (rev (sc_callbacks s))"
    using run_closers_world [of "rev (sc_callbacks s)" "[]" w] run eq by simp
  show "scope_close c' s' w'' = (s', w'', if c' then None else sc_closed s')" by (simp add: scope_close_def eq)
  show "is_ok (snd (register_resource resource close s')) = False" by (simp add: register_resource_def eq)
qed

section \<open>AsyncMailbox\<close>

record 'a mailbox =
  mb_items :: "'a list"
  mb_loop :: "nat option"

text \<open>\<open>closed\<close> tells which event loops are closed; None is QueueEmpty or a consumer that waits.\<close>

definition mailbox_put :: "(nat \<Rightarrow> bool) \<Rightarrow> 'a \<Rightarrow> 'a mailbox \<Rightarrow> 'a mailbox \<times> (contract_error + unit)" where
  "mailbox_put closed item mb =
     (if pred_option closed (mb_loop mb) \<and> mb_loop mb \<noteq> None
      then (mb, Inl (ConcurrencyContractError ''Mailbox event loop is closed''))
      else (mb\<lparr>mb_items := mb_items mb @ [item]\<rparr>, Inr ()))"

definition mailbox_get_nowait :: "'a mailbox \<Rightarrow> 'a mailbox \<times> 'a option" where
  "mailbox_get_nowait mb =
     (case mb_items mb of [] \<Rightarrow> (mb, None) | x # xs \<Rightarrow> (mb\<lparr>mb_items := xs\<rparr>, Some x))"

definition mailbox_discard :: "'a \<Rightarrow> 'a mailbox \<Rightarrow> 'a mailbox \<times> bool" where
  "mailbox_discard item mb =
     (if item \<in> set (mb_items mb) then (mb\<lparr>mb_items := remove1 item (mb_items mb)\<rparr>, True) else (mb, False))"

definition mailbox_get :: "nat \<Rightarrow> 'a mailbox \<Rightarrow> 'a mailbox \<times> (contract_error + 'a option)" where
  "mailbox_get loop mb =
     (if mb_loop mb \<noteq> None \<and> mb_loop mb \<noteq> Some loop
      then (mb, Inl (ConcurrencyContractError ''Mailbox belongs to another event loop''))
      else apsnd Inr (mailbox_get_nowait (mb\<lparr>mb_loop := Some loop\<rparr>)))"

fun mailbox_run :: "'a option list \<Rightarrow> 'a mailbox \<Rightarrow> 'a mailbox \<times> 'a list" where
  "mailbox_run [] mb = (mb, [])"
| "mailbox_run (Some x # ops) mb = mailbox_run ops (fst (mailbox_put (\<lambda>l. False) x mb))"
| "mailbox_run (None # ops) mb =
     (case mailbox_get_nowait mb of (mb', got) \<Rightarrow>
        apsnd (\<lambda>xs. (case got of None \<Rightarrow> [] | Some x \<Rightarrow> [x]) @ xs) (mailbox_run ops mb'))"

lemma mailbox_fifo:
  "snd (mailbox_run ops mb) @ mb_items (fst (mailbox_run ops mb)) = mb_items mb @ List.map_filter id ops"
  by (induction ops mb rule: mailbox_run.induct)
    (auto simp: mailbox_put_def mailbox_get_nowait_def map_filter_simps pred_option_def split: list.splits prod.splits)

section \<open>Properties\<close>

text \<open>How many writers and readers a system has.\<close>

definition lock_readers :: "lock_system \<Rightarrow> nat" where
  "lock_readers s = count_tasks (\<lambda>m. m = LReading) (ls_tasks s)"

definition lock_writers :: "lock_system \<Rightarrow> nat" where
  "lock_writers s = count_tasks (\<lambda>m. m = LWriting) (ls_tasks s)"

definition locks_after :: "lock_event list \<Rightarrow> lock_system" where
  "locks_after es = fst (run_ops lock_step es lock_start)"

lemma locks_after_inv: "lock_inv (locks_after es)"
  unfolding locks_after_def by (rule async_rw.run_inv [OF lock_start_inv])

text \<open>
  C37: a waiting writer gets the lock. In every state the tasks of an \<open>AsyncReadWriteLock\<close> can reach
  (any number of readers and writers, cancelled ones included), the writer excludes everyone else;
  and for a task waiting to write: no event lets another reader in; as long as it sleeps somebody
  holds the lock, so no wake-up is lost; and when nobody holds the lock, resuming it acquires it.
\<close>

theorem async_lock_writer_progress:
  assumes "lock_mode (locks_after es) t = LWriteWait woken"
  shows "(lock_writers (locks_after es) = 0 \<or> lock_writers (locks_after es) = 1 \<and> lock_readers (locks_after es) = 0)
     \<and> lock_readers (fst (lock_step e (locks_after es))) \<le> lock_readers (locks_after es)
     \<and> (woken \<or> 0 < lock_writers (locks_after es) + lock_readers (locks_after es))
     \<and> (lock_writers (locks_after es) + lock_readers (locks_after es) = 0
         \<longrightarrow> lock_mode (fst (lock_step (LResume t) (locks_after es))) t = LWriting)"
proof -
  let ?s = "locks_after es"
  note inv = locks_after_inv [of es]
  note facts = lock_inv_facts [OF inv]
  have mode: "task_mode LAway (ls_tasks ?s) t = LWriteWait woken" using assms by (simp add: lock_mode_def)
  have "0 < count_tasks is_write_wait (ls_tasks ?s)"
    using count_positive [OF facts(4), of is_write_wait LAway t] by (simp add: mode)
  from async_rw.preference [OF inv this] have pref: "lock_readers (fst (lock_step e ?s)) \<le> lock_readers ?s"
    by (simp add: lock_readers_def)
  have "lock_justified (ls_lock ?s) (LWriteWait woken)"
    using all_tasks_mode [OF facts(8), of LAway t] by (simp add: mode)
  then have awake: "woken \<or> 0 < lock_writers ?s + lock_readers ?s"
    using facts(5,7) by (cases woken) (auto simp: lock_readers_def lock_writers_def)
  have enter: "lock_mode (fst (lock_step (LResume t) ?s)) t = LWriting"
    if free: "lock_writers ?s + lock_readers ?s = 0"
  proof -
    have w: "woken" using awake free by simp
    have "\<not> al_writer (ls_lock ?s)" "al_readers (ls_lock ?s) = 0"
      using free facts(5,7) by (auto simp: lock_readers_def lock_writers_def split: if_splits)
    then show ?thesis using assms w
      by (simp add: lock_try_write_def al_write_pass_def lock_commit_def al_write_settled_def lock_mode_def
          task_mode_map task_mode_update)
  qed
  show ?thesis
    using async_rw.exclusive [OF inv] pref awake enter by (auto simp: lock_readers_def lock_writers_def)
qed

theorem async_lock_writer_progress_witness:
  "lock_readers (locks_after [LRead 1, LWrite 2, LRead 3]) = 1
   \<and> lock_mode (fst (lock_step (LResume 2) (locks_after [LRead 1, LWrite 2, LRead 3, LExit 1]))) 2 = LWriting"
proof -
  have one: "lock_readers (locks_after [LRead 1, LWrite 2, LRead 3]) = 1" by code_simp
  have m: "lock_mode (locks_after [LRead 1, LWrite 2, LRead 3, LExit 1]) 2 = LWriteWait True" by code_simp
  have free: "lock_writers (locks_after [LRead 1, LWrite 2, LRead 3, LExit 1])
      + lock_readers (locks_after [LRead 1, LWrite 2, LRead 3, LExit 1]) = 0" by code_simp
  note conj = async_lock_writer_progress [OF m, where e = "LResume 2"]
  show ?thesis by (rule conjI [OF one mp [OF conjunct2 [OF conjunct2 [OF conjunct2 [OF conj]]] free]])
qed

end
