(* ===== verification/Generation.thy ===== *)
theory Generation
  imports Concurrency
begin

text \<open>
  The handle of the running generation (tinysoul/runtime/generation/handle.py and activity.py):
  leases to read it, the exclusive lease under which it is replaced, the activity the runtime is
  in, and closing. As in Concurrency, a pass is the code between two suspensions, and the system is
  the handle with the table of the tasks that use it. A fresh uuid is a parameter of the event.
\<close>

section \<open>State\<close>

datatype runtime_activity =
    RA_IDLE | RA_USER_TURN | RA_REFLECTION_TURN | RA_DAILY_TRANSITION | RA_CONFIG_ACTIVATION

datatype activation_state = AS_ACTIVE | AS_PREPARING | AS_FAILED

datatype generation_error = RuntimeGenerationError string

record 'g handle =
  hd_generation :: 'g
  hd_generation_id :: string
  hd_activity :: runtime_activity
  hd_activation :: activation_state
  hd_readers :: int
  hd_writer :: bool
  hd_writers_waiting :: int
  hd_changed :: bool
  hd_closed :: bool

definition generation_name :: "string \<Rightarrow> string \<Rightarrow> string" where
  "generation_name given fresh = (if given = [] then ''generation_'' @ fresh else given)"

definition mk_handle :: "'g \<Rightarrow> string \<Rightarrow> string \<Rightarrow> 'g handle" where
  "mk_handle generation generation_id fresh =
     \<lparr>hd_generation = generation, hd_generation_id = generation_name generation_id fresh,
      hd_activity = RA_IDLE, hd_activation = AS_ACTIVE, hd_readers = 0, hd_writer = False,
      hd_writers_waiting = 0, hd_changed = False, hd_closed = False\<rparr>"

record 'g generation_snapshot =
  gs_generation :: 'g
  gs_generation_id :: string
  gs_activity :: runtime_activity
  gs_activation :: activation_state

definition handle_snapshot :: "'g handle \<Rightarrow> 'g generation_snapshot" where
  "handle_snapshot h = \<lparr>gs_generation = hd_generation h, gs_generation_id = hd_generation_id h,
     gs_activity = hd_activity h, gs_activation = hd_activation h\<rparr>"

section \<open>Operations\<close>

definition closed_error :: generation_error where
  "closed_error = RuntimeGenerationError ''Runtime generation is closed''"

definition set_handle_activity :: "runtime_activity \<Rightarrow> 'g handle \<Rightarrow> 'g handle \<times> (generation_error + unit)" where
  "set_handle_activity a h =
     (if a \<noteq> RA_IDLE \<and> hd_activity h \<noteq> RA_IDLE
      then (h, Inl (RuntimeGenerationError ''Runtime activity is already active''))
      else (h\<lparr>hd_activity := a, hd_changed := True\<rparr>, Inr ()))"

definition activity_lease :: "runtime_activity \<Rightarrow> generation_error + runtime_activity" where
  "activity_lease a =
     (if a = RA_IDLE \<or> a = RA_CONFIG_ACTIVATION
      then Inl (RuntimeGenerationError ''Runtime activity lease kind is invalid'') else Inr a)"

definition begin_activation :: "'g handle \<Rightarrow> 'g handle \<times> (generation_error + unit)" where
  "begin_activation h =
     (if hd_closed h then (h, Inl closed_error)
      else if hd_activity h \<noteq> RA_IDLE \<or> hd_readers h \<noteq> 0 \<or> hd_writer h
      then (h, Inl (RuntimeGenerationError ''Runtime generation activation requires an idle runtime''))
      else (h\<lparr>hd_activation := AS_PREPARING, hd_activity := RA_CONFIG_ACTIVATION\<rparr>, Inr ()))"

definition activate ::
  "'g \<Rightarrow> string \<Rightarrow> string \<Rightarrow> 'g handle \<Rightarrow> 'g handle \<times> (generation_error + string)" where
  "activate generation generation_id fresh h =
     (if hd_closed h then (h, Inl closed_error)
      else if \<not> hd_writer h \<or> hd_readers h \<noteq> 0
      then (h, Inl (RuntimeGenerationError ''Runtime generation requires an exclusive write lease''))
      else if hd_activity h \<noteq> RA_IDLE \<and> hd_activity h \<noteq> RA_CONFIG_ACTIVATION
      then (h, Inl (RuntimeGenerationError ''Runtime generation activation requires idle''))
      else (h\<lparr>hd_generation := generation, hd_generation_id := generation_name generation_id fresh,
              hd_activation := AS_ACTIVE, hd_activity := RA_IDLE, hd_changed := True\<rparr>,
            Inr (generation_name generation_id fresh)))"

definition fail_activation :: "'g handle \<Rightarrow> 'g handle" where
  "fail_activation h = h\<lparr>hd_activation := AS_FAILED, hd_activity := RA_IDLE, hd_changed := True\<rparr>"

datatype 'a pass = Acquired 'a | Waits | Raises generation_error

definition reader_pass :: "'g handle \<Rightarrow> 'g handle \<times> 'g pass" where
  "reader_pass h =
     (if hd_closed h then (h, Raises closed_error)
      else if \<not> hd_writer h \<and> hd_writers_waiting h = 0 \<and> hd_activity h \<noteq> RA_CONFIG_ACTIVATION
      then (h\<lparr>hd_readers := hd_readers h + 1\<rparr>, Acquired (hd_generation h))
      else (h\<lparr>hd_changed := False\<rparr>, Waits))"

definition writer_begin :: "'g handle \<Rightarrow> 'g handle" where
  "writer_begin h = h\<lparr>hd_writers_waiting := hd_writers_waiting h + 1\<rparr>"

definition writer_finally :: "'g handle \<Rightarrow> 'g handle" where
  "writer_finally h = h\<lparr>hd_writers_waiting := hd_writers_waiting h - 1, hd_changed := True\<rparr>"

definition writer_pass :: "'g handle \<Rightarrow> 'g handle \<times> unit pass" where
  "writer_pass h =
     (if hd_closed h then (writer_finally h, Raises closed_error)
      else if \<not> hd_writer h \<and> hd_readers h = 0
      then (writer_finally (h\<lparr>hd_writer := True\<rparr>), Acquired ())
      else (h\<lparr>hd_changed := False\<rparr>, Waits))"

definition activity_pass :: "runtime_activity \<Rightarrow> 'g handle \<Rightarrow> 'g handle \<times> unit pass" where
  "activity_pass a h =
     (if hd_closed h then (h, Raises closed_error)
      else if hd_activity h \<noteq> RA_CONFIG_ACTIVATION
      then (case set_handle_activity a h of
              (h', Inl e) \<Rightarrow> (h', Raises e)
            | (h', Inr _) \<Rightarrow> (h', Acquired ()))
      else (h\<lparr>hd_changed := False\<rparr>, Waits))"

definition close_begin :: "'g handle \<Rightarrow> 'g handle" where
  "close_begin h = h\<lparr>hd_closed := True, hd_changed := True\<rparr>"

definition close_pass :: "'g handle \<Rightarrow> 'g handle \<times> unit pass" where
  "close_pass h =
     (if hd_readers h \<noteq> 0 \<or> hd_writer h then (h\<lparr>hd_changed := False\<rparr>, Waits) else (h, Acquired ()))"

definition read_exit :: "'g handle \<Rightarrow> 'g handle" where
  "read_exit h = h\<lparr>hd_readers := hd_readers h - 1, hd_changed := True\<rparr>"

definition write_exit :: "'g handle \<Rightarrow> 'g handle" where
  "write_exit h = h\<lparr>hd_writer := False, hd_changed := True\<rparr>"

definition activity_exit :: "'g handle \<Rightarrow> 'g handle" where
  "activity_exit h = fst (set_handle_activity RA_IDLE h)"

section \<open>The system\<close>

datatype 'g lease_task =
    HAway | HReadWait bool | HReading 'g | HWriteWait bool | HWriting
  | HActivityWait runtime_activity bool | HInActivity | HCloseWait bool

datatype 'g handle_event =
    HRead nat | HWrite nat | HActivity nat runtime_activity | HResume nat | HCancel nat | HExit nat
  | HSetActivity runtime_activity | HBeginActivation | HActivate 'g string string | HFailActivation
  | HClose nat

record 'g handle_system =
  hs_handle :: "'g handle"
  hs_tasks :: "(nat \<times> 'g lease_task) list"

fun lease_wake :: "'g lease_task \<Rightarrow> 'g lease_task" where
  "lease_wake (HReadWait woken) = HReadWait True"
| "lease_wake (HWriteWait woken) = HWriteWait True"
| "lease_wake (HActivityWait a woken) = HActivityWait a True"
| "lease_wake (HCloseWait woken) = HCloseWait True"
| "lease_wake m = m"

definition settle_tasks :: "(nat \<times> 'g lease_task) list \<Rightarrow> 'g handle \<Rightarrow> 'g handle_system" where
  "settle_tasks ts h = \<lparr>hs_handle = h, hs_tasks = (if hd_changed h then map_tasks lease_wake ts else ts)\<rparr>"

definition commit_task :: "nat \<Rightarrow> 'g lease_task \<Rightarrow> 'g handle \<Rightarrow> 'g handle_system \<Rightarrow> 'g handle_system" where
  "commit_task t m h s = settle_tasks (AList.update t m (hs_tasks s)) h"

definition lease_mode :: "'g handle_system \<Rightarrow> nat \<Rightarrow> 'g lease_task" where
  "lease_mode s t = task_mode HAway (hs_tasks s) t"

fun pass_error :: "'a pass \<Rightarrow> generation_error option" where
  "pass_error (Raises e) = Some e"
| "pass_error p = None"

text \<open>A task after a pass: holding what it acquired, asleep, or gone with an exception.\<close>

fun after_pass :: "('a \<Rightarrow> 'g lease_task) \<Rightarrow> 'g lease_task \<Rightarrow> 'a pass \<Rightarrow> 'g lease_task" where
  "after_pass holding waiting (Acquired x) = holding x"
| "after_pass holding waiting Waits = waiting"
| "after_pass holding waiting (Raises e) = HAway"

definition try_read :: "nat \<Rightarrow> 'g handle_system \<Rightarrow> 'g handle_system \<times> generation_error option" where
  "try_read t s = (case reader_pass (hs_handle s) of (h, p) \<Rightarrow>
     (commit_task t (after_pass HReading (HReadWait False) p) h s, pass_error p))"

definition try_write ::
  "nat \<Rightarrow> 'g handle \<Rightarrow> 'g handle_system \<Rightarrow> 'g handle_system \<times> generation_error option" where
  "try_write t h0 s = (case writer_pass h0 of (h, p) \<Rightarrow>
     (commit_task t (after_pass (\<lambda>_. HWriting) (HWriteWait False) p) h s, pass_error p))"

definition try_activity ::
  "nat \<Rightarrow> runtime_activity \<Rightarrow> 'g handle_system \<Rightarrow> 'g handle_system \<times> generation_error option" where
  "try_activity t a s = (case activity_pass a (hs_handle s) of (h, p) \<Rightarrow>
     (commit_task t (after_pass (\<lambda>_. HInActivity) (HActivityWait a False) p) h s, pass_error p))"

definition try_close :: "nat \<Rightarrow> 'g handle_system \<Rightarrow> 'g handle_system \<times> generation_error option" where
  "try_close t s = (case close_pass (hs_handle s) of (h, p) \<Rightarrow>
     (commit_task t (after_pass (\<lambda>_. HAway) (HCloseWait False) p) h s, pass_error p))"

definition outcome_error :: "'e + 'a \<Rightarrow> 'e option" where
  "outcome_error r = (case r of Inl e \<Rightarrow> Some e | Inr _ \<Rightarrow> None)"

definition on_handle ::
  "'g handle \<times> (generation_error + 'a) \<Rightarrow> 'g handle_system \<Rightarrow> 'g handle_system \<times> generation_error option" where
  "on_handle r s = (settle_tasks (hs_tasks s) (fst r), outcome_error (snd r))"

text \<open>An event that does not fit the mode of its task cannot happen and changes nothing.\<close>

fun handle_step :: "'g handle_event \<Rightarrow> 'g handle_system \<Rightarrow> 'g handle_system \<times> generation_error option" where
  "handle_step (HRead t) s = (case lease_mode s t of HAway \<Rightarrow> try_read t s | _ \<Rightarrow> (s, None))"
| "handle_step (HWrite t) s =
     (case lease_mode s t of HAway \<Rightarrow> try_write t (writer_begin (hs_handle s)) s | _ \<Rightarrow> (s, None))"
| "handle_step (HActivity t a) s = (case lease_mode s t of
       HAway \<Rightarrow> (case activity_lease a of Inl e \<Rightarrow> (s, Some e) | Inr _ \<Rightarrow> try_activity t a s)
     | _ \<Rightarrow> (s, None))"
| "handle_step (HResume t) s = (case lease_mode s t of
       HReadWait True \<Rightarrow> try_read t s
     | HWriteWait True \<Rightarrow> try_write t (hs_handle s) s
     | HActivityWait a True \<Rightarrow> try_activity t a s
     | HCloseWait True \<Rightarrow> try_close t s
     | _ \<Rightarrow> (s, None))"
| "handle_step (HCancel t) s = (case lease_mode s t of
       HReadWait woken \<Rightarrow> (commit_task t HAway (hs_handle s) s, None)
     | HWriteWait woken \<Rightarrow> (commit_task t HAway (writer_finally (hs_handle s)) s, None)
     | HActivityWait a woken \<Rightarrow> (commit_task t HAway (hs_handle s) s, None)
     | HCloseWait woken \<Rightarrow> (commit_task t HAway (hs_handle s) s, None)
     | _ \<Rightarrow> (s, None))"
| "handle_step (HExit t) s = (case lease_mode s t of
       HReading g \<Rightarrow> (commit_task t HAway (read_exit (hs_handle s)) s, None)
     | HWriting \<Rightarrow> (commit_task t HAway (write_exit (hs_handle s)) s, None)
     | HInActivity \<Rightarrow> (commit_task t HAway (activity_exit (hs_handle s)) s, None)
     | _ \<Rightarrow> (s, None))"
| "handle_step (HSetActivity a) s = on_handle (set_handle_activity a (hs_handle s)) s"
| "handle_step HBeginActivation s = on_handle (begin_activation (hs_handle s)) s"
| "handle_step (HActivate g gid fresh) s = on_handle (activate g gid fresh (hs_handle s)) s"
| "handle_step HFailActivation s = (settle_tasks (hs_tasks s) (fail_activation (hs_handle s)), None)"
| "handle_step (HClose t) s = (case lease_mode s t of
       HAway \<Rightarrow> try_close t (settle_tasks (hs_tasks s) (close_begin (hs_handle s)))
     | _ \<Rightarrow> (s, None))"

section \<open>Invariant\<close>

fun is_reading :: "'g lease_task \<Rightarrow> bool" where
  "is_reading (HReading g) = True"
| "is_reading m = False"

fun is_waiting_writer :: "'g lease_task \<Rightarrow> bool" where
  "is_waiting_writer (HWriteWait woken) = True"
| "is_waiting_writer m = False"

fun is_writing :: "'g lease_task \<Rightarrow> bool" where
  "is_writing HWriting = True"
| "is_writing m = False"

fun lease_justified :: "'g handle \<Rightarrow> 'g lease_task \<Rightarrow> bool" where
  "lease_justified h (HReadWait False) = (\<not> hd_closed h
     \<and> (hd_writer h \<or> hd_writers_waiting h > 0 \<or> hd_activity h = RA_CONFIG_ACTIVATION))"
| "lease_justified h (HWriteWait False) = (\<not> hd_closed h \<and> (hd_writer h \<or> hd_readers h > 0))"
| "lease_justified h (HActivityWait a False) = (\<not> hd_closed h \<and> hd_activity h = RA_CONFIG_ACTIVATION)"
| "lease_justified h (HCloseWait False) = (hd_writer h \<or> hd_readers h > 0)"
| "lease_justified h m = True"

fun lease_current :: "'g handle \<Rightarrow> 'g lease_task \<Rightarrow> bool" where
  "lease_current h (HReading g) = (g = hd_generation h)"
| "lease_current h m = True"

definition handle_inv :: "'g handle_system \<Rightarrow> bool" where
  "handle_inv s = (distinct (map fst (hs_tasks s))
     \<and> hd_readers (hs_handle s) = int (count_tasks is_reading (hs_tasks s))
     \<and> hd_writers_waiting (hs_handle s) = int (count_tasks is_waiting_writer (hs_tasks s))
     \<and> int (count_tasks is_writing (hs_tasks s)) = (if hd_writer (hs_handle s) then 1 else 0)
     \<and> (hd_writer (hs_handle s) \<longrightarrow> hd_readers (hs_handle s) = 0)
     \<and> all_tasks (lease_justified (hs_handle s)) (hs_tasks s)
     \<and> all_tasks (lease_current (hs_handle s)) (hs_tasks s))"

lemma handle_inv_facts:
  assumes "handle_inv s"
  shows "distinct (map fst (hs_tasks s))"
    "hd_readers (hs_handle s) = int (count_tasks is_reading (hs_tasks s))"
    "hd_writers_waiting (hs_handle s) = int (count_tasks is_waiting_writer (hs_tasks s))"
    "int (count_tasks is_writing (hs_tasks s)) = (if hd_writer (hs_handle s) then 1 else 0)"
    "hd_writer (hs_handle s) \<longrightarrow> hd_readers (hs_handle s) = 0"
    "all_tasks (lease_justified (hs_handle s)) (hs_tasks s)"
    "all_tasks (lease_current (hs_handle s)) (hs_tasks s)"
  using assms unfolding handle_inv_def by blast+

lemma lease_wake_simps [simp]:
  "is_reading (lease_wake m) = is_reading m" "is_writing (lease_wake m) = is_writing m"
  "is_waiting_writer (lease_wake m) = is_waiting_writer m" "lease_justified h (lease_wake m)"
  "lease_current h (lease_wake m) = lease_current h m"
  by (cases m; simp)+

lemma lease_justified_mono:
  "lease_justified h m \<Longrightarrow> hd_closed h' = hd_closed h \<Longrightarrow> (hd_writer h \<longrightarrow> hd_writer h')
     \<Longrightarrow> hd_readers h \<le> hd_readers h' \<Longrightarrow> hd_writers_waiting h \<le> hd_writers_waiting h'
     \<Longrightarrow> (hd_activity h = RA_CONFIG_ACTIVATION \<longrightarrow> hd_activity h' = RA_CONFIG_ACTIVATION) \<Longrightarrow> lease_justified h' m"
  by (cases "(h, m)" rule: lease_justified.cases) auto

lemma lease_current_cong: "hd_generation h' = hd_generation h \<Longrightarrow> lease_current h' m = lease_current h m"
  by (cases m) auto

text \<open>What a new table and handle have to satisfy, before the wake-ups.\<close>

lemma settle_inv:
  assumes "distinct (map fst ts)" and "hd_readers h = int (count_tasks is_reading ts)"
    and "hd_writers_waiting h = int (count_tasks is_waiting_writer ts)"
    and "int (count_tasks is_writing ts) = (if hd_writer h then 1 else 0)"
    and "hd_writer h \<longrightarrow> hd_readers h = 0"
    and "hd_changed h \<or> all_tasks (lease_justified h) ts" and "all_tasks (lease_current h) ts"
  shows "handle_inv (settle_tasks ts h)"
proof -
  have "all_tasks (\<lambda>m. lease_justified h (lease_wake m)) ts" by (simp add: all_tasks_def list_all_iff)
  moreover have "all_tasks (\<lambda>m. lease_current h (lease_wake m)) ts" using assms(7) by simp
  ultimately show ?thesis using assms
    by (auto simp: handle_inv_def settle_tasks_def count_map_tasks all_tasks_map simp del: lease_wake_simps(4,5))
qed

lemma commit_task_inv:
  assumes inv: "handle_inv s" and old: "lease_mode s t = m0"
    and r: "hd_readers h = hd_readers (hs_handle s) + (if is_reading m then 1 else 0) - (if is_reading m0 then 1 else 0)"
    and w: "hd_writers_waiting h = hd_writers_waiting (hs_handle s) + (if is_waiting_writer m then 1 else 0)
      - (if is_waiting_writer m0 then 1 else 0)"
    and x: "(if hd_writer h then 1 else 0) = (if hd_writer (hs_handle s) then 1 else 0) + (if is_writing m then 1 else 0)
      - (if is_writing m0 then 1 else (0 :: int))"
    and excl: "hd_writer h \<longrightarrow> hd_readers h = 0"
    and gen: "hd_generation h = hd_generation (hs_handle s)" "lease_current h m"
    and just: "hd_changed h \<or> lease_justified h m \<and> hd_closed h = hd_closed (hs_handle s)
      \<and> (hd_writer (hs_handle s) \<longrightarrow> hd_writer h) \<and> hd_readers (hs_handle s) \<le> hd_readers h
      \<and> hd_writers_waiting (hs_handle s) \<le> hd_writers_waiting h
      \<and> (hd_activity (hs_handle s) = RA_CONFIG_ACTIVATION \<longrightarrow> hd_activity h = RA_CONFIG_ACTIVATION)"
  shows "handle_inv (commit_task t m h s)"
proof -
  note facts = handle_inv_facts [OF inv]
  have old': "task_mode HAway (hs_tasks s) t = m0" using old by (simp add: lease_mode_def)
  note count = count_update [OF facts(1), where away = HAway and t = t and m = m, unfolded old']
  show ?thesis
    unfolding commit_task_def
  proof (rule settle_inv)
    show "distinct (map fst (AList.update t m (hs_tasks s)))" using facts(1) by (simp add: distinct_update)
    show "hd_readers h = int (count_tasks is_reading (AList.update t m (hs_tasks s)))"
      unfolding r facts(2) by (rule count [symmetric]) simp
    show "hd_writers_waiting h = int (count_tasks is_waiting_writer (AList.update t m (hs_tasks s)))"
      unfolding w facts(3) by (rule count [symmetric]) simp
    show "int (count_tasks is_writing (AList.update t m (hs_tasks s))) = (if hd_writer h then 1 else 0)"
      unfolding x facts(4) [symmetric] by (rule count) simp
    show "hd_writer h \<longrightarrow> hd_readers h = 0" by (rule excl)
    show "hd_changed h \<or> all_tasks (lease_justified h) (AList.update t m (hs_tasks s))"
    proof (cases "hd_changed h")
      case False
      have "lease_justified h m'" if "lease_justified (hs_handle s) m'" for m'
        using that by (rule lease_justified_mono) (use just False in simp_all)
      from all_tasks_mono [OF facts(6) this] have "all_tasks (lease_justified h) (hs_tasks s)" .
      with just False show ?thesis by (simp add: all_tasks_update)
    qed simp
    have "all_tasks (lease_current h) (hs_tasks s)"
      using facts(7) lease_current_cong [OF gen(1)] by (auto elim: all_tasks_mono)
    then show "all_tasks (lease_current h) (AList.update t m (hs_tasks s))" using gen(2) by (rule all_tasks_update)
  qed
qed

text \<open>An event without a task: the leases stay as they are.\<close>

lemma settle_same_inv:
  assumes inv: "handle_inv s" and "hd_readers h = hd_readers (hs_handle s)" "hd_writer h = hd_writer (hs_handle s)"
    "hd_writers_waiting h = hd_writers_waiting (hs_handle s)"
    and "hd_generation h = hd_generation (hs_handle s) \<or> hd_readers (hs_handle s) = 0"
    and "hd_changed h \<or> hd_closed h = hd_closed (hs_handle s)
      \<and> (hd_activity (hs_handle s) = RA_CONFIG_ACTIVATION \<longrightarrow> hd_activity h = RA_CONFIG_ACTIVATION)"
  shows "handle_inv (settle_tasks (hs_tasks s) h)"
proof -
  note facts = handle_inv_facts [OF inv]
  have "all_tasks (lease_current h) (hs_tasks s)"
  proof (cases "hd_readers (hs_handle s) = 0")
    case True
    then have "count_tasks is_reading (hs_tasks s) = 0" using facts(2) by simp
    then have "list_all (\<lambda>(t, m). \<not> is_reading m) (hs_tasks s)"
      by (auto simp: count_tasks_def filter_empty_conv list_all_iff)
    moreover have "\<not> is_reading m \<Longrightarrow> lease_current h m" for m by (cases m) auto
    ultimately show ?thesis by (auto simp: all_tasks_def list_all_iff)
  next
    case False
    with assms(5) lease_current_cong [of h "hs_handle s"] facts(7) show ?thesis by (auto elim: all_tasks_mono)
  qed
  moreover have "hd_changed h \<or> all_tasks (lease_justified h) (hs_tasks s)"
  proof (cases "hd_changed h")
    case False
    have "lease_justified h m" if "lease_justified (hs_handle s) m" for m
      using that by (rule lease_justified_mono) (use assms(2-4,6) False in simp_all)
    then show ?thesis using all_tasks_mono [OF facts(6)] by blast
  qed simp
  ultimately show ?thesis using facts(1-5) assms(2-4) by (intro settle_inv) simp_all
qed

lemma lease_mode_fact:
  assumes "handle_inv s"
  shows "is_reading (lease_mode s t) \<Longrightarrow> 0 < hd_readers (hs_handle s) \<and> \<not> hd_writer (hs_handle s)"
    "is_writing (lease_mode s t) \<Longrightarrow> hd_writer (hs_handle s) \<and> hd_readers (hs_handle s) = 0"
  using handle_inv_facts [OF assms] count_positive [of "hs_tasks s" is_reading HAway t]
    count_positive [of "hs_tasks s" is_writing HAway t]
  by (auto simp: lease_mode_def split: if_splits)

lemma try_read_inv:
  assumes "handle_inv s" and "lease_mode s t = m0" and "m0 = HAway \<or> m0 = HReadWait True"
  shows "handle_inv (fst (try_read t s))"
proof -
  note facts = handle_inv_facts(2,3,5) [OF assms(1)]
  show ?thesis using assms(3) facts
    by (auto simp: try_read_def reader_pass_def intro!: commit_task_inv [OF assms(1,2)])
qed

lemma try_write_inv:
  assumes "handle_inv s" and "lease_mode s t = m0"
    and "m0 = HAway \<and> h = writer_begin (hs_handle s) \<or> m0 = HWriteWait True \<and> h = hs_handle s"
  shows "handle_inv (fst (try_write t h s))"
proof -
  note facts = handle_inv_facts(2,3,5) [OF assms(1)]
  show ?thesis using assms(3) facts
    by (auto simp: try_write_def writer_pass_def writer_begin_def writer_finally_def intro!: commit_task_inv [OF assms(1,2)])
qed

lemma try_activity_inv:
  assumes "handle_inv s" and "lease_mode s t = m0" and "m0 = HAway \<or> m0 = HActivityWait a True"
  shows "handle_inv (fst (try_activity t a s))"
proof -
  note facts = handle_inv_facts(2,3,5) [OF assms(1)]
  show ?thesis using assms(3) facts
    by (auto simp: try_activity_def activity_pass_def set_handle_activity_def intro!: commit_task_inv [OF assms(1,2)])
qed

lemma try_close_inv:
  assumes "handle_inv s" and "lease_mode s t = m0" and "m0 = HAway \<or> m0 = HCloseWait True"
  shows "handle_inv (fst (try_close t s))"
proof -
  note facts = handle_inv_facts(2,3,5) [OF assms(1)]
  show ?thesis using assms(3) facts
    by (auto simp: try_close_def close_pass_def intro!: commit_task_inv [OF assms(1,2)])
qed

lemma set_activity_cases:
  obtains (refused) e where "set_handle_activity a h = (h, Inl e)"
  | (set) "set_handle_activity a h = (h\<lparr>hd_activity := a, hd_changed := True\<rparr>, Inr ())"
  by (cases "a \<noteq> RA_IDLE \<and> hd_activity h \<noteq> RA_IDLE") (auto simp: set_handle_activity_def)

lemma activity_exit_eq: "activity_exit h = h\<lparr>hd_activity := RA_IDLE, hd_changed := True\<rparr>"
  by (simp add: activity_exit_def set_handle_activity_def)

lemma handle_step_inv:
  assumes "handle_inv s"
  shows "handle_inv (fst (handle_step e s))"
proof -
  note excl = handle_inv_facts(5) [OF assms]
  note same = settle_same_inv [OF assms]
  show ?thesis
  proof (cases e)
    case (HRead t)
    with assms show ?thesis by (auto split: lease_task.split intro: try_read_inv)
  next
    case (HWrite t)
    with assms show ?thesis by (auto split: lease_task.split intro: try_write_inv)
  next
    case (HActivity t a)
    with assms show ?thesis by (auto split: lease_task.split sum.split intro: try_activity_inv)
  next
    case (HResume t)
    with assms show ?thesis
      by (auto split: lease_task.split bool.split intro: try_read_inv try_write_inv try_activity_inv try_close_inv)
  next
    case (HCancel t)
    have "handle_inv (commit_task t HAway (hs_handle s) s)" if "lease_mode s t = m" "m \<in> {HReadWait w, HActivityWait a w, HCloseWait w}" for m w a
      using that excl by (intro commit_task_inv [OF assms that(1)]) auto
    moreover have "handle_inv (commit_task t HAway (writer_finally (hs_handle s)) s)" if "lease_mode s t = HWriteWait w" for w
      using excl by (intro commit_task_inv [OF assms that]) (simp_all add: writer_finally_def)
    ultimately show ?thesis using HCancel assms by (auto split: lease_task.split)
  next
    case (HExit t)
    have "handle_inv (commit_task t HAway (read_exit (hs_handle s)) s)" if "lease_mode s t = HReading g" for g
      using lease_mode_fact(1) [OF assms, of t] that
      by (intro commit_task_inv [OF assms that]) (simp_all add: read_exit_def)
    moreover have "handle_inv (commit_task t HAway (write_exit (hs_handle s)) s)" if "lease_mode s t = HWriting"
      using lease_mode_fact(2) [OF assms, of t] that
      by (intro commit_task_inv [OF assms that]) (simp_all add: write_exit_def)
    moreover have "handle_inv (commit_task t HAway (activity_exit (hs_handle s)) s)" if "lease_mode s t = HInActivity"
      using excl by (intro commit_task_inv [OF assms that]) (simp_all add: activity_exit_eq)
    ultimately show ?thesis using HExit assms by (auto split: lease_task.split)
  next
    case (HSetActivity a)
    show ?thesis
    proof (cases rule: set_activity_cases [of a "hs_handle s"])
      case (refused e)
      with HSetActivity same [of "hs_handle s"] show ?thesis by (simp add: on_handle_def)
    next
      case set
      with HSetActivity same [of "hs_handle s\<lparr>hd_activity := a, hd_changed := True\<rparr>"] show ?thesis by (simp add: on_handle_def)
    qed
  next
    case HBeginActivation
    have "handle_inv (settle_tasks (hs_tasks s) (fst (begin_activation (hs_handle s))))"
      by (rule same) (auto simp: begin_activation_def)
    with HBeginActivation show ?thesis by (simp add: on_handle_def)
  next
    case (HActivate g gid fresh)
    have "handle_inv (settle_tasks (hs_tasks s) (fst (activate g gid fresh (hs_handle s))))"
      by (rule same) (auto simp: activate_def)
    with HActivate show ?thesis by (simp add: on_handle_def)
  next
    case HFailActivation
    have "handle_inv (settle_tasks (hs_tasks s) (fail_activation (hs_handle s)))"
      by (rule same) (simp_all add: fail_activation_def)
    with HFailActivation show ?thesis by simp
  next
    case (HClose t)
    have inv': "handle_inv (settle_tasks (hs_tasks s) (close_begin (hs_handle s)))"
      by (rule same) (simp_all add: close_begin_def)
    have "lease_mode (settle_tasks (hs_tasks s) (close_begin (hs_handle s))) t = HAway" if "lease_mode s t = HAway"
      using that by (simp add: lease_mode_def settle_tasks_def close_begin_def task_mode_map)
    with HClose assms try_close_inv [OF inv' _ disjI1 [OF refl]] show ?thesis by (auto split: lease_task.split)
  qed
qed

definition lease_readers :: "'g handle_system \<Rightarrow> nat" where
  "lease_readers s = count_tasks is_reading (hs_tasks s)"

definition lease_writers :: "'g handle_system \<Rightarrow> nat" where
  "lease_writers s = count_tasks is_writing (hs_tasks s)"

lemma count_settle: "p \<in> {is_reading, is_writing} \<Longrightarrow> count_tasks p (hs_tasks (settle_tasks ts h)) = count_tasks p ts"
  by (auto simp: settle_tasks_def count_map_tasks)

lemma commit_counts:
  assumes "handle_inv s" and "\<not> p m" and "p = is_reading \<or> p = is_writing"
  shows "count_tasks p (hs_tasks (commit_task t m h s)) \<le> count_tasks p (hs_tasks s)"
proof -
  have "count_tasks p (hs_tasks (commit_task t m h s)) = count_tasks p (AList.update t m (hs_tasks s))"
    unfolding commit_task_def using assms(3) by (intro count_settle) simp
  moreover have "int (count_tasks p (AList.update t m (hs_tasks s)))
      = int (count_tasks p (hs_tasks s)) + (if p m then 1 else 0) - (if p (task_mode HAway (hs_tasks s) t) then 1 else 0)"
    by (rule count_update [OF handle_inv_facts(1) [OF assms(1)]]) (use assms(3) in auto)
  ultimately show ?thesis using assms(2) by (auto split: if_splits)
qed

lemma passes:
  "\<not> is_reading (after_pass (\<lambda>_. HWriting) (HWriteWait False) p)"
  "\<not> is_reading (after_pass (\<lambda>_. HInActivity) (HActivityWait a False) p)"
  "\<not> is_reading (after_pass (\<lambda>_. HAway) (HCloseWait False) p)"
  by (cases p; simp)+

lemma waiting_writer_blocks:
  assumes "handle_inv s" and "0 < count_tasks is_waiting_writer (hs_tasks s)"
  shows "lease_readers (fst (handle_step e s)) \<le> lease_readers s"
proof -
  have wait: "hd_writers_waiting (hs_handle s) \<noteq> 0" using assms(2) handle_inv_facts(3) [OF assms(1)] by simp
  have commit: "lease_readers (commit_task t m h s) \<le> lease_readers s" if "\<not> is_reading m" for t m h
    unfolding lease_readers_def using that by (intro commit_counts [OF assms(1)]) simp_all
  have settle: "lease_readers (settle_tasks (hs_tasks s) h) = lease_readers s" for h
    unfolding lease_readers_def by (rule count_settle) simp
  have inv': "handle_inv (settle_tasks (hs_tasks s) (close_begin (hs_handle s)))"
    by (rule settle_same_inv [OF assms(1)]) (simp_all add: close_begin_def)
  have close: "lease_readers (fst (try_close t (settle_tasks (hs_tasks s) (close_begin (hs_handle s))))) \<le> lease_readers s" for t
    using commit_counts [where p = is_reading, OF inv' passes(3)] settle [of "close_begin (hs_handle s)"]
    by (auto simp: try_close_def lease_readers_def split: prod.split)
  have "lease_readers (fst (try_read t s)) \<le> lease_readers s" for t
    using wait commit by (auto simp: try_read_def reader_pass_def)
  moreover have "lease_readers (fst (try_write t h s)) \<le> lease_readers s"
    "lease_readers (fst (try_activity t a s)) \<le> lease_readers s"
    "lease_readers (fst (try_close t s)) \<le> lease_readers s" for t h a
    by (auto simp: try_write_def try_activity_def try_close_def passes split: prod.split intro!: commit)
  ultimately show ?thesis
    by (cases e) (auto simp: commit settle close on_handle_def split: lease_task.split bool.split sum.split)
qed

interpretation generation_rw: rw_lock handle_step handle_inv lease_readers lease_writers
  "\<lambda>s. count_tasks is_waiting_writer (hs_tasks s)"
proof unfold_locales
  show "handle_inv s \<Longrightarrow> handle_inv (fst (handle_step e s))" for e and s :: "'a handle_system" by (rule handle_step_inv)
  show "handle_inv s \<Longrightarrow> lease_writers s = 0 \<or> lease_writers s = 1 \<and> lease_readers s = 0" for s :: "'a handle_system"
    using handle_inv_facts(2,4,5) [of s] by (auto simp: lease_readers_def lease_writers_def split: if_splits)
  show "handle_inv s \<Longrightarrow> 0 < count_tasks is_waiting_writer (hs_tasks s)
    \<Longrightarrow> lease_readers (fst (handle_step e s)) \<le> lease_readers s" for s :: "'a handle_system" and e
    by (rule waiting_writer_blocks)
qed

definition leases_after :: "'g \<Rightarrow> string \<Rightarrow> string \<Rightarrow> 'g handle_event list \<Rightarrow> 'g handle_system" where
  "leases_after g gid fresh es = fst (run_ops handle_step es \<lparr>hs_handle = mk_handle g gid fresh, hs_tasks = []\<rparr>)"

lemma leases_after_inv: "handle_inv (leases_after g gid fresh es)"
  unfolding leases_after_def
  by (rule generation_rw.run_inv) (simp add: handle_inv_def mk_handle_def all_tasks_def)

section \<open>Properties\<close>

lemma hs_handle_commit [simp]: "hs_handle (commit_task t m h s) = h" "hs_handle (settle_tasks ts h) = h"
  by (simp_all add: commit_task_def settle_tasks_def)

lemmas pass_defs = try_read_def reader_pass_def try_write_def writer_pass_def writer_begin_def writer_finally_def
  try_activity_def activity_pass_def try_close_def close_pass_def close_begin_def fail_activation_def
  read_exit_def write_exit_def activity_exit_eq on_handle_def

lemma set_activity_keeps [simp]:
  "hd_generation (fst (set_handle_activity a h)) = hd_generation h"
  "hd_closed (fst (set_handle_activity a h)) = hd_closed h"
  "set_handle_activity a h = (h', r) \<Longrightarrow> hd_generation h' = hd_generation h \<and> hd_closed h' = hd_closed h"
  by (auto simp: set_handle_activity_def split: if_splits)

lemma generation_changes:
  assumes "handle_inv s" and "0 < hd_readers (hs_handle s)"
  shows "hd_generation (hs_handle (fst (handle_step e s))) = hd_generation (hs_handle s)"
proof (cases e)
  case (HActivate g gid fresh)
  with assms(2) show ?thesis by (simp add: on_handle_def activate_def)
qed (simp_all add: pass_defs begin_activation_def split: lease_task.split bool.split sum.split prod.split)

text \<open>
  C38: a lease to read pins the generation. In every state the tasks of a handle can reach, a task
  inside its read lease sees the current generation, nobody holds the write lease, and no event of
  any task, an activation included, replaces that generation before the lease ends.
\<close>

theorem read_lease_pins_generation:
  assumes "lease_mode (leases_after g gid fresh es) t = HReading x"
  shows "hd_generation (hs_handle (leases_after g gid fresh es)) = x
     \<and> lease_writers (leases_after g gid fresh es) = 0
     \<and> hd_generation (hs_handle (fst (handle_step e (leases_after g gid fresh es)))) = x"
proof -
  let ?s = "leases_after g gid fresh es"
  note inv = leases_after_inv [of g gid fresh es]
  have pos: "0 < hd_readers (hs_handle ?s)" using lease_mode_fact(1) [OF inv, of t] assms by simp
  have "lease_current (hs_handle ?s) (lease_mode ?s t)"
    using all_tasks_mode [OF handle_inv_facts(7) [OF inv], of HAway t] by (simp add: lease_mode_def)
  then have x: "hd_generation (hs_handle ?s) = x" by (simp add: assms)
  have "lease_writers ?s = 0"
    using handle_inv_facts(4,5) [OF inv] pos by (auto simp: lease_writers_def split: if_splits)
  with x generation_changes [OF inv pos, of e] show ?thesis by simp
qed

theorem read_lease_pins_generation_witness:
  "hd_generation (hs_handle (fst (handle_step (HActivate (7::nat) ''g7'' [])
      (leases_after 1 ''g1'' [] [HRead 1, HWrite 2, HCancel 2, HRead 3])))) = 1"
proof -
  have "lease_mode (leases_after (1::nat) ''g1'' [] [HRead 1, HWrite 2, HCancel 2, HRead 3]) 3 = HReading 1" by code_simp
  from read_lease_pins_generation [OF this] show ?thesis by blast
qed

lemma closed_stays: "hd_closed (hs_handle s) \<Longrightarrow> hd_closed (hs_handle (fst (handle_step e s)))"
  by (cases e) (simp_all add: pass_defs begin_activation_def activate_def
      split: lease_task.split bool.split sum.split prod.split)

lemma closed_counts:
  assumes inv: "handle_inv s" and closed: "hd_closed (hs_handle s)" and p: "p = is_reading \<or> p = is_writing"
  shows "count_tasks p (hs_tasks (fst (handle_step e s))) \<le> count_tasks p (hs_tasks s)"
proof -
  have commit: "count_tasks p (hs_tasks (commit_task t m h s)) \<le> count_tasks p (hs_tasks s)"
    if "\<not> is_reading m" "\<not> is_writing m" for t m h
    using p that by (intro commit_counts [OF inv]) auto
  have settle: "count_tasks p (hs_tasks (settle_tasks (hs_tasks s) h)) = count_tasks p (hs_tasks s)" for h
    using p by (intro count_settle) auto
  have inv': "handle_inv (settle_tasks (hs_tasks s) (close_begin (hs_handle s)))"
    by (rule settle_same_inv [OF inv]) (simp_all add: close_begin_def)
  have "count_tasks p (hs_tasks (commit_task t m h (settle_tasks (hs_tasks s) (close_begin (hs_handle s)))))
      \<le> count_tasks p (hs_tasks s)" if "\<not> is_reading m" "\<not> is_writing m" for t m h
    using commit_counts [OF inv' _ p, of m t h] p that settle by auto
  then show ?thesis using closed
    by (cases e) (auto simp: commit settle on_handle_def try_read_def reader_pass_def try_write_def writer_pass_def
        writer_begin_def try_activity_def activity_pass_def try_close_def close_pass_def
        split: lease_task.split bool.split sum.split)
qed

text \<open>
  C39: closing drains the handle. Once a handle is closed it stays closed; no event lets another
  reader or writer in, and a task that asks for either lease gets the error of a closed generation;
  a task waiting in \<open>close\<close> sleeps only while somebody still holds a lease, so the last release wakes
  it; and when nobody does, resuming it ends the wait.
\<close>

theorem close_drains:
  assumes "hd_closed (hs_handle (leases_after g gid fresh es))"
  shows "hd_closed (hs_handle (fst (handle_step e (leases_after g gid fresh es))))
     \<and> lease_readers (fst (handle_step e (leases_after g gid fresh es))) \<le> lease_readers (leases_after g gid fresh es)
     \<and> lease_writers (fst (handle_step e (leases_after g gid fresh es))) \<le> lease_writers (leases_after g gid fresh es)
     \<and> (lease_mode (leases_after g gid fresh es) t = HAway
         \<longrightarrow> snd (handle_step (HRead t) (leases_after g gid fresh es)) = Some closed_error
           \<and> snd (handle_step (HWrite t) (leases_after g gid fresh es)) = Some closed_error)
     \<and> (lease_mode (leases_after g gid fresh es) t = HCloseWait woken
         \<longrightarrow> (woken \<or> 0 < lease_readers (leases_after g gid fresh es) + lease_writers (leases_after g gid fresh es))
           \<and> (lease_readers (leases_after g gid fresh es) + lease_writers (leases_after g gid fresh es) = 0
               \<longrightarrow> lease_mode (fst (handle_step (HResume t) (leases_after g gid fresh es))) t = HAway))"
proof -
  let ?s = "leases_after g gid fresh es"
  note inv = leases_after_inv [of g gid fresh es]
  note facts = handle_inv_facts [OF inv]
  have counts: "lease_readers (fst (handle_step e ?s)) \<le> lease_readers ?s"
    "lease_writers (fst (handle_step e ?s)) \<le> lease_writers ?s"
    unfolding lease_readers_def lease_writers_def by (rule closed_counts [OF inv assms]; simp)+
  have refused: "snd (handle_step (HRead t) ?s) = Some closed_error \<and> snd (handle_step (HWrite t) ?s) = Some closed_error"
    if "lease_mode ?s t = HAway"
    using assms that by (simp add: try_read_def reader_pass_def try_write_def writer_pass_def writer_begin_def)
  have awake: "woken \<or> 0 < lease_readers ?s + lease_writers ?s" if "lease_mode ?s t = HCloseWait woken"
  proof -
    have "lease_justified (hs_handle ?s) (lease_mode ?s t)"
      using all_tasks_mode [OF facts(6), of HAway t] by (simp add: lease_mode_def)
    then show ?thesis using that facts(2,4)
      by (cases woken) (auto simp: lease_readers_def lease_writers_def split: if_splits)
  qed
  have finish: "lease_mode (fst (handle_step (HResume t) ?s)) t = HAway"
    if "lease_mode ?s t = HCloseWait woken" "lease_readers ?s + lease_writers ?s = 0"
  proof -
    have "woken" using awake that by simp
    moreover have "hd_readers (hs_handle ?s) = 0" "\<not> hd_writer (hs_handle ?s)"
      using that(2) facts(2,4) by (auto simp: lease_readers_def lease_writers_def split: if_splits)
    ultimately show ?thesis using that(1)
      by (simp add: try_close_def close_pass_def lease_mode_def commit_task_def settle_tasks_def
          task_mode_map task_mode_update)
  qed
  show ?thesis
  proof (intro conjI impI)
    show "hd_closed (hs_handle (fst (handle_step e ?s)))" by (rule closed_stays [OF assms])
    show "lease_readers (fst (handle_step e ?s)) \<le> lease_readers ?s" "lease_writers (fst (handle_step e ?s)) \<le> lease_writers ?s"
      by (rule counts)+
  next
    assume "lease_mode ?s t = HAway"
    from refused [OF this] show "snd (handle_step (HRead t) ?s) = Some closed_error"
      "snd (handle_step (HWrite t) ?s) = Some closed_error" by (rule conjunct1, rule conjunct2)
  next
    assume m: "lease_mode ?s t = HCloseWait woken"
    show "woken \<or> 0 < lease_readers ?s + lease_writers ?s" by (rule awake [OF m])
    assume "lease_readers ?s + lease_writers ?s = 0"
    with m show "lease_mode (fst (handle_step (HResume t) ?s)) t = HAway" by (rule finish)
  qed
qed

theorem close_drains_witness:
  "lease_mode (fst (handle_step (HResume 9) (leases_after (1::nat) ''g1'' [] [HRead 1, HClose 9, HExit 1]))) 9 = HAway
   \<and> snd (handle_step (HRead 5) (leases_after (1::nat) ''g1'' [] [HRead 1, HClose 9, HExit 1])) = Some closed_error"
proof -
  let ?s = "leases_after (1::nat) ''g1'' [] [HRead 1, HClose 9, HExit 1]"
  have closed: "hd_closed (hs_handle ?s)" by code_simp
  have m: "lease_mode ?s 9 = HCloseWait True" "lease_mode ?s 5 = HAway" by code_simp+
  have free: "lease_readers ?s + lease_writers ?s = 0" by code_simp
  from close_drains [OF closed, where t = 9 and woken = True] close_drains [OF closed, where t = 5] m free
  show ?thesis by metis
qed

end
