(* ===== verification/Json.thy ===== *)
theory Json
  imports Prelude
begin

text \<open>
  JSON values and their stable serialization (tinysoul/infra/json). A dynamic Python value is
  a \<open>pyval\<close>; a JSON value is a \<open>json\<close>; an object is an association list in insertion
  order. A finite float is carried by the text \<open>repr\<close> gives for it.
\<close>

datatype pyfloat = Finite string | NaN | PosInf | NegInf

datatype json =
    JNull
  | JBool bool
  | JInt int
  | JFloat pyfloat
  | JStr string
  | JArr "json list"
  | JObj "(string \<times> json) list"

type_synonym json_object = "(string \<times> json) list"

text \<open>The dynamic values \<open>to_json_value\<close> inspects; \<open>PyOther\<close> is any other object, by its type name.\<close>

datatype pyval =
    PyNone
  | PyBool bool
  | PyInt int
  | PyFloat pyfloat
  | PyStr string
  | PyList "pyval list"
  | PyTuple "pyval list"
  | PyMap "(pyval \<times> pyval) list"
  | PyOther string

datatype json_error = JsonTypeError string

fun to_json_value :: "pyval \<Rightarrow> json_error + json"
  and to_json_items :: "pyval list \<Rightarrow> json_error + json list"
  and to_json_fields :: "(pyval \<times> pyval) list \<Rightarrow> json_object \<Rightarrow> json_error + json_object"
where
  "to_json_value PyNone = Inr JNull"
| "to_json_value (PyBool b) = Inr (JBool b)"
| "to_json_value (PyInt i) = Inr (JInt i)"
| "to_json_value (PyFloat x) = Inr (JFloat x)"
| "to_json_value (PyStr s) = Inr (JStr s)"
| "to_json_value (PyList xs) =
     (case to_json_items xs of Inl e \<Rightarrow> Inl e | Inr ys \<Rightarrow> Inr (JArr ys))"
| "to_json_value (PyTuple xs) =
     (case to_json_items xs of Inl e \<Rightarrow> Inl e | Inr ys \<Rightarrow> Inr (JArr ys))"
| "to_json_value (PyMap kvs) =
     (case to_json_fields kvs [] of Inl e \<Rightarrow> Inl e | Inr o' \<Rightarrow> Inr (JObj o'))"
| "to_json_value (PyOther t) =
     Inl (JsonTypeError (''Value is not JSON serializable: '' @ t))"
| "to_json_items [] = Inr []"
| "to_json_items (x # xs) =
     (case to_json_value x of Inl e \<Rightarrow> Inl e
      | Inr y \<Rightarrow> (case to_json_items xs of Inl e \<Rightarrow> Inl e | Inr ys \<Rightarrow> Inr (y # ys)))"
| "to_json_fields [] result = Inr result"
| "to_json_fields ((PyStr k, v) # kvs) result =
     (case to_json_value v of Inl e \<Rightarrow> Inl e
      | Inr j \<Rightarrow> to_json_fields kvs (AList.update k j result))"
| "to_json_fields ((_, v) # kvs) result = Inl (JsonTypeError ''JSON object keys must be strings'')"

definition to_json_object :: "pyval \<Rightarrow> json_error + json_object" where
  "to_json_object v =
     (case to_json_value v of
        Inl e \<Rightarrow> Inl e
      | Inr (JObj o') \<Rightarrow> Inr o'
      | Inr _ \<Rightarrow> Inl (JsonTypeError ''JSON value must be an object''))"

text \<open>The JSON values as the Python values they are.\<close>

fun py_of_json :: "json \<Rightarrow> pyval" where
  "py_of_json JNull = PyNone"
| "py_of_json (JBool b) = PyBool b"
| "py_of_json (JInt i) = PyInt i"
| "py_of_json (JFloat x) = PyFloat x"
| "py_of_json (JStr s) = PyStr s"
| "py_of_json (JArr xs) = PyList (map py_of_json xs)"
| "py_of_json (JObj kvs) = PyMap (map (\<lambda>(k, v). (PyStr k, py_of_json v)) kvs)"

text \<open>A JSON value whose objects are dictionaries: no key occurs twice.\<close>

fun json_wf :: "json \<Rightarrow> bool" where
  "json_wf (JArr xs) = list_all json_wf xs"
| "json_wf (JObj kvs) = (distinct (dict_keys kvs) \<and> list_all (\<lambda>(k, v). json_wf v) kvs)"
| "json_wf _ = True"

section \<open>Serialization\<close>

definition hex_digit :: "nat \<Rightarrow> char" where
  "hex_digit n = (if n < 10 then char_of (48 + n) else char_of (87 + n))"

text \<open>The escapes of \<open>json.dumps\<close> with \<open>ensure_ascii=False\<close>.\<close>

definition json_escape_char :: "char \<Rightarrow> string" where
  "json_escape_char c =
     (let n = (of_char c :: nat); bs = (char_of (92::nat) :: char) in
      if n = 34 then [bs, c]
      else if n = 92 then [bs, c]
      else if n = 8 then [bs, CHR ''b'']
      else if n = 12 then [bs, CHR ''f'']
      else if n = 10 then [bs, CHR ''n'']
      else if n = 13 then [bs, CHR ''r'']
      else if n = 9 then [bs, CHR ''t'']
      else if n < 32 then [bs, CHR ''u'', CHR ''0'', CHR ''0'', hex_digit (n div 16), hex_digit (n mod 16)]
      else [c])"

definition json_quote :: "string \<Rightarrow> string" where
  "json_quote s = (let q = char_of (34::nat) in [q] @ concat (map json_escape_char s) @ [q])"

definition float_text :: "pyfloat \<Rightarrow> string" where
  "float_text x = (case x of Finite r \<Rightarrow> r | NaN \<Rightarrow> ''NaN'' | PosInf \<Rightarrow> ''Infinity'' | NegInf \<Rightarrow> ''-Infinity'')"

text \<open>
  \<open>json.dumps(value, ensure_ascii=False, sort_keys=True, separators=(isep, ksep))\<close>. The
  members are rendered and then sorted by their keys, which are distinct.
\<close>

fun json_dumps :: "string \<Rightarrow> string \<Rightarrow> json \<Rightarrow> string" where
  "json_dumps isep ksep JNull = ''null''"
| "json_dumps isep ksep (JBool b) = (if b then ''true'' else ''false'')"
| "json_dumps isep ksep (JInt i) = show_int i"
| "json_dumps isep ksep (JFloat x) = float_text x"
| "json_dumps isep ksep (JStr s) = json_quote s"
| "json_dumps isep ksep (JArr xs) = ''['' @ py_join isep (map (json_dumps isep ksep) xs) @ '']''"
| "json_dumps isep ksep (JObj kvs) =
     ''{'' @ py_join isep (map (\<lambda>(k, t). json_quote k @ ksep @ t)
       (sort_key fst (map (\<lambda>(k, v). (k, json_dumps isep ksep v)) kvs))) @ ''}''"

definition dumps_json :: "json \<Rightarrow> string" where
  "dumps_json value = json_dumps '','' '':'' value"

text \<open>\<open>allow_nan=False\<close> makes \<open>json.dumps\<close> raise \<open>ValueError\<close> on a non-finite float.\<close>

fun json_finite :: "json \<Rightarrow> bool" where
  "json_finite (JFloat x) = (case x of Finite _ \<Rightarrow> True | _ \<Rightarrow> False)"
| "json_finite (JArr xs) = list_all json_finite xs"
| "json_finite (JObj kvs) = list_all (\<lambda>(k, v). json_finite v) kvs"
| "json_finite _ = True"

text \<open>\<open>s.encode("utf-8")\<close> on the model's alphabet.\<close>

definition utf8_char :: "char \<Rightarrow> string" where
  "utf8_char c = (let n = (of_char c :: nat) in
     if n < 128 then [c] else [char_of (192 + n div 64), char_of (128 + n mod 64)])"

definition utf8 :: "string \<Rightarrow> string" where
  "utf8 s = concat (map utf8_char s)"

section \<open>Lemmas\<close>

text \<open>A JSON value converts to itself.\<close>

lemma to_json_fields_ok:
  assumes "\<And>k v. (k, v) \<in> set kvs \<Longrightarrow> to_json_value (py_of_json v) = Inr v"
    and "distinct (dict_keys (acc @ kvs))"
  shows "to_json_fields (map (\<lambda>(k, v). (PyStr k, py_of_json v)) kvs) acc = Inr (acc @ kvs)"
  using assms
proof (induction kvs arbitrary: acc)
  case (Cons kv kvs)
  obtain k v where kv: "kv = (k, v)" by (cases kv)
  have "k \<notin> set (dict_keys acc)" using Cons.prems(2) kv by auto
  moreover have "to_json_fields (map (\<lambda>(k, v). (PyStr k, py_of_json v)) kvs) (acc @ [(k, v)])
      = Inr ((acc @ [(k, v)]) @ kvs)"
    using Cons.prems kv by (intro Cons.IH) auto
  ultimately show ?case using Cons.prems(1) [of k v] kv by (simp add: update_fresh)
qed simp

lemma to_json_items_ok:
  "(\<And>x. x \<in> set xs \<Longrightarrow> to_json_value (py_of_json x) = Inr x) \<Longrightarrow>
   to_json_items (map py_of_json xs) = Inr xs"
  by (induction xs) auto

lemma to_json_value_json: "json_wf j \<Longrightarrow> to_json_value (py_of_json j) = Inr j"
proof (induction j rule: py_of_json.induct)
  case (6 xs)
  then show ?case by (auto simp: list_all_iff to_json_items_ok)
next
  case (7 kvs)
  have "to_json_fields (map (\<lambda>(k, v). (PyStr k, py_of_json v)) kvs) [] = Inr ([] @ kvs)"
    by (rule to_json_fields_ok) (use 7 in \<open>auto simp: list_all_iff\<close>)
  then show ?case by simp
qed simp_all

lemma distinct_keys_update: "distinct (dict_keys d) \<Longrightarrow> distinct (dict_keys (AList.update k v d))"
  by (rule distinct_update)

text \<open>Whatever the conversion returns is a JSON value with dictionaries for objects.\<close>

lemma list_all_update:
  "list_all P d \<Longrightarrow> P (k, v) \<Longrightarrow> list_all P (AList.update k v d)"
  by (induction d) auto

lemma to_json_wf:
  "to_json_value v = Inr j \<Longrightarrow> json_wf j"
  "to_json_items vs = Inr js \<Longrightarrow> list_all json_wf js"
  "to_json_fields fs acc = Inr obj \<Longrightarrow> json_wf (JObj acc) \<Longrightarrow> json_wf (JObj obj)"
proof (induction v and vs and fs acc arbitrary: j and js and obj
    rule: to_json_value_to_json_items_to_json_fields.induct)
  case (13 k v kvs result)
  then obtain j where j: "to_json_value v = Inr j"
    and r: "to_json_fields kvs (AList.update k j result) = Inr obj"
    by (auto split: sum.splits)
  have "json_wf (JObj (AList.update k j result))"
    using "13.IH"(1) [OF j] "13.prems"(2)
    by (simp add: distinct_keys_update list_all_update)
  then show ?case using "13.IH"(2) [OF j r] by blast
qed (auto split: sum.splits)

text \<open>The text does not depend on the order in which an object's members were inserted.\<close>

lemma sort_key_fst_perm:
  assumes "mset xs = mset ys" and "distinct (dict_keys xs)"
  shows "sort_key fst xs = sort_key (fst :: 'a :: linorder \<times> 'b \<Rightarrow> 'a) ys"
proof (rule map_sorted_distinct_set_unique)
  have "mset (dict_keys ys) = mset (dict_keys xs)" by (metis assms(1) mset_map)
  then have dys: "distinct (dict_keys ys)"
    using assms(2) by (metis mset_eq_imp_distinct_iff)
  have same: "set ys = set xs" by (metis assms(1) set_mset_mset)
  show "inj_on fst (set (sort_key fst xs) \<union> set (sort_key fst ys))"
    using assms(2) by (simp add: same distinct_map)
  show "distinct (map fst (sort_key fst xs))" "distinct (map fst (sort_key fst ys))"
    using assms(2) dys by (simp_all add: distinct_map)
  show "set (sort_key fst xs) = set (sort_key fst ys)" by (simp add: same)
qed simp_all

lemma json_dumps_perm:
  assumes "mset kvs = mset kvs'" and "distinct (dict_keys kvs)"
  shows "json_dumps isep ksep (JObj kvs) = json_dumps isep ksep (JObj kvs')"
proof -
  let ?r = "\<lambda>(k, v). (k, json_dumps isep ksep v)"
  have "mset (map ?r kvs) = mset (map ?r kvs')" using assms(1) by simp
  moreover have "distinct (dict_keys (map ?r kvs))"
    using assms(2) by (simp add: comp_def case_prod_beta)
  ultimately have "sort_key fst (map ?r kvs) = sort_key fst (map ?r kvs')"
    by (rule sort_key_fst_perm)
  then show ?thesis by simp
qed

end
