(* ===== verification/Runtime.thy ===== *)
theory Runtime
  imports Json
begin

text \<open>
  The runtime primitives (tinysoul/runtime/control, tinysoul/runtime/signals): frames and scopes,
  transfers, structured signals and the thread-safe signal queue, and the exceptions that cross
  module boundaries. Each checked dataclass is a record with its constructor \<open>mk_...\<close>.
\<close>

section \<open>Frames and scopes\<close>

datatype run_level = RL_AGENT | RL_TURN | RL_CYCLE | RL_PHASE | RL_MODULE

datatype cycle_phase = PHASE1 | PHASE2 | PHASE3

fun run_level_value :: "run_level \<Rightarrow> string" where
  "run_level_value RL_AGENT = ''agent''"
| "run_level_value RL_TURN = ''turn''"
| "run_level_value RL_CYCLE = ''cycle''"
| "run_level_value RL_PHASE = ''phase''"
| "run_level_value RL_MODULE = ''module''"

fun cycle_phase_value :: "cycle_phase \<Rightarrow> string" where
  "cycle_phase_value PHASE1 = ''phase1''"
| "cycle_phase_value PHASE2 = ''phase2''"
| "cycle_phase_value PHASE3 = ''phase3''"

record run_frame =
  rf_level :: run_level
  rf_name :: string

text \<open>A scope is the stack of its frames, outermost first.\<close>

type_synonym run_scope = "run_frame list"

datatype transfer_action = RETRY | END | SUSPEND

record runtime_transfer =
  tr_action :: transfer_action
  tr_target :: run_frame

record signal =
  sig_name :: string
  sig_source :: string
  sig_scope :: run_scope
  sig_payload :: json_object

record runtime_exception =
  rx_reason :: string
  rx_message :: string
  rx_payload :: json_object

text \<open>
  The Context errors as its bridge tells them apart: the budget error with its estimates, the
  contract errors by the name of their class, and the others.
\<close>

datatype context_fault =
    ContextBudgetFault int int "int option" json_object
  | ContextContractFault string
  | ContextInvariantFault
  | OtherContextFault string

text \<open>
  The exceptions the runtime raises or passes on. A transfer interrupt carries the runtime
  exception it was raised from, where there is one. Any other \<open>Exception\<close> is known by the name of
  its class; \<open>AsyncCancelled\<close> is \<open>asyncio.CancelledError\<close>, which is no \<open>Exception\<close>.
\<close>

datatype exn =
    RuntimeContractError string
  | RuntimeInvariantError string
  | LoopContractError string
  | LoopInvariantError string
  | ContextException context_fault
  | TaskCancelled
  | ActionExecutionCancelled
  | RuntimeException runtime_exception
  | RuntimeTransferInterrupt runtime_transfer "runtime_exception option"
  | AsyncCancelled
  | OtherException string

definition mk_run_frame :: "run_level \<Rightarrow> string \<Rightarrow> exn + run_frame" where
  "mk_run_frame level name =
     (if name = [] then Inl (RuntimeContractError ''RunFrame.name must be non-empty'')
      else Inr \<lparr>rf_level = level, rf_name = name\<rparr>)"

definition run_frame_str :: "run_frame \<Rightarrow> string" where
  "run_frame_str f = run_level_value (rf_level f) @ '':'' @ rf_name f"

definition scope_current :: "run_scope \<Rightarrow> run_frame option" where
  "scope_current frames = (if frames = [] then None else Some (last frames))"

definition scope_push :: "run_scope \<Rightarrow> run_level \<Rightarrow> string \<Rightarrow> exn + run_scope" where
  "scope_push frames level name =
     (case mk_run_frame level name of Inl e \<Rightarrow> Inl e | Inr f \<Rightarrow> Inr (frames @ [f]))"

definition scope_nearest :: "run_scope \<Rightarrow> run_level \<Rightarrow> run_frame option" where
  "scope_nearest frames level = find (\<lambda>f. rf_level f = level) (rev frames)"

definition scope_contains :: "run_scope \<Rightarrow> run_frame \<Rightarrow> bool" where
  "scope_contains frames f = (f \<in> set frames)"

section \<open>Transfers\<close>

definition mk_transfer :: "transfer_action \<Rightarrow> run_frame \<Rightarrow> exn + runtime_transfer" where
  "mk_transfer action target =
     (if action = SUSPEND \<and> rf_level target \<noteq> RL_TURN
      then Inl (RuntimeContractError ''Only a Turn frame can be suspended'')
      else Inr \<lparr>tr_action = action, tr_target = target\<rparr>)"

definition transfer_retry :: "run_frame \<Rightarrow> exn + runtime_transfer" where
  "transfer_retry target = mk_transfer RETRY target"

definition transfer_end :: "run_frame \<Rightarrow> exn + runtime_transfer" where
  "transfer_end target = mk_transfer END target"

definition transfer_suspend :: "run_frame \<Rightarrow> exn + runtime_transfer" where
  "transfer_suspend target = mk_transfer SUSPEND target"

section \<open>Signals and exceptions\<close>

definition mk_signal :: "string \<Rightarrow> string \<Rightarrow> run_scope \<Rightarrow> pyval \<Rightarrow> exn + signal" where
  "mk_signal name source scope payload =
     (if name = [] then Inl (RuntimeContractError ''Signal.name must be non-empty'')
      else if source = [] then Inl (RuntimeContractError ''Signal.source must be non-empty'')
      else case to_json_object payload of
        Inl _ \<Rightarrow> Inl (RuntimeContractError ''Signal.payload must be a JSON object'')
      | Inr p \<Rightarrow> Inr \<lparr>sig_name = name, sig_source = source, sig_scope = scope, sig_payload = p\<rparr>)"

definition mk_runtime_exception :: "string \<Rightarrow> string \<Rightarrow> pyval \<Rightarrow> exn + runtime_exception" where
  "mk_runtime_exception reason message payload =
     (if reason = [] then Inl (RuntimeContractError ''RuntimeException.reason must be non-empty'')
      else case to_json_object payload of
        Inl _ \<Rightarrow> Inl (RuntimeContractError ''RuntimeException.payload must be a JSON object'')
      | Inr p \<Rightarrow> Inr \<lparr>rx_reason = reason, rx_message = message, rx_payload = p\<rparr>)"

section \<open>The signal bus\<close>

text \<open>
  The queue under its lock: every method body runs as one atomic step on the list of pending
  signals. A method returns the new queue and its result.
\<close>

type_synonym signal_bus = "signal list"

definition bus_emit :: "signal \<Rightarrow> signal_bus \<Rightarrow> signal_bus" where
  "bus_emit s bus = bus @ [s]"

definition bus_peek :: "signal_bus \<Rightarrow> signal list" where
  "bus_peek bus = bus"

definition bus_consume :: "signal_bus \<Rightarrow> signal_bus \<times> signal list" where
  "bus_consume bus = ([], bus)"

text \<open>The loop of \<open>consume_namespace\<close> and \<open>consume_name\<close>: it splits the queue in one pass.\<close>

fun split_signals ::
  "(signal \<Rightarrow> bool) \<Rightarrow> signal list \<Rightarrow> signal list \<Rightarrow> signal list \<Rightarrow> signal list \<times> signal list" where
  "split_signals p [] matched remaining = (matched, remaining)"
| "split_signals p (s # ss) matched remaining =
     (if p s then split_signals p ss (matched @ [s]) remaining
      else split_signals p ss matched (remaining @ [s]))"

definition in_namespace :: "string \<Rightarrow> string \<Rightarrow> bool" where
  "in_namespace prefix name = (name = prefix \<or> py_startswith name (prefix @ ''.''))"

definition bus_consume_namespace :: "string \<Rightarrow> signal_bus \<Rightarrow> signal_bus \<times> (exn + signal list)" where
  "bus_consume_namespace prefix bus =
     (if prefix = []
      then (bus, Inl (RuntimeContractError ''SignalBus.consume_namespace requires a non-empty prefix''))
      else case split_signals (\<lambda>s. in_namespace prefix (sig_name s)) bus [] [] of
        (matched, remaining) \<Rightarrow> (remaining, Inr matched))"

definition bus_consume_name :: "string \<Rightarrow> signal_bus \<Rightarrow> signal_bus \<times> (exn + signal list)" where
  "bus_consume_name name bus =
     (if name = []
      then (bus, Inl (RuntimeContractError ''SignalBus.consume_name requires a non-empty name''))
      else case split_signals (\<lambda>s. sig_name s = name) bus [] [] of
        (matched, remaining) \<Rightarrow> (remaining, Inr matched))"

section \<open>Lemmas\<close>

lemma scope_nearest_Some:
  "scope_nearest frames level = Some f \<Longrightarrow> f \<in> set frames \<and> rf_level f = level"
  by (auto simp: scope_nearest_def dest: find_Some_mem)

lemma scope_nearest_push:
  "scope_nearest (frames @ [f]) level =
     (if rf_level f = level then Some f else scope_nearest frames level)"
  by (simp add: scope_nearest_def)

lemma mk_transfer_Inr:
  "mk_transfer a f = Inr t \<longleftrightarrow> t = \<lparr>tr_action = a, tr_target = f\<rparr> \<and> (a = SUSPEND \<longrightarrow> rf_level f = RL_TURN)"
  by (auto simp: mk_transfer_def)

lemma scope_push_Inr:
  "scope_push frames level name = Inr s \<longleftrightarrow>
     name \<noteq> [] \<and> s = frames @ [\<lparr>rf_level = level, rf_name = name\<rparr>]"
  by (auto simp: scope_push_def mk_run_frame_def)

lemma scope_current_snoc [simp]: "scope_current (frames @ [f]) = Some f"
  by (simp add: scope_current_def)

lemma split_signals_filter:
  "split_signals p ss matched remaining = (matched @ filter p ss, remaining @ filter (\<lambda>s. \<not> p s) ss)"
  by (induction ss arbitrary: matched remaining) auto

lemma consume_namespace_eq:
  "prefix \<noteq> [] \<Longrightarrow> bus_consume_namespace prefix bus =
     (filter (\<lambda>s. \<not> in_namespace prefix (sig_name s)) bus,
      Inr (filter (\<lambda>s. in_namespace prefix (sig_name s)) bus))"
  by (simp add: bus_consume_namespace_def split_signals_filter)

lemma consume_name_eq:
  "name \<noteq> [] \<Longrightarrow> bus_consume_name name bus =
     (filter (\<lambda>s. sig_name s \<noteq> name) bus, Inr (filter (\<lambda>s. sig_name s = name) bus))"
  by (simp add: bus_consume_name_def split_signals_filter)

text \<open>The bus as a machine over its operations, with everything it hands out logged.\<close>

datatype bus_op = Emit signal | Consume | ConsumeNamespace string | ConsumeName string

fun bus_step :: "bus_op \<Rightarrow> signal_bus \<Rightarrow> signal_bus \<times> signal list" where
  "bus_step (Emit s) bus = (bus_emit s bus, [])"
| "bus_step Consume bus = bus_consume bus"
| "bus_step (ConsumeNamespace p) bus =
     (case bus_consume_namespace p bus of (bus', r) \<Rightarrow> (bus', case r of Inl _ \<Rightarrow> [] | Inr ss \<Rightarrow> ss))"
| "bus_step (ConsumeName n) bus =
     (case bus_consume_name n bus of (bus', r) \<Rightarrow> (bus', case r of Inl _ \<Rightarrow> [] | Inr ss \<Rightarrow> ss))"

definition emitted :: "bus_op list \<Rightarrow> signal list" where
  "emitted ops = concat (map (\<lambda>x. case x of Emit s \<Rightarrow> [s] | _ \<Rightarrow> []) ops)"

lemma mset_filter_split: "mset (filter p xs) + mset (filter (\<lambda>x. \<not> p x) xs) = mset xs"
  by (induction xs) auto

lemma bus_step_conserves:
  "mset (fst (bus_step x bus)) + mset (snd (bus_step x bus)) = mset bus + mset (emitted [x])"
proof (cases x)
  case (ConsumeNamespace p)
  then show ?thesis
    using mset_filter_split [of "\<lambda>s. in_namespace p (sig_name s)" bus]
    by (cases "p = []") (simp_all add: consume_namespace_eq bus_consume_namespace_def [of "[]"]
        emitted_def add.commute)
next
  case (ConsumeName n)
  then show ?thesis
    using mset_filter_split [of "\<lambda>s. sig_name s = n" bus]
    by (cases "n = []") (simp_all add: consume_name_eq bus_consume_name_def [of "[]"]
        emitted_def add.commute)
qed (simp_all add: bus_emit_def bus_consume_def emitted_def)

lemma bus_run_conserves:
  "mset (fst (run_ops bus_step ops bus)) + mset (concat (snd (run_ops bus_step ops bus)))
     = mset bus + mset (emitted ops)"
proof (induction ops arbitrary: bus)
  case (Cons x ops)
  obtain bus1 out where s: "bus_step x bus = (bus1, out)" by (cases "bus_step x bus")
  obtain bus2 outs where r: "run_ops bus_step ops bus1 = (bus2, outs)"
    by (cases "run_ops bus_step ops bus1")
  have "emitted (x # ops) = emitted [x] @ emitted ops" by (simp add: emitted_def)
  with Cons.IH [of bus1] bus_step_conserves [of x bus] s r show ?case
    by (simp add: ac_simps) (metis add.assoc add.commute)
qed (simp add: emitted_def)

section \<open>Properties\<close>

text \<open>
  The signal bus neither loses, duplicates nor invents a signal. Over any sequence of
  emissions and of consuming calls (all, by namespace, by exact name, rejected calls included),
  the signals handed out together with those still queued are, with multiplicity, exactly the
  ones queued at the start and the ones emitted.
\<close>

theorem bus_conserves_signals:
  "mset (fst (run_ops bus_step ops bus)) + mset (concat (snd (run_ops bus_step ops bus)))
     = mset bus + mset (emitted ops)"
  by (rule bus_run_conserves)

text \<open>
  \<open>consume_namespace\<close> is a stable partition on dotted boundaries: it hands out, in queue
  order, the signals named by the prefix itself or below it, keeps the others in order, and so a
  namespace never captures a sibling that only shares its leading characters.
\<close>

theorem consume_namespace_partition:
  assumes "prefix \<noteq> []"
  shows "bus_consume_namespace prefix bus =
      (filter (\<lambda>s. \<not> in_namespace prefix (sig_name s)) bus,
       Inr (filter (\<lambda>s. in_namespace prefix (sig_name s)) bus))
    \<and> (\<forall>rest. in_namespace prefix (prefix @ rest) \<longleftrightarrow> rest = [] \<or> hd rest = CHR ''.'')"
proof
  show "\<forall>rest. in_namespace prefix (prefix @ rest) \<longleftrightarrow> rest = [] \<or> hd rest = CHR ''.''"
  proof
    fix rest
    show "in_namespace prefix (prefix @ rest) \<longleftrightarrow> rest = [] \<or> hd rest = CHR ''.''"
      by (cases rest) (auto simp: in_namespace_def py_startswith_def)
  qed
qed (rule consume_namespace_eq [OF assms])

theorem consume_namespace_partition_witness:
  "bus_consume_namespace ''ab''
     [\<lparr>sig_name = ''ab.c'', sig_source = ''s'', sig_scope = [], sig_payload = []\<rparr>,
      \<lparr>sig_name = ''abc'', sig_source = ''s'', sig_scope = [], sig_payload = []\<rparr>]
   = ([\<lparr>sig_name = ''abc'', sig_source = ''s'', sig_scope = [], sig_payload = []\<rparr>],
      Inr [\<lparr>sig_name = ''ab.c'', sig_source = ''s'', sig_scope = [], sig_payload = []\<rparr>])"
proof -
  have "''ab'' \<noteq> ([] :: string)" by simp
  note consume_namespace_partition [OF this]
  then show ?thesis by (simp add: in_namespace_def py_startswith_def)
qed

end
