(* ===== verification/Trap.thy ===== *)
theory Trap
  imports Runtime
begin

text \<open>
  Trap handling: the handler registry (tinysoul/runtime/trap/registry.py), the snapshot and the
  trap controller (snap.py, trap.py), the module runner that replays a module call
  (tinysoul/runtime/control/frame_runner.py), and the handlers the loop installs
  (tinysoul/kernel/loop/trap_handlers.py) with the pressure-recovery contract they use.

  A handler is a function on the snapshot and on a world state, since recovery may act on it.
  Observation events are left out: \<open>emit_observation\<close> cannot alter control flow.
\<close>

section \<open>The registry\<close>

record 'h trap_registry =
  reg_exact :: "(string \<times> 'h) list"
  reg_prefix :: "(string \<times> 'h) list"
  reg_fallback :: "'h option"

definition empty_registry :: "'h trap_registry" where
  "empty_registry = \<lparr>reg_exact = [], reg_prefix = [], reg_fallback = None\<rparr>"

definition normalize_key :: "string \<Rightarrow> exn + string" where
  "normalize_key value =
     (let normalized = py_strip value in
      if normalized = [] then Inl (RuntimeContractError ''Trap registry key must be non-empty'')
      else Inr normalized)"

definition register_exact :: "string \<Rightarrow> 'h \<Rightarrow> 'h trap_registry \<Rightarrow> exn + 'h trap_registry" where
  "register_exact reason handler r =
     bind_r (normalize_key reason) (\<lambda>reason.
     if reason \<in> set (dict_keys (reg_exact r))
     then Inl (RuntimeContractError (''Trap handler already registered: '' @ reason))
     else Inr (r\<lparr>reg_exact := AList.update reason handler (reg_exact r)\<rparr>))"

definition register_prefix :: "string \<Rightarrow> 'h \<Rightarrow> 'h trap_registry \<Rightarrow> exn + 'h trap_registry" where
  "register_prefix prefix handler r =
     bind_r (normalize_key prefix) (\<lambda>prefix.
     if prefix \<in> set (dict_keys (reg_prefix r))
     then Inl (RuntimeContractError (''Trap prefix handler already registered: '' @ prefix))
     else Inr (r\<lparr>reg_prefix := AList.update prefix handler (reg_prefix r)\<rparr>))"

definition register_fallback :: "'h \<Rightarrow> 'h trap_registry \<Rightarrow> exn + 'h trap_registry" where
  "register_fallback handler r =
     (if reg_fallback r \<noteq> None
      then Inl (RuntimeContractError ''Trap fallback handler is already registered'')
      else Inr (r\<lparr>reg_fallback := Some handler\<rparr>))"

text \<open>\<open>max(matches, key=len)\<close>: the first of the longest.\<close>

fun longest :: "(string \<times> 'h) list \<Rightarrow> (string \<times> 'h) option" where
  "longest [] = None"
| "longest (m # ms) =
     (case longest ms of
        None \<Rightarrow> Some m
      | Some b \<Rightarrow> if length (fst b) > length (fst m) then Some b else Some m)"

definition match_prefix :: "string \<Rightarrow> 'h trap_registry \<Rightarrow> 'h option" where
  "match_prefix reason r =
     (case longest (filter (\<lambda>(prefix, h). in_namespace prefix reason) (reg_prefix r)) of
        None \<Rightarrow> None
      | Some (prefix, h) \<Rightarrow> Some h)"

definition handler_for :: "string \<Rightarrow> 'h trap_registry \<Rightarrow> exn + 'h" where
  "handler_for reason r =
     bind_r (normalize_key reason) (\<lambda>reason.
     case map_of (reg_exact r) reason of
       Some h \<Rightarrow> Inr h
     | None \<Rightarrow> (case match_prefix reason r of
         Some h \<Rightarrow> Inr h
       | None \<Rightarrow> (case reg_fallback r of
           Some h \<Rightarrow> Inr h
         | None \<Rightarrow> Inl (RuntimeContractError (''Unknown trap reason: '' @ reason)))))"

definition wf_registry :: "'h trap_registry \<Rightarrow> bool" where
  "wf_registry r = (distinct (dict_keys (reg_exact r)) \<and> distinct (dict_keys (reg_prefix r)))"

section \<open>Snapshots and the trap\<close>

record trap_snap =
  ts_reason :: string
  ts_message :: string
  ts_payload :: json_object
  ts_scope :: run_scope
  ts_traceback :: "string option"

definition snap_of_exception :: "runtime_exception \<Rightarrow> run_scope \<Rightarrow> string option \<Rightarrow> trap_snap" where
  "snap_of_exception e scope traceback_text =
     \<lparr>ts_reason = rx_reason e, ts_message = rx_message e, ts_payload = rx_payload e,
      ts_scope = scope, ts_traceback = traceback_text\<rparr>"

record trap_result =
  tres_transfer :: runtime_transfer
  tres_signals :: "signal list"

type_synonym 'w trap_handler = "trap_snap \<Rightarrow> 'w \<Rightarrow> 'w \<times> (exn + trap_result)"

definition trap_capture ::
  "'w trap_handler trap_registry \<Rightarrow> runtime_exception \<Rightarrow> run_scope \<Rightarrow> string option \<Rightarrow> 'w
     \<Rightarrow> 'w \<times> (exn + trap_result)" where
  "trap_capture registry e scope tb w =
     (let snap = snap_of_exception e scope tb in
      case handler_for (ts_reason snap) registry of
        Inl _ \<Rightarrow> (w, Inl (RuntimeInvariantError
          (''No trap handler registered for runtime reason: '' @ ts_reason snap)))
      | Inr handler \<Rightarrow>
          (case handler snap w of
             (w', Inl err) \<Rightarrow> (w', Inl err)
           | (w', Inr result) \<Rightarrow>
               (if tr_action (tres_transfer result) = SUSPEND
                   \<and> Some (tr_target (tres_transfer result)) \<noteq> scope_current (ts_scope snap)
                then (w', Inl (RuntimeInvariantError ''Suspension requires the current Turn boundary''))
                else if \<not> scope_contains (ts_scope snap) (tr_target (tres_transfer result))
                then (w', Inl (RuntimeInvariantError
                  (''Trap handler returned a transfer target outside the captured scope: ''
                   @ run_frame_str (tr_target (tres_transfer result)))))
                else (w', Inr result))))"

section \<open>The module runner\<close>

text \<open>
  The world of a runner is the callers' state with the signal bus. The callback is the module
  call, awaited to its end; \<open>consume_recovery_signals\<close> is optional.
\<close>

type_synonym 'w world = "'w \<times> signal_bus"

record ('w, 'v) module_env =
  me_registry :: "'w world trap_handler trap_registry"
  me_callback :: "run_scope \<Rightarrow> 'w world \<Rightarrow> 'w world \<times> (exn + 'v)"
  me_recovery :: "(signal list \<Rightarrow> run_scope \<Rightarrow> 'w world \<Rightarrow> 'w world \<times> (exn + unit)) option"

datatype ('w, 'v) attempt = Retry "'w world" | Done "'w world" "exn + 'v"

text \<open>The signals of a trap result: handed to the consumer if there is one, emitted otherwise.\<close>

definition deliver_signals ::
  "('w, 'v) module_env \<Rightarrow> signal list \<Rightarrow> run_scope \<Rightarrow> 'w world \<Rightarrow> 'w world \<times> (exn + unit)" where
  "deliver_signals env signals module_scope w =
     (case me_recovery env of
        Some consume \<Rightarrow> (if signals \<noteq> [] then consume signals module_scope w else (w, Inr ()))
      | None \<Rightarrow> ((fst w, foldl (\<lambda>bus s. bus_emit s bus) (snd w) signals), Inr ()))"

text \<open>One pass of the \<open>while True\<close> loop.\<close>

definition module_attempt ::
  "('w, 'v) module_env \<Rightarrow> run_scope \<Rightarrow> run_frame \<Rightarrow> 'w world \<Rightarrow> ('w, 'v) attempt" where
  "module_attempt env module_scope module_frame w =
     (case me_callback env module_scope w of
        (w1, Inr value) \<Rightarrow> Done w1 (Inr value)
      | (w1, Inl (RuntimeException e)) \<Rightarrow>
          (case trap_capture (me_registry env) e module_scope None w1 of
             (w2, Inl err) \<Rightarrow> Done w2 (Inl err)
           | (w2, Inr result) \<Rightarrow>
               (case deliver_signals env (tres_signals result) module_scope w2 of
                  (w3, Inl err) \<Rightarrow> Done w3 (Inl err)
                | (w3, Inr _) \<Rightarrow>
                    (if tr_target (tres_transfer result) = module_frame
                     then (if tr_action (tres_transfer result) = RETRY then Retry w3
                           else Done w3 (Inl (RuntimeInvariantError
                             ''A module END transfer cannot produce a module result'')))
                     else Done w3 (Inl (RuntimeTransferInterrupt (tres_transfer result) (Some e))))))
      | (w1, Inl err) \<Rightarrow> Done w1 (Inl err))"

partial_function (option) module_loop ::
  "('w, 'v) module_env \<Rightarrow> run_scope \<Rightarrow> run_frame \<Rightarrow> 'w world \<Rightarrow> ('w world \<times> (exn + 'v)) option" where
  "module_loop env module_scope module_frame w =
     (case module_attempt env module_scope module_frame w of
        Done w' r \<Rightarrow> Some (w', r)
      | Retry w' \<Rightarrow> module_loop env module_scope module_frame w')"

text \<open>\<open>RuntimeModuleRunner.run\<close>: None is a call that never returns.\<close>

definition module_run ::
  "('w, 'v) module_env \<Rightarrow> run_scope \<Rightarrow> string \<Rightarrow> 'w world \<Rightarrow> ('w world \<times> (exn + 'v)) option" where
  "module_run env scope name w =
     (case scope_push scope RL_MODULE name of
        Inl err \<Rightarrow> Some (w, Inl err)
      | Inr module_scope \<Rightarrow>
          (case scope_current module_scope of
             None \<Rightarrow> Some (w, Inl (RuntimeInvariantError ''Module runner created an empty runtime scope''))
           | Some module_frame \<Rightarrow> module_loop env module_scope module_frame w))"

section \<open>The loop's handlers\<close>

datatype recovery_status = RECOVERED | NO_PROGRESS | RECOVERY_FAILED

record recovery_result =
  rr_status :: recovery_status
  rr_reclaimed_chars :: nat
  rr_evicted_refs :: "string list"
  rr_error :: string
  rr_signals :: "signal list"

definition recovery_changed :: "recovery_result \<Rightarrow> bool" where
  "recovery_changed r = (rr_status r = RECOVERED)"

text \<open>\<open>PressureRecovery.recover\<close>, supplied by the profile.\<close>

type_synonym 'w recovery = "json_object \<Rightarrow> run_scope \<Rightarrow> 'w \<Rightarrow> 'w \<times> (exn + recovery_result)"

definition nearest_or_raise :: "trap_snap \<Rightarrow> run_level \<Rightarrow> exn + run_frame" where
  "nearest_or_raise snap level =
     (case scope_nearest (ts_scope snap) level of
        None \<Rightarrow> Inl (LoopInvariantError (''Runtime scope has no '' @ run_level_value level @ '' frame''))
      | Some f \<Rightarrow> Inr f)"

definition mk_result :: "exn + runtime_transfer \<Rightarrow> signal list \<Rightarrow> exn + trap_result" where
  "mk_result t signals =
     (case t of Inl e \<Rightarrow> Inl e | Inr tr \<Rightarrow> Inr \<lparr>tres_transfer = tr, tres_signals = signals\<rparr>)"

definition end_frame_handler :: "run_level \<Rightarrow> 'w trap_handler" where
  "end_frame_handler level snap w =
     (w, bind_r (nearest_or_raise snap level) (\<lambda>f. mk_result (transfer_end f) []))"

definition budget_suspend_handler :: "'w trap_handler" where
  "budget_suspend_handler snap w =
     (w, bind_r (nearest_or_raise snap RL_TURN) (\<lambda>f. mk_result (transfer_suspend f) []))"

definition retry_current_handler :: "'w trap_handler" where
  "retry_current_handler snap w =
     (case scope_current (ts_scope snap) of
        None \<Rightarrow> (w, Inl (LoopInvariantError ''Cannot retry an empty runtime scope''))
      | Some current \<Rightarrow> (w, mk_result (transfer_retry current) []))"

definition end_turn_or_agent_handler :: "'w trap_handler" where
  "end_turn_or_agent_handler snap w =
     (case scope_nearest (ts_scope snap) RL_TURN of
        Some turn \<Rightarrow> (w, mk_result (transfer_end turn) [])
      | None \<Rightarrow> (w, bind_r (nearest_or_raise snap RL_AGENT) (\<lambda>f. mk_result (transfer_end f) [])))"

definition context_pressure_handler :: "'w recovery \<Rightarrow> 'w trap_handler" where
  "context_pressure_handler recover snap w =
     (case recover (ts_payload snap) (ts_scope snap) w of
        (w', Inl err) \<Rightarrow> (w', Inl err)
      | (w', Inr report) \<Rightarrow>
          (let give_up =
             (case scope_nearest (ts_scope snap) RL_TURN of
                Some turn \<Rightarrow> mk_result (transfer_end turn) (rr_signals report)
              | None \<Rightarrow> bind_r (nearest_or_raise snap RL_AGENT)
                  (\<lambda>f. mk_result (transfer_end f) (rr_signals report)))
           in (w', if recovery_changed report
             then (case scope_nearest (ts_scope snap) RL_MODULE of
                 Some m \<Rightarrow> mk_result (transfer_retry m) (rr_signals report)
               | None \<Rightarrow> (case scope_nearest (ts_scope snap) RL_PHASE of
                   Some p \<Rightarrow> mk_result (transfer_retry p) (rr_signals report)
                 | None \<Rightarrow> give_up))
             else give_up)))"

section \<open>Registry lemmas\<close>

lemma longest_None: "longest ms = None \<longleftrightarrow> ms = []"
  by (cases ms) (auto split: option.splits)

lemma longest_Some:
  "longest ms = Some b \<Longrightarrow> b \<in> set ms \<and> (\<forall>m \<in> set ms. length (fst m) \<le> length (fst b))"
proof (induction ms arbitrary: b)
  case (Cons m ms)
  then show ?case
    by (cases "longest ms") (fastforce simp: longest_None split: if_splits)+
qed simp

lemma in_namespace_prefix: "in_namespace p k \<Longrightarrow> py_startswith k p"
  by (auto simp: in_namespace_def py_startswith_iff)

text \<open>Two namespaces of one reason with the same length are the same namespace.\<close>

lemma in_namespace_same_length:
  "in_namespace p k \<Longrightarrow> in_namespace q k \<Longrightarrow> length p = length q \<Longrightarrow> p = q"
  by (auto dest!: in_namespace_prefix simp: py_startswith_def)

lemma match_prefix_longest:
  assumes "distinct (dict_keys (reg_prefix r))"
    and "(p, h) \<in> set (reg_prefix r)" "in_namespace p k"
    and max: "\<And>q g. (q, g) \<in> set (reg_prefix r) \<Longrightarrow> in_namespace q k \<Longrightarrow> length q \<le> length p"
  shows "match_prefix k r = Some h"
proof -
  let ?ms = "filter (\<lambda>(prefix, h). in_namespace prefix k) (reg_prefix r)"
  have mem: "(p, h) \<in> set ?ms" using assms by simp
  then have "?ms \<noteq> []" by (metis empty_iff list.set(1))
  then obtain b where b: "longest ?ms = Some b"
    by (metis longest_None not_None_eq)
  obtain q g where bq: "b = (q, g)" by (cases b)
  from longest_Some [OF b] bq have q: "(q, g) \<in> set (reg_prefix r)" "in_namespace q k"
    and "length p \<le> length q" using mem by auto
  with max have "length q = length p" by fastforce
  then have "q = p" using q assms(3) in_namespace_same_length by blast
  with q assms(1,2) have "g = h" by (metis map_of_distinct_mem option.inject)
  with b bq show ?thesis by (simp add: match_prefix_def)
qed

lemma match_prefix_None:
  "match_prefix k r = None \<longleftrightarrow> (\<forall>(p, h) \<in> set (reg_prefix r). \<not> in_namespace p k)"
proof (cases "longest (filter (\<lambda>(prefix, h). in_namespace prefix k) (reg_prefix r))")
  case None
  then show ?thesis
    by (auto simp: match_prefix_def longest_None filter_empty_conv)
next
  case (Some b)
  with longest_Some [OF Some] show ?thesis
    by (auto simp: match_prefix_def split: prod.splits)
qed

lemma match_prefix_SomeD:
  "match_prefix k r = Some h \<Longrightarrow> \<exists>p. (p, h) \<in> set (reg_prefix r) \<and> in_namespace p k
     \<and> (\<forall>q g. (q, g) \<in> set (reg_prefix r) \<longrightarrow> in_namespace q k \<longrightarrow> length q \<le> length p)"
  by (force simp: match_prefix_def split: option.splits prod.splits dest: longest_Some)

lemma match_prefix_set_cong:
  assumes "distinct (dict_keys (reg_prefix r))" "distinct (dict_keys (reg_prefix r'))"
    and "set (reg_prefix r) = set (reg_prefix r')"
  shows "match_prefix k r = match_prefix k r'"
proof (cases "match_prefix k r")
  case None
  then have "match_prefix k r' = None" using assms(3) by (simp add: match_prefix_None)
  with None show ?thesis by simp
next
  case (Some h)
  then obtain p where "(p, h) \<in> set (reg_prefix r)" "in_namespace p k"
    and "\<forall>q g. (q, g) \<in> set (reg_prefix r) \<longrightarrow> in_namespace q k \<longrightarrow> length q \<le> length p"
    by (auto dest: match_prefix_SomeD)
  then have "match_prefix k r' = Some h"
    using assms by (intro match_prefix_longest) auto
  with Some show ?thesis by simp
qed

lemma register_keeps_wf:
  "wf_registry r \<Longrightarrow> register_exact reason h r = Inr r' \<Longrightarrow> wf_registry r'"
  "wf_registry r \<Longrightarrow> register_prefix prefix h r = Inr r' \<Longrightarrow> wf_registry r'"
  "wf_registry r \<Longrightarrow> register_fallback h r = Inr r' \<Longrightarrow> wf_registry r'"
  by (auto simp: wf_registry_def register_exact_def register_prefix_def register_fallback_def
      bind_r_Inr_iff distinct_update split: if_splits)

section \<open>Scoped handlers\<close>

text \<open>
  The contract the trap relies on: a handler names a frame of the scope it was shown, and
  suspends at a Turn frame only. The loop's handlers provide it.
\<close>

locale scoped_handler =
  fixes handle :: "'w trap_handler"
  assumes target_in_scope: "handle snap w = (w', Inr res) \<Longrightarrow> tr_target (tres_transfer res) \<in> set (ts_scope snap)"
    and suspends_turn: "handle snap w = (w', Inr res) \<Longrightarrow> tr_action (tres_transfer res) = SUSPEND
      \<Longrightarrow> rf_level (tr_target (tres_transfer res)) = RL_TURN"
begin

lemma capture_passes:
  assumes "handler_for (rx_reason e) registry = Inr handle"
    and "handle (snap_of_exception e scope tb) w = (w', Inr res)"
    and "tr_action (tres_transfer res) \<noteq> SUSPEND"
  shows "trap_capture registry e scope tb w = (w', Inr res)"
  using assms target_in_scope [OF assms(2)]
  by (simp add: trap_capture_def Let_def snap_of_exception_def scope_contains_def)

end

lemma mk_result_Inr [simp]:
  "mk_result t ss = Inr res \<longleftrightarrow> (\<exists>tr. t = Inr tr \<and> res = \<lparr>tres_transfer = tr, tres_signals = ss\<rparr>)"
  by (auto simp: mk_result_def split: sum.splits)

lemma nearest_or_raise_Inr:
  "nearest_or_raise snap level = Inr f \<longleftrightarrow> scope_nearest (ts_scope snap) level = Some f"
  by (auto simp: nearest_or_raise_def split: option.splits)

lemmas handler_defs = end_frame_handler_def budget_suspend_handler_def retry_current_handler_def
  end_turn_or_agent_handler_def context_pressure_handler_def
lemmas handler_facts = bind_r_Inr_iff nearest_or_raise_Inr mk_transfer_Inr transfer_end_def
  transfer_retry_def transfer_suspend_def

interpretation end_frame: scoped_handler "end_frame_handler level" for level
  by unfold_locales (auto simp: handler_defs handler_facts dest: scope_nearest_Some)

interpretation budget_suspend: scoped_handler budget_suspend_handler
  by unfold_locales (auto simp: handler_defs handler_facts dest: scope_nearest_Some)

interpretation retry_current: scoped_handler retry_current_handler
  by unfold_locales
    (auto simp: handler_defs handler_facts scope_current_def split: option.splits if_splits)

interpretation end_turn_or_agent: scoped_handler end_turn_or_agent_handler
  by unfold_locales
    (auto simp: handler_defs handler_facts dest: scope_nearest_Some split: option.splits)

lemma context_pressure_cases:
  assumes "context_pressure_handler recover snap w = (w', Inr res)"
  obtains report where "recover (ts_payload snap) (ts_scope snap) w = (w', Inr report)"
    and "tres_signals res = rr_signals report"
    and "(tr_action (tres_transfer res) = RETRY \<and> recovery_changed report
        \<and> rf_level (tr_target (tres_transfer res)) \<in> {RL_MODULE, RL_PHASE})
      \<or> (tr_action (tres_transfer res) = END
        \<and> rf_level (tr_target (tres_transfer res)) \<in> {RL_TURN, RL_AGENT})"
    and "tr_target (tres_transfer res) \<in> set (ts_scope snap)"
proof -
  from assms obtain report where r: "recover (ts_payload snap) (ts_scope snap) w = (w', Inr report)"
    by (auto simp: handler_defs Let_def split: prod.splits sum.splits)
  show thesis
    by (rule that [OF r])
      (use assms r in \<open>auto simp: handler_defs Let_def handler_facts dest: scope_nearest_Some
        split: option.splits if_splits\<close>)
qed

interpretation context_pressure: scoped_handler "context_pressure_handler recover" for recover
  by unfold_locales (erule context_pressure_cases, auto)+

section \<open>Runner lemmas\<close>

lemma trap_capture_Inr:
  "trap_capture registry e scope tb w = (w', Inr res) \<Longrightarrow>
     tr_target (tres_transfer res) \<in> set scope \<and>
     (tr_action (tres_transfer res) = SUSPEND \<longrightarrow> scope_current scope = Some (tr_target (tres_transfer res))) \<and>
     (\<exists>h. handler_for (rx_reason e) registry = Inr h \<and>
       h (snap_of_exception e scope tb) w = (w', Inr res))"
  by (auto simp: trap_capture_def Let_def snap_of_exception_def scope_contains_def
      split: sum.splits prod.splits if_splits)

lemma trap_capture_cases:
  assumes "trap_capture registry e scope tb w = (w', r)"
  obtains (invariant) m where "r = Inl (RuntimeInvariantError m)"
  | (handler) h where "handler_for (rx_reason e) registry = Inr h"
      "h (snap_of_exception e scope tb) w = (w', r)"
  using assms
  by (auto simp: trap_capture_def Let_def snap_of_exception_def
      split: sum.splits prod.splits if_splits)

text \<open>What a pass does once the callback has raised a runtime exception and the trap has answered.\<close>

lemma module_attempt_trapped:
  assumes "me_callback env ms w = (w1, Inl (RuntimeException e))"
    and "trap_capture (me_registry env) e ms None w1 = (w2, Inr res)"
    and "deliver_signals env (tres_signals res) ms w2 = (w3, Inr u)"
  shows "module_attempt env ms mf w =
    (if tr_target (tres_transfer res) = mf
     then (if tr_action (tres_transfer res) = RETRY then Retry w3
           else Done w3 (Inl (RuntimeInvariantError ''A module END transfer cannot produce a module result'')))
     else Done w3 (Inl (RuntimeTransferInterrupt (tres_transfer res) (Some e))))"
  using assms by (simp add: module_attempt_def)

lemma module_attempt_fails:
  assumes "me_callback env ms w = (w1, Inl (RuntimeException e))"
  shows "trap_capture (me_registry env) e ms None w1 = (w2, Inl err) \<Longrightarrow>
      module_attempt env ms mf w = Done w2 (Inl err)"
    and "trap_capture (me_registry env) e ms None w1 = (w2, Inr res) \<Longrightarrow>
      deliver_signals env (tres_signals res) ms w2 = (w3, Inl err) \<Longrightarrow>
      module_attempt env ms mf w = Done w3 (Inl err)"
  using assms by (simp_all add: module_attempt_def)

lemma module_attempt_untrapped:
  assumes "me_callback env ms w = (w1, r)" and "\<And>e. r \<noteq> Inl (RuntimeException e)"
  shows "module_attempt env ms mf w = Done w1 r"
proof (cases r)
  case (Inl x)
  show ?thesis
  proof (cases "\<exists>e. x = RuntimeException e")
    case True
    with assms(2) Inl show ?thesis by blast
  next
    case False
    with assms(1) Inl show ?thesis by (cases x) (simp_all add: module_attempt_def)
  qed
qed (use assms in \<open>simp add: module_attempt_def\<close>)

text \<open>A pass that comes to an answered trap, with everything it went through.\<close>

definition trapped ::
  "('w, 'v) module_env \<Rightarrow> run_scope \<Rightarrow> 'w world \<Rightarrow> runtime_exception \<Rightarrow> trap_result \<Rightarrow> 'w world \<Rightarrow> bool" where
  "trapped env ms w e res w3 = (\<exists>w1 w2.
     me_callback env ms w = (w1, Inl (RuntimeException e))
     \<and> trap_capture (me_registry env) e ms None w1 = (w2, Inr res)
     \<and> deliver_signals env (tres_signals res) ms w2 = (w3, Inr ()))"

text \<open>The parts a runner is built from raise no transfer interrupt of their own.\<close>

definition interrupt_free :: "('w, 'v) module_env \<Rightarrow> run_scope \<Rightarrow> bool" where
  "interrupt_free env ms =
     ((\<forall>w t x. snd (me_callback env ms w) \<noteq> Inl (RuntimeTransferInterrupt t x))
      \<and> (\<forall>reason h snap w t x. handler_for reason (me_registry env) = Inr h \<longrightarrow>
           snd (h snap w) \<noteq> Inl (RuntimeTransferInterrupt t x))
      \<and> (\<forall>c ss w t x. me_recovery env = Some c \<longrightarrow> snd (c ss ms w) \<noteq> Inl (RuntimeTransferInterrupt t x)))"

lemma module_attempt_cases:
  assumes "module_attempt env ms mf w = a"
  obtains (trapped) e res w3 where "trapped env ms w e res w3"
      "a = (if tr_target (tres_transfer res) = mf
        then (if tr_action (tres_transfer res) = RETRY then Retry w3
              else Done w3 (Inl (RuntimeInvariantError ''A module END transfer cannot produce a module result'')))
        else Done w3 (Inl (RuntimeTransferInterrupt (tres_transfer res) (Some e))))"
  | (plain) w' r where "a = Done w' r"
      "\<And>t x. interrupt_free env ms \<Longrightarrow> r \<noteq> Inl (RuntimeTransferInterrupt t x)"
proof -
  obtain w1 r1 where c: "me_callback env ms w = (w1, r1)" by fastforce
  show thesis
  proof (cases "\<exists>e. r1 = Inl (RuntimeException e)")
    case False
    have "interrupt_free env ms \<Longrightarrow> r1 \<noteq> Inl (RuntimeTransferInterrupt t x)" for t x
      using c by (metis interrupt_free_def snd_conv)
    moreover have "a = Done w1 r1" using module_attempt_untrapped [OF c] False assms by blast
    ultimately show thesis using plain by blast
  next
    case True
    then obtain e where e: "r1 = Inl (RuntimeException e)" ..
    obtain w2 r2 where t: "trap_capture (me_registry env) e ms None w1 = (w2, r2)" by fastforce
    show thesis
    proof (cases r2)
      case (Inl err)
      have "interrupt_free env ms \<Longrightarrow> err \<noteq> RuntimeTransferInterrupt tr x" for tr x
        using t
      proof (cases rule: trap_capture_cases)
        case (invariant m)
        with Inl show ?thesis by auto
      next
        case (handler h)
        then show "interrupt_free env ms \<Longrightarrow> err \<noteq> RuntimeTransferInterrupt tr x"
          using Inl unfolding interrupt_free_def by (metis snd_conv)
      qed
      moreover have "a = Done w2 (Inl err)"
        using module_attempt_fails(1) [OF c [unfolded e]] t Inl assms by blast
      ultimately show thesis using plain by blast
    next
      case (Inr res)
      obtain w3 r3 where d: "deliver_signals env (tres_signals res) ms w2 = (w3, r3)" by fastforce
      show thesis
      proof (cases r3)
        case (Inl err)
        have "interrupt_free env ms \<Longrightarrow> err \<noteq> RuntimeTransferInterrupt tr x" for tr x
          using d Inl
          by (cases "me_recovery env")
            (auto simp: deliver_signals_def interrupt_free_def split: if_splits, metis snd_conv surj_pair)
        moreover have "a = Done w3 (Inl err)"
          using module_attempt_fails(2) [OF c [unfolded e]] t d Inl \<open>r2 = Inr res\<close> assms by blast
        ultimately show thesis using plain by blast
      next
        case (Inr u)
        then have "trapped env ms w e res w3"
          unfolding trapped_def using c [unfolded e] t [unfolded \<open>r2 = Inr res\<close>] d Inr
          by (metis old.unit.exhaust)
        moreover have "a = (if tr_target (tres_transfer res) = mf
          then (if tr_action (tres_transfer res) = RETRY then Retry w3
              else Done w3 (Inl (RuntimeInvariantError ''A module END transfer cannot produce a module result'')))
          else Done w3 (Inl (RuntimeTransferInterrupt (tres_transfer res) (Some e))))"
          using module_attempt_trapped
            [OF c [unfolded e] t [unfolded \<open>r2 = Inr res\<close>] d [unfolded Inr], of mf] assms by simp
        ultimately show thesis by (rule trapped)
      qed
    qed
  qed
qed

lemma trapped_target:
  "trapped env ms w e res w3 \<Longrightarrow> tr_target (tres_transfer res) \<in> set ms"
  by (auto simp: trapped_def dest: trap_capture_Inr)

lemma module_loop_interrupt:
  assumes ret: "module_loop env ms mf w = Some out" and free: "interrupt_free env ms"
    and int: "snd out = Inl (RuntimeTransferInterrupt t x)"
  shows "tr_target t \<in> set ms \<and> tr_target t \<noteq> mf"
proof -
  let ?Q = "\<lambda>out :: 'a world \<times> (exn + 'b). \<forall>t x. snd out = Inl (RuntimeTransferInterrupt t x) \<longrightarrow>
    tr_target t \<in> set ms \<and> tr_target t \<noteq> mf"
  let ?P = "\<lambda>e m f w out. (e = env \<and> m = ms \<and> f = mf) \<longrightarrow> ?Q out"
  have "?P env ms mf w out"
  proof (rule module_loop.raw_induct [where P = ?P, OF _ ret], intro impI)
    fix loop e m f w out
    assume IH: "\<And>e m f w out. loop e m f w = Some out \<Longrightarrow> ?P e m f w out"
      and eq: "(case module_attempt e m f w of Done w' r \<Rightarrow> Some (w', r)
        | Retry w' \<Rightarrow> loop e m f w') = Some out"
      and args: "e = env \<and> m = ms \<and> f = mf"
    obtain a where a: "module_attempt env ms mf w = a" by simp
    from a show "?Q out"
    proof (cases rule: module_attempt_cases)
      case (trapped e res w3)
      with a eq args IH trapped_target [OF trapped(1)] show ?thesis
        by (auto split: if_splits)
    next
      case (plain w' r)
      with a eq args free show ?thesis by auto
    qed
  qed
  with int show ?thesis by blast
qed

text \<open>A measure that every granted retry consumes makes the loop return.\<close>

lemma module_loop_returns:
  assumes dec: "\<And>w w'. module_attempt env ms mf w = Retry w' \<Longrightarrow> \<mu> w' < (\<mu> w :: nat)"
  shows "\<exists>out. module_loop env ms mf w = Some out"
proof (induction "\<mu> w" arbitrary: w rule: less_induct)
  case less
  show ?case
  proof (cases "module_attempt env ms mf w")
    case (Retry w')
    with dec less show ?thesis by (subst module_loop.simps) simp
  qed (subst module_loop.simps, simp)
qed

section \<open>Properties\<close>

text \<open>
  Handler resolution. For a registry built through its registration calls: an exact handler
  of the (stripped) reason wins; otherwise the handler of the longest registered dotted prefix
  of the reason; otherwise the fallback; and a \<open>RuntimeContractError\<close> exactly when there is none
  of the three. So the answer is independent of the order of registration.
\<close>

theorem handler_resolution:
  assumes "wf_registry r" and "normalize_key reason = Inr k"
  shows "(handler_for reason r = Inr h \<longleftrightarrow>
       map_of (reg_exact r) k = Some h
     \<or> map_of (reg_exact r) k = None \<and> (\<exists>p. (p, h) \<in> set (reg_prefix r) \<and> in_namespace p k
         \<and> (\<forall>q g. (q, g) \<in> set (reg_prefix r) \<longrightarrow> in_namespace q k \<longrightarrow> length q \<le> length p))
     \<or> map_of (reg_exact r) k = None \<and> (\<forall>(p, g) \<in> set (reg_prefix r). \<not> in_namespace p k)
         \<and> reg_fallback r = Some h)
   \<and> (\<not> is_ok (handler_for reason r) \<longleftrightarrow>
       map_of (reg_exact r) k = None \<and> (\<forall>(p, g) \<in> set (reg_prefix r). \<not> in_namespace p k)
         \<and> reg_fallback r = None)"
proof -
  have prefix: "match_prefix k r = Some h \<longleftrightarrow> (\<exists>p. (p, h) \<in> set (reg_prefix r) \<and> in_namespace p k
      \<and> (\<forall>q g. (q, g) \<in> set (reg_prefix r) \<longrightarrow> in_namespace q k \<longrightarrow> length q \<le> length p))" for h
    using assms(1) match_prefix_SomeD match_prefix_longest unfolding wf_registry_def by metis
  have none: "(\<forall>(p, g) \<in> set (reg_prefix r). \<not> in_namespace p k) \<longleftrightarrow> match_prefix k r = None"
    by (rule match_prefix_None [symmetric])
  have "handler_for reason r =
    (case map_of (reg_exact r) k of Some h \<Rightarrow> Inr h | None \<Rightarrow> (case match_prefix k r of
       Some h \<Rightarrow> Inr h | None \<Rightarrow> (case reg_fallback r of Some h \<Rightarrow> Inr h
         | None \<Rightarrow> Inl (RuntimeContractError (''Unknown trap reason: '' @ k)))))"
    using assms(2) by (simp add: handler_for_def)
  then show ?thesis
    unfolding prefix [symmetric] none by (simp split: option.splits)
qed

definition sample_registry :: "nat trap_registry" where
  "sample_registry = \<lparr>reg_exact = [(''llm.timeout'', 1)],
     reg_prefix = [(''llm'', 2), (''llm.adapter'', 3)], reg_fallback = Some 4\<rparr>"

theorem handler_resolution_witness:
  "handler_for '' llm.timeout '' sample_registry = Inr 1
   \<and> handler_for ''llm.adapter.http'' sample_registry = Inr 3
   \<and> handler_for ''llm.adapters'' sample_registry = Inr 2
   \<and> handler_for ''memory'' sample_registry = Inr 4"
proof -
  have wf: "wf_registry sample_registry" by code_simp
  have k: "normalize_key '' llm.timeout '' = Inr ''llm.timeout''" by code_simp
  have "handler_for '' llm.timeout '' sample_registry = Inr 1"
    using handler_resolution [OF wf k] by (simp add: sample_registry_def)
  moreover have "handler_for ''llm.adapter.http'' sample_registry = Inr 3" by code_simp
  moreover have "handler_for ''llm.adapters'' sample_registry = Inr 2" by code_simp
  moreover have "handler_for ''memory'' sample_registry = Inr 4" by code_simp
  ultimately show ?thesis by simp
qed

text \<open>
  What the trap lets through. A transfer that \<open>capture\<close> returns targets a frame of the
  captured scope, a suspension only the innermost frame; and for every handler the loop installs
  (end frame, budget suspension, retry, end Turn or Agent, context pressure) the scope check
  never fires: whenever such a handler decides on something other than a suspension, \<open>capture\<close>
  returns exactly that decision.
\<close>

theorem capture_transfers_in_scope:
  assumes "trap_capture registry e scope tb w = (w', Inr res)"
  shows "tr_target (tres_transfer res) \<in> set scope
    \<and> (tr_action (tres_transfer res) = SUSPEND \<longrightarrow>
        scope_current scope = Some (tr_target (tres_transfer res)))"
  using trap_capture_Inr [OF assms] by blast

definition agent_frame :: run_frame where
  "agent_frame = \<lparr>rf_level = RL_AGENT, rf_name = ''a''\<rparr>"

definition turn_frame :: run_frame where
  "turn_frame = \<lparr>rf_level = RL_TURN, rf_name = ''t''\<rparr>"

definition module_frame_x :: run_frame where
  "module_frame_x = \<lparr>rf_level = RL_MODULE, rf_name = ''x''\<rparr>"

definition pressure_exception :: runtime_exception where
  "pressure_exception = \<lparr>rx_reason = ''context.pressure'', rx_message = [], rx_payload = []\<rparr>"

theorem capture_transfers_in_scope_witness:
  "trap_capture \<lparr>reg_exact = [], reg_prefix = [], reg_fallback = Some budget_suspend_handler\<rparr>
     pressure_exception [agent_frame, turn_frame] None (0 :: nat)
     = (0, Inr \<lparr>tres_transfer = \<lparr>tr_action = SUSPEND, tr_target = turn_frame\<rparr>, tres_signals = []\<rparr>)
   \<and> turn_frame \<in> set [agent_frame, turn_frame]"
proof -
  have "trap_capture \<lparr>reg_exact = [], reg_prefix = [], reg_fallback = Some budget_suspend_handler\<rparr>
     pressure_exception [agent_frame, turn_frame] None (0 :: nat)
     = (0, Inr \<lparr>tres_transfer = \<lparr>tr_action = SUSPEND, tr_target = turn_frame\<rparr>, tres_signals = []\<rparr>)"
    by code_simp
  from capture_transfers_in_scope [OF this] this show ?thesis by simp
qed

text \<open>
  A module call only unwinds outwards. If the runner ends by raising a transfer interrupt
  (and neither the callback nor the handlers raise one themselves), the interrupt targets a frame
  of the caller's scope that is not the module's own frame: a transfer aimed at the module frame is
  always consumed here, by a retry or by an invariant error.
\<close>

theorem module_run_interrupt_targets_caller:
  assumes "module_run env scope name w = Some (w', Inl (RuntimeTransferInterrupt t x))"
    and "interrupt_free env (scope @ [\<lparr>rf_level = RL_MODULE, rf_name = name\<rparr>])"
  shows "tr_target t \<in> set scope \<and> tr_target t \<noteq> \<lparr>rf_level = RL_MODULE, rf_name = name\<rparr>"
proof -
  let ?mf = "\<lparr>rf_level = RL_MODULE, rf_name = name\<rparr>"
  have "module_loop env (scope @ [?mf]) ?mf w = Some (w', Inl (RuntimeTransferInterrupt t x))"
    using assms(1)
    by (auto simp: module_run_def scope_push_def mk_run_frame_def split: if_splits)
  from module_loop_interrupt [OF this assms(2)] show ?thesis by auto
qed

text \<open>A module whose only failure is context pressure; the world counts what can be reclaimed.\<close>

definition count_recovery :: "nat world recovery" where
  "count_recovery payload scope w =
     (if fst w = 0
      then (w, Inr \<lparr>rr_status = NO_PROGRESS, rr_reclaimed_chars = 0, rr_evicted_refs = [],
                    rr_error = [], rr_signals = []\<rparr>)
      else ((fst w - 1, snd w), Inr \<lparr>rr_status = RECOVERED, rr_reclaimed_chars = 1,
                    rr_evicted_refs = [], rr_error = [], rr_signals = []\<rparr>))"

definition pressure_env :: "(nat, nat) module_env" where
  "pressure_env = \<lparr>
     me_registry = \<lparr>reg_exact = [(''context.pressure'', context_pressure_handler count_recovery)],
       reg_prefix = [], reg_fallback = Some end_turn_or_agent_handler\<rparr>,
     me_callback = (\<lambda>scope w. (w, Inl (RuntimeException pressure_exception))),
     me_recovery = None\<rparr>"

lemma pressure_env_handlers:
  "handler_for reason (me_registry pressure_env) = Inr h \<Longrightarrow>
     h = context_pressure_handler count_recovery \<or> h = end_turn_or_agent_handler"
  by (auto simp: handler_for_def pressure_env_def bind_r_Inr_iff match_prefix_def
      split: option.splits if_splits)

lemma count_recovery_Inr: "\<exists>w' r. count_recovery p s w = (w', Inr r)"
  by (auto simp: count_recovery_def)

lemma mk_result_no_interrupt: "mk_result (mk_transfer a f) ss \<noteq> Inl (RuntimeTransferInterrupt t x)"
  by (auto simp: mk_result_def mk_transfer_def)

lemma pressure_env_interrupt_free: "interrupt_free pressure_env ms"
proof -
  have a: "snd (end_turn_or_agent_handler snap w) \<noteq> Inl (RuntimeTransferInterrupt t x)"
    for snap and w :: "nat world" and t x
    by (auto simp: handler_defs transfer_end_def mk_result_no_interrupt nearest_or_raise_def
        split: option.splits)
  have b: "snd (context_pressure_handler count_recovery snap w) \<noteq> Inl (RuntimeTransferInterrupt t x)"
    for snap w t x
    using count_recovery_Inr [of "ts_payload snap" "ts_scope snap" w]
    by (auto simp: handler_defs Let_def transfer_end_def transfer_retry_def mk_result_no_interrupt
        nearest_or_raise_def split: option.splits if_splits)
  show ?thesis
    unfolding interrupt_free_def
  proof (intro conjI allI impI)
    fix reason h snap t x and w :: "nat world"
    assume "handler_for reason (me_registry pressure_env) = Inr h"
    then show "snd (h snap w) \<noteq> Inl (RuntimeTransferInterrupt t x)"
      using pressure_env_handlers a b by blast
  qed (auto simp: pressure_env_def)
qed

theorem module_run_interrupt_targets_caller_witness:
  "module_run pressure_env [agent_frame, turn_frame] ''x'' (2, []) =
     Some ((0, []), Inl (RuntimeTransferInterrupt \<lparr>tr_action = END, tr_target = turn_frame\<rparr> (Some pressure_exception)))
   \<and> turn_frame \<in> set [agent_frame, turn_frame]"
proof -
  have step: "module_attempt pressure_env [agent_frame, turn_frame, module_frame_x] module_frame_x (2, [])
        = Retry (1, [])"
    "module_attempt pressure_env [agent_frame, turn_frame, module_frame_x] module_frame_x (1, [])
        = Retry (0, [])"
    "module_attempt pressure_env [agent_frame, turn_frame, module_frame_x] module_frame_x (0, [])
        = Done (0, []) (Inl (RuntimeTransferInterrupt \<lparr>tr_action = END, tr_target = turn_frame\<rparr> (Some pressure_exception)))"
    by code_simp+
  have "module_loop pressure_env [agent_frame, turn_frame, module_frame_x] module_frame_x (2, []) =
     Some ((0, []), Inl (RuntimeTransferInterrupt \<lparr>tr_action = END, tr_target = turn_frame\<rparr> (Some pressure_exception)))"
    by (simp add: module_loop.simps step flip: One_nat_def)
  then have run: "module_run pressure_env [agent_frame, turn_frame] ''x'' (2, []) =
     Some ((0, []), Inl (RuntimeTransferInterrupt \<lparr>tr_action = END, tr_target = turn_frame\<rparr> (Some pressure_exception)))"
    by (simp add: module_run_def scope_push_def mk_run_frame_def module_frame_x_def scope_current_def)
  from module_run_interrupt_targets_caller [OF run pressure_env_interrupt_free] run
  show ?thesis by simp
qed



text \<open>
  The context-pressure handler retries only after a recovery that reports RECOVERED, and then
  the innermost module frame, or the innermost phase frame where there is no module; in every other
  case it ends the innermost Turn, or the Agent outside a Turn. The recovery's signals travel with
  the decision.
\<close>

theorem context_pressure_decision:
  assumes "recover (ts_payload snap) (ts_scope snap) w = (w', Inr report)"
    and "scope_nearest (ts_scope snap) RL_TURN = Some turn"
  shows "context_pressure_handler recover snap w = (w', Inr \<lparr>tres_transfer =
     (if rr_status report = RECOVERED
      then (case scope_nearest (ts_scope snap) RL_MODULE of
          Some m \<Rightarrow> \<lparr>tr_action = RETRY, tr_target = m\<rparr>
        | None \<Rightarrow> (case scope_nearest (ts_scope snap) RL_PHASE of
            Some p \<Rightarrow> \<lparr>tr_action = RETRY, tr_target = p\<rparr>
          | None \<Rightarrow> \<lparr>tr_action = END, tr_target = turn\<rparr>))
      else \<lparr>tr_action = END, tr_target = turn\<rparr>), tres_signals = rr_signals report\<rparr>)"
  using assms
  by (simp add: context_pressure_handler_def Let_def recovery_changed_def mk_result_def
      transfer_end_def transfer_retry_def mk_transfer_def split: option.splits)

theorem context_pressure_decision_witness:
  "context_pressure_handler count_recovery
     \<lparr>ts_reason = ''context.pressure'', ts_message = [], ts_payload = [],
      ts_scope = [agent_frame, turn_frame, module_frame_x], ts_traceback = None\<rparr> (5, [])
   = ((4, []), Inr \<lparr>tres_transfer = \<lparr>tr_action = RETRY, tr_target = module_frame_x\<rparr>, tres_signals = []\<rparr>)"
proof -
  let ?snap = "\<lparr>ts_reason = ''context.pressure'', ts_message = [], ts_payload = [],
      ts_scope = [agent_frame, turn_frame, module_frame_x], ts_traceback = None\<rparr>"
  let ?report = "\<lparr>rr_status = RECOVERED, rr_reclaimed_chars = 1, rr_evicted_refs = [],
    rr_error = [], rr_signals = []\<rparr>"
  have r: "count_recovery (ts_payload ?snap) (ts_scope ?snap) (5, []) = ((4, []), Inr ?report)"
    by (simp add: count_recovery_def)
  have t: "scope_nearest (ts_scope ?snap) RL_TURN = Some turn_frame"
    and m: "scope_nearest (ts_scope ?snap) RL_MODULE = Some module_frame_x"
    by code_simp+
  have "rr_status ?report = RECOVERED" and "rr_signals ?report = []" by simp_all
  with context_pressure_decision [where recover = count_recovery and snap = ?snap and w = "(5, [])"
      and w' = "(4, [])" and report = ?report and turn = turn_frame, OF r t] m
  show ?thesis by simp
qed

end
