(* ===== verification/Task.thy ===== *)
theory Task
  imports Runtime
begin

text \<open>
  The tasks of the loop. A coroutine is a function of the state it runs on: it never returns
  (None), or it ends in a state with a result, an exception on the left. What the code awaits is
  another task, and a \<open>while True\<close> is a \<open>partial_function (option)\<close> over one of its passes.
\<close>

type_synonym ('s, 'a) task = "'s \<Rightarrow> ('s \<times> (exn + 'a)) option"

definition task_return :: "'a \<Rightarrow> ('s, 'a) task" where
  "task_return a s = Some (s, Inr a)"

definition task_raise :: "exn \<Rightarrow> ('s, 'a) task" where
  "task_raise e s = Some (s, Inl e)"

text \<open>What \<open>try\<close> sees: the task with its outcome as a value.\<close>

definition task_then :: "('s, 'a) task \<Rightarrow> (exn + 'a \<Rightarrow> ('s, 'b) task) \<Rightarrow> ('s, 'b) task" where
  "task_then m k s = Option.bind (m s) (\<lambda>(s', r). k r s')"

definition task_bind :: "('s, 'a) task \<Rightarrow> ('a \<Rightarrow> ('s, 'b) task) \<Rightarrow> ('s, 'b) task" where
  "task_bind m k = task_then m (\<lambda>r. case r of Inl e \<Rightarrow> task_raise e | Inr a \<Rightarrow> k a)"

definition task_catch :: "('s, 'a) task \<Rightarrow> (exn \<Rightarrow> ('s, 'a) task) \<Rightarrow> ('s, 'a) task" where
  "task_catch m h = task_then m (\<lambda>r. case r of Inl e \<Rightarrow> h e | Inr a \<Rightarrow> task_return a)"

definition task_sum :: "exn + 'a \<Rightarrow> ('s, 'a) task" where
  "task_sum r s = Some (s, r)"

text \<open>An operation that does not wait.\<close>

definition task_call :: "('s \<Rightarrow> 's \<times> (exn + 'a)) \<Rightarrow> ('s, 'a) task" where
  "task_call f s = Some (f s)"

definition task_update :: "('s \<Rightarrow> 's) \<Rightarrow> ('s, unit) task" where
  "task_update f s = Some (f s, Inr ())"

definition task_when :: "bool \<Rightarrow> ('s, unit) task \<Rightarrow> ('s, unit) task" where
  "task_when b m = (if b then m else task_return ())"

named_theorems task_simps \<open>equations of the task combinators on a given state\<close>

lemma task_basic_simps [task_simps]:
  "task_return a s = Some (s, Inr a)"
  "task_raise e s = Some (s, Inl e)"
  "task_call f s = Some (f s)"
  "task_update g s = Some (g s, Inr ())"
  "task_sum r s = Some (s, r)"
  by (simp_all add: task_return_def task_raise_def task_call_def task_update_def task_sum_def)

lemma task_then_Some: "task_then m k s = Some out \<longleftrightarrow> (\<exists>s' r. m s = Some (s', r) \<and> k r s' = Some out)"
  by (auto simp: task_then_def bind_eq_Some_conv)

lemma task_then_step [task_simps]:
  "m s = None \<Longrightarrow> task_then m k s = None"
  "m s = Some (s', r) \<Longrightarrow> task_then m k s = k r s'"
  by (simp_all add: task_then_def)

lemma task_bind_step [task_simps]:
  "m s = None \<Longrightarrow> task_bind m k s = None"
  "m s = Some (s', Inl e) \<Longrightarrow> task_bind m k s = Some (s', Inl e)"
  "m s = Some (s', Inr a) \<Longrightarrow> task_bind m k s = k a s'"
  by (simp_all add: task_bind_def task_simps)

lemma task_catch_step [task_simps]:
  "m s = None \<Longrightarrow> task_catch m h s = None"
  "m s = Some (s', Inl e) \<Longrightarrow> task_catch m h s = h e s'"
  "m s = Some (s', Inr a) \<Longrightarrow> task_catch m h s = Some (s', Inr a)"
  by (simp_all add: task_catch_def task_simps)

lemma task_bind_Some:
  "task_bind m k s = Some (s', r) \<longleftrightarrow>
     (\<exists>e. m s = Some (s', Inl e) \<and> r = Inl e) \<or> (\<exists>s1 a. m s = Some (s1, Inr a) \<and> k a s1 = Some (s', r))"
  unfolding task_bind_def task_then_Some
proof
  assume "\<exists>s1 r1. m s = Some (s1, r1) \<and> (case r1 of Inl e \<Rightarrow> task_raise e | Inr a \<Rightarrow> k a) s1 = Some (s', r)"
  then obtain s1 r1 where m: "m s = Some (s1, r1)"
    and k: "(case r1 of Inl e \<Rightarrow> task_raise e | Inr a \<Rightarrow> k a) s1 = Some (s', r)" by blast
  from m k show "(\<exists>e. m s = Some (s', Inl e) \<and> r = Inl e) \<or> (\<exists>s1 a. m s = Some (s1, Inr a) \<and> k a s1 = Some (s', r))"
    by (cases r1) (auto simp: task_simps)
next
  assume "(\<exists>e. m s = Some (s', Inl e) \<and> r = Inl e) \<or> (\<exists>s1 a. m s = Some (s1, Inr a) \<and> k a s1 = Some (s', r))"
  then show "\<exists>s1 r1. m s = Some (s1, r1) \<and> (case r1 of Inl e \<Rightarrow> task_raise e | Inr a \<Rightarrow> k a) s1 = Some (s', r)"
  proof (elim disjE exE conjE)
    fix e
    assume "m s = Some (s', Inl e)" "r = Inl e"
    then show ?thesis by (intro exI [of _ s'] exI [of _ "Inl e"]) (simp add: task_simps)
  next
    fix s1 a
    assume "m s = Some (s1, Inr a)" "k a s1 = Some (s', r)"
    then show ?thesis by (intro exI [of _ s1] exI [of _ "Inr a"]) simp
  qed
qed

lemma task_return_bind [simp]: "task_bind (task_return a) k = k a"
  by (rule ext) (simp add: task_simps)

section \<open>Specifications\<close>

text \<open>
  Partial correctness of a task: from a state with \<open>P\<close> it either never ends, or ends with \<open>Q\<close> of its
  value or with \<open>E\<close> of its exception.
\<close>

definition task_spec ::
  "('s \<Rightarrow> bool) \<Rightarrow> ('s, 'a) task \<Rightarrow> ('a \<Rightarrow> 's \<Rightarrow> bool) \<Rightarrow> (exn \<Rightarrow> 's \<Rightarrow> bool) \<Rightarrow> bool" where
  "task_spec P m Q E =
     (\<forall>s s' r. P s \<longrightarrow> m s = Some (s', r) \<longrightarrow> (case r of Inl e \<Rightarrow> E e s' | Inr a \<Rightarrow> Q a s'))"

lemma task_specI:
  assumes "\<And>s s' a. P s \<Longrightarrow> m s = Some (s', Inr a) \<Longrightarrow> Q a s'"
    and "\<And>s s' e. P s \<Longrightarrow> m s = Some (s', Inl e) \<Longrightarrow> E e s'"
  shows "task_spec P m Q E"
  unfolding task_spec_def using assms by (auto split: sum.split)

lemma task_specD:
  "task_spec P m Q E \<Longrightarrow> P s \<Longrightarrow> m s = Some (s', Inr a) \<Longrightarrow> Q a s'"
  "task_spec P m Q E \<Longrightarrow> P s \<Longrightarrow> m s = Some (s', Inl e) \<Longrightarrow> E e s'"
  by (auto simp: task_spec_def)

lemma task_spec_weaken:
  "task_spec P m Q E \<Longrightarrow> (\<And>s. P' s \<Longrightarrow> P s) \<Longrightarrow> (\<And>a s. Q a s \<Longrightarrow> Q' a s) \<Longrightarrow> (\<And>e s. E e s \<Longrightarrow> E' e s)
     \<Longrightarrow> task_spec P' m Q' E'"
  unfolding task_spec_def by (fastforce split: sum.splits)

lemma task_spec_return: "(\<And>s. P s \<Longrightarrow> Q a s) \<Longrightarrow> task_spec P (task_return a) Q E"
  by (rule task_specI) (simp_all add: task_simps)

lemma task_spec_raise: "(\<And>s. P s \<Longrightarrow> E e s) \<Longrightarrow> task_spec P (task_raise e) Q E"
  by (rule task_specI) (simp_all add: task_simps)

lemma task_spec_then:
  assumes "task_spec P m Q E" "\<And>a. task_spec (Q a) (k (Inr a)) R F" "\<And>e. task_spec (E e) (k (Inl e)) R F"
  shows "task_spec P (task_then m k) R F"
proof (rule task_specI)
  fix s s' b
  assume s: "P s" "task_then m k s = Some (s', Inr b)"
  then obtain s1 r where m: "m s = Some (s1, r)" and k: "k r s1 = Some (s', Inr b)" by (auto simp: task_then_Some)
  from m k show "R b s'"
    by (cases r) (blast dest: task_specD(1,2) [OF assms(1) s(1)] task_specD(1) [OF assms(2)] task_specD(1) [OF assms(3)])+
next
  fix s s' e
  assume s: "P s" "task_then m k s = Some (s', Inl e)"
  then obtain s1 r where m: "m s = Some (s1, r)" and k: "k r s1 = Some (s', Inl e)" by (auto simp: task_then_Some)
  from m k show "F e s'"
    by (cases r) (blast dest: task_specD(1,2) [OF assms(1) s(1)] task_specD(2) [OF assms(2)] task_specD(2) [OF assms(3)])+
qed

lemma task_spec_bind:
  "task_spec P m Q E \<Longrightarrow> (\<And>a. task_spec (Q a) (k a) R E) \<Longrightarrow> task_spec P (task_bind m k) R E"
  unfolding task_bind_def by (erule task_spec_then) (auto intro: task_spec_raise)

lemma task_spec_catch:
  "task_spec P m Q E \<Longrightarrow> (\<And>e. task_spec (E e) (h e) Q F) \<Longrightarrow> task_spec P (task_catch m h) Q F"
  unfolding task_catch_def by (erule task_spec_then) (auto intro: task_spec_return)

section \<open>Class names of exceptions\<close>

definition context_fault_name :: "context_fault \<Rightarrow> string" where
  "context_fault_name f = (case f of
     ContextBudgetFault a b c d \<Rightarrow> ''ContextBudgetError''
   | ContextContractFault name \<Rightarrow> name
   | ContextInvariantFault \<Rightarrow> ''ContextInvariantError''
   | OtherContextFault name \<Rightarrow> name)"

text \<open>\<open>type(error).__name__\<close>\<close>

definition exn_name :: "exn \<Rightarrow> string" where
  "exn_name e = (case e of
     RuntimeContractError m \<Rightarrow> ''RuntimeContractError''
   | RuntimeInvariantError m \<Rightarrow> ''RuntimeInvariantError''
   | LoopContractError m \<Rightarrow> ''LoopContractError''
   | LoopInvariantError m \<Rightarrow> ''LoopInvariantError''
   | ContextException f \<Rightarrow> context_fault_name f
   | TaskCancelled \<Rightarrow> ''TaskCancelled''
   | ActionExecutionCancelled \<Rightarrow> ''ActionExecutionCancelled''
   | RuntimeException x \<Rightarrow> ''RuntimeException''
   | RuntimeTransferInterrupt t x \<Rightarrow> ''RuntimeTransferInterrupt''
   | AsyncCancelled \<Rightarrow> ''CancelledError''
   | OtherException name \<Rightarrow> name)"

end
