(* ===== verification/Turn_Identity.thy ===== *)
theory Turn_Identity
  imports Prelude
begin

text \<open>
  Calendar days and Turn identities (tinysoul/infra/time.py, tinysoul/kernel/identity.py): the
  checked constructors, the printed forms and the strict parsers. Both pairs are canonical
  codecs: what is printed parses back, and only printed forms parse.
\<close>

section \<open>CalendarDay\<close>

text \<open>A \<open>datetime.date\<close> by its fields; \<open>CalendarDay\<close> is ordered by date (\<open>order=True\<close>).\<close>

datatype calendar_day = CalendarDay (cd_year: nat) (cd_month: nat) (cd_day: nat)

datatype calendar_day_error = CalendarDayError string

definition leap_year :: "nat \<Rightarrow> bool" where
  "leap_year y = (y mod 4 = 0 \<and> (y mod 100 \<noteq> 0 \<or> y mod 400 = 0))"

definition days_in_month :: "nat \<Rightarrow> nat \<Rightarrow> nat" where
  "days_in_month y m =
     (if m = 2 then (if leap_year y then 29 else 28)
      else if m = 4 \<or> m = 6 \<or> m = 9 \<or> m = 11 then 30 else 31)"

definition valid_day :: "calendar_day \<Rightarrow> bool" where
  "valid_day d = (1 \<le> cd_year d \<and> cd_year d \<le> 9999 \<and> 1 \<le> cd_month d \<and> cd_month d \<le> 12
     \<and> 1 \<le> cd_day d \<and> cd_day d \<le> days_in_month (cd_year d) (cd_month d))"

text \<open>The last \<open>w\<close> decimal digits of a number, with leading zeros.\<close>

fun pad_digits :: "nat \<Rightarrow> nat \<Rightarrow> string" where
  "pad_digits 0 n = []"
| "pad_digits (Suc w) n = pad_digits w (n div 10) @ [digit_char (n mod 10)]"

definition isoformat :: "calendar_day \<Rightarrow> string" where
  "isoformat d = pad_digits 4 (cd_year d) @ ''-'' @ pad_digits 2 (cd_month d) @ ''-''
     @ pad_digits 2 (cd_day d)"

text \<open>
  \<open>date.fromisoformat\<close> on the extended calendar form YYYY-MM-DD. The other forms it accepts
  (basic and week dates) never print back as they were written, so \<open>parse\<close> rejects them with
  the same exception as a malformed text; the model answers None for them already.
\<close>

definition date_fromisoformat :: "string \<Rightarrow> calendar_day option" where
  "date_fromisoformat s =
     (let y = take 4 s; m = take 2 (drop 5 s); d = drop 8 s;
          day = CalendarDay (read_digits y) (read_digits m) (read_digits d)
      in if length s = 10 \<and> s ! 4 = CHR ''-'' \<and> s ! 7 = CHR ''-''
           \<and> list_all is_digit y \<and> list_all is_digit m \<and> list_all is_digit d \<and> valid_day day
         then Some day else None)"

definition calendar_day_parse :: "string \<Rightarrow> calendar_day_error + calendar_day" where
  "calendar_day_parse value =
     (if value = [] then Inl (CalendarDayError ''Business day must be a non-empty ISO date'')
      else case date_fromisoformat value of
        None \<Rightarrow> Inl (CalendarDayError (''Invalid business day: '' @ value))
      | Some parsed \<Rightarrow>
          (if isoformat parsed \<noteq> value
           then Inl (CalendarDayError (''Business day must use ISO format: '' @ value))
           else Inr parsed))"

definition calendar_day_str :: "calendar_day \<Rightarrow> string" where
  "calendar_day_str d = isoformat d"

instantiation calendar_day :: linorder
begin

definition less_eq_calendar_day :: "calendar_day \<Rightarrow> calendar_day \<Rightarrow> bool" where
  "less_eq_calendar_day a b =
     (cd_year a < cd_year b \<or> cd_year a = cd_year b \<and>
       (cd_month a < cd_month b \<or> cd_month a = cd_month b \<and> cd_day a \<le> cd_day b))"

definition less_calendar_day :: "calendar_day \<Rightarrow> calendar_day \<Rightarrow> bool" where
  "less_calendar_day a b =
     (cd_year a < cd_year b \<or> cd_year a = cd_year b \<and>
       (cd_month a < cd_month b \<or> cd_month a = cd_month b \<and> cd_day a < cd_day b))"

instance
  by standard
    (auto simp: less_eq_calendar_day_def less_calendar_day_def intro: calendar_day.expand)

end

section \<open>TurnIdentity\<close>

datatype turn_identity = TurnIdentity (ti_day: calendar_day) (ti_sequence: nat)

datatype turn_identity_error = TurnIdentityError string

definition mk_turn_identity :: "calendar_day \<Rightarrow> nat \<Rightarrow> turn_identity_error + turn_identity" where
  "mk_turn_identity day sequence =
     (if sequence < 1
      then Inl (TurnIdentityError ''Turn identity requires a CalendarDay and positive sequence'')
      else Inr (TurnIdentity day sequence))"

definition turn_identity_str :: "turn_identity \<Rightarrow> string" where
  "turn_identity_str t = calendar_day_str (ti_day t) @ ''/'' @ show_nat (ti_sequence t)"

definition turn_identity_parse :: "string \<Rightarrow> turn_identity_error + turn_identity" where
  "turn_identity_parse value =
     (let err = TurnIdentityError ''Turn identity must use YYYY-MM-DD/sequence'' in
      case py_partition (CHR ''/'') value of (day, separator, sequence) \<Rightarrow>
        if \<not> separator \<or> \<not> ascii_decimal sequence \<or> py_startswith sequence ''0''
        then Inl err
        else case calendar_day_parse day of
          Inl _ \<Rightarrow> Inl err
        | Inr d \<Rightarrow> (case py_int_digits sequence of
            None \<Rightarrow> Inl err
          | Some n \<Rightarrow> mk_turn_identity d n))"

text \<open>What a live identity satisfies; \<open>str\<close> of a longer number would raise in CPython.\<close>

definition wf_turn_identity :: "turn_identity \<Rightarrow> bool" where
  "wf_turn_identity t = (valid_day (ti_day t) \<and> 1 \<le> ti_sequence t
     \<and> length (show_nat (ti_sequence t)) \<le> 4300)"

section \<open>Lemmas\<close>

lemma length_pad_digits [simp]: "length (pad_digits w n) = w"
  by (induction w arbitrary: n) auto

lemma pad_digits_are_digits [simp]: "list_all is_digit (pad_digits w n)"
  by (induction w arbitrary: n) auto

lemma read_pad_digits: "n < 10 ^ w \<Longrightarrow> read_digits (pad_digits w n) = n"
proof (induction w arbitrary: n)
  case 0
  then show ?case by (simp add: read_digits_def)
next
  case (Suc w)
  have "n div 10 < 10 ^ w" using Suc.prems by (simp add: less_mult_imp_div_less)
  then have "read_digits (pad_digits w (n div 10)) = n div 10" by (rule Suc.IH)
  then show ?case by (simp add: read_digits_snoc)
qed

lemma pad_read_digits: "list_all is_digit s \<Longrightarrow> pad_digits (length s) (read_digits s) = s"
proof (induction s rule: rev_induct)
  case (snoc c s)
  then have c: "is_digit c" by simp
  then have "(of_char c :: nat) - 48 < 10" unfolding is_digit_def by linarith
  then have "read_digits (s @ [c]) div 10 = read_digits s"
    and "read_digits (s @ [c]) mod 10 = of_char c - 48"
    by (simp_all add: read_digits_snoc)
  with snoc c show ?case by (simp add: digit_char_of_digit)
qed simp

lemma days_in_month_le: "days_in_month y m \<le> 31"
  by (simp add: days_in_month_def)

lemma valid_day_bounds:
  "valid_day d \<Longrightarrow> cd_year d < 10 ^ 4 \<and> cd_month d < 10 ^ 2 \<and> cd_day d < 10 ^ 2"
  using days_in_month_le [of "cd_year d" "cd_month d"] by (auto simp: valid_day_def)

lemma isoformat_length [simp]: "length (isoformat d) = 10"
  by (simp add: isoformat_def)

lemma isoformat_nonempty [simp]: "isoformat d \<noteq> []"
  using isoformat_length [of d] by (metis list.size(3) zero_neq_numeral)

lemma fromisoformat_isoformat: "valid_day d \<Longrightarrow> date_fromisoformat (isoformat d) = Some d"
  using valid_day_bounds [of d]
  by (simp add: date_fromisoformat_def isoformat_def Let_def nth_append read_pad_digits)

lemma calendar_day_parse_str: "valid_day d \<Longrightarrow> calendar_day_parse (calendar_day_str d) = Inr d"
  by (simp add: calendar_day_parse_def calendar_day_str_def fromisoformat_isoformat)

lemma calendar_day_parse_sound:
  "calendar_day_parse v = Inr d \<Longrightarrow> valid_day d \<and> calendar_day_str d = v"
  by (auto simp: calendar_day_parse_def calendar_day_str_def date_fromisoformat_def Let_def
      split: if_splits option.splits)

interpretation day_codec: canonical_codec calendar_day_str calendar_day_parse valid_day
  by unfold_locales (auto simp: calendar_day_parse_str dest: calendar_day_parse_sound)

lemma slash_not_digit: "is_digit c \<Longrightarrow> c \<noteq> CHR ''/''"
  by (auto simp: is_digit_def)

lemma slash_not_in_day [simp]: "CHR ''/'' \<notin> set (calendar_day_str d)"
proof -
  have "CHR ''/'' \<notin> set (pad_digits w n)" for w n
    using pad_digits_are_digits [of w n] slash_not_digit by (auto simp: list_all_iff)
  then show ?thesis by (simp add: calendar_day_str_def isoformat_def)
qed

lemma show_nat_no_leading_zero: "0 < n \<Longrightarrow> hd (show_nat n) \<noteq> CHR ''0''"
proof (induction n rule: show_nat.induct)
  case (1 n)
  show ?case
  proof (cases "n < 10")
    case True
    have "digit_char n \<noteq> CHR ''0''"
    proof
      assume "digit_char n = CHR ''0''"
      then have "(of_char (digit_char n) :: nat) = of_char (CHR ''0'')" by simp
      with True 1 show False by simp
    qed
    with True show ?thesis by (subst show_nat.simps) simp
  next
    case False
    with 1 have "hd (show_nat (n div 10)) \<noteq> CHR ''0''" by simp
    with False show ?thesis by (subst show_nat.simps) simp
  qed
qed

lemma startswith_zero: "s \<noteq> [] \<Longrightarrow> py_startswith s ''0'' \<longleftrightarrow> hd s = CHR ''0''"
  by (cases s) (auto simp: py_startswith_def)

lemma turn_identity_parse_str:
  assumes "wf_turn_identity t"
  shows "turn_identity_parse (turn_identity_str t) = Inr t"
proof -
  have "py_partition (CHR ''/'') (turn_identity_str t)
      = (calendar_day_str (ti_day t), True, show_nat (ti_sequence t))"
    by (simp add: turn_identity_str_def py_partition_append)
  with assms show ?thesis
    by (simp add: turn_identity_parse_def wf_turn_identity_def startswith_zero
        show_nat_no_leading_zero calendar_day_parse_str py_int_digits_def mk_turn_identity_def)
qed

lemma turn_identity_parse_sound:
  assumes "turn_identity_parse v = Inr t"
  shows "wf_turn_identity t \<and> turn_identity_str t = v"
proof -
  obtain day sep sq where p: "py_partition (CHR ''/'') v = (day, sep, sq)"
    by (cases "py_partition (CHR ''/'') v")
  from assms p obtain d n where
    sep: "sep" and sq: "ascii_decimal sq" "\<not> py_startswith sq ''0''"
    and d: "calendar_day_parse day = Inr d" and n: "py_int_digits sq = Some n"
    and t: "mk_turn_identity d n = Inr t"
    by (auto simp: turn_identity_parse_def Let_def split: if_splits sum.splits option.splits)
  have v: "v = day @ CHR ''/'' # sq" using p sep py_partition_found [of "CHR ''/''" v day sq] by simp
  have sq': "list_all is_digit sq" "sq \<noteq> []" "hd sq \<noteq> CHR ''0''"
    using sq by (auto simp: ascii_decimal_def startswith_zero)
  have nn: "n = read_digits sq" "length sq \<le> 4300"
    using n by (auto simp: py_int_digits_def split: if_splits)
  have show_n: "show_nat n = sq" using show_read_digits [OF sq'] nn by simp
  have t': "t = TurnIdentity d n" "1 \<le> n"
    using t by (auto simp: mk_turn_identity_def split: if_splits)
  show ?thesis
    using calendar_day_parse_sound [OF d] t' show_n nn v
    by (simp add: wf_turn_identity_def turn_identity_str_def)
qed

interpretation turn_codec: canonical_codec turn_identity_str turn_identity_parse wf_turn_identity
  by unfold_locales (auto simp: turn_identity_parse_str dest: turn_identity_parse_sound)

section \<open>Properties\<close>


end
