(* ===== verification/Outcomes.thy ===== *)
theory Outcomes
  imports Task Concurrency Turn_Identity
begin

text \<open>
  What the loop reports: the failures owners project to the runtime (tinysoul/runtime/failures.py,
  kernel/loop/runtime_bridge.py, kernel/context/runtime_bridge.py), the bounded failure and the
  output of a Turn (kernel/loop/outcomes.py), its outcome with the rule that picks the status
  (\<open>TurnOutcome\<close> and \<open>_outcome_status\<close> in kernel/loop/turn.py), and the control requests that stop it
  (kernel/loop/signals.py, interaction/cancellation.py).
\<close>

section \<open>Failures projected to the runtime\<close>

definition runtime_startup_failed :: string where "runtime_startup_failed = ''runtime.startup_failed''"
definition runtime_turn_end :: string where "runtime_turn_end = ''runtime.turn_end''"
definition runtime_cycle_end :: string where "runtime_cycle_end = ''runtime.cycle_end''"
definition runtime_agent_end :: string where "runtime_agent_end = ''runtime.agent_end''"

definition module_failure ::
  "string \<Rightarrow> string \<Rightarrow> string \<Rightarrow> string \<Rightarrow> json_object \<Rightarrow> exn + runtime_exception" where
  "module_failure owner kind reason message payload =
     (if owner = [] \<or> \<not> py_startswith kind (owner @ ''.'')
      then Inl (RuntimeContractError ''Failure kind must belong to its module'')
      else mk_runtime_exception reason message (py_of_json (JObj
        (AList.update ''kind'' (JStr kind) (AList.update ''module'' (JStr owner) payload)))))"

definition exception_payload :: "exn \<Rightarrow> json_object \<Rightarrow> json_object" where
  "exception_payload e payload = AList.update ''error_type'' (JStr (exn_name e)) payload"

text \<open>\<open>raise bridge.from_...(error)\<close>: the exception that is raised.\<close>

definition raised :: "exn + runtime_exception \<Rightarrow> exn" where
  "raised r = (case r of Inl e \<Rightarrow> e | Inr x \<Rightarrow> RuntimeException x)"

datatype loop_failure_kind =
  LF_CONFIGURATION_FAILED | LF_RESOURCE_PREPARATION_FAILED | LF_CONTRACT_VIOLATION | LF_INTERNAL_FAILURE

fun loop_failure_value :: "loop_failure_kind \<Rightarrow> string" where
  "loop_failure_value LF_CONFIGURATION_FAILED = ''loop.configuration_failed''"
| "loop_failure_value LF_RESOURCE_PREPARATION_FAILED = ''loop.resource_preparation_failed''"
| "loop_failure_value LF_CONTRACT_VIOLATION = ''loop.contract_violation''"
| "loop_failure_value LF_INTERNAL_FAILURE = ''loop.internal_failure''"

fun loop_reason :: "loop_failure_kind \<Rightarrow> string" where
  "loop_reason LF_CONFIGURATION_FAILED = runtime_startup_failed"
| "loop_reason LF_RESOURCE_PREPARATION_FAILED = runtime_startup_failed"
| "loop_reason LF_CONTRACT_VIOLATION = runtime_turn_end"
| "loop_reason LF_INTERNAL_FAILURE = runtime_turn_end"

fun loop_message :: "loop_failure_kind \<Rightarrow> string" where
  "loop_message LF_CONFIGURATION_FAILED = ''Loop configuration is invalid.''"
| "loop_message LF_RESOURCE_PREPARATION_FAILED = ''Turn execution resources could not be prepared.''"
| "loop_message LF_CONTRACT_VIOLATION = ''Loop call violated its contract.''"
| "loop_message LF_INTERNAL_FAILURE = ''Loop operation failed internally.''"

definition loop_from_failure :: "loop_failure_kind \<Rightarrow> string \<Rightarrow> json_object \<Rightarrow> exn + runtime_exception" where
  "loop_from_failure kind message payload =
     module_failure ''loop'' (loop_failure_value kind) (loop_reason kind) message payload"

definition loop_from_exception :: "loop_failure_kind \<Rightarrow> exn \<Rightarrow> json_object \<Rightarrow> exn + runtime_exception" where
  "loop_from_exception kind e payload =
     loop_from_failure kind (loop_message kind) (exception_payload e payload)"

definition from_loop_error :: "exn \<Rightarrow> json_object \<Rightarrow> exn + runtime_exception" where
  "from_loop_error e payload =
     loop_from_exception (case e of LoopContractError m \<Rightarrow> LF_CONTRACT_VIOLATION | _ \<Rightarrow> LF_INTERNAL_FAILURE) e payload"

datatype context_failure_kind =
  CF_CONFIGURATION_FAILED | CF_CONTRACT_VIOLATION | CF_INTERNAL_FAILURE | CF_BUDGET_EXCEEDED

fun context_failure_value :: "context_failure_kind \<Rightarrow> string" where
  "context_failure_value CF_CONFIGURATION_FAILED = ''context.configuration_failed''"
| "context_failure_value CF_CONTRACT_VIOLATION = ''context.contract_violation''"
| "context_failure_value CF_INTERNAL_FAILURE = ''context.internal_failure''"
| "context_failure_value CF_BUDGET_EXCEEDED = ''context.budget_exceeded''"

definition context_compression_required :: string where
  "context_compression_required = ''context.compression_required''"

fun context_reason :: "context_failure_kind \<Rightarrow> string" where
  "context_reason CF_CONFIGURATION_FAILED = runtime_startup_failed"
| "context_reason CF_CONTRACT_VIOLATION = runtime_turn_end"
| "context_reason CF_INTERNAL_FAILURE = runtime_turn_end"
| "context_reason CF_BUDGET_EXCEEDED = context_compression_required"

fun context_message :: "context_failure_kind \<Rightarrow> string" where
  "context_message CF_CONFIGURATION_FAILED = ''Context configuration is invalid.''"
| "context_message CF_CONTRACT_VIOLATION = ''Context call violated its contract.''"
| "context_message CF_INTERNAL_FAILURE = ''Context operation failed internally.''"
| "context_message CF_BUDGET_EXCEEDED = ''Context exceeds its capacity budget.''"

definition context_from_exception ::
  "context_failure_kind \<Rightarrow> context_fault \<Rightarrow> json_object \<Rightarrow> exn + runtime_exception" where
  "context_from_exception kind f payload =
     module_failure ''context'' (context_failure_value kind) (context_reason kind) (context_message kind)
       (exception_payload (ContextException f) payload)"

definition from_context_error :: "context_fault \<Rightarrow> exn + runtime_exception" where
  "from_context_error f = (case f of
     ContextBudgetFault chars image_bytes max_bytes usage \<Rightarrow>
       context_from_exception CF_BUDGET_EXCEEDED f
         [(''estimated_chars'', JInt chars), (''estimated_image_bytes'', JInt image_bytes),
          (''max_image_bytes'', (case max_bytes of None \<Rightarrow> JNull | Some n \<Rightarrow> JInt n)),
          (''section_usage'', JObj usage)]
   | ContextContractFault name \<Rightarrow> context_from_exception CF_CONTRACT_VIOLATION f []
   | ContextInvariantFault \<Rightarrow> context_from_exception CF_INTERNAL_FAILURE f []
   | OtherContextFault name \<Rightarrow> context_from_exception CF_INTERNAL_FAILURE f [])"

section \<open>The output and the failure of a Turn\<close>

record turn_output =
  to_text :: string
  to_result_id :: string
  to_references :: "string list"
  to_metadata :: json_object

definition mk_turn_output :: "turn_output \<Rightarrow> exn + turn_output" where
  "mk_turn_output t =
     (if to_text t = [] then Inl (LoopContractError ''TurnOutput.text must be non-empty'')
      else if to_result_id t = [] then Inl (LoopContractError ''TurnOutput.result_id must be non-empty'')
      else if [] \<in> set (to_references t)
      then Inl (LoopContractError ''TurnOutput.references must contain non-empty strings'')
      else Inr t)"

datatype turn_status =
  TO_ANSWERED | TO_COMPLETED | TO_AWAITING_USER | TO_EXHAUSTED | TO_STOPPED | TO_CANCELLED | TO_FAILED

record turn_failure =
  tf_reason :: string
  tf_message :: string
  tf_module :: string
  tf_kind :: string
  tf_feedback :: "string list"

definition failure_message_max :: nat where "failure_message_max = 1000"
definition failure_feedback_items :: nat where "failure_feedback_items = 8"
definition failure_feedback_chars :: nat where "failure_feedback_chars = 2000"

text \<open>The loop over the feedback: what is kept so far, and how many characters it uses.\<close>

fun clip_feedback :: "string list \<Rightarrow> nat \<Rightarrow> string list \<Rightarrow> string list" where
  "clip_feedback kept used [] = kept"
| "clip_feedback kept used (item # items) =
     (if item = [] \<or> length kept \<ge> failure_feedback_items then clip_feedback kept used items
      else if used \<ge> failure_feedback_chars then kept
      else (let clipped = take (failure_feedback_chars - used) item
            in clip_feedback (kept @ [clipped]) (used + length clipped) items))"

definition mk_turn_failure :: "turn_failure \<Rightarrow> exn + turn_failure" where
  "mk_turn_failure f =
     (if tf_reason f = [] then Inl (LoopContractError ''TurnFailure.reason must be non-empty'')
      else if tf_message f = [] then Inl (LoopContractError ''TurnFailure requires reason and message'')
      else Inr (f\<lparr>tf_feedback := clip_feedback [] 0 (tf_feedback f),
        tf_message := (if length (tf_message f) > failure_message_max
          then take (failure_message_max - 3) (tf_message f) @ ''...'' else tf_message f)\<rparr>))"

definition turn_failure_to_json :: "turn_failure \<Rightarrow> json" where
  "turn_failure_to_json f = JObj [(''reason'', JStr (tf_reason f)), (''message'', JStr (tf_message f)),
     (''module'', JStr (tf_module f)), (''kind'', JStr (tf_kind f)),
     (''feedback'', JArr (map JStr (tf_feedback f)))]"

definition json_text :: "json option \<Rightarrow> string" where
  "json_text v = (case v of Some (JStr s) \<Rightarrow> s | _ \<Rightarrow> [])"

definition json_texts :: "json option \<Rightarrow> string list" where
  "json_texts v = (case v of
     Some (JArr xs) \<Rightarrow> List.map_filter (\<lambda>x. case x of JStr s \<Rightarrow> Some s | _ \<Rightarrow> None) xs
   | _ \<Rightarrow> [])"

definition turn_failure_from_runtime :: "runtime_exception \<Rightarrow> exn + turn_failure" where
  "turn_failure_from_runtime e =
     mk_turn_failure \<lparr>tf_reason = rx_reason e,
       tf_message = (if rx_message e = [] then rx_reason e else rx_message e),
       tf_module = json_text (map_of (rx_payload e) ''module''),
       tf_kind = json_text (map_of (rx_payload e) ''kind''),
       tf_feedback = json_texts (map_of (rx_payload e) ''feedback'')\<rparr>"

definition failure_from_runtime :: "runtime_exception \<Rightarrow> exn + turn_failure option" where
  "failure_from_runtime e =
     (if rx_reason e \<in> {runtime_cycle_end, runtime_agent_end, runtime_turn_end}
        \<and> \<not> (json_text (map_of (rx_payload e) ''module'') \<noteq> []
             \<and> json_text (map_of (rx_payload e) ''kind'') \<noteq> [])
      then Inr None
      else case turn_failure_from_runtime e of Inl err \<Rightarrow> Inl err | Inr f \<Rightarrow> Inr (Some f))"

section \<open>The outcome of a Turn\<close>

record 'c turn_outcome =
  tu_context_completion :: "'c option"
  tu_active_day :: calendar_day
  tu_status :: turn_status
  tu_output :: "turn_output option"
  tu_exhausted :: bool
  tu_transfer :: "runtime_transfer option"
  tu_failure :: "turn_failure option"
  tu_completion :: "json_object option"
  tu_finish_failures :: "turn_failure list"
  tu_cleanup_diagnostics :: "cleanup_diagnostic list"

definition mk_turn_outcome :: "'c turn_outcome \<Rightarrow> exn + 'c turn_outcome" where
  "mk_turn_outcome u =
     (if tu_finish_failures u \<noteq> [] \<and> tu_status u \<noteq> TO_FAILED
      then Inl (LoopInvariantError ''Required finish failure prevents Turn success'')
      else case tu_status u of
        TO_ANSWERED \<Rightarrow>
          (if tu_output u = None \<or> tu_failure u \<noteq> None \<or> tu_exhausted u
           then Inl (LoopInvariantError ''Answered TurnOutcome is inconsistent'') else Inr u)
      | TO_COMPLETED \<Rightarrow>
          (if tu_completion u = None \<or> tu_output u \<noteq> None \<or> tu_failure u \<noteq> None \<or> tu_exhausted u
           then Inl (LoopInvariantError ''Completed TurnOutcome is inconsistent'') else Inr u)
      | TO_AWAITING_USER \<Rightarrow>
          (if tu_completion u = None \<or> tu_output u \<noteq> None \<or> tu_failure u \<noteq> None \<or> tu_exhausted u
           then Inl (LoopInvariantError ''Completed TurnOutcome is inconsistent'') else Inr u)
      | TO_EXHAUSTED \<Rightarrow>
          (if tu_output u \<noteq> None \<or> tu_failure u \<noteq> None \<or> \<not> tu_exhausted u
           then Inl (LoopInvariantError ''Exhausted TurnOutcome is inconsistent'') else Inr u)
      | TO_FAILED \<Rightarrow>
          (if tu_failure u = None
           then Inl (LoopInvariantError ''Failed TurnOutcome requires failure details'') else Inr u)
      | _ \<Rightarrow>
          (if tu_output u \<noteq> None \<or> tu_failure u \<noteq> None \<or> tu_exhausted u
           then Inl (LoopInvariantError ''Stopped TurnOutcome is inconsistent'') else Inr u))"

text \<open>The failure of a Turn that ended with nothing; its texts are within the bounds.\<close>

definition no_completion_failure :: turn_failure where
  "no_completion_failure = \<lparr>tf_reason = runtime_turn_end,
     tf_message = ''Turn ended without a valid completion.'', tf_module = ''loop'',
     tf_kind = loop_failure_value LF_INTERNAL_FAILURE, tf_feedback = []\<rparr>"

definition outcome_status ::
  "turn_output option \<Rightarrow> json_object option \<Rightarrow> bool \<Rightarrow> bool \<Rightarrow> bool \<Rightarrow> runtime_transfer option
     \<Rightarrow> turn_failure option \<Rightarrow> turn_status \<times> turn_failure option" where
  "outcome_status output completion committed exhausted stopped transfer failure =
     (case failure of Some f \<Rightarrow> (TO_FAILED, Some f)
      | None \<Rightarrow>
          if output \<noteq> None \<and> committed then (TO_ANSWERED, None)
          else (case completion of
            Some c \<Rightarrow>
              if committed then (if map_of c ''kind'' = Some (JStr ''awaiting_user'')
                then (TO_AWAITING_USER, None) else (TO_COMPLETED, None))
              else if exhausted then (TO_EXHAUSTED, None)
              else if stopped \<or> transfer \<noteq> None then (TO_STOPPED, None)
              else (TO_FAILED, Some no_completion_failure)
          | None \<Rightarrow>
              if exhausted then (TO_EXHAUSTED, None)
              else if stopped \<or> transfer \<noteq> None then (TO_STOPPED, None)
              else (TO_FAILED, Some no_completion_failure)))"

section \<open>Control requests\<close>

datatype loop_control_kind = STOP_TURN | EXIT_PROGRAM

fun loop_control_value :: "loop_control_kind \<Rightarrow> string" where
  "loop_control_value STOP_TURN = ''stop_turn''"
| "loop_control_value EXIT_PROGRAM = ''exit_program''"

definition loop_control_of :: "string \<Rightarrow> loop_control_kind option" where
  "loop_control_of v = find (\<lambda>k. loop_control_value k = v) [STOP_TURN, EXIT_PROGRAM]"

record loop_control_request =
  lc_kind :: loop_control_kind
  lc_text :: string

definition signal_control_request :: string where
  "signal_control_request = ''loop.control.request''"

definition build_control_request_signal ::
  "loop_control_kind \<Rightarrow> run_scope \<Rightarrow> string \<Rightarrow> string \<Rightarrow> exn + signal" where
  "build_control_request_signal kind scope source request_text =
     mk_signal signal_control_request source scope
       (PyMap [(PyStr ''kind'', PyStr (loop_control_value kind)), (PyStr ''text'', PyStr request_text)])"

definition parse_control_request_signal :: "signal \<Rightarrow> exn + loop_control_request" where
  "parse_control_request_signal s =
     (if sig_name s \<noteq> signal_control_request
      then Inl (LoopContractError (''Unexpected loop signal: '' @ sig_name s))
      else case map_of (sig_payload s) ''kind'' of
        Some (JStr v) \<Rightarrow>
          (case loop_control_of v of
             None \<Rightarrow> Inl (LoopContractError (''Unknown loop control request: '' @ v))
           | Some kind \<Rightarrow>
               (case dict_get (sig_payload s) ''text'' (JStr []) of
                  JStr t \<Rightarrow> Inr \<lparr>lc_kind = kind, lc_text = t\<rparr>
                | _ \<Rightarrow> Inl (LoopContractError ''Loop control signal text must be a string'')))
      | _ \<Rightarrow> Inl (LoopContractError ''Loop control signal kind must be a string''))"

text \<open>The signals are taken off the bus before the first of them is parsed.\<close>

definition consume_control_signal_requests ::
  "signal_bus \<Rightarrow> signal_bus \<times> (exn + (signal \<times> loop_control_request) list)" where
  "consume_control_signal_requests bus =
     (case bus_consume_name signal_control_request bus of
        (bus', Inl e) \<Rightarrow> (bus', Inl e)
      | (bus', Inr signals) \<Rightarrow>
          (bus', traverse (\<lambda>s. bind_r (parse_control_request_signal s) (\<lambda>r. Inr (s, r))) signals))"

definition consume_control_requests ::
  "signal_bus \<Rightarrow> signal_bus \<times> (exn + loop_control_request list)" where
  "consume_control_requests bus =
     (case consume_control_signal_requests bus of (bus', r) \<Rightarrow> (bus', bind_r r (\<lambda>xs. Inr (map snd xs))))"

record turn_cancellation =
  tc_event :: bool
  tc_kind :: "loop_control_kind option"

definition mk_turn_cancellation :: turn_cancellation where
  "mk_turn_cancellation = \<lparr>tc_event = False, tc_kind = None\<rparr>"

definition cancellation_request :: "loop_control_kind \<Rightarrow> turn_cancellation \<Rightarrow> turn_cancellation" where
  "cancellation_request kind c =
     c\<lparr>tc_kind := (if tc_kind c = None then Some kind else tc_kind c), tc_event := True\<rparr>"

section \<open>Bounds of a failure\<close>

definition feedback_ok :: "string list \<Rightarrow> bool" where
  "feedback_ok xs = ([] \<notin> set xs \<and> length xs \<le> failure_feedback_items
     \<and> sum_list (map length xs) \<le> failure_feedback_chars)"

lemma clip_feedback_ok:
  "feedback_ok kept \<Longrightarrow> used = sum_list (map length kept) \<Longrightarrow> feedback_ok (clip_feedback kept used items)"
proof (induction kept used items rule: clip_feedback.induct)
  case (2 kept used item items)
  show ?case
  proof (cases "item = [] \<or> length kept \<ge> failure_feedback_items \<or> used \<ge> failure_feedback_chars")
    case True
    then show ?thesis using 2 by auto
  next
    case False
    with "2.prems" have "feedback_ok (kept @ [take (failure_feedback_chars - used) item])"
      by (auto simp: feedback_ok_def min_def)
    then show ?thesis using "2.IH"(2) "2.prems" False by (simp add: Let_def)
  qed
qed simp

lemma clip_feedback_same:
  "feedback_ok (kept @ items) \<Longrightarrow> clip_feedback kept (sum_list (map length kept)) items = kept @ items"
proof (induction items arbitrary: kept)
  case (Cons item items)
  then have "item \<noteq> []" "length kept < failure_feedback_items"
    and "sum_list (map length kept) + length item \<le> failure_feedback_chars"
    by (auto simp: feedback_ok_def)
  moreover from this have "sum_list (map length kept) < failure_feedback_chars" by (cases item) auto
  ultimately show ?case using Cons.IH [of "kept @ [item]"] Cons.prems by (simp add: Let_def not_le)
qed simp

text \<open>
  A Turn failure is bounded, and building it again changes nothing. Whatever a module reports,
  the failure kept has at most 1000 characters of message and at most 8 non-empty items of feedback
  with at most 2000 characters in all; and a failure already within the bounds is kept as it is.
\<close>

theorem turn_failure_bounded:
  assumes "mk_turn_failure f = Inr g"
  shows "length (tf_message g) \<le> 1000 \<and> length (tf_feedback g) \<le> 8
    \<and> sum_list (map length (tf_feedback g)) \<le> 2000 \<and> [] \<notin> set (tf_feedback g)
    \<and> mk_turn_failure g = Inr g"
proof -
  have g: "g = f\<lparr>tf_feedback := clip_feedback [] 0 (tf_feedback f),
      tf_message := (if length (tf_message f) > failure_message_max
        then take (failure_message_max - 3) (tf_message f) @ ''...'' else tf_message f)\<rparr>"
    and some: "tf_reason f \<noteq> []" "tf_message f \<noteq> []"
    using assms by (auto simp: mk_turn_failure_def split: if_splits)
  have "feedback_ok []" by (simp add: feedback_ok_def)
  from clip_feedback_ok [OF this, of 0] have ok: "feedback_ok (tf_feedback g)" by (simp add: g)
  then have same: "clip_feedback [] 0 (tf_feedback g) = tf_feedback g"
    using clip_feedback_same [of "[]" "tf_feedback g"] by simp
  have short: "length (tf_message g) \<le> failure_message_max" "tf_message g \<noteq> []" "tf_reason g \<noteq> []"
    using some by (simp_all add: g failure_message_max_def)
  then have "mk_turn_failure g = Inr g" by (simp add: mk_turn_failure_def same)
  with ok short show ?thesis
    by (simp add: feedback_ok_def failure_message_max_def failure_feedback_items_def failure_feedback_chars_def)
qed

definition noisy_failure :: turn_failure where
  "noisy_failure = \<lparr>tf_reason = ''x'', tf_message = replicate 1200 (CHR ''m''), tf_module = ''llm'', tf_kind = ''k'',
     tf_feedback = [''a'', [], replicate 2100 (CHR ''b''), ''c'']\<rparr>"

theorem turn_failure_bounded_witness:
  "\<exists>g. mk_turn_failure noisy_failure = Inr g \<and> length (tf_message g) \<le> 1000 \<and> length (tf_feedback g) \<le> 8
    \<and> sum_list (map length (tf_feedback g)) \<le> 2000"
proof -
  obtain g where g: "mk_turn_failure noisy_failure = Inr g"
    by (auto simp: mk_turn_failure_def noisy_failure_def)
  with turn_failure_bounded [OF g] show ?thesis by blast
qed

end
