(* ===== verification/Events.thy ===== *)
theory Events
  imports Runtime
begin

text \<open>
  Environment events (tinysoul/runtime/events.py), the observable state of their sources
  (tinysoul/runtime/sources.py) and a Turn's declared subscriptions
  (tinysoul/kernel/loop/interaction/events.py): the checked envelope, the filters shared by
  routing and subscriptions, and the bus that serializes delivery and keeps bounded receipts.

  \<open>digest\<close> is \<open>hashlib.sha256(...).hexdigest()\<close>; where a property needs that two contents have
  different digests it says so. Fresh identities (\<open>uuid4\<close>) are arguments.
\<close>

datatype event_error = EventProtocolError string | EventCapacityError string | DeliveryFailed string

datatype event_kind = EK_EVENT | EK_TIMER

fun event_kind_value :: "event_kind \<Rightarrow> string" where
  "event_kind_value EK_EVENT = ''event''"
| "event_kind_value EK_TIMER = ''timer''"

record environment_event =
  ev_kind :: event_kind
  ev_payload :: json_object
  ev_id :: string
  ev_target :: "string option"
  ev_topic :: string
  ev_source :: string

definition mk_event ::
  "event_kind \<Rightarrow> pyval \<Rightarrow> string \<Rightarrow> string option \<Rightarrow> string \<Rightarrow> string \<Rightarrow> string
     \<Rightarrow> event_error + environment_event" where
  "mk_event kind payload event_id target topic source fresh =
     (case to_json_object payload of
        Inl _ \<Rightarrow> Inl (EventProtocolError ''EnvironmentEvent.payload requires JSON'')
      | Inr p \<Rightarrow>
          (if target = Some [] then Inl (EventProtocolError ''EnvironmentEvent.target_id must be non-empty'')
           else if topic = [] \<or> source = []
           then Inl (EventProtocolError ''EnvironmentEvent requires a topic and source'')
           else Inr \<lparr>ev_kind = kind, ev_payload = p,
                     ev_id = (if event_id = [] then ''event_'' @ fresh else event_id),
                     ev_target = target, ev_topic = topic, ev_source = source\<rparr>))"

record event_filter =
  ef_kind :: "event_kind option"
  ef_topic :: "string option"
  ef_source :: "string option"

definition mk_event_filter ::
  "event_kind option \<Rightarrow> string option \<Rightarrow> string option \<Rightarrow> event_error + event_filter" where
  "mk_event_filter kind topic source =
     (if topic = Some [] \<or> source = Some []
      then Inl (EventProtocolError ''Event filter identities must be non-empty'')
      else Inr \<lparr>ef_kind = kind, ef_topic = topic, ef_source = source\<rparr>)"

definition filter_matches :: "event_filter \<Rightarrow> environment_event \<Rightarrow> bool" where
  "filter_matches f e =
     ((ef_kind f = None \<or> ef_kind f = Some (ev_kind e))
      \<and> (ef_topic f = None \<or> ef_topic f = Some (ev_topic e))
      \<and> (ef_source f = None \<or> ef_source f = Some (ev_source e)))"

datatype source_state = SS_STOPPED | SS_RUNNING | SS_FAILED | SS_DISABLED

record source_status =
  ss_source :: string
  ss_state :: source_state
  ss_error_type :: "string option"
  ss_topics :: "string list"

definition mk_source_status :: "source_status \<Rightarrow> event_error + source_status" where
  "mk_source_status s =
     (if ss_source s = []
      then Inl (EventProtocolError ''Source status requires a source identity and typed state'')
      else if [] \<in> set (ss_topics s)
      then Inl (EventProtocolError ''Source topics must be non-empty text'')
      else Inr s)"

record turn_event_subscription =
  sub_filter :: event_filter
  sub_coalesce :: bool
  sub_requires_decision :: bool

definition mk_subscription :: "event_filter \<Rightarrow> bool \<Rightarrow> bool \<Rightarrow> exn + turn_event_subscription" where
  "mk_subscription f coalesce requires_decision =
     (if coalesce \<and> (ef_topic f = None \<or> ef_source f = None)
      then Inl (LoopInvariantError ''State coalescing requires a bounded topic/source identity'')
      else Inr \<lparr>sub_filter = f, sub_coalesce = coalesce, sub_requires_decision = requires_decision\<rparr>)"

section \<open>The event bus\<close>

record event_receipt =
  er_sequence :: nat
  er_event_id :: string
  er_delivered :: bool

record event_bus =
  eb_capacity :: nat
  eb_max_event_bytes :: nat
  eb_receipts :: "(string \<times> (string \<times> event_receipt)) list"
  eb_sequence :: nat

definition mk_event_bus :: "int \<Rightarrow> int \<Rightarrow> event_error + event_bus" where
  "mk_event_bus capacity max_event_bytes =
     (if capacity \<le> 0 \<or> max_event_bytes \<le> 0
      then Inl (EventProtocolError ''EventBus limits must be positive integers'')
      else Inr \<lparr>eb_capacity = nat capacity, eb_max_event_bytes = nat max_event_bytes,
                eb_receipts = [], eb_sequence = 0\<rparr>)"

definition event_json :: "environment_event \<Rightarrow> json" where
  "event_json e = JObj
     [(''kind'', JStr (event_kind_value (ev_kind e))), (''payload'', JObj (ev_payload e)),
      (''id'', JStr (ev_id e)),
      (''target'', case ev_target e of None \<Rightarrow> JNull | Some t \<Rightarrow> JStr t),
      (''topic'', JStr (ev_topic e)), (''source'', JStr (ev_source e))]"

definition encode_event :: "environment_event \<Rightarrow> event_error + string" where
  "encode_event e =
     (if json_finite (event_json e) then Inr (utf8 (dumps_json (event_json e)))
      else Inl (EventProtocolError ''Environment event requires finite UTF-8 JSON''))"

text \<open>
  \<open>EventBus.publish\<close>. The lock is held across the awaited delivery, so a publication is one step.
  \<open>deliver\<close> acts on the world and answers the number of targets reached, or fails.
\<close>

definition publish ::
  "(string \<Rightarrow> string) \<Rightarrow> (environment_event \<Rightarrow> 'w \<Rightarrow> 'w \<times> (event_error + nat)) \<Rightarrow> environment_event
     \<Rightarrow> event_bus \<times> 'w \<Rightarrow> (event_bus \<times> 'w) \<times> (event_error + event_receipt)" where
  "publish digest deliver event st =
     (case st of (bus, w) \<Rightarrow>
      (case encode_event event of
         Inl e \<Rightarrow> (st, Inl e)
       | Inr encoded \<Rightarrow>
           (if length encoded > eb_max_event_bytes bus
            then (st, Inl (EventCapacityError ''Environment event exceeds admission size''))
            else (case map_of (eb_receipts bus) (ev_id event) of
                Some (d, receipt) \<Rightarrow>
                  (if d \<noteq> digest encoded
                   then (st, Inl (EventProtocolError ''Event identity was reused with different content''))
                   else (st, Inr \<lparr>er_sequence = er_sequence receipt, er_event_id = ev_id event,
                                  er_delivered = False\<rparr>))
              | None \<Rightarrow>
                  (case deliver event w of
                     (w', Inl e) \<Rightarrow> ((bus, w'), Inl e)
                   | (w', Inr reached) \<Rightarrow>
                       (let sequence = eb_sequence bus + 1;
                            receipt = \<lparr>er_sequence = sequence, er_event_id = ev_id event,
                                       er_delivered = (reached > 0)\<rparr>
                        in ((bus\<lparr>eb_sequence := sequence,
                               eb_receipts := trim_oldest (eb_capacity bus)
                                 (AList.update (ev_id event) (digest encoded, receipt) (eb_receipts bus))\<rparr>,
                             w'), Inr receipt)))))))"

section \<open>Lemmas\<close>

text \<open>Receipts are in admission order, within the sequence counter, distinct and bounded.\<close>

definition bus_inv :: "event_bus \<Rightarrow> bool" where
  "bus_inv bus =
     (0 < eb_capacity bus \<and> distinct (dict_keys (eb_receipts bus))
      \<and> length (eb_receipts bus) \<le> eb_capacity bus
      \<and> sorted_wrt (<) (map (\<lambda>(k, d, r). er_sequence r) (eb_receipts bus))
      \<and> (\<forall>(k, d, r) \<in> set (eb_receipts bus). er_sequence r \<le> eb_sequence bus \<and> er_event_id r = k))"

lemma mk_event_bus_inv: "mk_event_bus capacity bytes = Inr bus \<Longrightarrow> bus_inv bus"
  by (auto simp: mk_event_bus_def bus_inv_def split: if_splits)

lemma sorted_wrt_drop: "sorted_wrt R xs \<Longrightarrow> sorted_wrt R (drop n xs)"
  by (metis append_take_drop_id sorted_wrt_append)

lemma publish_cases:
  assumes "publish digest deliver event (bus, w) = ((bus', w'), r)"
  obtains (rejected) e where "r = Inl e" "bus' = bus"
  | (replayed) encoded d receipt where "encode_event event = Inr encoded" "bus' = bus" "w' = w"
      "map_of (eb_receipts bus) (ev_id event) = Some (d, receipt)" "d = digest encoded"
      "r = Inr \<lparr>er_sequence = er_sequence receipt, er_event_id = ev_id event, er_delivered = False\<rparr>"
  | (delivered) encoded reached where "encode_event event = Inr encoded"
      "map_of (eb_receipts bus) (ev_id event) = None" "deliver event w = (w', Inr reached)"
      "r = Inr \<lparr>er_sequence = eb_sequence bus + 1, er_event_id = ev_id event, er_delivered = (reached > 0)\<rparr>"
      "bus' = bus\<lparr>eb_sequence := eb_sequence bus + 1, eb_receipts := trim_oldest (eb_capacity bus)
        (eb_receipts bus @ [(ev_id event, digest encoded,
          \<lparr>er_sequence = eb_sequence bus + 1, er_event_id = ev_id event, er_delivered = (reached > 0)\<rparr>)])\<rparr>"
proof (cases "encode_event event")
  case (Inl e)
  with assms rejected show thesis by (auto simp: publish_def)
next
  case (Inr encoded)
  show thesis
  proof (cases "length encoded > eb_max_event_bytes bus")
    case True
    with assms Inr rejected show thesis by (auto simp: publish_def)
  next
    case size: False
    show thesis
    proof (cases "map_of (eb_receipts bus) (ev_id event)")
      case (Some p)
      obtain d receipt where p: "p = (d, receipt)" by (cases p)
      show thesis
        by (cases "d = digest encoded")
          (use assms Inr size Some p rejected replayed in \<open>auto simp: publish_def\<close>)
    next
      case None
      then have fresh: "AList.update (ev_id event) v (eb_receipts bus) = eb_receipts bus @ [(ev_id event, v)]" for v
        by (intro update_fresh) (simp add: map_of_eq_None_iff)
      obtain w1 r1 where d: "deliver event w = (w1, r1)" by fastforce
      show thesis
      proof (cases r1)
        case (Inl e)
        with assms \<open>encode_event event = Inr encoded\<close> size None d rejected show thesis
          by (auto simp: publish_def)
      next
        case (Inr reached)
        with assms \<open>encode_event event = Inr encoded\<close> size None d show thesis
          by (intro delivered) (auto simp: publish_def Let_def fresh)
      qed
    qed
  qed
qed

lemma bus_inv_append:
  assumes "bus_inv bus" "k \<notin> set (dict_keys (eb_receipts bus))"
    and "er_sequence receipt = eb_sequence bus + 1" "er_event_id receipt = k"
  shows "bus_inv (bus\<lparr>eb_sequence := eb_sequence bus + 1,
      eb_receipts := trim_oldest (eb_capacity bus) (eb_receipts bus @ [(k, d, receipt)])\<rparr>)"
proof -
  let ?rs = "eb_receipts bus @ [(k, d, receipt)]"
  have sorted: "sorted_wrt (<) (map (\<lambda>(k, d, r). er_sequence r) ?rs)"
    using assms by (auto simp: bus_inv_def sorted_wrt_append le_imp_less_Suc)
  have all: "\<forall>(k, d, r) \<in> set ?rs. er_sequence r \<le> eb_sequence bus + 1 \<and> er_event_id r = k"
    using assms by (auto simp: bus_inv_def)
  have "distinct (dict_keys ?rs)" using assms by (auto simp: bus_inv_def)
  then have "distinct (drop n (dict_keys ?rs))" for n by (rule distinct_drop)
  moreover have "sorted_wrt (<) (drop n (map (\<lambda>(k, d, r). er_sequence r) ?rs))" for n
    using sorted by (rule sorted_wrt_drop)
  moreover have "\<forall>(k, d, r) \<in> set (trim_oldest (eb_capacity bus) ?rs).
      er_sequence r \<le> eb_sequence bus + 1 \<and> er_event_id r = k"
    using all set_trim_oldest [of "eb_capacity bus" ?rs] by blast
  ultimately show ?thesis
    using assms(1) length_trim_oldest [of "eb_capacity bus" ?rs]
    by (simp add: bus_inv_def trim_oldest_drop drop_map [symmetric] del: drop_append map_append)
qed

lemma publish_inv:
  assumes "bus_inv bus" and "publish digest deliver event (bus, w) = ((bus', w'), r)"
  shows "bus_inv bus'"
  using assms(2)
proof (cases rule: publish_cases)
  case (delivered encoded reached)
  then have "ev_id event \<notin> set (dict_keys (eb_receipts bus))" by (simp add: map_of_eq_None_iff)
  then show ?thesis
    unfolding delivered(5) by (intro bus_inv_append assms(1)) simp_all
qed (use assms(1) in simp_all)

text \<open>The bus provides idempotent admission; what an identity is recorded under is its content.\<close>

definition bus_submit ::
  "(string \<Rightarrow> string) \<Rightarrow> (environment_event \<Rightarrow> 'w \<Rightarrow> 'w \<times> (event_error + nat)) \<Rightarrow> environment_event
     \<Rightarrow> event_bus \<times> 'w \<Rightarrow> (event_bus \<times> 'w) \<times> (event_error + nat \<times> bool)" where
  "bus_submit digest deliver event st =
     (case publish digest deliver event st of
        (st', Inl e) \<Rightarrow> (st', Inl e)
      | (st', Inr receipt) \<Rightarrow> (st', Inr (er_sequence receipt, er_delivered receipt)))"

definition bus_recorded :: "(string \<Rightarrow> string) \<Rightarrow> event_bus \<times> 'w \<Rightarrow> environment_event \<Rightarrow> nat option" where
  "bus_recorded digest st event =
     (case encode_event event of
        Inl _ \<Rightarrow> None
      | Inr encoded \<Rightarrow>
          (if length encoded > eb_max_event_bytes (fst st) then None
           else (case map_of (eb_receipts (fst st)) (ev_id event) of
             None \<Rightarrow> None
           | Some (d, receipt) \<Rightarrow> if d = digest encoded then Some (er_sequence receipt) else None)))"

lemma publish_records:
  assumes "bus_inv bus" and "publish digest deliver event (bus, w) = ((bus', w'), Inr receipt)"
  shows "bus_recorded digest (bus', w') event = Some (er_sequence receipt)"
proof -
  have size: "\<not> length encoded > eb_max_event_bytes bus" if "encode_event event = Inr encoded" for encoded
    using assms(2) that by (auto simp: publish_def split: if_splits)
  show ?thesis
    using assms(2)
  proof (cases rule: publish_cases)
    case (replayed encoded d r)
    with size show ?thesis by (auto simp: bus_recorded_def)
  next
    case (delivered encoded reached)
    let ?r = "\<lparr>er_sequence = eb_sequence bus + 1, er_event_id = ev_id event, er_delivered = (reached > 0)\<rparr>"
    have "0 < eb_capacity bus" using assms(1) by (simp add: bus_inv_def)
    from trim_oldest_snoc [OF this, of "eb_receipts bus" "(ev_id event, digest encoded, ?r)"]
    obtain ys where "trim_oldest (eb_capacity bus) (eb_receipts bus @ [(ev_id event, digest encoded, ?r)])
      = ys @ [(ev_id event, digest encoded, ?r)]" by blast
    then have ys: "eb_receipts bus' = ys @ [(ev_id event, digest encoded, ?r)]"
      by (simp add: delivered(5))
    have "distinct (dict_keys (eb_receipts bus'))"
      using publish_inv [OF assms] by (simp add: bus_inv_def)
    with ys have "map_of (eb_receipts bus') (ev_id event) = Some (digest encoded, ?r)"
      by (intro map_of_distinct_mem) auto
    moreover have "eb_max_event_bytes bus' = eb_max_event_bytes bus" using delivered by simp
    ultimately show ?thesis using delivered size by (simp add: bus_recorded_def)
  qed simp
qed

interpretation event_admission:
  idempotent_admission "bus_submit digest deliver" "bus_recorded digest" "\<lambda>st. bus_inv (fst st)"
  for digest deliver
proof unfold_locales
  fix s :: "event_bus \<times> 'a" and r n
  assume "bus_recorded digest s r = Some n"
  then show "bus_submit digest deliver r s = (s, Inr (n, False))"
    by (auto simp: bus_recorded_def bus_submit_def publish_def split: sum.splits option.splits prod.splits if_splits)
next
  fix s s' :: "event_bus \<times> 'a" and r n b
  assume "bus_inv (fst s)" "bus_submit digest deliver r s = (s', Inr (n, b))"
  then show "bus_recorded digest s' r = Some n"
    by (cases s; cases s')
      (auto simp: bus_submit_def split: prod.splits sum.splits dest: publish_records)
qed

section \<open>Properties\<close>

text \<open>
  Publishing is idempotent while the receipt is retained, and retention is a bounded window.
  After a publication that was admitted, publishing the same event again any number of times
  delivers nothing (bus and world unchanged) and answers the same sequence number with
  \<open>delivered\<close> false; the receipt kept for it is always within the capacity; and the invariant that
  receipts are distinct, in sequence order and bounded by the counter is preserved.
\<close>

theorem publish_idempotent:
  assumes "bus_inv bus" and "publish digest deliver event (bus, w) = ((bus', w'), Inr receipt)"
  shows "run_ops (publish digest deliver) (replicate n event) (bus', w')
      = ((bus', w'), replicate n (Inr (receipt\<lparr>er_delivered := False\<rparr>)))
    \<and> bus_inv bus' \<and> length (eb_receipts bus') \<le> eb_capacity bus'"
proof -
  have inv': "bus_inv bus'" by (rule publish_inv [OF assms])
  have "bus_submit digest deliver event (bus', w') = ((bus', w'), Inr (er_sequence receipt, False))"
    using event_admission.resubmit [of "(bus, w)" digest deliver event "(bus', w')"
        "er_sequence receipt" "er_delivered receipt"] assms
    by (simp add: bus_submit_def)
  then obtain r where r: "publish digest deliver event (bus', w') = ((bus', w'), Inr r)"
    and rs: "er_sequence r = er_sequence receipt" "\<not> er_delivered r"
    by (auto simp: bus_submit_def split: prod.splits sum.splits)
  have ids: "er_event_id r = ev_id event" "er_event_id receipt = ev_id event"
    using r assms(2) by (auto elim: publish_cases)
  then have "r = receipt\<lparr>er_delivered := False\<rparr>" using rs by (cases r; cases receipt) simp
  with r have "publish digest deliver event (bus', w')
      = ((bus', w'), Inr (receipt\<lparr>er_delivered := False\<rparr>))" by simp
  then have "run_ops (publish digest deliver) (replicate n event) (bus', w')
      = ((bus', w'), replicate n (Inr (receipt\<lparr>er_delivered := False\<rparr>)))"
    by (induction n) simp_all
  with inv' show ?thesis by (simp add: bus_inv_def)
qed

definition sample_event :: environment_event where
  "sample_event = \<lparr>ev_kind = EK_EVENT, ev_payload = [(''n'', JInt 1)], ev_id = ''e1'',
     ev_target = None, ev_topic = ''t'', ev_source = ''s''\<rparr>"

definition sample_bus :: event_bus where
  "sample_bus = \<lparr>eb_capacity = 2, eb_max_event_bytes = 200, eb_receipts = [], eb_sequence = 0\<rparr>"

definition log_deliver :: "environment_event \<Rightarrow> string list \<Rightarrow> string list \<times> (event_error + nat)" where
  "log_deliver e log = (log @ [ev_id e], Inr 1)"

theorem publish_idempotent_witness:
  "\<exists>bus'. publish id log_deliver sample_event (sample_bus, []) =
      ((bus', [''e1'']), Inr \<lparr>er_sequence = 1, er_event_id = ''e1'', er_delivered = True\<rparr>)
    \<and> run_ops (publish id log_deliver) (replicate 3 sample_event) (bus', [''e1'']) =
      ((bus', [''e1'']), replicate 3 (Inr \<lparr>er_sequence = 1, er_event_id = ''e1'', er_delivered = False\<rparr>))"
proof -
  have inv: "bus_inv sample_bus" by (simp add: bus_inv_def sample_bus_def)
  have "snd (publish id log_deliver sample_event (sample_bus, []))
      = Inr \<lparr>er_sequence = 1, er_event_id = ''e1'', er_delivered = True\<rparr>"
    and "snd (fst (publish id log_deliver sample_event (sample_bus, []))) = [''e1'']"
    by code_simp+
  then obtain bus' where p: "publish id log_deliver sample_event (sample_bus, []) =
      ((bus', [''e1'']), Inr \<lparr>er_sequence = 1, er_event_id = ''e1'', er_delivered = True\<rparr>)"
    by (metis prod.collapse)
  from publish_idempotent [OF inv p, of 3] p show ?thesis by auto
qed

text \<open>
  The bus reuses no identity for another content and a failed delivery can be retried. An
  event whose identity is retained for a content with another digest is refused without being
  delivered; a publication that fails for whatever reason leaves the bus as it was (no receipt, no
  sequence number consumed).
\<close>

theorem publish_refuses_reuse:
  "(map_of (eb_receipts bus) (ev_id event) = Some (d, receipt) \<and> encode_event event = Inr encoded
      \<and> d \<noteq> digest encoded
    \<longrightarrow> (\<exists>e. publish digest deliver event (bus, w) = ((bus, w), Inl e)))
   \<and> (\<forall>bus' w' e. publish digest deliver event (bus, w) = ((bus', w'), Inl e) \<longrightarrow> bus' = bus)"
proof -
  have "publish digest deliver event (bus, w) = ((bus', w'), Inl e) \<Longrightarrow> bus' = bus" for bus' w' e
    by (auto elim: publish_cases)
  then show ?thesis by (auto simp: publish_def)
qed

theorem publish_refuses_reuse_witness:
  "\<exists>e. publish id log_deliver (sample_event\<lparr>ev_payload := [(''n'', JInt 2)]\<rparr>)
     (sample_bus\<lparr>eb_receipts := [(''e1'', ''old'', \<lparr>er_sequence = 1, er_event_id = ''e1'', er_delivered = True\<rparr>)],
        eb_sequence := 1\<rparr>, []) =
     ((sample_bus\<lparr>eb_receipts := [(''e1'', ''old'', \<lparr>er_sequence = 1, er_event_id = ''e1'', er_delivered = True\<rparr>)],
        eb_sequence := 1\<rparr>, []), Inl e)"
proof -
  let ?r = "\<lparr>er_sequence = 1, er_event_id = ''e1'', er_delivered = True\<rparr>"
  let ?b = "sample_bus\<lparr>eb_receipts := [(''e1'', ''old'', ?r)], eb_sequence := 1\<rparr>"
  let ?e = "sample_event\<lparr>ev_payload := [(''n'', JInt 2)]\<rparr>"
  obtain encoded where enc: "encode_event ?e = Inr encoded"
    by (simp add: encode_event_def event_json_def sample_event_def)
  have "hd encoded = CHR ''{''"
  proof -
    have "hd (projr (encode_event ?e)) = CHR ''{''" by code_simp
    with enc show ?thesis by simp
  qed
  then have "''old'' \<noteq> id encoded" by auto
  moreover have "map_of (eb_receipts ?b) (ev_id ?e) = Some (''old'', ?r)"
    by (simp add: sample_event_def)
  ultimately show ?thesis
    using publish_refuses_reuse [of ?b ?e "''old''" ?r encoded id log_deliver "[]"] enc by blast
qed

end
