(* ===== verification/Interaction.thy ===== *)
theory Interaction
  imports Json
begin

text \<open>
  Question and answer values (tinysoul/kernel/interaction.py): the checked constructors, their
  JSON forms and the text an answer contributes. A dataclass is a record, its \<open>__post_init__\<close>
  the checked constructor \<open>mk_...\<close>; the JSON parser re-checks every field.
\<close>

datatype question_error = QuestionError string

type_synonym 'a question_result = "question_error + 'a"

text \<open>\<open>_text\<close>: bounded text, non-blank unless empty text is allowed; \<open>None\<close> is a missing member.\<close>

definition q_text :: "json option \<Rightarrow> nat \<Rightarrow> bool \<Rightarrow> string question_result" where
  "q_text value maximum allow_empty =
     (case value of
        Some (JStr s) \<Rightarrow>
          (if length s > maximum \<or> (\<not> allow_empty \<and> py_strip s = [])
           then Inl (QuestionError ''Question or answer text is invalid'')
           else Inr s)
      | _ \<Rightarrow> Inl (QuestionError ''Question or answer text is invalid''))"

text \<open>The same check on a value already known to be text.\<close>

definition text_ok :: "nat \<Rightarrow> bool \<Rightarrow> string \<Rightarrow> bool" where
  "text_ok maximum allow_empty s = (length s \<le> maximum \<and> (allow_empty \<or> py_strip s \<noteq> []))"

record question_option =
  qo_id :: string
  qo_label :: string
  qo_description :: string

definition mk_question_option :: "string \<Rightarrow> string \<Rightarrow> string \<Rightarrow> question_option question_result" where
  "mk_question_option i l d =
     bind_r (q_text (Some (JStr i)) 128 False) (\<lambda>_.
     bind_r (q_text (Some (JStr l)) 256 False) (\<lambda>_.
     bind_r (q_text (Some (JStr d)) 2000 True) (\<lambda>_.
     Inr \<lparr>qo_id = i, qo_label = l, qo_description = d\<rparr>)))"

definition question_option_to_json :: "question_option \<Rightarrow> json" where
  "question_option_to_json q =
     JObj [(''id'', JStr (qo_id q)), (''label'', JStr (qo_label q)),
           (''description'', JStr (qo_description q))]"

record question_content =
  qc_question :: string
  qc_options :: "question_option list"
  qc_allow_other :: bool
  qc_details :: string

definition mk_question_content ::
  "string \<Rightarrow> question_option list \<Rightarrow> bool \<Rightarrow> string \<Rightarrow> question_content question_result" where
  "mk_question_content question options allow_other details =
     bind_r (q_text (Some (JStr question)) 16000 False) (\<lambda>_.
     bind_r (q_text (Some (JStr details)) 16000 True) (\<lambda>_.
     if length options > 8
     then Inl (QuestionError ''Question options or other-answer policy is invalid'')
     else if length (remdups (map qo_id options)) \<noteq> length options
     then Inl (QuestionError ''Question options require unique identities'')
     else if options = [] \<and> \<not> allow_other
     then Inl (QuestionError ''Question must allow an answer'')
     else Inr \<lparr>qc_question = question, qc_options = options,
               qc_allow_other = allow_other, qc_details = details\<rparr>))"

definition question_text :: "question_content \<Rightarrow> string" where
  "question_text q =
     (if qc_details q \<noteq> []
      then qc_details q @ [char_of (10::nat), char_of (10::nat)] @ qc_question q
      else qc_question q)"

definition question_to_json :: "question_content \<Rightarrow> json" where
  "question_to_json q =
     JObj [(''question'', JStr (qc_question q)), (''details'', JStr (qc_details q)),
           (''options'', JArr (map question_option_to_json (qc_options q))),
           (''allow_other'', JBool (qc_allow_other q))]"

definition question_option_from_json :: "json \<Rightarrow> question_option question_result" where
  "question_option_from_json v =
     (case v of
        JObj option \<Rightarrow>
          (if set (dict_keys option) - {''id'', ''label'', ''description''} \<noteq> {}
           then Inl (QuestionError ''Question option is invalid'')
           else bind_r (q_text (map_of option ''id'') 128 False) (\<lambda>i.
                bind_r (q_text (map_of option ''label'') 256 False) (\<lambda>l.
                bind_r (q_text (Some (dict_get option ''description'' (JStr []))) 2000 True) (\<lambda>d.
                mk_question_option i l d))))
      | _ \<Rightarrow> Inl (QuestionError ''Question option is invalid''))"

definition question_from_json :: "json_object \<Rightarrow> question_content question_result" where
  "question_from_json value =
     (case dict_get value ''options'' (JArr []) of
        JArr raw \<Rightarrow>
          bind_r (traverse question_option_from_json raw) (\<lambda>options.
          (case dict_get value ''allow_other'' (JBool True) of
             JBool other \<Rightarrow>
               bind_r (q_text (map_of value ''question'') 16000 False) (\<lambda>question.
               bind_r (q_text (Some (dict_get value ''details'' (JStr []))) 16000 True) (\<lambda>details.
               mk_question_content question options other details))
           | _ \<Rightarrow> Inl (QuestionError ''Question other-answer policy must be boolean'')))
      | _ \<Rightarrow> Inl (QuestionError ''Question options must be an array''))"

datatype answer_kind = AK_CHOICE | AK_TEXT

record question_answer =
  qa_kind :: answer_kind
  qa_text :: string
  qa_option_id :: string
  qa_comment :: string

definition mk_question_answer ::
  "answer_kind \<Rightarrow> string \<Rightarrow> string \<Rightarrow> string \<Rightarrow> question_answer question_result" where
  "mk_question_answer kind txt option_id comment =
     (let a = \<lparr>qa_kind = kind, qa_text = txt, qa_option_id = option_id, qa_comment = comment\<rparr> in
      case kind of
        AK_TEXT \<Rightarrow>
          bind_r (q_text (Some (JStr txt)) 16384 False) (\<lambda>_.
          if option_id \<noteq> [] \<or> comment \<noteq> []
          then Inl (QuestionError ''Text answer cannot carry a choice'') else Inr a)
      | AK_CHOICE \<Rightarrow>
          bind_r (q_text (Some (JStr option_id)) 128 False) (\<lambda>_.
          bind_r (q_text (Some (JStr comment)) 16384 True) (\<lambda>_.
          if txt \<noteq> []
          then Inl (QuestionError ''Choice answer cannot carry free text'') else Inr a)))"

definition answer_to_json :: "question_answer \<Rightarrow> json" where
  "answer_to_json a =
     (case qa_kind a of
        AK_TEXT \<Rightarrow> JObj [(''kind'', JStr ''text''), (''text'', JStr (qa_text a))]
      | AK_CHOICE \<Rightarrow> JObj [(''kind'', JStr ''choice''), (''option_id'', JStr (qa_option_id a)),
                          (''comment'', JStr (qa_comment a))])"

definition answer_from_json :: "json \<Rightarrow> question_answer question_result" where
  "answer_from_json v =
     (case v of
        JObj value \<Rightarrow>
          (if map_of value ''kind'' = Some (JStr ''text'')
              \<and> set (dict_keys value) - {''kind'', ''text''} = {}
           then bind_r (q_text (map_of value ''text'') 16384 False) (\<lambda>t.
                mk_question_answer AK_TEXT t [] [])
           else if map_of value ''kind'' = Some (JStr ''choice'')
              \<and> set (dict_keys value) - {''kind'', ''option_id'', ''comment''} = {}
           then bind_r (q_text (map_of value ''option_id'') 128 False) (\<lambda>i.
                bind_r (q_text (Some (dict_get value ''comment'' (JStr []))) 16384 True) (\<lambda>c.
                mk_question_answer AK_CHOICE [] i c))
           else Inl (QuestionError ''Answer does not match the choice/text protocol''))
      | _ \<Rightarrow> Inl (QuestionError ''Answer must be an object''))"

text \<open>\<open>QuestionContent.answer_text\<close>: the text an answer contributes, validated against the question.\<close>

definition answer_text :: "question_content \<Rightarrow> question_answer \<Rightarrow> string question_result" where
  "answer_text q a =
     (case qa_kind a of
        AK_TEXT \<Rightarrow>
          (if qc_options q \<noteq> [] \<and> \<not> qc_allow_other q
           then Inl (QuestionError ''This question requires one of its options'')
           else Inr (qa_text a))
      | AK_CHOICE \<Rightarrow>
          (case find (\<lambda>o'. qo_id o' = qa_option_id a) (qc_options q) of
             None \<Rightarrow> Inl (QuestionError ''Answer does not identify a current option'')
           | Some o' \<Rightarrow> Inr (py_join [char_of (10::nat)]
               (filter (\<lambda>part. part \<noteq> [])
                 [qo_label o' @ '' ('' @ qo_id o' @ '')'', qo_description o', qa_comment a]))))"

section \<open>Narratives\<close>

text \<open>The reading projections of inputs and replies (with their wording, prompts/kernel/interaction.py).\<close>

record interaction_narrative =
  nv_title :: string
  nv_parts :: "(string \<times> string) list"

definition mk_narrative :: "string \<Rightarrow> (string \<times> string) list \<Rightarrow> interaction_narrative question_result" where
  "mk_narrative title parts =
     (if title = [] \<or> parts = []
      then Inl (QuestionError ''Interaction narrative requires a title and content'')
      else Inr \<lparr>nv_title = title, nv_parts = parts\<rparr>)"

definition narrative_text :: "interaction_narrative \<Rightarrow> string" where
  "narrative_text n = py_join [char_of (10::nat)] (map snd (nv_parts n))"

definition question_title :: "string \<Rightarrow> string" where
  "question_title question = ''Agent question: '' @ question"

definition content_title :: "question_content \<Rightarrow> string" where
  "content_title q = question_title (take 160 (qc_question q))"

definition content_display :: "question_content \<Rightarrow> json_object" where
  "content_display q =
     (case question_to_json q of
        JObj content \<Rightarrow> AList.update ''text'' (JStr (question_text q)) content
      | _ \<Rightarrow> [])"

definition question_parts :: "string \<Rightarrow> (string \<times> string \<times> string) list \<Rightarrow> bool \<Rightarrow> (string \<times> string) list" where
  "question_parts body options allow_other =
     [(''Agent question'', ''Agent question:'' @ [char_of (10::nat)] @ body)]
     @ map (\<lambda>(identity, label, description).
         (label @ '' ['' @ identity @ '']'',
          ''- '' @ label @ '' ['' @ identity @ '']'' @ (if description \<noteq> [] then '': '' @ description else []))) options
     @ (if options \<noteq> []
        then [(''Answer policy'', if allow_other then ''You may also answer in your own words.''
               else ''Choose one of these options.'')]
        else [])"

definition content_narrative_parts :: "question_content \<Rightarrow> (string \<times> string) list" where
  "content_narrative_parts q =
     question_parts (question_text q)
       (map (\<lambda>o'. (qo_id o', qo_label o', qo_description o')) (qc_options q)) (qc_allow_other q)"

definition content_narrative :: "question_content \<Rightarrow> string" where
  "content_narrative q = py_join [char_of (10::nat)] (map snd (content_narrative_parts q))"

definition reply_title :: "string \<Rightarrow> string \<Rightarrow> string" where
  "reply_title question answer = ''User reply: '' @ question @ '' / '' @ answer"

definition reply_parts :: "string \<Rightarrow> string \<Rightarrow> string \<Rightarrow> string \<Rightarrow> string \<Rightarrow> (string \<times> string) list" where
  "reply_parts question body selected description comment =
     [(''Associated question'', ''In reply to: '' @ question)]
     @ (if selected \<noteq> []
        then [(''User selection'', ''User selected: '' @ selected)]
          @ (if description \<noteq> [] then [(''Selected option description'', description)] else [])
          @ (if comment \<noteq> [] then [(''User comment'', ''User comment: '' @ comment)] else [])
        else [(''User answer'', ''User answer: '' @ body)])"

definition reply_projection :: "question_content \<Rightarrow> question_answer \<Rightarrow> interaction_narrative question_result" where
  "reply_projection q a =
     (case answer_text q a of
        Inl e \<Rightarrow> Inl e
      | Inr _ \<Rightarrow>
          (let chosen = find (\<lambda>o'. qo_id o' = qa_option_id a) (qc_options q)
           in mk_narrative
                (reply_title (take 100 (py_join '' '' (py_split (qc_question q))))
                  (take 80 (py_join '' '' (py_split
                    (case chosen of None \<Rightarrow> qa_text a | Some o' \<Rightarrow> qo_label o')))))
                (reply_parts (question_text q) (qa_text a)
                  (case chosen of None \<Rightarrow> [] | Some o' \<Rightarrow> qo_label o')
                  (case chosen of None \<Rightarrow> [] | Some o' \<Rightarrow> qo_description o') (qa_comment a))))"

definition reply_narrative :: "question_content \<Rightarrow> question_answer \<Rightarrow> string question_result" where
  "reply_narrative q a = bind_r (reply_projection q a) (\<lambda>n. Inr (narrative_text n))"

definition input_text :: "string \<Rightarrow> bool \<Rightarrow> string" where
  "input_text body initial =
     (if initial then ''User input:'' else ''User added:'') @ [char_of (10::nat)] @ body"

definition input_narrative :: "string \<Rightarrow> bool \<Rightarrow> string" where
  "input_narrative body initial = input_text body initial"

definition input_title :: "bool \<Rightarrow> string" where
  "input_title initial = (if initial then ''User input'' else ''User append'')"

definition input_projection :: "string \<Rightarrow> bool \<Rightarrow> interaction_narrative question_result" where
  "input_projection body initial =
     mk_narrative (input_title initial) [(input_title initial, input_narrative body initial)]"

section \<open>Well-formed values\<close>

definition wf_question_option :: "question_option \<Rightarrow> bool" where
  "wf_question_option q = (text_ok 128 False (qo_id q) \<and> text_ok 256 False (qo_label q)
     \<and> text_ok 2000 True (qo_description q))"

definition wf_question :: "question_content \<Rightarrow> bool" where
  "wf_question q = (text_ok 16000 False (qc_question q) \<and> text_ok 16000 True (qc_details q)
     \<and> length (qc_options q) \<le> 8 \<and> distinct (map qo_id (qc_options q))
     \<and> list_all wf_question_option (qc_options q) \<and> (qc_options q \<noteq> [] \<or> qc_allow_other q))"

definition wf_answer :: "question_answer \<Rightarrow> bool" where
  "wf_answer a =
     (case qa_kind a of
        AK_TEXT \<Rightarrow> text_ok 16384 False (qa_text a) \<and> qa_option_id a = [] \<and> qa_comment a = []
      | AK_CHOICE \<Rightarrow> text_ok 128 False (qa_option_id a) \<and> text_ok 16384 True (qa_comment a)
          \<and> qa_text a = [])"

lemma q_text_Inr_iff [simp]: "q_text v m e = Inr s \<longleftrightarrow> v = Some (JStr s) \<and> text_ok m e s"
  by (auto simp: q_text_def text_ok_def split: option.splits json.splits if_splits)

lemma q_text_ok [simp]: "text_ok m e s \<Longrightarrow> q_text (Some (JStr s)) m e = Inr s"
  by simp

lemma mk_question_option_iff:
  "mk_question_option i l d = Inr q \<longleftrightarrow>
     q = \<lparr>qo_id = i, qo_label = l, qo_description = d\<rparr> \<and> wf_question_option q"
  by (auto simp: mk_question_option_def wf_question_option_def bind_r_Inr_iff)

lemma length_remdups_distinct [simp]: "length (remdups xs) = length xs \<longleftrightarrow> distinct xs"
  by (simp add: length_remdups_card_conv card_distinct distinct_card) (metis card_distinct distinct_card)

lemma option_roundtrip:
  "wf_question_option q \<Longrightarrow> question_option_from_json (question_option_to_json q) = Inr q"
  by (cases q)
    (auto simp: question_option_from_json_def question_option_to_json_def dict_get_def
      bind_r_Inr_iff mk_question_option_iff wf_question_option_def)

lemma option_from_json_wf: "question_option_from_json j = Inr q \<Longrightarrow> wf_question_option q"
  by (auto simp: question_option_from_json_def bind_r_Inr_iff mk_question_option_iff
      split: json.splits if_splits)

interpretation option_codec: codec question_option_to_json question_option_from_json wf_question_option
  by unfold_locales (auto simp: option_roundtrip dest: option_from_json_wf)

lemma mk_question_content_iff:
  "mk_question_content qn os ao ds = Inr q \<longleftrightarrow>
     q = \<lparr>qc_question = qn, qc_options = os, qc_allow_other = ao, qc_details = ds\<rparr>
     \<and> text_ok 16000 False qn \<and> text_ok 16000 True ds \<and> length os \<le> 8
     \<and> distinct (map qo_id os) \<and> (os \<noteq> [] \<or> ao)"
  using length_remdups_distinct [of "map qo_id os"]
  by (auto simp: mk_question_content_def bind_r_Inr_iff split: if_splits)

text \<open>The parser of a whole question, over the JSON value its printer builds.\<close>

definition question_parse :: "json \<Rightarrow> question_content question_result" where
  "question_parse j =
     (case j of JObj value \<Rightarrow> question_from_json value
      | _ \<Rightarrow> Inl (QuestionError ''Question must be an object''))"

lemma question_roundtrip:
  assumes "wf_question q" shows "question_parse (question_to_json q) = Inr q"
proof -
  have opts: "traverse question_option_from_json (map question_option_to_json (qc_options q))
      = Inr (qc_options q)"
    using assms by (intro traverse_map_ok) (auto simp: wf_question_def list_all_iff option_roundtrip)
  show ?thesis
    using assms opts
    by (cases q) (auto simp: question_parse_def question_to_json_def question_from_json_def
        dict_get_def bind_r_Inr_iff mk_question_content_iff wf_question_def)
qed

lemma question_from_json_wf:
  assumes "question_from_json v = Inr q" shows "wf_question q"
proof -
  obtain raw where raw: "dict_get v ''options'' (JArr []) = JArr raw"
    using assms by (cases "dict_get v ''options'' (JArr [])") (auto simp: question_from_json_def)
  obtain other where other: "dict_get v ''allow_other'' (JBool True) = JBool other"
    using assms raw
    by (cases "dict_get v ''allow_other'' (JBool True)")
      (auto simp: question_from_json_def bind_r_Inr_iff)
  from assms obtain os where r: "traverse question_option_from_json raw = Inr os"
    and rest: "\<exists>question details. text_ok 16000 False question \<and> text_ok 16000 True details
      \<and> mk_question_content question os other details = Inr q"
    by (auto simp: question_from_json_def raw other bind_r_Inr_iff)
  have "list_all wf_question_option os"
    using traverse_Inr_all [OF r] option_from_json_wf by (auto simp: list_all_iff)
  with rest show ?thesis
    by (auto simp: mk_question_content_iff wf_question_def)
qed

lemma question_parse_wf: "question_parse j = Inr q \<Longrightarrow> wf_question q"
  by (cases j) (auto simp: question_parse_def dest: question_from_json_wf)

interpretation question_codec: codec question_to_json question_parse wf_question
  by unfold_locales (rule question_roundtrip, assumption, rule question_parse_wf)

lemma mk_question_answer_iff:
  "mk_question_answer k t i c = Inr a \<longleftrightarrow>
     a = \<lparr>qa_kind = k, qa_text = t, qa_option_id = i, qa_comment = c\<rparr> \<and> wf_answer a"
  by (cases k) (auto simp: mk_question_answer_def wf_answer_def bind_r_Inr_iff)

lemma answer_roundtrip: "wf_answer a \<Longrightarrow> answer_from_json (answer_to_json a) = Inr a"
  by (cases a; cases "qa_kind a")
    (auto simp: answer_from_json_def answer_to_json_def dict_get_def bind_r_Inr_iff
      mk_question_answer_iff wf_answer_def)

lemma answer_from_json_wf: "answer_from_json j = Inr a \<Longrightarrow> wf_answer a"
  by (auto simp: answer_from_json_def bind_r_Inr_iff mk_question_answer_iff
      split: json.splits if_splits)

interpretation answer_codec: codec answer_to_json answer_from_json wf_answer
  by unfold_locales (auto simp: answer_roundtrip dest: answer_from_json_wf)

section \<open>Properties\<close>

text \<open>
  The JSON form of a question is faithful and its parser is strict. A well-formed question
  (bounded non-blank text, at most eight options with distinct identities, some way to answer)
  parses back from its own JSON form unchanged, and anything the parser accepts, whatever object
  it came from, is a well-formed question; likewise for answers.
\<close>

theorem question_answer_json:
  "(wf_question q \<longrightarrow> question_parse (question_to_json q) = Inr q)
   \<and> (question_parse j = Inr q \<longrightarrow> wf_question q)
   \<and> (wf_answer a \<longrightarrow> answer_from_json (answer_to_json a) = Inr a)
   \<and> (answer_from_json j = Inr a \<longrightarrow> wf_answer a)"
  using question_codec.dec_enc question_codec.dec_wf answer_codec.dec_enc answer_codec.dec_wf
  by blast

definition sample_question :: question_content where
  "sample_question = \<lparr>qc_question = ''Ship it?'',
     qc_options = [\<lparr>qo_id = ''y'', qo_label = ''Yes'', qo_description = []\<rparr>,
                   \<lparr>qo_id = ''n'', qo_label = ''No'', qo_description = ''keep''\<rparr>],
     qc_allow_other = False, qc_details = []\<rparr>"

definition sample_answer :: question_answer where
  "sample_answer = \<lparr>qa_kind = AK_CHOICE, qa_text = [], qa_option_id = ''n'', qa_comment = ''later''\<rparr>"

lemma wf_sample_question: "wf_question sample_question"
  by code_simp

lemma wf_sample_answer: "wf_answer sample_answer"
  by code_simp

theorem question_answer_json_witness:
  "question_parse (question_to_json sample_question) = Inr sample_question
   \<and> answer_from_json (answer_to_json sample_answer) = Inr sample_answer"
  using question_answer_json [of sample_question "question_to_json sample_question" sample_answer]
    wf_sample_question wf_sample_answer by blast

text \<open>
  \<open>answer_text\<close> on a well-formed question: a choice is accepted exactly when it names one of
  the question's options; a free text exactly when the question has no options or allows another
  answer, and then it is passed on unchanged; and an accepted choice carries the label and the
  identity of the one option with that identity.
\<close>

theorem answer_text_accepts:
  assumes "wf_question q" and "wf_answer a"
  shows "(is_ok (answer_text q a) \<longleftrightarrow>
      (case qa_kind a of
         AK_TEXT \<Rightarrow> qc_options q = [] \<or> qc_allow_other q
       | AK_CHOICE \<Rightarrow> qa_option_id a \<in> qo_id ` set (qc_options q)))
    \<and> (\<forall>t. answer_text q a = Inr t \<longrightarrow>
      (case qa_kind a of
         AK_TEXT \<Rightarrow> t = qa_text a
       | AK_CHOICE \<Rightarrow> (\<exists>!o'. o' \<in> set (qc_options q) \<and> qo_id o' = qa_option_id a
           \<and> py_startswith t (qo_label o' @ '' ('' @ qo_id o' @ '')''))))"
proof (cases "qa_kind a")
  case AK_TEXT
  then show ?thesis by (auto simp: answer_text_def)
next
  case k: AK_CHOICE
  show ?thesis
  proof (cases "find (\<lambda>o'. qo_id o' = qa_option_id a) (qc_options q)")
    case None
    then have "qa_option_id a \<notin> qo_id ` set (qc_options q)" by (auto simp: find_None_iff)
    with k None show ?thesis by (simp add: answer_text_def)
  next
    case (Some o')
    then have mem: "o' \<in> set (qc_options q)" "qo_id o' = qa_option_id a"
      by (auto dest: find_Some_mem)
    have uniq: "o'' = o'" if "o'' \<in> set (qc_options q)" "qo_id o'' = qa_option_id a" for o''
      using assms(1) mem that by (metis distinct_map inj_onD wf_question_def)
    have starts: "py_startswith t (qo_label o' @ '' ('' @ qo_id o' @ '')'')"
      if "answer_text q a = Inr t" for t
    proof -
      have "\<exists>ps. t = py_join [char_of (10::nat)] ((qo_label o' @ '' ('' @ qo_id o' @ '')'') # ps)"
        using that k Some by (auto simp: answer_text_def)
      then obtain ps
        where "t = py_join [char_of (10::nat)] ((qo_label o' @ '' ('' @ qo_id o' @ '')'') # ps)"
        by blast
      then show ?thesis by (cases ps) (auto simp: py_startswith_iff)
    qed
    have "\<exists>!o'. o' \<in> set (qc_options q) \<and> qo_id o' = qa_option_id a
        \<and> py_startswith t (qo_label o' @ '' ('' @ qo_id o' @ '')'')" if "answer_text q a = Inr t" for t
      using mem starts [OF that] by (intro ex1I [of _ o']) (simp, rule uniq, simp_all)
    moreover have "is_ok (answer_text q a)" using k Some by (simp add: answer_text_def)
    moreover have "qa_option_id a \<in> qo_id ` set (qc_options q)" using mem by force
    ultimately show ?thesis unfolding k by (simp only: answer_kind.case) blast
  qed
qed

theorem answer_text_accepts_witness:
  "answer_text sample_question sample_answer
     = Inr (''No (n)'' @ [char_of (10::nat)] @ ''keep'' @ [char_of (10::nat)] @ ''later'')
   \<and> is_ok (answer_text sample_question sample_answer)"
proof -
  have "qa_option_id sample_answer \<in> qo_id ` set (qc_options sample_question)
      \<and> qa_kind sample_answer = AK_CHOICE"
    by (simp add: sample_answer_def sample_question_def)
  then have "is_ok (answer_text sample_question sample_answer)"
    using answer_text_accepts [OF wf_sample_question wf_sample_answer] by simp
  moreover have "answer_text sample_question sample_answer
     = Inr (''No (n)'' @ [char_of (10::nat)] @ ''keep'' @ [char_of (10::nat)] @ ''later'')"
    by code_simp
  ultimately show ?thesis by simp
qed

end
