(* ===== verification/Inbox.thy ===== *)
theory Inbox
  imports Complex_Main Events Interaction
begin

text \<open>
  The Turn inbox (tinysoul/kernel/loop/interaction/inbox.py): bounded admission of identified
  records, reserved slots for replies and Job terminals, capture and acknowledgement of fixed
  batches, budget grants, and the wait for the next Cycle.

  Every method takes the inbox's condition lock, so a method is one atomic step
  \<open>inbox \<Rightarrow> inbox \<times> (inbox_error + result)\<close>; the state it has reached when it raises is kept. The one
  method that suspends, \<open>wait_for_cycle\<close>, is given by its entry, one pass of its loop (from one
  wake-up of the condition to the next) and its \<open>finally\<close> block. The identity tests
  (\<open>batch is not self._captured\<close>, \<open>budget is not self._budget_request\<close>,
  \<open>condition.question is not self._question\<close>) compare the values; a batch carries the number it was
  created with, so two captures are never the same object by accident. A Job input whose
  \<open>request_id\<close> is unhashable, which Python refuses with a \<open>TypeError\<close>, is refused here with the same
  \<open>InboxError\<close> as any other identity that is not text. \<open>digest\<close> is the
  SHA-256 hex digest, \<open>fresh\<close> a new \<open>uuid4\<close>, \<open>received\<close> and \<open>now\<close> clock readings, and
  \<open>statuses\<close> what the bound source-status callable answers.
\<close>

datatype inbox_error =
    InboxError string
  | InboxClosedError string
  | InboxCapacityError string

type_synonym 'a inbox_result = "inbox_error + 'a"

datatype inbox_kind = IK_INPUT | IK_REPLY | IK_EVENT | IK_TIMER | IK_JOB

fun inbox_kind_value :: "inbox_kind \<Rightarrow> string" where
  "inbox_kind_value IK_INPUT = ''input''"
| "inbox_kind_value IK_REPLY = ''reply''"
| "inbox_kind_value IK_EVENT = ''event''"
| "inbox_kind_value IK_TIMER = ''timer''"
| "inbox_kind_value IK_JOB = ''job''"

definition inbox_kind_of_event :: "event_kind \<Rightarrow> inbox_kind" where
  "inbox_kind_of_event k = (case k of EK_EVENT \<Rightarrow> IK_EVENT | EK_TIMER \<Rightarrow> IK_TIMER)"

datatype wait_reason = WR_INPUT | WR_EVENT | WR_TIMER | WR_BUDGET

datatype turn_state = TS_QUEUED | TS_PREPARING | TS_RUNNING | TS_WAITING | TS_FINALIZING | TS_FINISHED

datatype wake_reason = WK_INPUT | WK_REPLY | WK_EVENT | WK_JOB | WK_TIMER | WK_SOURCE_UNAVAILABLE

text \<open>A Python int or float used as a time: a finite value, or an infinity or NaN.\<close>

datatype number = Num rat | NonFinite

fun finite_number :: "number \<Rightarrow> bool" where
  "finite_number (Num x) = True"
| "finite_number NonFinite = False"

section \<open>Values\<close>

record question_request =
  qr_id :: string
  qr_content :: question_content
  qr_timeout :: "number option"

definition mk_question_request ::
  "string \<Rightarrow> question_content \<Rightarrow> number option \<Rightarrow> question_request inbox_result" where
  "mk_question_request qid content timeout =
     (if qid = [] then Inl (InboxError ''Question identity and text are required'')
      else case timeout of
        Some NonFinite \<Rightarrow> Inl (InboxError ''Question timeout must be finite and positive'')
      | Some (Num t) \<Rightarrow>
          (if t \<le> 0 then Inl (InboxError ''Question timeout must be finite and positive'')
           else Inr \<lparr>qr_id = qid, qr_content = content, qr_timeout = timeout\<rparr>)
      | None \<Rightarrow> Inr \<lparr>qr_id = qid, qr_content = content, qr_timeout = timeout\<rparr>)"

record wait_condition =
  wc_reason :: wait_reason
  wc_after_sequence :: int
  wc_deadline :: "number option"
  wc_event_kind :: "inbox_kind option"
  wc_event_id :: "string option"
  wc_question :: "question_request option"
  wc_topic :: "string option"
  wc_source :: "string option"

definition mk_wait_condition :: "wait_condition \<Rightarrow> wait_condition inbox_result" where
  "mk_wait_condition c =
     (if wc_reason c = WR_BUDGET then Inl (InboxError ''Ordinary wait requires input, event or timer'')
      else if wc_after_sequence c < 0 then Inl (InboxError ''Wait cursor must be non-negative'')
      else if wc_deadline c = Some NonFinite then Inl (InboxError ''Wait deadline must be finite'')
      else if wc_reason c = WR_INPUT \<and> wc_question c = None
      then Inl (InboxError ''Input wait requires a question'')
      else if wc_reason c = WR_TIMER \<and> wc_deadline c = None
      then Inl (InboxError ''Timer wait requires a deadline'')
      else if wc_reason c = WR_EVENT \<and> wc_event_kind c = None
      then Inl (InboxError ''Event wait requires an explicit event kind'')
      else if wc_event_kind c \<noteq> None
        \<and> wc_event_kind c \<notin> {Some IK_EVENT, Some IK_TIMER, Some IK_JOB}
      then Inl (InboxError ''Wait event kind is invalid'')
      else if wc_event_id c = Some [] \<or> wc_topic c = Some [] \<or> wc_source c = Some []
      then Inl (InboxError ''Wait identities must be non-empty'')
      else Inr c)"

record cycle_readiness =
  cr_granted_cycles :: int
  cr_reason :: "wake_reason option"
  cr_sequence :: "nat option"
  cr_wake_job_id :: "string option"
  cr_wake_topic :: "string option"
  cr_wake_source :: "string option"

definition mk_cycle_readiness :: "cycle_readiness \<Rightarrow> cycle_readiness inbox_result" where
  "mk_cycle_readiness r =
     (if cr_granted_cycles r < 0 then Inl (InboxError ''Cycle readiness requires a non-negative grant'')
      else if cr_sequence r = Some 0 then Inl (InboxError ''Wake sequence must be positive'')
      else if cr_wake_job_id r = Some [] then Inl (InboxError ''Wake Job identity must be non-empty'')
      else if (cr_reason r = Some WK_JOB) \<noteq> (cr_wake_job_id r \<noteq> None)
      then Inl (InboxError ''Job wake reason and identity must agree'')
      else if cr_wake_topic r = Some [] then Inl (InboxError ''Wake event topic must be non-empty'')
      else if cr_wake_source r = Some [] then Inl (InboxError ''Wake event source must be non-empty'')
      else if (cr_wake_topic r = None) \<noteq> (cr_wake_source r = None)
      then Inl (InboxError ''Event wake topic and source must agree'')
      else if cr_reason r \<noteq> Some WK_EVENT \<and> (cr_wake_topic r \<noteq> None \<or> cr_wake_source r \<noteq> None)
      then Inl (InboxError ''Only event wakes may carry an event source'')
      else Inr r)"

record budget_request =
  br_request_id :: string
  br_next_cycle_index :: int

definition mk_budget_request :: "string \<Rightarrow> int \<Rightarrow> budget_request inbox_result" where
  "mk_budget_request rid next_cycle_index =
     (if rid = [] \<or> next_cycle_index \<le> 0
      then Inl (InboxError ''Budget request identity or Cycle index is invalid'')
      else Inr \<lparr>br_request_id = rid, br_next_cycle_index = next_cycle_index\<rparr>)"

record inbox_record =
  ir_kind :: inbox_kind
  ir_payload :: json_object
  ir_record_id :: string
  ir_received_at :: number
  ir_topic :: string
  ir_source :: string
  ir_coalesce_key :: string
  ir_requires_decision :: bool

text \<open>\<open>InboxRecord.__post_init__\<close>; the fields arrive in a raw record.\<close>

definition mk_inbox_record :: "inbox_record \<Rightarrow> string \<Rightarrow> inbox_record inbox_result" where
  "mk_inbox_record r fresh =
     (if (case ir_received_at r of Num t \<Rightarrow> t < 0 | NonFinite \<Rightarrow> True)
      then Inl (InboxError ''Inbox receipt time must be finite and non-negative'')
      else if (ir_kind r = IK_INPUT \<or> ir_kind r = IK_REPLY)
        \<and> (case map_of (ir_payload r) ''text'' of Some (JStr s) \<Rightarrow> py_strip s = [] | _ \<Rightarrow> True)
      then Inl (InboxError ''Input requires non-empty text'')
      else Inr (r\<lparr>ir_record_id := (if ir_record_id r = [] then ''record_'' @ fresh else ir_record_id r)\<rparr>))"

definition job_record :: "json_object \<Rightarrow> string \<Rightarrow> number \<Rightarrow> inbox_record inbox_result" where
  "job_record payload rid received =
     mk_inbox_record \<lparr>ir_kind = IK_JOB, ir_payload = payload, ir_record_id = rid,
       ir_received_at = received, ir_topic = [], ir_source = [], ir_coalesce_key = [],
       ir_requires_decision = True\<rparr> []"

definition record_json :: "inbox_record \<Rightarrow> json" where
  "record_json r = JObj
     ([(''id'', JStr (ir_record_id r)), (''kind'', JStr (inbox_kind_value (ir_kind r))),
       (''payload'', JObj (ir_payload r))]
      @ (if ir_topic r \<noteq> [] then [(''topic'', JStr (ir_topic r)), (''source'', JStr (ir_source r))] else [])
      @ (if ir_coalesce_key r \<noteq> [] then [(''coalesce'', JStr (ir_coalesce_key r))] else []))"

definition encode_record :: "inbox_record \<Rightarrow> string inbox_result" where
  "encode_record r =
     (if json_finite (record_json r) then Inr (utf8 (dumps_json (record_json r)))
      else Inl (InboxError ''Inbox record must have a finite UTF-8 JSON representation''))"

record inbox_receipt =
  rc_sequence :: nat
  rc_record_id :: string
  rc_accepted :: bool

record inbox_pending_item =
  pi_sequence :: nat
  pi_record_id :: string
  pi_kind :: inbox_kind
  pi_payload :: json_object
  pi_state :: string

type_synonym entry = "nat \<times> inbox_record \<times> nat"

record inbox_batch =
  bt_uid :: nat
  bt_records :: "(nat \<times> inbox_record) list"

definition next_sequence :: "inbox_batch \<Rightarrow> nat" where
  "next_sequence b = (if bt_records b = [] then 0 else fst (last (bt_records b)))"

section \<open>State\<close>

record inbox =
  ib_capacity :: nat
  ib_max_bytes :: nat
  ib_max_record_bytes :: nat
  ib_retained_receipts :: nat
  ib_terminal_capacity :: nat
  ib_max_terminal_bytes :: nat
  ib_records :: "entry list"
  ib_receipts :: "(string \<times> (nat \<times> string)) list"
  ib_sequence :: nat
  ib_closed :: bool
  ib_captured :: "inbox_batch option"
  ib_next_uid :: nat
  ib_budget_request :: "budget_request option"
  ib_grant :: "int option"
  ib_decisions :: "(string \<times> int) list"
  ib_wait_reason :: "wait_reason option"
  ib_question :: "question_request option"
  ib_reply :: "entry option"
  ib_terminals :: "(string \<times> entry option) list"
  ib_job_inputs :: "((string \<times> string) \<times> entry option) list"
  ib_activity :: turn_state
  ib_acknowledged_sequence :: nat
  ib_subscriptions :: "turn_event_subscription list"
  ib_waiting :: "wait_condition option"

record inbox_limits =
  lim_capacity :: int
  lim_max_bytes :: int
  lim_max_record_bytes :: int
  lim_retained_receipts :: int
  lim_terminal_capacity :: int
  lim_max_terminal_bytes :: int

definition default_limits :: inbox_limits where
  "default_limits = \<lparr>lim_capacity = 64, lim_max_bytes = 256000, lim_max_record_bytes = 64000,
     lim_retained_receipts = 128, lim_terminal_capacity = 16, lim_max_terminal_bytes = 8192\<rparr>"

definition mk_inbox_limits :: "inbox_limits \<Rightarrow> inbox_limits inbox_result" where
  "mk_inbox_limits l =
     (if lim_capacity l \<le> 0 \<or> lim_max_bytes l \<le> 0 \<or> lim_max_record_bytes l \<le> 0
         \<or> lim_retained_receipts l \<le> 0 \<or> lim_terminal_capacity l \<le> 0 \<or> lim_max_terminal_bytes l \<le> 0
      then Inl (InboxError ''Inbox limits must be positive integers'') else Inr l)"

definition mk_inbox :: "inbox_limits \<Rightarrow> inbox" where
  "mk_inbox l = \<lparr>
     ib_capacity = nat (lim_capacity l), ib_max_bytes = nat (lim_max_bytes l),
     ib_max_record_bytes = nat (lim_max_record_bytes l),
     ib_retained_receipts = nat (lim_retained_receipts l),
     ib_terminal_capacity = nat (lim_terminal_capacity l),
     ib_max_terminal_bytes = nat (lim_max_terminal_bytes l),
     ib_records = [], ib_receipts = [], ib_sequence = 0, ib_closed = False, ib_captured = None,
     ib_next_uid = 0, ib_budget_request = None, ib_grant = None, ib_decisions = [],
     ib_wait_reason = None, ib_question = None, ib_reply = None, ib_terminals = [],
     ib_job_inputs = [], ib_activity = TS_QUEUED, ib_acknowledged_sequence = 0,
     ib_subscriptions = [], ib_waiting = None\<rparr>"

text \<open>The pending entries in the order \<open>capture\<close> and \<open>_ready\<close> collect them.\<close>

definition some_values :: "('k \<times> 'v option) list \<Rightarrow> 'v list" where
  "some_values d = List.map_filter snd d"

definition pending_entries :: "inbox \<Rightarrow> entry list" where
  "pending_entries ib =
     ib_records ib @ (case ib_reply ib of None \<Rightarrow> [] | Some e \<Rightarrow> [e])
     @ some_values (ib_terminals ib) @ some_values (ib_job_inputs ib)"

section \<open>Admission of ordinary records\<close>

fun evict_receipts ::
  "nat \<Rightarrow> string list \<Rightarrow> string list \<Rightarrow> (string \<times> (nat \<times> string)) list \<Rightarrow> (string \<times> (nat \<times> string)) list" where
  "evict_receipts bound pending [] receipts = receipts"
| "evict_receipts bound pending (identity # rest) receipts =
     (if length receipts \<le> bound then receipts
      else if identity \<notin> set pending
      then evict_receipts bound pending rest (AList.delete identity receipts)
      else evict_receipts bound pending rest receipts)"

text \<open>The receipts kept: the retained number plus one for each pending identity.\<close>

definition retain_receipts ::
  "nat \<Rightarrow> string list \<Rightarrow> (string \<times> (nat \<times> string)) list \<Rightarrow> (string \<times> (nat \<times> string)) list" where
  "retain_receipts retained pending receipts =
     evict_receipts (retained + length (remdups pending)) pending (dict_keys receipts) receipts"

definition entry_id :: "entry \<Rightarrow> string" where
  "entry_id e = ir_record_id (fst (snd e))"

definition coalesce_allowed :: "inbox \<Rightarrow> inbox_record \<Rightarrow> bool" where
  "coalesce_allowed ib r =
     (ir_coalesce_key r = ir_source r @ '':'' @ ir_topic r
      \<and> (\<exists>item \<in> set (ib_subscriptions ib). sub_coalesce item
           \<and> ef_topic (sub_filter item) = Some (ir_topic r)
           \<and> ef_source (sub_filter item) = Some (ir_source r)))"

text \<open>The latest pending record of the same state that no captured batch holds.\<close>

definition superseded :: "inbox \<Rightarrow> inbox_record \<Rightarrow> entry option" where
  "superseded ib r =
     find (\<lambda>(seq, item, sz). ir_coalesce_key r \<noteq> []
         \<and> ir_coalesce_key item = ir_coalesce_key r \<and> ir_source item = ir_source r
         \<and> ir_topic item = ir_topic r
         \<and> (case ib_captured ib of None \<Rightarrow> True | Some b \<Rightarrow> seq > next_sequence b))
       (rev (ib_records ib))"

definition ordinary_entries :: "inbox \<Rightarrow> entry list" where
  "ordinary_entries ib = filter (\<lambda>(seq, item, sz). ir_coalesce_key item = []) (ib_records ib)"

definition entries_size :: "entry list \<Rightarrow> nat" where
  "entries_size es = sum_list (map (\<lambda>(seq, item, sz). sz) es)"

definition accept ::
  "(string \<Rightarrow> string) \<Rightarrow> inbox_record \<Rightarrow> inbox \<Rightarrow> inbox \<times> inbox_receipt inbox_result" where
  "accept digest r ib =
     (if ir_kind r = IK_REPLY \<or> ir_kind r = IK_JOB
      then (ib, Inl (InboxError ''Replies and Job terminals require a registered identity''))
      else if ir_coalesce_key r \<noteq> [] \<and> \<not> coalesce_allowed ib r
      then (ib, Inl (InboxError ''Coalescing requires a declared state subscription''))
      else case encode_record r of
        Inl e \<Rightarrow> (ib, Inl e)
      | Inr encoded \<Rightarrow>
          (let dg = digest encoded; sz = length encoded in
           case map_of (ib_receipts ib) (ir_record_id r) of
             Some (seq, d) \<Rightarrow>
               (if d \<noteq> dg
                then (ib, Inl (InboxError ''Record identity was reused with different content''))
                else (ib, Inr \<lparr>rc_sequence = seq, rc_record_id = ir_record_id r, rc_accepted = False\<rparr>))
           | None \<Rightarrow>
               (if ib_closed ib then (ib, Inl (InboxClosedError ''Turn inbox is closed''))
                else if (ir_coalesce_key r = []
                     \<and> (length (ordinary_entries ib) \<ge> ib_capacity ib
                        \<or> entries_size (ordinary_entries ib) + sz > ib_max_bytes ib))
                   \<or> sz > ib_max_record_bytes ib
                then (ib, Inl (InboxCapacityError ''Turn inbox capacity is full''))
                else
                  (let sequence = ib_sequence ib + 1;
                       kept = (case superseded ib r of None \<Rightarrow> ib_records ib
                               | Some previous \<Rightarrow> remove1 previous (ib_records ib));
                       records = kept @ [(sequence, r, sz)];
                       receipts = AList.update (ir_record_id r) (sequence, dg) (ib_receipts ib)
                   in (ib\<lparr>ib_sequence := sequence, ib_records := records,
                          ib_receipts := retain_receipts (ib_retained_receipts ib)
                            (map entry_id records) receipts\<rparr>,
                       Inr \<lparr>rc_sequence = sequence, rc_record_id = ir_record_id r, rc_accepted = True\<rparr>)))))"

definition accept_event ::
  "(string \<Rightarrow> string) \<Rightarrow> number \<Rightarrow> environment_event \<Rightarrow> inbox \<Rightarrow> inbox \<times> inbox_receipt inbox_result" where
  "accept_event digest received event ib =
     (let matches = filter (\<lambda>item. filter_matches (sub_filter item) event) (ib_subscriptions ib);
          coalesce = (matches \<noteq> [] \<and> list_all sub_coalesce matches)
      in case mk_inbox_record \<lparr>ir_kind = inbox_kind_of_event (ev_kind event),
             ir_payload = ev_payload event, ir_record_id = ev_id event, ir_received_at = received,
             ir_topic = ev_topic event, ir_source = ev_source event,
             ir_coalesce_key = (if coalesce then ev_source event @ '':'' @ ev_topic event else []),
             ir_requires_decision = (matches = [] \<or> list_ex sub_requires_decision matches)\<rparr> [] of
           Inl e \<Rightarrow> (ib, Inl e)
         | Inr r \<Rightarrow> accept digest r ib)"

section \<open>Job terminals and Job inputs\<close>

definition reserve_terminal :: "string \<Rightarrow> int \<Rightarrow> inbox \<Rightarrow> inbox \<times> unit inbox_result" where
  "reserve_terminal job_id required_bytes ib =
     (if required_bytes \<le> 0
      then (ib, Inl (InboxError ''Terminal reservation requires a positive byte bound''))
      else if ib_closed ib then (ib, Inl (InboxClosedError ''Cannot start a Job in a closed Turn''))
      else if required_bytes > int (ib_max_terminal_bytes ib)
         \<or> job_id \<in> set (dict_keys (ib_terminals ib))
         \<or> length (ib_terminals ib) \<ge> ib_terminal_capacity ib
      then (ib, Inl (InboxCapacityError ''Job terminal reservations are full''))
      else (ib\<lparr>ib_terminals := AList.update job_id None (ib_terminals ib)\<rparr>, Inr ()))"

definition deliver_terminal :: "number \<Rightarrow> string \<Rightarrow> json_object \<Rightarrow> inbox \<Rightarrow> inbox \<times> unit inbox_result" where
  "deliver_terminal received job_id payload ib =
     (case bind_r (job_record payload (''job_terminal:'' @ job_id) received)
             (\<lambda>r. bind_r (encode_record r) (\<lambda>encoded. Inr (r, length encoded))) of
        Inl e \<Rightarrow> (ib, Inl e)
      | Inr (r, sz) \<Rightarrow>
          (case map_of (ib_terminals ib) job_id of
             None \<Rightarrow> (ib, Inl (InboxError ''Job terminal delivery requires its reserved identity''))
           | Some slot \<Rightarrow>
               (if sz > ib_max_terminal_bytes ib
                then (ib, Inl (InboxCapacityError ''Job terminal summary exceeds its reservation''))
                else if slot \<noteq> None then (ib, Inr ())
                else (ib\<lparr>ib_sequence := ib_sequence ib + 1,
                         ib_terminals := AList.update job_id (Some (ib_sequence ib + 1, r, sz))
                           (ib_terminals ib)\<rparr>, Inr ()))))"

text \<open>The loop over the requests; a raise keeps what the earlier requests have stored.\<close>

fun deliver_inputs ::
  "number \<Rightarrow> string \<Rightarrow> (string \<times> json_object) list \<Rightarrow> inbox \<Rightarrow> inbox \<times> unit inbox_result" where
  "deliver_inputs received job_id [] ib = (ib, Inr ())"
| "deliver_inputs received job_id ((identity, payload) # rest) ib =
     (if (job_id, identity) \<in> set (dict_keys (ib_job_inputs ib))
      then deliver_inputs received job_id rest ib
      else if length (filter (\<lambda>(owner, i). owner = job_id) (dict_keys (ib_job_inputs ib))) \<ge> 4
      then (ib, Inl (InboxCapacityError ''Job input reservations are full''))
      else case bind_r (job_record [(''job_id'', JStr job_id), (''state'', JStr ''waiting_input''),
                 (''request'', JObj payload)] (''job_input:'' @ job_id @ '':'' @ identity) received)
               (\<lambda>r. bind_r (encode_record r) (\<lambda>encoded. Inr (r, length encoded))) of
          Inl e \<Rightarrow> (ib, Inl e)
        | Inr (r, sz) \<Rightarrow>
            (if sz > ib_max_terminal_bytes ib
             then (ib, Inl (InboxCapacityError ''Job input exceeds its reserved size''))
             else deliver_inputs received job_id rest
               (ib\<lparr>ib_sequence := ib_sequence ib + 1,
                   ib_job_inputs := AList.update (job_id, identity)
                     (Some (ib_sequence ib + 1, r, sz)) (ib_job_inputs ib)\<rparr>)))"

definition request_identity :: "json_object \<Rightarrow> string option" where
  "request_identity payload =
     (case map_of payload ''request_id'' of Some (JStr s) \<Rightarrow> if s = [] then None else Some s | _ \<Rightarrow> None)"

definition deliver_job_inputs ::
  "number \<Rightarrow> string \<Rightarrow> json_object list \<Rightarrow> inbox \<Rightarrow> inbox \<times> unit inbox_result" where
  "deliver_job_inputs received job_id requests ib =
     (if job_id \<notin> set (dict_keys (ib_terminals ib))
      then (ib, Inl (InboxError ''Job input delivery requires a reserved Job''))
      else if length requests > 4 \<or> list_ex (\<lambda>p. request_identity p = None) requests
      then (ib, Inl (InboxError ''Job input identities must be bounded and typed''))
      else
        (let identified = map (\<lambda>p. (case request_identity p of None \<Rightarrow> [] | Some i \<Rightarrow> i, p)) requests;
             current = map fst identified
         in deliver_inputs received job_id identified
              (ib\<lparr>ib_job_inputs := filter (\<lambda>(key, item).
                 fst key \<noteq> job_id \<or> snd key \<in> set current \<or> item \<noteq> None) (ib_job_inputs ib)\<rparr>)))"

definition release_terminal :: "string \<Rightarrow> inbox \<Rightarrow> inbox" where
  "release_terminal job_id ib =
     (let terminals = (if map_of (ib_terminals ib) job_id = Some None
            then AList.delete job_id (ib_terminals ib) else ib_terminals ib)
      in ib\<lparr>ib_terminals := terminals,
            ib_job_inputs := filter (\<lambda>(key, item). fst key \<noteq> job_id \<or> item \<noteq> None) (ib_job_inputs ib)\<rparr>)"

section \<open>Questions, replies and budget\<close>

definition open_question :: "question_request \<Rightarrow> inbox \<Rightarrow> inbox \<times> unit inbox_result" where
  "open_question question ib =
     (if ib_closed ib \<or> ib_question ib \<noteq> None \<or> ib_reply ib \<noteq> None
      then (ib, Inl (InboxError ''A Turn can wait for one question at a time''))
      else (ib\<lparr>ib_question := Some question\<rparr>, Inr ()))"

definition question_error_text :: "question_error \<Rightarrow> string" where
  "question_error_text e = (case e of QuestionError s \<Rightarrow> s)"

definition reply ::
  "(string \<Rightarrow> string) \<Rightarrow> number \<Rightarrow> string \<Rightarrow> question_answer \<Rightarrow> inbox \<Rightarrow> inbox \<times> inbox_receipt inbox_result" where
  "reply digest received question_id answer ib =
     (let record_id = ''reply_'' @ question_id;
          dg = digest (utf8 (json_dumps '', '' '': '' (answer_to_json answer)))
      in case map_of (ib_receipts ib) record_id of
           Some (seq, d) \<Rightarrow>
             (if d \<noteq> dg then (ib, Inl (InboxError ''Question already received a different reply''))
              else (ib, Inr \<lparr>rc_sequence = seq, rc_record_id = record_id, rc_accepted = False\<rparr>))
         | None \<Rightarrow>
             (if ib_closed ib then (ib, Inl (InboxClosedError ''Question is not awaiting a reply''))
              else case ib_question ib of
                None \<Rightarrow> (ib, Inl (InboxClosedError ''Question is not awaiting a reply''))
              | Some q \<Rightarrow>
                  (if qr_id q \<noteq> question_id
                   then (ib, Inl (InboxClosedError ''Question is not awaiting a reply''))
                   else case answer_text (qr_content q) answer of
                     Inl e \<Rightarrow> (ib, Inl (InboxError (question_error_text e)))
                   | Inr text' \<Rightarrow>
                       (case bind_r (mk_inbox_record \<lparr>ir_kind = IK_REPLY,
                            ir_payload = [(''text'', JStr text'), (''reply_to'', JStr question_id),
                                          (''answer'', answer_to_json answer)],
                            ir_record_id = record_id, ir_received_at = received, ir_topic = [],
                            ir_source = [], ir_coalesce_key = [], ir_requires_decision = True\<rparr> [])
                          (\<lambda>r. bind_r (encode_record r) (\<lambda>encoded. Inr (r, length encoded))) of
                          Inl e \<Rightarrow> (ib, Inl e)
                        | Inr (r, sz) \<Rightarrow>
                            (if sz > ib_max_record_bytes ib
                             then (ib, Inl (InboxCapacityError ''Reply exceeds the reserved record size''))
                             else (ib\<lparr>ib_sequence := ib_sequence ib + 1,
                                      ib_reply := Some (ib_sequence ib + 1, r, sz),
                                      ib_receipts := AList.update record_id (ib_sequence ib + 1, dg)
                                        (ib_receipts ib)\<rparr>,
                                   Inr \<lparr>rc_sequence = ib_sequence ib + 1, rc_record_id = record_id,
                                        rc_accepted = True\<rparr>))))))"

definition request_budget :: "string \<Rightarrow> int \<Rightarrow> inbox \<Rightarrow> inbox \<times> budget_request inbox_result" where
  "request_budget fresh next_cycle_index ib =
     (if ib_closed ib \<or> ib_budget_request ib \<noteq> None
      then (ib, Inl (InboxError ''Cannot issue a budget request in this state''))
      else case mk_budget_request (''budget_'' @ fresh) next_cycle_index of
        Inl e \<Rightarrow> (ib, Inl e)
      | Inr request \<Rightarrow> (ib\<lparr>ib_budget_request := Some request\<rparr>, Inr request))"

definition grant_cycles :: "string \<Rightarrow> int \<Rightarrow> inbox \<Rightarrow> inbox \<times> bool inbox_result" where
  "grant_cycles request_id n ib =
     (if n \<le> 0 then (ib, Inl (InboxError ''Budget grants require a positive integer''))
      else case map_of (ib_decisions ib) request_id of
        Some existing \<Rightarrow>
          (if existing \<noteq> n
           then (ib, Inl (InboxError ''Budget decision conflicts with its previous grant''))
           else (ib, Inr False))
      | None \<Rightarrow>
          (if ib_closed ib \<or> map_option br_request_id (ib_budget_request ib) \<noteq> Some request_id
           then (ib, Inl (InboxClosedError ''Budget request is not active''))
           else (ib\<lparr>ib_decisions := trim_oldest (ib_retained_receipts ib)
                      (AList.update request_id n (ib_decisions ib)),
                    ib_grant := Some n\<rparr>, Inr True)))"

section \<open>Capture and acknowledgement\<close>

definition capture :: "inbox \<Rightarrow> inbox \<times> inbox_batch" where
  "capture ib =
     (case ib_captured ib of
        Some b \<Rightarrow> (ib, b)
      | None \<Rightarrow>
          (let b = \<lparr>bt_uid = ib_next_uid ib,
                    bt_records = map (\<lambda>(seq, r, sz). (seq, r)) (sort_key fst (pending_entries ib))\<rparr>
           in (ib\<lparr>ib_captured := Some b, ib_next_uid := ib_next_uid ib + 1\<rparr>, b)))"

definition ack :: "inbox_batch \<Rightarrow> inbox \<Rightarrow> inbox \<times> unit inbox_result" where
  "ack batch ib =
     (if ib_captured ib \<noteq> Some batch
      then (ib, Inl (InboxError ''Only the captured batch can be acknowledged''))
      else
        (let n = next_sequence batch;
             records = filter (\<lambda>(seq, r, sz). seq > n) (ib_records ib);
             reply' = (case ib_reply ib of None \<Rightarrow> None
               | Some (seq, r, sz) \<Rightarrow> if seq \<le> n then None else Some (seq, r, sz));
             terminals = filter (\<lambda>(key, item). case item of None \<Rightarrow> True | Some (seq, r, sz) \<Rightarrow> seq > n)
               (ib_terminals ib);
             job_inputs = map (\<lambda>(key, item). (key, case item of None \<Rightarrow> None
                 | Some (seq, r, sz) \<Rightarrow> if seq \<le> n then None else Some (seq, r, sz)))
               (filter (\<lambda>(key, item). fst key \<in> set (dict_keys terminals)
                   \<or> (case item of None \<Rightarrow> False | Some (seq, r, sz) \<Rightarrow> seq > n)) (ib_job_inputs ib));
             pending = map entry_id records @ (case reply' of None \<Rightarrow> [] | Some e \<Rightarrow> [entry_id e])
         in (ib\<lparr>ib_records := records, ib_reply := reply', ib_terminals := terminals,
                ib_job_inputs := job_inputs,
                ib_acknowledged_sequence := max (ib_acknowledged_sequence ib) n,
                ib_captured := None,
                ib_receipts := retain_receipts (ib_retained_receipts ib) pending (ib_receipts ib)\<rparr>,
             Inr ())))"

definition pending_items :: "inbox \<Rightarrow> inbox_pending_item list" where
  "pending_items ib =
     sort_key pi_sequence (map (\<lambda>(seq, r, sz). \<lparr>pi_sequence = seq, pi_record_id = ir_record_id r,
         pi_kind = ir_kind r, pi_payload = ir_payload r, pi_state = ''accepted''\<rparr>)
       (filter (\<lambda>(seq, r, sz). ir_kind r = IK_INPUT \<or> ir_kind r = IK_REPLY) (ib_records ib)
        @ (case ib_reply ib of None \<Rightarrow> [] | Some e \<Rightarrow> [e])))"

section \<open>Waiting\<close>

definition matches_event ::
  "wait_condition \<Rightarrow> inbox_kind \<Rightarrow> string \<Rightarrow> string \<Rightarrow> string \<Rightarrow> bool \<Rightarrow> bool" where
  "matches_event condition kind identity topic source requires_decision =
     (if wc_reason condition = WR_EVENT \<and> wc_event_kind condition = Some IK_JOB \<and> kind = IK_JOB
      then True
      else
        (let kind_matches = (wc_event_kind condition = Some kind
               \<or> (wc_event_kind condition = Some IK_JOB \<and> (kind = IK_EVENT \<or> kind = IK_TIMER)));
             explicitly_filtered = (wc_event_id condition \<noteq> None \<or> wc_topic condition \<noteq> None
               \<or> wc_source condition \<noteq> None)
         in if \<not> kind_matches then False
            else if wc_event_kind condition = Some IK_JOB \<and> kind \<noteq> IK_JOB
               \<and> \<not> explicitly_filtered \<and> \<not> requires_decision
            then False
            else wc_reason condition = WR_EVENT \<and> kind_matches
               \<and> (wc_event_id condition = None \<or> wc_event_id condition = Some identity)
               \<and> (wc_topic condition = None \<or> wc_topic condition = Some topic)
               \<and> (wc_source condition = None \<or> wc_source condition = Some source)))"

definition unavailable_source :: "source_status list \<Rightarrow> wait_condition \<Rightarrow> source_status option" where
  "unavailable_source statuses condition =
     (if wc_reason condition \<noteq> WR_EVENT \<or> wc_event_kind condition \<noteq> Some IK_EVENT then None
      else find (\<lambda>item. (ss_state item = SS_FAILED \<or> ss_state item = SS_DISABLED)
          \<and> (wc_source condition = Some (ss_source item)
             \<or> (wc_source condition = None \<and> ss_state item = SS_FAILED))
          \<and> ((case wc_topic condition of None \<Rightarrow> False | Some t \<Rightarrow> t \<in> set (ss_topics item))
             \<or> (wc_topic condition = None \<and> wc_source condition = Some (ss_source item))))
        statuses)"

definition accepts_event :: "source_status list \<Rightarrow> environment_event \<Rightarrow> inbox \<Rightarrow> bool" where
  "accepts_event statuses event ib =
     (if ib_closed ib then False
      else if list_ex (\<lambda>item. filter_matches (sub_filter item) event) (ib_subscriptions ib) then True
      else case ib_waiting ib of
        None \<Rightarrow> False
      | Some condition \<Rightarrow>
          (if ev_topic event = ''runtime.source_status''
           then unavailable_source statuses condition \<noteq> None
           else matches_event condition (inbox_kind_of_event (ev_kind event)) (ev_id event)
             (ev_topic event) (ev_source event) True))"

definition activity :: "inbox \<Rightarrow> turn_state" where
  "activity ib =
     (if ib_activity ib = TS_RUNNING \<and> ib_wait_reason ib \<noteq> None then TS_WAITING else ib_activity ib)"

record wake =
  wk_reason :: wake_reason
  wk_sequence :: "nat option"
  wk_job_id :: "string option"
  wk_topic :: "string option"
  wk_source :: "string option"

abbreviation plain_wake :: "wake_reason \<Rightarrow> nat option \<Rightarrow> wake" where
  "plain_wake reason seq \<equiv>
     \<lparr>wk_reason = reason, wk_sequence = seq, wk_job_id = None, wk_topic = None, wk_source = None\<rparr>"

definition text_or_none :: "string \<Rightarrow> string option" where
  "text_or_none s = (if s = [] then None else Some s)"

text \<open>The loop of \<open>_ready\<close> over the pending records in sequence order.\<close>

fun ready_scan :: "wait_condition \<Rightarrow> (nat \<times> inbox_record) list \<Rightarrow> wake option inbox_result" where
  "ready_scan condition [] = Inr None"
| "ready_scan condition ((seq, r) # rest) =
     (if int seq \<le> wc_after_sequence condition then ready_scan condition rest
      else if ir_kind r = IK_INPUT then Inr (Some (plain_wake WK_INPUT (Some seq)))
      else if wc_question condition \<noteq> None \<and> ir_kind r = IK_REPLY
      then Inr (Some (plain_wake WK_REPLY (Some seq)))
      else if matches_event condition (ir_kind r) (ir_record_id r) (ir_topic r) (ir_source r)
           (ir_requires_decision r)
      then (if ir_kind r = IK_JOB
            then (case map_of (ir_payload r) ''job_id'' of
                Some (JStr j) \<Rightarrow>
                  (if j = [] then Inl (InboxError ''Job event requires a Job identity'')
                   else Inr (Some \<lparr>wk_reason = WK_JOB, wk_sequence = Some seq, wk_job_id = Some j,
                                  wk_topic = None, wk_source = None\<rparr>))
              | _ \<Rightarrow> Inl (InboxError ''Job event requires a Job identity''))
            else Inr (Some \<lparr>wk_reason = WK_EVENT, wk_sequence = Some seq, wk_job_id = None,
                           wk_topic = text_or_none (ir_topic r), wk_source = text_or_none (ir_source r)\<rparr>))
      else ready_scan condition rest)"

definition deadline_passed :: "rat \<Rightarrow> wait_condition \<Rightarrow> bool" where
  "deadline_passed now condition = (case wc_deadline condition of Some (Num d) \<Rightarrow> now \<ge> d | _ \<Rightarrow> False)"

definition ready :: "source_status list \<Rightarrow> rat \<Rightarrow> wait_condition \<Rightarrow> inbox \<Rightarrow> wake option inbox_result" where
  "ready statuses now condition ib =
     (case ready_scan condition (map (\<lambda>(seq, r, sz). (seq, r)) (sort_key fst (pending_entries ib))) of
        Inl e \<Rightarrow> Inl e
      | Inr (Some wk) \<Rightarrow> Inr (Some wk)
      | Inr None \<Rightarrow>
          (if unavailable_source statuses condition \<noteq> None
           then Inr (Some (plain_wake WK_SOURCE_UNAVAILABLE None))
           else if deadline_passed now condition then Inr (Some (plain_wake WK_TIMER None))
           else Inr None))"

text \<open>A suspended \<open>wait_for_cycle\<close>: its arguments and the wake it has already observed.\<close>

record waiter =
  wt_condition :: "wait_condition option"
  wt_budget :: "budget_request option"
  wt_wake :: "wake option"

datatype wait_outcome =
    WaitReturned cycle_readiness
  | WaitRaised inbox_error
  | WaitBlocked waiter "rat option"

definition has_question :: "wait_condition option \<Rightarrow> bool" where
  "has_question condition = (case condition of None \<Rightarrow> False | Some c \<Rightarrow> wc_question c \<noteq> None)"

definition wait_begin ::
  "wait_condition option \<Rightarrow> budget_request option \<Rightarrow> inbox \<Rightarrow> inbox \<times> waiter inbox_result" where
  "wait_begin condition budget ib =
     (if budget \<noteq> None \<and> budget \<noteq> ib_budget_request ib
      then (ib, Inl (InboxError ''Wait requires the active budget request''))
      else if has_question condition \<and> Option.bind condition wc_question \<noteq> ib_question ib
      then (ib, Inl (InboxError ''Wait requires the active question''))
      else (ib\<lparr>ib_waiting := condition\<rparr>,
            Inr \<lparr>wt_condition = condition, wt_budget = budget, wt_wake = None\<rparr>))"

text \<open>The \<open>finally\<close> block, on return, raise or cancellation.\<close>

definition wait_end :: "waiter \<Rightarrow> inbox \<Rightarrow> inbox" where
  "wait_end wt ib =
     (let ib = ib\<lparr>ib_waiting := None, ib_wait_reason := None\<rparr>
      in if has_question (wt_condition wt) then ib\<lparr>ib_question := None\<rparr> else ib)"

definition wait_observe ::
  "source_status list \<Rightarrow> rat \<Rightarrow> waiter \<Rightarrow> inbox \<Rightarrow> inbox \<times> waiter inbox_result" where
  "wait_observe statuses now wt ib =
     (case (wt_condition wt, wt_wake wt) of
        (Some condition, None) \<Rightarrow>
          (case ready statuses now condition ib of
             Inl e \<Rightarrow> (ib, Inl e)
           | Inr None \<Rightarrow> (ib, Inr wt)
           | Inr (Some wk) \<Rightarrow>
               ((if wc_question condition \<noteq> None then ib\<lparr>ib_question := None\<rparr> else ib),
                Inr (wt\<lparr>wt_wake := Some wk\<rparr>)))
      | _ \<Rightarrow> (ib, Inr wt))"

definition wait_decide :: "rat \<Rightarrow> waiter \<Rightarrow> inbox \<Rightarrow> inbox \<times> wait_outcome" where
  "wait_decide now wt ib =
     (let budget_ready = (wt_budget wt = None \<or> ib_grant ib \<noteq> None);
          question_expired = (has_question (wt_condition wt)
            \<and> (case wt_wake wt of None \<Rightarrow> False | Some wk \<Rightarrow> wk_reason wk = WK_TIMER))
      in if question_expired \<or> budget_ready \<and> (wt_condition wt = None \<or> wt_wake wt \<noteq> None)
         then
           (let granted = (case ib_grant ib of None \<Rightarrow> 0 | Some n \<Rightarrow> n);
                ib' = (if wt_budget wt \<noteq> None
                       then ib\<lparr>ib_budget_request := None, ib_grant := None\<rparr> else ib)
            in (wait_end wt ib',
                case mk_cycle_readiness
                   (case wt_wake wt of
                      None \<Rightarrow> \<lparr>cr_granted_cycles = granted, cr_reason = None, cr_sequence = None,
                              cr_wake_job_id = None, cr_wake_topic = None, cr_wake_source = None\<rparr>
                    | Some wk \<Rightarrow> \<lparr>cr_granted_cycles = granted, cr_reason = Some (wk_reason wk),
                              cr_sequence = wk_sequence wk, cr_wake_job_id = wk_job_id wk,
                              cr_wake_topic = wk_topic wk, cr_wake_source = wk_source wk\<rparr>) of
                  Inl e \<Rightarrow> WaitRaised e
                | Inr r \<Rightarrow> WaitReturned r))
         else
           (ib\<lparr>ib_wait_reason := (if \<not> budget_ready then Some WR_BUDGET
                 else map_option wc_reason (wt_condition wt))\<rparr>,
            WaitBlocked wt
              (case wt_condition wt of
                 None \<Rightarrow> None
               | Some condition \<Rightarrow>
                   (case wc_deadline condition of
                      Some (Num d) \<Rightarrow> if wt_wake wt = None then Some (max 0 (d - now)) else None
                    | _ \<Rightarrow> None))))"

definition wait_pass ::
  "source_status list \<Rightarrow> rat \<Rightarrow> waiter \<Rightarrow> inbox \<Rightarrow> inbox \<times> wait_outcome" where
  "wait_pass statuses now wt ib =
     (if ib_closed ib
      then (wait_end wt ib, WaitRaised (InboxClosedError ''Turn ended while waiting''))
      else case wait_observe statuses now wt ib of
        (ib1, Inl e) \<Rightarrow> (wait_end wt ib1, WaitRaised e)
      | (ib1, Inr wt') \<Rightarrow> wait_decide now wt' ib1)"

section \<open>Closing\<close>

definition close_if_empty :: "inbox \<Rightarrow> inbox \<times> bool" where
  "close_if_empty ib =
     (if list_ex (\<lambda>(seq, r, sz). ir_requires_decision r) (ib_records ib)
         \<or> ib_reply ib \<noteq> None \<or> ib_terminals ib \<noteq> [] \<or> ib_job_inputs ib \<noteq> []
      then (ib, False)
      else (ib\<lparr>ib_closed := True\<rparr>, True))"

definition close_inbox :: "inbox \<Rightarrow> inbox" where
  "close_inbox ib = ib\<lparr>ib_closed := True\<rparr>"

definition set_activity :: "turn_state \<Rightarrow> inbox \<Rightarrow> inbox" where
  "set_activity a ib = ib\<lparr>ib_activity := a\<rparr>"

definition subscribe_events :: "turn_event_subscription list \<Rightarrow> inbox \<Rightarrow> inbox" where
  "subscribe_events subscriptions ib = ib\<lparr>ib_subscriptions := subscriptions\<rparr>"

end
