(* ===== verification/Action.thy ===== *)
theory Action
  imports Complex_Main Runtime
begin

text \<open>
  Action calls and results (tinysoul/kernel/action: result.py, call.py): local failures and result
  envelopes with their JSON forms, results and their constructors, calls, executions, batches and
  execution facts. A raw record carries the fields a constructor is given; \<open>mk_X\<close> is the check of
  \<open>__post_init__\<close>. Of an action's catalog entry an execution reads the name and the domain.
\<close>

datatype action_error = ActionInvariantError string

type_synonym 'a action_result_of = "action_error + 'a"

section \<open>Vocabulary\<close>

datatype result_status = RS_SUCCESS | RS_FAILED | RS_TIMEOUT

datatype result_stage = ST_NORMALIZE | ST_PREPARE | ST_HOOK | ST_SCHEDULE | ST_EXECUTE | ST_TIMEOUT

datatype failure_disposition = FD_RETRY_SAME | FD_CHANGE_REQUEST | FD_USE_FALLBACK | FD_STOP

datatype trace_mode = TM_STANDARD | TM_FOLDABLE

datatype phase_stage = PS_SCOPE | PS_NORMALIZE | PS_PREPARE | PS_RUN

fun status_value :: "result_status \<Rightarrow> string" where
  "status_value RS_SUCCESS = ''success''"
| "status_value RS_FAILED = ''failed''"
| "status_value RS_TIMEOUT = ''timeout''"

fun stage_value :: "result_stage \<Rightarrow> string" where
  "stage_value ST_NORMALIZE = ''normalize''"
| "stage_value ST_PREPARE = ''prepare''"
| "stage_value ST_HOOK = ''hook''"
| "stage_value ST_SCHEDULE = ''schedule''"
| "stage_value ST_EXECUTE = ''execute''"
| "stage_value ST_TIMEOUT = ''timeout''"

fun disposition_value :: "failure_disposition \<Rightarrow> string" where
  "disposition_value FD_RETRY_SAME = ''retry_same''"
| "disposition_value FD_CHANGE_REQUEST = ''change_request''"
| "disposition_value FD_USE_FALLBACK = ''use_fallback''"
| "disposition_value FD_STOP = ''stop''"

text \<open>The call of a \<open>StrEnum\<close> on a value: the member with that value, or a \<open>ValueError\<close>.\<close>

definition status_of :: "json \<Rightarrow> result_status option" where
  "status_of v = (case v of JStr s \<Rightarrow> find (\<lambda>x. status_value x = s) [RS_SUCCESS, RS_FAILED, RS_TIMEOUT]
     | _ \<Rightarrow> None)"

definition stage_of :: "json \<Rightarrow> result_stage option" where
  "stage_of v = (case v of JStr s \<Rightarrow> find (\<lambda>x. stage_value x = s)
       [ST_NORMALIZE, ST_PREPARE, ST_HOOK, ST_SCHEDULE, ST_EXECUTE, ST_TIMEOUT]
     | _ \<Rightarrow> None)"

definition disposition_of :: "json \<Rightarrow> failure_disposition option" where
  "disposition_of v = (case v of JStr s \<Rightarrow> find (\<lambda>x. disposition_value x = s)
       [FD_RETRY_SAME, FD_CHANGE_REQUEST, FD_USE_FALLBACK, FD_STOP]
     | _ \<Rightarrow> None)"

lemma status_of_value [simp]: "status_of (JStr (status_value s)) = Some s"
  by (cases s) (simp_all add: status_of_def)

lemma stage_of_value [simp]: "stage_of (JStr (stage_value s)) = Some s"
  by (cases s) (simp_all add: stage_of_def)

lemma disposition_of_value [simp]: "disposition_of (JStr (disposition_value d)) = Some d"
  by (cases d) (simp_all add: disposition_of_def)

section \<open>Local failures\<close>

definition failure_identifier_chars :: string where
  "failure_identifier_chars = ''abcdefghijklmnopqrstuvwxyz0123456789._-''"

definition max_failure_feedback_chars :: nat where
  "max_failure_feedback_chars = 2000"

definition max_failure_constraint_chars :: nat where
  "max_failure_constraint_chars = 4000"

definition validate_failure_identifier :: "string \<Rightarrow> string \<Rightarrow> unit action_result_of" where
  "validate_failure_identifier value label =
     (if value = []
      then Inl (ActionInvariantError (''ActionLocalFailure.'' @ label @ '' must be a non-empty string''))
      else if length value > 160 \<or> list_ex (\<lambda>c. c \<notin> set failure_identifier_chars) value
      then Inl (ActionInvariantError (''ActionLocalFailure.'' @ label @ '' must be a stable lowercase identifier''))
      else Inr ())"

record local_failure =
  lf_reason :: string
  lf_scope :: string
  lf_disposition :: failure_disposition
  lf_feedback :: string
  lf_constraint :: json_object

definition mk_local_failure :: "local_failure \<Rightarrow> local_failure action_result_of" where
  "mk_local_failure f =
     bind_r (validate_failure_identifier (lf_reason f) ''reason'') (\<lambda>_.
     bind_r (validate_failure_identifier (lf_scope f) ''scope'') (\<lambda>_.
     if py_strip (lf_feedback f) = []
     then Inl (ActionInvariantError ''ActionLocalFailure.feedback must be a non-empty string'')
     else if length (lf_feedback f) > max_failure_feedback_chars
     then Inl (ActionInvariantError ''ActionLocalFailure.feedback exceeds its character limit'')
     else if length (dumps_json (JObj (lf_constraint f))) > max_failure_constraint_chars
     then Inl (ActionInvariantError ''ActionLocalFailure.constraint exceeds its character limit'')
     else Inr f))"

definition local_failure_to_json :: "local_failure \<Rightarrow> json" where
  "local_failure_to_json f = JObj
     ([(''reason'', JStr (lf_reason f)), (''scope'', JStr (lf_scope f)),
       (''disposition'', JStr (disposition_value (lf_disposition f))),
       (''feedback'', JStr (lf_feedback f))]
      @ (if lf_constraint f \<noteq> [] then [(''constraint'', JObj (lf_constraint f))] else []))"

definition local_failure_from_json :: "json \<Rightarrow> local_failure action_result_of" where
  "local_failure_from_json value =
     (case value of
        JObj members \<Rightarrow>
          (if list_ex (\<lambda>k. k \<notin> set [''reason'', ''scope'', ''disposition'', ''feedback'', ''constraint''])
                (dict_keys members)
           then Inl (ActionInvariantError ''Action failure envelope contains unknown fields'')
           else case (dict_get members ''reason'' JNull, dict_get members ''scope'' JNull) of
             (JStr reason, JStr scope) \<Rightarrow>
               (case dict_get members ''feedback'' JNull of
                  JStr feedback \<Rightarrow>
                    (case disposition_of (dict_get members ''disposition'' JNull) of
                       None \<Rightarrow> Inl (ActionInvariantError ''Action failure envelope has an invalid disposition'')
                     | Some disposition \<Rightarrow>
                         (case dict_get members ''constraint'' (JObj []) of
                            JObj constraint \<Rightarrow> mk_local_failure
                              \<lparr>lf_reason = reason, lf_scope = scope, lf_disposition = disposition,
                               lf_feedback = feedback, lf_constraint = constraint\<rparr>
                          | _ \<Rightarrow> Inl (ActionInvariantError
                              ''Action failure envelope constraint must be an object'')))
                | _ \<Rightarrow> Inl (ActionInvariantError ''Action failure envelope requires string feedback''))
           | _ \<Rightarrow> Inl (ActionInvariantError ''Action failure envelope requires string reason and scope''))
      | _ \<Rightarrow> Inl (ActionInvariantError ''Action failure envelope must be an object''))"

section \<open>Result envelopes\<close>

definition validate_failure_status ::
  "result_status \<Rightarrow> local_failure option \<Rightarrow> string \<Rightarrow> unit action_result_of" where
  "validate_failure_status status failure owner =
     (if status = RS_SUCCESS \<and> failure \<noteq> None
      then Inl (ActionInvariantError (owner @ '' success cannot carry a failure''))
      else if status \<noteq> RS_SUCCESS \<and> failure = None
      then Inl (ActionInvariantError (owner @ '' failed/timeout requires a failure''))
      else Inr ())"

definition result_payload :: "json_object \<Rightarrow> string \<Rightarrow> json_object action_result_of" where
  "result_payload payload owner =
     (if ''failure'' \<in> set (dict_keys payload)
      then Inl (ActionInvariantError (owner @ ''.payload cannot contain failure''))
      else Inr payload)"

record result_envelope =
  en_action_name :: string
  en_status :: result_status
  en_stage :: result_stage
  en_payload :: json_object
  en_failure :: "local_failure option"

definition mk_result_envelope :: "result_envelope \<Rightarrow> result_envelope action_result_of" where
  "mk_result_envelope e =
     (if en_action_name e = []
      then Inl (ActionInvariantError ''ActionResultEnvelope.action_name must be non-empty'')
      else bind_r (validate_failure_status (en_status e) (en_failure e) ''ActionResultEnvelope'') (\<lambda>_.
        bind_r (result_payload (en_payload e) ''ActionResultEnvelope'') (\<lambda>payload.
          Inr (e\<lparr>en_payload := payload\<rparr>))))"

definition envelope_to_json :: "result_envelope \<Rightarrow> json" where
  "envelope_to_json e = JObj
     ([(''action'', JStr (en_action_name e)), (''status'', JStr (status_value (en_status e))),
       (''stage'', JStr (stage_value (en_stage e)))]
      @ (case en_failure e of None \<Rightarrow> [] | Some f \<Rightarrow> [(''failure'', local_failure_to_json f)])
      @ (if en_payload e \<noteq> [] then [(''payload'', JObj (en_payload e))] else []))"

definition envelope_from_json :: "json \<Rightarrow> result_envelope action_result_of" where
  "envelope_from_json value =
     (case value of
        JObj members \<Rightarrow>
          (if list_ex (\<lambda>k. k \<notin> set [''action'', ''status'', ''stage'', ''payload'', ''failure''])
                (dict_keys members)
           then Inl (ActionInvariantError ''Action result envelope contains unknown fields'')
           else case dict_get members ''action'' JNull of
             JStr action_name \<Rightarrow>
               (case (status_of (dict_get members ''status'' JNull), stage_of (dict_get members ''stage'' JNull)) of
                  (Some status, Some stage) \<Rightarrow>
                    (case dict_get members ''payload'' (JObj []) of
                       JObj payload \<Rightarrow>
                         (case dict_get members ''failure'' JNull of
                            JNull \<Rightarrow> mk_result_envelope
                              \<lparr>en_action_name = action_name, en_status = status, en_stage = stage,
                               en_payload = payload, en_failure = None\<rparr>
                          | failure_value \<Rightarrow>
                              (case local_failure_from_json failure_value of
                                 Inl e \<Rightarrow> Inl e
                               | Inr failure \<Rightarrow> mk_result_envelope
                                   \<lparr>en_action_name = action_name, en_status = status, en_stage = stage,
                                    en_payload = payload, en_failure = Some failure\<rparr>))
                     | _ \<Rightarrow> Inl (ActionInvariantError ''Action result envelope payload must be an object''))
                | _ \<Rightarrow> Inl (ActionInvariantError ''Action result envelope has an invalid status or stage''))
           | _ \<Rightarrow> Inl (ActionInvariantError ''Action result envelope requires string action''))
      | _ \<Rightarrow> Inl (ActionInvariantError ''Action result envelope must be an object''))"

section \<open>Results\<close>

record trace_projection =
  tp_origin_refs :: "string list"
  tp_canonical_payload :: json_object
  tp_model_text :: "string option"

definition mk_trace_projection :: "trace_projection \<Rightarrow> trace_projection action_result_of" where
  "mk_trace_projection p =
     (if (case tp_model_text p of None \<Rightarrow> False | Some s \<Rightarrow> py_strip s = [])
      then Inl (ActionInvariantError ''ActionTraceProjection.model_text must be non-empty text'')
      else if [] \<in> set (tp_origin_refs p)
      then Inl (ActionInvariantError ''ActionTraceProjection.origin_refs must contain non-empty strings'')
      else if length (remdups (tp_origin_refs p)) \<noteq> length (tp_origin_refs p)
      then Inl (ActionInvariantError ''ActionTraceProjection.origin_refs must be unique'')
      else if tp_canonical_payload p = []
      then Inl (ActionInvariantError ''ActionTraceProjection.canonical_payload must be non-empty'')
      else if ''failure'' \<in> set (dict_keys (tp_canonical_payload p))
      then Inl (ActionInvariantError ''ActionTraceProjection.canonical_payload cannot contain failure'')
      else Inr p)"

record action_result =
  ar_result_id :: string
  ar_call_id :: string
  ar_action_name :: string
  ar_status :: result_status
  ar_stage :: result_stage
  ar_sequence :: int
  ar_invoke_id :: "string option"
  ar_batch_id :: "string option"
  ar_domain :: string
  ar_payload :: json_object
  ar_failure :: "local_failure option"
  ar_frame_data :: json_object
  ar_trace_projection :: "trace_projection option"
  ar_model_text :: "string option"

definition mk_action_result :: "action_result \<Rightarrow> action_result action_result_of" where
  "mk_action_result r =
     (if ar_result_id r = [] then Inl (ActionInvariantError ''ActionResult.result_id must be non-empty'')
      else if ar_call_id r = [] then Inl (ActionInvariantError ''ActionResult.call_id must be non-empty'')
      else if ar_action_name r = []
      then Inl (ActionInvariantError ''ActionResult.action_name must be non-empty'')
      else if (case ar_model_text r of None \<Rightarrow> False | Some s \<Rightarrow> py_strip s = [])
      then Inl (ActionInvariantError ''ActionResult.model_text must be non-empty text'')
      else if ar_sequence r \<le> 0
      then Inl (ActionInvariantError ''ActionResult.sequence must be positive'')
      else bind_r (validate_failure_status (ar_status r) (ar_failure r) ''ActionResult'') (\<lambda>_.
        if ar_status r \<noteq> RS_SUCCESS \<and> ar_trace_projection r \<noteq> None
        then Inl (ActionInvariantError ''Only successful ActionResults may carry a trace projection'')
        else bind_r (result_payload (ar_payload r) ''ActionResult'') (\<lambda>payload.
          Inr (r\<lparr>ar_payload := payload\<rparr>))))"

text \<open>The identities a caller passes to the three constructors; \<open>fresh\<close> is the new uuid's head.\<close>

record result_origin =
  ro_call_id :: string
  ro_invoke_id :: "string option"
  ro_batch_id :: "string option"
  ro_action_name :: string
  ro_sequence :: int
  ro_domain :: string
  ro_payload :: "json_object option"
  ro_frame_data :: "json_object option"

definition or_empty :: "json_object option \<Rightarrow> json_object" where
  "or_empty v = (case v of None \<Rightarrow> [] | Some x \<Rightarrow> x)"

definition result_success ::
  "string \<Rightarrow> result_origin \<Rightarrow> trace_projection option \<Rightarrow> string option \<Rightarrow> action_result action_result_of" where
  "result_success fresh origin projection model_text = mk_action_result
     \<lparr>ar_result_id = ''action_result_'' @ fresh, ar_call_id = ro_call_id origin,
      ar_action_name = ro_action_name origin, ar_status = RS_SUCCESS, ar_stage = ST_EXECUTE,
      ar_sequence = ro_sequence origin, ar_invoke_id = ro_invoke_id origin,
      ar_batch_id = ro_batch_id origin, ar_domain = ro_domain origin,
      ar_payload = or_empty (ro_payload origin), ar_failure = None,
      ar_frame_data = or_empty (ro_frame_data origin), ar_trace_projection = projection,
      ar_model_text = model_text\<rparr>"

definition result_failed ::
  "string \<Rightarrow> result_origin \<Rightarrow> result_stage \<Rightarrow> local_failure \<Rightarrow> action_result action_result_of" where
  "result_failed fresh origin stage failure = mk_action_result
     \<lparr>ar_result_id = ''action_result_'' @ fresh, ar_call_id = ro_call_id origin,
      ar_action_name = ro_action_name origin, ar_status = RS_FAILED, ar_stage = stage,
      ar_sequence = ro_sequence origin, ar_invoke_id = ro_invoke_id origin,
      ar_batch_id = ro_batch_id origin, ar_domain = ro_domain origin,
      ar_payload = or_empty (ro_payload origin), ar_failure = Some failure,
      ar_frame_data = or_empty (ro_frame_data origin), ar_trace_projection = None, ar_model_text = None\<rparr>"

definition result_timeout :: "string \<Rightarrow> result_origin \<Rightarrow> local_failure \<Rightarrow> action_result action_result_of" where
  "result_timeout fresh origin failure = mk_action_result
     \<lparr>ar_result_id = ''action_result_'' @ fresh, ar_call_id = ro_call_id origin,
      ar_action_name = ro_action_name origin, ar_status = RS_TIMEOUT, ar_stage = ST_TIMEOUT,
      ar_sequence = ro_sequence origin, ar_invoke_id = ro_invoke_id origin,
      ar_batch_id = ro_batch_id origin, ar_domain = ro_domain origin,
      ar_payload = or_empty (ro_payload origin), ar_failure = Some failure,
      ar_frame_data = or_empty (ro_frame_data origin), ar_trace_projection = None, ar_model_text = None\<rparr>"

definition result_to_envelope :: "json_object option \<Rightarrow> action_result \<Rightarrow> result_envelope action_result_of" where
  "result_to_envelope payload r = mk_result_envelope
     \<lparr>en_action_name = ar_action_name r, en_status = ar_status r, en_stage = ar_stage r,
      en_payload = (case payload of None \<Rightarrow> ar_payload r | Some p \<Rightarrow> p), en_failure = ar_failure r\<rparr>"

record phase_result =
  pr_result_id :: string
  pr_phase :: cycle_phase
  pr_stage :: phase_stage
  pr_failure :: local_failure
  pr_frame_data :: json_object
  pr_turn_id :: string
  pr_cycle_id :: string

definition mk_phase_result :: "phase_result \<Rightarrow> phase_result action_result_of" where
  "mk_phase_result r =
     (if pr_result_id r = [] then Inl (ActionInvariantError ''ActionPhaseResult.result_id must be non-empty'')
      else Inr r)"

definition phase_result_failed ::
  "string \<Rightarrow> cycle_phase \<Rightarrow> phase_stage \<Rightarrow> local_failure \<Rightarrow> json_object option \<Rightarrow> string \<Rightarrow> string
     \<Rightarrow> phase_result action_result_of" where
  "phase_result_failed fresh phase stage failure frame_data turn_id cycle_id = mk_phase_result
     \<lparr>pr_result_id = ''action_phase_result_'' @ fresh, pr_phase = phase, pr_stage = stage,
      pr_failure = failure, pr_frame_data = or_empty frame_data, pr_turn_id = turn_id,
      pr_cycle_id = cycle_id\<rparr>"

section \<open>Calls and executions\<close>

definition require_non_empty :: "string \<Rightarrow> string \<Rightarrow> unit action_result_of" where
  "require_non_empty value field =
     (if value = [] then Inl (ActionInvariantError (field @ '' must be non-empty'')) else Inr ())"

record action_call =
  ac_call_id :: string
  ac_action_name :: string
  ac_params :: json_object
  ac_sequence :: int

definition mk_action_call :: "action_call \<Rightarrow> action_call action_result_of" where
  "mk_action_call c =
     bind_r (require_non_empty (ac_call_id c) ''ActionCall.call_id'') (\<lambda>_.
     bind_r (require_non_empty (ac_action_name c) ''ActionCall.action_name'') (\<lambda>_.
     if ac_sequence c \<le> 0 then Inl (ActionInvariantError ''ActionCall.sequence must be positive'')
     else Inr c))"

record action_framework =
  af_invoke_id :: string
  af_batch_id :: string
  af_scope :: run_scope
  af_domain :: string
  af_deadline :: "rat option"
  af_timeout_seconds :: "rat option"
  af_turn_id :: string
  af_cycle_id :: string
  af_phase :: cycle_phase

definition mk_action_framework :: "action_framework \<Rightarrow> action_framework action_result_of" where
  "mk_action_framework f =
     bind_r (require_non_empty (af_invoke_id f) ''ActionFramework.invoke_id'') (\<lambda>_.
     bind_r (require_non_empty (af_batch_id f) ''ActionFramework.batch_id'') (\<lambda>_.
     bind_r (require_non_empty (af_domain f) ''ActionFramework.domain'') (\<lambda>_.
     if (case af_timeout_seconds f of None \<Rightarrow> False | Some t \<Rightarrow> t \<le> 0)
     then Inl (ActionInvariantError ''ActionFramework.timeout_seconds must be positive'')
     else Inr f)))"

definition framework_expired :: "rat \<Rightarrow> action_framework \<Rightarrow> bool" where
  "framework_expired now f = (case af_deadline f of None \<Rightarrow> False | Some d \<Rightarrow> now \<ge> d)"

record action_execution =
  ex_spec_name :: string
  ex_spec_domain :: string
  ex_call :: action_call
  ex_framework :: action_framework

definition mk_action_execution :: "action_execution \<Rightarrow> action_execution action_result_of" where
  "mk_action_execution e =
     (if ex_spec_name e \<noteq> ac_action_name (ex_call e)
      then Inl (ActionInvariantError ''ActionExecution.action.name must match ActionCall.action_name'')
      else if ex_spec_domain e \<noteq> af_domain (ex_framework e)
      then Inl (ActionInvariantError ''ActionExecution.action.domain must match ActionFramework.domain'')
      else Inr e)"

record action_batch =
  ab_batch_id :: string
  ab_executions :: "action_execution list"

fun check_executions ::
  "string \<Rightarrow> action_execution list \<Rightarrow> string list \<Rightarrow> string list \<Rightarrow> int list \<Rightarrow> unit action_result_of" where
  "check_executions batch_id [] calls invokes sequences = Inr ()"
| "check_executions batch_id (e # es) calls invokes sequences =
     (if af_batch_id (ex_framework e) \<noteq> batch_id
      then Inl (ActionInvariantError ''ActionExecution.framework.batch_id must match ActionBatch.batch_id'')
      else if ac_call_id (ex_call e) \<in> set calls
      then Inl (ActionInvariantError (''Duplicate action call id in batch: '' @ ac_call_id (ex_call e)))
      else if af_invoke_id (ex_framework e) \<in> set invokes
      then Inl (ActionInvariantError (''Duplicate action invoke id in batch: '' @ af_invoke_id (ex_framework e)))
      else if ac_sequence (ex_call e) \<in> set sequences
      then Inl (ActionInvariantError (''Duplicate action sequence in batch: '' @ show_int (ac_sequence (ex_call e))))
      else check_executions batch_id es (ac_call_id (ex_call e) # calls)
        (af_invoke_id (ex_framework e) # invokes) (ac_sequence (ex_call e) # sequences))"

definition mk_action_batch :: "action_batch \<Rightarrow> action_batch action_result_of" where
  "mk_action_batch b =
     bind_r (require_non_empty (ab_batch_id b) ''ActionBatch.batch_id'') (\<lambda>_.
     bind_r (check_executions (ab_batch_id b) (ab_executions b) [] [] []) (\<lambda>_. Inr b))"

datatype execution_state = ES_REQUESTED | ES_STARTED | ES_SETTLED | ES_CANCELLED | ES_NOT_EXECUTED | ES_UNKNOWN

record execution_fact =
  ef_call :: action_call
  ef_framework :: action_framework
  ef_state :: execution_state
  ef_result :: "action_result option"

definition mk_execution_fact :: "execution_fact \<Rightarrow> execution_fact action_result_of" where
  "mk_execution_fact f =
     (if (ef_state f = ES_SETTLED) \<noteq> (ef_result f \<noteq> None)
      then Inl (ActionInvariantError ''Only settled execution facts contain a result'')
      else case ef_result f of
        None \<Rightarrow> Inr f
      | Some r \<Rightarrow>
          (if ar_invoke_id r \<noteq> Some (af_invoke_id (ef_framework f))
              \<or> ar_call_id r \<noteq> ac_call_id (ef_call f)
              \<or> ar_batch_id r \<noteq> Some (af_batch_id (ef_framework f))
              \<or> ar_action_name r \<noteq> ac_action_name (ef_call f)
              \<or> ar_sequence r \<noteq> ac_sequence (ef_call f)
              \<or> ar_domain r \<noteq> af_domain (ef_framework f)
           then Inl (ActionInvariantError ''Execution fact result identity does not match'')
           else Inr f))"

text \<open>\<open>ActionNormalization.merged_results\<close>\<close>

definition merged_results :: "action_result list \<Rightarrow> action_result list \<Rightarrow> action_result list" where
  "merged_results own execution_results = sort_key ar_sequence (own @ execution_results)"

section \<open>Codecs\<close>

definition wf_local_failure :: "local_failure \<Rightarrow> bool" where
  "wf_local_failure f = is_ok (mk_local_failure f)"

definition wf_envelope :: "result_envelope \<Rightarrow> bool" where
  "wf_envelope e = (is_ok (mk_result_envelope e) \<and> pred_option wf_local_failure (en_failure e))"

lemma mk_local_failure_same: "mk_local_failure f = Inr g \<Longrightarrow> g = f"
  by (auto simp: mk_local_failure_def bind_r_Inr_iff split: if_splits)

lemma wf_local_failure_iff: "wf_local_failure f \<longleftrightarrow> mk_local_failure f = Inr f"
  by (cases "mk_local_failure f") (auto simp: wf_local_failure_def dest: mk_local_failure_same)

lemma mk_result_envelope_same: "mk_result_envelope e = Inr g \<Longrightarrow> g = e"
  by (auto simp: mk_result_envelope_def bind_r_Inr_iff result_payload_def split: if_splits)

lemma mk_result_envelope_ok: "is_ok (mk_result_envelope e) \<longleftrightarrow> mk_result_envelope e = Inr e"
  by (cases "mk_result_envelope e") (auto dest: mk_result_envelope_same)

lemma local_failure_parse_print: "wf_local_failure f \<Longrightarrow> local_failure_from_json (local_failure_to_json f) = Inr f"
  by (cases f; cases "lf_constraint f = []") (auto simp: local_failure_from_json_def local_failure_to_json_def dict_get_def wf_local_failure_iff)

lemma local_failure_from_json_wf: "local_failure_from_json v = Inr f \<Longrightarrow> wf_local_failure f"
  by (auto simp: local_failure_from_json_def wf_local_failure_iff
      split: json.splits if_splits option.splits dest: mk_local_failure_same)

lemma local_failure_not_null: "local_failure_to_json f \<noteq> JNull"
  by (simp add: local_failure_to_json_def)

lemma envelope_parse_print: "wf_envelope e \<Longrightarrow> envelope_from_json (envelope_to_json e) = Inr e"
  using local_failure_parse_print
  by (cases e; cases "en_failure e")
    (auto simp: envelope_from_json_def envelope_to_json_def dict_get_def wf_envelope_def
      mk_result_envelope_ok local_failure_to_json_def split: json.splits)

lemma mk_result_envelope_failure: "mk_result_envelope e = Inr g \<Longrightarrow> en_failure g = en_failure e"
  by (auto dest: mk_result_envelope_same)

lemma envelope_from_json_wf:
  assumes "envelope_from_json v = Inr e"
  shows "wf_envelope e"
proof -
  have "is_ok (mk_result_envelope e)"
    using assms by (auto simp: envelope_from_json_def mk_result_envelope_ok
        split: json.splits if_splits option.splits sum.splits dest: mk_result_envelope_same)
  moreover have "pred_option wf_local_failure (en_failure e)"
    using assms by (auto simp: envelope_from_json_def
        split: json.splits if_splits option.splits sum.splits
        dest!: mk_result_envelope_failure local_failure_from_json_wf)
  ultimately show ?thesis by (simp add: wf_envelope_def)
qed

interpretation failure_codec: codec local_failure_to_json local_failure_from_json wf_local_failure
  by unfold_locales (rule local_failure_parse_print, assumption, rule local_failure_from_json_wf)

interpretation envelope_codec: codec envelope_to_json envelope_from_json wf_envelope
  by unfold_locales (rule envelope_parse_print, assumption, rule envelope_from_json_wf)

section \<open>Properties\<close>

text \<open>
  Action results survive their JSON form. A failure that passed its checks, and an envelope whose
  failure passed them, print to JSON and parse back to themselves; whatever either parser accepts
  satisfies the checks of its constructor (so \<open>from_json\<close> admits no success with a failure, no failed
  result without one, no payload that hides a failure); and distinct values print differently.
\<close>

theorem action_envelope_json:
  assumes "wf_envelope e"
  shows "envelope_from_json (envelope_to_json e) = Inr e
    \<and> (en_status e = RS_SUCCESS) = (en_failure e = None)
    \<and> ''failure'' \<notin> set (dict_keys (en_payload e))
    \<and> (envelope_from_json v = Inr e' \<longrightarrow> wf_envelope e' \<and> envelope_from_json (envelope_to_json e') = Inr e')
    \<and> (wf_envelope e' \<longrightarrow> (envelope_to_json e = envelope_to_json e') = (e = e'))
    \<and> (wf_local_failure f \<longrightarrow> local_failure_from_json (local_failure_to_json f) = Inr f)"
proof -
  have "(en_status e = RS_SUCCESS) = (en_failure e = None)" "''failure'' \<notin> set (dict_keys (en_payload e))"
    using assms by (auto simp: wf_envelope_def mk_result_envelope_ok mk_result_envelope_def bind_r_Inr_iff
        validate_failure_status_def result_payload_def split: if_splits)
  then show ?thesis
    using assms envelope_codec.dec_enc envelope_codec.dec_wf envelope_codec.enc_inject failure_codec.dec_enc
    by blast
qed

definition sample_failure :: local_failure where
  "sample_failure = \<lparr>lf_reason = ''r'', lf_scope = ''a.b'', lf_disposition = FD_STOP, lf_feedback = ''no'',
     lf_constraint = []\<rparr>"

definition sample_envelope :: result_envelope where
  "sample_envelope = \<lparr>en_action_name = ''core.ask'', en_status = RS_FAILED, en_stage = ST_EXECUTE,
     en_payload = [(''n'', JInt 1)], en_failure = Some sample_failure\<rparr>"

lemma sample_failure_wf: "wf_local_failure sample_failure"
  by (simp add: wf_local_failure_def mk_local_failure_def sample_failure_def validate_failure_identifier_def
      failure_identifier_chars_def max_failure_feedback_chars_def max_failure_constraint_chars_def
      py_strip_def py_isspace_def dumps_json_def)

theorem action_envelope_json_witness:
  "envelope_from_json (envelope_to_json sample_envelope) = Inr sample_envelope
   \<and> local_failure_from_json (local_failure_to_json sample_failure) = Inr sample_failure"
proof -
  have "wf_envelope sample_envelope"
    using sample_failure_wf
    by (simp add: wf_envelope_def sample_envelope_def mk_result_envelope_def validate_failure_status_def
        result_payload_def)
  from action_envelope_json [OF this, of _ sample_envelope sample_failure] sample_failure_wf
  show ?thesis by blast
qed

lemma check_executions_iff:
  "is_ok (check_executions bid es calls invokes seqs) \<longleftrightarrow>
     list_all (\<lambda>e. af_batch_id (ex_framework e) = bid) es
     \<and> distinct (map (\<lambda>e. ac_call_id (ex_call e)) es) \<and> set (map (\<lambda>e. ac_call_id (ex_call e)) es) \<inter> set calls = {}
     \<and> distinct (map (\<lambda>e. af_invoke_id (ex_framework e)) es)
     \<and> set (map (\<lambda>e. af_invoke_id (ex_framework e)) es) \<inter> set invokes = {}
     \<and> distinct (map (\<lambda>e. ac_sequence (ex_call e)) es) \<and> set (map (\<lambda>e. ac_sequence (ex_call e)) es) \<inter> set seqs = {}"
proof (induction bid es calls invokes seqs rule: check_executions.induct)
  case (2 bid e es calls invokes seqs)
  then show ?case
    by (cases "af_batch_id (ex_framework e) = bid \<and> ac_call_id (ex_call e) \<notin> set calls
        \<and> af_invoke_id (ex_framework e) \<notin> set invokes \<and> ac_sequence (ex_call e) \<notin> set seqs") auto
qed simp

text \<open>
  A batch identifies its executions. The batch constructor accepts exactly the non-empty batch
  identities whose executions all belong to it and have pairwise distinct call identities, invoke
  identities and sequences; so within an accepted batch a sequence names one execution, which is what
  lets results be matched to calls.
\<close>

theorem batch_accepts_iff:
  "is_ok (mk_action_batch b) = (ab_batch_id b \<noteq> []
     \<and> list_all (\<lambda>e. af_batch_id (ex_framework e) = ab_batch_id b) (ab_executions b)
     \<and> distinct (map (\<lambda>e. ac_call_id (ex_call e)) (ab_executions b))
     \<and> distinct (map (\<lambda>e. af_invoke_id (ex_framework e)) (ab_executions b))
     \<and> distinct (map (\<lambda>e. ac_sequence (ex_call e)) (ab_executions b)))"
proof -
  have "is_ok (mk_action_batch b) = (ab_batch_id b \<noteq> []
      \<and> is_ok (check_executions (ab_batch_id b) (ab_executions b) [] [] []))"
    by (simp add: mk_action_batch_def require_non_empty_def bind_r_def split: sum.split)
  then show ?thesis by (simp add: check_executions_iff)
qed

text \<open>
  Results come back in call order and none is lost. Merging the normalization results with the
  execution results gives a permutation of both, ordered by call sequence; results of equal sequence
  keep their order, normalization first.
\<close>

theorem merged_results_spec:
  "mset (merged_results own ex) = mset own + mset ex
   \<and> sorted (map ar_sequence (merged_results own ex))
   \<and> filter (\<lambda>r. ar_sequence r = n) (merged_results own ex)
       = filter (\<lambda>r. ar_sequence r = n) own @ filter (\<lambda>r. ar_sequence r = n) ex"
proof -
  have "filter (\<lambda>r. ar_sequence r = n) (sort_key ar_sequence xs) = filter (\<lambda>r. ar_sequence r = n) xs"
    for xs :: "action_result list"
    by (rule sort_key_stable)
  then show ?thesis by (simp add: merged_results_def)
qed

end
