(* ===== verification/Json_Number.thy ===== *)
theory Json_Number
  imports Json Complex_Main
begin

text \<open>
  The numbers among JSON values, as Python compares them: an integer is exact, a float is the
  double its literal denotes, a boolean is 0 or 1.
\<close>

section \<open>Decimal literals\<close>

definition decimal_parts :: "string \<Rightarrow> string \<times> string \<times> string" where
  "decimal_parts s = (case py_partition (CHR ''e'') s of (mantissa, _, exponent) \<Rightarrow>
     (case py_partition (CHR ''.'') mantissa of (whole, _, fraction) \<Rightarrow> (whole, fraction, exponent)))"

definition signed_digits :: "string \<Rightarrow> int" where
  "signed_digits s = (case s of
     [] \<Rightarrow> 0
   | c # cs \<Rightarrow> if c = CHR ''-'' then - int (read_digits cs)
       else if c = CHR ''+'' then int (read_digits cs) else int (read_digits s))"

text \<open>The value of the text \<open>repr\<close> gives for a finite float: digits, a fraction, an exponent.\<close>

definition decimal_value :: "string \<Rightarrow> rat" where
  "decimal_value s = (case decimal_parts s of (whole, fraction, exponent) \<Rightarrow>
     let sign = (if py_startswith whole ''-'' then - 1 else 1 :: rat);
         digits = of_nat (read_digits (py_removeprefix whole ''-'' @ fraction));
         e = signed_digits exponent - int (length fraction)
     in sign * digits * (if e \<ge> 0 then 10 ^ nat e else 1 / 10 ^ nat (- e)))"

section \<open>Doubles\<close>

text \<open>The double nearest to a positive rational, ties to even: 53 bits, the smallest unit \<open>2 ^ -1074\<close>.\<close>

fun log2_nat :: "nat \<Rightarrow> nat" where
  "log2_nat n = (if n < 2 then 0 else Suc (log2_nat (n div 2)))"

declare log2_nat.simps [simp del]

definition rat_pow2 :: "int \<Rightarrow> rat" where
  "rat_pow2 e = (if 0 \<le> e then 2 ^ nat e else 1 / 2 ^ nat (- e))"

definition log2_rat :: "rat \<Rightarrow> int" where
  "log2_rat q = (case quotient_of q of (n, d) \<Rightarrow>
     let e = int (log2_nat (nat n)) - int (log2_nat (nat d)) in if q < rat_pow2 e then e - 1 else e)"

definition round_even :: "rat \<Rightarrow> int" where
  "round_even q =
     (let m = \<lfloor>q\<rfloor>; r = q - of_int m in
      if r < 1 / 2 \<or> (r = 1 / 2 \<and> even m) then m else m + 1)"

definition double_of :: "rat \<Rightarrow> rat" where
  "double_of q =
     (if q = 0 then 0
      else let e = max (- 1074) (log2_rat \<bar>q\<bar> - 52)
           in sgn q * of_int (round_even (\<bar>q\<bar> / rat_pow2 e)) * rat_pow2 e)"

definition double_value :: "string \<Rightarrow> rat" where
  "double_value literal = double_of (decimal_value literal)"

section \<open>Comparison\<close>

datatype py_number = Py_Rat rat | Py_Inf bool | Py_NaN

definition number_of_float :: "pyfloat \<Rightarrow> py_number" where
  "number_of_float x = (case x of Finite r \<Rightarrow> Py_Rat (double_value r) | NaN \<Rightarrow> Py_NaN
     | PosInf \<Rightarrow> Py_Inf True | NegInf \<Rightarrow> Py_Inf False)"

text \<open>\<open>isinstance(v, int | float)\<close>, which holds of booleans too.\<close>

definition number_of_json :: "json \<Rightarrow> py_number option" where
  "number_of_json v =
     (case v of JBool b \<Rightarrow> Some (Py_Rat (if b then 1 else 0)) | JInt i \<Rightarrow> Some (Py_Rat (of_int i))
      | JFloat x \<Rightarrow> Some (number_of_float x) | _ \<Rightarrow> None)"

fun number_less :: "py_number \<Rightarrow> py_number \<Rightarrow> bool" where
  "number_less (Py_Rat a) (Py_Rat b) = (a < b)"
| "number_less (Py_Rat a) (Py_Inf up) = up"
| "number_less (Py_Inf up) (Py_Rat b) = (\<not> up)"
| "number_less (Py_Inf up) (Py_Inf up') = (\<not> up \<and> up')"
| "number_less _ _ = False"

text \<open>\<open>str(v)\<close> of a number or a boolean.\<close>

definition number_str :: "json \<Rightarrow> string" where
  "number_str v =
     (case v of JBool b \<Rightarrow> if b then ''True'' else ''False'' | JInt i \<Rightarrow> show_int i
      | JFloat (Finite r) \<Rightarrow> r | JFloat NaN \<Rightarrow> ''nan'' | JFloat PosInf \<Rightarrow> ''inf'' | JFloat NegInf \<Rightarrow> ''-inf''
      | _ \<Rightarrow> [])"

text \<open>\<open>payload.get(key)\<close>: JSON null is Python's None.\<close>

definition get_value :: "json_object \<Rightarrow> string \<Rightarrow> json option" where
  "get_value payload key = (case map_of payload key of Some JNull \<Rightarrow> None | v \<Rightarrow> v)"

end
