(* ===== verification/Completion.thy ===== *)
theory Completion
  imports Outcomes Inbox Action Json_Number
begin

text \<open>
  The lifecycle of a Turn around its Cycles (tinysoul/kernel/loop/lifecycle): what the Action
  results of a Cycle ask for (an answer, a question, a wait), the record handed to the post-Turn
  owners and the pipeline that runs them, and the preparation pipeline. A number of a JSON payload
  is read as the decimal its text denotes; an int that no float can hold raises \<open>OverflowError\<close>.
\<close>

section \<open>Numbers\<close>

definition float_limit :: int where
  "float_limit = 2 ^ 1024 - 2 ^ 970"

definition py_float :: "json \<Rightarrow> exn + number option" where
  "py_float v = (case v of
     JInt i \<Rightarrow> if \<bar>i\<bar> \<ge> float_limit then Inl (OtherException ''OverflowError'') else Inr (Some (Num (of_int i)))
   | JFloat (Finite t) \<Rightarrow> Inr (Some (Num (decimal_value t)))
   | JFloat _ \<Rightarrow> Inr (Some NonFinite)
   | _ \<Rightarrow> Inr None)"

definition is_number :: "json option \<Rightarrow> bool" where
  "is_number v = (case v of None \<Rightarrow> True | Some (JInt i) \<Rightarrow> True | Some (JFloat x) \<Rightarrow> True | _ \<Rightarrow> False)"

definition is_text :: "json option \<Rightarrow> bool" where
  "is_text v = (case v of None \<Rightarrow> True | Some (JStr s) \<Rightarrow> True | _ \<Rightarrow> False)"

definition text_of :: "json option \<Rightarrow> string option" where
  "text_of v = (case v of Some (JStr s) \<Rightarrow> Some s | _ \<Rightarrow> None)"

definition timeout_of :: "json option \<Rightarrow> exn + number option" where
  "timeout_of v = (case v of None \<Rightarrow> Inr None | Some j \<Rightarrow> py_float j)"

section \<open>Waiting\<close>

record wait_request =
  wr_timeout :: "number option"
  wr_event_kind :: "inbox_kind option"
  wr_event_id :: "string option"
  wr_topic :: "string option"
  wr_source :: "string option"

definition mk_wait_request :: "wait_request \<Rightarrow> exn + wait_request" where
  "mk_wait_request r =
     (if (case wr_timeout r of None \<Rightarrow> False | Some NonFinite \<Rightarrow> True | Some (Num t) \<Rightarrow> t \<le> 0)
      then Inl (LoopContractError ''Wait timeout must be positive and finite'')
      else if wr_timeout r = None \<and> wr_event_kind r = None
      then Inl (LoopContractError ''Wait requires an event or deadline'')
      else if wr_event_id r \<noteq> None \<and> wr_event_kind r = None
      then Inl (LoopContractError ''Event identity requires an event kind'')
      else Inr r)"

definition after :: "rat \<Rightarrow> number option \<Rightarrow> number option" where
  "after now timeout = (case timeout of None \<Rightarrow> None | Some NonFinite \<Rightarrow> Some NonFinite
     | Some (Num t) \<Rightarrow> Some (Num (now + t)))"

definition wait_condition_of :: "rat \<Rightarrow> wait_request \<Rightarrow> int \<Rightarrow> wait_condition inbox_result" where
  "wait_condition_of now r after_sequence =
     mk_wait_condition \<lparr>wc_reason = (if wr_event_kind r \<noteq> None then WR_EVENT else WR_TIMER),
       wc_after_sequence = after_sequence, wc_deadline = after now (wr_timeout r),
       wc_event_kind = wr_event_kind r, wc_event_id = wr_event_id r, wc_question = None,
       wc_topic = wr_topic r, wc_source = wr_source r\<rparr>"

definition inbox_kind_of :: "string \<Rightarrow> inbox_kind option" where
  "inbox_kind_of v = find (\<lambda>k. inbox_kind_value k = v) [IK_INPUT, IK_REPLY, IK_EVENT, IK_TIMER, IK_JOB]"

definition successful :: "string \<Rightarrow> action_result list \<Rightarrow> action_result list" where
  "successful name results = filter (\<lambda>r. ar_action_name r = name \<and> ar_status r = RS_SUCCESS) results"

abbreviation wait_violation :: exn where
  "wait_violation \<equiv> LoopContractError ''Successful wait result violated its contract''"

text \<open>The \<open>try\<close> that builds the request and checks its condition; \<open>ValueError\<close> is an unknown event kind.\<close>

definition build_wait :: "rat \<Rightarrow> json_object \<Rightarrow> exn + wait_request" where
  "build_wait now payload =
     bind_r (timeout_of (get_value payload ''timeout_seconds'')) (\<lambda>timeout.
     (case (case text_of (get_value payload ''event_kind'') of
              None \<Rightarrow> Some None | Some k \<Rightarrow> map_option Some (inbox_kind_of k)) of
        None \<Rightarrow> Inl wait_violation
      | Some kind \<Rightarrow>
          bind_r (mk_wait_request \<lparr>wr_timeout = timeout, wr_event_kind = kind,
              wr_event_id = text_of (get_value payload ''event_id''),
              wr_topic = text_of (get_value payload ''topic''),
              wr_source = text_of (get_value payload ''source'')\<rparr>) (\<lambda>request.
          (case wait_condition_of now request 0 of
             Inl e \<Rightarrow> Inl wait_violation
           | Inr c \<Rightarrow> Inr request))))"

definition wait_from_results :: "rat \<Rightarrow> action_result list \<Rightarrow> exn + wait_request option" where
  "wait_from_results now results =
     (case successful ''core.wait'' results of
        [] \<Rightarrow> Inr None
      | [r] \<Rightarrow>
          (if \<not> is_number (get_value (ar_payload r) ''timeout_seconds'')
              \<or> \<not> list_all (\<lambda>k. is_text (get_value (ar_payload r) k))
                  [''event_kind'', ''event_id'', ''topic'', ''source'']
           then Inl wait_violation
           else bind_r (build_wait now (ar_payload r)) (\<lambda>request. Inr (Some request)))
      | _ \<Rightarrow> Inl (LoopContractError ''Wait detection requires one validated intent''))"

section \<open>Questions and answers\<close>

abbreviation question_violation :: exn where
  "question_violation \<equiv> LoopContractError ''Successful question result violated its contract''"

definition build_question :: "action_result \<Rightarrow> exn + question_request" where
  "build_question r =
     (case question_from_json (ar_payload r) of
        Inl e \<Rightarrow> Inl question_violation
      | Inr content \<Rightarrow>
          bind_r (timeout_of (get_value (ar_payload r) ''timeout_seconds'')) (\<lambda>timeout.
          (case mk_question_request (ar_result_id r) content timeout of
             Inl e \<Rightarrow> Inl question_violation
           | Inr q \<Rightarrow> Inr q)))"

definition question_from_results :: "action_result list \<Rightarrow> exn + question_request option" where
  "question_from_results results =
     (case successful ''core.ask'' results of
        [] \<Rightarrow> Inr None
      | [r] \<Rightarrow>
          (if \<not> is_number (get_value (ar_payload r) ''timeout_seconds'') then Inl question_violation
           else bind_r (build_question r) (\<lambda>q. Inr (Some q)))
      | _ \<Rightarrow> Inl (LoopContractError ''Question detection requires one validated intent''))"

definition is_nonempty_text :: "json \<Rightarrow> bool" where
  "is_nonempty_text v = (case v of JStr s \<Rightarrow> s \<noteq> [] | _ \<Rightarrow> False)"

definition detect_answer :: "action_result list \<Rightarrow> exn + json_object option" where
  "detect_answer results =
     (case successful ''core.answer'' results of
        [] \<Rightarrow> Inr None
      | [r] \<Rightarrow>
          (case map_of (ar_payload r) ''text'' of
             Some (JStr t) \<Rightarrow>
               (if t = []
                then Inl (LoopContractError ''A successful core.answer result must contain non-empty text'')
                else case dict_get (ar_payload r) ''references'' (JArr []) of
                  JArr refs \<Rightarrow>
                    (if \<not> list_all is_nonempty_text refs
                     then Inl (LoopContractError
                       ''A successful core.answer result must contain string references'')
                     else Inr (Some [(''kind'', JStr ''answer''), (''result_id'', JStr (ar_result_id r)),
                       (''text'', JStr t), (''references'', JArr refs)]))
                | _ \<Rightarrow> Inl (LoopContractError
                       ''A successful core.answer result must contain string references''))
           | _ \<Rightarrow> Inl (LoopContractError ''A successful core.answer result must contain non-empty text''))
      | _ \<Rightarrow> Inl (LoopContractError
               ''A Turn cycle produced multiple successful core.answer results''))"

section \<open>The record of a completed Turn\<close>

record 'c turn_completion =
  co_context_completion :: 'c
  co_active_day :: calendar_day
  co_status :: turn_status
  co_output :: "turn_output option"
  co_exhausted :: bool
  co_completion :: "json_object option"
  co_failure :: "turn_failure option"
  co_finish_failures :: "turn_failure list"

definition mk_turn_completion :: "'c turn_completion \<Rightarrow> exn + 'c turn_completion" where
  "mk_turn_completion c =
     (if (co_status c = TO_FAILED) \<noteq> (co_failure c \<noteq> None)
      then Inl (LoopContractError ''TurnCompletion failure and status disagree'') else Inr c)"

definition final_status :: "'c turn_completion \<Rightarrow> turn_status" where
  "final_status c = (if co_finish_failures c \<noteq> [] then TO_FAILED else co_status c)"

text \<open>
  The post-Turn handlers and the recorder. \<open>on_failure\<close> is the callback that turns what a handler
  raised into a failure; it may act on the state of the caller.
\<close>

record ('s, 'c) completion_pipeline =
  cp_handlers :: "('c turn_completion \<Rightarrow> ('s, unit) task) list"
  cp_recorder :: "('c turn_completion \<Rightarrow> ('s, unit) task) option"

definition contract_violation :: "exn \<Rightarrow> exn" where
  "contract_violation e = raised (from_loop_error
     (LoopInvariantError ''Turn completion handler violated its failure contract'')
     [(''error_type'', JStr (exn_name e))])"

definition run_handler ::
  "(exn \<Rightarrow> ('s, turn_failure) task) \<Rightarrow> ('c turn_completion \<Rightarrow> ('s, unit) task) \<Rightarrow> 'c turn_completion
     \<Rightarrow> ('s, turn_failure option) task" where
  "run_handler on_failure handler c =
     task_then (handler c) (\<lambda>r. case r of
       Inr _ \<Rightarrow> task_return None
     | Inl e \<Rightarrow> task_bind
         (on_failure (case e of RuntimeException x \<Rightarrow> e | RuntimeTransferInterrupt t x \<Rightarrow> e | _ \<Rightarrow> contract_violation e))
         (\<lambda>f. task_return (Some f)))"

fun run_handlers ::
  "(exn \<Rightarrow> ('s, turn_failure) task) \<Rightarrow> ('c turn_completion \<Rightarrow> ('s, unit) task) list \<Rightarrow> 'c turn_completion
     \<Rightarrow> ('s, 'c turn_completion) task" where
  "run_handlers on_failure [] c = task_return c"
| "run_handlers on_failure (h # hs) c =
     task_bind (run_handler on_failure h c) (\<lambda>f. case f of
       Some failure \<Rightarrow> task_return (c\<lparr>co_finish_failures := co_finish_failures c @ [failure]\<rparr>)
     | None \<Rightarrow> run_handlers on_failure hs c)"

definition completion_run ::
  "('s, 'c) completion_pipeline \<Rightarrow> (exn \<Rightarrow> ('s, turn_failure) task) \<Rightarrow> 'c turn_completion
     \<Rightarrow> ('s, 'c turn_completion) task" where
  "completion_run pipeline on_failure c =
     task_bind (run_handlers on_failure (cp_handlers pipeline) c) (\<lambda>c.
     case cp_recorder pipeline of
       None \<Rightarrow> task_return c
     | Some recorder \<Rightarrow>
         task_bind (run_handler on_failure recorder c) (\<lambda>f. case f of
           Some failure \<Rightarrow> task_return (c\<lparr>co_finish_failures := co_finish_failures c @ [failure]\<rparr>)
         | None \<Rightarrow> task_return c))"

text \<open>
  The payload of a handler's violation names the wrapping error: the class of what the handler raised
  is overwritten by \<open>exception_payload\<close>.
\<close>

lemma handler_error_type_lost: "contract_violation (OtherException a) = contract_violation (OtherException b)"
  by (simp add: contract_violation_def from_loop_error_def loop_from_exception_def exception_payload_def)

section \<open>Preparation\<close>

record preparation_request =
  pq_turn_id :: string
  pq_turn_input :: string
  pq_active_day :: calendar_day
  pq_scope :: run_scope

definition mk_preparation_request :: "preparation_request \<Rightarrow> exn + preparation_request" where
  "mk_preparation_request q =
     (if pq_turn_id q = [] \<or> pq_turn_input q = []
      then Inl (LoopContractError ''TurnPreparationRequest requires turn_id and turn_input'') else Inr q)"

fun prepare_turn ::
  "(preparation_request \<Rightarrow> ('s, signal list) task) list \<Rightarrow> preparation_request \<Rightarrow> ('s, signal list) task" where
  "prepare_turn [] q = task_return []"
| "prepare_turn (h # hs) q =
     task_bind (h q) (\<lambda>ss. task_bind (prepare_turn hs q) (\<lambda>rest. task_return (ss @ rest)))"

end
