(* ===== verification/Cycle.thy ===== *)
theory Cycle
  imports Trap Completion
begin

text \<open>
  One Cycle of a Turn: the consumption of Context signals (tinysoul/kernel/loop/context_signals.py),
  the outcomes of the phases (phases/contracts.py) and the runner that drives the three phases
  between the boundaries where control requests are honoured (kernel/loop/cycle.py), with the trap
  policy of a User Turn (tinysoul/agent/user/runtime.py).

  The Context engine and the phase units are parameters: tasks on the world they share with the
  signal bus. Observation events have no effect on control flow and are left out. The tests that a
  phase returned an object of its outcome type are typing here.
\<close>

section \<open>Signals on the bus\<close>

definition emit_all :: "signal list \<Rightarrow> 'w world \<Rightarrow> 'w world" where
  "emit_all signals w = (fst w, foldl (\<lambda>bus s. bus_emit s bus) (snd w) signals)"

record signal_batch =
  sb_turn_id :: string
  sb_signals :: "signal list"

text \<open>
  The consumer: \<open>take\<close> and \<open>commit\<close> are the Context engine's \<open>take_signal_batch\<close> and
  \<open>consume_signal_batch\<close>; the module runner is optional and given by its trap registry and its
  consumer of recovery signals.
\<close>

record ('w, 'r) signal_consumer =
  sc_take :: "'w world \<Rightarrow> 'w world \<times> (exn + signal_batch)"
  sc_commit :: "signal_batch \<Rightarrow> 'w world \<Rightarrow> 'w world \<times> (exn + 'r list)"
  sc_runner :: "('w world trap_handler trap_registry
    \<times> (signal list \<Rightarrow> run_scope \<Rightarrow> 'w world \<Rightarrow> 'w world \<times> (exn + unit)) option) option"

text \<open>\<open>except ContextError as exc: raise from_context_error(exc) from exc\<close>\<close>

definition context_bridged :: "'w world \<times> (exn + 'a) \<Rightarrow> 'w world \<times> (exn + 'a)" where
  "context_bridged out = (case out of
     (w, Inl (ContextException f)) \<Rightarrow> (w, Inl (raised (from_context_error f)))
   | _ \<Rightarrow> out)"

definition consume_batch ::
  "('w, 'r) signal_consumer \<Rightarrow> signal_batch \<Rightarrow> run_scope \<Rightarrow> ('w world, 'r list) task" where
  "consume_batch sc batch scope =
     (case sc_runner sc of
        None \<Rightarrow> task_call (\<lambda>w. context_bridged (sc_commit sc batch w))
      | Some (registry, recovery) \<Rightarrow>
          module_run \<lparr>me_registry = registry,
              me_callback = (\<lambda>_ w. context_bridged (sc_commit sc batch w)), me_recovery = recovery\<rparr>
            scope ''context.consume_signals'')"

definition consume :: "('w, 'r) signal_consumer \<Rightarrow> run_scope \<Rightarrow> ('w world, 'r list) task" where
  "consume sc scope =
     task_bind (task_call (\<lambda>w. context_bridged (sc_take sc w))) (\<lambda>batch.
     if sb_signals batch = [] then task_return [] else consume_batch sc batch scope)"

definition emit_and_consume ::
  "('w, 'r) signal_consumer \<Rightarrow> signal list \<Rightarrow> run_scope \<Rightarrow> ('w world, 'r list) task" where
  "emit_and_consume sc signals scope = task_bind (task_update (emit_all signals)) (\<lambda>_. consume sc scope)"

definition loop_invariant :: "string \<Rightarrow> exn" where
  "loop_invariant message = raised (from_loop_error (LoopInvariantError message) [])"

definition consume_recovery ::
  "('w, 'r) signal_consumer \<Rightarrow> signal list \<Rightarrow> run_scope \<Rightarrow> 'w world \<Rightarrow> 'w world \<times> (exn + unit)" where
  "consume_recovery sc signals scope w =
     (let own = filter (\<lambda>s. py_startswith (sig_name s) ''context.'') signals;
          w1 = emit_all (filter (\<lambda>s. \<not> py_startswith (sig_name s) ''context.'') signals) w
      in if own = [] then (w1, Inr ())
         else case scope_nearest scope RL_TURN of
           None \<Rightarrow> (w1, Inl (loop_invariant ''Recovery Context updates require a Turn frame''))
         | Some turn \<Rightarrow>
             (case context_bridged (sc_commit sc \<lparr>sb_turn_id = rf_name turn, sb_signals = own\<rparr> w1) of
                (w2, Inl e) \<Rightarrow> (w2, Inl e)
              | (w2, Inr results) \<Rightarrow>
                  (if results \<noteq> []
                   then (w2, Inl (loop_invariant ''Context rejected an internal recovery update''))
                   else (w2, Inr ()))))"

section \<open>Phases\<close>

record phase_failure =
  pf_phase :: cycle_phase
  pf_reason :: string
  pf_feedback :: "string list"

definition mk_phase_failure :: "phase_failure \<Rightarrow> exn + phase_failure" where
  "mk_phase_failure f =
     (if pf_reason f = [] then Inl (LoopContractError ''PhaseFailure.reason must be non-empty'')
      else if [] \<in> set (pf_feedback f)
      then Inl (LoopContractError ''PhaseFailure.feedback must contain non-empty strings'')
      else Inr f)"

record 'c phase1_outcome =
  p1_selected_domains :: "string list"
  p1_intent :: string
  p1_control_results :: "'c list"
  p1_attempts :: int
  p1_failure :: "phase_failure option"

record ('n, 'r) phase2_outcome =
  p2_normalization :: 'n
  p2_phase_results :: "'r list"
  p2_attempts :: int
  p2_failure :: "phase_failure option"

record 'r phase3_outcome =
  p3_results :: "action_result list"
  p3_phase_results :: "'r list"
  p3_completion :: "json_object option"
  p3_question :: "question_request option"
  p3_wait :: "wait_request option"
  p3_failure :: "phase_failure option"

section \<open>The runner\<close>

record ('w, 'c, 'n, 'r) cycle_env =
  cy_registry :: "'w world trap_handler trap_registry"
  cy_consume :: "run_scope \<Rightarrow> ('w world, unit) task"
  cy_merge :: "'w world \<Rightarrow> 'w world \<times> (exn + unit)"
  cy_cancellation :: "'w world \<Rightarrow> turn_cancellation option"
  cy_phase1 :: "run_scope \<Rightarrow> string \<Rightarrow> string list \<Rightarrow> ('w world, 'c phase1_outcome) task"
  cy_phase2 :: "string list \<Rightarrow> string \<Rightarrow> run_scope \<Rightarrow> string \<Rightarrow> string \<Rightarrow> ('w world, ('n, 'r) phase2_outcome) task"
  cy_phase3 :: "'n \<Rightarrow> run_scope \<Rightarrow> string \<Rightarrow> string \<Rightarrow> ('w world, 'r phase3_outcome) task"

record cycle_outcome =
  cc_cycle_id :: string
  cc_transfer :: "runtime_transfer option"
  cc_failure :: "turn_failure option"
  cc_stopped :: bool
  cc_completion :: "json_object option"
  cc_phase_failure :: "phase_failure option"
  cc_question :: "question_request option"
  cc_wait :: "wait_request option"

definition mk_cycle_outcome :: "string \<Rightarrow> cycle_outcome" where
  "mk_cycle_outcome cycle_id = \<lparr>cc_cycle_id = cycle_id, cc_transfer = None, cc_failure = None,
     cc_stopped = False, cc_completion = None, cc_phase_failure = None, cc_question = None, cc_wait = None\<rparr>"

record 'v phase_run =
  pr_value :: "'v option"
  pr_transfer :: "runtime_transfer option"
  pr_failure :: "turn_failure option"
  pr_ended :: bool
  pr_cancelled :: bool

definition mk_phase_run :: "'v phase_run" where
  "mk_phase_run = \<lparr>pr_value = None, pr_transfer = None, pr_failure = None, pr_ended = False, pr_cancelled = False\<rparr>"

record boundary =
  bd_transfer :: runtime_transfer
  bd_failure :: "turn_failure option"
  bd_stopped :: bool

text \<open>\<open>_capture\<close> of the Cycle and of the Turn runner: the trap's signals go to the bus.\<close>

definition trap_boundary ::
  "'w world trap_handler trap_registry \<Rightarrow> runtime_exception \<Rightarrow> run_scope \<Rightarrow> bool \<Rightarrow> ('w world, boundary) task" where
  "trap_boundary registry e scope failure =
     task_bind (task_call (trap_capture registry e scope None)) (\<lambda>result.
     task_bind (task_update (emit_all (tres_signals result))) (\<lambda>_.
     task_bind (task_sum (if failure then failure_from_runtime e else Inr None)) (\<lambda>f.
     task_return \<lparr>bd_transfer = tres_transfer result, bd_failure = f, bd_stopped = False\<rparr>)))"

definition trap_raised ::
  "'w world trap_handler trap_registry \<Rightarrow> exn + runtime_exception \<Rightarrow> run_scope \<Rightarrow> ('w world, boundary) task" where
  "trap_raised registry r scope =
     (case r of Inl e \<Rightarrow> task_raise e | Inr x \<Rightarrow> trap_boundary registry x scope True)"

definition from_interrupt :: "runtime_transfer \<Rightarrow> runtime_exception option \<Rightarrow> exn + boundary" where
  "from_interrupt t cause =
     bind_r (case cause of None \<Rightarrow> Inr None | Some x \<Rightarrow> failure_from_runtime x) (\<lambda>f.
     Inr \<lparr>bd_transfer = t, bd_failure = f, bd_stopped = False\<rparr>)"

definition end_exception :: "string \<Rightarrow> string \<Rightarrow> string \<Rightarrow> runtime_exception" where
  "end_exception reason message source =
     \<lparr>rx_reason = reason, rx_message = message, rx_payload = [(''source'', JStr source)]\<rparr>"

fun transfer_action_value :: "transfer_action \<Rightarrow> string" where
  "transfer_action_value RETRY = ''retry''"
| "transfer_action_value END = ''end''"
| "transfer_action_value SUSPEND = ''suspend''"

definition transfer_str :: "runtime_transfer \<Rightarrow> string" where
  "transfer_str t = transfer_action_value (tr_action t) @ ''('' @ run_frame_str (tr_target t) @ '')''"

text \<open>What a boundary decided inside a phase means for the phase frame.\<close>

definition settle_phase :: "run_frame \<Rightarrow> boundary \<Rightarrow> 'w world \<Rightarrow> ('w, 'v phase_run) attempt" where
  "settle_phase current b w =
     (if tr_target (bd_transfer b) \<noteq> current
      then Done w (Inr (mk_phase_run\<lparr>pr_transfer := Some (bd_transfer b), pr_failure := bd_failure b\<rparr>))
      else if tr_action (bd_transfer b) = RETRY then Retry w
      else if tr_action (bd_transfer b) = END
      then Done w (Inr (mk_phase_run\<lparr>pr_ended := True, pr_failure := bd_failure b\<rparr>))
      else Done w (Inl (loop_invariant (''Unsupported phase transfer: '' @ transfer_str (bd_transfer b)))))"

text \<open>The \<open>except\<close> clauses of \<open>_run_phase\<close>.\<close>

definition phase_raised ::
  "('w, 'c, 'n, 'r) cycle_env \<Rightarrow> run_scope \<Rightarrow> run_frame \<Rightarrow> exn \<Rightarrow> 'w world
     \<Rightarrow> ('w, 'v phase_run) attempt option" where
  "phase_raised env scope current e w =
     (case e of
        TaskCancelled \<Rightarrow> Some (Done w (Inr (mk_phase_run\<lparr>pr_cancelled := True\<rparr>)))
      | ActionExecutionCancelled \<Rightarrow> Some (Done w (Inr (mk_phase_run\<lparr>pr_cancelled := True\<rparr>)))
      | RuntimeTransferInterrupt t cause \<Rightarrow>
          (case from_interrupt t cause of
             Inl err \<Rightarrow> Some (Done w (Inl err))
           | Inr b \<Rightarrow> Some (settle_phase current b w))
      | RuntimeException x \<Rightarrow>
          (case trap_boundary (cy_registry env) x scope True w of
             None \<Rightarrow> None
           | Some (w', Inl err) \<Rightarrow> Some (Done w' (Inl err))
           | Some (w', Inr b) \<Rightarrow> Some (settle_phase current b w'))
      | _ \<Rightarrow> Some (Done w (Inl e)))"

definition phase_attempt ::
  "('w, 'c, 'n, 'r) cycle_env \<Rightarrow> run_scope \<Rightarrow> run_frame \<Rightarrow> ('w world, 'v) task \<Rightarrow> 'w world
     \<Rightarrow> ('w, 'v phase_run) attempt option" where
  "phase_attempt env scope current phase w =
     (case task_bind (cy_consume env scope) (\<lambda>_. phase) w of
        None \<Rightarrow> None
      | Some (w', Inr v) \<Rightarrow> Some (Done w' (Inr (mk_phase_run\<lparr>pr_value := Some v\<rparr>)))
      | Some (w', Inl e) \<Rightarrow> phase_raised env scope current e w')"

partial_function (option) phase_loop ::
  "('w, 'c, 'n, 'r) cycle_env \<Rightarrow> run_scope \<Rightarrow> run_frame \<Rightarrow> ('w world, 'v) task \<Rightarrow> 'w world
     \<Rightarrow> ('w world \<times> (exn + 'v phase_run)) option" where
  "phase_loop env scope current phase w =
     (case phase_attempt env scope current phase w of
        None \<Rightarrow> None
      | Some (Done w' r) \<Rightarrow> Some (w', r)
      | Some (Retry w') \<Rightarrow> phase_loop env scope current phase w')"

declare phase_loop.simps [code]

definition run_phase ::
  "('w, 'c, 'n, 'r) cycle_env \<Rightarrow> run_scope \<Rightarrow> ('w world, 'v) task \<Rightarrow> ('w world, 'v phase_run) task" where
  "run_phase env scope phase =
     (case scope_current scope of
        None \<Rightarrow> task_raise (loop_invariant ''Cannot run a phase with an empty scope'')
      | Some current \<Rightarrow> phase_loop env scope current phase)"

section \<open>Boundaries\<close>

text \<open>The control requests of the current Turn, taken off the bus; those of other Turns are dropped.\<close>

definition own_requests ::
  "run_scope \<Rightarrow> (signal \<times> loop_control_request) list \<Rightarrow> loop_control_kind list" where
  "own_requests scope pairs =
     map (\<lambda>(s, r). lc_kind r)
       (filter (\<lambda>(s, r). scope_nearest scope RL_TURN \<noteq> None
          \<and> scope_nearest (sig_scope s) RL_TURN = scope_nearest scope RL_TURN) pairs)"

definition take_requests ::
  "run_scope \<Rightarrow> ('w world, loop_control_kind list) task" where
  "take_requests scope =
     task_bind (task_call (\<lambda>w. case consume_control_signal_requests (snd w) of
        (bus', r) \<Rightarrow> ((fst w, bus'), r)))
       (\<lambda>pairs. task_return (own_requests scope pairs))"

definition apply_pending ::
  "('w, 'c, 'n, 'r) cycle_env \<Rightarrow> run_scope \<Rightarrow> ('w world, boundary option) task" where
  "apply_pending env scope =
     task_then (task_bind (cy_consume env scope) (\<lambda>_. task_call (cy_merge env))) (\<lambda>r. case r of
       Inr _ \<Rightarrow> task_return None
     | Inl (RuntimeTransferInterrupt t cause) \<Rightarrow>
         task_bind (task_sum (from_interrupt t cause)) (\<lambda>b. task_return (Some b))
     | Inl (RuntimeException x) \<Rightarrow>
         task_bind (trap_boundary (cy_registry env) x scope True) (\<lambda>b. task_return (Some b))
     | Inl (ContextException f) \<Rightarrow>
         task_bind (trap_raised (cy_registry env) (from_context_error f) scope) (\<lambda>b. task_return (Some b))
     | Inl e \<Rightarrow> task_raise e)"

definition exit_boundary ::
  "('w, 'c, 'n, 'r) cycle_env \<Rightarrow> run_scope \<Rightarrow> string \<Rightarrow> ('w world, boundary) task" where
  "exit_boundary env scope source =
     trap_boundary (cy_registry env)
       (end_exception runtime_agent_end ''Program exit requested.'' source) scope False"

definition stop_boundary ::
  "('w, 'c, 'n, 'r) cycle_env \<Rightarrow> run_scope \<Rightarrow> string \<Rightarrow> ('w world, boundary) task" where
  "stop_boundary env scope source =
     task_bind (trap_boundary (cy_registry env)
         (end_exception runtime_turn_end ''Turn stop requested.'' source) scope False)
       (\<lambda>b. task_return \<lparr>bd_transfer = bd_transfer b, bd_failure = None, bd_stopped = True\<rparr>)"

definition cycle_boundary ::
  "('w, 'c, 'n, 'r) cycle_env \<Rightarrow> run_scope \<Rightarrow> ('w world, boundary option) task" where
  "cycle_boundary env scope =
     task_then (take_requests scope) (\<lambda>r. case r of
       Inl (LoopContractError m) \<Rightarrow>
         task_bind (trap_raised (cy_registry env) (from_loop_error (LoopContractError m) []) scope)
           (\<lambda>b. task_return (Some b))
     | Inl e \<Rightarrow> task_raise e
     | Inr kinds \<Rightarrow>
         (if EXIT_PROGRAM \<in> set kinds
          then task_bind (exit_boundary env scope ''loop.control'') (\<lambda>b. task_return (Some b))
          else if STOP_TURN \<in> set kinds
          then task_bind (stop_boundary env scope ''loop.control'') (\<lambda>b. task_return (Some b))
          else apply_pending env scope))"

definition boundary_outcome :: "string \<Rightarrow> boundary \<Rightarrow> cycle_outcome" where
  "boundary_outcome cycle_id b = (mk_cycle_outcome cycle_id)\<lparr>cc_transfer := Some (bd_transfer b),
     cc_failure := bd_failure b, cc_stopped := bd_stopped b\<rparr>"

text \<open>\<open>_cancelled_outcome\<close>: the pending control request, or the kind the token recorded.\<close>

definition cancelled_outcome ::
  "('w, 'c, 'n, 'r) cycle_env \<Rightarrow> string \<Rightarrow> run_scope \<Rightarrow> ('w world, cycle_outcome) task" where
  "cancelled_outcome env cycle_id scope =
     task_bind (cycle_boundary env scope) (\<lambda>b.
     task_bind (case b of
         Some b \<Rightarrow> task_return b
       | None \<Rightarrow> (\<lambda>w.
           if Option.bind (cy_cancellation env w) tc_kind = Some EXIT_PROGRAM
           then exit_boundary env scope ''loop.cancel'' w
           else stop_boundary env scope ''loop.cancel'' w))
       (\<lambda>b. task_return (boundary_outcome cycle_id b)))"

section \<open>The Cycle\<close>

text \<open>A boundary that lets the Cycle go on, or ends it.\<close>

definition cycle_gate ::
  "('w, 'c, 'n, 'r) cycle_env \<Rightarrow> string \<Rightarrow> run_scope \<Rightarrow> ('w world, cycle_outcome) task
     \<Rightarrow> ('w world, cycle_outcome) task" where
  "cycle_gate env cycle_id scope rest =
     task_bind (cycle_boundary env scope) (\<lambda>b. case b of
       Some b \<Rightarrow> task_return (boundary_outcome cycle_id b) | None \<Rightarrow> rest)"

text \<open>A phase in its scope, with the outcomes that end the Cycle.\<close>

definition cycle_phase_step ::
  "('w, 'c, 'n, 'r) cycle_env \<Rightarrow> string \<Rightarrow> run_scope \<Rightarrow> ('w world, 'v) task
     \<Rightarrow> ('v \<Rightarrow> ('w world, cycle_outcome) task) \<Rightarrow> ('w world, cycle_outcome) task" where
  "cycle_phase_step env cycle_id scope phase rest =
     task_bind (run_phase env scope phase) (\<lambda>p.
     if pr_cancelled p then cancelled_outcome env cycle_id scope
     else case pr_transfer p of
       Some t \<Rightarrow> task_return ((mk_cycle_outcome cycle_id)\<lparr>cc_transfer := Some t, cc_failure := pr_failure p\<rparr>)
     | None \<Rightarrow>
         (if pr_ended p then task_return ((mk_cycle_outcome cycle_id)\<lparr>cc_failure := pr_failure p\<rparr>)
          else case pr_value p of
            None \<Rightarrow> task_raise (loop_invariant ''Phase returned an invalid outcome'')
          | Some v \<Rightarrow> rest v))"

definition phase_failed :: "string \<Rightarrow> phase_failure \<Rightarrow> cycle_outcome" where
  "phase_failed cycle_id f = (mk_cycle_outcome cycle_id)\<lparr>cc_phase_failure := Some f\<rparr>"

definition phase_scope :: "run_scope \<Rightarrow> cycle_phase \<Rightarrow> ('w world, run_scope) task" where
  "phase_scope cycle_scope p = task_sum (scope_push cycle_scope RL_PHASE (cycle_phase_value p))"

definition cycle_phase3 ::
  "('w, 'c, 'n, 'r) cycle_env \<Rightarrow> string \<Rightarrow> string \<Rightarrow> run_scope \<Rightarrow> ('n, 'r) phase2_outcome
     \<Rightarrow> ('w world, cycle_outcome) task" where
  "cycle_phase3 env turn_id cycle_id cycle_scope o2 =
     task_bind (phase_scope cycle_scope PHASE3) (\<lambda>scope.
     cycle_phase_step env cycle_id scope (cy_phase3 env (p2_normalization o2) scope cycle_id turn_id) (\<lambda>o3.
     cycle_gate env cycle_id scope (task_return ((mk_cycle_outcome cycle_id)
       \<lparr>cc_completion := p3_completion o3, cc_question := p3_question o3, cc_wait := p3_wait o3,
        cc_phase_failure := p3_failure o3\<rparr>))))"

definition cycle_phase2 ::
  "('w, 'c, 'n, 'r) cycle_env \<Rightarrow> string \<Rightarrow> string \<Rightarrow> run_scope \<Rightarrow> 'c phase1_outcome
     \<Rightarrow> ('w world, cycle_outcome) task" where
  "cycle_phase2 env turn_id cycle_id cycle_scope o1 =
     task_bind (phase_scope cycle_scope PHASE2) (\<lambda>scope.
     cycle_phase_step env cycle_id scope
       (cy_phase2 env (p1_selected_domains o1) (p1_intent o1) scope cycle_id turn_id) (\<lambda>o2.
     case p2_failure o2 of
       Some f \<Rightarrow> task_return (phase_failed cycle_id f)
     | None \<Rightarrow> cycle_gate env cycle_id scope (cycle_phase3 env turn_id cycle_id cycle_scope o2)))"

definition cycle_phase1 ::
  "('w, 'c, 'n, 'r) cycle_env \<Rightarrow> string \<Rightarrow> string \<Rightarrow> string list \<Rightarrow> run_scope
     \<Rightarrow> ('w world, cycle_outcome) task" where
  "cycle_phase1 env turn_id cycle_id feedback cycle_scope =
     task_bind (phase_scope cycle_scope PHASE1) (\<lambda>scope.
     cycle_phase_step env cycle_id scope (cy_phase1 env scope cycle_id feedback) (\<lambda>o1.
     case p1_failure o1 of
       Some f \<Rightarrow> task_return (phase_failed cycle_id f)
     | None \<Rightarrow> cycle_gate env cycle_id scope (cycle_phase2 env turn_id cycle_id cycle_scope o1)))"

definition cycle_run ::
  "('w, 'c, 'n, 'r) cycle_env \<Rightarrow> string \<Rightarrow> int \<Rightarrow> run_scope \<Rightarrow> string list \<Rightarrow> ('w world, cycle_outcome) task" where
  "cycle_run env turn_id cycle_index scope feedback =
     (if cycle_index \<le> 0
      then task_raise (raised (from_loop_error (LoopContractError ''cycle_index must be positive'') []))
      else (let cycle_id = ''cycle_'' @ show_int cycle_index in
        task_bind (task_sum (scope_push scope RL_CYCLE cycle_id)) (\<lambda>cycle_scope.
        cycle_gate env cycle_id cycle_scope
          (cycle_phase1 env turn_id cycle_id feedback cycle_scope))))"

section \<open>The trap policy of a User Turn\<close>

definition loop_budget_required :: string where "loop_budget_required = ''loop.budget_required''"

definition llm_context_capacity_exceeded :: string where
  "llm_context_capacity_exceeded = ''llm.context_capacity_exceeded''"

text \<open>The registry of \<open>build_user_turn_trap\<close>; \<open>install\<close> is what the plugins register.\<close>

definition user_turn_registry ::
  "'w world recovery \<Rightarrow> ('w world trap_handler trap_registry \<Rightarrow> exn + 'w world trap_handler trap_registry)
     \<Rightarrow> exn + 'w world trap_handler trap_registry" where
  "user_turn_registry recover install =
     bind_r (register_exact loop_budget_required budget_suspend_handler empty_registry) (\<lambda>r.
     bind_r (register_exact runtime_turn_end (end_frame_handler RL_TURN) r) (\<lambda>r.
     bind_r (register_exact runtime_cycle_end (end_frame_handler RL_CYCLE) r) (\<lambda>r.
     bind_r (register_exact runtime_agent_end (end_frame_handler RL_AGENT) r) (\<lambda>r.
     bind_r (register_exact runtime_startup_failed (end_frame_handler RL_AGENT) r) (\<lambda>r.
     bind_r (register_exact context_compression_required (context_pressure_handler recover) r) (\<lambda>r.
     bind_r (register_exact llm_context_capacity_exceeded (context_pressure_handler recover) r) (\<lambda>r.
     bind_r (install r) (\<lambda>r.
     register_fallback end_turn_or_agent_handler r))))))))"

section \<open>Lemmas\<close>

lemma cycle_phase_value_nonempty [simp]: "cycle_phase_value p \<noteq> []"
  by (cases p) simp_all

lemma scope_push_phase [simp]:
  "scope_push scope RL_PHASE (cycle_phase_value p) = Inr (scope @ [\<lparr>rf_level = RL_PHASE, rf_name = cycle_phase_value p\<rparr>])"
  by (simp add: scope_push_Inr)

lemma scope_push_cycle [simp]:
  "scope_push scope RL_CYCLE (''cycle_'' @ n) = Inr (scope @ [\<lparr>rf_level = RL_CYCLE, rf_name = ''cycle_'' @ n\<rparr>])"
  by (simp add: scope_push_Inr)

text \<open>A handler that ends the nearest frame of a level goes through the trap unchanged.\<close>

lemma trap_boundary_end_frame:
  assumes "handler_for (rx_reason e) registry = Inr (end_frame_handler level)"
    and "scope_nearest scope level = Some f"
  shows "trap_boundary registry e scope False w =
    Some (w, Inr \<lparr>bd_transfer = \<lparr>tr_action = END, tr_target = f\<rparr>, bd_failure = None, bd_stopped = False\<rparr>)"
proof -
  have "end_frame_handler level (snap_of_exception e scope None) w
      = (w, Inr \<lparr>tres_transfer = \<lparr>tr_action = END, tr_target = f\<rparr>, tres_signals = []\<rparr>)"
    using assms(2) by (simp add: end_frame_handler_def nearest_or_raise_def snap_of_exception_def
        mk_result_def transfer_end_def mk_transfer_def)
  from end_frame.capture_passes [OF assms(1) this]
  have "trap_capture registry e scope None w
      = (w, Inr \<lparr>tres_transfer = \<lparr>tr_action = END, tr_target = f\<rparr>, tres_signals = []\<rparr>)" by simp
  then show ?thesis by (simp add: trap_boundary_def task_simps emit_all_def)
qed

text \<open>The exact handlers a registry holds are never replaced by a later registration.\<close>

definition keeps_handlers ::
  "('h trap_registry \<Rightarrow> exn + 'h trap_registry) \<Rightarrow> bool" where
  "keeps_handlers install = (\<forall>r r' k h. install r = Inr r' \<longrightarrow> map_of (reg_exact r) k = Some h
     \<longrightarrow> map_of (reg_exact r') k = Some h)"

lemma keeps_handlers_registrations:
  "keeps_handlers (register_exact k h)" "keeps_handlers (register_prefix k h)"
  "keeps_handlers (register_fallback h)" "keeps_handlers Inr"
  "keeps_handlers f \<Longrightarrow> keeps_handlers g \<Longrightarrow> keeps_handlers (\<lambda>r. bind_r (f r) g)"
proof -
  show "keeps_handlers (register_exact k h)"
    by (auto simp: keeps_handlers_def register_exact_def bind_r_Inr_iff update_conv' split: if_splits)
      (metis map_of_eq_None_iff option.distinct(1))
  show "keeps_handlers f \<Longrightarrow> keeps_handlers g \<Longrightarrow> keeps_handlers (\<lambda>r. bind_r (f r) g)"
    by (fastforce simp: keeps_handlers_def bind_r_Inr_iff)
qed (auto simp: keeps_handlers_def register_prefix_def register_fallback_def bind_r_Inr_iff split: if_splits)

lemma register_exact_stored:
  "register_exact k h r = Inr r' \<Longrightarrow> normalize_key k = Inr k' \<Longrightarrow> map_of (reg_exact r') k' = Some h"
  by (auto simp: register_exact_def update_conv' split: if_splits)

lemma handler_for_stored:
  "normalize_key k = Inr k' \<Longrightarrow> map_of (reg_exact r) k' = Some h \<Longrightarrow> handler_for k r = Inr h"
  by (simp add: handler_for_def)

lemma user_turn_registry_handlers:
  assumes reg: "user_turn_registry recover install = Inr r" and keep: "keeps_handlers install"
  shows "handler_for runtime_agent_end r = Inr (end_frame_handler RL_AGENT)"
    and "handler_for runtime_turn_end r = Inr (end_frame_handler RL_TURN)"
    and "handler_for loop_budget_required r = Inr budget_suspend_handler"
proof -
  have norm: "normalize_key runtime_agent_end = Inr runtime_agent_end"
    "normalize_key runtime_turn_end = Inr runtime_turn_end"
    "normalize_key loop_budget_required = Inr loop_budget_required" by code_simp+
  obtain r1 r2 r3 r4 r5 r6 r7 r8 where
    steps: "register_exact loop_budget_required budget_suspend_handler empty_registry = Inr r1"
      "register_exact runtime_turn_end (end_frame_handler RL_TURN) r1 = Inr r2"
      "register_exact runtime_cycle_end (end_frame_handler RL_CYCLE) r2 = Inr r3"
      "register_exact runtime_agent_end (end_frame_handler RL_AGENT) r3 = Inr r4"
      "register_exact runtime_startup_failed (end_frame_handler RL_AGENT) r4 = Inr r5"
      "register_exact context_compression_required (context_pressure_handler recover) r5 = Inr r6"
      "register_exact llm_context_capacity_exceeded (context_pressure_handler recover) r6 = Inr r7"
      "install r7 = Inr r8" "register_fallback end_turn_or_agent_handler r8 = Inr r"
    using reg by (auto simp: user_turn_registry_def bind_r_Inr_iff)
  note step = keeps_handlers_def [THEN iffD1, rule_format]
  note ex = step [OF keeps_handlers_registrations(1)]
  have up: "map_of (reg_exact r4) k = Some h \<Longrightarrow> map_of (reg_exact r) k = Some h" for k h
    using steps by (blast intro: ex step [OF keeps_handlers_registrations(3)] step [OF keep])
  have "map_of (reg_exact r4) runtime_agent_end = Some (end_frame_handler RL_AGENT)"
    by (rule register_exact_stored [OF steps(4) norm(1)])
  then show "handler_for runtime_agent_end r = Inr (end_frame_handler RL_AGENT)"
    by (rule handler_for_stored [OF norm(1) up])
  have "map_of (reg_exact r2) runtime_turn_end = Some (end_frame_handler RL_TURN)"
    by (rule register_exact_stored [OF steps(2) norm(2)])
  then have "map_of (reg_exact r4) runtime_turn_end = Some (end_frame_handler RL_TURN)"
    using steps by (blast intro: ex)
  then show "handler_for runtime_turn_end r = Inr (end_frame_handler RL_TURN)"
    by (rule handler_for_stored [OF norm(2) up])
  have "map_of (reg_exact r1) loop_budget_required = Some budget_suspend_handler"
    by (rule register_exact_stored [OF steps(1) norm(3)])
  then have "map_of (reg_exact r4) loop_budget_required = Some budget_suspend_handler"
    using steps by (blast intro: ex)
  then show "handler_for loop_budget_required r = Inr budget_suspend_handler"
    by (rule handler_for_stored [OF norm(3) up])
qed

lemma take_requests_step:
  assumes "consume_control_signal_requests bus = (bus', Inr pairs)"
  shows "take_requests scope (w, bus) = Some ((w, bus'), Inr (own_requests scope pairs))"
  using assms by (simp add: take_requests_def task_simps)

lemma own_requests_push:
  "rf_level f \<noteq> RL_TURN \<Longrightarrow> own_requests (scope @ [f]) pairs = own_requests scope pairs"
  by (simp add: own_requests_def scope_nearest_push)

text \<open>A boundary with a control request of its own Turn: it ends the Agent, or else the Turn.\<close>

lemma cycle_boundary_request:
  assumes handlers: "handler_for runtime_agent_end (cy_registry env) = Inr (end_frame_handler RL_AGENT)"
      "handler_for runtime_turn_end (cy_registry env) = Inr (end_frame_handler RL_TURN)"
    and frames: "scope_nearest scope RL_AGENT = Some agent" "scope_nearest scope RL_TURN = Some turn"
    and requests: "consume_control_signal_requests bus = (bus', Inr pairs)" "own_requests scope pairs \<noteq> []"
  shows "cycle_boundary env scope (w, bus) = Some ((w, bus'), Inr (Some
    (if EXIT_PROGRAM \<in> set (own_requests scope pairs)
     then \<lparr>bd_transfer = \<lparr>tr_action = END, tr_target = agent\<rparr>, bd_failure = None, bd_stopped = False\<rparr>
     else \<lparr>bd_transfer = \<lparr>tr_action = END, tr_target = turn\<rparr>, bd_failure = None, bd_stopped = True\<rparr>)))"
proof -
  have exit: "exit_boundary env scope src u = Some (u, Inr
      \<lparr>bd_transfer = \<lparr>tr_action = END, tr_target = agent\<rparr>, bd_failure = None, bd_stopped = False\<rparr>)" for src u
    unfolding exit_boundary_def
    by (rule trap_boundary_end_frame [where level = RL_AGENT]) (simp_all add: end_exception_def handlers(1) frames(1))
  have stop: "stop_boundary env scope src u = Some (u, Inr
      \<lparr>bd_transfer = \<lparr>tr_action = END, tr_target = turn\<rparr>, bd_failure = None, bd_stopped = True\<rparr>)" for src u
  proof -
    have "trap_boundary (cy_registry env) (end_exception runtime_turn_end ''Turn stop requested.'' src) scope False u
      = Some (u, Inr \<lparr>bd_transfer = \<lparr>tr_action = END, tr_target = turn\<rparr>, bd_failure = None, bd_stopped = False\<rparr>)"
      by (rule trap_boundary_end_frame [where level = RL_TURN]) (simp_all add: end_exception_def handlers(2) frames(2))
    then show ?thesis by (simp add: stop_boundary_def task_simps)
  qed
  have "STOP_TURN \<in> set (own_requests scope pairs)" if "EXIT_PROGRAM \<notin> set (own_requests scope pairs)"
    using requests(2) that by (metis list.set_intros(1) loop_control_kind.exhaust neq_Nil_conv)
  then show ?thesis
    by (simp add: cycle_boundary_def task_simps take_requests_step [OF requests(1)] exit stop)
qed

section \<open>The order of the phases\<close>

text \<open>
  An observer of the world: a log that only the phase units write, each its number once when it is
  entered. \<open>run_logs\<close> says what a task adds to the log, with the result it ends in.
\<close>

definition run_logs ::
  "('w \<Rightarrow> nat list) \<Rightarrow> ('w world, 'a) task \<Rightarrow> (nat list \<Rightarrow> exn + 'a \<Rightarrow> bool) \<Rightarrow> bool" where
  "run_logs lg m R = (\<forall>w w' r. m w = Some (w', r) \<longrightarrow> (\<exists>xs. lg (fst w') = lg (fst w) @ xs \<and> R xs r))"

abbreviation quiet_task :: "('w \<Rightarrow> nat list) \<Rightarrow> ('w world, 'a) task \<Rightarrow> bool" where
  "quiet_task lg m \<equiv> run_logs lg m (\<lambda>xs r. xs = [])"

definition cycle_logged :: "('w \<Rightarrow> nat list) \<Rightarrow> ('w, 'c, 'n, 'r) cycle_env \<Rightarrow> bool" where
  "cycle_logged lg env =
     ((\<forall>reason h snap w. handler_for reason (cy_registry env) = Inr h \<longrightarrow> lg (fst (fst (h snap w))) = lg (fst w))
      \<and> (\<forall>scope. quiet_task lg (cy_consume env scope))
      \<and> (\<forall>w. lg (fst (fst (cy_merge env w))) = lg (fst w))
      \<and> (\<forall>scope c f. run_logs lg (cy_phase1 env scope c f) (\<lambda>xs r. xs = [1]))
      \<and> (\<forall>d n scope c t. run_logs lg (cy_phase2 env d n scope c t) (\<lambda>xs r. xs = [2]))
      \<and> (\<forall>n scope c t. run_logs lg (cy_phase3 env n scope c t) (\<lambda>xs r. xs = [3])))"

lemma run_logsD: "run_logs lg m R \<Longrightarrow> m w = Some (w', r) \<Longrightarrow> \<exists>xs. lg (fst w') = lg (fst w) @ xs \<and> R xs r"
  unfolding run_logs_def by blast

lemma run_logs_weaken: "run_logs lg m R \<Longrightarrow> (\<And>xs r. R xs r \<Longrightarrow> S xs r) \<Longrightarrow> run_logs lg m S"
  unfolding run_logs_def by meson

lemma run_logs_then:
  assumes "run_logs lg m R" "\<And>r. run_logs lg (k r) (S r)" "\<And>ys r zs r'. R ys r \<Longrightarrow> S r zs r' \<Longrightarrow> T (ys @ zs) r'"
  shows "run_logs lg (task_then m k) T"
  unfolding run_logs_def
proof (intro allI impI)
  fix w w' r'
  assume "task_then m k w = Some (w', r')"
  then obtain w1 r where m: "m w = Some (w1, r)" and k: "k r w1 = Some (w', r')" by (auto simp: task_then_Some)
  from run_logsD [OF assms(1) m] run_logsD [OF assms(2) k]
  show "\<exists>xs. lg (fst w') = lg (fst w) @ xs \<and> T xs r'" using assms(3) by fastforce
qed

lemma run_logs_bind:
  assumes "run_logs lg m R" "\<And>a. run_logs lg (k a) (S a)"
    and "\<And>ys e. R ys (Inl e) \<Longrightarrow> T ys (Inl e)" "\<And>ys a zs r. R ys (Inr a) \<Longrightarrow> S a zs r \<Longrightarrow> T (ys @ zs) r"
  shows "run_logs lg (task_bind m k) T"
  unfolding task_bind_def
proof (rule run_logs_then [OF assms(1)])
  show "run_logs lg (case r of Inl e \<Rightarrow> task_raise e | Inr a \<Rightarrow> k a)
      (\<lambda>zs r'. case r of Inl e \<Rightarrow> zs = [] \<and> r' = Inl e | Inr a \<Rightarrow> S a zs r')" for r
    using assms(2) by (cases r) (auto simp: run_logs_def task_simps)
  show "T (ys @ zs) r'" if "R ys r" "case r of Inl e \<Rightarrow> zs = [] \<and> r' = Inl e | Inr a \<Rightarrow> S a zs r'" for ys r zs r'
    using that assms(3,4) by (cases r) auto
qed

lemma quiet_basic [simp, intro]:
  "quiet_task lg (task_return a)" "quiet_task lg (task_raise e)" "quiet_task lg (task_sum s)"
  by (simp_all add: run_logs_def task_simps)

lemma quiet_call: "(\<And>w. lg (fst (fst (f w))) = lg (fst w)) \<Longrightarrow> quiet_task lg (task_call f)"
  unfolding run_logs_def task_call_def by (metis append_Nil2 fst_conv option.inject)

lemma quiet_emit [simp, intro]: "quiet_task lg (task_update (emit_all ss))"
  by (simp add: run_logs_def task_simps emit_all_def)

lemma quiet_bind: "quiet_task lg m \<Longrightarrow> (\<And>a. quiet_task lg (k a)) \<Longrightarrow> quiet_task lg (task_bind m k)"
  by (rule run_logs_bind [where S = "\<lambda>a xs r. xs = []"]) auto

lemma quiet_then: "quiet_task lg m \<Longrightarrow> (\<And>r. quiet_task lg (k r)) \<Longrightarrow> quiet_task lg (task_then m k)"
  by (rule run_logs_then [where S = "\<lambda>r xs r'. xs = []"]) auto

lemma cycle_logged_facts:
  assumes "cycle_logged lg env"
  shows "handler_for reason (cy_registry env) = Inr h \<Longrightarrow> lg (fst (fst (h snap w))) = lg (fst w)"
    and "quiet_task lg (cy_consume env scope)"
    and "lg (fst (fst (cy_merge env w))) = lg (fst w)"
    and "run_logs lg (cy_phase1 env scope c f) (\<lambda>xs r. xs = [1])"
    and "run_logs lg (cy_phase2 env d n scope c t) (\<lambda>xs r. xs = [2])"
    and "run_logs lg (cy_phase3 env m scope c t) (\<lambda>xs r. xs = [3])"
  using assms unfolding cycle_logged_def by blast+

lemma quiet_boundary:
  assumes "cycle_logged lg env"
  shows "quiet_task lg (trap_boundary (cy_registry env) e scope f)"
    and "quiet_task lg (trap_raised (cy_registry env) r scope)"
    and "quiet_task lg (cycle_boundary env scope)"
    and "quiet_task lg (cancelled_outcome env cycle_id scope)"
proof -
  have "lg (fst (fst (trap_capture (cy_registry env) e scope None w))) = lg (fst w)" for e and scope and w
  proof (cases "handler_for (rx_reason e) (cy_registry env)")
    case (Inr h)
    with cycle_logged_facts(1) [OF assms Inr, of "snap_of_exception e scope None" w]
    show ?thesis by (cases "h (snap_of_exception e scope None) w")
      (simp add: trap_capture_def snap_of_exception_def Let_def split: sum.split)
  qed (simp add: trap_capture_def snap_of_exception_def)
  then have capture: "quiet_task lg (task_call (trap_capture (cy_registry env) e scope None))" for e scope
    by (rule quiet_call)
  show trap: "quiet_task lg (trap_boundary (cy_registry env) e scope f)" for e scope f
    unfolding trap_boundary_def by (intro quiet_bind capture quiet_emit quiet_basic)
  show raised: "quiet_task lg (trap_raised (cy_registry env) r scope)" for r scope
    by (cases r) (simp_all add: trap_raised_def trap)
  have some: "quiet_task lg (task_bind m (\<lambda>b. task_return (Some b)))" if "quiet_task lg m"
    for m :: "('a world, boundary) task" using that by (intro quiet_bind quiet_basic)
  have exit: "quiet_task lg (exit_boundary env scope src)" "quiet_task lg (stop_boundary env scope src)" for scope src
    unfolding exit_boundary_def stop_boundary_def by (intro quiet_bind trap quiet_basic)+
  have pending: "quiet_task lg (apply_pending env scope)" for scope
    unfolding apply_pending_def
  proof (rule quiet_then)
    show "quiet_task lg (task_bind (cy_consume env scope) (\<lambda>_. task_call (cy_merge env)))"
      by (intro quiet_bind cycle_logged_facts(2) [OF assms] quiet_call cycle_logged_facts(3) [OF assms])
    show "quiet_task lg (case r of
       Inr _ \<Rightarrow> task_return None
     | Inl (RuntimeTransferInterrupt t cause) \<Rightarrow>
         task_bind (task_sum (from_interrupt t cause)) (\<lambda>b. task_return (Some b))
     | Inl (RuntimeException x) \<Rightarrow>
         task_bind (trap_boundary (cy_registry env) x scope True) (\<lambda>b. task_return (Some b))
     | Inl (ContextException f) \<Rightarrow>
         task_bind (trap_raised (cy_registry env) (from_context_error f) scope) (\<lambda>b. task_return (Some b))
     | Inl e \<Rightarrow> task_raise e)" for r :: "exn + unit"
    proof (cases r)
      case (Inl e)
      then show ?thesis by (cases e) (simp_all add: some trap raised)
    qed simp
  qed
  have take: "quiet_task lg (take_requests scope)" for scope
    unfolding take_requests_def by (intro quiet_bind quiet_call quiet_basic) (simp split: prod.split)
  show boundary: "quiet_task lg (cycle_boundary env scope)" for scope
    unfolding cycle_boundary_def
  proof (rule quiet_then [OF take])
    show "quiet_task lg (case r of
       Inl (LoopContractError m) \<Rightarrow>
         task_bind (trap_raised (cy_registry env) (from_loop_error (LoopContractError m) []) scope)
           (\<lambda>b. task_return (Some b))
     | Inl e \<Rightarrow> task_raise e
     | Inr kinds \<Rightarrow>
         (if EXIT_PROGRAM \<in> set kinds
          then task_bind (exit_boundary env scope ''loop.control'') (\<lambda>b. task_return (Some b))
          else if STOP_TURN \<in> set kinds
          then task_bind (stop_boundary env scope ''loop.control'') (\<lambda>b. task_return (Some b))
          else apply_pending env scope))" for r
    proof (cases r)
      case (Inl e)
      then show ?thesis by (cases e) (simp_all add: some raised)
    qed (simp add: some exit pending)
  qed
  show "quiet_task lg (cancelled_outcome env cycle_id scope)"
    unfolding cancelled_outcome_def
  proof (intro quiet_bind boundary)
    show "quiet_task lg (case b of
         Some b \<Rightarrow> task_return b
       | None \<Rightarrow> (\<lambda>w.
           if Option.bind (cy_cancellation env w) tc_kind = Some EXIT_PROGRAM
           then exit_boundary env scope ''loop.cancel'' w
           else stop_boundary env scope ''loop.cancel'' w))" for b
      using exit unfolding run_logs_def by (cases b) (simp_all add: task_simps)
  qed (rule quiet_basic)
qed

text \<open>One pass enters its phase at most once, and a pass with a value has entered it.\<close>

lemma phase_attempt_logs:
  assumes env: "cycle_logged lg env" and phase: "run_logs lg phase (\<lambda>xs r. xs = [i])"
    and out: "phase_attempt env scope current phase w = Some a"
  shows "(\<exists>w' p n. a = Done w' (Inr p) \<and> lg (fst w') = lg (fst w) @ replicate n i \<and> (pr_value p \<noteq> None \<longrightarrow> 0 < n))
    \<or> (\<exists>w' e n. a = Done w' (Inl e) \<and> lg (fst w') = lg (fst w) @ replicate n i)
    \<or> (\<exists>w' n. a = Retry w' \<and> lg (fst w') = lg (fst w) @ replicate n i)"
proof -
  let ?R = "\<lambda>xs r. xs = [] \<and> (\<exists>e. r = Inl e) \<or> xs = [i]"
  have both: "run_logs lg (task_bind (cy_consume env scope) (\<lambda>_. phase)) ?R"
    by (rule run_logs_bind [OF cycle_logged_facts(2) [OF env] phase]) auto
  obtain w1 r where m: "task_bind (cy_consume env scope) (\<lambda>_. phase) w = Some (w1, r)"
    using out by (cases "task_bind (cy_consume env scope) (\<lambda>_. phase) w") (auto simp: phase_attempt_def)
  obtain n where n: "lg (fst w1) = lg (fst w) @ replicate n i" and pos: "r = Inr v \<longrightarrow> 0 < n" for v
  proof -
    from run_logsD [OF both m] obtain xs where "lg (fst w1) = lg (fst w) @ xs" "?R xs r" by blast
    then show thesis using that [of "length xs"] by (cases "xs = []") auto
  qed
  have settle: "(\<exists>p. settle_phase current b w2 = Done w2 (Inr p) \<and> pr_value p = None)
      \<or> (\<exists>e. settle_phase current b w2 = Done w2 (Inl e)) \<or> settle_phase current b w2 = Retry w2"
    for b and w2 :: "'a world"
    by (simp add: settle_phase_def mk_phase_run_def)
  show ?thesis
  proof (cases r)
    case (Inr v)
    with out m have "a = Done w1 (Inr (mk_phase_run\<lparr>pr_value := Some v\<rparr>))" by (simp add: phase_attempt_def)
    with n pos Inr show ?thesis by blast
  next
    case (Inl e)
    with out m have out': "phase_raised env scope current e w1 = Some a" by (simp add: phase_attempt_def)
    show ?thesis
    proof (cases "\<exists>x. e = RuntimeException x")
      case True
      then obtain x where x: "e = RuntimeException x" ..
      with out' obtain w2 r2 where t: "trap_boundary (cy_registry env) x scope True w1 = Some (w2, r2)"
        by (auto simp: phase_raised_def split: option.splits)
      from run_logsD [OF quiet_boundary(1) [OF env] t] n
      have n2: "lg (fst w2) = lg (fst w) @ replicate n i" by simp
      show ?thesis
      proof (cases r2)
        case (Inl err)
        with out' x t have "a = Done w2 (Inl err)" by (simp add: phase_raised_def)
        with n2 show ?thesis by blast
      next
        case (Inr b)
        with out' x t have "a = settle_phase current b w2" by (simp add: phase_raised_def)
        with settle [of b w2] n2 show ?thesis by metis
      qed
    next
      case False
      with out' have "(\<exists>p. a = Done w1 (Inr p) \<and> pr_value p = None) \<or> (\<exists>e. a = Done w1 (Inl e))
          \<or> (\<exists>b. a = settle_phase current b w1)"
        by (cases e) (auto simp: phase_raised_def mk_phase_run_def split: sum.splits)
      with settle n show ?thesis by metis
    qed
  qed
qed

lemma phase_loop_logs:
  assumes env: "cycle_logged lg env" and phase: "run_logs lg phase (\<lambda>xs r. xs = [i])"
    and out: "phase_loop env scope current phase w = Some out"
  shows "\<exists>n. lg (fst (fst out)) = lg (fst w) @ replicate n i
    \<and> (\<forall>p. snd out = Inr p \<and> pr_value p \<noteq> None \<longrightarrow> 0 < n)"
proof -
  let ?Q = "\<lambda>w out. \<exists>n. lg (fst (fst out)) = lg (fst w) @ replicate n i
    \<and> (\<forall>p. snd out = Inr p \<and> pr_value p \<noteq> None \<longrightarrow> 0 < n)"
  let ?P = "\<lambda>e s c f w out. e = env \<and> s = scope \<and> c = current \<and> f = phase \<longrightarrow> ?Q w out"
  have "?P env scope current phase w out"
  proof (rule phase_loop.raw_induct [where P = ?P, OF _ out], intro impI)
    fix loop e s c f w out
    assume IH: "\<And>e s c f w out. loop e s c f w = Some out \<Longrightarrow> ?P e s c f w out"
      and eq: "(case phase_attempt e s c f w of None \<Rightarrow> None
        | Some (Done w' r) \<Rightarrow> Some (w', r) | Some (Retry w') \<Rightarrow> loop e s c f w') = Some out"
      and args: "e = env \<and> s = scope \<and> c = current \<and> f = phase"
    obtain a where a: "phase_attempt env scope current phase w = Some a"
      using eq args by (cases "phase_attempt env scope current phase w") auto
    from phase_attempt_logs [OF env phase a] show "?Q w out"
    proof (elim disjE exE conjE)
      fix w' p n
      assume "a = Done w' (Inr p)" "lg (fst w') = lg (fst w) @ replicate n i" "pr_value p \<noteq> None \<longrightarrow> 0 < n"
      with eq args a show ?thesis by auto
    next
      fix w' e n
      assume "a = Done w' (Inl e)" "lg (fst w') = lg (fst w) @ replicate n i"
      with eq args a show ?thesis by auto
    next
      fix w' n
      assume r: "a = Retry w'" "lg (fst w') = lg (fst w) @ replicate n i"
      with eq args a have "loop e s c f w' = Some out" by simp
      from IH [OF this] args have "?Q w' out" by blast
      then obtain m where "lg (fst (fst out)) = lg (fst w') @ replicate m i"
        "\<forall>p. snd out = Inr p \<and> pr_value p \<noteq> None \<longrightarrow> 0 < m" by blast
      with r(2) show ?thesis by (intro exI [of _ "n + m"]) (simp add: replicate_add)
    qed
  qed
  then show ?thesis by blast
qed

lemma run_phase_logs:
  assumes "cycle_logged lg env" and "run_logs lg phase (\<lambda>xs r. xs = [i])"
  shows "run_logs lg (run_phase env scope phase)
    (\<lambda>xs r. \<exists>n. xs = replicate n i \<and> (\<forall>p. r = Inr p \<and> pr_value p \<noteq> None \<longrightarrow> 0 < n))"
proof (cases "scope_current scope")
  case None
  then show ?thesis by (simp add: run_phase_def run_logs_def task_simps)
next
  case (Some current)
  then show ?thesis
    using phase_loop_logs [OF assms, of scope current] by (fastforce simp: run_phase_def run_logs_def)
qed

text \<open>A step of the Cycle: its phase some times, then what follows a value; without one, an end.\<close>

definition ends_cycle :: "exn + cycle_outcome \<Rightarrow> bool" where
  "ends_cycle r = (case r of Inl e \<Rightarrow> True
   | Inr out \<Rightarrow> cc_completion out = None \<and> cc_question out = None \<and> cc_wait out = None)"

lemma ends_cycle_simps [simp]:
  "ends_cycle (Inl e)" "ends_cycle (Inr (boundary_outcome c b))" "ends_cycle (Inr (phase_failed c f))"
  "ends_cycle (Inr ((mk_cycle_outcome c)\<lparr>cc_transfer := t, cc_failure := u\<rparr>))"
  "ends_cycle (Inr ((mk_cycle_outcome c)\<lparr>cc_failure := u\<rparr>))"
  by (simp_all add: ends_cycle_def boundary_outcome_def phase_failed_def mk_cycle_outcome_def)

lemma cancelled_outcome_ends: "cancelled_outcome env c scope w = Some (w', r) \<Longrightarrow> ends_cycle r"
  unfolding cancelled_outcome_def task_bind_Some by (elim disjE exE conjE) (simp_all add: task_simps, auto)

lemma cycle_phase_step_logs:
  assumes env: "cycle_logged lg env" and phase: "run_logs lg phase (\<lambda>xs r. xs = [i])"
    and rest: "\<And>v. run_logs lg (rest v) R"
  shows "run_logs lg (cycle_phase_step env c scope phase rest)
    (\<lambda>xs r. (\<exists>n. xs = replicate n i \<and> ends_cycle r) \<or> (\<exists>n ys. 0 < n \<and> xs = replicate n i @ ys \<and> R ys r))"
proof -
  let ?after = "\<lambda>p. if pr_cancelled p then cancelled_outcome env c scope
     else case pr_transfer p of
       Some t \<Rightarrow> task_return ((mk_cycle_outcome c)\<lparr>cc_transfer := Some t, cc_failure := pr_failure p\<rparr>)
     | None \<Rightarrow>
         (if pr_ended p then task_return ((mk_cycle_outcome c)\<lparr>cc_failure := pr_failure p\<rparr>)
          else case pr_value p of
            None \<Rightarrow> task_raise (loop_invariant ''Phase returned an invalid outcome'')
          | Some v \<Rightarrow> rest v)"
  let ?A = "\<lambda>p xs r. xs = [] \<and> ends_cycle r \<or> pr_value p \<noteq> None \<and> R xs r"
  have after: "run_logs lg (?after p) (?A p)" for p
  proof (cases "pr_cancelled p")
    case True
    have "run_logs lg (cancelled_outcome env c scope) (\<lambda>xs r. xs = [] \<and> ends_cycle r)"
      using quiet_boundary(4) [OF env, of c scope] cancelled_outcome_ends unfolding run_logs_def by metis
    with True show ?thesis by (simp add: run_logs_weaken)
  next
    case False
    show ?thesis
    proof (cases "pr_transfer p = None \<and> \<not> pr_ended p \<and> pr_value p \<noteq> None")
      case True
      then obtain v where "pr_value p = Some v" by blast
      with True False rest [of v] show ?thesis by (simp add: run_logs_weaken)
    next
      case no: False
      with False show ?thesis
        by (cases "pr_transfer p"; cases "pr_value p") (auto simp: run_logs_def task_simps)
    qed
  qed
  show ?thesis
    unfolding cycle_phase_step_def
    by (rule run_logs_bind [OF run_phase_logs [OF env phase] after]) auto
qed

lemma cycle_gate_logs:
  assumes "cycle_logged lg env" "run_logs lg rest R"
  shows "run_logs lg (cycle_gate env c scope rest) (\<lambda>xs r. xs = [] \<and> ends_cycle r \<or> R xs r)"
  unfolding cycle_gate_def
proof (rule run_logs_bind [OF quiet_boundary(3) [OF assms(1)]])
  show "run_logs lg (case b of Some b \<Rightarrow> task_return (boundary_outcome c b) | None \<Rightarrow> rest)
      (\<lambda>xs r. xs = [] \<and> ends_cycle r \<or> R xs r)" for b
  proof (cases b)
    case None
    with assms(2) show ?thesis by (simp add: run_logs_weaken)
  qed (simp add: run_logs_def task_simps)
qed auto

lemma cycle_phase3_logs:
  assumes env: "cycle_logged lg env"
  shows "run_logs lg (cycle_phase3 env t c scope o2)
    (\<lambda>xs r. \<exists>n. xs = replicate n 3 \<and> (ends_cycle r \<or> 0 < n))"
  unfolding cycle_phase3_def phase_scope_def scope_push_phase
  by (rule run_logs_bind [OF quiet_basic(3)],
      rule cycle_phase_step_logs [OF env cycle_logged_facts(6) [OF env] cycle_gate_logs [OF env quiet_basic(1)]])
    auto

lemma cycle_phase2_logs:
  assumes env: "cycle_logged lg env"
  shows "run_logs lg (cycle_phase2 env t c scope o1)
    (\<lambda>xs r. \<exists>m n. xs = replicate m 2 @ replicate n 3 \<and> (0 < n \<longrightarrow> 0 < m) \<and> (ends_cycle r \<or> 0 < n))"
proof -
  let ?R = "\<lambda>xs r. \<exists>n. xs = replicate n 3 \<and> (ends_cycle r \<or> 0 < n)"
  have rest: "run_logs lg (case p2_failure o2 of
       Some f \<Rightarrow> task_return (phase_failed c f)
     | None \<Rightarrow> cycle_gate env c s (cycle_phase3 env t c scope o2)) ?R" for o2 s
  proof (cases "p2_failure o2")
    case None
    have "run_logs lg (cycle_gate env c s (cycle_phase3 env t c scope o2)) ?R"
      by (rule run_logs_weaken [OF cycle_gate_logs [OF env cycle_phase3_logs [OF env]]]) auto
    with None show ?thesis by simp
  qed (simp add: run_logs_def task_simps)
  show ?thesis
    unfolding cycle_phase2_def phase_scope_def scope_push_phase
    by (rule run_logs_bind [OF quiet_basic(3)],
        rule cycle_phase_step_logs [OF env cycle_logged_facts(5) [OF env] rest]) force+
qed

lemma cycle_phase1_logs:
  assumes env: "cycle_logged lg env"
  shows "run_logs lg (cycle_phase1 env t c feedback scope)
    (\<lambda>xs r. \<exists>k m n. xs = replicate k 1 @ replicate m 2 @ replicate n 3
       \<and> (0 < m \<longrightarrow> 0 < k) \<and> (0 < n \<longrightarrow> 0 < m) \<and> (ends_cycle r \<or> 0 < n))"
proof -
  let ?R = "\<lambda>xs r. \<exists>m n. xs = replicate m 2 @ replicate n 3 \<and> (0 < n \<longrightarrow> 0 < m) \<and> (ends_cycle r \<or> 0 < n)"
  have rest: "run_logs lg (case p1_failure o1 of
       Some f \<Rightarrow> task_return (phase_failed c f)
     | None \<Rightarrow> cycle_gate env c s (cycle_phase2 env t c scope o1)) ?R" for o1 s
  proof (cases "p1_failure o1")
    case None
    have "run_logs lg (cycle_gate env c s (cycle_phase2 env t c scope o1)) ?R"
      by (rule run_logs_weaken [OF cycle_gate_logs [OF env cycle_phase2_logs [OF env]]]) auto
    with None show ?thesis by simp
  qed (simp add: run_logs_def task_simps)
  show ?thesis
    unfolding cycle_phase1_def phase_scope_def scope_push_phase
    by (rule run_logs_bind [OF quiet_basic(3)],
        rule cycle_phase_step_logs [OF env cycle_logged_facts(4) [OF env] rest]) force+
qed

lemma cycle_run_logs:
  assumes env: "cycle_logged lg env"
  shows "run_logs lg (cycle_run env t i scope feedback)
    (\<lambda>xs r. \<exists>k m n. xs = replicate k 1 @ replicate m 2 @ replicate n 3
       \<and> (0 < m \<longrightarrow> 0 < k) \<and> (0 < n \<longrightarrow> 0 < m) \<and> (ends_cycle r \<or> 0 < n))"
proof (cases "i \<le> 0")
  case False
  show ?thesis
    unfolding cycle_run_def Let_def scope_push_cycle if_not_P [OF False]
    by (rule run_logs_bind [OF quiet_basic(3)], rule cycle_gate_logs [OF env cycle_phase1_logs [OF env]]) auto
qed (simp add: cycle_run_def run_logs_def task_simps)

section \<open>Properties\<close>

text \<open>
  C26: a Cycle runs its phases in order. Watched through a log that only the phases write, a Cycle
  that ends adds some entries of Phase 1, then of Phase 2, then of Phase 3 (a phase is entered again
  when a trap retries it); it enters Phase 2 only after Phase 1 and Phase 3 only after Phase 2; and
  it reports a completion, a question or a wait only if Phase 3 has run.
\<close>

theorem cycle_phases_in_order:
  assumes "cycle_logged lg env" and "cycle_run env turn_id i scope feedback w = Some (w', r)"
  shows "\<exists>k m n. lg (fst w') = lg (fst w) @ replicate k 1 @ replicate m 2 @ replicate n 3
    \<and> (0 < m \<longrightarrow> 0 < k) \<and> (0 < n \<longrightarrow> 0 < m)
    \<and> (\<forall>out. r = Inr out \<and> (cc_completion out \<noteq> None \<or> cc_question out \<noteq> None \<or> cc_wait out \<noteq> None) \<longrightarrow> 0 < n)"
proof -
  from run_logsD [OF cycle_run_logs [OF assms(1)] assms(2)] obtain k m n where
    "lg (fst w') = lg (fst w) @ replicate k 1 @ replicate m 2 @ replicate n 3"
    "0 < m \<longrightarrow> 0 < k" "0 < n \<longrightarrow> 0 < m" "ends_cycle r \<or> 0 < n" by blast
  then show ?thesis by (intro exI [of _ k] exI [of _ m] exI [of _ n]) (auto simp: ends_cycle_def)
qed

text \<open>A Cycle whose first phase is retried once under context pressure and that ends with an answer.\<close>

definition pressed :: runtime_exception where
  "pressed = \<lparr>rx_reason = context_compression_required, rx_message = [], rx_payload = []\<rparr>"

definition reclaim_once :: "nat list world recovery" where
  "reclaim_once payload scope w = (w, Inr \<lparr>rr_status = (if fst w = [1] then RECOVERED else NO_PROGRESS),
     rr_reclaimed_chars = 1, rr_evicted_refs = [], rr_error = [], rr_signals = []\<rparr>)"

definition sample_registry_of :: "nat list world trap_handler trap_registry" where
  "sample_registry_of = (case user_turn_registry reclaim_once Inr of Inr r \<Rightarrow> r | Inl e \<Rightarrow> empty_registry)"

definition entering :: "nat \<Rightarrow> (nat list \<Rightarrow> exn + 'a) \<Rightarrow> (nat list world, 'a) task" where
  "entering i result w = Some ((fst w @ [i], snd w), result (fst w @ [i]))"

definition sample_cycle :: "(nat list, unit, unit, unit) cycle_env" where
  "sample_cycle = \<lparr>
     cy_registry = sample_registry_of,
     cy_consume = (\<lambda>scope. task_return ()), cy_merge = (\<lambda>w. (w, Inr ())), cy_cancellation = (\<lambda>w. None),
     cy_phase1 = (\<lambda>scope c f. entering 1 (\<lambda>l. if l = [1] then Inl (RuntimeException pressed)
       else Inr \<lparr>p1_selected_domains = [''core''], p1_intent = [], p1_control_results = [],
         p1_attempts = 1, p1_failure = None\<rparr>)),
     cy_phase2 = (\<lambda>d n scope c t. entering 2 (\<lambda>l. Inr \<lparr>p2_normalization = (), p2_phase_results = [],
         p2_attempts = 1, p2_failure = None\<rparr>)),
     cy_phase3 = (\<lambda>n scope c t. entering 3 (\<lambda>l. Inr \<lparr>p3_results = [], p3_phase_results = [],
         p3_completion = Some [(''kind'', JStr ''answer'')], p3_question = None, p3_wait = None,
         p3_failure = None\<rparr>))\<rparr>"

definition sample_scope :: run_scope where
  "sample_scope = [agent_frame, turn_frame]"

text \<open>What holds of every registered handler holds of the handler a reason gets.\<close>

definition registry_all :: "('h \<Rightarrow> bool) \<Rightarrow> 'h trap_registry \<Rightarrow> bool" where
  "registry_all p r = ((\<forall>(k, h) \<in> set (reg_exact r). p h) \<and> (\<forall>(k, h) \<in> set (reg_prefix r). p h)
     \<and> (\<forall>h. reg_fallback r = Some h \<longrightarrow> p h))"

lemma registry_all_handler:
  assumes all: "registry_all p r" and h: "handler_for reason r = Inr h"
  shows "p h"
proof -
  obtain k where "map_of (reg_exact r) k = Some h \<or> match_prefix k r = Some h \<or> reg_fallback r = Some h"
    using h by (auto simp: handler_for_def bind_r_Inr_iff split: option.splits)
  then show ?thesis
  proof (elim disjE)
    assume "map_of (reg_exact r) k = Some h"
    with all show ?thesis by (auto simp: registry_all_def dest: map_of_SomeD)
  next
    assume "match_prefix k r = Some h"
    with all show ?thesis by (auto simp: registry_all_def dest: match_prefix_SomeD)
  next
    assume "reg_fallback r = Some h"
    with all show ?thesis by (simp add: registry_all_def)
  qed
qed

lemma registry_all_register:
  "registry_all p empty_registry"
  "register_exact k h r = Inr r' \<Longrightarrow> registry_all p r \<Longrightarrow> p h \<Longrightarrow> registry_all p r'"
  "register_fallback h r = Inr r' \<Longrightarrow> registry_all p r \<Longrightarrow> p h \<Longrightarrow> registry_all p r'"
proof -
  show "registry_all p empty_registry" by (simp add: registry_all_def empty_registry_def)
  show "register_fallback h r = Inr r' \<Longrightarrow> registry_all p r \<Longrightarrow> p h \<Longrightarrow> registry_all p r'"
    by (auto simp: registry_all_def register_fallback_def split: if_splits)
  assume all: "register_exact k h r = Inr r'" "registry_all p r" "p h"
  then obtain k' where "k' \<notin> set (dict_keys (reg_exact r))"
    and r': "r' = r\<lparr>reg_exact := AList.update k' h (reg_exact r)\<rparr>"
    by (auto simp: register_exact_def bind_r_Inr_iff split: if_splits)
  then have "reg_exact r' = reg_exact r @ [(k', h)]" by (simp add: update_fresh)
  with all r' show "registry_all p r'" by (auto simp: registry_all_def)
qed

lemma user_turn_registry_all:
  assumes "user_turn_registry recover Inr = Inr r" and "p budget_suspend_handler"
    and "\<And>level. p (end_frame_handler level)" and "p (context_pressure_handler recover)" and "p end_turn_or_agent_handler"
  shows "registry_all p r"
  using assms(1) unfolding user_turn_registry_def bind_r_Inr_iff
  by (elim exE conjE) (drule sum.inject(2) [THEN iffD1], hypsubst, erule registry_all_register(3), (erule registry_all_register(2))+,
      simp_all add: registry_all_register(1) assms(2-5))

lemma loop_handlers_keep_world:
  "fst (budget_suspend_handler snap w) = w" "fst (end_frame_handler level snap w) = w"
  "fst (end_turn_or_agent_handler snap w) = w"
  "fst (recover (ts_payload snap) (ts_scope snap) w) = w \<Longrightarrow> fst (context_pressure_handler recover snap w) = w"
  by (auto simp: handler_defs Let_def split: option.splits prod.splits sum.splits)

lemma sample_cycle_logged: "cycle_logged (\<lambda>l. l) sample_cycle"
proof -
  have "is_ok (user_turn_registry reclaim_once Inr)" by code_simp
  then have "user_turn_registry reclaim_once Inr = Inr sample_registry_of"
    by (auto simp: sample_registry_of_def is_ok_def split: sum.splits)
  then have "registry_all (\<lambda>h. \<forall>snap w. fst (h snap w) = w) sample_registry_of"
    by (rule user_turn_registry_all) (simp_all add: loop_handlers_keep_world reclaim_once_def)
  then have "fst (h snap w) = w" if "handler_for reason sample_registry_of = Inr h" for reason h snap w
    using registry_all_handler that by fast
  then show ?thesis
    by (simp add: cycle_logged_def sample_cycle_def run_logs_def entering_def task_simps)
qed

theorem cycle_phases_in_order_witness:
  "\<exists>out. cycle_run sample_cycle ''t'' 1 sample_scope [] ([], []) = Some (([1, 1, 2, 3], []), Inr out)
     \<and> cc_completion out = Some [(''kind'', JStr ''answer'')]
     \<and> (\<exists>k m n. [1, 1, 2, 3] = replicate k 1 @ replicate m 2 @ replicate n (3 :: nat) \<and> 0 < n)"
proof -
  let ?out = "(mk_cycle_outcome ''cycle_1'')\<lparr>cc_completion := Some [(''kind'', JStr ''answer'')]\<rparr>"
  have run: "cycle_run sample_cycle ''t'' 1 sample_scope [] ([], []) = Some (([1, 1, 2, 3], []), Inr ?out)"
    by code_simp
  from cycle_phases_in_order [OF sample_cycle_logged run] obtain k m n where
    "[1, 1, 2, 3] = replicate k 1 @ replicate m 2 @ replicate n (3 :: nat)" "0 < n"
    by (auto simp: mk_cycle_outcome_def)
  with run show ?thesis by (intro exI [of _ ?out]) (auto simp: mk_cycle_outcome_def)
qed

text \<open>
  a control request for the Turn ends it before anything else happens. Under the trap policy of
  a User Turn, a Cycle that starts with such requests on the bus runs no phase and consumes no
  Context signal (the rest of the world is untouched): it takes the control signals off the bus and
  transfers to the end of the Agent if one of the requests asks to exit, and otherwise to the end of
  the Turn, as stopped. Neither is reported as a failure.
\<close>

theorem control_request_ends_cycle:
  assumes "user_turn_registry recover install = Inr (cy_registry env)" and "keeps_handlers install"
    and "scope_nearest scope RL_AGENT = Some agent" and "scope_nearest scope RL_TURN = Some turn"
    and "0 < i" and "consume_control_signal_requests bus = (bus', Inr pairs)" and "own_requests scope pairs \<noteq> []"
  shows "cycle_run env turn_id i scope feedback (w, bus) = Some ((w, bus'), Inr
    (if EXIT_PROGRAM \<in> set (own_requests scope pairs)
     then (mk_cycle_outcome (''cycle_'' @ show_int i))\<lparr>cc_transfer := Some \<lparr>tr_action = END, tr_target = agent\<rparr>\<rparr>
     else (mk_cycle_outcome (''cycle_'' @ show_int i))
       \<lparr>cc_transfer := Some \<lparr>tr_action = END, tr_target = turn\<rparr>, cc_stopped := True\<rparr>))"
proof -
  let ?cs = "scope @ [\<lparr>rf_level = RL_CYCLE, rf_name = ''cycle_'' @ show_int i\<rparr>]"
  have own: "own_requests ?cs pairs = own_requests scope pairs" by (rule own_requests_push) simp
  have near: "scope_nearest ?cs RL_AGENT = Some agent" "scope_nearest ?cs RL_TURN = Some turn"
    using assms(3,4) by (simp_all add: scope_nearest_push)
  note step = cycle_boundary_request [OF user_turn_registry_handlers(1,2) [OF assms(1,2)] near assms(6)]
  show ?thesis
    unfolding cycle_run_def Let_def scope_push_cycle
    using assms(5,7) step [unfolded own, OF assms(7), of w]
    by (simp add: task_simps cycle_gate_def boundary_outcome_def mk_cycle_outcome_def)
qed

definition control_signal :: "loop_control_kind \<Rightarrow> run_scope \<Rightarrow> signal" where
  "control_signal kind scope = \<lparr>sig_name = signal_control_request, sig_source = ''gateway'', sig_scope = scope,
     sig_payload = [(''kind'', JStr (loop_control_value kind)), (''text'', JStr [])]\<rparr>"

theorem control_request_ends_cycle_witness:
  "cycle_run sample_cycle ''t'' 7 sample_scope [] ([], [control_signal STOP_TURN sample_scope, control_signal EXIT_PROGRAM []])
     = Some (([], []), Inr ((mk_cycle_outcome ''cycle_7'')
         \<lparr>cc_transfer := Some \<lparr>tr_action = END, tr_target = turn_frame\<rparr>, cc_stopped := True\<rparr>))"
proof -
  let ?bus = "[control_signal STOP_TURN sample_scope, control_signal EXIT_PROGRAM []]"
  let ?pairs = "[(control_signal STOP_TURN sample_scope, \<lparr>lc_kind = STOP_TURN, lc_text = []\<rparr>),
    (control_signal EXIT_PROGRAM [], \<lparr>lc_kind = EXIT_PROGRAM, lc_text = []\<rparr>)]"
  have "is_ok (user_turn_registry reclaim_once Inr)" by code_simp
  then have reg: "user_turn_registry reclaim_once Inr = Inr (cy_registry sample_cycle)"
    by (auto simp: sample_registry_of_def sample_cycle_def is_ok_def split: sum.splits)
  have own: "own_requests sample_scope ?pairs = [STOP_TURN]" by code_simp
  have "show_int 7 = ''7''" by code_simp
  moreover have "consume_control_signal_requests ?bus = ([], Inr ?pairs)" by code_simp
  moreover have "scope_nearest sample_scope RL_AGENT = Some agent_frame" "scope_nearest sample_scope RL_TURN = Some turn_frame"
    by code_simp+
  ultimately show ?thesis
    using control_request_ends_cycle [OF reg keeps_handlers_registrations(4), where scope = sample_scope
        and bus = ?bus and pairs = ?pairs and i = 7 and w = "[]"] own by simp
qed

end
