(* ===== verification/Turn_Loop.thy ===== *)
theory Turn_Loop
  imports Cycle
begin

text \<open>
  The decision loop of a Turn (tinysoul/kernel/loop/turn.py): the budget of Cycles, the wait between
  two Cycles, the consumption of the inbox as one Context batch, and what a Cycle's outcome means for
  the Turn. The inbox is the model of \<open>TurnInbox\<close>; the Context engine, the Cycle runner and the
  controller of the Turn's Jobs are parameters.

  The state of a running Turn is its local variables and the world. While \<open>wait_for_cycle\<close> sleeps,
  other tasks run: \<open>te_suspend\<close> is what they do to the world, until the wake-up, the timeout or the
  cancellation of the waiting task. Observation events are left out.
\<close>

section \<open>State\<close>

record 'w turn_ctx =
  tx_inbox :: inbox
  tx_active :: "(run_scope \<times> turn_cancellation) option"
  tx_rest :: 'w

type_synonym 'w turn_world = "'w turn_ctx world"

record turn_locals =
  tl_scope :: run_scope
  tl_output :: "turn_output option"
  tl_exhausted :: bool
  tl_transfer :: "runtime_transfer option"
  tl_failure :: "turn_failure option"
  tl_stopped :: bool
  tl_completion :: "json_object option"
  tl_cancelled :: bool
  tl_diagnostics :: "cleanup_diagnostic list"
  tl_finish_failures :: "turn_failure list"
  tl_cycle_index :: int
  tl_cycle_limit :: int
  tl_feedback :: "string list"
  tl_wait :: "wait_condition option"

type_synonym 'w turn_state = "turn_locals \<times> 'w turn_world"

record 'w activity_controller =
  ct_bind :: "string \<Rightarrow> 'w turn_world \<Rightarrow> 'w turn_world \<times> (exn + unit)"
  ct_sync :: "string \<Rightarrow> run_scope \<Rightarrow> 'w turn_world \<Rightarrow> 'w turn_world \<times> (exn + unit)"
  ct_unresolved :: "string \<Rightarrow> 'w turn_world \<Rightarrow> bool"
  ct_cleanup :: "string \<Rightarrow> ('w turn_world, cleanup_diagnostic list) task"

record ('w, 'r) loop_env =
  te_registry :: "'w turn_world trap_handler trap_registry"
  te_consumer :: "('w turn_ctx, 'r) signal_consumer"
  te_cycle :: "string \<Rightarrow> int \<Rightarrow> run_scope \<Rightarrow> string list \<Rightarrow> ('w turn_world, cycle_outcome) task"
  te_max_cycles :: int
  te_controller :: "'w activity_controller option"
  te_events :: "turn_event_subscription list"
  te_adapt :: "turn_event_subscription \<Rightarrow> environment_event \<Rightarrow> run_scope \<Rightarrow> exn + signal list"
  te_has_inbox :: bool
  te_now :: "'w turn_world \<Rightarrow> rat"
  te_statuses :: "'w turn_world \<Rightarrow> source_status list"
  te_fresh :: "'w turn_world \<Rightarrow> string"
  te_float :: "number \<Rightarrow> json"
  te_suspend :: "rat option \<Rightarrow> ('w turn_world, unit) task"

definition with_world :: "('w turn_world, 'a) task \<Rightarrow> ('w turn_state, 'a) task" where
  "with_world m s = (case m (snd s) of None \<Rightarrow> None | Some (w', r) \<Rightarrow> Some ((fst s, w'), r))"

definition set_locals :: "(turn_locals \<Rightarrow> turn_locals) \<Rightarrow> ('w turn_state, unit) task" where
  "set_locals f = task_update (\<lambda>s. (f (fst s), snd s))"

definition with_locals :: "(turn_locals \<Rightarrow> ('w turn_state, 'a) task) \<Rightarrow> ('w turn_state, 'a) task" where
  "with_locals k s = k (fst s) s"

definition inbox_exn :: "inbox_error \<Rightarrow> exn" where
  "inbox_exn e = OtherException (case e of InboxError m \<Rightarrow> ''InboxError''
     | InboxClosedError m \<Rightarrow> ''InboxClosedError'' | InboxCapacityError m \<Rightarrow> ''InboxCapacityError'')"

definition set_inbox :: "inbox \<Rightarrow> 'w turn_world \<Rightarrow> 'w turn_world" where
  "set_inbox ib w = ((fst w)\<lparr>tx_inbox := ib\<rparr>, snd w)"

definition on_inbox :: "(inbox \<Rightarrow> inbox \<times> 'a inbox_result) \<Rightarrow> ('w turn_world, 'a) task" where
  "on_inbox f w = (case f (tx_inbox (fst w)) of
     (ib, Inl e) \<Rightarrow> Some (set_inbox ib w, Inl (inbox_exn e))
   | (ib, Inr a) \<Rightarrow> Some (set_inbox ib w, Inr a))"

definition update_inbox :: "(inbox \<Rightarrow> inbox) \<Rightarrow> ('w turn_world, unit) task" where
  "update_inbox f = task_update (\<lambda>w. set_inbox (f (tx_inbox (fst w))) w)"

section \<open>Context signals of the Turn\<close>

definition sequence_json :: "nat option \<Rightarrow> json" where
  "sequence_json n = (case n of None \<Rightarrow> JNull | Some n \<Rightarrow> JInt (int n))"

definition text_json :: "string option \<Rightarrow> json" where
  "text_json t = (case t of None \<Rightarrow> JNull | Some t \<Rightarrow> JStr t)"

text \<open>\<open>build_input_append_signal\<close> and \<open>build_trace_phase_note_signal\<close> as the Turn calls them.\<close>

definition input_append_signal ::
  "(number \<Rightarrow> json) \<Rightarrow> run_scope \<Rightarrow> nat \<Rightarrow> inbox_record \<Rightarrow> string \<Rightarrow> string \<Rightarrow> question_answer option
     \<Rightarrow> exn + signal" where
  "input_append_signal encode scope sequence r content reply_to answer =
     (if content = [] then Inl (ContextException (ContextContractFault ''ContextContractError''))
      else Inr \<lparr>sig_name = ''context.input.append'', sig_source = ''loop.inbox'', sig_scope = scope,
        sig_payload = [(''text'', JStr content), (''input_id'', JStr (ir_record_id r)),
          (''reply_to'', JStr reply_to), (''admission_sequence'', JInt (int sequence)),
          (''received_at'', encode (ir_received_at r)),
          (''answer'', (case answer of None \<Rightarrow> JNull | Some a \<Rightarrow> answer_to_json a))]\<rparr>)"

definition phase_note_signal :: "json_object \<Rightarrow> run_scope \<Rightarrow> string \<Rightarrow> nat option \<Rightarrow> signal" where
  "phase_note_signal note scope source sequence =
     \<lparr>sig_name = ''context.trace.append'', sig_source = source, sig_scope = scope,
      sig_payload = [(''kind'', JStr ''phase_note''), (''cycle_id'', JStr []), (''phase'', JStr []),
        (''note'', JObj note), (''admission_sequence'', sequence_json sequence)]\<rparr>"

definition event_kind_of :: "inbox_kind \<Rightarrow> event_kind" where
  "event_kind_of k = (if k = IK_TIMER then EK_TIMER else EK_EVENT)"

fun adapt_all ::
  "(turn_event_subscription \<Rightarrow> exn + signal list) \<Rightarrow> turn_event_subscription list \<Rightarrow> exn + signal list" where
  "adapt_all f [] = Inr []"
| "adapt_all f (x # xs) = bind_r (f x) (\<lambda>ss. bind_r (adapt_all f xs) (\<lambda>rest. Inr (ss @ rest)))"

text \<open>The signals one accepted record becomes.\<close>

definition input_signals :: "('w, 'r) loop_env \<Rightarrow> run_scope \<Rightarrow> nat \<Rightarrow> inbox_record \<Rightarrow> exn + signal list" where
  "input_signals env scope sequence r =
     (case map_of (ir_payload r) ''text'' of
        Some (JStr t) \<Rightarrow>
          (case dict_get (ir_payload r) ''reply_to'' (JStr []) of
             JStr q \<Rightarrow>
               bind_r (if ir_kind r = IK_REPLY
                   then (case map_of (ir_payload r) ''answer'' of
                       None \<Rightarrow> Inl (OtherException ''KeyError'')
                     | Some a \<Rightarrow> (case answer_from_json a of
                         Inl e \<Rightarrow> Inl (OtherException ''QuestionError'') | Inr a \<Rightarrow> Inr (Some a)))
                   else Inr None)
                 (\<lambda>answer. bind_r (input_append_signal (te_float env) scope sequence r t q answer)
                   (\<lambda>s. Inr [s]))
           | _ \<Rightarrow> Inl (LoopInvariantError ''Accepted reply has no question identity''))
      | _ \<Rightarrow> Inl (LoopInvariantError ''Accepted input has no text''))"

definition event_signals :: "('w, 'r) loop_env \<Rightarrow> run_scope \<Rightarrow> nat \<Rightarrow> inbox_record \<Rightarrow> exn + signal list" where
  "event_signals env scope sequence r =
     bind_r (if ir_topic r \<noteq> [] \<and> (ir_kind r = IK_EVENT \<or> ir_kind r = IK_TIMER)
        then (case mk_event (event_kind_of (ir_kind r)) (py_of_json (JObj (ir_payload r))) (ir_record_id r)
                None (ir_topic r) (ir_source r) [] of
            Inl e \<Rightarrow> Inl (OtherException ''EventProtocolError'')
          | Inr event \<Rightarrow> adapt_all (\<lambda>sub. te_adapt env sub event scope)
              (filter (\<lambda>sub. filter_matches (sub_filter sub) event) (te_events env)))
        else Inr [])
       (\<lambda>ss. Inr (ss @ [phase_note_signal
          ([(''kind'', JStr ''environment_event''), (''event_id'', JStr (ir_record_id r)),
            (''event_kind'', JStr (inbox_kind_value (ir_kind r))), (''payload'', JObj (ir_payload r))]
           @ (if ir_topic r \<noteq> [] then [(''topic'', JStr (ir_topic r)), (''source'', JStr (ir_source r))] else []))
          scope ''loop.inbox'' (Some sequence)]))"

definition record_signals ::
  "('w, 'r) loop_env \<Rightarrow> run_scope \<Rightarrow> nat \<times> inbox_record \<Rightarrow> exn + signal list" where
  "record_signals env scope e =
     (if ir_kind (snd e) = IK_INPUT \<or> ir_kind (snd e) = IK_REPLY
      then input_signals env scope (fst e) (snd e) else event_signals env scope (fst e) (snd e))"

section \<open>Consuming the inbox\<close>

text \<open>The batch is acknowledged only after the Context has committed its signals.\<close>

definition consume_inbox :: "('w, 'r) loop_env \<Rightarrow> run_scope \<Rightarrow> bool \<Rightarrow> ('w turn_world, bool) task" where
  "consume_inbox env scope decisions_only =
     (if \<not> te_has_inbox env then task_return False
      else task_bind (on_inbox (\<lambda>ib. case capture ib of (ib', b) \<Rightarrow> (ib', Inr b))) (\<lambda>batch.
      task_bind (task_sum (traverse (record_signals env scope) (bt_records batch))) (\<lambda>sss.
      task_bind
        (if concat sss = [] then task_return ()
         else case scope_nearest scope RL_TURN of
           None \<Rightarrow> task_raise (LoopInvariantError ''Inbox consumption requires a Turn frame'')
         | Some frame \<Rightarrow>
             task_bind (consume_batch (te_consumer env)
                 \<lparr>sb_turn_id = rf_name frame, sb_signals = concat sss\<rparr> scope) (\<lambda>results.
             if results \<noteq> [] then task_raise (LoopInvariantError ''Context rejected an accepted Inbox batch'')
             else task_return ())) (\<lambda>_.
      task_bind (on_inbox (ack batch)) (\<lambda>_.
      task_return (if decisions_only then list_ex (\<lambda>(n, r). ir_requires_decision r) (bt_records batch)
        else bt_records batch \<noteq> []))))))"

section \<open>Waiting\<close>

text \<open>\<open>wait_for_cycle\<close>: its passes, and what happens to the world while it sleeps.\<close>

partial_function (option) wait_loop ::
  "('w, 'r) loop_env \<Rightarrow> waiter \<Rightarrow> 'w turn_world \<Rightarrow> ('w turn_world \<times> (exn + cycle_readiness)) option" where
  "wait_loop env wt w =
     (case wait_pass (te_statuses env w) (te_now env w) wt (tx_inbox (fst w)) of
        (ib, WaitReturned r) \<Rightarrow> Some (set_inbox ib w, Inr r)
      | (ib, WaitRaised e) \<Rightarrow> Some (set_inbox ib w, Inl (inbox_exn e))
      | (ib, WaitBlocked wt' timeout) \<Rightarrow>
          (case te_suspend env timeout (set_inbox ib w) of
             None \<Rightarrow> None
           | Some (w', Inl e) \<Rightarrow> Some (set_inbox (wait_end wt' (tx_inbox (fst w'))) w', Inl e)
           | Some (w', Inr _) \<Rightarrow> wait_loop env wt' w'))"

lemma wait_loop_code [code]:
  "wait_loop env wt w =
     (case snd (wait_pass (te_statuses env w) (te_now env w) wt (tx_inbox (fst w))) of
        WaitReturned r \<Rightarrow> Some (set_inbox (fst (wait_pass (te_statuses env w) (te_now env w) wt (tx_inbox (fst w)))) w, Inr r)
      | WaitRaised e \<Rightarrow> Some (set_inbox (fst (wait_pass (te_statuses env w) (te_now env w) wt (tx_inbox (fst w)))) w,
          Inl (inbox_exn e))
      | WaitBlocked wt' timeout \<Rightarrow>
          (case te_suspend env timeout
              (set_inbox (fst (wait_pass (te_statuses env w) (te_now env w) wt (tx_inbox (fst w)))) w) of
             None \<Rightarrow> None
           | Some p \<Rightarrow>
               (case snd p of
                  Inl e \<Rightarrow> Some (set_inbox (wait_end wt' (tx_inbox (fst (fst p)))) (fst p), Inl e)
                | Inr u \<Rightarrow> wait_loop env wt' (fst p))))"
  by (subst wait_loop.simps) (simp split: option.split prod.split sum.split wait_outcome.split)

definition wait_for_cycle ::
  "('w, 'r) loop_env \<Rightarrow> wait_condition option \<Rightarrow> budget_request option \<Rightarrow> ('w turn_world, cycle_readiness) task" where
  "wait_for_cycle env condition budget =
     task_bind (on_inbox (wait_begin condition budget)) (wait_loop env)"

section \<open>The budget of Cycles\<close>

datatype loop_next = NextCycle | LeaveLoop

definition cycle_limit_signal :: "('w, 'r) loop_env \<Rightarrow> run_scope \<Rightarrow> signal" where
  "cycle_limit_signal env scope = phase_note_signal
     [(''kind'', JStr ''turn_cycle_limit_reached''), (''max_cycles'', JInt (te_max_cycles env))]
     scope ''loop.turn'' None"

text \<open>
  The request for more Cycles and the suspension of the Turn at its boundary; the answer is the
  request to wait on, if one was made, or that the loop is left.
\<close>

definition suspend_for_budget :: "('w, 'r) loop_env \<Rightarrow> run_scope \<Rightarrow> budget_request \<Rightarrow> ('w turn_world, unit) task" where
  "suspend_for_budget env scope request =
     task_bind (task_call (trap_capture (te_registry env)
         \<lparr>rx_reason = loop_budget_required, rx_message = ''Turn requires a Cycle budget decision.'',
          rx_payload = [(''module'', JStr ''loop''), (''request_id'', JStr (br_request_id request))]\<rparr>
         scope None)) (\<lambda>suspension.
     if tr_action (tres_transfer suspension) \<noteq> SUSPEND
        \<or> Some (tr_target (tres_transfer suspension)) \<noteq> scope_current scope
     then task_raise (LoopInvariantError ''Budget Trap must suspend the current Turn'')
     else task_call (consume_recovery (te_consumer env) (tres_signals suspension) scope))"

definition turn_budget ::
  "('w, 'r) loop_env \<Rightarrow> ('w turn_state, loop_next \<times> budget_request option) task" where
  "turn_budget env = with_locals (\<lambda>l.
     if tl_cycle_index l \<le> tl_cycle_limit l then task_return (NextCycle, None)
     else if \<not> te_has_inbox env
     then task_bind (set_locals (\<lambda>l. l\<lparr>tl_exhausted := True\<rparr>)) (\<lambda>_.
          task_bind (with_world (emit_and_consume (te_consumer env) [cycle_limit_signal env (tl_scope l)] (tl_scope l)))
            (\<lambda>_. task_return (LeaveLoop, None)))
     else task_bind (with_world (\<lambda>w. on_inbox (request_budget (te_fresh env w) (tl_cycle_index l)) w)) (\<lambda>request.
          task_bind (with_world (suspend_for_budget env (tl_scope l) request))
            (\<lambda>_. task_return (NextCycle, Some request))))"

section \<open>Resuming\<close>

definition wake_reason_value :: "wake_reason \<Rightarrow> string" where
  "wake_reason_value r = (case r of WK_INPUT \<Rightarrow> ''input'' | WK_REPLY \<Rightarrow> ''reply'' | WK_EVENT \<Rightarrow> ''event''
     | WK_JOB \<Rightarrow> ''job'' | WK_TIMER \<Rightarrow> ''timer'' | WK_SOURCE_UNAVAILABLE \<Rightarrow> ''source_unavailable'')"

definition source_unavailable_text :: string where
  "source_unavailable_text =
     ''The selected environment source is unavailable; choose another action or ask the user.''"

definition wait_resumed_note :: "cycle_readiness \<Rightarrow> question_request option \<Rightarrow> json_object" where
  "wait_resumed_note r question =
     [(''kind'', JStr ''wait_resumed''), (''reason'', text_json (map_option wake_reason_value (cr_reason r))),
      (''sequence'', sequence_json (cr_sequence r)), (''topic'', text_json (cr_wake_topic r)),
      (''source'', text_json (cr_wake_source r))]
     @ (case cr_wake_job_id r of None \<Rightarrow> [] | Some j \<Rightarrow> [(''job_id'', JStr j)])
     @ (if cr_reason r = Some WK_SOURCE_UNAVAILABLE then [(''feedback'', JStr source_unavailable_text)] else [])
     @ [(''unanswered_question_id'', text_json (case question of
          None \<Rightarrow> None | Some q \<Rightarrow> if cr_reason r = Some WK_INPUT then Some (qr_id q) else None))]"

definition awaiting_user :: "string \<Rightarrow> json_object" where
  "awaiting_user question_id = [(''kind'', JStr ''awaiting_user''), (''question_id'', JStr question_id)]"

text \<open>The wait at the head of a pass: the grant is added, an expired question leaves the loop.\<close>

definition turn_wait :: "('w, 'r) loop_env \<Rightarrow> budget_request option \<Rightarrow> ('w turn_state, loop_next) task" where
  "turn_wait env request = with_locals (\<lambda>l.
     if te_has_inbox env \<and> (tl_wait l \<noteq> None \<or> request \<noteq> None)
     then task_bind (with_world (wait_for_cycle env (tl_wait l) request)) (\<lambda>readiness.
          task_bind (set_locals (\<lambda>l. l\<lparr>tl_cycle_limit := tl_cycle_limit l + cr_granted_cycles readiness\<rparr>)) (\<lambda>_.
          case tl_wait l of
            None \<Rightarrow> task_return NextCycle
          | Some pending \<Rightarrow>
              (case wc_question pending of
                 Some q \<Rightarrow>
                   if cr_reason readiness = Some WK_TIMER
                   then task_bind (set_locals (\<lambda>l. l\<lparr>tl_completion := Some (awaiting_user (qr_id q))\<rparr>))
                     (\<lambda>_. task_return LeaveLoop)
                   else task_bind (with_world (emit_and_consume (te_consumer env)
                       [phase_note_signal (wait_resumed_note readiness (Some q)) (tl_scope l) ''loop.wait'' None]
                       (tl_scope l))) (\<lambda>_.
                     task_bind (set_locals (\<lambda>l. l\<lparr>tl_wait := None\<rparr>)) (\<lambda>_. task_return NextCycle))
               | None \<Rightarrow>
                   task_bind (with_world (emit_and_consume (te_consumer env)
                       [phase_note_signal (wait_resumed_note readiness None) (tl_scope l) ''loop.wait'' None]
                       (tl_scope l))) (\<lambda>_.
                     task_bind (set_locals (\<lambda>l. l\<lparr>tl_wait := None\<rparr>)) (\<lambda>_. task_return NextCycle)))))
     else task_return NextCycle)"

section \<open>A Cycle and what follows from it\<close>

definition sync_activity :: "('w, 'r) loop_env \<Rightarrow> string \<Rightarrow> run_scope \<Rightarrow> ('w turn_world, unit) task" where
  "sync_activity env turn_id scope =
     (case te_controller env of None \<Rightarrow> task_return () | Some c \<Rightarrow> task_call (ct_sync c turn_id scope))"

definition acknowledged :: "('w, 'r) loop_env \<Rightarrow> 'w turn_world \<Rightarrow> nat" where
  "acknowledged env w = (if te_has_inbox env then ib_acknowledged_sequence (tx_inbox (fst w)) else 0)"

text \<open>The inbox is consumed and the Jobs are projected; then the Cycle runs, behind the cursor.\<close>

definition turn_cycle :: "('w, 'r) loop_env \<Rightarrow> string \<Rightarrow> ('w turn_state, nat \<times> cycle_outcome) task" where
  "turn_cycle env turn_id = with_locals (\<lambda>l.
     task_bind (with_world (consume_inbox env (tl_scope l) False)) (\<lambda>_.
     task_bind (with_world (sync_activity env turn_id (tl_scope l))) (\<lambda>_.
     task_bind (with_world (\<lambda>w. Some (w, Inr (acknowledged env w)))) (\<lambda>cursor.
     task_bind (with_world (te_cycle env turn_id (tl_cycle_index l) (tl_scope l) (tl_feedback l))) (\<lambda>cycle.
     task_bind (set_locals (\<lambda>l. l\<lparr>
         tl_failure := (case tl_failure l of None \<Rightarrow> cc_failure cycle | f \<Rightarrow> f),
         tl_stopped := tl_stopped l \<or> cc_stopped cycle\<rparr>)) (\<lambda>_.
     task_return (cursor, cycle)))))))"

definition next_cycle :: "('w turn_state, loop_next) task" where
  "next_cycle = task_bind (set_locals (\<lambda>l. l\<lparr>tl_cycle_index := tl_cycle_index l + 1\<rparr>)) (\<lambda>_. task_return NextCycle)"

definition feedback_prefix :: "phase_failure \<Rightarrow> string" where
  "feedback_prefix f =
     ''Previous cycle '' @ cycle_phase_value (pf_phase f) @ '' failure ('' @ pf_reason f @ ''): ''"

definition active_jobs_block_completion :: string where
  "active_jobs_block_completion = ''Resolve the active Jobs before completing this Turn.''"

text \<open>\<open>_consume_cycle_transfer\<close>\<close>

definition consume_cycle_transfer :: "runtime_transfer option \<Rightarrow> run_scope \<Rightarrow> exn + runtime_transfer option" where
  "consume_cycle_transfer transfer scope =
     (case transfer of
        None \<Rightarrow> Inr None
      | Some t \<Rightarrow>
          (case scope_current scope of
             None \<Rightarrow> Inl (loop_invariant ''Turn scope has no current frame'')
           | Some frame \<Rightarrow>
               (if tr_target t = frame \<and> tr_action t = END then Inr (Some t)
                else if tr_target t = frame \<and> tr_action t = RETRY then Inr None
                else if rf_level (tr_target t) = RL_CYCLE then Inr None
                else Inr (Some t))))"

text \<open>A question: registered with the inbox, or the end of a Turn that has none.\<close>

definition turn_question ::
  "('w, 'r) loop_env \<Rightarrow> nat \<Rightarrow> question_request \<Rightarrow> ('w turn_state, loop_next) task" where
  "turn_question env cursor q =
     (if \<not> te_has_inbox env
      then task_bind (set_locals (\<lambda>l. l\<lparr>tl_completion := Some (awaiting_user (qr_id q))\<rparr>))
        (\<lambda>_. task_return LeaveLoop)
      else task_bind (with_world (on_inbox (open_question q))) (\<lambda>_.
        task_bind (with_world (\<lambda>w. on_inbox (\<lambda>ib. (ib, mk_wait_condition
            \<lparr>wc_reason = WR_INPUT, wc_after_sequence = int cursor,
             wc_deadline = after (te_now env w) (qr_timeout q), wc_event_kind = None, wc_event_id = None,
             wc_question = Some q, wc_topic = None, wc_source = None\<rparr>)) w)) (\<lambda>condition.
        task_bind (set_locals (\<lambda>l. l\<lparr>tl_wait := Some condition\<rparr>)) (\<lambda>_. next_cycle))))"

definition turn_ordinary_wait ::
  "('w, 'r) loop_env \<Rightarrow> nat \<Rightarrow> wait_request \<Rightarrow> ('w turn_state, loop_next) task" where
  "turn_ordinary_wait env cursor r =
     (if \<not> te_has_inbox env then task_raise (LoopInvariantError ''Wait action requires a Turn Inbox'')
      else task_bind (with_world (\<lambda>w. on_inbox (\<lambda>ib. (ib, wait_condition_of (te_now env w) r (int cursor))) w)) (\<lambda>condition.
        task_bind (set_locals (\<lambda>l. l\<lparr>tl_wait := Some condition\<rparr>)) (\<lambda>_. next_cycle)))"

text \<open>A completion stands only over settled Jobs and an inbox with nothing decisive, which it closes.\<close>

definition turn_completion_try ::
  "('w, 'r) loop_env \<Rightarrow> string \<Rightarrow> json_object \<Rightarrow> ('w turn_state, loop_next) task" where
  "turn_completion_try env turn_id completion = with_locals (\<lambda>l.
     task_bind (with_world (\<lambda>w. Some (w, Inr (case te_controller env of None \<Rightarrow> False
         | Some c \<Rightarrow> ct_unresolved c turn_id w)))) (\<lambda>unresolved.
     if unresolved
     then task_bind (set_locals (\<lambda>l. l\<lparr>tl_feedback := tl_feedback l @ [active_jobs_block_completion]\<rparr>))
       (\<lambda>_. next_cycle)
     else task_bind (with_world (consume_inbox env (tl_scope l) True)) (\<lambda>decisive.
       if decisive then next_cycle
       else task_bind (with_world (if te_has_inbox env
           then on_inbox (\<lambda>ib. case close_if_empty ib of (ib', shut) \<Rightarrow> (ib', Inr shut))
           else task_return True)) (\<lambda>shut.
         if \<not> shut then next_cycle
         else task_bind (set_locals (\<lambda>l. l\<lparr>tl_completion := Some completion\<rparr>)) (\<lambda>_. task_return LeaveLoop)))))"

definition turn_decide ::
  "('w, 'r) loop_env \<Rightarrow> string \<Rightarrow> nat \<Rightarrow> cycle_outcome \<Rightarrow> ('w turn_state, loop_next) task" where
  "turn_decide env turn_id cursor cycle =
     (case cc_phase_failure cycle of
        Some f \<Rightarrow>
          task_bind (set_locals (\<lambda>l. l\<lparr>tl_feedback := map (\<lambda>item. feedback_prefix f @ item) (pf_feedback f)\<rparr>))
            (\<lambda>_. next_cycle)
      | None \<Rightarrow>
          task_bind (set_locals (\<lambda>l. l\<lparr>tl_feedback := []\<rparr>)) (\<lambda>_.
          case cc_question cycle of
            Some q \<Rightarrow> turn_question env cursor q
          | None \<Rightarrow>
              (case cc_wait cycle of
                 Some r \<Rightarrow> turn_ordinary_wait env cursor r
               | None \<Rightarrow>
                   (case cc_completion cycle of
                      Some c \<Rightarrow> turn_completion_try env turn_id c
                    | None \<Rightarrow> with_locals (\<lambda>l.
                        if cc_transfer cycle \<noteq> None
                        then task_bind (task_sum (consume_cycle_transfer (cc_transfer cycle) (tl_scope l))) (\<lambda>t.
                          task_bind (set_locals (\<lambda>l. l\<lparr>tl_transfer := t\<rparr>)) (\<lambda>_.
                          if t \<noteq> None \<or> tl_failure l \<noteq> None \<or> tl_stopped l then task_return LeaveLoop
                          else next_cycle))
                        else if tl_failure l \<noteq> None \<or> tl_stopped l then task_return LeaveLoop
                        else next_cycle)))))"

section \<open>The loop\<close>

text \<open>One pass of the \<open>while True\<close>.\<close>

definition turn_pass :: "('w, 'r) loop_env \<Rightarrow> string \<Rightarrow> ('w turn_state, loop_next) task" where
  "turn_pass env turn_id =
     task_bind (turn_budget env) (\<lambda>(n, request).
     if n = LeaveLoop then task_return LeaveLoop
     else task_bind (turn_wait env request) (\<lambda>n.
       if n = LeaveLoop then task_return LeaveLoop
       else task_bind (turn_cycle env turn_id) (\<lambda>(cursor, cycle). turn_decide env turn_id cursor cycle)))"

partial_function (option) turn_loop ::
  "('w, 'r) loop_env \<Rightarrow> string \<Rightarrow> 'w turn_state \<Rightarrow> ('w turn_state \<times> (exn + unit)) option" where
  "turn_loop env turn_id s =
     (case turn_pass env turn_id s of
        None \<Rightarrow> None
      | Some (s', Inl e) \<Rightarrow> Some (s', Inl e)
      | Some (s', Inr LeaveLoop) \<Rightarrow> Some (s', Inr ())
      | Some (s', Inr NextCycle) \<Rightarrow> turn_loop env turn_id s')"

text \<open>The same equation with the pair taken apart by projections, which evaluates only the branch taken.\<close>

lemma turn_loop_code [code]:
  "turn_loop env turn_id s =
     (case turn_pass env turn_id s of
        None \<Rightarrow> None
      | Some p \<Rightarrow>
          (case snd p of
             Inl e \<Rightarrow> Some (fst p, Inl e)
           | Inr n \<Rightarrow> (case n of LeaveLoop \<Rightarrow> Some (fst p, Inr ()) | NextCycle \<Rightarrow> turn_loop env turn_id (fst p))))"
  by (subst turn_loop.simps) (simp split: option.split prod.split sum.split loop_next.split)

end
