(* ===== verification/Turn.thy ===== *)
theory Turn
  imports Turn_Loop
begin

text \<open>
  The life of one Turn (\<open>TurnRunner.run\<close> in tinysoul/kernel/loop/turn.py): it begins the Turn in the
  Context, prepares it, drives the decision loop, and whatever has happened closes the inbox, cleans
  the Turn's Jobs, drains the last records, ends the Turn in the Context, runs the completion
  pipeline, closes the segments and reports one outcome.

  The owned tasks of the final part are awaited under \<open>asyncio.shield\<close>: a cancellation that arrives
  meanwhile is recorded and the task goes on. \<open>tn_interrupted\<close> tells at which of them that happens.
  \<open>TurnInbox.close\<close> cannot raise, so the classification of its failure is left out, and so is the
  observation of the terminal event.
\<close>

datatype final_stage = FS_CLOSE_INBOX | FS_CLEAN_ACTIVITY | FS_DRAIN | FS_FINALIZE | FS_CLOSE_SEGMENTS

record ('w, 'r, 'c) turn_env =
  tn_loop :: "('w, 'r) loop_env"
  tn_begin :: "string \<Rightarrow> string \<Rightarrow> 'w turn_world \<Rightarrow> 'w turn_world \<times> (exn + unit)"
  tn_turn_active :: "'w turn_world \<Rightarrow> bool"
  tn_end :: "'w turn_world \<Rightarrow> 'w turn_world \<times> (exn + 'c)"
  tn_abort :: "'w turn_world \<Rightarrow> 'w turn_world"
  tn_open_segments :: "calendar_day \<Rightarrow> ('w turn_world, unit) task"
  tn_close_segments :: "('w turn_world, cleanup_diagnostic list) task"
  tn_prepare :: "(preparation_request \<Rightarrow> ('w turn_world, signal list) task) list"
  tn_call_id :: "'r \<Rightarrow> string"
  tn_tool_name :: "'r \<Rightarrow> string"
  tn_handlers :: "('c turn_completion \<Rightarrow> ('w turn_world, unit) task) list"
  tn_recorder :: "('c turn_completion \<Rightarrow> ('w turn_world, unit) task) option"
  tn_to_output :: "json_object option \<Rightarrow> exn + turn_output option"
  tn_interrupted :: "final_stage \<Rightarrow> 'w turn_world \<Rightarrow> bool"

record turn_request =
  rq_turn_input :: string
  rq_active_day :: calendar_day
  rq_scope :: run_scope
  rq_turn_id :: string

abbreviation tn_registry :: "('w, 'r, 'c) turn_env \<Rightarrow> 'w turn_world trap_handler trap_registry" where
  "tn_registry env \<equiv> te_registry (tn_loop env)"

definition bridged_task :: "('w turn_world, 'a) task \<Rightarrow> ('w turn_world, 'a) task" where
  "bridged_task m = task_catch m (\<lambda>e. case e of
     ContextException f \<Rightarrow> task_raise (raised (from_context_error f)) | _ \<Rightarrow> task_raise e)"

text \<open>\<open>active_scope\<close> and \<open>request_active_cancel\<close>, from outside the Turn.\<close>

definition active_scope :: "'w turn_world \<Rightarrow> run_scope option" where
  "active_scope w = map_option fst (tx_active (fst w))"

definition request_active_cancel :: "loop_control_kind \<Rightarrow> 'w turn_world \<Rightarrow> 'w turn_world \<times> bool" where
  "request_active_cancel kind w = (case tx_active (fst w) of
     None \<Rightarrow> (w, False)
   | Some (scope, c) \<Rightarrow> (((fst w)\<lparr>tx_active := Some (scope, cancellation_request kind c)\<rparr>, snd w), True))"

definition set_active_scope :: "(run_scope \<times> turn_cancellation) option \<Rightarrow> ('w turn_world, unit) task" where
  "set_active_scope active = task_update (\<lambda>w. ((fst w)\<lparr>tx_active := active\<rparr>, snd w))"

section \<open>Preparation\<close>

definition call_ids :: "signal list \<Rightarrow> string list" where
  "call_ids signals = List.map_filter (\<lambda>s. case map_of (sig_payload s) ''call_id'' of
     Some (JStr c) \<Rightarrow> Some c | _ \<Rightarrow> None) signals"

definition rejected_error :: "('w, 'r, 'c) turn_env \<Rightarrow> 'r list \<Rightarrow> exn" where
  "rejected_error env rejected = raised (from_loop_error
     (LoopInvariantError ''Context rejected a Turn preparation signal'')
     [(''results'', JArr (map (\<lambda>r. JObj [(''call_id'', JStr (tn_call_id env r)),
         (''tool_name'', JStr (tn_tool_name env r))]) (take 8 rejected))),
      (''rejected_count'', JInt (int (length rejected)))])"

definition commit_preparation ::
  "('w, 'r, 'c) turn_env \<Rightarrow> signal list \<Rightarrow> run_scope \<Rightarrow> ('w turn_world, unit) task" where
  "commit_preparation env signals scope =
     (if signals = [] then task_return ()
      else task_bind (emit_and_consume (te_consumer (tn_loop env)) signals scope) (\<lambda>results.
        let rejected = filter (\<lambda>r. tn_call_id env r \<in> set (call_ids signals)) results
        in if rejected \<noteq> [] then task_raise (rejected_error env rejected) else task_return ()))"

text \<open>One pass of \<open>_run_preparation\<close>: prepared, a boundary that ends the preparation, or again.\<close>

definition preparation_pass ::
  "('w, 'r, 'c) turn_env \<Rightarrow> turn_request \<Rightarrow> run_scope \<Rightarrow> ('w turn_world, unit) task" where
  "preparation_pass env q scope =
     task_bind (bridged_task (tn_open_segments env (rq_active_day q))) (\<lambda>_.
     task_bind (task_sum (mk_preparation_request \<lparr>pq_turn_id = rq_turn_id q,
         pq_turn_input = rq_turn_input q, pq_active_day = rq_active_day q, pq_scope = scope\<rparr>)) (\<lambda>request.
     task_bind (prepare_turn (tn_prepare env) request) (\<lambda>signals. commit_preparation env signals scope)))"

definition preparation_boundary ::
  "('w, 'r, 'c) turn_env \<Rightarrow> run_scope \<Rightarrow> exn \<Rightarrow> ('w turn_world, boundary) task" where
  "preparation_boundary env scope e = (case e of
     RuntimeTransferInterrupt t cause \<Rightarrow> task_sum (from_interrupt t cause)
   | RuntimeException x \<Rightarrow> trap_boundary (tn_registry env) x scope True
   | _ \<Rightarrow> task_raise e)"

partial_function (option) preparation_loop ::
  "('w, 'r, 'c) turn_env \<Rightarrow> turn_request \<Rightarrow> run_scope \<Rightarrow> run_frame \<Rightarrow> 'w turn_world
     \<Rightarrow> ('w turn_world \<times> (exn + boundary option)) option" where
  "preparation_loop env q scope frame w =
     (case preparation_pass env q scope w of
        None \<Rightarrow> None
      | Some (w', Inr _) \<Rightarrow> Some (w', Inr None)
      | Some (w', Inl e) \<Rightarrow>
          (case preparation_boundary env scope e w' of
             None \<Rightarrow> None
           | Some (w2, Inl err) \<Rightarrow> Some (w2, Inl err)
           | Some (w2, Inr b) \<Rightarrow>
               (if tr_target (bd_transfer b) = frame \<and> tr_action (bd_transfer b) = RETRY
                then preparation_loop env q scope frame w2
                else if tr_target (bd_transfer b) \<noteq> frame \<or> tr_action (bd_transfer b) = END
                then Some (w2, Inr (Some b))
                else Some (w2, Inl (loop_invariant
                  (''Unsupported Turn preparation transfer: '' @ transfer_str (bd_transfer b)))))))"

lemma preparation_loop_code [code]:
  "preparation_loop env q scope frame w =
     (case preparation_pass env q scope w of
        None \<Rightarrow> None
      | Some p \<Rightarrow>
          (case snd p of
             Inr u \<Rightarrow> Some (fst p, Inr None)
           | Inl e \<Rightarrow>
               (case preparation_boundary env scope e (fst p) of
                  None \<Rightarrow> None
                | Some p2 \<Rightarrow>
                    (case snd p2 of
                       Inl err \<Rightarrow> Some (fst p2, Inl err)
                     | Inr b \<Rightarrow>
                         (if tr_target (bd_transfer b) = frame \<and> tr_action (bd_transfer b) = RETRY
                          then preparation_loop env q scope frame (fst p2)
                          else if tr_target (bd_transfer b) \<noteq> frame \<or> tr_action (bd_transfer b) = END
                          then Some (fst p2, Inr (Some b))
                          else Some (fst p2, Inl (loop_invariant
                            (''Unsupported Turn preparation transfer: '' @ transfer_str (bd_transfer b)))))))))"
  by (subst preparation_loop.simps) (simp split: option.split prod.split sum.split)

definition run_preparation ::
  "('w, 'r, 'c) turn_env \<Rightarrow> turn_request \<Rightarrow> run_scope \<Rightarrow> ('w turn_world, boundary option) task" where
  "run_preparation env q scope =
     (case scope_nearest scope RL_TURN of
        None \<Rightarrow> task_raise (loop_invariant ''Turn preparation scope has no Turn frame'')
      | Some frame \<Rightarrow> preparation_loop env q scope frame)"

section \<open>The body\<close>

definition start_locals :: "run_scope \<Rightarrow> turn_locals" where
  "start_locals scope = \<lparr>tl_scope = scope, tl_output = None, tl_exhausted = False, tl_transfer = None,
     tl_failure = None, tl_stopped = False, tl_completion = None, tl_cancelled = False,
     tl_diagnostics = [], tl_finish_failures = [], tl_cycle_index = 1, tl_cycle_limit = 0,
     tl_feedback = [], tl_wait = None\<rparr>"

definition bind_activity :: "('w, 'r) loop_env \<Rightarrow> string \<Rightarrow> ('w turn_world, unit) task" where
  "bind_activity env turn_id =
     (case te_controller env of None \<Rightarrow> task_return () | Some c \<Rightarrow> task_call (ct_bind c turn_id))"

text \<open>The body of the outer \<open>try\<close>.\<close>

definition turn_body :: "('w, 'r, 'c) turn_env \<Rightarrow> turn_request \<Rightarrow> ('w turn_state, unit) task" where
  "turn_body env q =
     task_bind (with_world (task_call (\<lambda>w. context_bridged (tn_begin env (rq_turn_input q) (rq_turn_id q) w)))) (\<lambda>_.
     task_bind (task_sum (scope_push (rq_scope q) RL_TURN (rq_turn_id q))) (\<lambda>scope.
     task_bind (set_locals (\<lambda>l. l\<lparr>tl_scope := scope\<rparr>)) (\<lambda>_.
     task_bind (with_world (task_when (te_has_inbox (tn_loop env))
         (update_inbox (subscribe_events (te_events (tn_loop env)))))) (\<lambda>_.
     task_bind (with_world (bind_activity (tn_loop env) (rq_turn_id q))) (\<lambda>_.
     task_bind (with_world (set_active_scope (Some (scope, mk_turn_cancellation)))) (\<lambda>_.
     task_bind (with_world (run_preparation env q scope)) (\<lambda>prep.
     case prep of
       Some b \<Rightarrow> set_locals (\<lambda>l. l\<lparr>tl_transfer := Some (bd_transfer b), tl_failure := bd_failure b,
           tl_stopped := bd_stopped b\<rparr>)
     | None \<Rightarrow>
         task_bind (with_world (task_when (te_has_inbox (tn_loop env))
             (update_inbox (set_activity TS_RUNNING)))) (\<lambda>_.
         task_bind (set_locals (\<lambda>l. l\<lparr>tl_cycle_index := 1, tl_cycle_limit := te_max_cycles (tn_loop env),
             tl_feedback := [], tl_wait := None\<rparr>)) (\<lambda>_.
         turn_loop (tn_loop env) (rq_turn_id q))))))))))"

text \<open>What an exception is captured as: the \<open>except\<close> clauses for \<open>Exception\<close> of \<open>run\<close>.\<close>

definition capture_exn ::
  "('w, 'r, 'c) turn_env \<Rightarrow> loop_failure_kind \<Rightarrow> run_scope \<Rightarrow> exn \<Rightarrow> ('w turn_world, boundary) task" where
  "capture_exn env kind scope e = (case e of
     RuntimeTransferInterrupt t cause \<Rightarrow> task_sum (from_interrupt t cause)
   | RuntimeException x \<Rightarrow> trap_boundary (tn_registry env) x scope True
   | AsyncCancelled \<Rightarrow> task_raise AsyncCancelled
   | _ \<Rightarrow> trap_raised (tn_registry env) (loop_from_exception kind e []) scope)"

definition or_else :: "'a option \<Rightarrow> 'a option \<Rightarrow> 'a option" where
  "or_else a b = (case a of None \<Rightarrow> b | Some x \<Rightarrow> Some x)"

definition turn_raised :: "('w, 'r, 'c) turn_env \<Rightarrow> exn \<Rightarrow> ('w turn_state, unit) task" where
  "turn_raised env e =
     (if e = AsyncCancelled
      then set_locals (\<lambda>l. l\<lparr>tl_cancelled := True, tl_stopped := True, tl_completion := None\<rparr>)
      else with_locals (\<lambda>l.
        task_bind (with_world (capture_exn env LF_INTERNAL_FAILURE (tl_scope l) e)) (\<lambda>b.
        set_locals (\<lambda>l. l\<lparr>tl_transfer := Some (bd_transfer b),
          tl_failure := or_else (tl_failure l) (bd_failure b)\<rparr>))))"

section \<open>The final part\<close>

definition note_interruption :: "('w, 'r, 'c) turn_env \<Rightarrow> final_stage \<Rightarrow> ('w turn_state, unit) task" where
  "note_interruption env stage =
     task_update (\<lambda>(l, w). (if tn_interrupted env stage w then l\<lparr>tl_cancelled := True\<rparr> else l, w))"

text \<open>A failure of the final part: the transfer and the failure already there are kept.\<close>

definition keep_captured :: "('w, 'r, 'c) turn_env \<Rightarrow> exn \<Rightarrow> ('w turn_state, unit) task" where
  "keep_captured env e = with_locals (\<lambda>l.
     task_bind (with_world (capture_exn env LF_INTERNAL_FAILURE (tl_scope l) e)) (\<lambda>b.
     set_locals (\<lambda>l. l\<lparr>tl_transfer := or_else (tl_transfer l) (Some (bd_transfer b)),
       tl_failure := or_else (tl_failure l) (bd_failure b)\<rparr>)))"

definition close_ingress :: "('w, 'r, 'c) turn_env \<Rightarrow> ('w turn_state, unit) task" where
  "close_ingress env = task_when (te_has_inbox (tn_loop env))
     (task_bind (with_world (update_inbox (set_activity TS_FINALIZING))) (\<lambda>_.
      task_bind (with_world (update_inbox close_inbox)) (\<lambda>_. note_interruption env FS_CLOSE_INBOX)))"

definition some_list :: "'a option \<Rightarrow> 'a list" where
  "some_list x = (case x of None \<Rightarrow> [] | Some a \<Rightarrow> [a])"

text \<open>A failed clean-up of the Turn's Jobs is a finish failure; a transfer to the Agent replaces the Turn's.\<close>

definition cleanup_failed :: "('w, 'r, 'c) turn_env \<Rightarrow> exn \<Rightarrow> ('w turn_state, unit) task" where
  "cleanup_failed env e = with_locals (\<lambda>l.
     task_bind (with_world (capture_exn env LF_CONTRACT_VIOLATION (tl_scope l) e)) (\<lambda>b.
     let agent = (case e of
         RuntimeException x \<Rightarrow> rf_level (tr_target (bd_transfer b)) = RL_AGENT
       | RuntimeTransferInterrupt t x \<Rightarrow> rf_level (tr_target (bd_transfer b)) = RL_AGENT
       | _ \<Rightarrow> False)
     in set_locals (\<lambda>l. l\<lparr>tl_transfer := (if tl_transfer l = None \<or> agent then Some (bd_transfer b) else tl_transfer l),
       tl_finish_failures := tl_finish_failures l @ some_list (bd_failure b)\<rparr>)))"

definition clean_activity :: "('w, 'r, 'c) turn_env \<Rightarrow> string \<Rightarrow> ('w turn_state, unit) task" where
  "clean_activity env turn_id =
     (case te_controller (tn_loop env) of
        None \<Rightarrow> task_return ()
      | Some c \<Rightarrow> task_when (turn_id \<noteq> [])
          (task_then (with_world (ct_cleanup c turn_id)) (\<lambda>r.
             task_bind (note_interruption env FS_CLEAN_ACTIVITY) (\<lambda>_. case r of
               Inr ds \<Rightarrow> set_locals (\<lambda>l. l\<lparr>tl_diagnostics := tl_diagnostics l @ ds\<rparr>)
             | Inl e \<Rightarrow> cleanup_failed env e))))"

text \<open>\<open>while await self._consume_inbox(...): pass\<close>\<close>

partial_function (option) drain_inbox ::
  "('w, 'r) loop_env \<Rightarrow> run_scope \<Rightarrow> 'w turn_world \<Rightarrow> ('w turn_world \<times> (exn + unit)) option" where
  "drain_inbox env scope w =
     (case consume_inbox env scope False w of
        None \<Rightarrow> None
      | Some (w', Inl e) \<Rightarrow> Some (w', Inl e)
      | Some (w', Inr again) \<Rightarrow> if again then drain_inbox env scope w' else Some (w', Inr ()))"

lemma drain_inbox_code [code]:
  "drain_inbox env scope w =
     (case consume_inbox env scope False w of
        None \<Rightarrow> None
      | Some p \<Rightarrow>
          (case snd p of
             Inl e \<Rightarrow> Some (fst p, Inl e)
           | Inr again \<Rightarrow> if again then drain_inbox env scope (fst p) else Some (fst p, Inr ())))"
  by (subst drain_inbox.simps) (simp split: option.split prod.split sum.split)

definition drain_final_records :: "('w, 'r, 'c) turn_env \<Rightarrow> string \<Rightarrow> ('w turn_state, unit) task" where
  "drain_final_records env turn_id = (\<lambda>s.
     if (te_has_inbox (tn_loop env) \<or> te_controller (tn_loop env) \<noteq> None) \<and> tn_turn_active env (snd s)
     then with_locals (\<lambda>l. task_then (with_world
         (task_bind (sync_activity (tn_loop env) turn_id (tl_scope l)) (\<lambda>_.
          task_bind (drain_inbox (tn_loop env) (tl_scope l)) (\<lambda>_.
          task_bind (consume (te_consumer (tn_loop env)) (tl_scope l)) (\<lambda>_. task_return ())))))
       (\<lambda>r. task_bind (note_interruption env FS_DRAIN) (\<lambda>_. case r of
          Inr _ \<Rightarrow> task_return () | Inl e \<Rightarrow> keep_captured env e))) s
     else task_return () s)"

text \<open>The \<open>finally\<close> block of the body.\<close>

definition turn_settle :: "('w, 'r, 'c) turn_env \<Rightarrow> string \<Rightarrow> ('w turn_state, unit) task" where
  "turn_settle env turn_id =
     task_bind (close_ingress env) (\<lambda>_.
     task_bind (clean_activity env turn_id) (\<lambda>_. drain_final_records env turn_id))"

definition is_turn_end :: "runtime_transfer option \<Rightarrow> run_scope \<Rightarrow> bool" where
  "is_turn_end transfer scope =
     (case (transfer, scope_nearest scope RL_TURN) of
        (Some t, Some turn) \<Rightarrow> tr_action t = END \<and> tr_target t = turn
      | _ \<Rightarrow> False)"

definition map_output :: "('w, 'r, 'c) turn_env \<Rightarrow> ('w turn_state, unit) task" where
  "map_output env = task_bind (with_locals (\<lambda>l. case tn_to_output env (tl_completion l) of
       Inr out \<Rightarrow> set_locals (\<lambda>l. l\<lparr>tl_output := out\<rparr>)
     | Inl e \<Rightarrow> keep_captured env e)) (\<lambda>_.
     set_locals (\<lambda>l. if tl_output l \<noteq> None \<and> is_turn_end (tl_transfer l) (tl_scope l)
       then l\<lparr>tl_transfer := None\<rparr> else l))"

text \<open>\<open>_finish_turn\<close>: the Context's completion, or the boundary its failure is captured as.\<close>

definition finish_turn :: "('w, 'r, 'c) turn_env \<Rightarrow> run_scope \<Rightarrow> ('w turn_world, 'c option \<times> boundary option) task" where
  "finish_turn env scope = (\<lambda>w.
     if \<not> tn_turn_active env w then Some (w, Inr (None, None))
     else task_then (task_call (\<lambda>w. context_bridged (tn_end env w))) (\<lambda>r. case r of
         Inr c \<Rightarrow> task_return (Some c, None)
       | Inl (RuntimeException x) \<Rightarrow>
           task_bind (task_update (tn_abort env)) (\<lambda>_.
           task_bind (trap_boundary (tn_registry env) x scope True) (\<lambda>b. task_return (None, Some b)))
       | Inl e \<Rightarrow> task_raise e) w)"

definition interrupted_completion :: turn_failure where
  "interrupted_completion = \<lparr>tf_reason = runtime_turn_end,
     tf_message = ''Required Turn completion was interrupted.'', tf_module = ''loop'',
     tf_kind = loop_failure_value LF_CONTRACT_VIOLATION, tf_feedback = []\<rparr>"

text \<open>\<open>capture_finish_failure\<close>, the callback of the completion pipeline.\<close>

definition capture_finish_failure ::
  "('w, 'r, 'c) turn_env \<Rightarrow> exn \<Rightarrow> ('w turn_state, turn_failure) task" where
  "capture_finish_failure env e = with_locals (\<lambda>l.
     task_bind (with_world (capture_exn env LF_INTERNAL_FAILURE (tl_scope l) e)) (\<lambda>b.
     task_bind (set_locals (\<lambda>l. l\<lparr>tl_transfer := or_else (tl_transfer l) (Some (bd_transfer b))\<rparr>)) (\<lambda>_.
     task_return (case bd_failure b of Some f \<Rightarrow> f | None \<Rightarrow> interrupted_completion))))"

definition status_of_locals :: "turn_locals \<Rightarrow> bool \<Rightarrow> turn_status \<times> turn_failure option" where
  "status_of_locals l committed =
     (case outcome_status (tl_output l) (tl_completion l) committed (tl_exhausted l) (tl_stopped l)
         (tl_transfer l) (tl_failure l) of
        (status, failure) \<Rightarrow>
          (if tl_cancelled l \<and> status = TO_STOPPED then TO_CANCELLED else status, failure))"

definition lifted_handler ::
  "('c turn_completion \<Rightarrow> ('w turn_world, unit) task) \<Rightarrow> 'c turn_completion \<Rightarrow> ('w turn_state, unit) task" where
  "lifted_handler h c = with_world (h c)"

text \<open>The completion pipeline over a committed Context completion; whether it was left without failure.\<close>

definition finalize :: "('w, 'r, 'c) turn_env \<Rightarrow> calendar_day \<Rightarrow> 'c \<Rightarrow> ('w turn_state, bool) task" where
  "finalize env day c =
     task_bind (set_locals (\<lambda>l. l\<lparr>tl_failure := snd (status_of_locals l True)\<rparr>)) (\<lambda>_.
     with_locals (\<lambda>l.
       task_bind (task_sum (mk_turn_completion \<lparr>co_context_completion = c, co_active_day = day,
           co_status = fst (status_of_locals l True), co_output = tl_output l,
           co_exhausted = tl_exhausted l, co_completion = tl_completion l, co_failure = tl_failure l,
           co_finish_failures = tl_finish_failures l\<rparr>)) (\<lambda>completion.
       task_bind (completion_run \<lparr>cp_handlers = map lifted_handler (tn_handlers env),
           cp_recorder = map_option lifted_handler (tn_recorder env)\<rparr>
           (capture_finish_failure env) completion) (\<lambda>finalized.
       task_bind (note_interruption env FS_FINALIZE) (\<lambda>_.
       task_bind (set_locals (\<lambda>l. l\<lparr>tl_finish_failures := co_finish_failures finalized,
           tl_failure := or_else (tl_failure l) (case co_finish_failures finalized of [] \<Rightarrow> None | f # fs \<Rightarrow> Some f)\<rparr>)) (\<lambda>_.
       task_return (co_finish_failures finalized = [])))))))"

text \<open>The second \<open>try\<close>: the Context completion and whether it is committed.\<close>

definition turn_finish :: "('w, 'r, 'c) turn_env \<Rightarrow> calendar_day \<Rightarrow> ('w turn_state, 'c option \<times> bool) task" where
  "turn_finish env day =
     task_bind (task_then (with_locals (\<lambda>l. with_world (finish_turn env (tl_scope l)))) (\<lambda>r.
         task_bind (with_world (set_active_scope None)) (\<lambda>_. task_sum r)))
       (\<lambda>(c, b).
         task_bind (case b of
             None \<Rightarrow> task_return ()
           | Some b \<Rightarrow> set_locals (\<lambda>l. l\<lparr>tl_transfer := or_else (tl_transfer l) (Some (bd_transfer b)),
               tl_failure := or_else (tl_failure l) (bd_failure b)\<rparr>)) (\<lambda>_.
         case c of
           None \<Rightarrow> task_return (None, False)
         | Some c' \<Rightarrow> task_bind (finalize env day c') (\<lambda>committed. task_return (Some c', committed))))"

definition close_segments :: "('w, 'r, 'c) turn_env \<Rightarrow> ('w turn_state, unit) task" where
  "close_segments env =
     task_then (with_world (tn_close_segments env)) (\<lambda>r.
     task_bind (note_interruption env FS_CLOSE_SEGMENTS) (\<lambda>_.
     task_bind (task_sum r) (\<lambda>ds. set_locals (\<lambda>l. l\<lparr>tl_diagnostics := tl_diagnostics l @ ds\<rparr>))))"

text \<open>\<open>TurnExecutionCancelled\<close> carries the outcome it propagates the cancellation with.\<close>

datatype 'c turn_result = TurnReturned "'c turn_outcome" | TurnExecutionCancelled "'c turn_outcome"

definition turn_report ::
  "calendar_day \<Rightarrow> 'c option \<Rightarrow> bool \<Rightarrow> ('w turn_state, 'c turn_result) task" where
  "turn_report day c committed = with_locals (\<lambda>l.
     case status_of_locals l committed of (status, failure) \<Rightarrow>
       task_bind (task_sum (mk_turn_outcome \<lparr>tu_context_completion = c, tu_active_day = day,
           tu_status = status, tu_output = tl_output l, tu_exhausted = tl_exhausted l,
           tu_transfer = tl_transfer l, tu_failure = failure, tu_completion = tl_completion l,
           tu_finish_failures = tl_finish_failures l, tu_cleanup_diagnostics = tl_diagnostics l\<rparr>)) (\<lambda>outcome.
       task_return (if tl_cancelled l then TurnExecutionCancelled outcome else TurnReturned outcome)))"

text \<open>Everything up to the report: the Context completion, if there is one, and whether it is committed.\<close>

definition turn_lifecycle :: "('w, 'r, 'c) turn_env \<Rightarrow> turn_request \<Rightarrow> ('w turn_state, 'c option \<times> bool) task" where
  "turn_lifecycle env q =
     task_bind (task_then (task_catch (turn_body env q) (turn_raised env)) (\<lambda>r.
         task_bind (turn_settle env (rq_turn_id q)) (\<lambda>_. task_sum r))) (\<lambda>_.
     task_bind (map_output env) (\<lambda>_.
     task_then (turn_finish env (rq_active_day q)) (\<lambda>r.
         task_bind (close_segments env) (\<lambda>_. task_sum r))))"

definition turn_steps :: "('w, 'r, 'c) turn_env \<Rightarrow> turn_request \<Rightarrow> ('w turn_state, 'c turn_result) task" where
  "turn_steps env q =
     task_bind (turn_lifecycle env q) (\<lambda>(c, committed). turn_report (rq_active_day q) c committed)"

text \<open>\<open>TurnRunner.run\<close>; until the Turn has begun, its frame is named \<open>turn_start\<close>.\<close>

definition turn_run :: "('w, 'r, 'c) turn_env \<Rightarrow> turn_request \<Rightarrow> ('w turn_world, 'c turn_result) task" where
  "turn_run env q w =
     (case scope_push (rq_scope q) RL_TURN ''turn_start'' of
        Inl e \<Rightarrow> Some (w, Inl e)
      | Inr scope \<Rightarrow>
          (case turn_steps env q (start_locals scope, w) of
             None \<Rightarrow> None | Some (s, r) \<Rightarrow> Some (snd s, r)))"

end
