(* ===== verification/Inbox_Queue.thy ===== *)
theory Inbox_Queue
  imports Inbox
begin

text \<open>
  The Turn inbox as a machine: its operations as one step function, the abstract queue it
  implements (a set of numbered entries, a counter, one captured batch), and the invariant every
  operation keeps. Inbox_Proofs shows that the operations keep it.
\<close>

section \<open>The operations as a machine\<close>

datatype inbox_op =
    OpAccept inbox_record
  | OpAcceptEvent number environment_event
  | OpReserveTerminal string int
  | OpDeliverTerminal number string json_object
  | OpDeliverJobInputs number string "json_object list"
  | OpReleaseTerminal string
  | OpOpenQuestion question_request
  | OpReply number string question_answer
  | OpRequestBudget string int
  | OpGrantCycles string int
  | OpCapture
  | OpAck inbox_batch
  | OpWaitBegin "wait_condition option" "budget_request option"
  | OpWaitPass "source_status list" rat waiter
  | OpWaitCancel waiter
  | OpCloseIfEmpty
  | OpClose
  | OpSetActivity turn_state
  | OpSubscribe "turn_event_subscription list"

datatype inbox_output =
    OutDone | OutReceipt inbox_receipt | OutBatch inbox_batch | OutBool bool
  | OutRequest budget_request | OutWaiter waiter | OutWait wait_outcome

definition out_map :: "('a \<Rightarrow> inbox_output) \<Rightarrow> inbox \<times> 'a inbox_result \<Rightarrow> inbox \<times> inbox_output inbox_result" where
  "out_map f p = (fst p, (case snd p of Inl e \<Rightarrow> Inl e | Inr x \<Rightarrow> Inr (f x)))"

lemma fst_out_map [simp]: "fst (out_map f p) = fst p"
  by (simp add: out_map_def)

fun inbox_step :: "(string \<Rightarrow> string) \<Rightarrow> inbox_op \<Rightarrow> inbox \<Rightarrow> inbox \<times> inbox_output inbox_result" where
  "inbox_step digest (OpAccept r) ib = out_map OutReceipt (accept digest r ib)"
| "inbox_step digest (OpAcceptEvent received event) ib =
     out_map OutReceipt (accept_event digest received event ib)"
| "inbox_step digest (OpReserveTerminal job n) ib = out_map (\<lambda>_. OutDone) (reserve_terminal job n ib)"
| "inbox_step digest (OpDeliverTerminal received job payload) ib =
     out_map (\<lambda>_. OutDone) (deliver_terminal received job payload ib)"
| "inbox_step digest (OpDeliverJobInputs received job requests) ib =
     out_map (\<lambda>_. OutDone) (deliver_job_inputs received job requests ib)"
| "inbox_step digest (OpReleaseTerminal job) ib = (release_terminal job ib, Inr OutDone)"
| "inbox_step digest (OpOpenQuestion q) ib = out_map (\<lambda>_. OutDone) (open_question q ib)"
| "inbox_step digest (OpReply received qid answer) ib = out_map OutReceipt (reply digest received qid answer ib)"
| "inbox_step digest (OpRequestBudget fresh n) ib = out_map OutRequest (request_budget fresh n ib)"
| "inbox_step digest (OpGrantCycles rid n) ib = out_map OutBool (grant_cycles rid n ib)"
| "inbox_step digest OpCapture ib = (fst (capture ib), Inr (OutBatch (snd (capture ib))))"
| "inbox_step digest (OpAck b) ib = out_map (\<lambda>_. OutDone) (ack b ib)"
| "inbox_step digest (OpWaitBegin condition budget) ib = out_map OutWaiter (wait_begin condition budget ib)"
| "inbox_step digest (OpWaitPass statuses now wt) ib =
     (fst (wait_pass statuses now wt ib), Inr (OutWait (snd (wait_pass statuses now wt ib))))"
| "inbox_step digest (OpWaitCancel wt) ib = (wait_end wt ib, Inr OutDone)"
| "inbox_step digest OpCloseIfEmpty ib = (fst (close_if_empty ib), Inr (OutBool (snd (close_if_empty ib))))"
| "inbox_step digest OpClose ib = (close_inbox ib, Inr OutDone)"
| "inbox_step digest (OpSetActivity a) ib = (set_activity a ib, Inr OutDone)"
| "inbox_step digest (OpSubscribe subscriptions) ib = (subscribe_events subscriptions ib, Inr OutDone)"

section \<open>The abstract queue\<close>

text \<open>
  What the inbox promises its consumer: numbered entries, and at most one batch handed out. An
  entry leaves the queue in three ways only: the acknowledgement of the batch, a newer record of
  the same declared state (never one the batch holds), or a second reply to the same question.
\<close>

record queue =
  qu_items :: "entry set"
  qu_sequence :: nat
  qu_captured :: "inbox_batch option"
  qu_acknowledged :: nat

definition view :: "inbox \<Rightarrow> queue" where
  "view ib = \<lparr>qu_items = set (pending_entries ib), qu_sequence = ib_sequence ib,
     qu_captured = ib_captured ib, qu_acknowledged = ib_acknowledged_sequence ib\<rparr>"

definition after_capture :: "inbox_batch option \<Rightarrow> nat \<Rightarrow> bool" where
  "after_capture captured seq = (case captured of None \<Rightarrow> True | Some b \<Rightarrow> seq > next_sequence b)"

definition state_key :: "inbox_record \<Rightarrow> string \<times> string \<times> string" where
  "state_key r = (ir_coalesce_key r, ir_source r, ir_topic r)"

inductive queue_step :: "queue \<Rightarrow> queue \<Rightarrow> bool" where
  silent: "queue_step q q"
| admit: "queue_step q (q\<lparr>qu_items := insert (qu_sequence q + 1, r, n) (qu_items q),
             qu_sequence := qu_sequence q + 1\<rparr>)"
| supersede: "(seq, old, m) \<in> qu_items q \<Longrightarrow> after_capture (qu_captured q) seq
     \<Longrightarrow> ir_coalesce_key r \<noteq> [] \<Longrightarrow> state_key old = state_key r
     \<Longrightarrow> queue_step q (q\<lparr>qu_items := insert (qu_sequence q + 1, r, n) (qu_items q - {(seq, old, m)}),
             qu_sequence := qu_sequence q + 1\<rparr>)"
| overwrite: "(seq, old, m) \<in> qu_items q \<Longrightarrow> ir_kind old = IK_REPLY \<Longrightarrow> ir_kind r = IK_REPLY
     \<Longrightarrow> queue_step q (q\<lparr>qu_items := insert (qu_sequence q + 1, r, n) (qu_items q - {(seq, old, m)}),
             qu_sequence := qu_sequence q + 1\<rparr>)"
| take_batch: "qu_captured q = None \<Longrightarrow> sorted_wrt (<) (map fst (bt_records b))
     \<Longrightarrow> set (bt_records b) = (\<lambda>(seq, r, n). (seq, r)) ` qu_items q
     \<Longrightarrow> queue_step q (q\<lparr>qu_captured := Some b\<rparr>)"
| acknowledge: "qu_captured q = Some b
     \<Longrightarrow> queue_step q (q\<lparr>qu_items := {e \<in> qu_items q. fst e > next_sequence b},
             qu_captured := None, qu_acknowledged := max (qu_acknowledged q) (next_sequence b)\<rparr>)"

inductive_cases queue_stepE: "queue_step q q'"

definition queue_inv :: "queue \<Rightarrow> bool" where
  "queue_inv q =
     (inj_on fst (qu_items q) \<and> qu_acknowledged q \<le> qu_sequence q
      \<and> (\<forall>e \<in> qu_items q. qu_acknowledged q < fst e \<and> fst e \<le> qu_sequence q)
      \<and> (case qu_captured q of None \<Rightarrow> True
         | Some b \<Rightarrow> sorted_wrt (<) (map fst (bt_records b)) \<and> next_sequence b \<le> qu_sequence q
             \<and> (\<forall>(seq, r, n) \<in> qu_items q. seq \<le> next_sequence b \<longrightarrow> (seq, r) \<in> set (bt_records b))
             \<and> (\<forall>(seq, r) \<in> set (bt_records b). ir_kind r \<noteq> IK_REPLY \<longrightarrow> (\<exists>n. (seq, r, n) \<in> qu_items q))))"


lemma next_sequence_mem: "bt_records b \<noteq> [] \<Longrightarrow> \<exists>r. (next_sequence b, r) \<in> set (bt_records b)"
  by (cases "last (bt_records b)") (metis fst_conv last_in_set next_sequence_def)

lemma sorted_le_next:
  "sorted_wrt (<) (map fst (bt_records b)) \<Longrightarrow> (seq, r) \<in> set (bt_records b) \<Longrightarrow> seq \<le> next_sequence b"
proof (cases "bt_records b" rule: rev_cases)
  case (snoc ys y)
  moreover assume "sorted_wrt (<) (map fst (bt_records b))" "(seq, r) \<in> set (bt_records b)"
  ultimately show ?thesis
    by (auto simp: next_sequence_def sorted_wrt_append intro: order.strict_implies_order)
qed simp

definition batch_ok :: "entry set \<Rightarrow> nat \<Rightarrow> inbox_batch option \<Rightarrow> bool" where
  "batch_ok items sequence captured =
     (case captured of None \<Rightarrow> True
      | Some b \<Rightarrow> sorted_wrt (<) (map fst (bt_records b)) \<and> next_sequence b \<le> sequence
          \<and> (\<forall>(seq, r, n) \<in> items. seq \<le> next_sequence b \<longrightarrow> (seq, r) \<in> set (bt_records b))
          \<and> (\<forall>(seq, r) \<in> set (bt_records b). ir_kind r \<noteq> IK_REPLY \<longrightarrow> (\<exists>n. (seq, r, n) \<in> items)))"

lemma batch_ok_insert:
  assumes "batch_ok items sequence captured"
  shows "batch_ok (insert (sequence + 1, r, n) items) (sequence + 1) captured"
  using assms by (auto simp: batch_ok_def split: option.splits)

lemma batch_ok_remove:
  assumes "batch_ok items sequence captured" and "inj_on fst items" and "(seq, old, m) \<in> items"
    and "after_capture captured seq \<or> ir_kind old = IK_REPLY"
  shows "batch_ok (items - {(seq, old, m)}) sequence captured"
proof (cases captured)
  case (Some b)
  have "\<exists>n. (s, r, n) \<in> items - {(seq, old, m)}"
    if mem: "(s, r) \<in> set (bt_records b)" and kind: "ir_kind r \<noteq> IK_REPLY" for s r
  proof -
    from assms(1) Some mem kind obtain n where n: "(s, r, n) \<in> items" by (auto simp: batch_ok_def)
    have "s \<le> next_sequence b"
      using assms(1) Some mem by (auto simp: batch_ok_def intro: sorted_le_next)
    then have "(s, r, n) \<noteq> (seq, old, m)"
      using assms(4) kind Some by (auto simp: after_capture_def)
    with n show ?thesis by blast
  qed
  with assms(1) Some show ?thesis by (auto simp: batch_ok_def)
qed (simp add: batch_ok_def)

lemma queue_inv_alt:
  "queue_inv q \<longleftrightarrow> inj_on fst (qu_items q) \<and> qu_acknowledged q \<le> qu_sequence q
      \<and> (\<forall>e \<in> qu_items q. qu_acknowledged q < fst e \<and> fst e \<le> qu_sequence q)
      \<and> batch_ok (qu_items q) (qu_sequence q) (qu_captured q)"
  by (simp add: queue_inv_def batch_ok_def)

lemma queue_inv_insert:
  assumes "queue_inv q"
  shows "queue_inv (q\<lparr>qu_items := insert (qu_sequence q + 1, r, n) (qu_items q),
           qu_sequence := qu_sequence q + 1\<rparr>)"
proof -
  have "inj_on fst (insert (qu_sequence q + 1, r, n) (qu_items q))"
    using assms by (fastforce simp: queue_inv_alt inj_on_def)
  with assms batch_ok_insert show ?thesis by (auto simp: queue_inv_alt)
qed

lemma queue_inv_remove:
  assumes "queue_inv q" and "(seq, old, m) \<in> qu_items q"
    and "after_capture (qu_captured q) seq \<or> ir_kind old = IK_REPLY"
  shows "queue_inv (q\<lparr>qu_items := qu_items q - {(seq, old, m)}\<rparr>)"
  using assms batch_ok_remove [of "qu_items q" "qu_sequence q" "qu_captured q" seq old m]
  by (auto simp: queue_inv_alt intro: inj_on_subset)

lemma queue_inv_replace:
  assumes "queue_inv q" and "(seq, old, m) \<in> qu_items q"
    and "after_capture (qu_captured q) seq \<or> ir_kind old = IK_REPLY"
  shows "queue_inv (q\<lparr>qu_items := insert (qu_sequence q + 1, r, n) (qu_items q - {(seq, old, m)}),
           qu_sequence := qu_sequence q + 1\<rparr>)"
  using queue_inv_insert [OF queue_inv_remove [OF assms], of r n] by simp

lemma queue_inv_take:
  assumes "queue_inv q" and "sorted_wrt (<) (map fst (bt_records b))"
    and "set (bt_records b) = (\<lambda>(seq, r, n). (seq, r)) ` qu_items q"
  shows "queue_inv (q\<lparr>qu_captured := Some b\<rparr>)"
proof -
  have "next_sequence b \<le> qu_sequence q"
  proof (cases "bt_records b = []")
    case False
    then obtain r where "(next_sequence b, r) \<in> set (bt_records b)" by (blast dest: next_sequence_mem)
    with assms(3) obtain n where "(next_sequence b, r, n) \<in> qu_items q" by auto
    with assms(1) show ?thesis by (auto simp: queue_inv_alt)
  qed (simp add: next_sequence_def)
  with assms show ?thesis by (force simp: queue_inv_alt batch_ok_def)
qed

lemma queue_step_inv:
  assumes "queue_step q q'" and "queue_inv q"
  shows "queue_inv q'"
  using assms(1)
proof cases
  case (acknowledge b)
  with assms(2) show ?thesis by (auto simp: queue_inv_alt batch_ok_def intro: inj_on_subset)
qed (use assms(2) in \<open>auto intro: queue_inv_insert [simplified] queue_inv_replace [simplified]
        queue_inv_take\<close>)

section \<open>Slots and entries\<close>

lemma some_values_simps [simp]:
  "some_values [] = []"
  "some_values ((k, v) # d) = (case v of None \<Rightarrow> some_values d | Some e \<Rightarrow> e # some_values d)"
  by (simp_all add: some_values_def map_filter_simps split: option.split)

lemma some_values_append [simp]: "some_values (c @ d) = some_values c @ some_values d"
  by (induction c) (auto split: option.splits)

lemma set_some_values: "set (some_values d) = {e. \<exists>k. (k, Some e) \<in> set d}"
  by (induction d) (auto split: option.splits)

lemma some_values_fill:
  "map_of d k = None \<or> map_of d k = Some None
     \<Longrightarrow> mset (some_values (AList.update k (Some e) d)) = add_mset e (mset (some_values d))"
  by (induction d) (auto split: option.splits if_splits)

lemma some_values_reserve: "map_of d k = None \<Longrightarrow> some_values (AList.update k None d) = some_values d"
  by (induction d) (auto split: option.splits if_splits)

lemma some_values_keep:
  "(\<And>k e. (k, Some e) \<in> set d \<Longrightarrow> P (k, Some e)) \<Longrightarrow> some_values (filter P d) = some_values d"
proof (induction d)
  case (Cons kv d)
  then show ?case by (cases kv; cases "snd kv") auto
qed simp

lemma some_values_delete:
  assumes "distinct (dict_keys d)" and "map_of d k = Some None"
  shows "some_values (AList.delete k d) = some_values d"
proof -
  have "map_of d k = Some (Some e)" if "(k, Some e) \<in> set d" for e
    using assms(1) that by (rule map_of_distinct_mem)
  with assms(2) show ?thesis
    unfolding AList.delete_eq by (intro some_values_keep) auto
qed

lemma some_values_filter_slots:
  "some_values (filter (\<lambda>(key, item). case item of None \<Rightarrow> True | Some e \<Rightarrow> P e) d) = filter P (some_values d)"
proof (induction d)
  case (Cons kv d)
  then show ?case by (cases kv; cases "snd kv") simp_all
qed simp

lemma some_values_clear_slots:
  "some_values (map (\<lambda>(key, item). (key, case item of None \<Rightarrow> None
        | Some e \<Rightarrow> if P e then Some e else None))
      (filter (\<lambda>(key, item). Q key \<or> (case item of None \<Rightarrow> False | Some e \<Rightarrow> P e)) d)) = filter P (some_values d)"
proof (induction d)
  case (Cons kv d)
  then show ?case by (cases kv; cases "snd kv") simp_all
qed simp

lemma distinct_fst_mset: "mset xs = mset ys \<Longrightarrow> distinct (map fst xs) = distinct (map fst ys)"
  by (metis mset_eq_imp_distinct_iff mset_map)

lemma strictly_sorted_sort_key:
  "distinct (map fst xs) \<Longrightarrow> sorted_wrt (<) (map fst (sort_key fst (xs :: (nat \<times> 'b) list)))"
  using distinct_fst_mset [of "sort_key fst xs" xs] by (simp add: strict_sorted_iff)

section \<open>The invariant\<close>

definition structure_inv :: "inbox \<Rightarrow> bool" where
  "structure_inv ib =
     (queue_inv (view ib) \<and> distinct (map fst (pending_entries ib)) \<and> sorted_wrt (<) (map fst (ib_records ib))
      \<and> (\<forall>(seq, r, n) \<in> set (ib_records ib). ir_kind r \<noteq> IK_REPLY \<and> ir_kind r \<noteq> IK_JOB)
      \<and> (\<forall>(seq, r, n) \<in> set_option (ib_reply ib). ir_kind r = IK_REPLY)
      \<and> (\<forall>(seq, r, n) \<in> set (some_values (ib_terminals ib)). ir_kind r = IK_JOB)
      \<and> (\<forall>(seq, r, n) \<in> set (some_values (ib_job_inputs ib)). ir_kind r = IK_JOB)
      \<and> distinct (dict_keys (ib_terminals ib)))"

definition bounds_inv :: "inbox \<Rightarrow> bool" where
  "bounds_inv ib =
     (length (ordinary_entries ib) \<le> ib_capacity ib
      \<and> entries_size (ordinary_entries ib) \<le> ib_max_bytes ib
      \<and> (\<forall>(seq, r, n) \<in> set (ib_records ib) \<union> set_option (ib_reply ib). n \<le> ib_max_record_bytes ib)
      \<and> length (ib_terminals ib) \<le> ib_terminal_capacity ib
      \<and> (\<forall>(seq, r, n) \<in> set (some_values (ib_terminals ib)) \<union> set (some_values (ib_job_inputs ib)).
            n \<le> ib_max_terminal_bytes ib)
      \<and> (\<forall>job. length (filter (\<lambda>(owner, i). owner = job) (dict_keys (ib_job_inputs ib))) \<le> 4))"

definition state_keys :: "(nat \<Rightarrow> bool) \<Rightarrow> entry list \<Rightarrow> (string \<times> string \<times> string) list" where
  "state_keys P es = map (\<lambda>(seq, r, n). state_key r)
     (filter (\<lambda>(seq, r, n). ir_coalesce_key r \<noteq> [] \<and> P seq) es)"

definition coalesce_inv :: "inbox \<Rightarrow> bool" where
  "coalesce_inv ib =
     (distinct (state_keys (after_capture (ib_captured ib)) (ib_records ib))
      \<and> distinct (state_keys (\<lambda>seq. \<not> after_capture (ib_captured ib) seq) (ib_records ib)))"

definition receipts_inv :: "(string \<Rightarrow> string) \<Rightarrow> inbox \<Rightarrow> bool" where
  "receipts_inv digest ib =
     (\<forall>(seq, r, n) \<in> set (ib_records ib). \<exists>encoded. encode_record r = Inr encoded \<and> n = length encoded
        \<and> map_of (ib_receipts ib) (ir_record_id r) = Some (seq, digest encoded))"

definition inbox_inv :: "(string \<Rightarrow> string) \<Rightarrow> inbox \<Rightarrow> bool" where
  "inbox_inv digest ib =
     (structure_inv ib \<and> bounds_inv ib \<and> coalesce_inv ib \<and> receipts_inv digest ib)"

text \<open>Operations that touch neither the entries nor the receipts.\<close>

definition core :: "inbox \<Rightarrow> inbox" where
  "core ib = ib\<lparr>ib_closed := False, ib_budget_request := None, ib_grant := None, ib_decisions := [],
     ib_wait_reason := None, ib_question := None, ib_activity := TS_QUEUED, ib_subscriptions := [],
     ib_waiting := None, ib_next_uid := 0\<rparr>"

lemmas inbox_inv_defs = inbox_inv_def structure_inv_def bounds_inv_def coalesce_inv_def
  receipts_inv_def view_def pending_entries_def ordinary_entries_def

lemma inbox_inv_core: "inbox_inv digest (core ib) = inbox_inv digest ib"
  by (simp add: inbox_inv_defs core_def)

lemma view_core: "view (core ib) = view ib"
  by (simp add: view_def core_def pending_entries_def)

lemma core_waiting:
  "core (wait_end wt ib) = core ib"
  "core (fst (wait_begin condition budget ib)) = core ib"
  "core (fst (wait_observe statuses now wt ib)) = core ib"
  "core (fst (wait_decide now wt ib)) = core ib"
  by (auto simp: core_def wait_end_def wait_begin_def wait_observe_def wait_decide_def Let_def
      split: option.splits sum.splits)

lemma core_wait_pass: "core (fst (wait_pass statuses now wt ib)) = core ib"
  using core_waiting(3) [of statuses now wt ib]
  by (cases "wait_observe statuses now wt ib") (auto simp: wait_pass_def core_waiting split: sum.splits)

lemma core_control:
  "core (fst (open_question q ib)) = core ib"
  "core (fst (request_budget fresh n ib)) = core ib"
  "core (fst (grant_cycles rid n ib)) = core ib"
  "core (fst (close_if_empty ib)) = core ib"
  "core (close_inbox ib) = core ib"
  "core (set_activity a ib) = core ib"
  "core (subscribe_events subscriptions ib) = core ib"
  by (auto simp: core_def open_question_def request_budget_def grant_cycles_def close_if_empty_def
      close_inbox_def set_activity_def subscribe_events_def split: option.splits sum.splits)

end
