(* ===== verification/Inbox_Proofs.thy ===== *)
theory Inbox_Proofs
  imports Inbox_Queue
begin

text \<open>
  Every operation of the Turn inbox keeps its invariant and is a sequence of steps of the abstract
  queue, so the inbox is a machine; its properties are in Inbox_Properties.
\<close>

section \<open>Receipts\<close>

lemma evict_keeps_pending:
  "identity \<in> set pending
     \<Longrightarrow> map_of (evict_receipts bound pending ks receipts) identity = map_of receipts identity"
  by (induction bound pending ks receipts rule: evict_receipts.induct) (auto simp: AList.delete_conv')

lemma retain_keeps_pending:
  "identity \<in> set pending
     \<Longrightarrow> map_of (retain_receipts retained pending receipts) identity = map_of receipts identity"
  by (simp add: retain_receipts_def evict_keeps_pending)

lemma evict_subset: "map_of (evict_receipts bound pending ks receipts) k = Some v \<Longrightarrow> map_of receipts k = Some v"
  by (induction bound pending ks receipts rule: evict_receipts.induct)
    (auto simp: AList.delete_conv' split: if_splits)

section \<open>Admission\<close>

definition admitted :: "(string \<Rightarrow> string) \<Rightarrow> inbox_record \<Rightarrow> string \<Rightarrow> inbox \<Rightarrow> inbox" where
  "admitted digest r encoded ib =
     (let records = (case superseded ib r of None \<Rightarrow> ib_records ib
            | Some previous \<Rightarrow> remove1 previous (ib_records ib))
          @ [(ib_sequence ib + 1, r, length encoded)]
      in ib\<lparr>ib_sequence := ib_sequence ib + 1, ib_records := records,
            ib_receipts := retain_receipts (ib_retained_receipts ib) (map entry_id records)
              (AList.update (ir_record_id r) (ib_sequence ib + 1, digest encoded) (ib_receipts ib))\<rparr>)"

lemma accept_cases:
  obtains (rejected) e where "accept digest r ib = (ib, Inl e)"
  | (replayed) encoded seq where "encode_record r = Inr encoded"
      "ir_kind r \<noteq> IK_REPLY" "ir_kind r \<noteq> IK_JOB"
      "map_of (ib_receipts ib) (ir_record_id r) = Some (seq, digest encoded)"
      "accept digest r ib = (ib, Inr \<lparr>rc_sequence = seq, rc_record_id = ir_record_id r, rc_accepted = False\<rparr>)"
  | (fresh) encoded where "encode_record r = Inr encoded" "ir_kind r \<noteq> IK_REPLY" "ir_kind r \<noteq> IK_JOB"
      "ir_coalesce_key r \<noteq> [] \<Longrightarrow> coalesce_allowed ib r"
      "map_of (ib_receipts ib) (ir_record_id r) = None" "\<not> ib_closed ib"
      "ir_coalesce_key r = [] \<Longrightarrow> length (ordinary_entries ib) < ib_capacity ib
         \<and> entries_size (ordinary_entries ib) + length encoded \<le> ib_max_bytes ib"
      "length encoded \<le> ib_max_record_bytes ib"
      "accept digest r ib = (admitted digest r encoded ib,
         Inr \<lparr>rc_sequence = ib_sequence ib + 1, rc_record_id = ir_record_id r, rc_accepted = True\<rparr>)"
proof (cases "ir_kind r = IK_REPLY \<or> ir_kind r = IK_JOB \<or> ir_coalesce_key r \<noteq> [] \<and> \<not> coalesce_allowed ib r")
  case True
  then have "\<exists>e. accept digest r ib = (ib, Inl e)" by (auto simp: accept_def)
  then show thesis using rejected by blast
next
  case guard: False
  show thesis
  proof (cases "encode_record r")
    case (Inl e)
    with guard have "accept digest r ib = (ib, Inl e)" by (auto simp: accept_def)
    then show thesis by (rule rejected)
  next
    case enc: (Inr encoded)
    show thesis
    proof (cases "map_of (ib_receipts ib) (ir_record_id r)")
      case (Some p)
      then obtain seq d where p: "map_of (ib_receipts ib) (ir_record_id r) = Some (seq, d)" by (cases p) auto
      show thesis
      proof (cases "d = digest encoded")
        case True
        with guard enc p show thesis by (intro replayed [of encoded seq]) (auto simp: accept_def)
      next
        case False
        with guard enc p have "\<exists>e. accept digest r ib = (ib, Inl e)" by (auto simp: accept_def)
        then show thesis using rejected by blast
      qed
    next
      case None
      let ?full = "(ir_coalesce_key r = [] \<and> (length (ordinary_entries ib) \<ge> ib_capacity ib
          \<or> entries_size (ordinary_entries ib) + length encoded > ib_max_bytes ib))
        \<or> length encoded > ib_max_record_bytes ib"
      show thesis
      proof (cases "ib_closed ib \<or> ?full")
        case True
        with guard enc None have "\<exists>e. accept digest r ib = (ib, Inl e)"
          by (auto simp: accept_def Let_def)
        then show thesis using rejected by blast
      next
        case False
        with guard enc None have "accept digest r ib = (admitted digest r encoded ib,
         Inr \<lparr>rc_sequence = ib_sequence ib + 1, rc_record_id = ir_record_id r, rc_accepted = True\<rparr>)"
          by (auto simp: accept_def Let_def admitted_def)
        with guard enc None False show thesis by (intro fresh [of encoded]) auto
      qed
    qed
  qed
qed

lemma superseded_Some:
  assumes "superseded ib r = Some e"
  obtains seq old m where "e = (seq, old, m)" "e \<in> set (ib_records ib)" "ir_coalesce_key r \<noteq> []"
    "state_key old = state_key r" "after_capture (ib_captured ib) seq"
proof -
  obtain seq old m where e: "e = (seq, old, m)" by (cases e)
  with assms have "e \<in> set (ib_records ib)" "ir_coalesce_key r \<noteq> []"
    "state_key old = state_key r" "after_capture (ib_captured ib) seq"
    by (auto simp: superseded_def state_key_def after_capture_def dest!: find_Some_mem)
  with e show thesis by (rule that)
qed

lemma superseded_None:
  assumes "superseded ib r = None" "ir_coalesce_key r \<noteq> []" "(seq, old, m) \<in> set (ib_records ib)"
    "after_capture (ib_captured ib) seq"
  shows "state_key old \<noteq> state_key r"
proof
  assume "state_key old = state_key r"
  with assms show False
    by (auto simp: superseded_def find_None_iff state_key_def after_capture_def)
qed

text \<open>The records after an admission: those the new record does not replace, then the new one.\<close>

definition kept_records :: "inbox_record \<Rightarrow> inbox \<Rightarrow> entry list" where
  "kept_records r ib = (case superseded ib r of None \<Rightarrow> ib_records ib
     | Some previous \<Rightarrow> remove1 previous (ib_records ib))"

lemma admitted_records:
  "ib_records (admitted digest r encoded ib)
     = kept_records r ib @ [(ib_sequence ib + 1, r, length encoded)]"
  by (simp add: admitted_def kept_records_def Let_def split: option.split)

lemma admitted_frame:
  "ib_sequence (admitted digest r encoded ib) = ib_sequence ib + 1"
  "ib_reply (admitted digest r encoded ib) = ib_reply ib"
  "ib_terminals (admitted digest r encoded ib) = ib_terminals ib"
  "ib_job_inputs (admitted digest r encoded ib) = ib_job_inputs ib"
  "ib_captured (admitted digest r encoded ib) = ib_captured ib"
  "ib_acknowledged_sequence (admitted digest r encoded ib) = ib_acknowledged_sequence ib"
  "ib_capacity (admitted digest r encoded ib) = ib_capacity ib"
  "ib_max_bytes (admitted digest r encoded ib) = ib_max_bytes ib"
  "ib_max_record_bytes (admitted digest r encoded ib) = ib_max_record_bytes ib"
  "ib_terminal_capacity (admitted digest r encoded ib) = ib_terminal_capacity ib"
  "ib_max_terminal_bytes (admitted digest r encoded ib) = ib_max_terminal_bytes ib"
  by (simp_all add: admitted_def Let_def)

lemma kept_records_filter:
  assumes "distinct (map fst (ib_records ib))"
  shows "kept_records r ib = filter (\<lambda>e. superseded ib r \<noteq> Some e) (ib_records ib)"
proof -
  have "distinct (ib_records ib)" using assms by (simp add: distinct_map)
  then show ?thesis
    by (simp add: kept_records_def distinct_remove1_removeAll removeAll_filter_not_eq split: option.split)
qed

lemma structure_distinct:
  assumes "structure_inv ib"
  shows "distinct (map fst (ib_records ib))" "distinct (ib_records ib)"
  using assms by (auto simp: structure_inv_def pending_entries_def distinct_map)

lemma sorted_wrt_filter_map: "sorted_wrt R (map f xs) \<Longrightarrow> sorted_wrt R (map f (filter P xs))"
  by (induction xs) auto

lemma structure_kinds_disjoint:
  assumes "structure_inv ib" "(seq, r, n) \<in> set (ib_records ib)"
  shows "(seq, r, n) \<notin> set_option (ib_reply ib)" "(seq, r, n) \<notin> set (some_values (ib_terminals ib))"
    "(seq, r, n) \<notin> set (some_values (ib_job_inputs ib))"
  using assms by (auto simp: structure_inv_def)

lemma pending_set:
  "set (pending_entries ib) = set (ib_records ib) \<union> set_option (ib_reply ib)
     \<union> set (some_values (ib_terminals ib)) \<union> set (some_values (ib_job_inputs ib))"
  by (auto simp: pending_entries_def split: option.splits)

lemma pending_mset:
  "mset (pending_entries ib) = mset (ib_records ib) + mset_set (set_option (ib_reply ib))
     + mset (some_values (ib_terminals ib)) + mset (some_values (ib_job_inputs ib))"
  by (auto simp: pending_entries_def split: option.splits)

lemma view_admitted:
  assumes "structure_inv ib"
  shows "view (admitted digest r encoded ib) = (view ib)\<lparr>
      qu_items := insert (ib_sequence ib + 1, r, length encoded)
        (qu_items (view ib) - set_option (superseded ib r)),
      qu_sequence := ib_sequence ib + 1\<rparr>"
proof -
  have "set (pending_entries (admitted digest r encoded ib)) =
      insert (ib_sequence ib + 1, r, length encoded)
        (set (pending_entries ib) - set_option (superseded ib r))"
  proof (cases "superseded ib r")
    case None
    then show ?thesis
      by (auto simp: pending_set admitted_records admitted_frame kept_records_def)
  next
    case (Some e)
    then have "e \<in> set (ib_records ib)" by (metis superseded_Some)
    then have "e \<notin> set_option (ib_reply ib)" "e \<notin> set (some_values (ib_terminals ib))"
      "e \<notin> set (some_values (ib_job_inputs ib))"
      using structure_kinds_disjoint [OF assms] by (metis prod.collapse)+
    with Some show ?thesis
      by (auto simp: pending_set admitted_records admitted_frame
          kept_records_filter [OF structure_distinct(1) [OF assms]])
  qed
  then show ?thesis by (simp add: view_def admitted_frame)
qed

lemma admitted_step:
  assumes "structure_inv ib"
  shows "queue_step (view ib) (view (admitted digest r encoded ib))"
proof (cases "superseded ib r")
  case None
  then show ?thesis
    using queue_step.admit [of "view ib" r "length encoded"]
    by (simp add: view_admitted [OF assms]) (simp add: view_def)
next
  case (Some e)
  then obtain seq old m where e: "e = (seq, old, m)" "e \<in> set (ib_records ib)" "ir_coalesce_key r \<noteq> []"
    "state_key old = state_key r" "after_capture (ib_captured ib) seq"
    by (rule superseded_Some)
  then have "(seq, old, m) \<in> qu_items (view ib)" "after_capture (qu_captured (view ib)) seq"
    by (auto simp: view_def pending_set)
  with e(3,4) have "queue_step (view ib) ((view ib)\<lparr>qu_items := insert (qu_sequence (view ib) + 1, r, length encoded)
      (qu_items (view ib) - {(seq, old, m)}), qu_sequence := qu_sequence (view ib) + 1\<rparr>)"
    by (intro queue_step.supersede)
  with Some e(1) show ?thesis by (simp add: view_admitted [OF assms]) (simp add: view_def)
qed

lemma structure_view: "structure_inv ib \<Longrightarrow> queue_inv (view ib)"
  by (simp add: structure_inv_def)

lemma pending_below:
  assumes "structure_inv ib" "e \<in> set (pending_entries ib)"
  shows "fst e \<le> ib_sequence ib" "ib_acknowledged_sequence ib < fst e"
  using structure_view [OF assms(1)] assms(2) by (auto simp: queue_inv_def view_def)

lemma distinct_fst_insert:
  assumes "distinct (map fst (as @ bs))" and "\<And>e. e \<in> set as \<union> set bs \<Longrightarrow> fst e < k"
  shows "distinct (map fst (filter P as @ (k :: nat, y) # bs))"
proof -
  have "distinct (map fst (filter P as))" using assms(1) by (auto intro: distinct_map_filter)
  moreover have "k \<notin> fst ` (set as \<union> set bs)" using assms(2) by force
  ultimately show ?thesis using assms(1) by auto
qed

lemma admitted_structure:
  assumes inv: "structure_inv ib" and kind: "ir_kind r \<noteq> IK_REPLY" "ir_kind r \<noteq> IK_JOB"
  shows "structure_inv (admitted digest r encoded ib)"
proof -
  let ?kept = "kept_records r ib" and ?new = "(ib_sequence ib + 1, r, length encoded)"
  let ?rest = "(case ib_reply ib of None \<Rightarrow> [] | Some e \<Rightarrow> [e])
      @ some_values (ib_terminals ib) @ some_values (ib_job_inputs ib)"
  have kept: "?kept = filter (\<lambda>e. superseded ib r \<noteq> Some e) (ib_records ib)"
    by (rule kept_records_filter) (rule structure_distinct [OF inv])
  have below: "fst e < ib_sequence ib + 1" if "e \<in> set (ib_records ib) \<union> set ?rest" for e
    using pending_below(1) [OF inv, of e] that by (auto simp: pending_entries_def)
  have "distinct (map fst (ib_records ib @ ?rest))"
    using inv by (simp add: structure_inv_def pending_entries_def)
  from distinct_fst_insert [OF this below]
  have "distinct (map fst (filter (\<lambda>e. superseded ib r \<noteq> Some e) (ib_records ib) @ ?new # ?rest))" .
  then have d: "distinct (map fst (pending_entries (admitted digest r encoded ib)))"
    by (simp only: pending_entries_def admitted_records admitted_frame kept append.assoc append_Nil append_Cons)
  have "sorted_wrt (<) (map fst (?kept @ [?new]))"
    using inv below by (auto simp: structure_inv_def sorted_wrt_append sorted_wrt_filter_map kept)
  moreover have "queue_inv (view (admitted digest r encoded ib))"
    by (rule queue_step_inv [OF admitted_step [OF inv] structure_view [OF inv]])
  ultimately show ?thesis
    using inv kind d by (auto simp: structure_inv_def admitted_records admitted_frame kept)
qed

lemma entries_size_filter: "entries_size (filter P es) \<le> entries_size es"
  by (induction es) (auto simp: entries_size_def)

lemma filter_not_superseded_ordinary:
  "filter (\<lambda>(seq, item, n). ir_coalesce_key item = []) (filter (\<lambda>e. superseded ib r \<noteq> Some e) es)
     = filter (\<lambda>(seq, item, n). ir_coalesce_key item = []) es"
proof -
  have "ir_coalesce_key item \<noteq> []" if "superseded ib r = Some (seq, item, n)" for seq item n
    using that by (auto elim!: superseded_Some simp: state_key_def)
  then show ?thesis unfolding filter_filter by (intro filter_cong refl) auto
qed

lemma admitted_ordinary:
  assumes "structure_inv ib"
  shows "ordinary_entries (admitted digest r encoded ib)
    = ordinary_entries ib @ (if ir_coalesce_key r = [] then [(ib_sequence ib + 1, r, length encoded)] else [])"
  by (simp add: ordinary_entries_def admitted_records filter_not_superseded_ordinary
      kept_records_filter [OF structure_distinct(1) [OF assms]] del: filter_filter)

lemma admitted_bounds:
  assumes inv: "structure_inv ib" "bounds_inv ib"
    and "ir_coalesce_key r = [] \<Longrightarrow> length (ordinary_entries ib) < ib_capacity ib
         \<and> entries_size (ordinary_entries ib) + length encoded \<le> ib_max_bytes ib"
    and "length encoded \<le> ib_max_record_bytes ib"
  shows "bounds_inv (admitted digest r encoded ib)"
proof -
  have "set (ib_records (admitted digest r encoded ib))
      \<subseteq> insert (ib_sequence ib + 1, r, length encoded) (set (ib_records ib))"
    by (auto simp: admitted_records kept_records_filter [OF structure_distinct(1) [OF inv(1)]])
  then have "\<forall>(seq, r, n) \<in> set (ib_records (admitted digest r encoded ib)) \<union> set_option (ib_reply ib).
      n \<le> ib_max_record_bytes ib"
    using inv(2) assms(4) by (fastforce simp: bounds_inv_def)
  with inv(2) assms(3) show ?thesis
    by (auto simp: bounds_inv_def admitted_frame admitted_ordinary [OF inv(1)] entries_size_def)
qed

lemma state_keys_append: "state_keys P (xs @ ys) = state_keys P xs @ state_keys P ys"
  by (simp add: state_keys_def)

lemma distinct_state_keys_filter:
  assumes "distinct (state_keys P es)"
  shows "distinct (state_keys P (filter Q es))"
proof -
  have "filter R (filter Q es) = filter Q (filter R es)" for R by (simp add: conj_commute)
  with assms show ?thesis by (simp only: state_keys_def distinct_map_filter)
qed

lemma state_keys_mem:
  "k \<in> set (state_keys P es) \<longleftrightarrow>
     (\<exists>seq r n. (seq, r, n) \<in> set es \<and> ir_coalesce_key r \<noteq> [] \<and> P seq \<and> k = state_key r)"
  by (force simp: state_keys_def)

lemma admitted_coalesce:
  assumes inv: "structure_inv ib" "coalesce_inv ib"
  shows "coalesce_inv (admitted digest r encoded ib)"
proof -
  let ?kept = "kept_records r ib" and ?P = "after_capture (ib_captured ib)"
  have kept: "?kept = filter (\<lambda>e. superseded ib r \<noteq> Some e) (ib_records ib)"
    by (rule kept_records_filter) (rule structure_distinct [OF inv(1)])
  have after: "?P (ib_sequence ib + 1)"
    using structure_view [OF inv(1)]
    by (auto simp: queue_inv_def view_def after_capture_def split: option.splits)
  have "state_key r \<notin> set (state_keys ?P ?kept)" if coal: "ir_coalesce_key r \<noteq> []"
  proof
    assume "state_key r \<in> set (state_keys ?P ?kept)"
    then obtain seq old m where old: "(seq, old, m) \<in> set ?kept" "?P seq" "state_key old = state_key r"
      by (auto simp: state_keys_mem)
    then have mem: "(seq, old, m) \<in> set (ib_records ib)" by (simp add: kept)
    with old coal obtain e where e: "superseded ib r = Some e"
      by (metis not_None_eq superseded_None)
    then obtain seq' old' m' where e': "e = (seq', old', m')" "e \<in> set (ib_records ib)"
      "state_key old' = state_key r" "?P seq'"
      by (rule superseded_Some)
    have "(seq, old, m) = e"
    proof -
      have inj: "distinct (map (\<lambda>(seq, r, n). state_key r)
          (filter (\<lambda>(seq, r, n). ir_coalesce_key r \<noteq> [] \<and> ?P seq) (ib_records ib)))"
        using inv(2) by (simp add: coalesce_inv_def state_keys_def)
      have "ir_coalesce_key old \<noteq> []" "ir_coalesce_key old' \<noteq> []"
        using old(3) e'(3) coal by (auto simp: state_key_def)
      with inj mem old e' show ?thesis
        by (auto simp: distinct_map inj_on_def)
    qed
    with old(1) e show False by (simp add: kept)
  qed
  moreover have "distinct (state_keys ?P ?kept)" "distinct (state_keys (\<lambda>seq. \<not> ?P seq) ?kept)"
    using inv(2) by (simp_all add: kept coalesce_inv_def distinct_state_keys_filter)
  ultimately show ?thesis
    using after by (auto simp: coalesce_inv_def admitted_records admitted_frame state_keys_append
        state_keys_mem) (auto simp: state_keys_def)
qed

lemma admitted_receipts:
  assumes inv: "structure_inv ib" "receipts_inv digest ib"
    and "encode_record r = Inr encoded" "map_of (ib_receipts ib) (ir_record_id r) = None"
  shows "receipts_inv digest (admitted digest r encoded ib)"
proof -
  let ?receipts = "AList.update (ir_record_id r) (ib_sequence ib + 1, digest encoded) (ib_receipts ib)"
  have kept: "kept_records r ib = filter (\<lambda>e. superseded ib r \<noteq> Some e) (ib_records ib)"
    by (rule kept_records_filter) (rule structure_distinct [OF inv(1)])
  have "map_of (ib_receipts (admitted digest r encoded ib)) (ir_record_id item)
      = map_of ?receipts (ir_record_id item)"
    if "(seq, item, n) \<in> set (ib_records (admitted digest r encoded ib))" for seq item n
  proof -
    have "ib_receipts (admitted digest r encoded ib) = retain_receipts (ib_retained_receipts ib)
        (map entry_id (ib_records (admitted digest r encoded ib))) ?receipts"
      by (simp add: admitted_def Let_def)
    moreover have "ir_record_id item \<in> set (map entry_id (ib_records (admitted digest r encoded ib)))"
      using that by (force simp: entry_id_def)
    ultimately show ?thesis by (simp add: retain_keeps_pending del: set_map)
  qed
  with assms show ?thesis
    by (fastforce simp: receipts_inv_def admitted_records kept update_conv')
qed

lemma accept_inv:
  assumes "inbox_inv digest ib"
  shows "inbox_inv digest (fst (accept digest r ib))" "queue_step (view ib) (view (fst (accept digest r ib)))"
proof -
  have "inbox_inv digest (fst (accept digest r ib)) \<and> queue_step (view ib) (view (fst (accept digest r ib)))"
  proof (cases rule: accept_cases [of digest r ib])
    case (fresh encoded)
    with assms show ?thesis
      by (simp add: inbox_inv_def admitted_structure admitted_bounds admitted_coalesce admitted_receipts
          admitted_step)
  qed (use assms in \<open>simp_all add: queue_step.silent\<close>)
  then show "inbox_inv digest (fst (accept digest r ib))"
    "queue_step (view ib) (view (fst (accept digest r ib)))" by simp_all
qed

section \<open>Slots\<close>

text \<open>An operation that adds one numbered entry, wherever it is stored.\<close>

lemma add_entry:
  assumes inv: "structure_inv ib"
    and pending: "mset (pending_entries ib') = add_mset (ib_sequence ib + 1, r, n) (mset (pending_entries ib))"
    and frame: "ib_sequence ib' = ib_sequence ib + 1" "ib_captured ib' = ib_captured ib"
      "ib_acknowledged_sequence ib' = ib_acknowledged_sequence ib"
  shows "queue_step (view ib) (view ib')" "distinct (map fst (pending_entries ib'))"
proof -
  have "set (pending_entries ib') = insert (ib_sequence ib + 1, r, n) (set (pending_entries ib))"
    using arg_cong [OF pending, of set_mset] by simp
  then have "view ib' = (view ib)\<lparr>qu_items := insert (qu_sequence (view ib) + 1, r, n) (qu_items (view ib)),
      qu_sequence := qu_sequence (view ib) + 1\<rparr>"
    by (simp add: view_def frame)
  then show "queue_step (view ib) (view ib')" using queue_step.admit by simp
  have "mset (pending_entries ib') = mset ((ib_sequence ib + 1, r, n) # pending_entries ib)"
    using pending by simp
  then have "distinct (map fst (pending_entries ib'))
      = distinct (map fst ((ib_sequence ib + 1, r, n) # pending_entries ib))"
    by (rule distinct_fst_mset)
  moreover have "ib_sequence ib + 1 \<notin> fst ` set (pending_entries ib)"
    using pending_below(1) [OF inv] by force
  ultimately show "distinct (map fst (pending_entries ib'))"
    using inv by (simp add: structure_inv_def)
qed

lemma job_record_kind: "job_record payload rid received = Inr r \<Longrightarrow> ir_kind r = IK_JOB"
  by (auto simp: job_record_def mk_inbox_record_def split: if_splits number.splits)

definition fill_terminal :: "string \<Rightarrow> inbox_record \<Rightarrow> nat \<Rightarrow> inbox \<Rightarrow> inbox" where
  "fill_terminal job r n ib = ib\<lparr>ib_sequence := ib_sequence ib + 1,
     ib_terminals := AList.update job (Some (ib_sequence ib + 1, r, n)) (ib_terminals ib)\<rparr>"

definition fill_job_input :: "string \<times> string \<Rightarrow> inbox_record \<Rightarrow> nat \<Rightarrow> inbox \<Rightarrow> inbox" where
  "fill_job_input key r n ib = ib\<lparr>ib_sequence := ib_sequence ib + 1,
     ib_job_inputs := AList.update key (Some (ib_sequence ib + 1, r, n)) (ib_job_inputs ib)\<rparr>"

definition fill_reply :: "string \<Rightarrow> string \<Rightarrow> inbox_record \<Rightarrow> nat \<Rightarrow> inbox \<Rightarrow> inbox" where
  "fill_reply rid dg r n ib = ib\<lparr>ib_sequence := ib_sequence ib + 1,
     ib_reply := Some (ib_sequence ib + 1, r, n),
     ib_receipts := AList.update rid (ib_sequence ib + 1, dg) (ib_receipts ib)\<rparr>"

lemma set_fill: "mset xs = add_mset y (mset ys) \<Longrightarrow> set xs = insert y (set ys)"
  by (metis set_mset_add_mset_insert set_mset_mset)

lemma fill_terminal_frame [simp]:
  "ib_records (fill_terminal job r n ib) = ib_records ib"
  "ib_reply (fill_terminal job r n ib) = ib_reply ib"
  "ib_job_inputs (fill_terminal job r n ib) = ib_job_inputs ib"
  "ib_sequence (fill_terminal job r n ib) = ib_sequence ib + 1"
  "ib_captured (fill_terminal job r n ib) = ib_captured ib"
  "ib_receipts (fill_terminal job r n ib) = ib_receipts ib"
  "ib_acknowledged_sequence (fill_terminal job r n ib) = ib_acknowledged_sequence ib"
  "ib_capacity (fill_terminal job r n ib) = ib_capacity ib"
  "ib_max_bytes (fill_terminal job r n ib) = ib_max_bytes ib"
  "ib_max_record_bytes (fill_terminal job r n ib) = ib_max_record_bytes ib"
  "ib_terminal_capacity (fill_terminal job r n ib) = ib_terminal_capacity ib"
  "ib_max_terminal_bytes (fill_terminal job r n ib) = ib_max_terminal_bytes ib"
  by (simp_all add: fill_terminal_def)

lemma fill_job_input_frame [simp]:
  "ib_records (fill_job_input key r n ib) = ib_records ib"
  "ib_reply (fill_job_input key r n ib) = ib_reply ib"
  "ib_terminals (fill_job_input key r n ib) = ib_terminals ib"
  "ib_sequence (fill_job_input key r n ib) = ib_sequence ib + 1"
  "ib_captured (fill_job_input key r n ib) = ib_captured ib"
  "ib_receipts (fill_job_input key r n ib) = ib_receipts ib"
  "ib_acknowledged_sequence (fill_job_input key r n ib) = ib_acknowledged_sequence ib"
  "ib_capacity (fill_job_input key r n ib) = ib_capacity ib"
  "ib_max_bytes (fill_job_input key r n ib) = ib_max_bytes ib"
  "ib_max_record_bytes (fill_job_input key r n ib) = ib_max_record_bytes ib"
  "ib_terminal_capacity (fill_job_input key r n ib) = ib_terminal_capacity ib"
  "ib_max_terminal_bytes (fill_job_input key r n ib) = ib_max_terminal_bytes ib"
  by (simp_all add: fill_job_input_def)

lemma fill_terminal_inv:
  assumes inv: "inbox_inv digest ib" and slot: "map_of (ib_terminals ib) job = Some None"
    and r: "ir_kind r = IK_JOB" "n \<le> ib_max_terminal_bytes ib"
  shows "inbox_inv digest (fill_terminal job r n ib) \<and> queue_step (view ib) (view (fill_terminal job r n ib))"
proof -
  let ?ib' = "fill_terminal job r n ib"
  have vals: "mset (some_values (ib_terminals ?ib'))
      = add_mset (ib_sequence ib + 1, r, n) (mset (some_values (ib_terminals ib)))"
    by (simp add: fill_terminal_def some_values_fill slot)
  then have "mset (pending_entries ?ib') = add_mset (ib_sequence ib + 1, r, n) (mset (pending_entries ib))"
    by (simp add: pending_mset)
  from add_entry [OF _ this] inv
  have step: "queue_step (view ib) (view ?ib')" "distinct (map fst (pending_entries ?ib'))"
    by (simp_all add: inbox_inv_def)
  have "job \<in> set (dict_keys (ib_terminals ib))" using slot by (force dest: map_of_SomeD)
  then have keys: "dict_keys (ib_terminals ?ib') = dict_keys (ib_terminals ib)"
    by (simp add: fill_terminal_def update_keys)
  have len: "length (ib_terminals ?ib') = length (ib_terminals ib)"
    using arg_cong [OF keys, of length] by simp
  have "structure_inv ?ib'"
    using inv r step(2) queue_step_inv [OF step(1)] keys
    by (simp add: inbox_inv_def structure_inv_def set_fill [OF vals])
  moreover have "bounds_inv ?ib'"
    using inv r len
    by (simp add: inbox_inv_def bounds_inv_def set_fill [OF vals] ordinary_entries_def)
  moreover have "coalesce_inv ?ib'" "receipts_inv digest ?ib'"
    using inv by (simp_all add: inbox_inv_def coalesce_inv_def receipts_inv_def)
  ultimately show ?thesis using step(1) by (simp add: inbox_inv_def)
qed

lemma fill_job_input_inv:
  assumes inv: "inbox_inv digest ib" and slot: "(job, i) \<notin> set (dict_keys (ib_job_inputs ib))"
    and room: "length (filter (\<lambda>(owner, i). owner = job) (dict_keys (ib_job_inputs ib))) < 4"
    and r: "ir_kind r = IK_JOB" "n \<le> ib_max_terminal_bytes ib"
  shows "inbox_inv digest (fill_job_input (job, i) r n ib)
    \<and> queue_step (view ib) (view (fill_job_input (job, i) r n ib))"
proof -
  let ?ib' = "fill_job_input (job, i) r n ib"
  have append: "ib_job_inputs ?ib' = ib_job_inputs ib @ [((job, i), Some (ib_sequence ib + 1, r, n))]"
    using slot by (simp add: fill_job_input_def update_fresh)
  then have vals: "mset (some_values (ib_job_inputs ?ib'))
      = add_mset (ib_sequence ib + 1, r, n) (mset (some_values (ib_job_inputs ib)))"
    by simp
  then have "mset (pending_entries ?ib') = add_mset (ib_sequence ib + 1, r, n) (mset (pending_entries ib))"
    by (simp add: pending_mset)
  from add_entry [OF _ this] inv
  have step: "queue_step (view ib) (view ?ib')" "distinct (map fst (pending_entries ?ib'))"
    by (simp_all add: inbox_inv_def)
  have "structure_inv ?ib'"
    using inv r step(2) queue_step_inv [OF step(1)]
    by (simp add: inbox_inv_def structure_inv_def set_fill [OF vals])
  moreover have "bounds_inv ?ib'"
    using inv r room
    by (simp add: inbox_inv_def bounds_inv_def set_fill [OF vals] ordinary_entries_def)
      (simp add: append Suc_le_eq)
  moreover have "coalesce_inv ?ib'" "receipts_inv digest ?ib'"
    using inv by (simp_all add: inbox_inv_def coalesce_inv_def receipts_inv_def)
  ultimately show ?thesis using step(1) by (simp add: inbox_inv_def)
qed

lemma fill_reply_frame [simp]:
  "ib_records (fill_reply rid dg r n ib) = ib_records ib"
  "ib_reply (fill_reply rid dg r n ib) = Some (ib_sequence ib + 1, r, n)"
  "ib_terminals (fill_reply rid dg r n ib) = ib_terminals ib"
  "ib_job_inputs (fill_reply rid dg r n ib) = ib_job_inputs ib"
  "ib_sequence (fill_reply rid dg r n ib) = ib_sequence ib + 1"
  "ib_captured (fill_reply rid dg r n ib) = ib_captured ib"
  "ib_receipts (fill_reply rid dg r n ib) = AList.update rid (ib_sequence ib + 1, dg) (ib_receipts ib)"
  "ib_acknowledged_sequence (fill_reply rid dg r n ib) = ib_acknowledged_sequence ib"
  "ib_capacity (fill_reply rid dg r n ib) = ib_capacity ib"
  "ib_max_bytes (fill_reply rid dg r n ib) = ib_max_bytes ib"
  "ib_max_record_bytes (fill_reply rid dg r n ib) = ib_max_record_bytes ib"
  "ib_terminal_capacity (fill_reply rid dg r n ib) = ib_terminal_capacity ib"
  "ib_max_terminal_bytes (fill_reply rid dg r n ib) = ib_max_terminal_bytes ib"
  by (simp_all add: fill_reply_def)

lemma fill_reply_step:
  assumes inv: "structure_inv ib" and r: "ir_kind r = IK_REPLY"
  shows "queue_step (view ib) (view (fill_reply rid dg r n ib))
    \<and> distinct (map fst (pending_entries (fill_reply rid dg r n ib)))"
proof (cases "ib_reply ib")
  case None
  then have "mset (pending_entries (fill_reply rid dg r n ib))
      = add_mset (ib_sequence ib + 1, r, n) (mset (pending_entries ib))"
    by (simp add: pending_mset)
  from add_entry [OF inv this] show ?thesis by simp
next
  case (Some e)
  then obtain seq old m where old: "ib_reply ib = Some (seq, old, m)" by (cases e) auto
  then have kind: "ir_kind old = IK_REPLY" using inv by (auto simp: structure_inv_def)
  have pending: "mset (pending_entries ib) = add_mset (seq, old, m) (mset (ib_records ib)
      + mset (some_values (ib_terminals ib)) + mset (some_values (ib_job_inputs ib)))"
    by (simp add: pending_mset old)
  have "distinct (pending_entries ib)" using inv by (simp add: structure_inv_def distinct_map)
  then have "distinct ((seq, old, m) # ib_records ib @ some_values (ib_terminals ib) @ some_values (ib_job_inputs ib))"
    using pending mset_eq_imp_distinct_iff
    by (metis append.assoc mset.simps(2) mset_append)
  then have "set (pending_entries (fill_reply rid dg r n ib))
      = insert (ib_sequence ib + 1, r, n) (set (pending_entries ib) - {(seq, old, m)})"
    by (auto simp: pending_set old)
  then have v: "view (fill_reply rid dg r n ib) = (view ib)\<lparr>
      qu_items := insert (qu_sequence (view ib) + 1, r, n) (qu_items (view ib) - {(seq, old, m)}),
      qu_sequence := qu_sequence (view ib) + 1\<rparr>"
    by (simp add: view_def)
  have "(seq, old, m) \<in> qu_items (view ib)" by (simp add: view_def pending_set old)
  with v kind r have step: "queue_step (view ib) (view (fill_reply rid dg r n ib))"
    by (simp only: queue_step.overwrite)
  have below: "fst x < ib_sequence ib + 1"
    if "x \<in> set (ib_records ib) \<union> set (some_values (ib_terminals ib) @ some_values (ib_job_inputs ib))" for x
    using pending_below(1) [OF inv, of x] that by (auto simp: pending_set)
  have "distinct (map fst (ib_records ib @ some_values (ib_terminals ib) @ some_values (ib_job_inputs ib)))"
    using inv old by (simp add: structure_inv_def pending_entries_def)
  from distinct_fst_insert [OF this below, where P = "\<lambda>_. True" and y = "(r, n)"]
  have "distinct (map fst (pending_entries (fill_reply rid dg r n ib)))"
    by (simp add: pending_entries_def)
  with step show ?thesis by simp
qed

lemma fill_reply_inv:
  assumes inv: "inbox_inv digest ib" and r: "ir_kind r = IK_REPLY" "n \<le> ib_max_record_bytes ib"
    and fresh: "map_of (ib_receipts ib) rid = None"
  shows "inbox_inv digest (fill_reply rid dg r n ib) \<and> queue_step (view ib) (view (fill_reply rid dg r n ib))"
proof -
  let ?ib' = "fill_reply rid dg r n ib"
  have step: "queue_step (view ib) (view ?ib')" "distinct (map fst (pending_entries ?ib'))"
    using fill_reply_step [of ib r] inv r(1) by (simp_all add: inbox_inv_def)
  have "structure_inv ?ib'"
    using inv r step(2) queue_step_inv [OF step(1)] by (simp add: inbox_inv_def structure_inv_def)
  moreover have "bounds_inv ?ib'"
    using inv r by (simp add: inbox_inv_def bounds_inv_def ordinary_entries_def)
  moreover have "coalesce_inv ?ib'"
    using inv by (simp add: inbox_inv_def coalesce_inv_def)
  moreover have "receipts_inv digest ?ib'"
    using inv fresh by (fastforce simp: inbox_inv_def receipts_inv_def update_conv')
  ultimately show ?thesis using step(1) by (simp add: inbox_inv_def)
qed

lemma mk_inbox_record_fields:
  "mk_inbox_record raw fresh = Inr r \<Longrightarrow> ir_kind r = ir_kind raw \<and> ir_payload r = ir_payload raw
     \<and> (ir_record_id raw \<noteq> [] \<longrightarrow> ir_record_id r = ir_record_id raw)"
  by (auto simp: mk_inbox_record_def split: if_splits number.splits)

lemma reply_cases:
  obtains (rejected) e where "reply digest received qid answer ib = (ib, Inl e)"
  | (replayed) seq where
      "map_of (ib_receipts ib) (''reply_'' @ qid)
        = Some (seq, digest (utf8 (json_dumps '', '' '': '' (answer_to_json answer))))"
      "reply digest received qid answer ib
        = (ib, Inr \<lparr>rc_sequence = seq, rc_record_id = ''reply_'' @ qid, rc_accepted = False\<rparr>)"
  | (stored) r n q tx where "ib_question ib = Some q" "qr_id q = qid" "\<not> ib_closed ib"
      "answer_text (qr_content q) answer = Inr tx" "ir_kind r = IK_REPLY"
      "ir_record_id r = ''reply_'' @ qid" "map_of (ir_payload r) ''text'' = Some (JStr tx)"
      "n \<le> ib_max_record_bytes ib" "map_of (ib_receipts ib) (''reply_'' @ qid) = None"
      "reply digest received qid answer ib
        = (fill_reply (''reply_'' @ qid) (digest (utf8 (json_dumps '', '' '': '' (answer_to_json answer)))) r n ib,
           Inr \<lparr>rc_sequence = ib_sequence ib + 1, rc_record_id = ''reply_'' @ qid, rc_accepted = True\<rparr>)"
proof (cases "map_of (ib_receipts ib) (''reply_'' @ qid)")
  case (Some p)
  then show thesis
    using rejected replayed by (cases p; cases "snd p = digest (utf8 (json_dumps '', '' '': '' (answer_to_json answer)))")
      (auto simp: reply_def Let_def)
next
  case fresh: None
  show thesis
  proof (cases "\<not> ib_closed ib \<and> map_option qr_id (ib_question ib) = Some qid")
    case False
    with fresh have "\<exists>e. reply digest received qid answer ib = (ib, Inl e)"
      by (auto simp: reply_def Let_def split: option.splits)
    then show thesis using rejected by blast
  next
    case True
    then obtain q where q: "ib_question ib = Some q" "qr_id q = qid" "\<not> ib_closed ib" by auto
    show thesis
    proof (cases "answer_text (qr_content q) answer")
      case (Inl e)
      with fresh q have "\<exists>e. reply digest received qid answer ib = (ib, Inl e)" by (simp add: reply_def Let_def)
      then show thesis using rejected by blast
    next
      case tx: (Inr tx)
      let ?raw = "\<lparr>ir_kind = IK_REPLY, ir_payload = [(''text'', JStr tx), (''reply_to'', JStr qid),
          (''answer'', answer_to_json answer)], ir_record_id = ''reply_'' @ qid,
          ir_received_at = received, ir_topic = [], ir_source = [], ir_coalesce_key = [],
          ir_requires_decision = True\<rparr>"
      show thesis
      proof (cases "bind_r (mk_inbox_record ?raw []) (\<lambda>r. bind_r (encode_record r) (\<lambda>enc. Inr (r, length enc)))")
        case (Inl e)
        with fresh q tx have "\<exists>e. reply digest received qid answer ib = (ib, Inl e)"
          by (simp add: reply_def Let_def)
        then show thesis using rejected by blast
      next
        case (Inr p)
        obtain r n where p: "p = (r, n)" by (cases p)
        from Inr p have mk: "mk_inbox_record ?raw [] = Inr r" by (auto simp: bind_r_Inr_iff)
        show thesis
        proof (cases "n \<le> ib_max_record_bytes ib")
          case True
          with fresh q tx Inr p mk_inbox_record_fields [OF mk] show thesis
            by (intro stored [of q tx r n]) (simp_all add: reply_def Let_def fill_reply_def)
        next
          case False
          with fresh q tx Inr p have "\<exists>e. reply digest received qid answer ib = (ib, Inl e)"
            by (simp add: reply_def Let_def)
          then show thesis using rejected by blast
        qed
      qed
    qed
  qed
qed

lemma reply_inv:
  assumes "inbox_inv digest ib"
  shows "inbox_inv digest (fst (reply digest received qid answer ib))
    \<and> queue_step (view ib) (view (fst (reply digest received qid answer ib)))"
proof (cases rule: reply_cases [of digest received qid answer ib])
  case (stored r n q tx)
  with fill_reply_inv [OF assms stored(5) stored(8) stored(9)] show ?thesis by simp
qed (use assms in \<open>simp_all add: queue_step.silent\<close>)

lemma reserve_terminal_inv:
  assumes "inbox_inv digest ib"
  shows "inbox_inv digest (fst (reserve_terminal job n ib))
    \<and> view (fst (reserve_terminal job n ib)) = view ib"
proof (cases "reserve_terminal job n ib")
  case (Pair ib' res)
  show ?thesis
  proof (cases res)
    case (Inl e)
    with Pair have "ib' = ib" by (auto simp: reserve_terminal_def split: if_splits)
    with Pair assms show ?thesis by simp
  next
    case (Inr u)
    with Pair have fresh: "job \<notin> set (dict_keys (ib_terminals ib))"
      and room: "length (ib_terminals ib) < ib_terminal_capacity ib"
      and ib': "ib' = ib\<lparr>ib_terminals := ib_terminals ib @ [(job, None)]\<rparr>"
      by (auto simp: reserve_terminal_def update_fresh split: if_splits)
    have "view ib' = view ib" "map fst (pending_entries ib') = map fst (pending_entries ib)"
      by (simp_all add: ib' view_def pending_entries_def)
    with assms fresh room have "structure_inv ib'" "bounds_inv ib'" "coalesce_inv ib'" "receipts_inv digest ib'"
      by (simp_all add: inbox_inv_def structure_inv_def bounds_inv_def coalesce_inv_def receipts_inv_def
          ib' ordinary_entries_def)
    with \<open>view ib' = view ib\<close> Pair show ?thesis by (simp add: inbox_inv_def)
  qed
qed

lemma encoded_job_record:
  "bind_r (job_record payload rid received) (\<lambda>r. bind_r (encode_record r) (\<lambda>enc. Inr (r, length enc))) = Inr (r, n)
     \<Longrightarrow> ir_kind r = IK_JOB"
  by (auto simp: bind_r_Inr_iff dest: job_record_kind)

lemma deliver_terminal_inv:
  assumes inv: "inbox_inv digest ib"
  shows "inbox_inv digest (fst (deliver_terminal received job payload ib))
    \<and> queue_step (view ib) (view (fst (deliver_terminal received job payload ib)))"
proof (cases "fst (deliver_terminal received job payload ib) = ib")
  case False
  then obtain r n where r: "bind_r (job_record payload (''job_terminal:'' @ job) received)
      (\<lambda>r. bind_r (encode_record r) (\<lambda>enc. Inr (r, length enc))) = Inr (r, n)"
    and slot: "map_of (ib_terminals ib) job = Some None" "n \<le> ib_max_terminal_bytes ib"
    and ib': "fst (deliver_terminal received job payload ib) = fill_terminal job r n ib"
    by (auto simp: deliver_terminal_def fill_terminal_def simp del: not_None_eq
        split: sum.splits option.splits if_splits)
  from fill_terminal_inv [OF inv slot(1) encoded_job_record [OF r] slot(2)] ib' show ?thesis by simp
qed (use inv in \<open>simp add: queue_step.silent\<close>)

lemma deliver_inputs_inv:
  assumes "inbox_inv digest ib"
  shows "inbox_inv digest (fst (deliver_inputs received job requests ib))
    \<and> queue_step\<^sup>*\<^sup>* (view ib) (view (fst (deliver_inputs received job requests ib)))"
  using assms
proof (induction received job requests ib rule: deliver_inputs.induct)
  case (2 received job i payload rest ib)
  let ?rec = "bind_r (job_record [(''job_id'', JStr job), (''state'', JStr ''waiting_input''),
      (''request'', JObj payload)] (''job_input:'' @ job @ '':'' @ i) received)
      (\<lambda>r. bind_r (encode_record r) (\<lambda>enc. Inr (r, length enc)))"
  consider (skip) "(job, i) \<in> set (dict_keys (ib_job_inputs ib))"
    | (stop) "(job, i) \<notin> set (dict_keys (ib_job_inputs ib))"
        "fst (deliver_inputs received job ((i, payload) # rest) ib) = ib"
    | (store) r n where "(job, i) \<notin> set (dict_keys (ib_job_inputs ib))"
        "\<not> length (filter (\<lambda>(owner, i). owner = job) (dict_keys (ib_job_inputs ib))) \<ge> 4"
        "?rec = Inr (r, n)" "\<not> n > ib_max_terminal_bytes ib"
        "deliver_inputs received job ((i, payload) # rest) ib
           = deliver_inputs received job rest (fill_job_input (job, i) r n ib)"
    by (force simp: fill_job_input_def split: sum.splits prod.splits if_splits)
  then show ?case
  proof cases
    case skip
    with 2 show ?thesis by simp
  next
    case stop
    with 2 show ?thesis by simp
  next
    case (store r n)
    have fill: "inbox_inv digest (fill_job_input (job, i) r n ib)
        \<and> queue_step (view ib) (view (fill_job_input (job, i) r n ib))"
      using store by (intro fill_job_input_inv 2 encoded_job_record [OF store(3)]) simp_all
    have "inbox_inv digest (fst (deliver_inputs received job rest (fill_job_input (job, i) r n ib)))
        \<and> queue_step\<^sup>*\<^sup>* (view (fill_job_input (job, i) r n ib))
          (view (fst (deliver_inputs received job rest (fill_job_input (job, i) r n ib))))"
      using 2(2) [OF store(1,2,3) refl store(4)] fill by (simp add: fill_job_input_def)
    with fill store(5) show ?thesis by (metis converse_rtranclp_into_rtranclp)
  qed
qed simp

lemma clear_inputs_inv:
  assumes inv: "inbox_inv digest ib" and keep: "\<And>key e. P (key, Some e)"
  shows "inbox_inv digest (ib\<lparr>ib_job_inputs := filter P (ib_job_inputs ib)\<rparr>)
    \<and> view (ib\<lparr>ib_job_inputs := filter P (ib_job_inputs ib)\<rparr>) = view ib"
proof -
  let ?ib' = "ib\<lparr>ib_job_inputs := filter P (ib_job_inputs ib)\<rparr>"
  have vals: "some_values (filter P (ib_job_inputs ib)) = some_values (ib_job_inputs ib)"
    by (rule some_values_keep) (rule keep)
  then have v: "view ?ib' = view ib" "map fst (pending_entries ?ib') = map fst (pending_entries ib)"
    by (simp_all add: view_def pending_entries_def)
  have "length (filter Q (dict_keys (filter P d))) \<le> length (filter Q (dict_keys d))"
    for Q :: "string \<times> string \<Rightarrow> bool" and d :: "((string \<times> string) \<times> entry option) list"
    by (induction d) auto
  then have "length (filter Q (dict_keys (filter P (ib_job_inputs ib)))) \<le> 4"
    if "length (filter Q (dict_keys (ib_job_inputs ib))) \<le> 4" for Q
    using that le_trans by blast
  with inv v vals have "structure_inv ?ib'" "bounds_inv ?ib'" "coalesce_inv ?ib'" "receipts_inv digest ?ib'"
    by (simp_all add: inbox_inv_def structure_inv_def bounds_inv_def coalesce_inv_def receipts_inv_def
        ordinary_entries_def)
  with v show ?thesis by (simp add: inbox_inv_def)
qed

lemma deliver_job_inputs_inv:
  assumes inv: "inbox_inv digest ib"
  shows "inbox_inv digest (fst (deliver_job_inputs received job requests ib))
    \<and> queue_step\<^sup>*\<^sup>* (view ib) (view (fst (deliver_job_inputs received job requests ib)))"
proof (cases "job \<in> set (dict_keys (ib_terminals ib))
    \<and> \<not> (length requests > 4 \<or> list_ex (\<lambda>p. request_identity p = None) requests)")
  case True
  let ?ids = "map (\<lambda>p. (case request_identity p of None \<Rightarrow> [] | Some i \<Rightarrow> i, p)) requests"
  let ?ib' = "ib\<lparr>ib_job_inputs := filter (\<lambda>(key, item).
      fst key \<noteq> job \<or> snd key \<in> set (map fst ?ids) \<or> item \<noteq> None) (ib_job_inputs ib)\<rparr>"
  have "inbox_inv digest ?ib' \<and> view ?ib' = view ib"
    by (rule clear_inputs_inv [OF inv]) (simp del: split_paired_Ex)
  moreover have "deliver_job_inputs received job requests ib = deliver_inputs received job ?ids ?ib'"
    using True by (simp only: deliver_job_inputs_def Let_def) simp
  ultimately show ?thesis using deliver_inputs_inv [of digest ?ib' received job ?ids] by simp
next
  case False
  then have "fst (deliver_job_inputs received job requests ib) = ib"
    by (auto simp: deliver_job_inputs_def)
  with inv show ?thesis by simp
qed

lemma release_terminal_inv:
  assumes inv: "inbox_inv digest ib"
  shows "inbox_inv digest (release_terminal job ib) \<and> view (release_terminal job ib) = view ib"
proof -
  let ?ts = "if map_of (ib_terminals ib) job = Some None then AList.delete job (ib_terminals ib)
      else ib_terminals ib"
  let ?ib1 = "ib\<lparr>ib_terminals := ?ts\<rparr>"
  have keys: "distinct (dict_keys (ib_terminals ib))"
    using inv by (simp add: inbox_inv_def structure_inv_def)
  then have vals: "some_values ?ts = some_values (ib_terminals ib)" by (simp add: some_values_delete)
  have ts: "distinct (dict_keys ?ts)" "length ?ts \<le> length (ib_terminals ib)"
    using keys by (simp_all add: distinct_delete length_delete_le)
  have v: "view ?ib1 = view ib" "map fst (pending_entries ?ib1) = map fst (pending_entries ib)"
    using vals by (simp_all add: view_def pending_entries_def)
  with inv ts vals have "structure_inv ?ib1" "bounds_inv ?ib1" "coalesce_inv ?ib1" "receipts_inv digest ?ib1"
    by (simp_all add: inbox_inv_def structure_inv_def bounds_inv_def coalesce_inv_def receipts_inv_def
        ordinary_entries_def del: if_split_asm)
  then have inv1: "inbox_inv digest ?ib1" by (simp add: inbox_inv_def)
  have "release_terminal job ib = ?ib1\<lparr>ib_job_inputs :=
      filter (\<lambda>(key, item). fst key \<noteq> job \<or> item \<noteq> None) (ib_job_inputs ?ib1)\<rparr>"
    by (simp add: release_terminal_def Let_def)
  with clear_inputs_inv [OF inv1, of "\<lambda>(key, item). fst key \<noteq> job \<or> item \<noteq> None"] v(1)
  show ?thesis by (simp del: split_paired_Ex)
qed

section \<open>Capture and acknowledgement\<close>

lemma after_capture_None: "after_capture None = (\<lambda>_. True)"
  by (simp add: after_capture_def fun_eq_iff)

lemma capture_cases:
  obtains (again) b where "ib_captured ib = Some b" "capture ib = (ib, b)"
  | (taken) b where "ib_captured ib = None" "b = \<lparr>bt_uid = ib_next_uid ib,
        bt_records = map (\<lambda>(seq, r, n). (seq, r)) (sort_key fst (pending_entries ib))\<rparr>"
      "capture ib = (ib\<lparr>ib_captured := Some b, ib_next_uid := ib_next_uid ib + 1\<rparr>, b)"
  by (cases "ib_captured ib") (auto simp: capture_def Let_def)

lemma captured_records:
  "map fst (map (\<lambda>(seq, r, n). (seq, r)) es) = map fst es"
  "set (map (\<lambda>(seq, r, n). (seq, r)) (sort_key fst es)) = (\<lambda>(seq, r, n). (seq, r)) ` set es"
  by auto

lemma capture_inv:
  assumes inv: "inbox_inv digest ib"
  shows "inbox_inv digest (fst (capture ib)) \<and> queue_step (view ib) (view (fst (capture ib)))"
proof (cases ib rule: capture_cases)
  case (again b)
  with inv show ?thesis by (simp add: queue_step.silent)
next
  case (taken b)
  let ?ib' = "ib\<lparr>ib_captured := Some b, ib_next_uid := Suc (ib_next_uid ib)\<rparr>"
  have dist: "distinct (map fst (pending_entries ib))"
    using inv by (simp add: inbox_inv_def structure_inv_def)
  have same: "pending_entries ?ib' = pending_entries ib" by (simp add: pending_entries_def)
  have "sorted_wrt (<) (map fst (bt_records b))"
    using strictly_sorted_sort_key [OF dist] by (simp add: taken(2) captured_records(1) del: map_map)
  moreover have "set (bt_records b) = (\<lambda>(seq, r, n). (seq, r)) ` qu_items (view ib)"
    by (simp add: taken(2) captured_records(2) view_def del: set_map)
  ultimately have "queue_step (view ib) ((view ib)\<lparr>qu_captured := Some b\<rparr>)"
    using taken(1) by (intro queue_step.take_batch) (simp_all add: view_def)
  moreover have "view ?ib' = (view ib)\<lparr>qu_captured := Some b\<rparr>" by (simp add: view_def same)
  ultimately have step: "queue_step (view ib) (view ?ib')" by simp
  have "structure_inv ?ib'"
    using inv queue_step_inv [OF step] dist by (simp add: inbox_inv_def structure_inv_def same)
  moreover have "bounds_inv ?ib'" "receipts_inv digest ?ib'"
    using inv by (simp_all add: inbox_inv_def bounds_inv_def ordinary_entries_def receipts_inv_def)
  moreover have "coalesce_inv ?ib'"
  proof -
    have split: "state_keys P es = map (\<lambda>(seq, r, n). state_key r)
        (filter (\<lambda>e. P (fst e)) (filter (\<lambda>(seq, r, n). ir_coalesce_key r \<noteq> []) es))" for P es
      by (induction es) (auto simp: state_keys_def)
    have "distinct (state_keys (\<lambda>_. True) (ib_records ib))"
      using inv taken(1) by (simp add: inbox_inv_def coalesce_inv_def after_capture_None)
    then have "distinct (state_keys P (ib_records ib))" for P
      unfolding split [of P] split [of "\<lambda>_. True"] by (simp add: distinct_map_filter del: filter_filter)
    then show ?thesis by (simp add: coalesce_inv_def)
  qed
  ultimately show ?thesis using step taken(3) by (simp add: inbox_inv_def)
qed

lemma length_filter_keys:
  "length (filter Q (dict_keys (map (\<lambda>(key, item). (key, f item)) (filter R d)))) \<le> length (filter Q (dict_keys d))"
  by (induction d) auto

lemma ack_cases:
  obtains (refused) e where "ib_captured ib \<noteq> Some b" "ack b ib = (ib, Inl e)"
  | (acked) ib' where "ib_captured ib = Some b" "ack b ib = (ib', Inr ())"
      "ib_records ib' = filter (\<lambda>e. fst e > next_sequence b) (ib_records ib)"
      "pending_entries ib' = filter (\<lambda>e. fst e > next_sequence b) (pending_entries ib)"
      "ib_sequence ib' = ib_sequence ib" "ib_captured ib' = None"
      "ib_acknowledged_sequence ib' = max (ib_acknowledged_sequence ib) (next_sequence b)"
      "set_option (ib_reply ib') \<subseteq> set_option (ib_reply ib)"
      "set (some_values (ib_terminals ib')) \<subseteq> set (some_values (ib_terminals ib))"
      "set (some_values (ib_job_inputs ib')) \<subseteq> set (some_values (ib_job_inputs ib))"
      "\<exists>P. ib_terminals ib' = filter P (ib_terminals ib)"
      "\<And>Q. length (filter Q (dict_keys (ib_job_inputs ib'))) \<le> length (filter Q (dict_keys (ib_job_inputs ib)))"
      "\<And>seq r n. (seq, r, n) \<in> set (ib_records ib')
         \<Longrightarrow> map_of (ib_receipts ib') (ir_record_id r) = map_of (ib_receipts ib) (ir_record_id r)"
      "ib_capacity ib' = ib_capacity ib" "ib_max_bytes ib' = ib_max_bytes ib"
      "ib_max_record_bytes ib' = ib_max_record_bytes ib" "ib_terminal_capacity ib' = ib_terminal_capacity ib"
      "ib_max_terminal_bytes ib' = ib_max_terminal_bytes ib"
proof (cases "ib_captured ib = Some b")
  case False
  then show thesis using refused by (auto simp: ack_def)
next
  case True
  let ?P = "\<lambda>e :: entry. fst e > next_sequence b"
  define terminals where "terminals = filter (\<lambda>(key, item). case item of None \<Rightarrow> True | Some e \<Rightarrow> ?P e) (ib_terminals ib)"
  define job_inputs where "job_inputs = map (\<lambda>(key, item). (key, case item of None \<Rightarrow> None
      | Some e \<Rightarrow> if ?P e then Some e else None))
    (filter (\<lambda>(key, item). fst key \<in> set (dict_keys terminals) \<or> (case item of None \<Rightarrow> False | Some e \<Rightarrow> ?P e))
      (ib_job_inputs ib))"
  define reply' where "reply' = (case ib_reply ib of None \<Rightarrow> None | Some e \<Rightarrow> if ?P e then Some e else None)"
  define records where "records = filter ?P (ib_records ib)"
  define receipts where "receipts = retain_receipts (ib_retained_receipts ib)
    (map entry_id records @ (case reply' of None \<Rightarrow> [] | Some e \<Rightarrow> [entry_id e])) (ib_receipts ib)"
  let ?ib' = "ib\<lparr>ib_records := records, ib_reply := reply', ib_terminals := terminals,
      ib_job_inputs := job_inputs,
      ib_acknowledged_sequence := max (ib_acknowledged_sequence ib) (next_sequence b),
      ib_captured := None, ib_receipts := receipts\<rparr>"
  have after: "(\<lambda>(seq, r, n). seq > next_sequence b) = ?P"
    and clear: "(\<lambda>(seq, r, n). if seq \<le> next_sequence b then None else Some (seq, r, n))
      = (\<lambda>e :: entry. if ?P e then Some e else None)" by auto
  have eq: "ack b ib = (?ib', Inr ())"
    unfolding ack_def Let_def after clear terminals_def job_inputs_def reply'_def records_def receipts_def
    using True by simp
  have vals: "some_values terminals = filter ?P (some_values (ib_terminals ib))"
    "some_values job_inputs = filter ?P (some_values (ib_job_inputs ib))"
    unfolding terminals_def job_inputs_def
    by (rule some_values_filter_slots, rule some_values_clear_slots)
  have len: "length (filter Q (dict_keys job_inputs)) \<le> length (filter Q (dict_keys (ib_job_inputs ib)))" for Q
    unfolding job_inputs_def by (rule length_filter_keys)
  have keep: "map_of receipts (ir_record_id r) = map_of (ib_receipts ib) (ir_record_id r)"
    if "(seq, r, n) \<in> set records" for seq r n
    unfolding receipts_def using that by (intro retain_keeps_pending) (force simp: entry_id_def)
  have "\<exists>P. terminals = filter P (ib_terminals ib)" unfolding terminals_def by blast
  moreover note len [unfolded filter_map length_map]
  ultimately show thesis
    by (intro acked [OF True eq]) (auto simp: records_def pending_entries_def vals keep reply'_def
        split: option.splits if_splits)
qed

lemma ack_inv:
  assumes inv: "inbox_inv digest ib"
  shows "inbox_inv digest (fst (ack b ib)) \<and> queue_step (view ib) (view (fst (ack b ib)))"
proof (cases b ib rule: ack_cases)
  case (refused e)
  with inv show ?thesis by (simp add: queue_step.silent)
next
  case (acked ib')
  let ?P = "\<lambda>e :: entry. fst e > next_sequence b"
  have "view ib' = (view ib)\<lparr>qu_items := {e \<in> qu_items (view ib). fst e > next_sequence b},
      qu_captured := None, qu_acknowledged := max (qu_acknowledged (view ib)) (next_sequence b)\<rparr>"
    by (simp add: view_def acked)
  moreover have "qu_captured (view ib) = Some b" by (simp add: view_def acked(1))
  ultimately have step: "queue_step (view ib) (view ib')" by (simp add: queue_step.acknowledge)
  have recs: "set (ib_records ib') \<subseteq> set (ib_records ib)" by (auto simp: acked(3))
  obtain T where terms: "ib_terminals ib' = filter T (ib_terminals ib)" using acked(11) by blast
  have "structure_inv ib'"
    using inv queue_step_inv [OF step] acked(4) recs acked(8-10) terms
    by (auto simp: inbox_inv_def structure_inv_def distinct_map_filter sorted_wrt_filter_map acked(3)
        simp del: split_paired_All; blast)
  moreover have "bounds_inv ib'"
  proof -
    have ord: "ordinary_entries ib' = filter ?P (ordinary_entries ib)"
      by (simp add: ordinary_entries_def acked(3) conj_commute)
    have small: "length (ordinary_entries ib') \<le> length (ordinary_entries ib)"
      "entries_size (ordinary_entries ib') \<le> entries_size (ordinary_entries ib)"
      "length (ib_terminals ib') \<le> length (ib_terminals ib)"
      unfolding ord by (simp_all add: terms entries_size_filter)
    have fewer: "set (ib_records ib') \<union> set_option (ib_reply ib') \<subseteq> set (ib_records ib) \<union> set_option (ib_reply ib)"
      "set (some_values (ib_terminals ib')) \<union> set (some_values (ib_job_inputs ib'))
         \<subseteq> set (some_values (ib_terminals ib)) \<union> set (some_values (ib_job_inputs ib))"
      using recs acked(8-10) by blast+
    from inv have B: "bounds_inv ib" by (simp add: inbox_inv_def)
    note B = B [unfolded bounds_inv_def]
    show ?thesis
      unfolding bounds_inv_def acked(14-18)
    proof (intro conjI allI)
      show "length (ordinary_entries ib') \<le> ib_capacity ib" using B small by linarith
      show "entries_size (ordinary_entries ib') \<le> ib_max_bytes ib" using B small by linarith
      show "length (ib_terminals ib') \<le> ib_terminal_capacity ib" using B small by linarith
      show "length (filter (\<lambda>(owner, i). owner = job) (dict_keys (ib_job_inputs ib'))) \<le> 4" for job
        using B acked(12) [of "\<lambda>(owner, i). owner = job"] le_trans by blast
    qed (use B fewer in blast)+
  qed
  moreover have "coalesce_inv ib'"
  proof -
    have "state_keys (\<lambda>_. True) (ib_records ib') = state_keys (after_capture (ib_captured ib)) (ib_records ib')"
      unfolding state_keys_def by (intro arg_cong [of _ _ "map _"] filter_cong)
        (auto simp: acked(1,3) after_capture_def)
    moreover have "distinct (state_keys (after_capture (ib_captured ib)) (ib_records ib'))"
      using inv unfolding acked(3) inbox_inv_def coalesce_inv_def
      by (blast intro: distinct_state_keys_filter)
    ultimately show ?thesis by (simp add: coalesce_inv_def acked(6) after_capture_None) (simp add: state_keys_def)
  qed
  moreover have "receipts_inv digest ib'"
    using inv recs acked(13) by (fastforce simp: inbox_inv_def receipts_inv_def)
  ultimately show ?thesis using step acked(2) by (simp add: inbox_inv_def)
qed

section \<open>The machine\<close>

lemma inbox_step_ok:
  assumes inv: "inbox_inv digest ib"
  shows "inbox_inv digest (fst (inbox_step digest x ib))
    \<and> queue_step\<^sup>*\<^sup>* (view ib) (view (fst (inbox_step digest x ib)))"
proof -
  have core_ok: ?thesis if "core (fst (inbox_step digest x ib)) = core ib"
    using inv inbox_inv_core [of digest ib] inbox_inv_core [of digest "fst (inbox_step digest x ib)"]
      view_core [of ib] view_core [of "fst (inbox_step digest x ib)"] that by simp
  have step_ok: ?thesis if "inbox_inv digest (fst (inbox_step digest x ib))
      \<and> queue_step (view ib) (view (fst (inbox_step digest x ib)))"
    using that by blast
  show ?thesis
  proof (cases x)
    case (OpAccept r)
    with accept_inv [OF inv] show ?thesis by (intro step_ok) simp
  next
    case (OpAcceptEvent received event)
    show ?thesis
    proof (cases "fst (accept_event digest received event ib) = ib")
      case True
      with OpAcceptEvent inv show ?thesis by (intro step_ok) (simp add: queue_step.silent)
    next
      case False
      then obtain r where "accept_event digest received event ib = accept digest r ib"
        by (auto simp: accept_event_def Let_def split: sum.splits)
      with OpAcceptEvent accept_inv [OF inv] show ?thesis by (intro step_ok) simp
    qed
  next
    case (OpReserveTerminal job n)
    with reserve_terminal_inv [OF inv] show ?thesis by simp
  next
    case (OpDeliverTerminal received job payload)
    with deliver_terminal_inv [OF inv] show ?thesis by (intro step_ok) simp
  next
    case (OpDeliverJobInputs received job requests)
    with deliver_job_inputs_inv [OF inv] show ?thesis by simp
  next
    case (OpReleaseTerminal job)
    with release_terminal_inv [OF inv] show ?thesis by simp
  next
    case (OpReply received qid answer)
    with reply_inv [OF inv] show ?thesis by (intro step_ok) simp
  next
    case OpCapture
    with capture_inv [OF inv] show ?thesis by (intro step_ok) simp
  next
    case (OpAck b)
    with ack_inv [OF inv] show ?thesis by (intro step_ok) simp
  qed (rule core_ok, simp add: core_waiting core_wait_pass core_control)+
qed

lemma mk_inbox_inv: "inbox_inv digest (mk_inbox l)"
  by (simp add: inbox_inv_def structure_inv_def bounds_inv_def coalesce_inv_def receipts_inv_def
      mk_inbox_def queue_inv_def view_def pending_entries_def ordinary_entries_def entries_size_def
      state_keys_def)

lemma queue_sequence_mono: "queue_step q q' \<Longrightarrow> qu_sequence q \<le> qu_sequence q'"
  by (auto elim: queue_stepE)

lemma queue_acknowledged_mono: "queue_step q q' \<Longrightarrow> qu_acknowledged q \<le> qu_acknowledged q'"
  by (auto elim: queue_stepE)

lemma queue_steps_mono:
  "queue_step\<^sup>*\<^sup>* q q' \<Longrightarrow> qu_sequence q \<le> qu_sequence q' \<and> qu_acknowledged q \<le> qu_acknowledged q'"
  by (induction rule: rtranclp_induct)
    (auto dest: queue_sequence_mono queue_acknowledged_mono intro: le_trans)

interpretation inbox_machine: monotone_machine "inbox_step digest" "inbox_inv digest" ib_sequence
  for digest
proof unfold_locales
  fix ib x
  assume inv: "inbox_inv digest ib"
  then show "inbox_inv digest (fst (inbox_step digest x ib))" by (simp add: inbox_step_ok)
  show "ib_sequence ib \<le> ib_sequence (fst (inbox_step digest x ib))"
    using inbox_step_ok [OF inv, of x] queue_steps_mono [of "view ib"] by (fastforce simp: view_def)
qed

abbreviation run_inbox :: "(string \<Rightarrow> string) \<Rightarrow> inbox_op list \<Rightarrow> inbox \<Rightarrow> inbox" where
  "run_inbox digest xs ib \<equiv> fst (run_ops (inbox_step digest) xs ib)"

lemma run_from_start:
  fixes digest xs l
  shows "inbox_inv digest (run_inbox digest xs (mk_inbox l))"
  by (rule inbox_machine.run_inv) (rule mk_inbox_inv)

lemma run_inbox_steps:
  fixes digest xs
  shows "inbox_inv digest ib \<Longrightarrow> queue_step\<^sup>*\<^sup>* (view ib) (view (run_inbox digest xs ib))"
proof (induction xs arbitrary: ib)
  case (Cons x xs)
  from inbox_step_ok [OF Cons.prems, of x] Cons.IH [of "fst (inbox_step digest x ib)"]
  show ?case by (simp only: run_ops_fst_Cons) (meson rtranclp_trans)
qed simp

text \<open>Admission by identity: what an identity is recorded under is its encoded content.\<close>

definition inbox_submit ::
  "(string \<Rightarrow> string) \<Rightarrow> inbox_record \<Rightarrow> inbox \<Rightarrow> inbox \<times> (inbox_error + nat \<times> bool)" where
  "inbox_submit digest r ib = (case accept digest r ib of
      (ib', Inl e) \<Rightarrow> (ib', Inl e)
    | (ib', Inr receipt) \<Rightarrow> (ib', Inr (rc_sequence receipt, rc_accepted receipt)))"

definition inbox_recorded :: "(string \<Rightarrow> string) \<Rightarrow> inbox \<Rightarrow> inbox_record \<Rightarrow> nat option" where
  "inbox_recorded digest ib r = (case accept digest r ib of
      (ib', Inl e) \<Rightarrow> None
    | (ib', Inr receipt) \<Rightarrow> if rc_accepted receipt then None else Some (rc_sequence receipt))"

lemma accept_replays:
  assumes "encode_record r = Inr encoded" "ir_kind r \<noteq> IK_REPLY" "ir_kind r \<noteq> IK_JOB"
    and "ir_coalesce_key r \<noteq> [] \<Longrightarrow> coalesce_allowed ib r"
    and "map_of (ib_receipts ib) (ir_record_id r) = Some (seq, digest encoded)"
  shows "accept digest r ib = (ib, Inr \<lparr>rc_sequence = seq, rc_record_id = ir_record_id r, rc_accepted = False\<rparr>)"
  using assms by (auto simp: accept_def Let_def)

interpretation record_admission:
  idempotent_admission "inbox_submit digest" "inbox_recorded digest" "inbox_inv digest"
  for digest
proof unfold_locales
  fix ib r n
  assume "inbox_recorded digest ib r = Some n"
  then show "inbox_submit digest r ib = (ib, Inr (n, False))"
    by (cases rule: accept_cases [of digest r ib]) (simp_all add: inbox_recorded_def inbox_submit_def)
next
  fix ib ib' r n b
  assume inv: "inbox_inv digest ib" and "inbox_submit digest r ib = (ib', Inr (n, b))"
  then show "inbox_recorded digest ib' r = Some n"
  proof (cases rule: accept_cases [of digest r ib])
    case (fresh encoded)
    then have ib': "ib' = admitted digest r encoded ib" "n = ib_sequence ib + 1"
      using \<open>inbox_submit digest r ib = (ib', Inr (n, b))\<close> by (simp_all add: inbox_submit_def)
    have "receipts_inv digest ib'"
      using accept_inv(1) [OF inv, of r] fresh(9) by (simp add: inbox_inv_def ib')
    then have "map_of (ib_receipts ib') (ir_record_id r) = Some (n, digest encoded)"
      using fresh(1) by (simp add: receipts_inv_def ib' admitted_records)
    moreover have "coalesce_allowed ib' r = coalesce_allowed ib r"
      by (simp add: ib' coalesce_allowed_def admitted_def Let_def)
    ultimately have "accept digest r ib' = (ib', Inr \<lparr>rc_sequence = n, rc_record_id = ir_record_id r, rc_accepted = False\<rparr>)"
      using fresh by (intro accept_replays) simp_all
    then show ?thesis by (simp add: inbox_recorded_def)
  qed (simp_all add: inbox_submit_def inbox_recorded_def)
qed

end
