(* ===== verification/Inbox_Properties.thy ===== *)
theory Inbox_Properties
  imports Inbox_Proofs
begin

text \<open>
  What the Turn inbox guarantees along every run of its operations from a new inbox: it implements
  the abstract queue, it stays within its limits, acknowledgement is exact, declared state is
  coalesced, identities are admitted once, closing is final, and waiting is precise. The last
  section shows where one guarantee ends.
\<close>

section \<open>Sample values\<close>

definition small_limits :: inbox_limits where
  "small_limits = \<lparr>lim_capacity = 4, lim_max_bytes = 400, lim_max_record_bytes = 150, lim_retained_receipts = 1,
     lim_terminal_capacity = 2, lim_max_terminal_bytes = 100\<rparr>"

definition input_record :: "string \<Rightarrow> string \<Rightarrow> inbox_record" where
  "input_record rid body = \<lparr>ir_kind = IK_INPUT, ir_payload = [(''text'', JStr body)], ir_record_id = rid,
     ir_received_at = Num 0, ir_topic = [], ir_source = [], ir_coalesce_key = [], ir_requires_decision = True\<rparr>"

section \<open>Limits\<close>

definition limits :: "inbox \<Rightarrow> nat \<times> nat \<times> nat \<times> nat \<times> nat \<times> nat" where
  "limits ib = (ib_capacity ib, ib_max_bytes ib, ib_max_record_bytes ib, ib_terminal_capacity ib,
     ib_max_terminal_bytes ib, ib_retained_receipts ib)"

lemma limits_core: "limits (core ib) = limits ib"
  by (simp add: limits_def core_def)

lemma limits_core_eq: "core ib' = core ib \<Longrightarrow> limits ib' = limits ib"
  by (metis limits_core)

lemmas limits_control = core_waiting [THEN limits_core_eq] core_wait_pass [THEN limits_core_eq]
  core_control [THEN limits_core_eq]

lemma limits_accept: "limits (fst (accept digest r ib)) = limits ib"
  by (cases rule: accept_cases [of digest r ib]) (simp_all add: limits_def admitted_def Let_def)

lemma limits_accept_event: "limits (fst (accept_event digest received event ib)) = limits ib"
  by (auto simp: accept_event_def Let_def limits_accept split: sum.splits)

lemma limits_reply: "limits (fst (reply digest received qid answer ib)) = limits ib"
  by (cases rule: reply_cases [of digest received qid answer ib]) (simp_all add: limits_def fill_reply_def)

lemma limits_terminals:
  "limits (fst (reserve_terminal job k ib)) = limits ib"
  "limits (fst (deliver_terminal received job payload ib)) = limits ib"
  "limits (release_terminal job ib) = limits ib"
  by (auto simp: limits_def reserve_terminal_def deliver_terminal_def release_terminal_def Let_def
      split: sum.splits option.splits)

lemma limits_deliver_inputs: "limits (fst (deliver_inputs received job requests ib)) = limits ib"
  by (induction received job requests ib rule: deliver_inputs.induct)
    (auto simp: limits_def split: sum.splits)

lemma limits_deliver_job_inputs: "limits (fst (deliver_job_inputs received job requests ib)) = limits ib"
  by (auto simp: deliver_job_inputs_def Let_def limits_deliver_inputs) (simp_all add: limits_def)

lemma limits_capture: "limits (fst (capture ib)) = limits ib"
  by (cases ib rule: capture_cases) (simp_all add: limits_def)

lemma limits_ack: "limits (fst (ack b ib)) = limits ib"
  by (simp add: ack_def Let_def limits_def)

lemma limits_step: "limits (fst (inbox_step digest x ib)) = limits ib"
  by (cases x) (simp_all add: limits_accept limits_accept_event limits_reply limits_terminals
      limits_deliver_job_inputs limits_capture limits_ack limits_control)

lemma limits_run: "limits (run_inbox digest xs ib) = limits ib"
  by (induction xs arbitrary: ib) (simp_all add: run_ops_fst_Cons limits_step del: run_ops.simps(2))

text \<open>
  C28: The inbox is bounded. After any sequence of operations on a new inbox (failed ones included):
  the ordinary (not coalesced) records are at most the declared capacity in number and in total
  size; each record and the pending reply are within the record bound; the Job reservations are at
  most the terminal capacity; every Job terminal and Job input is within the terminal bound; and a
  Job owns at most four inputs.
\<close>

theorem inbox_bounded:
  "length (ordinary_entries (run_inbox digest xs (mk_inbox l))) \<le> nat (lim_capacity l)
   \<and> entries_size (ordinary_entries (run_inbox digest xs (mk_inbox l))) \<le> nat (lim_max_bytes l)
   \<and> list_all (\<lambda>(seq, r, n). n \<le> nat (lim_max_record_bytes l)) (ib_records (run_inbox digest xs (mk_inbox l)))
   \<and> pred_option (\<lambda>(seq, r, n). n \<le> nat (lim_max_record_bytes l)) (ib_reply (run_inbox digest xs (mk_inbox l)))
   \<and> length (ib_terminals (run_inbox digest xs (mk_inbox l))) \<le> nat (lim_terminal_capacity l)
   \<and> list_all (\<lambda>(seq, r, n). n \<le> nat (lim_max_terminal_bytes l))
       (some_values (ib_terminals (run_inbox digest xs (mk_inbox l)))
        @ some_values (ib_job_inputs (run_inbox digest xs (mk_inbox l))))
   \<and> length (filter (\<lambda>(owner, i). owner = job) (dict_keys (ib_job_inputs (run_inbox digest xs (mk_inbox l))))) \<le> 4"
proof -
  let ?ib = "run_inbox digest xs (mk_inbox l)"
  have "bounds_inv ?ib" using run_from_start [of digest xs l] by (simp add: inbox_inv_def)
  moreover have "limits ?ib = limits (mk_inbox l)" by (rule limits_run)
  ultimately show ?thesis
    by (simp add: bounds_inv_def limits_def mk_inbox_def list_all_iff pred_option_def ball_Un)
qed

section \<open>The queue\<close>

text \<open>
  C16: The inbox implements the abstract queue. Seen as numbered entries, a counter, a captured batch
  and an acknowledged position, every run of its operations from a new inbox is a run of the
  queue: an entry is added under the next number, replaced by a newer record of the same declared
  state that no captured batch holds, replaced by a second reply, or removed by acknowledging the
  batch, and by nothing else. In the state reached entries have distinct numbers, above the
  acknowledged position and at most the counter; and the captured batch lists in order every
  pending entry up to its last number, so acknowledging it removes nothing it does not hold.
\<close>

theorem inbox_refines_queue:
  "queue_step\<^sup>*\<^sup>* (view (mk_inbox l)) (view (run_inbox digest xs (mk_inbox l)))
   \<and> queue_inv (view (run_inbox digest xs (mk_inbox l)))"
  using run_inbox_steps [OF mk_inbox_inv, where xs = xs] run_from_start [of digest xs l]
  by (simp add: inbox_inv_def structure_inv_def)

text \<open>The queue while a batch is out: what the batch holds and what follows it.\<close>

lemma capture_batch: "capture ib = (ib', b) \<Longrightarrow> ib_captured ib' = Some b"
  by (cases ib rule: capture_cases) auto

text \<open>
  C4: Acknowledgement is exact. Take any reachable inbox, capture a batch, run any further
  operations, then acknowledge that batch successfully. The acknowledgement removes exactly the
  pending entries numbered up to the batch's last one; each of those is in the batch, so the
  consumer has seen it; every entry admitted after the capture is still pending; and no record of
  the batch other than a reply had disappeared before the acknowledgement.
\<close>

theorem ack_exact:
  assumes "capture (run_inbox digest xs (mk_inbox l)) = (ib1, b)"
    and "ack b (run_inbox digest ys ib1) = (ib3, Inr u)"
  shows "set (pending_entries ib3) = {e \<in> set (pending_entries (run_inbox digest ys ib1)). fst e > next_sequence b}
    \<and> (\<forall>(seq, r, n) \<in> set (pending_entries (run_inbox digest ys ib1)) - set (pending_entries ib3).
          (seq, r) \<in> set (bt_records b))
    \<and> {e \<in> set (pending_entries (run_inbox digest ys ib1)). fst e > ib_sequence ib1} \<subseteq> set (pending_entries ib3)
    \<and> (\<forall>(seq, r) \<in> set (bt_records b). ir_kind r \<noteq> IK_REPLY
        \<longrightarrow> (seq, r) \<in> (\<lambda>(seq, r, n). (seq, r)) ` set (pending_entries (run_inbox digest ys ib1)))"
proof -
  let ?ib2 = "run_inbox digest ys ib1"
  have inv1: "inbox_inv digest ib1"
    using capture_inv [OF run_from_start [of digest xs l]] assms(1) by simp
  have "queue_inv (view ib1)" using inv1 by (simp add: inbox_inv_def structure_inv_def)
  then have below: "next_sequence b \<le> ib_sequence ib1"
    using capture_batch [OF assms(1)] by (simp add: queue_inv_def view_def)
  have "inbox_inv digest ?ib2" by (rule inbox_machine.run_inv) (rule inv1)
  then have q: "queue_inv (view ?ib2)" by (simp add: inbox_inv_def structure_inv_def)
  from assms(2) have cap: "ib_captured ?ib2 = Some b"
    and pend: "pending_entries ib3 = filter (\<lambda>e. fst e > next_sequence b) (pending_entries ?ib2)"
    by (cases b ?ib2 rule: ack_cases; simp)+
  have seen: "\<forall>(seq, r, n) \<in> set (pending_entries ?ib2). seq \<le> next_sequence b \<longrightarrow> (seq, r) \<in> set (bt_records b)"
    and there: "\<forall>(seq, r) \<in> set (bt_records b). ir_kind r \<noteq> IK_REPLY
      \<longrightarrow> (\<exists>n. (seq, r, n) \<in> set (pending_entries ?ib2))"
    using q by (simp_all add: queue_inv_def view_def cap)
  show ?thesis
  proof (intro conjI)
    show "\<forall>(seq, r, n) \<in> set (pending_entries ?ib2) - set (pending_entries ib3). (seq, r) \<in> set (bt_records b)"
      using seen unfolding pend by fastforce
    show "\<forall>(seq, r) \<in> set (bt_records b). ir_kind r \<noteq> IK_REPLY
        \<longrightarrow> (seq, r) \<in> (\<lambda>(seq, r, n). (seq, r)) ` set (pending_entries ?ib2)"
      using there by force
  qed (use below in \<open>auto simp: pend\<close>)
qed

theorem ack_exact_witness:
  "\<exists>ib1 b ib3. capture (run_inbox id [OpAccept (input_record ''a'' ''x'')] (mk_inbox small_limits)) = (ib1, b)
    \<and> ack b (run_inbox id [OpAccept (input_record ''b'' ''y'')] ib1) = (ib3, Inr ())
    \<and> map fst (bt_records b) = [1] \<and> map fst (pending_entries ib3) = [2]
    \<and> set (pending_entries ib3)
        = {e \<in> set (pending_entries (run_inbox id [OpAccept (input_record ''b'' ''y'')] ib1)). fst e > next_sequence b}"
proof -
  obtain ib1 b where c: "capture (run_inbox id [OpAccept (input_record ''a'' ''x'')] (mk_inbox small_limits)) = (ib1, b)"
    by fastforce
  then have ib1: "ib1 = fst (capture (run_inbox id [OpAccept (input_record ''a'' ''x'')] (mk_inbox small_limits)))"
    and b: "b = snd (capture (run_inbox id [OpAccept (input_record ''a'' ''x'')] (mk_inbox small_limits)))"
    by (metis fst_conv, metis snd_conv)
  let ?ib2 = "run_inbox id [OpAccept (input_record ''b'' ''y'')] ib1"
  have ok: "snd (ack b ?ib2) = Inr ()" unfolding ib1 b by code_simp
  obtain ib3 where a: "ack b ?ib2 = (ib3, Inr ())" using ok by (metis prod.collapse)
  have "map fst (bt_records b) = [1]" unfolding b by code_simp
  moreover have "map fst (pending_entries (fst (ack b ?ib2))) = [2]" unfolding ib1 b by code_simp
  then have "map fst (pending_entries ib3) = [2]" by (simp only: a fst_conv)
  moreover note ack_exact [OF c a, THEN conjunct1]
  ultimately show ?thesis using c a by (intro exI conjI) assumption+
qed

section \<open>Declared state\<close>

lemma distinct_keys_count:
  "distinct (map f (filter P es)) \<Longrightarrow> length (filter (\<lambda>e. P e \<and> f e = k) es) \<le> 1"
proof (induction es)
  case (Cons e es)
  have none: "filter (\<lambda>e. P e \<and> f e = f x) es = []" if "f x \<notin> f ` {y \<in> set es. P y}" for x
    using that by (auto simp: filter_empty_conv image_iff)
  from Cons show ?case by (auto dest: none split: if_splits)
qed simp

lemma state_keys_alt:
  "state_keys P es = map (\<lambda>e. state_key (fst (snd e)))
     (filter (\<lambda>e. ir_coalesce_key (fst (snd e)) \<noteq> [] \<and> P (fst e)) es)"
  by (induction es) (auto simp: state_keys_def)

lemma filter_or_count:
  "length (filter (\<lambda>e. P e) es) \<le> length (filter (\<lambda>e. P e \<and> Q e) es) + length (filter (\<lambda>e. P e \<and> \<not> Q e) es)"
  by (induction es) auto

text \<open>
  C31: Coalesced state stays latest-only. In every reachable inbox and for every declared state (a
  coalescing key with its source and topic), at most one pending record of that state is newer than
  the captured batch, and at most two are pending in all: the one the consumer holds and the latest.
\<close>

theorem coalesced_latest_only:
  "length (filter (\<lambda>(seq, r, n). state_key r = (c # key, source, topic)
       \<and> after_capture (ib_captured (run_inbox digest xs (mk_inbox l))) seq)
     (ib_records (run_inbox digest xs (mk_inbox l)))) \<le> 1
   \<and> length (filter (\<lambda>(seq, r, n). state_key r = (c # key, source, topic))
     (ib_records (run_inbox digest xs (mk_inbox l)))) \<le> 2"
proof -
  let ?ib = "run_inbox digest xs (mk_inbox l)" and ?k = "(c # key, source, topic)"
  let ?Q = "\<lambda>e :: entry. after_capture (ib_captured ?ib) (fst e)" and ?f = "\<lambda>e :: entry. state_key (fst (snd e))"
  have inv: "coalesce_inv ?ib" using run_from_start [of digest xs l] by (simp add: inbox_inv_def)
  have part: "length (filter (\<lambda>e. ?f e = ?k \<and> P (fst e)) (ib_records ?ib)) \<le> 1"
    if "distinct (state_keys P (ib_records ?ib))" for P
  proof -
    have "distinct (map ?f (filter (\<lambda>e. ir_coalesce_key (fst (snd e)) \<noteq> [] \<and> P (fst e)) (ib_records ?ib)))"
      using that by (simp only: state_keys_alt)
    from distinct_keys_count [OF this, of ?k]
    show ?thesis
      by (rule order_trans [rotated]) (auto simp: state_key_def intro!: eq_refl arg_cong [of _ _ length] filter_cong)
  qed
  have one: "length (filter (\<lambda>e. ?f e = ?k \<and> ?Q e) (ib_records ?ib)) \<le> 1"
    and two: "length (filter (\<lambda>e. ?f e = ?k \<and> \<not> ?Q e) (ib_records ?ib)) \<le> 1"
    using inv part [of "after_capture (ib_captured ?ib)"]
      part [of "\<lambda>seq. \<not> after_capture (ib_captured ?ib) seq"]
    unfolding coalesce_inv_def by blast+
  have eta: "(\<lambda>(seq, r, n). state_key r = ?k \<and> after_capture (ib_captured ?ib) seq) = (\<lambda>e. ?f e = ?k \<and> ?Q e)"
    "(\<lambda>(seq, r, n). state_key r = ?k) = (\<lambda>e :: entry. ?f e = ?k)" by auto
  have "length (filter (\<lambda>e. ?f e = ?k) (ib_records ?ib)) \<le> 2"
    using one two filter_or_count [of "\<lambda>e. ?f e = ?k" "ib_records ?ib" ?Q] by linarith
  with one show ?thesis unfolding eta by blast
qed

section \<open>Identities\<close>

text \<open>
  A pending record is admitted once. In every reachable inbox, submitting a pending ordinary
  record again any number of times (a coalesced one while its state is still declared) changes
  nothing and answers each time with the sequence number of its first admission and \<open>accepted\<close>
  false, even on a closed or full inbox: receipts are evicted only for records no longer pending.
\<close>

theorem pending_record_replayed:
  assumes "(seq, r, n) \<in> set (ib_records (run_inbox digest xs (mk_inbox l)))"
    and "ir_coalesce_key r \<noteq> [] \<longrightarrow> coalesce_allowed (run_inbox digest xs (mk_inbox l)) r"
  shows "run_ops (accept digest) (replicate k r) (run_inbox digest xs (mk_inbox l)) =
     (run_inbox digest xs (mk_inbox l),
      replicate k (Inr \<lparr>rc_sequence = seq, rc_record_id = ir_record_id r, rc_accepted = False\<rparr>))"
proof -
  let ?ib = "run_inbox digest xs (mk_inbox l)"
  have "structure_inv ?ib" and "receipts_inv digest ?ib"
    using run_from_start [of digest xs l] by (simp_all add: inbox_inv_def)
  with assms obtain encoded where "encode_record r = Inr encoded" "ir_kind r \<noteq> IK_REPLY" "ir_kind r \<noteq> IK_JOB"
    "map_of (ib_receipts ?ib) (ir_record_id r) = Some (seq, digest encoded)"
    by (fastforce simp: structure_inv_def receipts_inv_def)
  with assms(2) have "accept digest r ?ib
      = (?ib, Inr \<lparr>rc_sequence = seq, rc_record_id = ir_record_id r, rc_accepted = False\<rparr>)"
    by (intro accept_replays) simp_all
  then show ?thesis by (induction k) simp_all
qed

theorem pending_record_replayed_witness:
  "run_ops (accept id) (replicate 3 (input_record ''a'' ''x''))
       (run_inbox id [OpAccept (input_record ''a'' ''x''), OpAccept (input_record ''b'' ''y''), OpClose] (mk_inbox small_limits)) =
     (run_inbox id [OpAccept (input_record ''a'' ''x''), OpAccept (input_record ''b'' ''y''), OpClose] (mk_inbox small_limits),
      replicate 3 (Inr \<lparr>rc_sequence = 1, rc_record_id = ''a'', rc_accepted = False\<rparr>))"
proof -
  let ?xs = "[OpAccept (input_record ''a'' ''x''), OpAccept (input_record ''b'' ''y''), OpClose]"
  have "\<exists>n. list_ex (\<lambda>e. e = (1, input_record ''a'' ''x'', n)) (ib_records (run_inbox id ?xs (mk_inbox small_limits)))"
    by (rule exI [of _ "snd (snd (hd (ib_records (run_inbox id ?xs (mk_inbox small_limits)))))"]) code_simp
  then obtain n where n: "(1, input_record ''a'' ''x'', n) \<in> set (ib_records (run_inbox id ?xs (mk_inbox small_limits)))"
    by (auto simp: list_ex_iff simp del: run_ops.simps)
  have "ir_coalesce_key (input_record ''a'' ''x'') \<noteq> [] \<longrightarrow> Q" for Q by (simp add: input_record_def)
  from pending_record_replayed [OF n this, of 3] show ?thesis
    by (simp add: input_record_def del: run_ops.simps replicate.simps)
qed

section \<open>Closing\<close>

definition quiet :: "inbox \<Rightarrow> bool" where
  "quiet ib = (ib_closed ib \<and> ib_reply ib = None \<and> ib_terminals ib = [] \<and> ib_job_inputs ib = []
     \<and> list_all (\<lambda>(seq, r, n). \<not> ir_requires_decision r) (ib_records ib))"

lemma quiet_cong: "ib_closed ib' = ib_closed ib \<Longrightarrow> core ib' = core ib \<Longrightarrow> quiet ib' = quiet ib"
  by (cases ib; cases ib') (simp add: quiet_def core_def)

lemma quiet_close: "quiet ib \<Longrightarrow> quiet (close_inbox ib)"
  by (simp add: quiet_def close_inbox_def)

lemma closed_waiting:
  "ib_closed (wait_end wt ib) = ib_closed ib"
  "ib_closed (fst (wait_begin condition budget ib)) = ib_closed ib"
  "ib_closed (fst (wait_observe statuses now wt ib)) = ib_closed ib"
  "ib_closed (fst (wait_decide now wt ib)) = ib_closed ib"
  by (auto simp: wait_end_def wait_begin_def wait_observe_def wait_decide_def Let_def
      split: option.splits sum.splits)

lemma closed_wait_pass: "ib_closed (fst (wait_pass statuses now wt ib)) = ib_closed ib"
  using closed_waiting(3) [of statuses now wt ib]
  by (cases "wait_observe statuses now wt ib") (auto simp: wait_pass_def closed_waiting split: sum.splits)

lemma closed_control:
  "ib_closed (fst (open_question q ib)) = ib_closed ib"
  "ib_closed (fst (request_budget fresh n ib)) = ib_closed ib"
  "ib_closed (fst (grant_cycles rid n ib)) = ib_closed ib"
  "ib_closed (set_activity a ib) = ib_closed ib"
  "ib_closed (subscribe_events subscriptions ib) = ib_closed ib"
  by (auto simp: open_question_def request_budget_def grant_cycles_def set_activity_def
      subscribe_events_def split: option.splits sum.splits)

lemmas quiet_unchanged =
  quiet_cong [OF closed_waiting(1) core_waiting(1)] quiet_cong [OF closed_waiting(2) core_waiting(2)]
  quiet_cong [OF closed_wait_pass core_wait_pass]
  quiet_cong [OF closed_control(1) core_control(1)] quiet_cong [OF closed_control(2) core_control(2)]
  quiet_cong [OF closed_control(3) core_control(3)] quiet_cong [OF closed_control(4) core_control(6)]
  quiet_cong [OF closed_control(5) core_control(7)]

lemma quiet_closed: "quiet ib \<Longrightarrow> ib_closed ib"
  by (simp add: quiet_def)

lemma closed_accept: "ib_closed ib \<Longrightarrow> fst (accept digest r ib) = ib"
  by (cases rule: accept_cases [of digest r ib]) simp_all

lemma closed_accept_event: "ib_closed ib \<Longrightarrow> fst (accept_event digest received event ib) = ib"
  by (auto simp: accept_event_def Let_def closed_accept split: sum.splits)

lemma closed_reply: "ib_closed ib \<Longrightarrow> fst (reply digest received qid answer ib) = ib"
  by (cases rule: reply_cases [of digest received qid answer ib]) simp_all

lemma quiet_step: "quiet ib \<Longrightarrow> quiet (fst (inbox_step digest x ib))"
proof (cases x)
  case (OpReserveTerminal job n)
  moreover assume "quiet ib"
  ultimately show ?thesis by (simp add: reserve_terminal_def quiet_def)
next
  case (OpDeliverTerminal received job payload)
  moreover assume "quiet ib"
  ultimately show ?thesis by (auto simp: deliver_terminal_def quiet_def split: sum.splits)
next
  case (OpDeliverJobInputs received job requests)
  moreover assume "quiet ib"
  ultimately show ?thesis by (simp add: deliver_job_inputs_def quiet_def)
next
  case (OpReleaseTerminal job)
  moreover assume "quiet ib"
  ultimately show ?thesis by (simp add: release_terminal_def quiet_def Let_def)
next
  case OpCapture
  moreover assume "quiet ib"
  ultimately show ?thesis by (cases ib rule: capture_cases) (simp_all add: quiet_def)
next
  case (OpAck b)
  moreover assume "quiet ib"
  ultimately show ?thesis by (auto simp: ack_def Let_def quiet_def list_all_iff)
next
  case OpCloseIfEmpty
  moreover assume "quiet ib"
  ultimately show ?thesis by (auto simp: close_if_empty_def quiet_def)
qed (simp_all add: quiet_close closed_accept closed_accept_event closed_reply quiet_closed quiet_unchanged)

lemma quiet_run: "quiet ib \<Longrightarrow> quiet (run_inbox digest xs ib)"
  by (induction xs arbitrary: ib) (simp_all add: run_ops_fst_Cons quiet_step del: run_ops.simps(2))

lemma quiet_pending:
  "quiet ib \<Longrightarrow> ib_closed ib \<and> list_all (\<lambda>(seq, r, n). \<not> ir_requires_decision r) (pending_entries ib)"
  by (simp add: quiet_def pending_entries_def)

text \<open>
  C29: Closing when empty is safe and final. \<open>close_if_empty\<close> succeeds exactly when no pending record
  requires a decision, no reply is pending and no Job terminal or input is reserved; otherwise it
  changes nothing. Once it has succeeded, whatever operations follow, the inbox stays closed and
  nothing pending ever requires a decision again: no input, reply or Job fact can be stranded in it.
\<close>

theorem close_if_empty_final:
  "snd (close_if_empty ib) = (list_all (\<lambda>(seq, r, n). \<not> ir_requires_decision r) (ib_records ib)
      \<and> ib_reply ib = None \<and> ib_terminals ib = [] \<and> ib_job_inputs ib = [])
   \<and> (snd (close_if_empty ib) \<or> fst (close_if_empty ib) = ib)
   \<and> (snd (close_if_empty ib) \<longrightarrow> ib_closed (run_inbox digest xs (fst (close_if_empty ib)))
        \<and> list_all (\<lambda>(seq, r, n). \<not> ir_requires_decision r)
            (pending_entries (run_inbox digest xs (fst (close_if_empty ib)))))"
proof -
  note quiet_run quiet_pending
  moreover have iff: "snd (close_if_empty ib) = (list_all (\<lambda>(seq, r, n). \<not> ir_requires_decision r) (ib_records ib)
      \<and> ib_reply ib = None \<and> ib_terminals ib = [] \<and> ib_job_inputs ib = [])"
    by (simp add: close_if_empty_def list_all_iff list_ex_iff case_prod_beta del: not_None_eq)
  moreover have "quiet (fst (close_if_empty ib))" if "snd (close_if_empty ib)"
    using that iff by (auto simp: close_if_empty_def quiet_def split: if_splits)
  moreover have "snd (close_if_empty ib) \<or> fst (close_if_empty ib) = ib"
    by (simp add: close_if_empty_def)
  ultimately show ?thesis by blast
qed

theorem close_if_empty_final_witness:
  "ib_closed (run_inbox id [OpAccept (input_record ''a'' ''x''), OpReserveTerminal ''j'' 1, OpCapture]
       (fst (close_if_empty (mk_inbox small_limits))))
   \<and> list_all (\<lambda>(seq, r, n). \<not> ir_requires_decision r)
       (pending_entries (run_inbox id [OpAccept (input_record ''a'' ''x''), OpReserveTerminal ''j'' 1, OpCapture]
         (fst (close_if_empty (mk_inbox small_limits)))))"
proof -
  have "snd (close_if_empty (mk_inbox small_limits))" by code_simp
  with close_if_empty_final [of "mk_inbox small_limits" id
      "[OpAccept (input_record ''a'' ''x''), OpReserveTerminal ''j'' 1, OpCapture]"]
  show ?thesis by blast
qed

section \<open>Budget\<close>

text \<open>
  A budget request is decided once. When a grant is taken, the cycles are pending for the waiting
  Turn and the request was the active one of an open inbox; the same decision repeated any number
  of times changes nothing and answers false; and any other positive number of cycles for that
  request is refused without effect, also after the request has been consumed.
\<close>

theorem grant_decided_once:
  assumes "grant_cycles rid n ib = (ib', Inr True)" and "0 < ib_retained_receipts ib"
    and "distinct (dict_keys (ib_decisions ib))"
  shows "ib_grant ib' = Some n \<and> map_option br_request_id (ib_budget_request ib) = Some rid \<and> \<not> ib_closed ib
    \<and> run_ops (grant_cycles rid) (replicate k n) ib' = (ib', replicate k (Inr False))
    \<and> (0 < m \<and> m \<noteq> n \<longrightarrow> (\<exists>e. grant_cycles rid m ib' = (ib', Inl e)))"
proof -
  from assms(1) have fresh: "map_of (ib_decisions ib) rid = None" and n: "0 < n"
    and active: "map_option br_request_id (ib_budget_request ib) = Some rid" "\<not> ib_closed ib"
    and ib': "ib' = ib\<lparr>ib_decisions := trim_oldest (ib_retained_receipts ib)
        (AList.update rid n (ib_decisions ib)), ib_grant := Some n\<rparr>"
    by (auto simp: grant_cycles_def split: if_splits option.splits)
  have "AList.update rid n (ib_decisions ib) = ib_decisions ib @ [(rid, n)]"
    using fresh by (intro update_fresh) (simp add: map_of_eq_None_iff)
  moreover from trim_oldest_snoc [OF assms(2), of "ib_decisions ib" "(rid, n)"]
  obtain ys where "trim_oldest (ib_retained_receipts ib) (ib_decisions ib @ [(rid, n)]) = ys @ [(rid, n)]"
    by blast
  ultimately have ys: "ib_decisions ib' = ys @ [(rid, n)]"
    and sub: "ys @ [(rid, n)] = drop (length (ib_decisions ib @ [(rid, n)]) - ib_retained_receipts ib)
      (ib_decisions ib @ [(rid, n)])"
    by (simp_all add: ib' trim_oldest_drop)
  have "distinct (dict_keys (ib_decisions ib @ [(rid, n)]))"
    using assms(3) fresh by (simp add: map_of_eq_None_iff)
  then have "distinct (dict_keys (ys @ [(rid, n)]))" unfolding sub drop_map [symmetric] by (rule distinct_drop)
  then have dec: "map_of (ib_decisions ib') rid = Some n"
    unfolding ys by (intro map_of_distinct_mem) simp_all
  then have "grant_cycles rid n ib' = (ib', Inr False)" using n by (simp add: grant_cycles_def)
  then have "run_ops (grant_cycles rid) (replicate k n) ib' = (ib', replicate k (Inr False))"
    by (induction k) simp_all
  moreover have "\<exists>e. grant_cycles rid m ib' = (ib', Inl e)" if "0 < m" "m \<noteq> n"
    using that dec by (simp add: grant_cycles_def)
  moreover have "ib_grant ib' = Some n" by (simp add: ib')
  ultimately show ?thesis using active by blast
qed

theorem grant_decided_once_witness:
  "\<exists>ib'. grant_cycles ''budget_u'' 3 (run_inbox id [OpRequestBudget ''u'' 7] (mk_inbox small_limits)) = (ib', Inr True)
    \<and> ib_grant ib' = Some 3
    \<and> run_ops (grant_cycles ''budget_u'') (replicate 2 3) ib' = (ib', replicate 2 (Inr False))
    \<and> (\<exists>e. grant_cycles ''budget_u'' 4 ib' = (ib', Inl e))"
proof -
  let ?ib = "run_inbox id [OpRequestBudget ''u'' 7] (mk_inbox small_limits)"
  have ok: "snd (grant_cycles ''budget_u'' 3 ?ib) = Inr True" by code_simp
  obtain ib' where g: "grant_cycles ''budget_u'' 3 ?ib = (ib', Inr True)" using ok by (metis prod.collapse)
  have r: "0 < ib_retained_receipts ?ib" and d: "distinct (dict_keys (ib_decisions ?ib))" by code_simp+
  have "0 < (4 :: int) \<and> (4 :: int) \<noteq> 3" by simp
  with grant_decided_once [OF g r d, of 2 4] g show ?thesis by blast
qed

section \<open>Waiting\<close>

text \<open>The entries that end a wait: past the cursor, and an input, an expected reply or a matching event.\<close>

definition wakes :: "wait_condition \<Rightarrow> nat \<times> inbox_record \<Rightarrow> bool" where
  "wakes c = (\<lambda>(seq, r). wc_after_sequence c < int seq
     \<and> (ir_kind r = IK_INPUT \<or> wc_question c \<noteq> None \<and> ir_kind r = IK_REPLY
        \<or> matches_event c (ir_kind r) (ir_record_id r) (ir_topic r) (ir_source r) (ir_requires_decision r)))"

lemma ready_scan_None: "ready_scan c es = Inr None \<Longrightarrow> e \<in> set es \<Longrightarrow> \<not> wakes c e"
  by (induction c es rule: ready_scan.induct)
    (auto simp: wakes_def split: if_splits option.splits json.splits)

lemma ready_scan_Some:
  "ready_scan c es = Inr (Some wk) \<Longrightarrow> \<exists>pre e post. es = pre @ e # post \<and> wk_sequence wk = Some (fst e)
     \<and> wakes c e \<and> (\<forall>x \<in> set pre. \<not> wakes c x)"
proof (induction c es rule: ready_scan.induct)
  case (2 c seq r rest)
  show ?case
  proof (cases "wakes c (seq, r)")
    case True
    with 2(3) have "wk_sequence wk = Some seq"
      by (auto simp: wakes_def split: if_splits option.splits json.splits)
    with True show ?thesis by (intro exI [of _ "[]"] exI [of _ "(seq, r)"] exI [of _ rest]) simp
  next
    case False
    with 2 have "\<exists>pre e post. rest = pre @ e # post \<and> wk_sequence wk = Some (fst e)
        \<and> wakes c e \<and> (\<forall>x \<in> set pre. \<not> wakes c x)"
      by (auto simp: wakes_def split: if_splits)
    then obtain pre e post where "rest = pre @ e # post" "wk_sequence wk = Some (fst e)" "wakes c e"
      "\<forall>x \<in> set pre. \<not> wakes c x" by blast
    with False show ?thesis
      by (intro exI [of _ "(seq, r) # pre"] exI [of _ e] exI [of _ post]) simp
  qed
qed simp

definition pending_records :: "inbox \<Rightarrow> (nat \<times> inbox_record) list" where
  "pending_records ib = map (\<lambda>(seq, r, n). (seq, r)) (sort_key fst (pending_entries ib))"

lemma pending_records_sorted: "sorted (map fst (pending_records ib))"
proof -
  have "map fst (pending_records ib) = map fst (sort_key fst (pending_entries ib))"
    by (simp add: pending_records_def case_prod_beta)
  then show ?thesis by simp
qed

lemma ready_cases:
  assumes "ready statuses now c ib = Inr res"
  shows "case res of
      None \<Rightarrow> list_all (\<lambda>e. \<not> wakes c e) (pending_records ib) \<and> unavailable_source statuses c = None
        \<and> \<not> deadline_passed now c
    | Some wk \<Rightarrow> (case wk_sequence wk of
        Some s \<Rightarrow> \<exists>e \<in> set (pending_records ib). fst e = s \<and> wakes c e
          \<and> list_all (\<lambda>x. fst x < s \<longrightarrow> \<not> wakes c x) (pending_records ib)
      | None \<Rightarrow> list_all (\<lambda>e. \<not> wakes c e) (pending_records ib)
          \<and> (if wk_reason wk = WK_SOURCE_UNAVAILABLE then unavailable_source statuses c \<noteq> None
             else wk_reason wk = WK_TIMER \<and> unavailable_source statuses c = None \<and> deadline_passed now c))"
proof (cases "ready_scan c (pending_records ib)")
  case (Inl e)
  with assms show ?thesis by (simp add: ready_def pending_records_def)
next
  case (Inr found)
  show ?thesis
  proof (cases found)
    case (Some wk)
    with assms Inr have res: "res = Some wk" by (simp add: ready_def pending_records_def)
    from ready_scan_Some [OF Inr [unfolded Some]] obtain pre e post
      where split: "pending_records ib = pre @ e # post" and e: "wk_sequence wk = Some (fst e)" "wakes c e"
        and pre: "\<forall>x \<in> set pre. \<not> wakes c x" by blast
    have "list_all (\<lambda>x. fst x < fst e \<longrightarrow> \<not> wakes c x) (pending_records ib)"
      using pending_records_sorted [of ib] pre unfolding split
      by (fastforce simp: list_all_iff sorted_append)
    with res e split show ?thesis by auto
  next
    case None
    then have "list_all (\<lambda>e. \<not> wakes c e) (pending_records ib)"
      using ready_scan_None [of c "pending_records ib"] Inr by (simp add: list_all_iff)
    with assms Inr None show ?thesis
      by (auto simp: ready_def pending_records_def split: if_splits)
  qed
qed

lemma mk_cycle_readiness_same: "mk_cycle_readiness r = Inr r' \<Longrightarrow> r' = r"
  by (auto simp: mk_cycle_readiness_def split: if_splits)


definition timer_wait :: "nat \<Rightarrow> rat \<Rightarrow> wait_condition" where
  "timer_wait cursor deadline = \<lparr>wc_reason = WR_TIMER, wc_after_sequence = int cursor,
     wc_deadline = Some (Num deadline), wc_event_kind = None, wc_event_id = None, wc_question = None,
     wc_topic = None, wc_source = None\<rparr>"


section \<open>The edge of the reply guarantee\<close>

text \<open>
  A receipt is kept for every pending ordinary record and, by \<open>ack\<close>, for the pending reply; \<open>accept\<close>
  counts only the ordinary records when it evicts.
\<close>

definition ask :: "string \<Rightarrow> question_request" where
  "ask qid = \<lparr>qr_id = qid, qr_content = \<lparr>qc_question = ''?'', qc_options = [], qc_allow_other = True,
     qc_details = []\<rparr>, qr_timeout = None\<rparr>"

definition free_answer :: "string \<Rightarrow> question_answer" where
  "free_answer body = \<lparr>qa_kind = AK_TEXT, qa_text = body, qa_option_id = [], qa_comment = []\<rparr>"

definition state_event :: "string \<Rightarrow> inbox_record" where
  "state_event rid = \<lparr>ir_kind = IK_EVENT, ir_payload = [], ir_record_id = rid, ir_received_at = Num 0,
     ir_topic = ''t'', ir_source = ''s'', ir_coalesce_key = ''s:t'', ir_requires_decision = True\<rparr>"

definition state_subscription :: turn_event_subscription where
  "state_subscription = \<lparr>sub_filter = \<lparr>ef_kind = None, ef_topic = Some ''t'', ef_source = Some ''s''\<rparr>,
     sub_coalesce = True, sub_requires_decision = True\<rparr>"

definition evicted_reply_run :: "inbox_op list" where
  "evicted_reply_run = [OpSubscribe [state_subscription], OpOpenQuestion (ask ''q''),
     OpReply (Num 0) ''q'' (free_answer ''yes''), OpAccept (state_event ''e1''), OpAccept (state_event ''e2''),
     OpReply (Num 0) ''q'' (free_answer ''no'')]"


end
