(* ===== verification/Turn_Properties.thy ===== *)
theory Turn_Properties
  imports Turn Inbox_Properties
begin

text \<open>
  What the loop and the life of a Turn guarantee: nothing accepted by the inbox is lost or left
  behind by a completion, Cycles stay within the budget, and the report is consistent.
\<close>

section \<open>Tasks on locals and world\<close>

lemma with_world_Some: "with_world m s = Some (s', r) \<longleftrightarrow> (\<exists>w'. m (snd s) = Some (w', r) \<and> s' = (fst s, w'))"
  by (auto simp: with_world_def split: option.splits)

lemma with_world_step [task_simps]:
  "m (snd s) = None \<Longrightarrow> with_world m s = None"
  "m (snd s) = Some (w', r) \<Longrightarrow> with_world m s = Some ((fst s, w'), r)"
  by (simp_all add: with_world_def)

lemma locals_step [task_simps]:
  "set_locals f s = Some ((f (fst s), snd s), Inr ())"
  "with_locals k s = k (fst s) s"
  by (simp_all add: set_locals_def with_locals_def task_simps)

lemma spec_world:
  assumes "\<And>l w w' a. P (l, w) \<Longrightarrow> m w = Some (w', Inr a) \<Longrightarrow> Q a (l, w')"
    and "\<And>l w w' e. P (l, w) \<Longrightarrow> m w = Some (w', Inl e) \<Longrightarrow> E e (l, w')"
  shows "task_spec P (with_world m) Q E"
  by (rule task_specI) (use assms in \<open>auto simp: with_world_Some\<close>)

lemma spec_set_locals: "(\<And>l w. P (l, w) \<Longrightarrow> Q () (f l, w)) \<Longrightarrow> task_spec P (set_locals f) Q E"
  by (rule task_specI) (auto simp: task_simps)

lemma spec_with_locals:
  assumes "\<And>l. task_spec (\<lambda>s. P s \<and> fst s = l) (k l) Q E"
  shows "task_spec P (with_locals k) Q E"
  unfolding task_spec_def
proof (intro allI impI)
  fix s s' r
  assume "P s" "with_locals k s = Some (s', r)"
  then show "case r of Inl e \<Rightarrow> E e s' | Inr a \<Rightarrow> Q a s'"
    using assms [of "fst s"] unfolding task_spec_def locals_step by blast
qed

lemma spec_pre: "task_spec P m Q E \<Longrightarrow> task_spec (\<lambda>s. P s \<and> R s) m Q E"
  by (auto simp: task_spec_def)

text \<open>A condition on the locals that a task keeps, whether it returns or raises.\<close>

definition keeps_locals :: "(turn_locals \<Rightarrow> bool) \<Rightarrow> ('w turn_state, 'a) task \<Rightarrow> bool" where
  "keeps_locals p m = task_spec (\<lambda>s. p (fst s)) m (\<lambda>_ s. p (fst s)) (\<lambda>_ s. p (fst s))"

lemma keeps_bind: "keeps_locals p m \<Longrightarrow> (\<And>a. keeps_locals p (k a)) \<Longrightarrow> keeps_locals p (task_bind m k)"
  unfolding keeps_locals_def by (rule task_spec_bind)

lemma keeps_then: "keeps_locals p m \<Longrightarrow> (\<And>r. keeps_locals p (k r)) \<Longrightarrow> keeps_locals p (task_then m k)"
  unfolding keeps_locals_def by (rule task_spec_then)

lemma keeps_basic: "keeps_locals p (task_return a)" "keeps_locals p (task_raise e)" "keeps_locals p (task_sum r)"
  by (simp_all add: keeps_locals_def task_spec_def task_simps split: sum.split)

lemma keeps_world: "keeps_locals p (with_world m)"
  unfolding keeps_locals_def by (rule spec_world) simp_all

lemma keeps_set_locals: "(\<And>l. p l \<Longrightarrow> p (f l)) \<Longrightarrow> keeps_locals p (set_locals f)"
  unfolding keeps_locals_def by (rule spec_set_locals) simp

lemma keeps_with_locals: "(\<And>l. keeps_locals p (k l)) \<Longrightarrow> keeps_locals p (with_locals k)"
  unfolding keeps_locals_def by (rule spec_with_locals) (rule spec_pre)

lemmas keep_rules = keeps_bind keeps_then keeps_basic keeps_world keeps_set_locals keeps_with_locals

section \<open>A completion leaves nothing behind\<close>

definition loop_ok :: "turn_locals \<Rightarrow> bool" where
  "loop_ok l = (tl_completion l = None \<and> tl_output l = None \<and> \<not> tl_exhausted l)"

text \<open>Once the loop is left: an exhausted Turn has no completion, and no output is mapped yet.\<close>

definition loop_left :: "turn_locals \<Rightarrow> bool" where
  "loop_left l = (tl_output l = None \<and> (tl_exhausted l \<longrightarrow> tl_completion l = None))"

lemma loop_ok_left: "loop_ok l \<Longrightarrow> loop_left l"
  by (simp add: loop_ok_def loop_left_def)

definition complete :: "('w, 'r) loop_env \<Rightarrow> 'w turn_state \<Rightarrow> bool" where
  "complete env s = (\<forall>c. tl_completion (fst s) = Some c \<longrightarrow>
     (\<exists>q. c = awaiting_user q) \<or> \<not> te_has_inbox env \<or> quiet (tx_inbox (fst (snd s))))"

abbreviation completed :: "('w, 'r) loop_env \<Rightarrow> loop_next \<Rightarrow> 'w turn_state \<Rightarrow> bool" where
  "completed env n s \<equiv> if n = NextCycle then loop_ok (fst s) else complete env s \<and> loop_left (fst s)"

definition completes :: "('w, 'r) loop_env \<Rightarrow> ('w turn_state, loop_next) task \<Rightarrow> bool" where
  "completes env m = task_spec (\<lambda>s. loop_ok (fst s)) m (completed env) (\<lambda>_ s. loop_left (fst s))"

lemma completesD:
  assumes "completes env m" and "loop_ok (fst s)" and "m s = Some (s', r)"
  shows "case r of Inl e \<Rightarrow> loop_left (fst s') | Inr n \<Rightarrow> completed env n s'"
  using assms unfolding completes_def task_spec_def by blast

lemma completes_bind:
  assumes "keeps_locals loop_ok m" and "\<And>a. completes env (k a)"
  shows "completes env (task_bind m k)"
  unfolding completes_def
proof (rule task_spec_bind)
  show "task_spec (\<lambda>s. loop_ok (fst s)) m (\<lambda>_ s. loop_ok (fst s)) (\<lambda>_ s. loop_left (fst s))"
    by (rule task_spec_weaken [OF assms(1) [unfolded keeps_locals_def]]) (simp_all add: loop_ok_left)
qed (rule assms(2) [unfolded completes_def])

text \<open>A task that may already leave the loop, and what follows when it does not.\<close>

lemma completes_unless_left:
  assumes m: "completes env m" and k: "completes env k"
  shows "completes env (task_bind m (\<lambda>n. if n = LeaveLoop then task_return LeaveLoop else k))"
  unfolding completes_def
proof (rule task_spec_bind [OF m [unfolded completes_def]])
  show "task_spec (completed env n) (if n = LeaveLoop then task_return LeaveLoop else k)
      (completed env) (\<lambda>_ s. loop_left (fst s))" for n
    using k by (cases n) (auto simp: completes_def task_spec_def task_simps split: sum.splits)
qed

lemma completes_leave [simp, intro]: "completes env (task_return n)"
  unfolding completes_def by (rule task_spec_return) (auto simp: complete_def loop_ok_def loop_left_def)

lemma completes_raise [simp, intro]: "completes env (task_raise e)"
  unfolding completes_def by (rule task_spec_raise) (simp add: loop_ok_left)

lemma completes_with_locals: "(\<And>l. completes env (k l)) \<Longrightarrow> completes env (with_locals k)"
  unfolding completes_def by (rule spec_with_locals) (rule spec_pre)

lemma loop_ok_update [simp]:
  "loop_ok (l\<lparr>tl_cycle_index := i\<rparr>) = loop_ok l" "loop_ok (l\<lparr>tl_cycle_limit := i\<rparr>) = loop_ok l"
  "loop_ok (l\<lparr>tl_feedback := f\<rparr>) = loop_ok l" "loop_ok (l\<lparr>tl_wait := c\<rparr>) = loop_ok l"
  "loop_ok (l\<lparr>tl_transfer := t\<rparr>) = loop_ok l" "loop_ok (l\<lparr>tl_scope := sc\<rparr>) = loop_ok l"
  "loop_ok (l\<lparr>tl_failure := fl, tl_stopped := b\<rparr>) = loop_ok l"
  by (simp_all add: loop_ok_def)

lemma completes_next [simp, intro]: "completes env next_cycle"
  unfolding next_cycle_def by (auto intro!: completes_bind keep_rules)

lemma completes_awaiting:
  "completes env (task_bind (set_locals (\<lambda>l. l\<lparr>tl_completion := Some (awaiting_user q)\<rparr>)) (\<lambda>_. task_return LeaveLoop))"
  unfolding completes_def by (rule task_specI) (auto simp: task_simps complete_def loop_ok_def loop_left_def)

lemma close_if_empty_quiet: "close_if_empty ib = (ib', True) \<Longrightarrow> quiet ib'"
  by (simp add: close_if_empty_def quiet_def list_all_iff list_ex_iff case_prod_beta del: not_None_eq split: if_splits) auto

lemma completes_completion: "completes env (turn_completion_try env t c)"
proof -
  let ?close = "with_world (if te_has_inbox env then on_inbox (\<lambda>ib. case close_if_empty ib of (ib', shut) \<Rightarrow> (ib', Inr shut))
    else task_return True)"
  let ?last = "\<lambda>shut. if \<not> shut then next_cycle
    else task_bind (set_locals (\<lambda>l. l\<lparr>tl_completion := Some c\<rparr>)) (\<lambda>_. task_return LeaveLoop)"
  let ?mid = "\<lambda>shut s. loop_ok (fst s) \<and> (shut \<longrightarrow> \<not> te_has_inbox env \<or> quiet (tx_inbox (fst (snd s))))"
  have last: "completes env (task_bind ?close ?last)"
    unfolding completes_def
  proof (rule task_spec_bind [where Q = ?mid])
    show "task_spec (\<lambda>s. loop_ok (fst s)) ?close ?mid (\<lambda>_ s. loop_left (fst s))"
      by (rule spec_world)
        (auto simp: on_inbox_def task_simps set_inbox_def close_if_empty_quiet split: if_splits prod.splits)
    show "task_spec (?mid shut) (?last shut) (completed env) (\<lambda>_ s. loop_left (fst s))" for shut
      using completes_next [of env, unfolded completes_def]
      by (cases shut) (auto simp: task_spec_def task_simps complete_def loop_ok_def loop_left_def split: sum.splits)
  qed
  show ?thesis
    unfolding turn_completion_try_def
  proof (intro completes_with_locals completes_bind keeps_world)
    show "completes env (if unresolved
       then task_bind (set_locals (\<lambda>l. l\<lparr>tl_feedback := tl_feedback l @ [active_jobs_block_completion]\<rparr>)) (\<lambda>_. next_cycle)
       else task_bind (with_world (consume_inbox env (tl_scope l) True)) (\<lambda>decisive.
         if decisive then next_cycle else task_bind ?close ?last))" for unresolved l
      using last by (auto intro!: completes_bind keep_rules)
  qed
qed

lemma completes_question: "completes env (turn_question env cursor q)"
  unfolding turn_question_def by (auto intro!: completes_awaiting completes_bind keep_rules)

lemma completes_wait: "completes env (turn_ordinary_wait env cursor r)"
  unfolding turn_ordinary_wait_def by (auto intro!: completes_bind keep_rules)

lemma completes_decide: "completes env (turn_decide env t cursor cycle)"
  unfolding turn_decide_def
  by (auto intro!: completes_bind keep_rules completes_with_locals completes_question completes_wait completes_completion
      split: option.split)

lemma completes_turn_wait: "completes env (turn_wait env request)"
  unfolding turn_wait_def
  by (auto intro!: completes_awaiting completes_bind keep_rules completes_with_locals split: option.split)

lemma keeps_cycle: "keeps_locals loop_ok (turn_cycle env t)"
  unfolding turn_cycle_def by (auto intro!: keep_rules split: option.split)

lemma budget_spec:
  "task_spec (\<lambda>s. loop_ok (fst s)) (turn_budget env) (\<lambda>(n, request). completed env n) (\<lambda>_ s. loop_left (fst s))"
  unfolding turn_budget_def
proof (rule spec_with_locals)
  fix l
  let ?P = "\<lambda>s. loop_ok (fst s)"
  let ?out = "\<lambda>s. loop_left (fst s) \<and> tl_completion (fst s) = None"
  have exhausted: "task_spec ?P (task_bind (set_locals (\<lambda>l. l\<lparr>tl_exhausted := True\<rparr>))
      (\<lambda>_. task_bind (with_world m) (\<lambda>_. task_return (LeaveLoop, None))))
      (\<lambda>(n, request). completed env n) (\<lambda>_ s. loop_left (fst s))" for m
  proof (rule task_spec_bind [where Q = "\<lambda>_. ?out"])
    show "task_spec ?P (set_locals (\<lambda>l. l\<lparr>tl_exhausted := True\<rparr>)) (\<lambda>_. ?out) (\<lambda>_ s. loop_left (fst s))"
      by (rule spec_set_locals) (simp add: loop_ok_def loop_left_def)
    show "task_spec ?out (task_bind (with_world m) (\<lambda>_. task_return (LeaveLoop, None)))
      (\<lambda>(n, request). completed env n) (\<lambda>_ s. loop_left (fst s))"
      by (rule task_spec_bind [where Q = "\<lambda>_. ?out"], rule spec_world, simp_all)
        (rule task_spec_return, simp add: complete_def)
  qed
  have asked: "task_spec ?P (task_bind (with_world m) (\<lambda>r. task_bind (with_world (f r)) (\<lambda>_. task_return (NextCycle, Some r))))
      (\<lambda>(n, request). completed env n) (\<lambda>_ s. loop_left (fst s))" for m f
    by (rule task_spec_bind [where Q = "\<lambda>_. ?P"], rule spec_world, simp_all add: loop_ok_left)
      (rule task_spec_bind [where Q = "\<lambda>_. ?P"], rule spec_world, simp_all add: loop_ok_left task_spec_return)
  show "task_spec (\<lambda>s. ?P s \<and> fst s = l)
    (if tl_cycle_index l \<le> tl_cycle_limit l then task_return (NextCycle, None)
     else if \<not> te_has_inbox env
     then task_bind (set_locals (\<lambda>l. l\<lparr>tl_exhausted := True\<rparr>)) (\<lambda>_.
          task_bind (with_world (emit_and_consume (te_consumer env) [cycle_limit_signal env (tl_scope l)] (tl_scope l)))
            (\<lambda>_. task_return (LeaveLoop, None)))
     else task_bind (with_world (\<lambda>w. on_inbox (request_budget (te_fresh env w) (tl_cycle_index l)) w)) (\<lambda>request.
          task_bind (with_world (suspend_for_budget env (tl_scope l) request))
            (\<lambda>_. task_return (NextCycle, Some request))))
    (\<lambda>(n, request). completed env n) (\<lambda>_ s. loop_left (fst s))"
    by (rule spec_pre) (simp add: exhausted asked task_spec_return)
qed

lemma completes_pass: "completes env (turn_pass env t)"
proof -
  let ?rest = "\<lambda>request. task_bind (turn_wait env request) (\<lambda>n. if n = LeaveLoop then task_return LeaveLoop
     else task_bind (turn_cycle env t) (\<lambda>(cursor, cycle). turn_decide env t cursor cycle))"
  have rest: "completes env (?rest request)" for request
    by (rule completes_unless_left [OF completes_turn_wait])
      (auto intro!: completes_bind keeps_cycle completes_decide)
  show ?thesis
    unfolding turn_pass_def completes_def
  proof (rule task_spec_bind [OF budget_spec])
    fix p :: "loop_next \<times> budget_request option"
    obtain n request where p: "p = (n, request)" by fastforce
    have "task_spec (completed env n) (if n = LeaveLoop then task_return LeaveLoop else ?rest request)
        (completed env) (\<lambda>_ s. loop_left (fst s))"
      using rest [of request] by (cases n) (auto simp: completes_def task_spec_def task_simps split: sum.splits)
    then show "task_spec (case p of (n, request) \<Rightarrow> completed env n)
        (case p of (n, request) \<Rightarrow> if n = LeaveLoop then task_return LeaveLoop else ?rest request)
        (completed env) (\<lambda>_ s. loop_left (fst s))"
      by (simp add: p)
  qed
qed

section \<open>Induction over the passes\<close>

lemma turn_loop_step:
  "turn_loop env t s = (case turn_pass env t s of None \<Rightarrow> None
     | Some (s', Inl e) \<Rightarrow> Some (s', Inl e) | Some (s', Inr LeaveLoop) \<Rightarrow> Some (s', Inr ())
     | Some (s', Inr NextCycle) \<Rightarrow> turn_loop env t s')"
  by (rule turn_loop.simps)

text \<open>Induction over the passes: an invariant of the passes that go on, and what the last one leaves.\<close>

lemma turn_loop_rule:
  assumes pass: "task_spec P (turn_pass env t) (\<lambda>n s. if n = NextCycle then P s else Q s) E"
    and out: "turn_loop env t s = Some (s', r)" and pre: "P s"
  shows "case r of Inl e \<Rightarrow> E e s' | Inr _ \<Rightarrow> Q s'"
proof -
  let ?R = "\<lambda>e u s out. e = env \<and> u = t \<and> P s \<longrightarrow> (case snd out of Inl x \<Rightarrow> E x (fst out) | Inr _ \<Rightarrow> Q (fst out))"
  have "?R env t s (s', r)"
  proof (rule turn_loop.raw_induct [where P = ?R, OF _ out], intro impI)
    fix loop e u s out
    assume IH: "\<And>e u s out. loop e u s = Some out \<Longrightarrow> ?R e u s out"
      and eq: "(case turn_pass e u s of None \<Rightarrow> None
        | Some (s', Inl e) \<Rightarrow> Some (s', Inl e) | Some (s', Inr LeaveLoop) \<Rightarrow> Some (s', Inr ())
        | Some (s', Inr NextCycle) \<Rightarrow> loop e u s') = Some out"
      and args: "e = env \<and> u = t \<and> P s"
    have e: "e = env" and u: "u = t" and P: "P s" using args by simp_all
    obtain s1 r1 where p: "turn_pass env t s = Some (s1, r1)"
      using eq unfolding e u by (cases "turn_pass env t s") auto
    show "case snd out of Inl x \<Rightarrow> E x (fst out) | Inr _ \<Rightarrow> Q (fst out)"
    proof (cases r1)
      case (Inl x)
      have out: "out = (s1, Inl x)" using eq unfolding e u p Inl by simp
      have "E x s1" by (rule task_specD(2) [OF pass P p [unfolded Inl]])
      then show ?thesis unfolding out by simp
    next
      case (Inr n)
      note kept = task_specD(1) [OF pass P p [unfolded Inr]]
      show ?thesis
      proof (cases n)
        case NextCycle
        have "loop env t s1 = Some out" using eq unfolding e u p Inr NextCycle by simp
        then show ?thesis using IH [of env t s1 out] kept NextCycle by simp
      next
        case LeaveLoop
        have out: "out = (s1, Inr ())" using eq unfolding e u p Inr LeaveLoop by simp
        then show ?thesis using kept LeaveLoop by simp
      qed
    qed
  qed
  with pre show ?thesis by (simp split: sum.split_asm)
qed

lemma turn_loop_completes:
  assumes "turn_loop env t s = Some (s', r)" and "loop_ok (fst s)"
  shows "case r of Inl e \<Rightarrow> loop_left (fst s') | Inr _ \<Rightarrow> complete env s' \<and> loop_left (fst s')"
  using turn_loop_rule [OF completes_pass [unfolded completes_def] assms] .

section \<open>A sample Turn\<close>

definition task_value :: "('s \<times> (exn + 'a)) option \<Rightarrow> ('s \<Rightarrow> 'a \<Rightarrow> bool) \<Rightarrow> bool" where
  "task_value out P = (case out of None \<Rightarrow> False
     | Some p \<Rightarrow> (case snd p of Inl e \<Rightarrow> False | Inr a \<Rightarrow> P (fst p) a))"

lemma task_valueD: "task_value out P \<Longrightarrow> \<exists>s a. out = Some (s, Inr a) \<and> P s a"
  by (auto simp: task_value_def split: option.splits sum.splits)

text \<open>A Turn whose Cycle of number \<open>answered\<close> answers; the world logs the Cycles that ran.\<close>

definition answered_completion :: json_object where
  "answered_completion = [(''kind'', JStr ''answer''), (''text'', JStr ''done'')]"

definition sample_loop :: "bool \<Rightarrow> int \<Rightarrow> int \<Rightarrow> (int list, unit) loop_env" where
  "sample_loop with_inbox cycles answered = \<lparr>
     te_registry = empty_registry,
     te_consumer = \<lparr>sc_take = (\<lambda>w. (w, Inr \<lparr>sb_turn_id = ''t'', sb_signals = []\<rparr>)),
       sc_commit = (\<lambda>b w. (w, Inr [])), sc_runner = None\<rparr>,
     te_cycle = (\<lambda>t i scope feedback w. Some (((fst w)\<lparr>tx_rest := tx_rest (fst w) @ [i]\<rparr>, snd w),
       Inr ((mk_cycle_outcome (''cycle_'' @ show_int i))\<lparr>cc_completion := if i = answered then Some answered_completion else None\<rparr>))),
     te_max_cycles = cycles, te_controller = None, te_events = [], te_adapt = (\<lambda>sub e scope. Inr []),
     te_has_inbox = with_inbox, te_now = (\<lambda>w. 0), te_statuses = (\<lambda>w. []), te_fresh = (\<lambda>w. ''b''),
     te_float = (\<lambda>n. JNull), te_suspend = (\<lambda>timeout w. Some (w, Inr ()))\<rparr>"

definition sample_turn_world :: "int list turn_world" where
  "sample_turn_world =
     (\<lparr>tx_inbox = run_inbox id [OpAccept (input_record ''a'' ''x'')] (mk_inbox small_limits),
       tx_active = None, tx_rest = []\<rparr>, [])"

definition sample_locals :: turn_locals where
  "sample_locals = (start_locals sample_scope)\<lparr>tl_cycle_limit := 5\<rparr>"

section \<open>A completion leaves nothing behind\<close>

text \<open>
  C11: A Turn that completes leaves no decisive fact behind. If the decision loop of a Turn with an
  inbox is left with a completion other than a question still open to the user, then the inbox is
  closed and nothing decisive is pending (no input that requires a decision, no reply, no Job
  terminal or Job input), and that stays so whatever operations are attempted on the inbox
  afterwards. A fact accepted while the completing Cycle ran leads to another Cycle instead.
\<close>

theorem turn_completion_leaves_nothing:
  assumes "turn_loop env t s = Some (s', Inr ())"
    and "te_has_inbox env" and "loop_ok (fst s)"
    and "tl_completion (fst s') = Some c" and "\<forall>q. c \<noteq> awaiting_user q"
  shows "ib_closed (run_inbox digest xs (tx_inbox (fst (snd s'))))
    \<and> list_all (\<lambda>(seq, r, n). \<not> ir_requires_decision r)
        (pending_entries (run_inbox digest xs (tx_inbox (fst (snd s')))))"
proof -
  have "complete env s'" using turn_loop_completes [OF assms(1,3)] by simp
  with assms(2,4,5) have "quiet (tx_inbox (fst (snd s')))" by (auto simp: complete_def)
  then show ?thesis by (intro quiet_pending quiet_run)
qed

theorem turn_completion_leaves_nothing_witness:
  "\<exists>s'. turn_loop (sample_loop True 5 2) ''t'' (sample_locals, sample_turn_world) = Some (s', Inr ())
     \<and> tx_rest (fst (snd s')) = [1, 2]
     \<and> ib_closed (run_inbox id [OpAccept (input_record ''b'' ''y'')] (tx_inbox (fst (snd s'))))
     \<and> list_all (\<lambda>(seq, r, n). \<not> ir_requires_decision r)
         (pending_entries (run_inbox id [OpAccept (input_record ''b'' ''y'')] (tx_inbox (fst (snd s')))))"
proof -
  have "task_value (turn_loop (sample_loop True 5 2) ''t'' (sample_locals, sample_turn_world))
      (\<lambda>s u. tl_completion (fst s) = Some answered_completion \<and> tx_rest (fst (snd s)) = [1, 2])"
    by code_simp
  then obtain s' where out: "turn_loop (sample_loop True 5 2) ''t'' (sample_locals, sample_turn_world) = Some (s', Inr ())"
    and c: "tl_completion (fst s') = Some answered_completion" and log: "tx_rest (fst (snd s')) = [1, 2]"
    by (auto dest: task_valueD)
  have "\<forall>q. answered_completion \<noteq> awaiting_user q" by (simp add: answered_completion_def awaiting_user_def)
  moreover have "te_has_inbox (sample_loop True 5 2)" by (simp add: sample_loop_def)
  moreover have "loop_ok (fst (sample_locals, sample_turn_world))"
    by (simp add: sample_locals_def start_locals_def loop_ok_def)
  ultimately show ?thesis using turn_completion_leaves_nothing [OF out _ _ c] out log by blast
qed

section \<open>The budget of Cycles\<close>

text \<open>Two environments whose passes agree on an invariant have the same loop.\<close>

lemma turn_loop_refine:
  assumes agree: "\<And>s. P s \<Longrightarrow> turn_pass e1 t s = turn_pass e2 t s"
    and kept: "\<And>s s'. P s \<Longrightarrow> turn_pass e1 t s = Some (s', Inr NextCycle) \<Longrightarrow> P s'"
    and out: "turn_loop e1 t s = Some out" and pre: "P s"
  shows "turn_loop e2 t s = Some out"
proof -
  let ?R = "\<lambda>e u s out. e = e1 \<and> u = t \<and> P s \<longrightarrow> turn_loop e2 t s = Some out"
  have "?R e1 t s out"
  proof (rule turn_loop.raw_induct [where P = ?R, OF _ out], intro impI)
    fix loop e u s out
    assume IH: "\<And>e u s out. loop e u s = Some out \<Longrightarrow> ?R e u s out"
      and eq: "(case turn_pass e u s of None \<Rightarrow> None
        | Some (s', Inl e) \<Rightarrow> Some (s', Inl e) | Some (s', Inr LeaveLoop) \<Rightarrow> Some (s', Inr ())
        | Some (s', Inr NextCycle) \<Rightarrow> loop e u s') = Some out"
      and args: "e = e1 \<and> u = t \<and> P s"
    have e: "e = e1" and u: "u = t" and P: "P s" using args by simp_all
    obtain s1 r1 where p: "turn_pass e1 t s = Some (s1, r1)"
      using eq unfolding e u by (cases "turn_pass e1 t s") auto
    note p2 = p [unfolded agree [OF P]]
    show "turn_loop e2 t s = Some out"
    proof (cases "r1 = Inr NextCycle")
      case True
      have "loop e1 t s1 = Some out" using eq unfolding e u p True by simp
      moreover have "P s1" by (rule kept [OF P p [unfolded True]])
      ultimately have "turn_loop e2 t s1 = Some out" using IH [of e1 t s1 out] by simp
      then show ?thesis by (subst turn_loop_step) (simp add: p2 True)
    next
      case False
      then show ?thesis using eq unfolding e u p
        by (subst turn_loop_step) (simp add: p2 split: sum.splits loop_next.splits)
    qed
  qed
  with pre show ?thesis by simp
qed

lemma turn_loop_cong:
  assumes agree: "\<And>s. P s \<Longrightarrow> turn_pass e1 t s = turn_pass e2 t s"
    and kept: "\<And>s s'. P s \<Longrightarrow> turn_pass e1 t s = Some (s', Inr NextCycle) \<Longrightarrow> P s'"
    and pre: "P s"
  shows "turn_loop e1 t s = turn_loop e2 t s"
proof -
  have fwd: "turn_loop e2 t s = Some out" if "turn_loop e1 t s = Some out" for out
    by (rule turn_loop_refine [where P = P, OF agree kept that pre])
  have bwd: "turn_loop e1 t s = Some out" if "turn_loop e2 t s = Some out" for out
    by (rule turn_loop_refine [where P = P, OF _ _ that pre]) (simp_all add: agree [symmetric] kept)
  show ?thesis
    using fwd bwd by (cases "turn_loop e1 t s"; cases "turn_loop e2 t s") auto
qed

definition cycle_at :: "int \<Rightarrow> int \<Rightarrow> turn_locals \<Rightarrow> bool" where
  "cycle_at i limit l = (tl_cycle_index l = i \<and> tl_cycle_limit l = limit)"

text \<open>What goes on to the next Cycle has advanced the index by one and left the limit.\<close>

definition advances :: "int \<Rightarrow> int \<Rightarrow> ('w turn_state, loop_next) task \<Rightarrow> bool" where
  "advances i limit m = task_spec (\<lambda>s. cycle_at i limit (fst s)) m
     (\<lambda>n s. n = NextCycle \<longrightarrow> cycle_at (i + 1) limit (fst s)) (\<lambda>_ _. True)"

lemma advances_bind:
  assumes "keeps_locals (cycle_at i limit) m" and "\<And>a. advances i limit (k a)"
  shows "advances i limit (task_bind m k)"
  unfolding advances_def
proof (rule task_spec_bind)
  show "task_spec (\<lambda>s. cycle_at i limit (fst s)) m (\<lambda>_ s. cycle_at i limit (fst s)) (\<lambda>_ _. True)"
    by (rule task_spec_weaken [OF assms(1) [unfolded keeps_locals_def]]) simp_all
qed (rule assms(2) [unfolded advances_def])

lemma advances_basic [simp, intro]:
  "advances i limit (task_return LeaveLoop)" "advances i limit (task_raise e)"
  unfolding advances_def by (auto intro: task_spec_return task_spec_raise)

lemma advances_with_locals: "(\<And>l. advances i limit (k l)) \<Longrightarrow> advances i limit (with_locals k)"
  unfolding advances_def by (rule spec_with_locals) (rule spec_pre)

lemma cycle_at_update [simp]:
  "cycle_at i limit (l\<lparr>tl_feedback := f\<rparr>) = cycle_at i limit l"
  "cycle_at i limit (l\<lparr>tl_wait := c\<rparr>) = cycle_at i limit l"
  "cycle_at i limit (l\<lparr>tl_transfer := t\<rparr>) = cycle_at i limit l"
  "cycle_at i limit (l\<lparr>tl_completion := d\<rparr>) = cycle_at i limit l"
  "cycle_at i limit (l\<lparr>tl_exhausted := b\<rparr>) = cycle_at i limit l"
  "cycle_at i limit (l\<lparr>tl_failure := fl, tl_stopped := b\<rparr>) = cycle_at i limit l"
  by (simp_all add: cycle_at_def)

lemma advances_next [simp, intro]: "advances i limit next_cycle"
  unfolding next_cycle_def advances_def by (rule task_specI) (auto simp: task_simps cycle_at_def)

lemma advances_decide: "advances i limit (turn_decide env t cursor cycle)"
  unfolding turn_decide_def turn_question_def turn_ordinary_wait_def turn_completion_try_def
  by (auto intro!: advances_bind keep_rules advances_with_locals split: option.split)

lemma keeps_cycle_at: "keeps_locals (cycle_at i limit) (turn_cycle env t)"
  unfolding turn_cycle_def by (auto intro!: keep_rules split: option.split)

text \<open>Without an inbox a pass has no wait.\<close>

lemma pass_without_inbox:
  assumes "\<not> te_has_inbox env" and "tl_cycle_index (fst s) \<le> tl_cycle_limit (fst s)"
  shows "turn_pass env t s =
    task_bind (turn_cycle env t) (\<lambda>(cursor, cycle). turn_decide env t cursor cycle) s"
  using assms by (simp add: turn_pass_def turn_budget_def turn_wait_def locals_step task_simps)

lemma pass_over_budget_eq:
  assumes "\<not> te_has_inbox env" and "\<not> tl_cycle_index (fst s) \<le> tl_cycle_limit (fst s)"
  shows "turn_pass env t s =
    (case with_world (emit_and_consume (te_consumer env) [cycle_limit_signal env (tl_scope (fst s))] (tl_scope (fst s)))
        ((fst s)\<lparr>tl_exhausted := True\<rparr>, snd s) of
       None \<Rightarrow> None
     | Some (s', Inl e) \<Rightarrow> Some (s', Inl e)
     | Some (s', Inr _) \<Rightarrow> Some (s', Inr LeaveLoop))"
  using assms
  by (simp add: turn_pass_def turn_budget_def with_locals_def task_bind_def task_then_def task_simps set_locals_def
      split: option.split sum.split prod.split)

lemma pass_over_budget:
  assumes "\<not> te_has_inbox env" and "\<not> tl_cycle_index (fst s) \<le> tl_cycle_limit (fst s)"
    and "turn_pass env t s = Some (s', Inr n)"
  shows "n = LeaveLoop"
  using assms(3) by (simp add: pass_over_budget_eq [OF assms(1,2)] split: option.splits prod.splits sum.splits)

lemma pass_advances:
  assumes "\<not> te_has_inbox env" and "turn_pass env t s = Some (s', Inr NextCycle)"
  shows "cycle_at (tl_cycle_index (fst s) + 1) (tl_cycle_limit (fst s)) (fst s')
    \<and> tl_cycle_index (fst s) \<le> tl_cycle_limit (fst s)"
proof -
  let ?i = "tl_cycle_index (fst s)" and ?m = "tl_cycle_limit (fst s)"
  have below: "?i \<le> ?m" using pass_over_budget [OF assms(1) _ assms(2)] by blast
  have "advances ?i ?m (task_bind (turn_cycle env t) (\<lambda>(cursor, cycle). turn_decide env t cursor cycle))"
    by (auto intro!: advances_bind keeps_cycle_at advances_decide)
  from task_specD(1) [OF this [unfolded advances_def], of s s' NextCycle] assms below
  show ?thesis by (simp add: pass_without_inbox cycle_at_def)
qed

type_synonym 'w cycle_runner = "string \<Rightarrow> int \<Rightarrow> run_scope \<Rightarrow> string list \<Rightarrow> ('w turn_world, cycle_outcome) task"

text \<open>A runner of Cycles that acts as \<open>run\<close> within the budget and as \<open>other\<close> outside it.\<close>

definition run_within :: "int \<Rightarrow> 'w cycle_runner \<Rightarrow> 'w cycle_runner \<Rightarrow> 'w cycle_runner" where
  "run_within n run other t i scope feedback =
     (if 1 \<le> i \<and> i \<le> n then run t i scope feedback else other t i scope feedback)"

lemma te_cycle_frame:
  "turn_budget (env\<lparr>te_cycle := run\<rparr>) = turn_budget env"
  "sync_activity (env\<lparr>te_cycle := run\<rparr>) = sync_activity env"
  "acknowledged (env\<lparr>te_cycle := run\<rparr>) = acknowledged env"
  "cycle_limit_signal (env\<lparr>te_cycle := run\<rparr>) = cycle_limit_signal env"
proof -
  show limit: "cycle_limit_signal (env\<lparr>te_cycle := run\<rparr>) = cycle_limit_signal env"
    by (rule ext) (simp add: cycle_limit_signal_def)
  have suspend: "suspend_for_budget (env\<lparr>te_cycle := run\<rparr>) = suspend_for_budget env"
    by (intro ext) (simp add: suspend_for_budget_def cong: if_cong)
  show "turn_budget (env\<lparr>te_cycle := run\<rparr>) = turn_budget env"
    by (simp add: turn_budget_def limit suspend cong: if_cong)
qed (intro ext; simp add: sync_activity_def acknowledged_def)+

lemma consume_without_inbox: "\<not> te_has_inbox env \<Longrightarrow> consume_inbox env scope d = task_return False"
  by (simp add: consume_inbox_def)

lemma decide_frame:
  "\<not> te_has_inbox env \<Longrightarrow> turn_decide (env\<lparr>te_cycle := run\<rparr>) t cursor cycle = turn_decide env t cursor cycle"
  by (simp add: turn_decide_def turn_question_def turn_ordinary_wait_def turn_completion_try_def
      consume_without_inbox cong: if_cong option.case_cong)

lemma cycle_frame:
  assumes "\<not> te_has_inbox env" and "\<And>scope feedback. run t (tl_cycle_index (fst s)) scope feedback
     = te_cycle env t (tl_cycle_index (fst s)) scope feedback"
  shows "turn_cycle (env\<lparr>te_cycle := run\<rparr>) t s = turn_cycle env t s"
  using assms by (simp add: turn_cycle_def consume_without_inbox te_cycle_frame with_locals_def)

lemma pass_frame:
  assumes "\<not> te_has_inbox env" and "1 \<le> tl_cycle_index (fst s)" and "tl_cycle_limit (fst s) = n"
  shows "turn_pass (env\<lparr>te_cycle := run_within n (te_cycle env) other\<rparr>) t s = turn_pass env t s"
proof (cases "tl_cycle_index (fst s) \<le> tl_cycle_limit (fst s)")
  case True
  have "turn_cycle (env\<lparr>te_cycle := run_within n (te_cycle env) other\<rparr>) t s = turn_cycle env t s"
    by (rule cycle_frame) (use assms True in \<open>simp_all add: run_within_def\<close>)
  with True assms show ?thesis
    by (simp add: pass_without_inbox decide_frame task_bind_def task_then_def)
next
  case False
  with assms show ?thesis by (simp add: pass_over_budget_eq te_cycle_frame)
qed

lemma turn_loop_within:
  assumes "\<not> te_has_inbox env" and "1 \<le> tl_cycle_index l" and "tl_cycle_limit l = te_max_cycles env"
  shows "turn_loop (env\<lparr>te_cycle := run_within (te_max_cycles env) (te_cycle env) other\<rparr>) t (l, w)
    = turn_loop env t (l, w)"
proof (rule turn_loop_cong [symmetric, where P = "\<lambda>s. 1 \<le> tl_cycle_index (fst s) \<and> tl_cycle_limit (fst s) = te_max_cycles env"])
  fix s s' :: "'a turn_state"
  assume s: "1 \<le> tl_cycle_index (fst s) \<and> tl_cycle_limit (fst s) = te_max_cycles env"
  then show "turn_pass env t s = turn_pass (env\<lparr>te_cycle := run_within (te_max_cycles env) (te_cycle env) other\<rparr>) t s"
    using pass_frame [of env s "te_max_cycles env" other t] assms(1) by simp
  assume "turn_pass env t s = Some (s', Inr NextCycle)"
  from pass_advances [OF assms(1) this] s
  show "1 \<le> tl_cycle_index (fst s') \<and> tl_cycle_limit (fst s') = te_max_cycles env"
    by (simp add: cycle_at_def)
qed (use assms in simp)

text \<open>
  C17: The Cycles of a Turn stay within its budget. Without an inbox, a Turn whose limit is the
  configured number of Cycles and whose first Cycle has number one behaves the same whatever the
  runner of Cycles does outside the numbers 1 to that limit: it is never asked for another Cycle.
\<close>

theorem turn_cycles_in_budget:
  assumes "\<not> te_has_inbox env" and "1 \<le> tl_cycle_index l" and "tl_cycle_limit l = te_max_cycles env"
  shows "turn_loop (env\<lparr>te_cycle := run_within (te_max_cycles env) (te_cycle env) other\<rparr>) t (l, w)
    = turn_loop env t (l, w)"
  by (rule turn_loop_within [OF assms])

theorem turn_cycles_in_budget_witness:
  "turn_loop ((sample_loop False 2 9)\<lparr>te_cycle := run_within 2 (te_cycle (sample_loop False 2 9)) (\<lambda>t i scope feedback w. None)\<rparr>)
      ''t'' (sample_locals\<lparr>tl_cycle_limit := 2\<rparr>, sample_turn_world)
     = turn_loop (sample_loop False 2 9) ''t'' (sample_locals\<lparr>tl_cycle_limit := 2\<rparr>, sample_turn_world)
   \<and> task_value (turn_loop (sample_loop False 2 9) ''t'' (sample_locals\<lparr>tl_cycle_limit := 2\<rparr>, sample_turn_world))
       (\<lambda>s u. tl_exhausted (fst s) \<and> tx_rest (fst (snd s)) = [1, 2])"
proof
  show "task_value (turn_loop (sample_loop False 2 9) ''t'' (sample_locals\<lparr>tl_cycle_limit := 2\<rparr>, sample_turn_world))
       (\<lambda>s u. tl_exhausted (fst s) \<and> tx_rest (fst (snd s)) = [1, 2])"
    by code_simp
  have "te_max_cycles (sample_loop False 2 9) = 2" "\<not> te_has_inbox (sample_loop False 2 9)"
    by (simp_all add: sample_loop_def)
  then show "turn_loop ((sample_loop False 2 9)\<lparr>te_cycle := run_within 2 (te_cycle (sample_loop False 2 9))
        (\<lambda>t i scope feedback w. None)\<rparr>) ''t'' (sample_locals\<lparr>tl_cycle_limit := 2\<rparr>, sample_turn_world)
     = turn_loop (sample_loop False 2 9) ''t'' (sample_locals\<lparr>tl_cycle_limit := 2\<rparr>, sample_turn_world)"
    using turn_cycles_in_budget [of "sample_loop False 2 9" "sample_locals\<lparr>tl_cycle_limit := 2\<rparr>"]
    by (simp add: sample_locals_def start_locals_def)
qed

section \<open>The loop ends\<close>

definition ends :: "('s, 'a) task \<Rightarrow> bool" where
  "ends m = (\<forall>s. m s \<noteq> None)"

lemma ends_at: "ends m \<Longrightarrow> m s \<noteq> None"
  by (simp add: ends_def)

lemma ends_then: "ends m \<Longrightarrow> (\<And>r. ends (k r)) \<Longrightarrow> ends (task_then m k)"
  unfolding ends_def task_then_def by (metis bind.bind_lunit case_prod_conv option.exhaust surj_pair)

lemma ends_bind: "ends m \<Longrightarrow> (\<And>a. ends (k a)) \<Longrightarrow> ends (task_bind m k)"
  unfolding task_bind_def by (rule ends_then) (auto simp: ends_def task_simps split: sum.split)

lemma ends_basic:
  "ends (task_return a)" "ends (task_raise e)" "ends (task_sum r)" "ends (task_call f)" "ends (task_update g)"
  "ends (set_locals h)"
  by (simp_all add: ends_def task_simps locals_step)

lemma ends_with: "ends m \<Longrightarrow> ends (with_world m)" "(\<And>l. ends (k l)) \<Longrightarrow> ends (with_locals k)"
  by (auto simp: ends_def with_world_def locals_step split: option.split)

lemma ends_return_world: "ends (\<lambda>w. Some (f w))"
  by (simp add: ends_def)

lemmas ends_rules = ends_bind ends_then ends_basic ends_with ends_return_world

lemma ends_consume: "sc_runner sc = None \<Longrightarrow> ends (emit_and_consume sc signals scope)"
  unfolding emit_and_consume_def consume_def consume_batch_def by (auto intro!: ends_rules)

lemma ends_decide: "\<not> te_has_inbox env \<Longrightarrow> ends (turn_decide env t cursor cycle)"
  unfolding turn_decide_def turn_question_def turn_ordinary_wait_def turn_completion_try_def next_cycle_def
  by (auto intro!: ends_rules simp: consume_without_inbox split: option.split)

lemma ends_sync: "ends (sync_activity env t scope)"
  unfolding sync_activity_def by (auto intro!: ends_rules split: option.split)

lemma ends_cycle:
  assumes "\<not> te_has_inbox env" and "\<And>i scope feedback. ends (te_cycle env t i scope feedback)"
  shows "ends (turn_cycle env t)"
  unfolding turn_cycle_def consume_without_inbox [OF assms(1)]
  by (intro ends_rules ends_sync assms(2))

lemma ends_pass:
  assumes "\<not> te_has_inbox env" and "sc_runner (te_consumer env) = None"
    and "\<And>i scope feedback. ends (te_cycle env t i scope feedback)"
  shows "turn_pass env t s \<noteq> None"
proof (cases "tl_cycle_index (fst s) \<le> tl_cycle_limit (fst s)")
  case True
  have "ends (task_bind (turn_cycle env t) (\<lambda>(cursor, cycle). turn_decide env t cursor cycle))"
    by (rule ends_bind) (auto simp: assms ends_cycle ends_decide)
  with True assms(1) show ?thesis by (simp only: pass_without_inbox ends_at not_False_eq_True)
next
  case False
  have "with_world (emit_and_consume (te_consumer env) [cycle_limit_signal env (tl_scope (fst s))] (tl_scope (fst s))) u
      \<noteq> None" for u
    by (rule ends_at) (intro ends_with ends_consume assms)
  with False assms(1) show ?thesis
    by (auto simp: pass_over_budget_eq split: option.split sum.split)
qed

lemma turn_loop_returns:
  assumes env: "\<not> te_has_inbox env" "sc_runner (te_consumer env) = None"
    "\<And>i scope feedback. ends (te_cycle env t i scope feedback)"
  shows "turn_loop env t s \<noteq> None"
proof (induction "nat (tl_cycle_limit (fst s) + 1 - tl_cycle_index (fst s))" arbitrary: s rule: less_induct)
  case less
  obtain s1 r where p: "turn_pass env t s = Some (s1, r)" using ends_pass [OF env, of s] by fastforce
  show ?case
  proof (cases "r = Inr NextCycle")
    case True
    from pass_advances [OF env(1) p [unfolded True]]
    have "nat (tl_cycle_limit (fst s1) + 1 - tl_cycle_index (fst s1)) < nat (tl_cycle_limit (fst s) + 1 - tl_cycle_index (fst s))"
      by (simp add: cycle_at_def)
    from less [OF this] show ?thesis by (subst turn_loop_step) (simp add: p True)
  next
    case False
    then show ?thesis by (subst turn_loop_step) (simp add: p del: not_None_eq split: sum.split loop_next.split)
  qed
qed



section \<open>Consuming the inbox\<close>

text \<open>A consumer whose commit leaves the inbox to the Turn.\<close>

definition keeps_inbox :: "('w turn_ctx, 'r) signal_consumer \<Rightarrow> bool" where
  "keeps_inbox sc = (\<forall>b scope w w' r. consume_batch sc b scope w = Some (w', r)
     \<longrightarrow> tx_inbox (fst w') = tx_inbox (fst w))"

definition batch_committed :: "('w, 'r) loop_env \<Rightarrow> run_scope \<Rightarrow> inbox_batch \<Rightarrow> bool" where
  "batch_committed env scope b = (\<exists>sss. traverse (record_signals env scope) (bt_records b) = Inr sss
     \<and> (concat sss = [] \<or> (\<exists>frame w w'. scope_nearest scope RL_TURN = Some frame
        \<and> consume_batch (te_consumer env) \<lparr>sb_turn_id = rf_name frame, sb_signals = concat sss\<rparr> scope w
           = Some (w', Inr []))))"

lemma on_inbox_Some:
  "on_inbox f w = Some (w', r) \<longleftrightarrow> w' = set_inbox (fst (f (tx_inbox (fst w)))) w
     \<and> r = (case snd (f (tx_inbox (fst w))) of Inl e \<Rightarrow> Inl (inbox_exn e) | Inr a \<Rightarrow> Inr a)"
  by (cases "f (tx_inbox (fst w))") (auto simp: on_inbox_def split: sum.split)

lemma tx_inbox_set [simp]: "tx_inbox (fst (set_inbox ib w)) = ib"
  by (simp add: set_inbox_def)

lemma consume_inbox_cases:
  assumes "te_has_inbox env" and keeps: "keeps_inbox (te_consumer env)"
    and out: "consume_inbox env scope d w = Some (w', r)"
    and cap: "capture (tx_inbox (fst w)) = (ib, b)"
  obtains (failed) e where "r = Inl e" "tx_inbox (fst w') = ib"
  | (acknowledged) u where "r = Inr u" "tx_inbox (fst w') = fst (ack b ib)" "batch_committed env scope b"
proof -
  let ?w1 = "set_inbox ib w"
  let ?signals = "traverse (record_signals env scope) (bt_records b)"
  have caught: "snd (ack b ib) = Inr ()"
    using cap by (cases "tx_inbox (fst w)" rule: capture_cases; simp add: ack_def Let_def)
  have cap': "on_inbox (\<lambda>ib. case capture ib of (ib', b) \<Rightarrow> (ib', Inr b)) w = Some (?w1, Inr b)"
    by (simp add: on_inbox_Some cap)
  note start = out [unfolded consume_inbox_def, simplified assms(1) not_True_eq_False if_False]
  show thesis
  proof (cases ?signals)
    case (Inl e)
    then show thesis using start failed [of e] by (auto simp: cap' task_simps)
  next
    case (Inr sss)
    let ?commit = "if concat sss = [] then task_return ()
        else case scope_nearest scope RL_TURN of
           None \<Rightarrow> task_raise (LoopInvariantError ''Inbox consumption requires a Turn frame'')
         | Some frame \<Rightarrow>
             task_bind (consume_batch (te_consumer env)
                 \<lparr>sb_turn_id = rf_name frame, sb_signals = concat sss\<rparr> scope) (\<lambda>results.
             if results \<noteq> [] then task_raise (LoopInvariantError ''Context rejected an accepted Inbox batch'')
             else task_return ())"
    have commit: "tx_inbox (fst w2) = ib \<and> (\<forall>u. r2 = Inr u \<longrightarrow> batch_committed env scope b)"
      if "?commit ?w1 = Some (w2, r2)" for w2 r2
    proof (cases "concat sss = [] \<or> scope_nearest scope RL_TURN = None")
      case True
      then show ?thesis using that by (auto simp: task_simps batch_committed_def Inr split: if_splits)
    next
      case False
      then obtain frame where f: "scope_nearest scope RL_TURN = Some frame" "concat sss \<noteq> []" by auto
      from that have "task_bind (consume_batch (te_consumer env) \<lparr>sb_turn_id = rf_name frame, sb_signals = concat sss\<rparr> scope)
          (\<lambda>results. if results \<noteq> [] then task_raise (LoopInvariantError ''Context rejected an accepted Inbox batch'')
            else task_return ()) ?w1 = Some (w2, r2)"
        by (simp only: f if_False option.case)
      then obtain w3 r3 where 1: "consume_batch (te_consumer env)
            \<lparr>sb_turn_id = rf_name frame, sb_signals = concat sss\<rparr> scope ?w1 = Some (w3, r3)"
        and 2: "w3 = w2" "\<forall>u. r2 = Inr u \<longrightarrow> r3 = Inr []"
        by (auto simp: task_bind_Some task_simps split: if_splits)
      have "tx_inbox (fst w2) = ib" using keeps [unfolded keeps_inbox_def] 1 2(1) by fastforce
      moreover have "r2 = Inr u \<longrightarrow> batch_committed env scope b" for u
        using 1 2 f unfolding batch_committed_def Inr by blast
      ultimately show ?thesis by blast
    qed
    obtain w2 r2 where c: "?commit ?w1 = Some (w2, r2)" 
      using start by (cases "?commit ?w1") (auto simp: cap' task_simps Inr)
    show thesis
    proof (cases r2)
      case (Inl e)
      with start c commit [OF c] show thesis by (intro failed [of e]) (auto simp: cap' task_simps Inr)
    next
      case r2: (Inr u)
      have a: "on_inbox (ack b) w2 = Some (set_inbox (fst (ack b ib)) w2, Inr ())"
        using commit [OF c] caught by (simp add: on_inbox_Some)
      obtain v where "r = Inr v" and "w' = set_inbox (fst (ack b ib)) w2"
        using start c r2 by (auto simp: cap' task_simps Inr a)
      then show thesis using acknowledged [of v] commit [OF c] r2 by simp
    qed
  qed
qed

text \<open>
  C12: Consuming the inbox is atomic. If it raises, whether a record has no signals, the Context
  rejects the batch or its commit fails, then nothing accepted is lost: every entry is still pending
  and the next consumption captures the very same batch. If it returns, the Context has committed
  the signals of the whole batch, and exactly the entries up to its last number have been removed.
\<close>

theorem consume_inbox_atomic:
  assumes "te_has_inbox env" and "keeps_inbox (te_consumer env)"
    and "consume_inbox env scope d w = Some (w', r)"
  shows "case r of
      Inl e \<Rightarrow> pending_entries (tx_inbox (fst w')) = pending_entries (tx_inbox (fst w))
        \<and> snd (capture (tx_inbox (fst w'))) = snd (capture (tx_inbox (fst w)))
    | Inr u \<Rightarrow> batch_committed env scope (snd (capture (tx_inbox (fst w))))
        \<and> pending_entries (tx_inbox (fst w')) =
            filter (\<lambda>e. fst e > next_sequence (snd (capture (tx_inbox (fst w))))) (pending_entries (tx_inbox (fst w)))"
proof -
  obtain ib b where cap: "capture (tx_inbox (fst w)) = (ib, b)" by fastforce
  have same: "pending_entries ib = pending_entries (tx_inbox (fst w))" and again: "capture ib = (ib, b)"
    using cap by (cases "tx_inbox (fst w)" rule: capture_cases; auto simp: pending_entries_def capture_def)+
  show ?thesis
    using assms cap
  proof (cases rule: consume_inbox_cases)
    case (failed e)
    then show ?thesis by (simp add: cap again same)
  next
    case (acknowledged u)
    moreover have "ib_captured ib = Some b" by (rule capture_batch [OF cap])
    ultimately show ?thesis
      by (cases b ib rule: ack_cases) (simp_all add: cap same)
  qed
qed

text \<open>The sample Turn with a Context that refuses what it is given.\<close>

definition refusing_loop :: "(int list, unit) loop_env" where
  "refusing_loop = (sample_loop True 5 2)\<lparr>te_consumer := \<lparr>sc_take = (\<lambda>w. (w, Inr \<lparr>sb_turn_id = ''t'', sb_signals = []\<rparr>)),
     sc_commit = (\<lambda>b w. (w, Inl (ContextException ContextInvariantFault))), sc_runner = None\<rparr>\<rparr>"

theorem consume_inbox_atomic_witness:
  "(\<exists>w' e. consume_inbox refusing_loop sample_scope False sample_turn_world = Some (w', Inl e)
     \<and> map fst (pending_entries (tx_inbox (fst w'))) = [1])
   \<and> task_value (consume_inbox (sample_loop True 5 2) sample_scope False sample_turn_world)
       (\<lambda>w' u. u \<and> pending_entries (tx_inbox (fst w')) = [])"
proof
  show "task_value (consume_inbox (sample_loop True 5 2) sample_scope False sample_turn_world)
       (\<lambda>w' u. u \<and> pending_entries (tx_inbox (fst w')) = [])"
    by code_simp
  have "(case consume_inbox refusing_loop sample_scope False sample_turn_world of
      None \<Rightarrow> False | Some p \<Rightarrow> (case snd p of Inl e \<Rightarrow> True | Inr u \<Rightarrow> False))"
    by code_simp
  then obtain w' e where out: "consume_inbox refusing_loop sample_scope False sample_turn_world = Some (w', Inl e)"
    by (auto split: option.splits sum.splits)
  have "te_has_inbox refusing_loop" and "keeps_inbox (te_consumer refusing_loop)"
    by (auto simp: refusing_loop_def sample_loop_def keeps_inbox_def consume_batch_def task_simps context_bridged_def)
  from consume_inbox_atomic [OF this out]
  have "pending_entries (tx_inbox (fst w')) = pending_entries (tx_inbox (fst sample_turn_world))" by simp
  moreover have "map fst (pending_entries (tx_inbox (fst sample_turn_world))) = [1]" by code_simp
  ultimately show "\<exists>w' e. consume_inbox refusing_loop sample_scope False sample_turn_world = Some (w', Inl e)
     \<and> map fst (pending_entries (tx_inbox (fst w'))) = [1]"
    using out by auto
qed

end
