(* ===== verification/Turn_Report.thy ===== *)
theory Turn_Report
  imports Turn_Properties
begin

text \<open>
  The report of a Turn: what is known of its locals at each stage of its life, and that the outcome
  built from them is one the constructor of \<open>TurnOutcome\<close> accepts.
\<close>

section \<open>Locals along the life of a Turn\<close>

lemma keeps_note: "(\<And>l. p l \<Longrightarrow> p (l\<lparr>tl_cancelled := True\<rparr>)) \<Longrightarrow> keeps_locals p (note_interruption env stage)"
  unfolding keeps_locals_def note_interruption_def
  by (rule task_specI) (auto simp: task_simps)

lemma keeps_when: "keeps_locals p m \<Longrightarrow> keeps_locals p (task_when b m)"
  by (simp add: task_when_def keep_rules)

lemma keeps_choice:
  "keeps_locals p m \<Longrightarrow> keeps_locals p n \<Longrightarrow> keeps_locals p (\<lambda>s. if b s then m s else n s)"
  unfolding keeps_locals_def task_spec_def by metis

lemma loop_left_update [simp]:
  "loop_left (l\<lparr>tl_cancelled := b\<rparr>) = loop_left l"
  "loop_left (l\<lparr>tl_diagnostics := ds\<rparr>) = loop_left l"
  "loop_left (l\<lparr>tl_transfer := t, tl_failure := f\<rparr>) = loop_left l"
  "loop_left (l\<lparr>tl_transfer := t, tl_finish_failures := fs\<rparr>) = loop_left l"
  "loop_left (l\<lparr>tl_transfer := t, tl_failure := f, tl_stopped := b\<rparr>) = loop_left l"
  "loop_left (l\<lparr>tl_transfer := t\<rparr>) = loop_left l"
  by (simp_all add: loop_left_def)

lemma loop_left_cancelled:
  "loop_left l \<Longrightarrow> loop_left (l\<lparr>tl_cancelled := True, tl_stopped := True, tl_completion := None\<rparr>)"
  by (simp add: loop_left_def)

abbreviation ends_left :: "('w turn_state \<Rightarrow> bool) \<Rightarrow> ('w turn_state, 'a) task \<Rightarrow> bool" where
  "ends_left P m \<equiv> task_spec P m (\<lambda>_ s. loop_left (fst s)) (\<lambda>_ s. loop_left (fst s))"

lemma ends_left_bind:
  assumes "keeps_locals loop_ok m" and "\<And>a. ends_left (\<lambda>s. loop_ok (fst s)) (k a)"
  shows "ends_left (\<lambda>s. loop_ok (fst s)) (task_bind m k)"
proof (rule task_spec_bind)
  show "task_spec (\<lambda>s. loop_ok (fst s)) m (\<lambda>_ s. loop_ok (fst s)) (\<lambda>_ s. loop_left (fst s))"
    by (rule task_spec_weaken [OF assms(1) [unfolded keeps_locals_def]]) (simp_all add: loop_ok_left)
qed (rule assms(2))

lemma loop_ends_left: "ends_left (\<lambda>s. loop_ok (fst s)) (turn_loop env t)"
  unfolding task_spec_def
proof (intro allI impI)
  fix s s' :: "'a turn_state" and r
  assume "loop_ok (fst s)" "turn_loop env t s = Some (s', r)"
  from turn_loop_completes [OF this(2,1)]
  show "case r of Inl e \<Rightarrow> loop_left (fst s') | Inr a \<Rightarrow> loop_left (fst s')" by (simp split: sum.splits)
qed

lemma loop_ok_start_pass [simp]:
  "loop_ok (l\<lparr>tl_cycle_index := i, tl_cycle_limit := n, tl_feedback := f, tl_wait := c\<rparr>) = loop_ok l"
  by (simp add: loop_ok_def)

lemma body_ends_left: "ends_left (\<lambda>s. loop_ok (fst s)) (turn_body env q)"
proof -
  have prepared: "ends_left (\<lambda>s. loop_ok (fst s)) (set_locals (\<lambda>l. l\<lparr>tl_transfer := t, tl_failure := f, tl_stopped := b\<rparr>))"
    for t f b
    by (rule spec_set_locals) (simp add: loop_ok_left)
  show ?thesis
    unfolding turn_body_def
    by (auto intro!: ends_left_bind keep_rules prepared loop_ends_left split: option.split)
qed

lemma raised_keeps: "keeps_locals loop_left (turn_raised env e)"
  unfolding turn_raised_def by (auto intro!: keep_rules loop_left_cancelled)

lemma settle_keeps: "keeps_locals loop_left (turn_settle env t)"
proof -
  have "keeps_locals loop_left (close_ingress env)"
    unfolding close_ingress_def by (auto intro!: keeps_when keep_rules keeps_note)
  moreover have "keeps_locals loop_left (clean_activity env t)"
    unfolding clean_activity_def cleanup_failed_def
    by (auto intro!: keeps_when keep_rules keeps_note simp: Let_def split: option.split sum.split)
  moreover have "keeps_locals loop_left (keep_captured env e)" for e
    unfolding keep_captured_def by (auto intro!: keep_rules)
  then have "keeps_locals loop_left (drain_final_records env t)"
    unfolding drain_final_records_def by (auto intro!: keeps_choice keep_rules keeps_note split: sum.split)
  ultimately show ?thesis unfolding turn_settle_def by (auto intro!: keep_rules)
qed

text \<open>After the mapping: an output has a completion, and an exhausted Turn has none.\<close>

definition mapped :: "turn_locals \<Rightarrow> bool" where
  "mapped l = ((tl_output l \<noteq> None \<longrightarrow> tl_completion l \<noteq> None) \<and> (tl_exhausted l \<longrightarrow> tl_completion l = None))"

lemma mapped_update [simp]:
  "mapped (l\<lparr>tl_cancelled := b\<rparr>) = mapped l"
  "mapped (l\<lparr>tl_diagnostics := ds\<rparr>) = mapped l"
  "mapped (l\<lparr>tl_transfer := t\<rparr>) = mapped l"
  "mapped (l\<lparr>tl_failure := f\<rparr>) = mapped l"
  "mapped (l\<lparr>tl_transfer := t, tl_failure := f\<rparr>) = mapped l"
  by (simp_all add: mapped_def)

lemma left_mapped: "loop_left l \<Longrightarrow> mapped l"
  by (simp add: loop_left_def mapped_def)

lemma captured_keeps: "keeps_locals mapped (keep_captured env e)"
  unfolding keep_captured_def by (auto intro!: keep_rules)

lemma output_spec:
  assumes "tn_to_output env None = Inr None"
  shows "task_spec (\<lambda>s. loop_left (fst s)) (map_output env) (\<lambda>_ s. mapped (fst s)) (\<lambda>_ _. True)"
  unfolding map_output_def
proof (rule task_spec_bind [where Q = "\<lambda>_ s. mapped (fst s)"])
  show "task_spec (\<lambda>s. loop_left (fst s)) (with_locals (\<lambda>l. case tn_to_output env (tl_completion l) of
       Inr out \<Rightarrow> set_locals (\<lambda>l. l\<lparr>tl_output := out\<rparr>) | Inl e \<Rightarrow> keep_captured env e))
     (\<lambda>_ s. mapped (fst s)) (\<lambda>_ _. True)"
  proof (rule spec_with_locals)
    fix l
    show "task_spec (\<lambda>s. loop_left (fst s) \<and> fst s = l) (case tn_to_output env (tl_completion l) of
         Inr out \<Rightarrow> set_locals (\<lambda>l. l\<lparr>tl_output := out\<rparr>) | Inl e \<Rightarrow> keep_captured env e)
       (\<lambda>_ s. mapped (fst s)) (\<lambda>_ _. True)"
    proof (cases "tn_to_output env (tl_completion l)")
      case (Inl e)
      have "task_spec (\<lambda>s. loop_left (fst s) \<and> fst s = l) (keep_captured env e) (\<lambda>_ s. mapped (fst s)) (\<lambda>_ _. True)"
        by (rule task_spec_weaken [OF captured_keeps [unfolded keeps_locals_def]]) (auto simp: left_mapped)
      then show ?thesis by (simp add: Inl)
    next
      case (Inr out)
      then have "tl_completion l = None \<Longrightarrow> out = None" using assms by simp
      then show ?thesis
        by (simp add: Inr) (rule spec_set_locals, auto simp: loop_left_def mapped_def)
    qed
  qed
  show "task_spec (\<lambda>s. mapped (fst s)) (set_locals (\<lambda>l. if tl_output l \<noteq> None \<and> is_turn_end (tl_transfer l) (tl_scope l)
       then l\<lparr>tl_transfer := None\<rparr> else l)) (\<lambda>_ s. mapped (fst s)) (\<lambda>_ _. True)" for u
    by (rule spec_set_locals) simp
qed

section \<open>The completion pipeline\<close>

lemma capture_keeps: "keeps_locals mapped (capture_finish_failure env e)"
  unfolding capture_finish_failure_def by (auto intro!: keep_rules)

lemma handler_keeps: "keeps_locals mapped (run_handler (capture_finish_failure env) (lifted_handler h) c)"
  unfolding run_handler_def lifted_handler_def
  by (auto intro!: keep_rules capture_keeps split: sum.split exn.split)

lemma handlers_keep: "keeps_locals mapped (run_handlers (capture_finish_failure env) (map lifted_handler hs) c)"
  by (induction hs arbitrary: c) (auto intro!: keep_rules handler_keeps split: option.split)

lemma pipeline_keeps:
  "keeps_locals mapped (completion_run \<lparr>cp_handlers = map lifted_handler hs, cp_recorder = map_option lifted_handler rec\<rparr>
     (capture_finish_failure env) c)"
  unfolding completion_run_def
  by (cases rec) (auto intro!: keep_rules handlers_keep handler_keeps split: option.split)

text \<open>A report over a Context completion: a finish failure is a failure, and uncommits the Turn.\<close>

definition reportable :: "bool \<Rightarrow> turn_locals \<Rightarrow> bool" where
  "reportable committed l = (mapped l \<and> (committed \<longleftrightarrow> tl_finish_failures l = [])
     \<and> (tl_finish_failures l \<noteq> [] \<longrightarrow> tl_failure l \<noteq> None))"

lemma finalize_spec:
  "task_spec (\<lambda>s. mapped (fst s)) (finalize env day c) (\<lambda>committed s. reportable committed (fst s)) (\<lambda>_ _. True)"
proof -
  have keep: "task_spec (\<lambda>s. mapped (fst s)) m (\<lambda>_ s. mapped (fst s)) (\<lambda>_ _. True)" if "keeps_locals mapped m"
    for m :: "('a turn_state, 'x) task"
    by (rule task_spec_weaken [OF that [unfolded keeps_locals_def]]) simp_all
  have last: "task_spec (\<lambda>s. mapped (fst s)) (task_bind (set_locals (\<lambda>l. l\<lparr>tl_finish_failures := fs,
        tl_failure := or_else (tl_failure l) (case fs of [] \<Rightarrow> None | f # fs \<Rightarrow> Some f)\<rparr>)) (\<lambda>_. task_return (fs = [])))
      (\<lambda>committed s. reportable committed (fst s)) (\<lambda>_ _. True)" for fs
    by (rule task_specI)
      (auto simp: task_simps locals_step reportable_def mapped_def or_else_def split: list.split option.split)
  show ?thesis
    unfolding finalize_def
    by (intro task_spec_bind [OF keep] spec_with_locals spec_pre keep_rules pipeline_keeps keeps_note last) simp_all
qed

section \<open>The whole life\<close>

lemma reportable_update [simp]:
  "reportable committed (l\<lparr>tl_cancelled := b\<rparr>) = reportable committed l"
  "reportable committed (l\<lparr>tl_diagnostics := ds\<rparr>) = reportable committed l"
  by (simp_all add: reportable_def)

lemma finish_spec:
  fixes env :: "('w, 'r, 'c) turn_env"
  shows "task_spec (\<lambda>s. mapped (fst s)) (turn_finish env day)
     (\<lambda>(c, committed) s. c \<noteq> None \<longrightarrow> reportable committed (fst s)) (\<lambda>_ _. True)"
proof -
  have keep: "task_spec (\<lambda>s. mapped (fst s)) m (\<lambda>_ s. mapped (fst s)) (\<lambda>_ _. True)" if "keeps_locals mapped m"
    for m :: "('w turn_state, 'x) task"
    by (rule task_spec_weaken [OF that [unfolded keeps_locals_def]]) simp_all
  have ended: "keeps_locals mapped (task_then (with_locals (\<lambda>l. with_world (finish_turn env (tl_scope l)))) (\<lambda>r.
     task_bind (with_world (set_active_scope None)) (\<lambda>_. task_sum r)))"
    by (intro keep_rules)
  have boundary: "keeps_locals mapped (case b of None \<Rightarrow> task_return ()
      | Some b \<Rightarrow> set_locals (\<lambda>l. l\<lparr>tl_transfer := or_else (tl_transfer l) (Some (bd_transfer b)),
          tl_failure := or_else (tl_failure l) (bd_failure b)\<rparr>))" for b
    by (auto intro!: keep_rules split: option.split)
  have last: "task_spec (\<lambda>s. mapped (fst s)) (case c of None \<Rightarrow> task_return (None, False)
         | Some c' \<Rightarrow> task_bind (finalize env day c') (\<lambda>committed. task_return (Some c', committed)))
      (\<lambda>(c, committed) s. c \<noteq> None \<longrightarrow> reportable committed (fst s)) (\<lambda>_ _. True)" for c
  proof (cases c)
    case None
    then show ?thesis by (simp add: task_spec_return)
  next
    case (Some c')
    show ?thesis
      by (simp add: Some) (rule task_spec_bind [OF finalize_spec], rule task_spec_return, simp)
  qed
  show ?thesis
    unfolding turn_finish_def
  proof (rule task_spec_bind [OF keep [OF ended]])
    fix p :: "'c option \<times> boundary option"
    show "task_spec (\<lambda>s. mapped (fst s)) (case p of (c, b) \<Rightarrow> task_bind (case b of None \<Rightarrow> task_return ()
      | Some b \<Rightarrow> set_locals (\<lambda>l. l\<lparr>tl_transfer := or_else (tl_transfer l) (Some (bd_transfer b)),
          tl_failure := or_else (tl_failure l) (bd_failure b)\<rparr>)) (\<lambda>_. case c of None \<Rightarrow> task_return (None, False)
         | Some c' \<Rightarrow> task_bind (finalize env day c') (\<lambda>committed. task_return (Some c', committed))))
      (\<lambda>(c, committed) s. c \<noteq> None \<longrightarrow> reportable committed (fst s)) (\<lambda>_ _. True)"
      by (cases p) (simp only: prod.case task_spec_bind [OF keep [OF boundary] last])
  qed
qed

lemma segments_keep:
  assumes "\<And>l b. p l \<Longrightarrow> p (l\<lparr>tl_cancelled := b\<rparr>)" and "\<And>l ds. p l \<Longrightarrow> p (l\<lparr>tl_diagnostics := ds\<rparr>)"
  shows "keeps_locals p (close_segments env)"
  unfolding close_segments_def by (auto intro!: keep_rules keeps_note assms)

lemma lifecycle_spec:
  fixes env :: "('w, 'r, 'c) turn_env"
  assumes "tn_to_output env None = Inr None"
  shows "task_spec (\<lambda>s. loop_ok (fst s)) (turn_lifecycle env q)
    (\<lambda>(c, committed) s. c \<noteq> None \<longrightarrow> reportable committed (fst s)) (\<lambda>_ _. True)"
proof -
  let ?left = "\<lambda>s. loop_left (fst s)" and ?mapped = "\<lambda>s. mapped (fst s)"
  have settle: "ends_left ?left (task_bind (turn_settle env t) (\<lambda>_. task_sum r))" for t and r :: "exn + unit"
    by (rule keeps_bind [OF settle_keeps keeps_basic(3), unfolded keeps_locals_def])
  have body: "ends_left (\<lambda>s. loop_ok (fst s)) (task_catch (turn_body env q) (turn_raised env))"
    by (rule task_spec_catch [OF body_ends_left]) (rule raised_keeps [unfolded keeps_locals_def])
  have settled: "ends_left (\<lambda>s. loop_ok (fst s)) (task_then (task_catch (turn_body env q) (turn_raised env)) (\<lambda>r.
         task_bind (turn_settle env (rq_turn_id q)) (\<lambda>_. task_sum r)))"
    by (rule task_spec_then [OF body]) (rule settle)+
  have segments: "task_spec (\<lambda>s. reported r s) (task_bind (close_segments env) (\<lambda>_. task_sum r))
      (\<lambda>(c, committed) s. c \<noteq> None \<longrightarrow> reportable committed (fst s)) (\<lambda>_ _. True)"
    if "reported = (\<lambda>r s. case r of Inl e \<Rightarrow> True | Inr (c, committed) \<Rightarrow> c \<noteq> None \<longrightarrow> reportable committed (fst s))"
    for r :: "exn + 'c option \<times> bool" and reported
  proof (rule task_spec_bind [where Q = "\<lambda>_ s. reported r s"])
    have "keeps_locals (\<lambda>l. case r of Inl e \<Rightarrow> True | Inr (c, committed) \<Rightarrow> c \<noteq> None \<longrightarrow> reportable committed l) (close_segments env)"
      by (rule segments_keep) (auto split: sum.splits)
    then show "task_spec (reported r) (close_segments env) (\<lambda>_ s. reported r s) (\<lambda>_ _. True)"
      unfolding keeps_locals_def that by (rule task_spec_weaken) (auto split: sum.splits)
    show "task_spec (reported r) (task_sum r)
      (\<lambda>(c, committed) s. c \<noteq> None \<longrightarrow> reportable committed (fst s)) (\<lambda>_ _. True)" for u
      unfolding that by (rule task_specI) (auto simp: task_simps)
  qed
  have finish: "task_spec ?mapped (task_then (turn_finish env (rq_active_day q)) (\<lambda>r.
         task_bind (close_segments env) (\<lambda>_. task_sum r)))
      (\<lambda>(c, committed) s. c \<noteq> None \<longrightarrow> reportable committed (fst s)) (\<lambda>_ _. True)"
  proof (rule task_spec_then [OF finish_spec])
    show "task_spec ((\<lambda>(c, committed) s. c \<noteq> None \<longrightarrow> reportable committed (fst s)) a)
      (task_bind (close_segments env) (\<lambda>_. task_sum (Inr a)))
      (\<lambda>(c, committed) s. c \<noteq> None \<longrightarrow> reportable committed (fst s)) (\<lambda>_ _. True)" for a :: "'c option \<times> bool"
      using segments [OF refl, of "Inr a"] by (simp add: case_prod_beta)
    show "task_spec (\<lambda>_. True) (task_bind (close_segments env) (\<lambda>_. task_sum (Inl e :: exn + 'c option \<times> bool)))
      (\<lambda>(c, committed) s. c \<noteq> None \<longrightarrow> reportable committed (fst s)) (\<lambda>_ _. True)" for e
      using segments [OF refl, of "Inl e"] by simp
  qed
  have keep: "task_spec P m Q (\<lambda>_ _. True)" if "task_spec P m Q E" for P Q E and m :: "('w turn_state, 'x) task"
    using that by (rule task_spec_weaken) simp_all
  show ?thesis
    unfolding turn_lifecycle_def
    by (rule task_spec_bind [OF keep [OF settled]]) (rule task_spec_bind [OF output_spec [OF assms] finish])
qed

section \<open>The report\<close>

definition outcome_of :: "calendar_day \<Rightarrow> 'c option \<Rightarrow> bool \<Rightarrow> turn_locals \<Rightarrow> 'c turn_outcome" where
  "outcome_of day c committed l = \<lparr>tu_context_completion = c, tu_active_day = day,
     tu_status = fst (status_of_locals l committed), tu_output = tl_output l, tu_exhausted = tl_exhausted l,
     tu_transfer = tl_transfer l, tu_failure = snd (status_of_locals l committed), tu_completion = tl_completion l,
     tu_finish_failures = tl_finish_failures l, tu_cleanup_diagnostics = tl_diagnostics l\<rparr>"

lemma report_outcome:
  "turn_report day c committed s = (case mk_turn_outcome (outcome_of day c committed (fst s)) of
     Inl e \<Rightarrow> Some (s, Inl e)
   | Inr u \<Rightarrow> Some (s, Inr (if tl_cancelled (fst s) then TurnExecutionCancelled u else TurnReturned u)))"
  by (cases "mk_turn_outcome (outcome_of day c committed (fst s))")
    (simp_all add: turn_report_def outcome_of_def locals_step task_simps case_prod_beta)

lemma reportable_status:
  assumes "reportable committed l"
  obtains (failed) f where "status_of_locals l committed = (TO_FAILED, Some f)"
  | (answered) "status_of_locals l committed = (TO_ANSWERED, None)" "committed" "tl_finish_failures l = []"
      "tl_output l \<noteq> None" "tl_completion l \<noteq> None" "\<not> tl_exhausted l"
  | (ended) st where "status_of_locals l committed = (st, None)" "st = TO_COMPLETED \<or> st = TO_AWAITING_USER" "committed"
      "tl_finish_failures l = []" "tl_output l = None" "tl_completion l \<noteq> None" "\<not> tl_exhausted l"
  | (exhausted) "status_of_locals l committed = (TO_EXHAUSTED, None)" "tl_finish_failures l = []"
      "tl_output l = None" "tl_exhausted l"
  | (stopped) st where "status_of_locals l committed = (st, None)" "st = TO_STOPPED \<or> st = TO_CANCELLED"
      "tl_finish_failures l = []" "tl_output l = None" "\<not> tl_exhausted l"
proof (cases "tl_failure l")
  case (Some f)
  then show thesis by (intro failed [of f]) (simp add: status_of_locals_def outcome_status_def)
next
  case None
  with assms have c: committed "tl_finish_failures l = []" and m: "mapped l" by (auto simp: reportable_def)
  show thesis
  proof (cases "tl_completion l")
    case (Some d)
    with m have e: "\<not> tl_exhausted l" by (simp add: mapped_def)
    show thesis
    proof (cases "tl_output l")
      case None
      let ?st = "if map_of d ''kind'' = Some (JStr ''awaiting_user'') then TO_AWAITING_USER else TO_COMPLETED"
      have "status_of_locals l committed = (?st, None)"
        using \<open>tl_failure l = None\<close> None Some c by (simp add: status_of_locals_def outcome_status_def)
      then show thesis by (rule ended) (use c e Some None in simp_all)
    next
      case (Some out)
      then have "status_of_locals l committed = (TO_ANSWERED, None)"
        using \<open>tl_failure l = None\<close> c by (simp add: status_of_locals_def outcome_status_def)
      then show thesis by (rule answered) (use c e Some \<open>tl_completion l = Some d\<close> in simp_all)
    qed
  next
    case completion: None
    with m have out: "tl_output l = None" by (auto simp: mapped_def)
    show thesis
    proof (cases "tl_exhausted l")
      case True
      then show thesis
        using \<open>tl_failure l = None\<close> c completion out by (intro exhausted) (simp_all add: status_of_locals_def outcome_status_def)
    next
      case e: False
      show thesis
      proof (cases "tl_stopped l \<or> tl_transfer l \<noteq> None")
        case True
        let ?st = "if tl_cancelled l then TO_CANCELLED else TO_STOPPED"
        have "status_of_locals l committed = (?st, None)"
          using True \<open>tl_failure l = None\<close> c completion out e by (simp add: status_of_locals_def outcome_status_def)
        then show thesis by (rule stopped) (use c out e in simp_all)
      next
        case False
        then show thesis
          using \<open>tl_failure l = None\<close> c completion out e
          by (intro failed [of no_completion_failure]) (simp add: status_of_locals_def outcome_status_def)
      qed
    qed
  qed
qed

lemma reportable_outcome:
  assumes "reportable committed l"
  shows "mk_turn_outcome (outcome_of day c committed l) = Inr (outcome_of day c committed l)"
  by (cases rule: reportable_status [OF assms])
    (auto simp: mk_turn_outcome_def outcome_of_def)

lemma reportable_success:
  assumes "reportable committed l"
    and "tu_status (outcome_of day c committed l) \<in> {TO_ANSWERED, TO_COMPLETED, TO_AWAITING_USER}"
  shows "committed \<and> tl_completion l \<noteq> None \<and> snd (status_of_locals l committed) = None"
  using assms(2) by (cases rule: reportable_status [OF assms(1)]) (auto simp: outcome_of_def)

text \<open>
  C6: The report of a Turn is consistent. Provided the output mapper gives no output for a Turn
  without a completion, a Turn whose life ends with a Context completion always has its report: the
  outcome satisfies the constructor's invariant, whatever was cancelled, stopped, exhausted, failed
  or transferred on the way. It is uncommitted exactly when a finish step failed; it is a success
  (answered, completed or awaiting the user) only when it is committed, has a completion and no
  failure; and it is raised as a cancellation exactly when the Turn was cancelled.
\<close>

theorem turn_report_consistent:
  assumes "tn_to_output env None = Inr None"
    and "turn_lifecycle env q (start_locals scope, w) = Some (s, Inr (Some c, committed))"
  shows "\<exists>u. turn_steps env q (start_locals scope, w)
        = Some (s, Inr (if tl_cancelled (fst s) then TurnExecutionCancelled u else TurnReturned u))
      \<and> mk_turn_outcome u = Inr u \<and> tu_context_completion u = Some c
      \<and> (committed \<longleftrightarrow> tu_finish_failures u = [])
      \<and> (tu_status u \<in> {TO_ANSWERED, TO_COMPLETED, TO_AWAITING_USER}
          \<longrightarrow> committed \<and> tu_completion u \<noteq> None \<and> tu_failure u = None)"
proof -
  let ?u = "outcome_of (rq_active_day q) (Some c) committed (fst s)"
  have "loop_ok (fst (start_locals scope, w))" by (simp add: start_locals_def loop_ok_def)
  from task_specD(1) [OF lifecycle_spec [OF assms(1)] this assms(2)]
  have r: "reportable committed (fst s)" by simp
  from reportable_outcome [OF r, of "rq_active_day q" "Some c"]
  have "turn_steps env q (start_locals scope, w)
      = Some (s, Inr (if tl_cancelled (fst s) then TurnExecutionCancelled ?u else TurnReturned ?u))"
    by (simp add: turn_steps_def assms(2) task_simps report_outcome)
  moreover have "tu_context_completion ?u = Some c" "tu_finish_failures ?u = tl_finish_failures (fst s)"
    "tu_completion ?u = tl_completion (fst s)" "tu_failure ?u = snd (status_of_locals (fst s) committed)"
    by (simp_all add: outcome_of_def)
  moreover have "committed \<longleftrightarrow> tl_finish_failures (fst s) = []" using r by (simp add: reportable_def)
  ultimately show ?thesis
    using reportable_outcome [OF r, of "rq_active_day q" "Some c"]
      reportable_success [OF r, of "rq_active_day q" "Some c"]
    by metis
qed

definition sample_output :: turn_output where
  "sample_output = \<lparr>to_text = ''done'', to_result_id = ''r'', to_references = [], to_metadata = []\<rparr>"

definition sample_turn :: "(int list, unit, string) turn_env" where
  "sample_turn = \<lparr>tn_loop = sample_loop True 5 1, tn_begin = (\<lambda>turn_input t w. (w, Inr ())),
     tn_turn_active = (\<lambda>w. True), tn_end = (\<lambda>w. (w, Inr ''c'')), tn_abort = (\<lambda>w. w),
     tn_open_segments = (\<lambda>day w. Some (w, Inr ())), tn_close_segments = (\<lambda>w. Some (w, Inr [])),
     tn_prepare = [], tn_call_id = (\<lambda>r. []), tn_tool_name = (\<lambda>r. []), tn_handlers = [], tn_recorder = None,
     tn_to_output = (\<lambda>c. Inr (case c of None \<Rightarrow> None | Some c \<Rightarrow> Some sample_output)),
     tn_interrupted = (\<lambda>stage w. stage = FS_CLOSE_SEGMENTS)\<rparr>"

definition sample_request :: turn_request where
  "sample_request = \<lparr>rq_turn_input = ''hello'', rq_active_day = CalendarDay 2026 1 2,
     rq_scope = [agent_frame], rq_turn_id = ''t''\<rparr>"

theorem turn_report_consistent_witness:
  "\<exists>s u. turn_lifecycle sample_turn sample_request (start_locals sample_scope, sample_turn_world) = Some (s, Inr (Some ''c'', True))
     \<and> turn_steps sample_turn sample_request (start_locals sample_scope, sample_turn_world)
         = Some (s, Inr (TurnExecutionCancelled u))
     \<and> mk_turn_outcome u = Inr u \<and> tu_finish_failures u = []"
proof -
  have "task_value (turn_lifecycle sample_turn sample_request (start_locals sample_scope, sample_turn_world))
      (\<lambda>s p. p = (Some ''c'', True) \<and> tl_cancelled (fst s))"
    by code_simp
  then obtain s where out: "turn_lifecycle sample_turn sample_request (start_locals sample_scope, sample_turn_world)
      = Some (s, Inr (Some ''c'', True))" and cancelled: "tl_cancelled (fst s)"
    by (auto dest!: task_valueD)
  have "tn_to_output sample_turn None = Inr None" by (simp add: sample_turn_def)
  from turn_report_consistent [OF this out] cancelled out show ?thesis by auto
qed

end
