(* ===== verification/Messages.thy ===== *)
theory Messages
  imports Json
begin

text \<open>
  The provider-neutral model protocol (tinysoul/llm/protocol: tools.py, reasoning.py, messages.py,
  adapter_types.py): tools, tool selections and scopes, tool-call records and their identities,
  reasoning with native replay, message parts, the four messages and the message stack. The values
  a typed caller passes are typed here; the checks that remain are those on contents.
\<close>

datatype llm_error = LLMContractError string

type_synonym 'a llm_result = "llm_error + 'a"

section \<open>Tools\<close>

datatype tool_kind = TK_CONTROL | TK_ACTION

datatype tool_use = TU_DISABLED | TU_OPTIONAL | TU_REQUIRED

datatype tool_result_status = TR_OK | TR_ERROR

fun tool_result_status_value :: "tool_result_status \<Rightarrow> string" where
  "tool_result_status_value TR_OK = ''ok''"
| "tool_result_status_value TR_ERROR = ''error''"

definition require_name :: "string \<Rightarrow> string \<Rightarrow> unit llm_result" where
  "require_name value field =
     (if value = [] then Inl (LLMContractError (field @ '' must be non-empty'')) else Inr ())"

definition llm_json_object :: "pyval \<Rightarrow> string \<Rightarrow> json_object llm_result" where
  "llm_json_object value field =
     (case to_json_object value of
        Inl _ \<Rightarrow> Inl (LLMContractError (field @ '' must be a JSON object''))
      | Inr v \<Rightarrow> Inr v)"

record tool_spec =
  ts_name :: string
  ts_description :: string
  ts_parameters :: json_object
  ts_kind :: tool_kind
  ts_strict :: "bool option"

definition mk_tool_spec ::
  "string \<Rightarrow> string \<Rightarrow> pyval \<Rightarrow> tool_kind \<Rightarrow> bool option \<Rightarrow> tool_spec llm_result" where
  "mk_tool_spec name description parameters kind strict =
     bind_r (require_name name ''ToolSpec.name'') (\<lambda>_.
     guard_r (description \<noteq> []) (LLMContractError ''ToolSpec.description must be non-empty'')
     (bind_r (llm_json_object parameters ''ToolSpec.parameters'') (\<lambda>p.
        Inr \<lparr>ts_name = name, ts_description = description, ts_parameters = p, ts_kind = kind,
             ts_strict = strict\<rparr>)))"

record tool_selection =
  sel_allowed :: "string list"
  sel_forced :: "string option"

fun check_allowed :: "string list \<Rightarrow> string list \<Rightarrow> string list llm_result" where
  "check_allowed [] seen = Inr seen"
| "check_allowed (name # names) seen =
     (if name = [] then Inl (LLMContractError ''ToolSelection.allowed_names must be non-empty'')
      else if name \<in> set seen
      then Inl (LLMContractError (''Duplicate tool selection name: '' @ name))
      else check_allowed names (name # seen))"

definition mk_tool_selection :: "string list \<Rightarrow> string option \<Rightarrow> tool_selection llm_result" where
  "mk_tool_selection allowed forced =
     (case check_allowed allowed [] of
        Inl e \<Rightarrow> Inl e
      | Inr seen \<Rightarrow>
          (case forced of
             None \<Rightarrow> Inr \<lparr>sel_allowed = allowed, sel_forced = None\<rparr>
           | Some f \<Rightarrow>
               (if f = [] then Inl (LLMContractError ''ToolSelection.forced_name must be non-empty'')
                else if allowed \<noteq> [] \<and> f \<notin> set seen
                then Inl (LLMContractError ''ToolSelection.forced_name must be in allowed_names'')
                else Inr \<lparr>sel_allowed = allowed, sel_forced = Some f\<rparr>)))"

record tool_scope =
  sc_tools :: "tool_spec list"
  sc_selection :: tool_selection

definition mk_tool_scope :: "tool_spec list \<Rightarrow> tool_selection \<Rightarrow> tool_scope llm_result" where
  "mk_tool_scope tools selection =
     (let names = map ts_name tools;
          missing = filter (\<lambda>name. name \<notin> set names) (sel_allowed selection)
      in case missing of
           name # _ \<Rightarrow> Inl (LLMContractError (''Unknown tool selection name: '' @ name))
         | [] \<Rightarrow>
             (case sel_forced selection of
                Some f \<Rightarrow>
                  (if f \<notin> set names then Inl (LLMContractError (''Unknown forced tool name: '' @ f))
                   else Inr \<lparr>sc_tools = tools, sc_selection = selection\<rparr>)
              | None \<Rightarrow> Inr \<lparr>sc_tools = tools, sc_selection = selection\<rparr>))"

definition visible_tools :: "tool_scope \<Rightarrow> tool_spec list" where
  "visible_tools scope =
     (if sel_allowed (sc_selection scope) = [] then sc_tools scope
      else filter (\<lambda>tool. ts_name tool \<in> set (sel_allowed (sc_selection scope))) (sc_tools scope))"

definition scope_is_empty :: "tool_scope \<Rightarrow> bool" where
  "scope_is_empty scope =
     (sc_tools scope = [] \<and> sel_allowed (sc_selection scope) = [] \<and> sel_forced (sc_selection scope) = None)"

record tool_call =
  tc_id :: string
  tc_name :: string
  tc_arguments :: json_object
  tc_kind :: "tool_kind option"

definition mk_tool_call :: "string \<Rightarrow> string \<Rightarrow> pyval \<Rightarrow> tool_kind option \<Rightarrow> tool_call llm_result" where
  "mk_tool_call identity name arguments kind =
     bind_r (require_name identity ''ToolCallRecord.id'') (\<lambda>_.
     bind_r (require_name name ''ToolCallRecord.name'') (\<lambda>_.
     bind_r (llm_json_object arguments ''ToolCallRecord.arguments'') (\<lambda>a.
       Inr \<lparr>tc_id = identity, tc_name = name, tc_arguments = a, tc_kind = kind\<rparr>)))"

section \<open>Tool-call identities\<close>

text \<open>\<open>c.isalpha()\<close> and \<open>c.isalnum()\<close> on the model's alphabet.\<close>

definition py_isalpha :: "char \<Rightarrow> bool" where
  "py_isalpha c = (let n = (of_char c :: nat) in
     (65 \<le> n \<and> n \<le> 90) \<or> (97 \<le> n \<and> n \<le> 122) \<or> n = 170 \<or> n = 181 \<or> n = 186
     \<or> (192 \<le> n \<and> n \<noteq> 215 \<and> n \<noteq> 247))"

definition py_isalnum :: "char \<Rightarrow> bool" where
  "py_isalnum c = (py_isalpha c \<or> is_digit c
     \<or> (of_char c :: nat) \<in> {178, 179, 185, 188, 189, 190})"

definition id_char :: "char \<Rightarrow> bool" where
  "id_char c = (py_isalnum c \<or> c = CHR ''_'' \<or> c = CHR ''-'')"

definition valid_tool_call_id :: "string \<Rightarrow> bool" where
  "valid_tool_call_id value =
     (case value of
        [] \<Rightarrow> False
      | first # _ \<Rightarrow>
          (if \<not> (py_isalpha first \<or> first = CHR ''_'') then False else list_all id_char value))"

text \<open>The name with every other character replaced, prefixed when it cannot start an identity.\<close>

definition safe_tool_name :: "string \<Rightarrow> string" where
  "safe_tool_name tool_name =
     (let safe = map (\<lambda>c. if id_char c then c else CHR ''_'') tool_name
      in if safe = [] \<or> \<not> (py_isalpha (hd safe) \<or> hd safe = CHR ''_'') then ''tool_'' @ safe else safe)"

definition to_tinysoul_id :: "string option \<Rightarrow> nat \<Rightarrow> string \<Rightarrow> string" where
  "to_tinysoul_id provider_call_id index tool_name =
     (case provider_call_id of
        None \<Rightarrow> safe_tool_name tool_name @ ''_'' @ show_nat (index + 1)
      | Some p \<Rightarrow>
          (if p \<noteq> [] \<and> valid_tool_call_id p then p
           else safe_tool_name tool_name @ ''_'' @ show_nat (index + 1)))"

definition to_provider_id :: "string \<Rightarrow> string llm_result" where
  "to_provider_id tinysoul_id = bind_r (require_name tinysoul_id ''tinysoul_id'') (\<lambda>_. Inr tinysoul_id)"

section \<open>Reasoning\<close>

datatype api_mode = AM_OPENAI_CHAT | AM_OPENAI_RESPONSES | AM_ANTHROPIC_MESSAGES | AM_GOOGLE_GENERATE_CONTENT

datatype adapter_kind =
    AD_OPENAI_CHAT | AD_OPENAI_RESPONSES | AD_GPT | AD_KIMI | AD_DEEPSEEK | AD_GLM | AD_MINIMAX
  | AD_ANTHROPIC_MESSAGES | AD_GOOGLE_GENERATE_CONTENT

datatype native_replay_mode = NR_NONE | NR_CONTENT | NR_ENCRYPTED | NR_SIGNED

record native_replay =
  nr_mode :: native_replay_mode
  nr_api_mode :: api_mode
  nr_adapter :: adapter_kind
  nr_provider_id :: string
  nr_provider_model :: string
  nr_ordered_items :: "json_object list"
  nr_message_fingerprint :: string
  nr_variant :: "string option"
  nr_prefix_fingerprint :: "string option"

text \<open>\<open>NativeReplay.__post_init__\<close>: the items arrive dynamic, the other fields in a raw record.\<close>

definition mk_native_replay :: "native_replay \<Rightarrow> pyval list \<Rightarrow> native_replay llm_result" where
  "mk_native_replay raw items =
     (if nr_mode raw = NR_NONE
      then Inl (LLMContractError ''NativeReplay.mode must describe retained native state'')
      else if nr_provider_id raw = [] \<or> nr_provider_model raw = []
      then Inl (LLMContractError ''NativeReplay route identity must be non-empty'')
      else if nr_message_fingerprint raw = []
      then Inl (LLMContractError ''NativeReplay.message_fingerprint must be non-empty'')
      else if nr_prefix_fingerprint raw = Some []
      then Inl (LLMContractError ''NativeReplay prefix fingerprint must be non-empty'')
      else case traverse to_json_object items of
        Inl _ \<Rightarrow> Inl (LLMContractError ''NativeReplay parts must be JSON objects'')
      | Inr parts \<Rightarrow>
          (if parts = [] then Inl (LLMContractError ''NativeReplay.ordered_items must be non-empty'')
           else Inr (raw\<lparr>nr_ordered_items := parts\<rparr>)))"

record reasoning =
  re_summary :: "string option"
  re_native_replay :: "native_replay option"

definition native_items :: "reasoning \<Rightarrow> json_object list" where
  "native_items r = (case re_native_replay r of None \<Rightarrow> [] | Some n \<Rightarrow> nr_ordered_items n)"

section \<open>Messages\<close>

datatype message_part =
    TextPart string
  | JsonPart json_object
  | ImagePart (image_data: string) (image_mime_type: string)
  | ImageUrlPart string

definition mk_json_part :: "pyval \<Rightarrow> message_part llm_result" where
  "mk_json_part value = bind_r (llm_json_object value ''JsonPart.value'') (\<lambda>v. Inr (JsonPart v))"

definition mk_image_part :: "string \<Rightarrow> string \<Rightarrow> message_part llm_result" where
  "mk_image_part content mime =
     (if content = [] then Inl (LLMContractError ''ImagePart requires non-empty image data'')
      else if mime = [] then Inl (LLMContractError ''ImagePart requires a non-empty MIME type'')
      else Inr (ImagePart content mime))"

definition mk_image_url_part :: "string \<Rightarrow> message_part llm_result" where
  "mk_image_url_part url =
     (if url = [] then Inl (LLMContractError ''ImageUrlPart requires a non-empty URL'')
      else Inr (ImageUrlPart url))"

datatype message =
    SystemMessage (msg_parts: "message_part list") (msg_label: string)
  | UserMessage (msg_parts: "message_part list") (msg_label: string)
  | AssistantMessage (msg_parts: "message_part list") (msg_reasoning: "reasoning option")
      (msg_tool_calls: "tool_call list") (msg_label: string)
  | ToolResultMessage (msg_call_id: string) (msg_tool_name: string) (msg_parts: "message_part list")
      (msg_status: tool_result_status) (msg_label: string)

definition user_from_text :: "string \<Rightarrow> string \<Rightarrow> message" where
  "user_from_text text' label = UserMessage [TextPart text'] label"

definition user_from_json :: "pyval \<Rightarrow> string \<Rightarrow> message llm_result" where
  "user_from_json value label =
     bind_r (llm_json_object value ''UserMessage.value'') (\<lambda>v. Inr (UserMessage [JsonPart v] label))"

definition system_from_text :: "string \<Rightarrow> string \<Rightarrow> message" where
  "system_from_text text' label = SystemMessage [TextPart text'] label"

definition assistant_from_text ::
  "string \<Rightarrow> reasoning option \<Rightarrow> tool_call list \<Rightarrow> string \<Rightarrow> message" where
  "assistant_from_text text' reasoning tool_calls label =
     AssistantMessage [TextPart text'] reasoning tool_calls label"

definition assistant_from_tool_calls :: "tool_call list \<Rightarrow> string \<Rightarrow> message" where
  "assistant_from_tool_calls tool_calls label = AssistantMessage [] None tool_calls label"

text \<open>\<open>ToolResultMessage.__post_init__\<close>: only text and JSON parts are replayed to a model.\<close>

fun textual_part :: "message_part \<Rightarrow> bool" where
  "textual_part (TextPart _) = True"
| "textual_part (JsonPart _) = True"
| "textual_part _ = False"

definition mk_tool_result_message ::
  "string \<Rightarrow> string \<Rightarrow> message_part list \<Rightarrow> tool_result_status \<Rightarrow> string \<Rightarrow> message llm_result" where
  "mk_tool_result_message call_id tool_name parts status label =
     (if call_id = [] then Inl (LLMContractError ''ToolResultMessage.call_id must be non-empty'')
      else if tool_name = [] then Inl (LLMContractError ''ToolResultMessage.tool_name must be non-empty'')
      else if \<not> list_all textual_part parts
      then Inl (LLMContractError (''ToolResultMessage only supports text and JSON parts; '' @
        ''non-text resources should be passed by rebuilding MessageStack''))
      else Inr (ToolResultMessage call_id tool_name parts status label))"

fun add_parts :: "message_part list \<Rightarrow> message \<Rightarrow> message" where
  "add_parts new (SystemMessage parts label) = SystemMessage (parts @ new) label"
| "add_parts new (UserMessage parts label) = UserMessage (parts @ new) label"
| "add_parts new (AssistantMessage parts reasoning calls label) =
     AssistantMessage (parts @ new) reasoning calls label"
| "add_parts new (ToolResultMessage call_id tool_name parts status label) =
     ToolResultMessage call_id tool_name parts status label"

fun add_tool_calls :: "tool_call list \<Rightarrow> message \<Rightarrow> message" where
  "add_tool_calls new (AssistantMessage parts reasoning calls label) =
     AssistantMessage parts reasoning (calls @ new) label"
| "add_tool_calls new m = m"

section \<open>The message stack\<close>

record message_origin =
  mo_segment_id :: string
  mo_owner :: string
  mo_slot :: string
  mo_shape :: string
  mo_message_indices :: "int list"
  mo_refs :: "string list"

definition mk_message_origin :: "message_origin \<Rightarrow> message_origin llm_result" where
  "mk_message_origin origin =
     (if mo_segment_id origin = [] \<or> mo_owner origin = [] \<or> list_ex (\<lambda>i. i < 0) (mo_message_indices origin)
      then Inl (LLMContractError ''Message provenance requires an owner and valid positions'')
      else Inr origin)"

definition message_origin_to_json :: "message_origin \<Rightarrow> json_object" where
  "message_origin_to_json origin =
     [(''segment_id'', JStr (mo_segment_id origin)), (''owner'', JStr (mo_owner origin)),
      (''slot'', JStr (mo_slot origin)), (''shape'', JStr (mo_shape origin)),
      (''message_indices'', JArr (map JInt (mo_message_indices origin))),
      (''refs'', JArr (map JStr (mo_refs origin)))]"

record message_stack =
  ms_messages :: "message list"
  ms_provenance :: "message_origin list"
  ms_resolved_references :: json_object

definition mk_message_stack ::
  "message list \<Rightarrow> message_origin list \<Rightarrow> json_object \<Rightarrow> message_stack llm_result" where
  "mk_message_stack messages provenance references =
     (if list_ex (\<lambda>origin. list_ex (\<lambda>i. i \<ge> int (length messages)) (mo_message_indices origin)) provenance
      then Inl (LLMContractError ''Message provenance references an absent message'')
      else Inr \<lparr>ms_messages = messages, ms_provenance = provenance, ms_resolved_references = references\<rparr>)"

definition stack_append ::
  "message \<Rightarrow> message_origin option \<Rightarrow> message_stack \<Rightarrow> message_stack llm_result" where
  "stack_append m origin stack =
     mk_message_stack (ms_messages stack @ [m])
       (case origin of None \<Rightarrow> ms_provenance stack | Some x \<Rightarrow> ms_provenance stack @ [x])
       (ms_resolved_references stack)"

definition stack_of :: "message list \<Rightarrow> message_stack llm_result" where
  "stack_of messages = mk_message_stack messages [] []"

section \<open>Properties\<close>

lemma digit_id_char: "is_digit c \<Longrightarrow> id_char c"
  by (simp add: id_char_def py_isalnum_def)

lemma safe_tool_name_valid: "valid_tool_call_id (safe_tool_name name)"
proof -
  let ?safe = "map (\<lambda>c. if id_char c then c else CHR ''_'') name"
  have us: "id_char (CHR ''_'')" by (simp add: id_char_def)
  have safe: "list_all id_char ?safe" using us by (induction name) auto
  have tool: "py_isalpha (CHR ''t'')" "list_all id_char ''tool_''" by code_simp+
  show ?thesis
  proof (cases "?safe = [] \<or> \<not> (py_isalpha (hd ?safe) \<or> hd ?safe = CHR ''_'')")
    case True
    then have "safe_tool_name name = ''tool_'' @ ?safe" by (simp add: safe_tool_name_def Let_def)
    moreover have "valid_tool_call_id (''tool_'' @ ?safe)"
      using tool safe by (auto simp: valid_tool_call_id_def)
    ultimately show ?thesis by simp
  next
    case False
    then have "safe_tool_name name = ?safe" by (simp add: safe_tool_name_def Let_def)
    moreover have "valid_tool_call_id ?safe"
      using False safe by (cases ?safe) (auto simp: valid_tool_call_id_def)
    ultimately show ?thesis by simp
  qed
qed

text \<open>
  Every tool call gets a usable identity. Whatever the provider sent, the identity assigned is
  valid (it starts with a letter or underscore and contains only letters, digits, \<open>_\<close> and \<open>-\<close>), so
  the mapper accepts it back unchanged; a valid provider identity is kept; and for two calls whose
  identities are generated, equal identities mean the same tool name up to replacement and the same
  position.
\<close>

theorem tool_identity_valid:
  "valid_tool_call_id (to_tinysoul_id p index name)
   \<and> to_provider_id (to_tinysoul_id p index name) = Inr (to_tinysoul_id p index name)
   \<and> to_tinysoul_id (Some (to_tinysoul_id p index name)) index' name' = to_tinysoul_id p index name
   \<and> (to_tinysoul_id None i a = to_tinysoul_id None j b) = (i = j \<and> safe_tool_name a = safe_tool_name b)"
proof -
  have gen: "valid_tool_call_id (safe_tool_name name @ ''_'' @ show_nat (index + 1))"
  proof -
    have "list_all id_char (''_'' @ show_nat (index + 1))"
      using show_nat_digits [of "index + 1"] digit_id_char
      by (auto simp: list_all_iff id_char_def)
    then show ?thesis
      using safe_tool_name_valid [of name] by (auto simp: valid_tool_call_id_def split: list.splits)
  qed
  then have valid: "valid_tool_call_id (to_tinysoul_id p index name)"
    by (simp add: to_tinysoul_id_def split: option.split)
  then have ne: "to_tinysoul_id p index name \<noteq> []" by (auto simp: valid_tool_call_id_def)
  have tail: "takeWhile is_digit (rev (s @ ''_'' @ show_nat (Suc n))) = rev (show_nat (Suc n))" for s n
  proof -
    have "is_digit x" if "x \<in> set (rev (show_nat (Suc n)))" for x
      using show_nat_digits [of "Suc n"] that by (simp add: list_all_iff)
    then have "takeWhile is_digit (rev (show_nat (Suc n)) @ CHR ''_'' # rev s)
        = rev (show_nat (Suc n)) @ takeWhile is_digit (CHR ''_'' # rev s)"
      by (rule takeWhile_append2)
    moreover have "\<not> is_digit (CHR ''_'')" by (simp add: is_digit_def)
    ultimately show ?thesis by simp
  qed
  have "i = j \<and> safe_tool_name a = safe_tool_name b"
    if "to_tinysoul_id None i a = to_tinysoul_id None j b"
  proof -
    have eq: "safe_tool_name a @ ''_'' @ show_nat (Suc i) = safe_tool_name b @ ''_'' @ show_nat (Suc j)"
      using that by (simp add: to_tinysoul_id_def)
    then have "rev (show_nat (Suc i)) = rev (show_nat (Suc j))" using tail by metis
    then have "i = j" by simp
    with eq show ?thesis by simp
  qed
  with valid ne show ?thesis
    by (auto simp: to_provider_id_def require_name_def to_tinysoul_id_def)
qed

end
