(* ===== verification/Trace.thy ===== *)
theory Trace
  imports Action Messages Interaction Turn_Identity
begin

text \<open>
  The trace of a Turn (tinysoul/kernel/context/builtin/trace.py): the append-only record of
  decisions, results, notes and inputs; the facts and the execution state of every Action call; and
  the visible hierarchy into which older entries are compacted.

  The dict of Action facts and the dict of nodes are association lists in insertion order; the set
  of protected overlays is a list of identities. A lookup by entry or node identity that Python
  writes as \<open>d[k]\<close> selects the entries found; Trace_Proofs shows that in a reachable trace all of
  them are. Time and fresh uuids are parameters. \<open>PyValueError\<close> is the \<open>ValueError\<close> of \<open>int()\<close>.
\<close>

datatype inspect_reason = IR_INVALID_REF | IR_UNKNOWN_REF | IR_REF_NOT_LEAF

datatype context_error =
    ContextContractError string
  | ContextInvariantError string
  | ContextInspectRequestError inspect_reason string string
  | PassedQuestionError string
  | PassedLLMContractError string
  | PyValueError string

type_synonym 'a context_result = "context_error + 'a"

datatype trace_kind = TK_DECISION | TK_ACTION_RESULT | TK_PHASE_NOTE | TK_INPUT

fun trace_kind_value :: "trace_kind \<Rightarrow> string" where
  "trace_kind_value TK_DECISION = ''decision''"
| "trace_kind_value TK_ACTION_RESULT = ''action_result''"
| "trace_kind_value TK_PHASE_NOTE = ''phase_note''"
| "trace_kind_value TK_INPUT = ''input''"

section \<open>References\<close>

definition parse_trace_reference :: "string \<Rightarrow> string context_result" where
  "parse_trace_reference ref =
     (case py_partition (CHR ''#'') ref of (resource, marker, fragment) \<Rightarrow>
        if \<not> py_startswith resource ''turn:trace/''
        then Inl (ContextContractError ''Reference is not a trace resource'')
        else
          (let turn_id = py_removeprefix resource ''turn:trace/'' in
           case turn_identity_parse turn_id of
             Inl _ \<Rightarrow> Inl (ContextContractError ''Invalid Trace Turn identity'')
           | Inr _ \<Rightarrow>
               (if \<not> marker then Inr turn_id
                else case py_partition (CHR ''/'') fragment of (kind, separator, value) \<Rightarrow>
                  let bad = ContextContractError ''Trace reference fragment is invalid'' in
                  if kind \<notin> set [''entry'', ''action'', ''input'', ''node''] \<or> \<not> separator
                     \<or> \<not> ascii_decimal value
                  then Inl bad
                  else case py_int_digits value of
                    None \<Rightarrow> Inl (PyValueError ''Exceeds the limit for integer string conversion'')
                  | Some n \<Rightarrow>
                      (if show_nat n \<noteq> value \<or> (kind = ''entry'' \<or> kind = ''node'') \<and> n = 0
                       then Inl bad else Inr turn_id))))"

section \<open>Facts\<close>

datatype trace_fact_kind =
    FK_INPUT_INSTALLED | FK_INPUT_VISIBLE | FK_ACTION_REQUESTED | FK_ACTION_STARTED | FK_ACTION_SETTLED
  | FK_ACTION_CANCELLED | FK_ACTION_NOT_EXECUTED | FK_ACTION_UNKNOWN | FK_ENTRY

record trace_fact =
  tf_sequence :: nat
  tf_kind :: trace_fact_kind
  tf_ref :: string
  tf_cycle_id :: string
  tf_admission_sequence :: "int option"

definition mk_trace_fact :: "trace_fact \<Rightarrow> trace_fact context_result" where
  "mk_trace_fact f =
     (if tf_sequence f = 0 then Inl (ContextInvariantError ''Trace fact sequence must be positive'')
      else if tf_ref f = [] then Inl (ContextInvariantError ''Trace fact requires a kind and reference'')
      else if (case tf_admission_sequence f of None \<Rightarrow> False | Some n \<Rightarrow> n \<le> 0)
      then Inl (ContextInvariantError ''Admission sequence must be positive'')
      else Inr f)"

text \<open>\<open>TraceFactKind(f"action_{state.value}")\<close>\<close>

fun fact_of_state :: "execution_state \<Rightarrow> trace_fact_kind" where
  "fact_of_state ES_REQUESTED = FK_ACTION_REQUESTED"
| "fact_of_state ES_STARTED = FK_ACTION_STARTED"
| "fact_of_state ES_SETTLED = FK_ACTION_SETTLED"
| "fact_of_state ES_CANCELLED = FK_ACTION_CANCELLED"
| "fact_of_state ES_NOT_EXECUTED = FK_ACTION_NOT_EXECUTED"
| "fact_of_state ES_UNKNOWN = FK_ACTION_UNKNOWN"

section \<open>Entries\<close>

record trace_entry =
  te_entry_id :: string
  te_kind :: trace_kind
  te_message :: message
  te_cycle_id :: string
  te_phase :: "cycle_phase option"
  te_visible_overlay :: "message option"
  te_origin_refs :: "string list"
  te_admission_sequence :: "int option"
  te_input_id :: string

definition mk_trace_entry :: "trace_entry \<Rightarrow> trace_entry context_result" where
  "mk_trace_entry e =
     (if te_entry_id e = [] then Inl (ContextInvariantError ''TraceEntry.entry_id must be non-empty'')
      else if [] \<in> set (te_origin_refs e)
      then Inl (ContextInvariantError ''TraceEntry origin_refs must contain non-empty strings'')
      else if length (remdups (te_origin_refs e)) \<noteq> length (te_origin_refs e)
      then Inl (ContextInvariantError ''TraceEntry origin_refs must be unique'')
      else Inr e)"

definition visible_message :: "trace_entry \<Rightarrow> message" where
  "visible_message e = (case te_visible_overlay e of None \<Rightarrow> te_message e | Some m \<Rightarrow> m)"

fun semantic_part :: "message_part \<Rightarrow> json list" where
  "semantic_part (TextPart s) = [JStr s]"
| "semantic_part (JsonPart v) = [JObj v]"
| "semantic_part _ = []"

definition semantic_parts :: "message \<Rightarrow> json list" where
  "semantic_parts m = concat (map semantic_part (msg_parts m))"

text \<open>\<open>content[0] if len(content) == 1 else content\<close>\<close>

definition content_value :: "json list \<Rightarrow> json" where
  "content_value content = (case content of [x] \<Rightarrow> x | _ \<Rightarrow> JArr content)"

definition call_json :: "string \<Rightarrow> tool_call \<Rightarrow> json" where
  "call_json label call = JObj [(label, JStr (tc_name call)), (''request'', JObj (tc_arguments call))]"

definition nonempty_member :: "json_object \<Rightarrow> string \<Rightarrow> json_object option" where
  "nonempty_member v k = (case map_of v k of Some (JObj x) \<Rightarrow> if x = [] then None else Some x | _ \<Rightarrow> None)"

definition semantic_trace_entry :: "trace_entry \<Rightarrow> json_object" where
  "semantic_trace_entry e =
     (let content = semantic_parts (te_message e) in
      case te_message e of
        AssistantMessage parts r calls label \<Rightarrow>
          (let actions = map (call_json ''action'') (filter (\<lambda>c. tc_kind c = Some TK_ACTION) calls);
               controls = map (call_json ''control'') (filter (\<lambda>c. tc_kind c = Some TK_CONTROL) calls)
           in [(''kind'', JStr ''decision'')]
              @ (if content \<noteq> [] then [(''content'', content_value content)] else [])
              @ (if actions \<noteq> [] then [(''actions'', JArr actions)] else [])
              @ (if controls \<noteq> [] then [(''controls'', JArr controls)] else []))
      | ToolResultMessage call_id tool_name parts status label \<Rightarrow>
          (let base = [(''kind'', JStr ''action_result''), (''action'', JStr tool_name),
                       (''outcome'', JStr (tool_result_status_value status))];
               value = (case content of
                   [JObj envelope] \<Rightarrow>
                     (let v1 = (case map_of envelope ''status'' of
                          Some (JStr s) \<Rightarrow> if s = [] then base else AList.update ''outcome'' (JStr s) base
                        | _ \<Rightarrow> base)
                      in v1
                        @ (case nonempty_member envelope ''payload'' of
                             None \<Rightarrow> [] | Some p \<Rightarrow> [(''result'', JObj p)])
                        @ (case nonempty_member envelope ''failure'' of
                             None \<Rightarrow> []
                           | Some failure \<Rightarrow> [(''failure'', JObj (List.map_filter
                               (\<lambda>k. map_option (Pair k) (map_of failure k))
                               [''reason'', ''disposition'', ''feedback'', ''constraint'']))]))
                 | [] \<Rightarrow> base
                 | _ \<Rightarrow> base @ [(''result'', content_value content)])
           in value @ (if te_origin_refs e \<noteq> []
                       then [(''references'', JArr (map JStr (te_origin_refs e)))] else []))
      | _ \<Rightarrow> [(''kind'', JStr (trace_kind_value (te_kind e)))]
             @ (if content \<noteq> [] then [(''content'', content_value content)] else []))"

definition clue_text :: "json \<Rightarrow> string" where
  "clue_text v = (case v of JStr s \<Rightarrow> s | _ \<Rightarrow> dumps_json v)"

definition entry_clue :: "trace_entry \<Rightarrow> string" where
  "entry_clue e =
     (let pieces = map (\<lambda>(k, v). clue_text v)
            (filter (\<lambda>(k, v). k \<in> set [''content'', ''result'', ''failure'', ''actions'', ''controls''])
              (semantic_trace_entry e));
          all_pieces = (case te_message e of
              ToolResultMessage call_id tool_name parts status label \<Rightarrow> tool_name # pieces
            | AssistantMessage parts r calls label \<Rightarrow> pieces @ map tc_name calls
            | _ \<Rightarrow> pieces);
          clue = take 240 (py_join '' '' (py_split (py_join '' '' all_pieces)))
      in if clue = [] then trace_kind_value (te_kind e) else clue)"

definition entry_action_names :: "trace_entry list \<Rightarrow> string list" where
  "entry_action_names es = concat (map (\<lambda>e. case te_message e of
       AssistantMessage parts r calls label \<Rightarrow> map tc_name calls
     | ToolResultMessage call_id tool_name parts status label \<Rightarrow> [tool_name]
     | _ \<Rightarrow> []) es)"

fun part_chars :: "message_part \<Rightarrow> nat" where
  "part_chars (TextPart s) = length s"
| "part_chars (JsonPart v) = length (dumps_json (JObj v))"
| "part_chars _ = 0"

definition message_chars :: "message \<Rightarrow> nat" where
  "message_chars m =
     sum_list (map part_chars (msg_parts m))
     + (case m of
          AssistantMessage parts r calls label \<Rightarrow>
            sum_list (map (\<lambda>c. length (tc_id c) + length (tc_name c) + length (dumps_json (JObj (tc_arguments c)))) calls)
            + (case r of
                 None \<Rightarrow> 0
               | Some x \<Rightarrow> (case re_summary x of None \<Rightarrow> 0 | Some s \<Rightarrow> length s)
                   + sum_list (map (\<lambda>i. length (dumps_json (JObj i))) (native_items x)))
        | ToolResultMessage call_id tool_name parts status label \<Rightarrow>
            length call_id + length tool_name + length (tool_result_status_value status)
        | _ \<Rightarrow> 0)"

section \<open>Nodes, actions and the heap\<close>

datatype node_kind = NK_LEAF | NK_BRANCH

record heap_node =
  hn_node_id :: string
  hn_kind :: node_kind
  hn_level :: nat
  hn_entry_ids :: "string list"
  hn_child_ids :: "string list"
  hn_cycle_ids :: "string list"
  hn_trace_kinds :: "string list"
  hn_action_names :: "string list"
  hn_char_count :: nat
  hn_clue :: string

definition mk_heap_node :: "heap_node \<Rightarrow> heap_node context_result" where
  "mk_heap_node n =
     (if hn_node_id n = [] then Inl (ContextInvariantError ''TraceHeapNode.node_id must be non-empty'')
      else if hn_kind n = NK_LEAF \<and> (hn_entry_ids n = [] \<or> hn_child_ids n \<noteq> [])
      then Inl (ContextInvariantError ''A leaf TraceHeapNode requires entries and no children'')
      else if hn_kind n = NK_BRANCH \<and> (hn_child_ids n = [] \<or> hn_entry_ids n \<noteq> [])
      then Inl (ContextInvariantError ''A branch TraceHeapNode requires children and no entries'')
      else Inr n)"

definition node_ref :: "string \<Rightarrow> string \<Rightarrow> string" where
  "node_ref turn_id node_id = ''turn:trace/'' @ turn_id @ ''#node/'' @ node_id"

definition node_to_header :: "string \<Rightarrow> heap_node \<Rightarrow> json_object" where
  "node_to_header turn_id n =
     [(''ref'', JStr (node_ref turn_id (hn_node_id n))),
      (''kind'', JStr (if hn_kind n = NK_LEAF then ''leaf'' else ''branch'')),
      (''clue'', JStr (hn_clue n))]
     @ (if hn_kind n = NK_LEAF then [(''interaction_count'', JInt (int (length (hn_entry_ids n))))]
        else [(''child_count'', JInt (int (length (hn_child_ids n))))])
     @ (if hn_trace_kinds n \<noteq> [] then [(''interaction_kinds'', JArr (map JStr (hn_trace_kinds n)))] else [])
     @ (if hn_action_names n \<noteq> [] then [(''actions'', JArr (map JStr (hn_action_names n)))] else [])"

record compaction_report =
  rp_changed :: bool
  rp_compacted_count :: nat
  rp_folded_overlay_count :: nat
  rp_reclaimed_chars :: nat
  rp_remaining_hot_count :: nat
  rp_node_refs :: "string list"

record trace_action =
  ta_cycle_id :: string
  ta_call :: action_call
  ta_state :: execution_state
  ta_invoke_id :: "string option"
  ta_result :: "action_result option"

definition mk_trace_action :: "trace_action \<Rightarrow> trace_action context_result" where
  "mk_trace_action a =
     (if ta_cycle_id a = [] then Inl (ContextInvariantError ''Trace Action requires Cycle and call identity'')
      else if (ta_state a = ES_SETTLED) \<noteq> (ta_result a \<noteq> None)
      then Inl (ContextInvariantError ''Only settled Trace Actions contain a result'')
      else case ta_result a of
        None \<Rightarrow> Inr a
      | Some r \<Rightarrow>
          (if ar_call_id r \<noteq> ac_call_id (ta_call a) \<or> ar_action_name r \<noteq> ac_action_name (ta_call a)
              \<or> ar_sequence r \<noteq> ac_sequence (ta_call a) \<or> ar_invoke_id r \<noteq> ta_invoke_id a
           then Inl (ContextInvariantError ''Trace Action result identity does not match'')
           else Inr a))"

type_synonym action_key = "string \<times> int"

record trace_heap =
  th_turn_id :: string
  th_chunk_chars :: nat
  th_branch_factor :: nat
  th_min_hot_entries :: nat
  th_entries :: "trace_entry list"
  th_hot :: "string list"
  th_nodes :: "(string \<times> heap_node) list"
  th_roots :: "string list"
  th_actions :: "(action_key \<times> trace_action) list"
  th_timeline :: "trace_fact list"
  th_protected :: "string list"

definition mk_trace_heap :: "string \<Rightarrow> int \<Rightarrow> int \<Rightarrow> int \<Rightarrow> trace_heap context_result" where
  "mk_trace_heap turn_id chunk_chars branch_factor min_hot_entries =
     (if turn_id = [] then Inl (ContextContractError ''TurnTraceHeap.turn_id must be non-empty'')
      else if chunk_chars \<le> 0 then Inl (ContextContractError ''TurnTraceHeap.chunk_chars must be positive'')
      else if branch_factor < 2
      then Inl (ContextContractError ''TurnTraceHeap.branch_factor must be at least 2'')
      else if min_hot_entries < 0
      then Inl (ContextContractError ''TurnTraceHeap.min_hot_entries cannot be negative'')
      else Inr \<lparr>th_turn_id = turn_id, th_chunk_chars = nat chunk_chars,
        th_branch_factor = nat branch_factor, th_min_hot_entries = nat min_hot_entries,
        th_entries = [], th_hot = [], th_nodes = [], th_roots = [], th_actions = [],
        th_timeline = [], th_protected = []\<rparr>)"

definition head_ref :: "trace_heap \<Rightarrow> string" where
  "head_ref h = ''turn:trace/'' @ th_turn_id h"

text \<open>\<open>tuple(self._actions).index(key)\<close>: the position of a key that is present.\<close>

fun key_index :: "'k \<Rightarrow> 'k list \<Rightarrow> nat" where
  "key_index k [] = 0"
| "key_index k (x # xs) = (if x = k then 0 else Suc (key_index k xs))"

definition action_ref :: "action_key \<Rightarrow> trace_heap \<Rightarrow> string" where
  "action_ref key h = head_ref h @ ''#action/'' @ show_nat (key_index key (dict_keys (th_actions h)))"

definition entry_ref :: "string \<Rightarrow> trace_heap \<Rightarrow> string" where
  "entry_ref entry_id h = head_ref h @ ''#entry/'' @ entry_id"

definition input_ref :: "nat \<Rightarrow> trace_heap \<Rightarrow> string" where
  "input_ref occurrence h = head_ref h @ ''#input/'' @ show_nat occurrence"

definition record_fact ::
  "trace_fact_kind \<Rightarrow> string \<Rightarrow> string \<Rightarrow> int option \<Rightarrow> trace_heap \<Rightarrow> trace_heap \<times> unit context_result" where
  "record_fact kind ref cycle_id admission h =
     (case mk_trace_fact \<lparr>tf_sequence = length (th_timeline h) + 1, tf_kind = kind, tf_ref = ref,
            tf_cycle_id = cycle_id, tf_admission_sequence = admission\<rparr> of
        Inl e \<Rightarrow> (h, Inl e)
      | Inr f \<Rightarrow> (h\<lparr>th_timeline := th_timeline h @ [f]\<rparr>, Inr ()))"

section \<open>Action facts\<close>

fun register_action_calls ::
  "string \<Rightarrow> action_call list \<Rightarrow> trace_heap \<Rightarrow> trace_heap \<times> unit context_result" where
  "register_action_calls cycle_id [] h = (h, Inr ())"
| "register_action_calls cycle_id (call # calls) h =
     (let key = (cycle_id, ac_sequence call) in
      case map_of (th_actions h) key of
        Some previous \<Rightarrow>
          (if ta_call previous \<noteq> call
           then (h, Inl (ContextInvariantError ''Trace Action call identity changed''))
           else register_action_calls cycle_id calls h)
      | None \<Rightarrow>
          (case mk_trace_action \<lparr>ta_cycle_id = cycle_id, ta_call = call, ta_state = ES_REQUESTED,
                 ta_invoke_id = None, ta_result = None\<rparr> of
             Inl e \<Rightarrow> (h, Inl e)
           | Inr a \<Rightarrow>
               (let h1 = h\<lparr>th_actions := AList.update key a (th_actions h)\<rparr> in
                case record_fact FK_ACTION_REQUESTED (action_ref key h1) cycle_id None h1 of
                  (h2, Inl e) \<Rightarrow> (h2, Inl e)
                | (h2, Inr _) \<Rightarrow> register_action_calls cycle_id calls h2)))"

text \<open>Store a candidate under its key and record the fact of its state.\<close>

definition settle_action ::
  "action_key \<Rightarrow> trace_action \<Rightarrow> trace_fact_kind \<Rightarrow> trace_heap \<Rightarrow> trace_heap \<times> unit context_result" where
  "settle_action key candidate kind h =
     (let h1 = h\<lparr>th_actions := AList.update key candidate (th_actions h)\<rparr>
      in record_fact kind (action_ref key h1) (fst key) None h1)"

definition record_action_result ::
  "action_result \<Rightarrow> string \<Rightarrow> trace_heap \<Rightarrow> trace_heap \<times> unit context_result" where
  "record_action_result result cycle_id h =
     (let key = (cycle_id, ar_sequence result) in
      case map_of (th_actions h) key of
        None \<Rightarrow> (h, Inl (ContextInvariantError ''Action result has no registered call''))
      | Some previous \<Rightarrow>
          (if ta_invoke_id previous \<noteq> None \<and> ta_invoke_id previous \<noteq> ar_invoke_id result
           then (h, Inl (ContextInvariantError ''Action result invocation identity changed''))
           else case mk_trace_action (previous\<lparr>ta_state := ES_SETTLED, ta_invoke_id := ar_invoke_id result,
                  ta_result := Some result\<rparr>) of
             Inl e \<Rightarrow> (h, Inl e)
           | Inr candidate \<Rightarrow>
               (if previous = candidate then (h, Inr ())
                else if ta_state previous \<noteq> ES_REQUESTED \<and> ta_state previous \<noteq> ES_STARTED
                then (h, Inl (ContextInvariantError ''Settled Action facts cannot change''))
                else settle_action key candidate FK_ACTION_SETTLED h)))"

fun execution_transition :: "execution_state \<Rightarrow> execution_state list" where
  "execution_transition ES_REQUESTED = [ES_REQUESTED, ES_STARTED, ES_NOT_EXECUTED]"
| "execution_transition ES_STARTED = [ES_SETTLED, ES_CANCELLED, ES_UNKNOWN]"
| "execution_transition _ = []"

definition record_execution :: "execution_fact \<Rightarrow> trace_heap \<Rightarrow> trace_heap \<times> unit context_result" where
  "record_execution observed h =
     (if af_turn_id (ef_framework observed) \<noteq> th_turn_id h
      then (h, Inl (ContextInvariantError ''Execution fact belongs to another Turn''))
      else
        (let key = (af_cycle_id (ef_framework observed), ac_sequence (ef_call observed)) in
         case map_of (th_actions h) key of
           None \<Rightarrow> (h, Inl (ContextInvariantError ''Execution must reference its registered call''))
         | Some previous \<Rightarrow>
             (if ta_call previous \<noteq> ef_call observed
              then (h, Inl (ContextInvariantError ''Execution must reference its registered call''))
              else case mk_trace_action (previous\<lparr>ta_state := ef_state observed,
                     ta_invoke_id := Some (af_invoke_id (ef_framework observed)), ta_result := ef_result observed\<rparr>) of
                Inl e \<Rightarrow> (h, Inl e)
              | Inr candidate \<Rightarrow>
                  (if previous = candidate then (h, Inr ())
                   else if ta_invoke_id previous \<noteq> None \<and> ta_invoke_id previous \<noteq> Some []
                      \<and> ta_invoke_id previous \<noteq> ta_invoke_id candidate
                   then (h, Inl (ContextInvariantError ''Action invocation identity changed''))
                   else if ef_state observed \<notin> set (execution_transition (ta_state previous))
                   then (h, Inl (ContextInvariantError ''Settled execution facts cannot be changed''))
                   else if ef_state observed = ES_REQUESTED
                   then (h\<lparr>th_actions := AList.update key candidate (th_actions h)\<rparr>, Inr ())
                   else settle_action key candidate (fact_of_state (ef_state observed)) h))))"

section \<open>Appending\<close>

text \<open>\<open>_append\<close>: the raw entry carries everything but its identity.\<close>

definition append_entry :: "trace_entry \<Rightarrow> trace_heap \<Rightarrow> trace_heap \<times> trace_entry context_result" where
  "append_entry raw h =
     (case mk_trace_entry (raw\<lparr>te_entry_id := show_nat (length (th_entries h) + 1)\<rparr>) of
        Inl e \<Rightarrow> (h, Inl e)
      | Inr entry \<Rightarrow>
          (h\<lparr>th_entries := th_entries h @ [entry], th_hot := th_hot h @ [te_entry_id entry],
             th_protected := (if te_visible_overlay entry \<noteq> None
               then List.insert (te_entry_id entry) (th_protected h) else th_protected h)\<rparr>, Inr entry))"

definition raw_entry :: "trace_kind \<Rightarrow> message \<Rightarrow> trace_entry" where
  "raw_entry kind m = \<lparr>te_entry_id = [], te_kind = kind, te_message = m, te_cycle_id = [],
     te_phase = None, te_visible_overlay = None, te_origin_refs = [], te_admission_sequence = None,
     te_input_id = []\<rparr>"

definition append_decision ::
  "message \<Rightarrow> string \<Rightarrow> cycle_phase option \<Rightarrow> trace_heap \<Rightarrow> trace_heap \<times> trace_entry context_result" where
  "append_decision m cycle_id phase h =
     append_entry ((raw_entry TK_DECISION m)\<lparr>te_cycle_id := cycle_id, te_phase := phase\<rparr>) h"

definition append_action_result ::
  "message \<Rightarrow> string \<Rightarrow> message option \<Rightarrow> string list \<Rightarrow> trace_heap \<Rightarrow> trace_heap \<times> trace_entry context_result" where
  "append_action_result m cycle_id canonical origin_refs h =
     append_entry ((raw_entry TK_ACTION_RESULT (case canonical of None \<Rightarrow> m | Some c \<Rightarrow> c))
       \<lparr>te_cycle_id := cycle_id, te_phase := Some PHASE3,
        te_visible_overlay := (if canonical \<noteq> None then Some m else None),
        te_origin_refs := origin_refs\<rparr>) h"

text \<open>The note is text, or a dynamic value that must be a JSON object.\<close>

definition append_phase_note ::
  "pyval \<Rightarrow> string \<Rightarrow> cycle_phase option \<Rightarrow> int option \<Rightarrow> trace_heap \<Rightarrow> trace_heap \<times> trace_entry context_result" where
  "append_phase_note note cycle_id phase admission h =
     (case (case note of PyStr s \<Rightarrow> Inr (user_from_text s ''phase_note'') | _ \<Rightarrow> user_from_json note ''phase_note'') of
        Inl (LLMContractError e) \<Rightarrow> (h, Inl (PassedLLMContractError e))
      | Inr m \<Rightarrow> append_entry ((raw_entry TK_PHASE_NOTE m)
          \<lparr>te_cycle_id := cycle_id, te_phase := phase, te_admission_sequence := admission\<rparr>) h)"

record pending_input =
  pn_input_id :: string
  pn_text :: string
  pn_received_at :: rat
  pn_merged :: bool
  pn_reply_to :: string
  pn_answer :: "question_answer option"

definition ask_question :: "pending_input \<Rightarrow> trace_heap \<Rightarrow> action_result option" where
  "ask_question item h =
     Option.bind (find (\<lambda>(key, a). (case ta_result a of None \<Rightarrow> False
           | Some r \<Rightarrow> ar_result_id r = pn_reply_to item) \<and> ac_action_name (ta_call a) = ''core.ask'')
         (th_actions h))
       (\<lambda>(key, a). ta_result a)"

definition append_input :: "pending_input \<Rightarrow> bool \<Rightarrow> trace_heap \<Rightarrow> trace_heap \<times> trace_entry context_result" where
  "append_input item initial h =
     (let plain = input_narrative (pn_text item) initial;
          body = (case pn_answer item of
              Some answer \<Rightarrow>
                (if pn_reply_to item = [] then Inr plain
                 else case ask_question item h of
                   None \<Rightarrow> Inr plain
                 | Some question \<Rightarrow> bind_r (question_from_json (ar_payload question))
                     (\<lambda>content. reply_narrative content answer))
            | None \<Rightarrow> Inr plain)
      in case body of
           Inl (QuestionError e) \<Rightarrow> (h, Inl (PassedQuestionError e))
         | Inr s \<Rightarrow> append_entry ((raw_entry TK_INPUT (user_from_text s ''trace_input''))
             \<lparr>te_input_id := pn_input_id item\<rparr>) h)"

section \<open>Reading\<close>

definition entry_of :: "trace_heap \<Rightarrow> string \<Rightarrow> trace_entry option" where
  "entry_of h entry_id = find (\<lambda>e. te_entry_id e = entry_id) (rev (th_entries h))"

definition entries_of :: "trace_heap \<Rightarrow> string list \<Rightarrow> trace_entry list" where
  "entries_of h ids = List.map_filter (entry_of h) ids"

definition hot_entries :: "trace_heap \<Rightarrow> trace_entry list" where
  "hot_entries h = entries_of h (th_hot h)"

definition nodes_of :: "trace_heap \<Rightarrow> string list \<Rightarrow> heap_node list" where
  "nodes_of h ids = List.map_filter (map_of (th_nodes h)) ids"

definition mark_consumed :: "message list \<Rightarrow> trace_heap \<Rightarrow> trace_heap" where
  "mark_consumed messages h = h\<lparr>th_protected := filter
     (\<lambda>i. \<not> list_ex (\<lambda>e. te_entry_id e = i \<and> (case te_visible_overlay e of None \<Rightarrow> False | Some m \<Rightarrow> m \<in> set messages))
       (hot_entries h)) (th_protected h)\<rparr>"

definition trace_directory :: "string \<Rightarrow> (string \<times> string) list \<Rightarrow> string" where
  "trace_directory ref items =
     ''Earlier events in this Turn ('' @ ref @ ''). Inspect a reference to recall details.'' @ [char_of (10::nat)]
     @ py_join [char_of (10::nat)] (map (\<lambda>(target, clue). ''- '' @ clue @ '' ('' @ target @ '')'') items)"

definition render_messages :: "trace_heap \<Rightarrow> message list" where
  "render_messages h =
     (if th_roots h \<noteq> []
      then [user_from_text (trace_directory (head_ref h)
              (map (\<lambda>n. (node_ref (th_turn_id h) (hn_node_id n), hn_clue n)) (nodes_of h (th_roots h))))
              ''trace_heap_head'']
      else [])
     @ map visible_message (hot_entries h)"

definition visible_char_count :: "trace_heap \<Rightarrow> nat" where
  "visible_char_count h = sum_list (map message_chars (render_messages h))"

definition node_for_ref :: "string \<Rightarrow> trace_heap \<Rightarrow> heap_node context_result" where
  "node_for_ref ref h =
     (let prefix = head_ref h @ ''#node/'' in
      if \<not> py_startswith ref prefix
      then Inl (ContextInspectRequestError IR_INVALID_REF ''Trace ref does not belong to the active Turn'' ref)
      else case map_of (th_nodes h) (drop (length prefix) ref) of
        None \<Rightarrow> Inl (ContextInspectRequestError IR_UNKNOWN_REF ''Unknown Context trace ref'' ref)
      | Some n \<Rightarrow> Inr n)"

definition resolve_reference :: "string \<Rightarrow> trace_heap \<Rightarrow> string context_result" where
  "resolve_reference ref h =
     (case parse_trace_reference ref of
        Inl e \<Rightarrow> Inl e
      | Inr turn_id \<Rightarrow>
          (if turn_id \<noteq> th_turn_id h
           then Inl (ContextInspectRequestError IR_INVALID_REF ''Trace ref does not belong to the active Turn'' ref)
           else if ref = head_ref h then Inr ref
           else if py_startswith ref (head_ref h @ ''#entry/'')
           then (if list_ex (\<lambda>e. te_entry_id e = drop (length (head_ref h @ ''#entry/'')) ref) (th_entries h)
                 then Inr ref
                 else Inl (ContextInspectRequestError IR_UNKNOWN_REF ''Unknown trace entry'' ref))
           else if py_startswith ref (head_ref h @ ''#action/'')
           then (let value = py_removeprefix ref (head_ref h @ ''#action/'') in
                 if \<not> ascii_decimal value
                 then Inl (ContextInspectRequestError IR_UNKNOWN_REF ''Unknown trace action'' ref)
                 else case py_int_digits value of
                   None \<Rightarrow> Inl (PyValueError ''Exceeds the limit for integer string conversion'')
                 | Some n \<Rightarrow>
                     (if n < length (th_actions h) then Inr ref
                      else Inl (ContextInspectRequestError IR_UNKNOWN_REF ''Unknown trace action'' ref)))
           else if py_startswith ref (head_ref h @ ''#input/'') then Inr ref
           else bind_r (node_for_ref ref h) (\<lambda>_. Inr ref)))"

definition head_payload :: "trace_heap \<Rightarrow> json_object" where
  "head_payload h =
     [(''kind'', JStr ''context_trace_head''), (''ref'', JStr (head_ref h)),
      (''nodes'', JArr (map (\<lambda>n. JObj (node_to_header (th_turn_id h) n)) (nodes_of h (th_roots h))))]"

definition inspect_ref :: "string \<Rightarrow> trace_heap \<Rightarrow> json_object context_result" where
  "inspect_ref ref h =
     (if ref = head_ref h then Inr (head_payload h)
      else bind_r (node_for_ref ref h) (\<lambda>n.
        if hn_kind n = NK_LEAF then Inr [(''kind'', JStr ''context_trace_leaf''), (''ref'', JStr ref)]
        else Inr [(''kind'', JStr ''context_trace_branch''), (''ref'', JStr ref),
          (''nodes'', JArr (map (\<lambda>c. JObj (node_to_header (th_turn_id h) c)) (nodes_of h (hn_child_ids n))))]))"

definition leaf_entries :: "string \<Rightarrow> trace_heap \<Rightarrow> trace_entry list context_result" where
  "leaf_entries ref h =
     bind_r (node_for_ref ref h) (\<lambda>n.
       if hn_kind n \<noteq> NK_LEAF
       then Inl (ContextInspectRequestError IR_REF_NOT_LEAF
         ''Context inspect requires a leaf ref for interaction content'' ref)
       else Inr (entries_of h (hn_entry_ids n)))"

text \<open>
  The walk of \<open>entries_for_ref\<close>: a stack of node identities, popped from its end. Every node is
  popped at most once below a given one, so as many rounds as there are nodes suffice.
\<close>

fun collect_ids :: "nat \<Rightarrow> (string \<times> heap_node) list \<Rightarrow> string list \<Rightarrow> string list \<Rightarrow> string list" where
  "collect_ids fuel nodes [] ids = ids"
| "collect_ids 0 nodes pending ids = ids"
| "collect_ids (Suc fuel) nodes pending ids =
     (case map_of nodes (last pending) of
        None \<Rightarrow> collect_ids fuel nodes (butlast pending) ids
      | Some child \<Rightarrow>
          collect_ids fuel nodes (butlast pending @ hn_child_ids child) (ids @ hn_entry_ids child))"

definition entries_for_ref :: "string \<Rightarrow> trace_heap \<Rightarrow> trace_entry list context_result" where
  "entries_for_ref ref h =
     (if ref = head_ref h then Inr (th_entries h)
      else
        (let prefix = head_ref h @ ''#entry/'' in
         if py_startswith ref prefix
         then
           (let found = filter (\<lambda>e. te_entry_id e = drop (length prefix) ref) (th_entries h)
            in if found \<noteq> [] then Inr found
               else Inl (ContextInspectRequestError IR_UNKNOWN_REF ''Unknown trace entry'' ref))
         else bind_r (node_for_ref ref h) (\<lambda>n.
           if hn_kind n = NK_LEAF then leaf_entries ref h
           else (let ids = collect_ids (length (th_nodes h)) (th_nodes h) (hn_child_ids n) []
                 in Inr (filter (\<lambda>e. te_entry_id e \<in> set ids) (th_entries h))))))"

section \<open>Compaction\<close>

text \<open>Entries of one Cycle go together; an entry outside a Cycle is a group of its own.\<close>

fun collect_group :: "string \<Rightarrow> trace_entry list \<Rightarrow> trace_entry list \<Rightarrow> trace_entry list" where
  "collect_group cycle_id grp [] = grp"
| "collect_group cycle_id grp (e # es) =
     (if grp \<noteq> [] \<and> te_cycle_id e \<noteq> cycle_id then grp
      else if cycle_id = [] then grp @ [e]
      else collect_group cycle_id (grp @ [e]) es)"

lemma collect_group_takeWhile:
  "c \<noteq> [] \<Longrightarrow> collect_group c grp es = grp @
     (if grp = [] then (case es of [] \<Rightarrow> [] | e # rest \<Rightarrow> e # takeWhile (\<lambda>e. te_cycle_id e = c) rest)
      else takeWhile (\<lambda>e. te_cycle_id e = c) es)"
  by (induction c grp es rule: collect_group.induct) (auto split: list.splits)

lemma collect_group_first:
  "collect_group c [] (e # es) = e # (if c = [] then [] else takeWhile (\<lambda>e. te_cycle_id e = c) es)"
  by (cases "c = []") (simp_all add: collect_group_takeWhile)

lemma collect_group_nonempty: "0 < length (collect_group c [] (e # es))"
  by (simp add: collect_group_first del: collect_group.simps)

function select_groups ::
  "string list \<Rightarrow> nat \<Rightarrow> nat \<Rightarrow> trace_entry list \<Rightarrow> nat \<Rightarrow> nat \<Rightarrow> trace_entry list" where
  "select_groups protected limit target [] index chars = []"
| "select_groups protected limit target (e # es) index chars =
     (let grp = collect_group (te_cycle_id e) [] (e # es);
          group_end = index + length grp;
          chars' = chars + sum_list (map (\<lambda>x. message_chars (te_message x)) grp)
      in if group_end > limit \<or> list_ex (\<lambda>x. te_entry_id x \<in> set protected) grp then []
         else if chars' \<ge> target then grp
         else grp @ select_groups protected limit target (drop (length grp) (e # es)) group_end chars')"
  by pat_completeness auto
termination
  by (relation "measure (\<lambda>(p, l, t, es, i, c). length es)") 
    (auto simp del: collect_group.simps intro!: diff_less collect_group_nonempty [unfolded length_greater_0_conv])

definition take_compaction_entries :: "nat \<Rightarrow> nat \<Rightarrow> trace_heap \<Rightarrow> trace_heap \<times> trace_entry list" where
  "take_compaction_entries required_chars limit h =
     (let selected = select_groups (th_protected h) limit (max required_chars (th_chunk_chars h))
            (hot_entries h) 0 0
      in (h\<lparr>th_hot := drop (length selected) (th_hot h)\<rparr>, selected))"

definition append_leaf :: "trace_entry list \<Rightarrow> trace_heap \<Rightarrow> trace_heap" where
  "append_leaf es h =
     (let node_id = show_nat (length (th_nodes h) + 1);
          node = \<lparr>hn_node_id = node_id, hn_kind = NK_LEAF, hn_level = 0,
            hn_entry_ids = map te_entry_id es, hn_child_ids = [],
            hn_cycle_ids = from_keys [] (filter (\<lambda>c. c \<noteq> []) (map te_cycle_id es)),
            hn_trace_kinds = sorted_set (map (\<lambda>e. trace_kind_value (te_kind e)) es),
            hn_action_names = sorted_set (entry_action_names es),
            hn_char_count = sum_list (map (\<lambda>e. message_chars (te_message e)) es),
            hn_clue = take 360 (py_join ''; '' (map entry_clue es))\<rparr>
      in h\<lparr>th_nodes := AList.update node_id node (th_nodes h), th_roots := th_roots h @ [node_id]\<rparr>)"

fun append_leaf_nodes :: "trace_entry list \<Rightarrow> trace_entry list \<Rightarrow> nat \<Rightarrow> trace_heap \<Rightarrow> trace_heap" where
  "append_leaf_nodes [] current current_chars h = (if current \<noteq> [] then append_leaf current h else h)"
| "append_leaf_nodes (e # es) current current_chars h =
     (let n_chars = message_chars (te_message e) in
      if current \<noteq> [] \<and> current_chars + n_chars > th_chunk_chars h
      then append_leaf_nodes es [e] n_chars (append_leaf current h)
      else append_leaf_nodes es (current @ [e]) (current_chars + n_chars) h)"

definition coalesce_once :: "trace_heap \<Rightarrow> trace_heap" where
  "coalesce_once h =
     (let child_ids = take (th_branch_factor h) (th_roots h);
          children = nodes_of h child_ids;
          node_id = show_nat (length (th_nodes h) + 1);
          node = \<lparr>hn_node_id = node_id, hn_kind = NK_BRANCH, hn_level = Max (set (map hn_level children)) + 1,
            hn_entry_ids = [], hn_child_ids = child_ids,
            hn_cycle_ids = from_keys [] (concat (map hn_cycle_ids children)),
            hn_trace_kinds = sorted_set (concat (map hn_trace_kinds children)),
            hn_action_names = sorted_set (concat (map hn_action_names children)),
            hn_char_count = sum_list (map hn_char_count children),
            hn_clue = take 360 (py_join ''; '' (map hn_clue children))\<rparr>
      in h\<lparr>th_nodes := AList.update node_id node (th_nodes h),
           th_roots := node_id # drop (th_branch_factor h) (th_roots h)\<rparr>)"

text \<open>The while loop of \<open>_coalesce_roots\<close>; every round removes a root, since a branch takes two or more.\<close>

fun coalesce_rounds :: "nat \<Rightarrow> trace_heap \<Rightarrow> trace_heap" where
  "coalesce_rounds 0 h = h"
| "coalesce_rounds (Suc fuel) h =
     (if length (th_roots h) \<ge> th_branch_factor h then coalesce_rounds fuel (coalesce_once h) else h)"

definition coalesce_roots :: "trace_heap \<Rightarrow> trace_heap" where
  "coalesce_roots h = coalesce_rounds (length (th_roots h)) h"

definition foldable :: "trace_heap \<Rightarrow> trace_entry \<Rightarrow> bool" where
  "foldable h e = (te_visible_overlay e \<noteq> None \<and> te_entry_id e \<notin> set (th_protected h))"

definition fold_overlays :: "trace_heap \<Rightarrow> trace_heap \<times> nat" where
  "fold_overlays h =
     (h\<lparr>th_entries := map (\<lambda>e. if foldable h e then e\<lparr>te_visible_overlay := None\<rparr> else e) (th_entries h)\<rparr>,
      length (filter (foldable h) (th_entries h)))"

definition compact :: "int \<Rightarrow> trace_heap \<Rightarrow> trace_heap \<times> compaction_report context_result" where
  "compact required_chars h =
     (if required_chars < 0 then (h, Inl (ContextContractError ''required_chars cannot be negative''))
      else
        (let before_chars = visible_char_count h in
         case fold_overlays h of (h1, folded) \<Rightarrow>
           let reclaimed = int before_chars - int (visible_char_count h1);
               available = length (th_hot h1) - th_min_hot_entries h1
           in case (if reclaimed < required_chars \<and> available > 0
                    then (case take_compaction_entries (nat (required_chars - reclaimed)) available h1 of
                            (h2, compacted) \<Rightarrow>
                              (let h3 = coalesce_roots (append_leaf_nodes compacted [] 0 h2)
                               in (h3, compacted, int before_chars - int (visible_char_count h3))))
                    else (h1, [], reclaimed)) of
                (h', compacted, reclaimed') \<Rightarrow>
                  (h', Inr \<lparr>rp_changed = (folded > 0 \<or> compacted \<noteq> []), rp_compacted_count = length compacted,
                     rp_folded_overlay_count = folded, rp_reclaimed_chars = nat (max 0 reclaimed'),
                     rp_remaining_hot_count = length (th_hot h'),
                     rp_node_refs = map (node_ref (th_turn_id h')) (th_roots h')\<rparr>)))"

section \<open>Sealing\<close>

record sealed_trace =
  st_turn_id :: string
  st_entries :: "trace_entry list"
  st_actions :: "trace_action list"
  st_timeline :: "trace_fact list"

definition mk_sealed_trace :: "sealed_trace \<Rightarrow> sealed_trace context_result" where
  "mk_sealed_trace s =
     (if st_turn_id s = [] then Inl (ContextInvariantError ''SealedTurnTrace.turn_id must be non-empty'')
      else if map tf_sequence (st_timeline s) \<noteq> [1..<length (st_timeline s) + 1]
      then Inl (ContextInvariantError ''Sealed Trace requires ordered fact references'')
      else if length (remdups (map (\<lambda>a. (ta_cycle_id a, ac_sequence (ta_call a))) (st_actions s)))
        \<noteq> length (st_actions s)
      then Inl (ContextInvariantError ''Sealed Trace contains duplicate Action identities'')
      else if list_ex (\<lambda>a. ta_state a = ES_REQUESTED \<or> ta_state a = ES_STARTED) (st_actions s)
      then Inl (ContextInvariantError ''Sealed Trace contains unsettled Actions'')
      else Inr s)"

fun seal_actions ::
  "(action_key \<times> trace_action) list \<Rightarrow> trace_heap \<Rightarrow> trace_heap \<times> unit context_result" where
  "seal_actions [] h = (h, Inr ())"
| "seal_actions ((key, item) # items) h =
     (if ta_state item = ES_REQUESTED
      then (case mk_trace_action (item\<lparr>ta_state := ES_NOT_EXECUTED\<rparr>) of
              Inl e \<Rightarrow> (h, Inl e)
            | Inr a \<Rightarrow>
                (case settle_action key a FK_ACTION_NOT_EXECUTED h of
                   (h1, Inl e) \<Rightarrow> (h1, Inl e)
                 | (h1, Inr _) \<Rightarrow> seal_actions items h1))
      else seal_actions items h)"

definition seal :: "trace_heap \<Rightarrow> trace_heap \<times> sealed_trace context_result" where
  "seal h =
     (case seal_actions (th_actions h) h of
        (h1, Inl e) \<Rightarrow> (h1, Inl e)
      | (h1, Inr _) \<Rightarrow>
          (h1, mk_sealed_trace \<lparr>st_turn_id = th_turn_id h1, st_entries = th_entries h1,
             st_actions = map snd (th_actions h1), st_timeline = th_timeline h1\<rparr>))"

section \<open>Pending inputs\<close>

definition mk_pending_input :: "pending_input \<Rightarrow> pending_input context_result" where
  "mk_pending_input item =
     (if pn_input_id item = [] then Inl (ContextInvariantError ''PendingInput.input_id must be non-empty'')
      else if pn_text item = [] then Inl (ContextInvariantError ''PendingInput.text must be non-empty'')
      else Inr item)"

text \<open>\<open>PendingInputs.add\<close>: an empty identity becomes a fresh one.\<close>

definition add_input ::
  "string \<Rightarrow> pending_input \<Rightarrow> pending_input list \<Rightarrow> pending_input list \<times> pending_input context_result" where
  "add_input fresh raw inputs =
     (if pn_text raw = [] then (inputs, Inl (ContextContractError ''Pending input text must be non-empty''))
      else case mk_pending_input (raw\<lparr>pn_input_id :=
             (if pn_input_id raw = [] then ''input_'' @ fresh else pn_input_id raw)\<rparr>) of
        Inl e \<Rightarrow> (inputs, Inl e)
      | Inr item \<Rightarrow> (inputs @ [item], Inr item))"

definition unmerged :: "pending_input list \<Rightarrow> pending_input list" where
  "unmerged inputs = filter (\<lambda>i. \<not> pn_merged i) inputs"

definition mark_merged ::
  "string list \<Rightarrow> pending_input list \<Rightarrow> pending_input list \<times> unit context_result" where
  "mark_merged ids inputs =
     (case sorted_set (filter (\<lambda>i. i \<notin> set (map pn_input_id inputs)) ids) of
        x # _ \<Rightarrow> (inputs, Inl (ContextContractError (''Unknown pending input id: '' @ x)))
      | [] \<Rightarrow> (map (\<lambda>i. if pn_input_id i \<in> set ids then i\<lparr>pn_merged := True\<rparr> else i) inputs, Inr ()))"

definition render_inputs :: "pending_input list \<Rightarrow> message list" where
  "render_inputs inputs = map (\<lambda>i. user_from_text (pn_text i) ''user_input'') (filter pn_merged inputs)"

end
