(* ===== verification/Trace_Heap.thy ===== *)
theory Trace_Heap
  imports Trace
begin

text \<open>
  The compact hierarchy of the trace: what a node stands for (its fringe), the layout invariant of
  the heap (numbered entries and nodes, roots and hot entries covering every entry in order), and
  its preservation by appending, folding and compacting.
\<close>

section \<open>Fringes\<close>

text \<open>\<open>fringe nodes id k es\<close>: below \<open>id\<close> there are \<open>k\<close> nodes and, in order, the entries \<open>es\<close>.\<close>

inductive fringe :: "(string \<times> heap_node) list \<Rightarrow> string \<Rightarrow> nat \<Rightarrow> string list \<Rightarrow> bool"
  for nodes where
  leaf: "map_of nodes i = Some n \<Longrightarrow> hn_kind n = NK_LEAF \<Longrightarrow> hn_child_ids n = []
     \<Longrightarrow> fringe nodes i 1 (hn_entry_ids n)"
| branch: "map_of nodes i = Some n \<Longrightarrow> hn_kind n = NK_BRANCH \<Longrightarrow> hn_entry_ids n = []
     \<Longrightarrow> list_all2 (\<lambda>c (k, es). fringe nodes c k es) (hn_child_ids n) subs
     \<Longrightarrow> fringe nodes i (Suc (sum_list (map fst subs))) (concat (map snd subs))"
  monos list_all2_mono

definition forest :: "(string \<times> heap_node) list \<Rightarrow> string list \<Rightarrow> (nat \<times> string list) list \<Rightarrow> bool" where
  "forest nodes roots subs = list_all2 (\<lambda>c (k, es). fringe nodes c k es) roots subs"

lemma fringe_weaken:
  assumes "fringe nodes i k es" and "\<And>j n. map_of nodes j = Some n \<Longrightarrow> map_of nodes' j = Some n"
  shows "fringe nodes' i k es"
  using assms(1)
proof induction
  case (leaf i n)
  then show ?case by (intro fringe.leaf assms(2))
next
  case (branch i n subs)
  then show ?case
    by (intro fringe.branch assms(2)) (auto elim!: list_all2_mono)
qed

lemma forest_weaken:
  assumes "forest nodes roots subs" and "\<And>j n. map_of nodes j = Some n \<Longrightarrow> map_of nodes' j = Some n"
  shows "forest nodes' roots subs"
  using assms(1) unfolding forest_def
  by (auto elim!: list_all2_mono intro: fringe_weaken assms(2))

lemma forest_append: "forest nodes roots subs \<Longrightarrow> forest nodes roots' subs'
  \<Longrightarrow> forest nodes (roots @ roots') (subs @ subs')"
  by (simp add: forest_def list_all2_appendI)

section \<open>The layout invariant\<close>

definition numbered :: "nat \<Rightarrow> string list" where
  "numbered n = map show_nat [1..<Suc n]"

lemma numbered_Suc: "numbered (Suc n) = numbered n @ [show_nat (Suc n)]"
  by (simp add: numbered_def)

lemma distinct_numbered: "distinct (numbered n)"
  by (simp add: numbered_def distinct_map inj_on_def)

lemma fresh_number: "show_nat (Suc n) \<notin> set (numbered n)"
  using distinct_numbered [of "Suc n"] by (simp add: numbered_Suc)

lemma length_numbered [simp]: "length (numbered n) = n"
  by (simp add: numbered_def)

definition entry_ids :: "trace_heap \<Rightarrow> string list" where
  "entry_ids h = map te_entry_id (th_entries h)"

definition nodes_numbered :: "trace_heap \<Rightarrow> bool" where
  "nodes_numbered h = (dict_keys (th_nodes h) = numbered (length (th_nodes h)))"

text \<open>
  The roots stand for all the nodes and, in order, for the entry identities \<open>ids\<close>; what any node
  stands for is a segment of them.
\<close>

definition stands_for :: "trace_heap \<Rightarrow> string list \<Rightarrow> bool" where
  "stands_for h ids = (nodes_numbered h
     \<and> (\<exists>subs. forest (th_nodes h) (th_roots h) subs
          \<and> sum_list (map fst subs) = length (th_nodes h) \<and> concat (map snd subs) = ids)
     \<and> list_all (\<lambda>i. \<exists>k es pre post. fringe (th_nodes h) i k es \<and> k \<le> length (th_nodes h)
          \<and> ids = pre @ es @ post) (dict_keys (th_nodes h))
     \<and> list_all (\<lambda>n. is_ok (mk_heap_node n)) (map snd (th_nodes h)))"

definition layout_inv :: "trace_heap \<Rightarrow> bool" where
  "layout_inv h =
     (entry_ids h = numbered (length (th_entries h))
      \<and> (\<exists>cold. stands_for h cold \<and> cold @ th_hot h = entry_ids h)
      \<and> 2 \<le> th_branch_factor h \<and> length (th_roots h) < th_branch_factor h
      \<and> set (th_protected h) \<subseteq> set (th_hot h))"

lemma layoutE:
  assumes "layout_inv h"
  obtains cold where "entry_ids h = numbered (length (th_entries h))" "stands_for h cold"
    "cold @ th_hot h = entry_ids h" "2 \<le> th_branch_factor h" "length (th_roots h) < th_branch_factor h"
    "set (th_protected h) \<subseteq> set (th_hot h)"
  using assms by (auto simp: layout_inv_def)

section \<open>Lookups\<close>

lemma entry_of_mem:
  assumes "distinct (entry_ids h)" and "e \<in> set (th_entries h)"
  shows "entry_of h (te_entry_id e) = Some e"
proof -
  have "\<exists>x. entry_of h (te_entry_id e) = Some x"
  proof (rule ccontr)
    assume "\<not> ?thesis"
    then have "entry_of h (te_entry_id e) = None" by simp
    with assms(2) show False by (auto simp: entry_of_def find_None_iff)
  qed
  then obtain x where x: "entry_of h (te_entry_id e) = Some x" ..
  then have "x \<in> set (th_entries h)" "te_entry_id x = te_entry_id e"
    by (auto simp: entry_of_def dest: find_Some_mem)
  with assms have "x = e" by (auto simp: entry_ids_def distinct_map inj_on_def)
  with x show ?thesis by simp
qed

lemma entries_of_all:
  assumes "distinct (entry_ids h)" and "set es \<subseteq> set (th_entries h)"
  shows "entries_of h (map te_entry_id es) = es"
  using assms(2)
  by (induction es) (simp_all add: entries_of_def map_filter_simps entry_of_mem [OF assms(1)])

lemma entries_of_ids:
  assumes "distinct (entry_ids h)" and "set ids \<subseteq> set (entry_ids h)"
  shows "map te_entry_id (entries_of h ids) = ids" "set (entries_of h ids) \<subseteq> set (th_entries h)"
proof -
  from assms(2) have "set ids \<subseteq> te_entry_id ` set (th_entries h)" by (simp add: entry_ids_def)
  then obtain es where "ids = map te_entry_id es" "set es \<subseteq> set (th_entries h)"
    by (induction ids) (auto, metis insert_subset list.set(2) list.simps(9))
  with entries_of_all [OF assms(1)] show "map te_entry_id (entries_of h ids) = ids"
    "set (entries_of h ids) \<subseteq> set (th_entries h)" by simp_all
qed

lemma layout_distinct: "layout_inv h \<Longrightarrow> distinct (entry_ids h)"
  using distinct_numbered by (auto simp: layout_inv_def)

lemma layout_hot: "layout_inv h \<Longrightarrow> set (th_hot h) \<subseteq> set (entry_ids h)"
  by (erule layoutE) (metis Un_upper2 set_append)

lemma hot_entries_ids:
  assumes "layout_inv h"
  shows "map te_entry_id (hot_entries h) = th_hot h"
  unfolding hot_entries_def by (rule entries_of_ids(1) [OF layout_distinct [OF assms] layout_hot [OF assms]])

section \<open>New nodes\<close>

definition add_node :: "heap_node \<Rightarrow> (string \<times> heap_node) list \<Rightarrow> (string \<times> heap_node) list" where
  "add_node n nodes = nodes @ [(show_nat (Suc (length nodes)), n)]"

lemma update_is_add_node:
  assumes "nodes_numbered h"
  shows "AList.update (show_nat (Suc (length (th_nodes h)))) n (th_nodes h) = add_node n (th_nodes h)"
  using assms fresh_number [of "length (th_nodes h)"]
  by (simp add: add_node_def update_fresh nodes_numbered_def)

lemma add_node_lookup:
  assumes "dict_keys nodes = numbered (length nodes)"
  shows "map_of (add_node n nodes) (show_nat (Suc (length nodes))) = Some n"
    "map_of nodes j = Some m \<Longrightarrow> map_of (add_node n nodes) j = Some m"
proof -
  have none: "map_of nodes (show_nat (Suc (length nodes))) = None"
    using assms fresh_number [of "length nodes"] by (metis map_of_eq_None_iff set_map)
  then show "map_of (add_node n nodes) (show_nat (Suc (length nodes))) = Some n"
    by (simp add: add_node_def map_add_def)
  show "map_of nodes j = Some m \<Longrightarrow> map_of (add_node n nodes) j = Some m"
    using none by (auto simp: add_node_def map_add_def)
qed

lemma add_node_numbered:
  "dict_keys nodes = numbered (length nodes)
     \<Longrightarrow> dict_keys (add_node n nodes) = numbered (length (add_node n nodes))"
  by (simp add: add_node_def numbered_Suc)

lemma located_extend:
  assumes num: "dict_keys nodes = numbered (length nodes)"
    and old: "list_all (\<lambda>i. \<exists>k es pre post. fringe nodes i k es \<and> k \<le> length nodes \<and> ids = pre @ es @ post)
      (dict_keys nodes)"
    and new: "fringe (add_node n nodes) (show_nat (Suc (length nodes))) k es" "k \<le> Suc (length nodes)"
      "ids @ extra = pre @ es @ post"
  shows "list_all (\<lambda>i. \<exists>k es pre post. fringe (add_node n nodes) i k es \<and> k \<le> length (add_node n nodes)
      \<and> ids @ extra = pre @ es @ post) (dict_keys (add_node n nodes))"
proof -
  have "\<exists>k es pre post. fringe (add_node n nodes) i k es \<and> k \<le> length (add_node n nodes)
      \<and> ids @ extra = pre @ es @ post" if "i \<in> set (dict_keys nodes)" for i
  proof -
    from old that obtain k es pre post where "fringe nodes i k es" "k \<le> length nodes" "ids = pre @ es @ post"
      unfolding list_all_iff by meson
    then have "fringe (add_node n nodes) i k es" "k \<le> length (add_node n nodes)"
      "ids @ extra = pre @ es @ (post @ extra)"
      using fringe_weaken [OF _ add_node_lookup(2) [OF num]] by (simp_all add: add_node_def)
    then show ?thesis by blast
  qed
  moreover have "\<exists>k es pre post. fringe (add_node n nodes) (show_nat (Suc (length nodes))) k es
      \<and> k \<le> length (add_node n nodes) \<and> ids @ extra = pre @ es @ post"
    using new by (auto simp: add_node_def)
  ultimately show ?thesis by (auto simp: list_all_iff add_node_def)
qed

definition same_trace :: "trace_heap \<Rightarrow> trace_heap \<Rightarrow> bool" where
  "same_trace h h' = (th_entries h' = th_entries h \<and> th_hot h' = th_hot h \<and> th_actions h' = th_actions h
     \<and> th_timeline h' = th_timeline h \<and> th_protected h' = th_protected h \<and> th_turn_id h' = th_turn_id h
     \<and> th_chunk_chars h' = th_chunk_chars h \<and> th_branch_factor h' = th_branch_factor h
     \<and> th_min_hot_entries h' = th_min_hot_entries h)"

lemma same_trace_refl: "same_trace h h"
  by (simp add: same_trace_def)

lemma same_trace_trans: "same_trace h h1 \<Longrightarrow> same_trace h1 h2 \<Longrightarrow> same_trace h h2"
  by (simp add: same_trace_def)

lemma append_leaf_stands:
  assumes inv: "stands_for h ids" and ne: "es \<noteq> []"
  shows "stands_for (append_leaf es h) (ids @ map te_entry_id es) \<and> same_trace h (append_leaf es h)"
proof -
  let ?h = "append_leaf es h" and ?i = "show_nat (Suc (length (th_nodes h)))"
  from inv have num: "nodes_numbered h" and num': "dict_keys (th_nodes h) = numbered (length (th_nodes h))"
    by (simp_all add: stands_for_def nodes_numbered_def)
  obtain n where n: "th_nodes ?h = add_node n (th_nodes h)" "th_roots ?h = th_roots h @ [?i]"
    "hn_kind n = NK_LEAF" "hn_child_ids n = []" "hn_entry_ids n = map te_entry_id es" "is_ok (mk_heap_node n)"
    and same: "same_trace h ?h"
  proof
    let ?n = "snd (last (th_nodes ?h))"
    have eq: "th_nodes ?h = add_node ?n (th_nodes h)"
      by (simp add: append_leaf_def Let_def update_is_add_node [OF num]) (simp add: add_node_def)
    show "th_nodes ?h = add_node ?n (th_nodes h)" by (rule eq)
    show "th_roots ?h = th_roots h @ [?i]" by (simp add: append_leaf_def Let_def)
    have snd: "?n = \<lparr>hn_node_id = ?i, hn_kind = NK_LEAF, hn_level = 0,
            hn_entry_ids = map te_entry_id es, hn_child_ids = [],
            hn_cycle_ids = from_keys [] (filter (\<lambda>c. c \<noteq> []) (map te_cycle_id es)),
            hn_trace_kinds = sorted_set (map (\<lambda>e. trace_kind_value (te_kind e)) es),
            hn_action_names = sorted_set (entry_action_names es),
            hn_char_count = sum_list (map (\<lambda>e. message_chars (te_message e)) es),
            hn_clue = take 360 (py_join ''; '' (map entry_clue es))\<rparr>"
      by (simp add: append_leaf_def Let_def update_is_add_node [OF num]) (simp add: add_node_def)
    show "hn_kind ?n = NK_LEAF" "hn_child_ids ?n = []" "hn_entry_ids ?n = map te_entry_id es" "is_ok (mk_heap_node ?n)"
      using ne by (simp_all add: snd mk_heap_node_def)
    show "same_trace h ?h" by (simp add: same_trace_def append_leaf_def Let_def)
  qed
  have fr: "fringe (th_nodes ?h) ?i 1 (map te_entry_id es)"
    using fringe.leaf [of "th_nodes ?h" ?i n] add_node_lookup(1) [OF num', of n] n by simp
  from inv obtain subs where subs: "forest (th_nodes h) (th_roots h) subs"
    "sum_list (map fst subs) = length (th_nodes h)" "concat (map snd subs) = ids"
    by (auto simp: stands_for_def)
  have "forest (th_nodes ?h) (th_roots ?h) (subs @ [(1, map te_entry_id es)])"
    unfolding n(2) using fr forest_weaken [OF subs(1) add_node_lookup(2) [OF num', of _ _ n]]
    by (intro forest_append) (simp_all add: n(1) forest_def)
  moreover have "nodes_numbered ?h"
    using add_node_numbered [OF num', of n] by (simp add: nodes_numbered_def n(1))
  moreover have "list_all (\<lambda>i. \<exists>k es' pre post. fringe (th_nodes ?h) i k es' \<and> k \<le> length (th_nodes ?h)
      \<and> ids @ map te_entry_id es = pre @ es' @ post) (dict_keys (th_nodes ?h))"
    unfolding n(1)
  proof (rule located_extend [OF num'])
    show "ids @ map te_entry_id es = ids @ map te_entry_id es @ []" by simp
    show "1 \<le> Suc (length (th_nodes h))" by simp
  qed (use inv fr in \<open>simp_all add: stands_for_def n(1)\<close>)
  moreover have "list_all (\<lambda>n. is_ok (mk_heap_node n)) (map snd (th_nodes ?h))"
    using inv n(6) by (simp add: n(1) add_node_def stands_for_def)
  moreover have "sum_list (map fst (subs @ [(1, map te_entry_id es)])) = length (th_nodes ?h)"
    by (simp add: n(1) add_node_def subs(2))
  moreover have "concat (map snd (subs @ [(1 :: nat, map te_entry_id es)])) = ids @ map te_entry_id es"
    by (simp add: subs(3))
  ultimately have "stands_for ?h (ids @ map te_entry_id es)" unfolding stands_for_def by blast
  with same show ?thesis by simp
qed

lemma append_leaf_nodes_stands:
  "stands_for h ids \<Longrightarrow> stands_for (append_leaf_nodes es current n h) (ids @ map te_entry_id (current @ es))
     \<and> same_trace h (append_leaf_nodes es current n h)"
proof (induction es arbitrary: current n h ids)
  case Nil
  show ?case
  proof (cases "current = []")
    case True
    with Nil show ?thesis by (simp add: same_trace_refl)
  next
    case False
    with append_leaf_stands [OF Nil False] show ?thesis by simp
  qed
next
  case (Cons e es)
  let ?n = "message_chars (te_message e)"
  show ?case
  proof (cases "current \<noteq> [] \<and> n + ?n > th_chunk_chars h")
    case True
    with append_leaf_stands [OF Cons.prems, of current]
    have leaf: "stands_for (append_leaf current h) (ids @ map te_entry_id current)"
      and same: "same_trace h (append_leaf current h)" by blast+
    from Cons.IH [OF leaf, of "[e]" ?n] same_trace_trans [OF same] True
    show ?thesis by simp
  next
    case False
    have "append_leaf_nodes (e # es) current n h = append_leaf_nodes es (current @ [e]) (n + ?n) h"
      using False by (auto simp: Let_def)
    with Cons.IH [OF Cons.prems, of "current @ [e]" "n + ?n"] show ?thesis by simp
  qed
qed

lemma forest_take: "forest nodes roots subs \<Longrightarrow> forest nodes (take k roots) (take k subs)"
  "forest nodes roots subs \<Longrightarrow> forest nodes (drop k roots) (drop k subs)"
  by (simp_all add: forest_def)

lemma coalesce_once_stands:
  assumes inv: "stands_for h ids" and len: "th_branch_factor h \<le> length (th_roots h)"
    and bf: "2 \<le> th_branch_factor h"
  shows "stands_for (coalesce_once h) ids \<and> same_trace h (coalesce_once h)
    \<and> length (th_roots (coalesce_once h)) = length (th_roots h) - th_branch_factor h + 1"
proof -
  let ?h = "coalesce_once h" and ?i = "show_nat (Suc (length (th_nodes h)))" and ?b = "th_branch_factor h"
  from inv have num: "nodes_numbered h" and num': "dict_keys (th_nodes h) = numbered (length (th_nodes h))"
    by (simp_all add: stands_for_def nodes_numbered_def)
  define n where "n = snd (last (th_nodes ?h))"
  have nodes: "th_nodes ?h = add_node n (th_nodes h)"
    unfolding n_def by (simp add: coalesce_once_def Let_def update_is_add_node [OF num]) (simp add: add_node_def)
  have roots: "th_roots ?h = ?i # drop ?b (th_roots h)" by (simp add: coalesce_once_def Let_def)
  have node: "hn_kind n = NK_BRANCH" "hn_entry_ids n = []" "hn_child_ids n = take ?b (th_roots h)" "hn_node_id n = ?i"
    unfolding n_def by (simp_all add: coalesce_once_def Let_def update_is_add_node [OF num]) (simp_all add: add_node_def)
  have "take ?b (th_roots h) \<noteq> []" using len bf by (cases "th_roots h") auto
  then have node_ok: "is_ok (mk_heap_node n)" by (simp add: mk_heap_node_def node)
  from inv obtain subs where subs: "forest (th_nodes h) (th_roots h) subs"
    "sum_list (map fst subs) = length (th_nodes h)" "concat (map snd subs) = ids"
    by (auto simp: stands_for_def)
  have fw: "forest (th_nodes ?h) (th_roots h) subs"
    unfolding nodes by (rule forest_weaken [OF subs(1) add_node_lookup(2) [OF num']])
  let ?k = "Suc (sum_list (map fst (take ?b subs)))" and ?es = "concat (map snd (take ?b subs))"
  have fr: "fringe (th_nodes ?h) ?i ?k ?es"
    using forest_take(1) [OF fw, of ?b] add_node_lookup(1) [OF num', of n] node
    by (intro fringe.branch [where n = n]) (simp_all add: nodes forest_def)
  have split: "sum_list (map fst (take ?b subs)) + sum_list (map fst (drop ?b subs)) = length (th_nodes h)"
    "concat (map snd (take ?b subs)) @ concat (map snd (drop ?b subs)) = ids"
    using subs(2,3) by (metis append_take_drop_id map_append sum_list_append,
      metis append_take_drop_id map_append concat_append)
  have "forest (th_nodes ?h) (th_roots ?h) ((?k, ?es) # drop ?b subs)"
    unfolding roots using fr forest_take(2) [OF fw, of ?b] by (simp add: forest_def)
  moreover have "sum_list (map fst ((?k, ?es) # drop ?b subs)) = length (th_nodes ?h)"
    using split(1) by (simp add: nodes add_node_def)
  moreover have "concat (map snd ((?k, ?es) # drop ?b subs)) = ids" using split(2) by simp
  moreover have "nodes_numbered ?h"
    using add_node_numbered [OF num', of n] by (simp add: nodes_numbered_def nodes)
  moreover have "list_all (\<lambda>i. \<exists>k es' pre post. fringe (th_nodes ?h) i k es' \<and> k \<le> length (th_nodes ?h)
      \<and> ids @ [] = pre @ es' @ post) (dict_keys (th_nodes ?h))"
    unfolding nodes
  proof (rule located_extend [OF num'])
    show "ids @ [] = [] @ ?es @ concat (map snd (drop ?b subs))" using split(2) by simp
    show "?k \<le> Suc (length (th_nodes h))" using split(1) by simp
    show "fringe (add_node n (th_nodes h)) ?i ?k ?es" using fr by (simp add: nodes)
  qed (use inv in \<open>simp add: stands_for_def\<close>)
  moreover have "list_all (\<lambda>n. is_ok (mk_heap_node n)) (map snd (th_nodes ?h))"
    using inv node_ok by (simp add: nodes add_node_def stands_for_def)
  ultimately have "stands_for ?h ids" unfolding stands_for_def append_Nil2 by blast
  moreover have "same_trace h ?h" by (simp add: same_trace_def coalesce_once_def Let_def)
  moreover have "length (th_roots ?h) = length (th_roots h) - ?b + 1" by (simp add: roots)
  ultimately show ?thesis by simp
qed

lemma coalesce_rounds_stands:
  "stands_for h ids \<Longrightarrow> 2 \<le> th_branch_factor h \<Longrightarrow>
     stands_for (coalesce_rounds fuel h) ids \<and> same_trace h (coalesce_rounds fuel h)"
proof (induction fuel arbitrary: h)
  case 0
  then show ?case by (simp add: same_trace_refl)
next
  case (Suc fuel)
  show ?case
  proof (cases "length (th_roots h) \<ge> th_branch_factor h")
    case True
    with coalesce_once_stands [OF Suc.prems(1)] Suc.prems(2)
    have once: "stands_for (coalesce_once h) ids" "same_trace h (coalesce_once h)" by simp_all
    then have "2 \<le> th_branch_factor (coalesce_once h)" using Suc.prems(2) by (simp add: same_trace_def)
    from Suc.IH [OF once(1) this] same_trace_trans [OF once(2)] True show ?thesis by simp
  qed (use Suc.prems in \<open>simp add: same_trace_refl\<close>)
qed

text \<open>The fuel is enough: each round removes at least one root.\<close>

lemma coalesce_rounds_enough:
  "stands_for h ids \<Longrightarrow> 2 \<le> th_branch_factor h \<Longrightarrow> length (th_roots h) \<le> fuel
     \<Longrightarrow> length (th_roots (coalesce_rounds fuel h)) < th_branch_factor h"
proof (induction fuel arbitrary: h)
  case (Suc fuel)
  show ?case
  proof (cases "length (th_roots h) \<ge> th_branch_factor h")
    case True
    with coalesce_once_stands [OF Suc.prems(1)] Suc.prems(2)
    have once: "stands_for (coalesce_once h) ids" "same_trace h (coalesce_once h)"
      "length (th_roots (coalesce_once h)) = length (th_roots h) - th_branch_factor h + 1" by simp_all
    then have bf: "th_branch_factor (coalesce_once h) = th_branch_factor h" by (simp add: same_trace_def)
    have "length (th_roots (coalesce_once h)) \<le> fuel" using once(3) True Suc.prems(2,3) by linarith
    with Suc.IH [OF once(1)] Suc.prems(2) bf True show ?thesis by simp
  qed simp
qed simp

lemma coalesce_roots_stands:
  assumes "stands_for h ids" and "2 \<le> th_branch_factor h"
  shows "stands_for (coalesce_roots h) ids" "same_trace h (coalesce_roots h)"
    "length (th_roots (coalesce_roots h)) < th_branch_factor h"
  using coalesce_rounds_stands [OF assms] coalesce_rounds_enough [OF assms order_refl]
  by (simp_all add: coalesce_roots_def)

section \<open>Selecting what to compact\<close>

lemma collect_group_prefix:
  "collect_group c [] (e # es) = take (length (collect_group c [] (e # es))) (e # es)"
proof (cases "c = []")
  case False
  have "takeWhile (\<lambda>x. te_cycle_id x = c) es = take (length (takeWhile (\<lambda>x. te_cycle_id x = c) es)) es"
    by (rule takeWhile_eq_take)
  with False show ?thesis unfolding collect_group_first by simp
qed (simp add: collect_group_first del: collect_group.simps)

lemma collect_group_boundary:
  assumes "c \<noteq> []" and "n = length (collect_group c [] (e # es))" and "te_cycle_id e = c"
    and "n < length (e # es)"
  shows "te_cycle_id ((e # es) ! n) \<noteq> c"
proof -
  have n: "n = Suc (length (takeWhile (\<lambda>x. te_cycle_id x = c) es))"
    using assms(1,2) by (simp add: collect_group_first del: collect_group.simps)
  then have "length (takeWhile (\<lambda>x. te_cycle_id x = c) es) < length es" using assms(4) by simp
  from nth_length_takeWhile [OF this] n show ?thesis by simp
qed

declare collect_group.simps [simp del]

text \<open>
  The selection is a prefix of the hot entries, within the limit, free of protected entries, and
  it ends where a Cycle ends.
\<close>

lemma select_groups_spec:
  "\<exists>rest. es = select_groups protected limit target es index chars @ rest
     \<and> list_all (\<lambda>e. te_entry_id e \<notin> set protected) (select_groups protected limit target es index chars)
     \<and> (select_groups protected limit target es index chars \<noteq> []
          \<longrightarrow> index + length (select_groups protected limit target es index chars) \<le> limit)
     \<and> (\<forall>a b. select_groups protected limit target es index chars \<noteq> []
          \<longrightarrow> last (select_groups protected limit target es index chars) = a \<longrightarrow> rest \<noteq> [] \<longrightarrow> hd rest = b
          \<longrightarrow> te_cycle_id a \<noteq> te_cycle_id b \<or> te_cycle_id a = [])"
proof (induction protected limit target es index chars rule: select_groups.induct)
  case (2 protected limit target e es index chars)
  let ?grp = "collect_group (te_cycle_id e) [] (e # es)"
  let ?n = "length ?grp"
  let ?chars = "chars + sum_list (map (\<lambda>x. message_chars (te_message x)) ?grp)"
  have grp: "?grp = take ?n (e # es)" by (rule collect_group_prefix)
  have same_cycle: "te_cycle_id x = te_cycle_id e" if "x \<in> set ?grp" for x
    using that unfolding collect_group_first by (auto dest: set_takeWhileD split: if_splits)
  have boundary: "te_cycle_id (last ?grp) \<noteq> te_cycle_id (hd (drop ?n (e # es))) \<or> te_cycle_id (last ?grp) = []"
    if "drop ?n (e # es) \<noteq> []"
  proof (cases "te_cycle_id e = []")
    case True
    have "?grp \<noteq> []" using collect_group_nonempty by simp
    then have "last ?grp \<in> set ?grp" by (rule last_in_set)
    with same_cycle True show ?thesis by metis
  next
    case False
    have lt: "?n < length (e # es)" using that by simp
    then have "te_cycle_id ((e # es) ! ?n) \<noteq> te_cycle_id e"
      by (intro collect_group_boundary [OF False refl refl])
    moreover have "hd (drop ?n (e # es)) = (e # es) ! ?n" by (rule hd_drop_conv_nth [OF lt])
    moreover have "?grp \<noteq> []" using collect_group_nonempty by simp
    then have "te_cycle_id (last ?grp) = te_cycle_id e" by (intro same_cycle last_in_set)
    ultimately show ?thesis by metis
  qed
  consider (stop) "index + ?n > limit \<or> list_ex (\<lambda>x. te_entry_id x \<in> set protected) ?grp"
    | (enough) "\<not> (index + ?n > limit \<or> list_ex (\<lambda>x. te_entry_id x \<in> set protected) ?grp)" "?chars \<ge> target"
    | (again) "\<not> (index + ?n > limit \<or> list_ex (\<lambda>x. te_entry_id x \<in> set protected) ?grp)" "\<not> ?chars \<ge> target"
    by blast
  then show ?case
  proof cases
    case stop
    then have "select_groups protected limit target (e # es) index chars = []" by (simp add: Let_def)
    then show ?thesis by simp
  next
    case enough
    then have eq: "select_groups protected limit target (e # es) index chars = ?grp" by (simp add: Let_def)
    have "e # es = ?grp @ drop ?n (e # es)" using grp by (metis append_take_drop_id)
    moreover have "list_all (\<lambda>x. te_entry_id x \<notin> set protected) ?grp"
      using enough(1) by (simp add: list_ex_iff list_all_iff)
    ultimately show ?thesis unfolding eq using enough(1) boundary by (intro exI [of _ "drop ?n (e # es)"]) auto
  next
    case again
    let ?rec = "select_groups protected limit target (drop ?n (e # es)) (index + ?n) ?chars"
    have eq: "select_groups protected limit target (e # es) index chars = ?grp @ ?rec"
      using again by (simp add: Let_def)
    from 2 [OF refl refl refl again] obtain rest where rest: "drop ?n (e # es) = ?rec @ rest"
      "list_all (\<lambda>e. te_entry_id e \<notin> set protected) ?rec" "?rec \<noteq> [] \<longrightarrow> index + ?n + length ?rec \<le> limit"
      "\<forall>a b. ?rec \<noteq> [] \<longrightarrow> last ?rec = a \<longrightarrow> rest \<noteq> [] \<longrightarrow> hd rest = b
          \<longrightarrow> te_cycle_id a \<noteq> te_cycle_id b \<or> te_cycle_id a = []"
      by blast
    have "e # es = ?grp @ ?rec @ rest" using grp rest(1) by (metis append_take_drop_id)
    moreover have "list_all (\<lambda>x. te_entry_id x \<notin> set protected) (?grp @ ?rec)"
      using again(1) rest(2) by (auto simp: list_ex_iff list_all_iff)
    moreover have "index + length (?grp @ ?rec) \<le> limit" using again(1) rest(3) by (cases "?rec = []") auto
    moreover have "te_cycle_id (last (?grp @ ?rec)) \<noteq> te_cycle_id (hd rest) \<or> te_cycle_id (last (?grp @ ?rec)) = []"
      if "rest \<noteq> []"
      using that rest(1,4) boundary by (cases "?rec = []") auto
    ultimately show ?thesis unfolding eq by (intro exI [of _ rest]) auto
  qed
qed simp

section \<open>The operations keep the layout\<close>

lemma stands_for_cong:
  "th_nodes h' = th_nodes h \<Longrightarrow> th_roots h' = th_roots h \<Longrightarrow> stands_for h' ids = stands_for h ids"
  unfolding stands_for_def nodes_numbered_def by simp

lemma layout_cong:
  assumes "entry_ids h' = entry_ids h" "th_nodes h' = th_nodes h" "th_roots h' = th_roots h"
    "th_hot h' = th_hot h" "th_branch_factor h' = th_branch_factor h" "set (th_protected h') \<subseteq> set (th_protected h)"
    and "layout_inv h"
  shows "layout_inv h'"
proof -
  have "length (th_entries h') = length (th_entries h)"
    using assms(1) unfolding entry_ids_def by (metis length_map)
  with assms stands_for_cong [OF assms(2,3)] show ?thesis by (auto simp: layout_inv_def)
qed

lemma fold_overlays_layout: "layout_inv h \<Longrightarrow> layout_inv (fst (fold_overlays h))"
  by (rule layout_cong) (simp_all add: fold_overlays_def entry_ids_def cong: if_cong)

lemma mark_consumed_layout: "layout_inv h \<Longrightarrow> layout_inv (mark_consumed messages h)"
  by (rule layout_cong) (auto simp: mark_consumed_def entry_ids_def)

lemma append_entry_cases:
  obtains (rejected) e where "append_entry raw h = (h, Inl e)"
  | (appended) h' where "append_entry raw h = (h', Inr (raw\<lparr>te_entry_id := show_nat (Suc (length (th_entries h)))\<rparr>))"
      "th_entries h' = th_entries h @ [raw\<lparr>te_entry_id := show_nat (Suc (length (th_entries h)))\<rparr>]"
      "th_hot h' = th_hot h @ [show_nat (Suc (length (th_entries h)))]"
      "set (th_protected h') \<subseteq> insert (show_nat (Suc (length (th_entries h)))) (set (th_protected h))"
      "set (th_protected h) \<subseteq> set (th_protected h')"
      "te_visible_overlay raw \<noteq> None \<Longrightarrow> show_nat (Suc (length (th_entries h))) \<in> set (th_protected h')"
      "th_nodes h' = th_nodes h" "th_roots h' = th_roots h" "th_actions h' = th_actions h"
      "th_timeline h' = th_timeline h" "th_turn_id h' = th_turn_id h" "th_branch_factor h' = th_branch_factor h"
      "th_chunk_chars h' = th_chunk_chars h" "th_min_hot_entries h' = th_min_hot_entries h"
proof (cases "mk_trace_entry (raw\<lparr>te_entry_id := show_nat (Suc (length (th_entries h)))\<rparr>)")
  case (Inl e)
  then show thesis by (intro rejected) (simp add: append_entry_def)
next
  case (Inr entry)
  then have "entry = raw\<lparr>te_entry_id := show_nat (Suc (length (th_entries h)))\<rparr>"
    by (auto simp: mk_trace_entry_def split: if_splits)
  with Inr show thesis
    by (intro appended [of "fst (append_entry raw h)"]) (auto simp: append_entry_def)
qed

lemma append_entry_layout:
  assumes "layout_inv h"
  shows "layout_inv (fst (append_entry raw h))"
proof (cases raw h rule: append_entry_cases)
  case (rejected e)
  with assms show ?thesis by simp
next
  case (appended h')
  from assms obtain cold where inv: "entry_ids h = numbered (length (th_entries h))" "stands_for h cold"
    "cold @ th_hot h = entry_ids h" "2 \<le> th_branch_factor h" "length (th_roots h) < th_branch_factor h"
    "set (th_protected h) \<subseteq> set (th_hot h)"
    by (rule layoutE)
  have ids: "entry_ids h' = entry_ids h @ [show_nat (Suc (length (th_entries h)))]"
    by (simp add: entry_ids_def appended)
  have "stands_for h' cold" using inv(2) stands_for_cong [OF appended(7,8)] by simp
  moreover have "cold @ th_hot h' = entry_ids h'" using inv(3) by (simp add: ids appended(3))
  moreover have "entry_ids h' = numbered (length (th_entries h'))"
    using inv(1) by (simp add: ids appended(2) numbered_Suc)
  moreover have "set (th_protected h') \<subseteq> set (th_hot h')" using inv(6) appended(4) by (auto simp: appended(3))
  ultimately have "layout_inv h'" using inv(4,5) by (auto simp: layout_inv_def appended)
  with appended(1) show ?thesis by simp
qed

text \<open>What one compaction pass does.\<close>

lemma compact_cases:
  assumes "layout_inv h"
  obtains (refused) e where "compact n h = (h, Inl e)" "n < 0"
  | (folded) report where "compact n h = (fst (fold_overlays h), Inr report)"
      "rp_compacted_count report = 0"
  | (moved) report h' taken where "compact n h = (h', Inr report)"
      "rp_compacted_count report = length taken"
      "\<exists>rest. hot_entries (fst (fold_overlays h)) = taken @ rest \<and> th_hot h' = map te_entry_id rest
         \<and> (\<forall>a b. taken \<noteq> [] \<longrightarrow> last taken = a \<longrightarrow> rest \<noteq> [] \<longrightarrow> hd rest = b
              \<longrightarrow> te_cycle_id a \<noteq> te_cycle_id b \<or> te_cycle_id a = [])"
      "list_all (\<lambda>e. te_entry_id e \<notin> set (th_protected h)) taken"
      "length taken \<le> length (th_hot h) - th_min_hot_entries h"
      "layout_inv h'" "th_entries h' = th_entries (fst (fold_overlays h))" "th_actions h' = th_actions h"
      "th_timeline h' = th_timeline h" "th_protected h' = th_protected h" "th_turn_id h' = th_turn_id h"
      "th_min_hot_entries h' = th_min_hot_entries h" "th_branch_factor h' = th_branch_factor h"
proof -
  let ?h1 = "fst (fold_overlays h)"
  let ?avail = "length (th_hot ?h1) - th_min_hot_entries ?h1"
  let ?rec = "int (visible_char_count h) - int (visible_char_count ?h1)"
  have lay1: "layout_inv ?h1" by (rule fold_overlays_layout [OF assms])
  have frame1: "th_hot ?h1 = th_hot h" "th_protected ?h1 = th_protected h" "th_min_hot_entries ?h1 = th_min_hot_entries h"
    "th_actions ?h1 = th_actions h" "th_timeline ?h1 = th_timeline h" "th_turn_id ?h1 = th_turn_id h"
    "th_branch_factor ?h1 = th_branch_factor h"
    by (simp_all add: fold_overlays_def)
  consider "n < 0" | "\<not> n < 0" "\<not> (?rec < n \<and> 0 < ?avail)" | "\<not> n < 0" "?rec < n \<and> 0 < ?avail" by blast
  then show thesis
  proof cases
    case 1
    then show thesis by (intro refused) (simp_all add: compact_def)
  next
    case 2
    then have "\<exists>report. compact n h = (?h1, Inr report) \<and> rp_compacted_count report = 0"
      by (auto simp: compact_def Let_def split_beta)
    then show thesis using folded by blast
  next
    case 3
    define h2 where "h2 = fst (take_compaction_entries (nat (n - ?rec)) ?avail ?h1)"
    define taken where "taken = snd (take_compaction_entries (nat (n - ?rec)) ?avail ?h1)"
    define h' where "h' = coalesce_roots (append_leaf_nodes taken [] 0 h2)"
    have eq: "\<exists>report. compact n h = (h', Inr report) \<and> rp_compacted_count report = length taken"
      using 3 by (auto simp: compact_def Let_def split_beta h2_def taken_def h'_def)
    let ?sel = "select_groups (th_protected ?h1) ?avail (max (nat (n - ?rec)) (th_chunk_chars ?h1)) (hot_entries ?h1) 0 0"
    have taken: "taken = ?sel" and h2: "h2 = ?h1\<lparr>th_hot := drop (length taken) (th_hot ?h1)\<rparr>"
      by (simp_all add: take_compaction_entries_def taken_def h2_def Let_def)
    from select_groups_spec [of "hot_entries ?h1" "th_protected ?h1" ?avail
        "max (nat (n - ?rec)) (th_chunk_chars ?h1)" 0 0]
    obtain rest where rest': "hot_entries ?h1 = taken @ rest"
      "list_all (\<lambda>e. te_entry_id e \<notin> set (th_protected ?h1)) taken"
      "taken \<noteq> [] \<longrightarrow> length taken \<le> ?avail"
      "\<forall>a b. taken \<noteq> [] \<longrightarrow> last taken = a \<longrightarrow> rest \<noteq> [] \<longrightarrow> hd rest = b
              \<longrightarrow> te_cycle_id a \<noteq> te_cycle_id b \<or> te_cycle_id a = []"
      unfolding taken [symmetric] add_0 by blast
    note rest = rest' [unfolded frame1(2)]
    have hot: "th_hot ?h1 = map te_entry_id taken @ map te_entry_id rest"
      using hot_entries_ids [OF lay1] rest(1) by (metis map_append)
    then have hot2: "th_hot h2 = map te_entry_id rest" by (simp add: h2)
    from lay1 obtain cold where inv: "entry_ids ?h1 = numbered (length (th_entries ?h1))" "stands_for ?h1 cold"
      "cold @ th_hot ?h1 = entry_ids ?h1" "2 \<le> th_branch_factor ?h1" "length (th_roots ?h1) < th_branch_factor ?h1"
      "set (th_protected ?h1) \<subseteq> set (th_hot ?h1)"
      by (rule layoutE)
    have "stands_for h2 cold" using inv(2) stands_for_cong [of h2 ?h1] by (simp add: h2)
    from append_leaf_nodes_stands [OF this, of taken "[]" 0]
    have leaves: "stands_for (append_leaf_nodes taken [] 0 h2) (cold @ map te_entry_id taken)"
      "same_trace h2 (append_leaf_nodes taken [] 0 h2)" by simp_all
    have bf: "2 \<le> th_branch_factor (append_leaf_nodes taken [] 0 h2)"
      using leaves(2) inv(4) by (simp add: same_trace_def h2)
    have roots: "stands_for h' (cold @ map te_entry_id taken)" "same_trace h2 h'"
      "length (th_roots h') < th_branch_factor (append_leaf_nodes taken [] 0 h2)"
      using coalesce_roots_stands [OF leaves(1) bf] same_trace_trans [OF leaves(2)] by (simp_all add: h'_def)
    have same: "th_entries h' = th_entries ?h1" "th_hot h' = map te_entry_id rest" "th_protected h' = th_protected h"
      "th_actions h' = th_actions h" "th_timeline h' = th_timeline h" "th_turn_id h' = th_turn_id h"
      "th_min_hot_entries h' = th_min_hot_entries h" "th_branch_factor h' = th_branch_factor h"
      using roots(2) hot2 frame1 by (simp_all add: same_trace_def h2)
    have prot: "set (th_protected h) \<subseteq> set (map te_entry_id rest)"
      using inv(6) rest(2) unfolding frame1(2) hot by (auto simp: list_all_iff)
    have lay: "layout_inv h'"
      unfolding layout_inv_def
    proof (intro conjI exI)
      show "entry_ids h' = numbered (length (th_entries h'))" using inv(1) by (simp add: entry_ids_def same)
      show "stands_for h' (cold @ map te_entry_id taken)" by (rule roots(1))
      show "(cold @ map te_entry_id taken) @ th_hot h' = entry_ids h'"
        using inv(3) hot by (simp add: same entry_ids_def)
      show "2 \<le> th_branch_factor h'" using inv(4) by (simp add: same frame1)
      show "length (th_roots h') < th_branch_factor h'"
        using roots(3) leaves(2) same(8) frame1(7) by (simp add: same_trace_def h2)
      show "set (th_protected h') \<subseteq> set (th_hot h')" using prot by (simp add: same)
    qed
    from eq obtain report where "compact n h = (h', Inr report)" "rp_compacted_count report = length taken" by blast
    then show thesis
    proof (rule moved)
      show "\<exists>rest. hot_entries ?h1 = taken @ rest \<and> th_hot h' = map te_entry_id rest
         \<and> (\<forall>a b. taken \<noteq> [] \<longrightarrow> last taken = a \<longrightarrow> rest \<noteq> [] \<longrightarrow> hd rest = b
              \<longrightarrow> te_cycle_id a \<noteq> te_cycle_id b \<or> te_cycle_id a = [])"
        using rest(1,4) same(2) by blast
      show "length taken \<le> length (th_hot h) - th_min_hot_entries h"
        using rest(3) frame1(1,3) by (cases "taken = []") simp_all
    qed (simp_all add: lay same rest(2))
  qed
qed

end
