(* ===== verification/Trace_Proofs.thy ===== *)
theory Trace_Proofs
  imports Trace_Heap
begin

text \<open>
  The trace as a machine: the facts and execution states of Action calls, the operations a Turn
  performs, the invariant they keep and what no operation takes back. Properties at the end.
\<close>

section \<open>Action facts\<close>

definition terminal_state :: "execution_state \<Rightarrow> bool" where
  "terminal_state s = (s \<noteq> ES_REQUESTED \<and> s \<noteq> ES_STARTED)"

definition state_le :: "execution_state \<Rightarrow> execution_state \<Rightarrow> bool" where
  "state_le s s' = (s = s' \<or> s = ES_REQUESTED \<or> s = ES_STARTED \<and> s' \<in> {ES_SETTLED, ES_CANCELLED, ES_UNKNOWN})"

definition advances :: "trace_action \<Rightarrow> trace_action \<Rightarrow> bool" where
  "advances a a' = (ta_call a' = ta_call a \<and> ta_cycle_id a' = ta_cycle_id a
     \<and> state_le (ta_state a) (ta_state a') \<and> (terminal_state (ta_state a) \<longrightarrow> a' = a))"

lemma advances_refl: "advances a a"
  by (simp add: advances_def state_le_def)

lemma advances_trans: "advances a b \<Longrightarrow> advances b c \<Longrightarrow> advances a c"
  by (auto simp: advances_def state_le_def terminal_state_def)

definition action_key_of :: "trace_action \<Rightarrow> action_key" where
  "action_key_of a = (ta_cycle_id a, ac_sequence (ta_call a))"

definition action_inv :: "trace_heap \<Rightarrow> bool" where
  "action_inv h = (distinct (dict_keys (th_actions h))
     \<and> list_all (\<lambda>(k, a). k = action_key_of a \<and> is_ok (mk_trace_action a)) (th_actions h)
     \<and> map tf_sequence (th_timeline h) = [1..<Suc (length (th_timeline h))])"

definition canonical :: "trace_entry \<Rightarrow> trace_entry" where
  "canonical e = e\<lparr>te_visible_overlay := None\<rparr>"

text \<open>What a later trace keeps of an earlier one.\<close>

definition extends :: "trace_heap \<Rightarrow> trace_heap \<Rightarrow> bool" where
  "extends h h' =
     ((\<exists>es. map canonical (th_entries h') = map canonical (th_entries h) @ es)
      \<and> (\<exists>fs. th_timeline h' = th_timeline h @ fs)
      \<and> (\<forall>k a. map_of (th_actions h) k = Some a
           \<longrightarrow> (\<exists>a'. map_of (th_actions h') k = Some a' \<and> advances a a'))
      \<and> th_turn_id h' = th_turn_id h \<and> th_min_hot_entries h' = th_min_hot_entries h
      \<and> th_branch_factor h' = th_branch_factor h)"

lemma extends_refl: "extends h h"
  by (auto simp: extends_def advances_refl)

lemma extends_trans:
  assumes "extends h h1" and "extends h1 h2"
  shows "extends h h2"
proof -
  from assms obtain es1 es2 fs1 fs2
    where "map canonical (th_entries h2) = map canonical (th_entries h) @ es1 @ es2"
      and "th_timeline h2 = th_timeline h @ fs1 @ fs2"
    by (auto simp: extends_def)
  moreover have "\<exists>a'. map_of (th_actions h2) k = Some a' \<and> advances a a'"
    if "map_of (th_actions h) k = Some a" for k a
    using assms that advances_trans unfolding extends_def by meson
  ultimately show ?thesis using assms unfolding extends_def by metis
qed

lemma mk_trace_action_same: "mk_trace_action a = Inr b \<Longrightarrow> b = a"
  by (auto simp: mk_trace_action_def split: if_splits option.splits)

lemma mk_trace_fact_same: "mk_trace_fact f = Inr g \<Longrightarrow> g = f"
  by (auto simp: mk_trace_fact_def split: if_splits)

lemma record_fact_cases:
  obtains (rejected) e where "record_fact kind ref c n h = (h, Inl e)"
  | (recorded) f where "record_fact kind ref c n h = (h\<lparr>th_timeline := th_timeline h @ [f]\<rparr>, Inr ())"
      "tf_sequence f = Suc (length (th_timeline h))" "tf_kind f = kind" "tf_ref f = ref" "tf_cycle_id f = c"
proof (cases "mk_trace_fact \<lparr>tf_sequence = length (th_timeline h) + 1, tf_kind = kind, tf_ref = ref,
            tf_cycle_id = c, tf_admission_sequence = n\<rparr>")
  case (Inl e)
  then show thesis by (intro rejected) (simp add: record_fact_def)
next
  case (Inr f)
  with mk_trace_fact_same [OF Inr] show thesis by (intro recorded [of f]) (simp_all add: record_fact_def)
qed

lemma action_ref_ok: "action_ref key h \<noteq> []"
  by (simp add: action_ref_def head_ref_def)

text \<open>Storing a valid action and recording the fact always succeeds.\<close>

lemma settle_action_eq:
  "settle_action key a kind h = (h\<lparr>th_actions := AList.update key a (th_actions h),
     th_timeline := th_timeline h @ [\<lparr>tf_sequence = Suc (length (th_timeline h)), tf_kind = kind,
       tf_ref = action_ref key (h\<lparr>th_actions := AList.update key a (th_actions h)\<rparr>),
       tf_cycle_id = fst key, tf_admission_sequence = None\<rparr>]\<rparr>, Inr ())"
  by (simp add: settle_action_def record_fact_def mk_trace_fact_def action_ref_ok Let_def)

lemma update_list_all:
  "list_all P d \<Longrightarrow> P (k, v) \<Longrightarrow> list_all P (AList.update k v d)"
  by (induction d) auto

lemma put_action_inv:
  assumes "action_inv h" and "key = action_key_of a" and "mk_trace_action a = Inr a"
    and "th_actions h' = AList.update key a (th_actions h)"
    and "th_timeline h' = th_timeline h \<or> (\<exists>f. th_timeline h' = th_timeline h @ [f]
           \<and> tf_sequence f = Suc (length (th_timeline h)))"
  shows "action_inv h'"
  using assms by (auto simp: action_inv_def distinct_update intro!: update_list_all)

lemma put_action_extends:
  assumes "map_of (th_actions h) key = None \<or> (\<exists>p. map_of (th_actions h) key = Some p \<and> advances p a)"
    and "th_actions h' = AList.update key a (th_actions h)"
    and "th_entries h' = th_entries h" "\<exists>fs. th_timeline h' = th_timeline h @ fs" "th_turn_id h' = th_turn_id h"
      "th_min_hot_entries h' = th_min_hot_entries h" "th_branch_factor h' = th_branch_factor h"
  shows "extends h h'"
  using assms by (auto simp: extends_def update_conv' advances_refl)

lemma action_of_key:
  assumes "action_inv h" and "map_of (th_actions h) key = Some a"
  shows "key = action_key_of a" "mk_trace_action a = Inr a"
proof -
  have "(key, a) \<in> set (th_actions h)" using assms(2) by (rule map_of_SomeD)
  with assms(1) have "key = action_key_of a \<and> is_ok (mk_trace_action a)" by (auto simp: action_inv_def list_all_iff)
  then show "key = action_key_of a" "mk_trace_action a = Inr a"
    by (auto dest: mk_trace_action_same simp: is_ok_def split: sum.splits)
qed

definition other_parts :: "trace_heap \<Rightarrow> trace_heap" where
  "other_parts h = h\<lparr>th_actions := [], th_timeline := []\<rparr>"

lemma record_fact_ok:
  assumes "action_inv h"
  shows "action_inv (fst (record_fact kind ref c n h)) \<and> extends h (fst (record_fact kind ref c n h))
    \<and> other_parts (fst (record_fact kind ref c n h)) = other_parts h"
proof (cases rule: record_fact_cases [of kind ref c n h])
  case (rejected e)
  with assms show ?thesis by (simp add: extends_refl)
next
  case (recorded f)
  with assms show ?thesis
    by (auto simp: action_inv_def extends_def advances_refl other_parts_def)
qed

lemma register_ok:
  "action_inv h \<Longrightarrow> action_inv (fst (register_action_calls c calls h))
     \<and> extends h (fst (register_action_calls c calls h))
     \<and> other_parts (fst (register_action_calls c calls h)) = other_parts h"
proof (induction c calls h rule: register_action_calls.induct)
  case (1 c h)
  then show ?case by (simp add: extends_refl)
next
  case (2 c call calls h)
  let ?key = "(c, ac_sequence call)"
  show ?case
  proof (cases "map_of (th_actions h) ?key")
    case (Some p)
    show ?thesis
    proof (cases "ta_call p = call")
      case True
      with 2(2) [OF refl Some] Some 2(3) show ?thesis by simp
    next
      case False
      with Some 2(3) show ?thesis by (simp add: extends_refl)
    qed
  next
    case None
    let ?a = "\<lparr>ta_cycle_id = c, ta_call = call, ta_state = ES_REQUESTED, ta_invoke_id = None, ta_result = None\<rparr>"
    show ?thesis
    proof (cases "mk_trace_action ?a")
      case (Inl e)
      with None 2(3) show ?thesis by (simp add: extends_refl)
    next
      case (Inr b)
      then have b: "mk_trace_action ?a = Inr ?a" using mk_trace_action_same by blast
      let ?h2 = "fst (settle_action ?key ?a FK_ACTION_REQUESTED h)"
      have eq: "register_action_calls c (call # calls) h = register_action_calls c calls ?h2"
        using None b settle_action_eq [of ?key ?a FK_ACTION_REQUESTED h]
        by (simp add: Let_def settle_action_def)
      have inv2: "action_inv ?h2"
        by (rule put_action_inv [OF 2(3) _ b]) (simp_all add: settle_action_eq action_key_of_def)
      have ext2: "extends h ?h2"
        by (rule put_action_extends [where key = ?key and a = ?a]) (simp_all add: None settle_action_eq)
      have other2: "other_parts ?h2 = other_parts h" by (simp add: settle_action_eq other_parts_def)
      have "action_inv (fst (register_action_calls c calls ?h2))
          \<and> extends ?h2 (fst (register_action_calls c calls ?h2))
          \<and> other_parts (fst (register_action_calls c calls ?h2)) = other_parts ?h2"
        using 2(1) [OF refl None b refl, of ?h2 "Inr ()" "()"] inv2 settle_action_eq [of ?key ?a FK_ACTION_REQUESTED h]
        by (simp add: settle_action_def Let_def)
      with eq ext2 other2 show ?thesis by (metis extends_trans)
    qed
  qed
qed

text \<open>A candidate the previous fact may become, stored under the key of that fact.\<close>

lemma settle_ok:
  assumes inv: "action_inv h" and prev: "map_of (th_actions h) key = Some p" and adv: "advances p a"
    and ok: "mk_trace_action a = Inr a"
  shows "action_inv (fst (settle_action key a kind h)) \<and> extends h (fst (settle_action key a kind h))
    \<and> other_parts (fst (settle_action key a kind h)) = other_parts h"
    "action_inv (h\<lparr>th_actions := AList.update key a (th_actions h)\<rparr>)
    \<and> extends h (h\<lparr>th_actions := AList.update key a (th_actions h)\<rparr>)
    \<and> other_parts (h\<lparr>th_actions := AList.update key a (th_actions h)\<rparr>) = other_parts h"
proof -
  have key: "key = action_key_of a"
    using action_of_key(1) [OF inv prev] adv by (simp add: advances_def action_key_of_def)
  show "action_inv (fst (settle_action key a kind h)) \<and> extends h (fst (settle_action key a kind h))
    \<and> other_parts (fst (settle_action key a kind h)) = other_parts h"
    using put_action_inv [OF inv key ok] put_action_extends [of h key a] prev adv
    by (simp add: settle_action_eq other_parts_def)
  show "action_inv (h\<lparr>th_actions := AList.update key a (th_actions h)\<rparr>)
    \<and> extends h (h\<lparr>th_actions := AList.update key a (th_actions h)\<rparr>)
    \<and> other_parts (h\<lparr>th_actions := AList.update key a (th_actions h)\<rparr>) = other_parts h"
    using put_action_inv [OF inv key ok] put_action_extends [of h key a] prev adv
    by (simp add: other_parts_def)
qed

lemma record_action_result_cases:
  obtains (unchanged) x where "record_action_result r c h = (h, x)"
  | (settled) p a where "map_of (th_actions h) (c, ar_sequence r) = Some p" "mk_trace_action a = Inr a"
      "\<not> terminal_state (ta_state p)"
      "a = p\<lparr>ta_state := ES_SETTLED, ta_invoke_id := ar_invoke_id r, ta_result := Some r\<rparr>"
      "record_action_result r c h = settle_action (c, ar_sequence r) a FK_ACTION_SETTLED h"
proof (cases "map_of (th_actions h) (c, ar_sequence r)")
  case None
  then show thesis by (intro unchanged) (simp add: record_action_result_def)
next
  case (Some p)
  let ?a = "p\<lparr>ta_state := ES_SETTLED, ta_invoke_id := ar_invoke_id r, ta_result := Some r\<rparr>"
  let ?changed = "ta_invoke_id p \<noteq> None \<and> ta_invoke_id p \<noteq> ar_invoke_id r"
  consider "?changed \<or> \<not> is_ok (mk_trace_action ?a) \<or> p = ?a \<or> terminal_state (ta_state p)"
    | "\<not> ?changed" "is_ok (mk_trace_action ?a)" "p \<noteq> ?a" "\<not> terminal_state (ta_state p)" by blast
  then show thesis
  proof cases
    case 1
    then have "fst (record_action_result r c h) = h"
      using Some mk_trace_action_same [of ?a]
      by (auto simp: record_action_result_def is_ok_def terminal_state_def split: sum.splits)
    then show thesis by (intro unchanged [of "snd (record_action_result r c h)"]) (metis prod.collapse)
  next
    case 2
    then have ok: "mk_trace_action ?a = Inr ?a"
      using mk_trace_action_same [of ?a] by (auto simp: is_ok_def split: sum.splits)
    have "record_action_result r c h = settle_action (c, ar_sequence r) ?a FK_ACTION_SETTLED h"
      using 2(1,3,4) ok Some by (auto simp: record_action_result_def terminal_state_def)
    with Some ok 2(4) show thesis by (intro settled) simp_all
  qed
qed

lemma record_action_result_ok:
  assumes "action_inv h"
  shows "action_inv (fst (record_action_result r c h)) \<and> extends h (fst (record_action_result r c h))
    \<and> other_parts (fst (record_action_result r c h)) = other_parts h"
proof (cases rule: record_action_result_cases [of r c h])
  case (unchanged x)
  with assms show ?thesis by (simp add: extends_refl)
next
  case (settled p a)
  then have "advances p a" by (auto simp: advances_def state_le_def terminal_state_def)
  with settle_ok(1) [OF assms settled(1) _ settled(2)] settled(5) show ?thesis by simp
qed

lemma record_execution_cases:
  obtains (unchanged) x where "record_execution f h = (h, x)"
  | (moved) key p a where "map_of (th_actions h) key = Some p" "mk_trace_action a = Inr a"
      "ef_state f \<in> set (execution_transition (ta_state p))"
      "a = p\<lparr>ta_state := ef_state f, ta_invoke_id := Some (af_invoke_id (ef_framework f)),
             ta_result := ef_result f\<rparr>"
      "record_execution f h = (h\<lparr>th_actions := AList.update key a (th_actions h)\<rparr>, Inr ())
       \<or> record_execution f h = settle_action key a (fact_of_state (ef_state f)) h"
proof -
  let ?key = "(af_cycle_id (ef_framework f), ac_sequence (ef_call f))"
  show thesis
  proof (cases "map_of (th_actions h) ?key")
    case None
    then have "fst (record_execution f h) = h" by (simp add: record_execution_def)
    then show thesis by (intro unchanged [of "snd (record_execution f h)"]) (metis prod.collapse)
  next
    case (Some p)
    let ?a = "p\<lparr>ta_state := ef_state f, ta_invoke_id := Some (af_invoke_id (ef_framework f)),
             ta_result := ef_result f\<rparr>"
    let ?foreign = "af_turn_id (ef_framework f) \<noteq> th_turn_id h \<or> ta_call p \<noteq> ef_call f"
    let ?changed = "ta_invoke_id p \<noteq> None \<and> ta_invoke_id p \<noteq> Some []
                      \<and> ta_invoke_id p \<noteq> Some (af_invoke_id (ef_framework f))"
    let ?step = "ef_state f \<in> set (execution_transition (ta_state p))"
    consider "?foreign" | "\<not> ?foreign" "\<not> is_ok (mk_trace_action ?a) \<or> p = ?a \<or> ?changed \<or> \<not> ?step"
      | "\<not> ?foreign" "is_ok (mk_trace_action ?a)" "p \<noteq> ?a" "\<not> ?changed" "?step" by blast
    then show thesis
    proof cases
      case 1
      then have "fst (record_execution f h) = h" using Some by (auto simp: record_execution_def)
      then show thesis by (intro unchanged [of "snd (record_execution f h)"]) (metis prod.collapse)
    next
      case 2
      have "fst (record_execution f h) = h"
      proof (cases "mk_trace_action ?a")
        case (Inl e)
        with Some 2(1) show ?thesis by (simp add: record_execution_def)
      next
        case (Inr b)
        then have "b = ?a" by (rule mk_trace_action_same)
        with Inr Some 2 show ?thesis by (auto simp: record_execution_def is_ok_def Let_def)
      qed
      then show thesis by (intro unchanged [of "snd (record_execution f h)"]) (metis prod.collapse)
    next
      case 3
      then have ok: "mk_trace_action ?a = Inr ?a"
        using mk_trace_action_same [of ?a] by (auto simp: is_ok_def split: sum.splits)
      have "record_execution f h = (h\<lparr>th_actions := AList.update ?key ?a (th_actions h)\<rparr>, Inr ())
          \<or> record_execution f h = settle_action ?key ?a (fact_of_state (ef_state f)) h"
        using 3(1,3,4,5) ok Some by (auto simp: record_execution_def Let_def)
      with Some ok 3(5) show thesis by (intro moved) simp_all
    qed
  qed
qed

lemma transition_advances:
  "s \<in> set (execution_transition (ta_state p)) \<Longrightarrow> advances p (p\<lparr>ta_state := s, ta_invoke_id := i, ta_result := r\<rparr>)"
  by (cases "ta_state p") (auto simp: advances_def state_le_def terminal_state_def)

lemma record_execution_ok:
  assumes "action_inv h"
  shows "action_inv (fst (record_execution f h)) \<and> extends h (fst (record_execution f h))
    \<and> other_parts (fst (record_execution f h)) = other_parts h"
proof (cases rule: record_execution_cases [of f h])
  case (unchanged x)
  with assms show ?thesis by (simp add: extends_refl)
next
  case (moved key p a)
  then have "advances p a" using transition_advances by blast
  with settle_ok [OF assms moved(1) _ moved(2)] moved(5) show ?thesis by fastforce
qed

section \<open>Sealing\<close>

lemma other_parts_fields:
  assumes "other_parts h' = other_parts h"
  shows "th_entries h' = th_entries h" "th_hot h' = th_hot h" "th_nodes h' = th_nodes h" "th_roots h' = th_roots h"
    "th_protected h' = th_protected h" "th_turn_id h' = th_turn_id h" "th_branch_factor h' = th_branch_factor h"
    "th_min_hot_entries h' = th_min_hot_entries h" "th_chunk_chars h' = th_chunk_chars h"
  using assms by (cases h; cases h'; simp add: other_parts_def)+

lemma other_parts_layout:
  assumes "other_parts h' = other_parts h" and "layout_inv h"
  shows "layout_inv h'"
  using other_parts_fields [OF assms(1)] assms(2) by (intro layout_cong [where h = h and h' = h']) (simp_all add: entry_ids_def)

text \<open>Sealing marks the requested Actions as not executed and leaves every other Action alone.\<close>

definition sealed_action :: "trace_action \<Rightarrow> trace_action" where
  "sealed_action a = (if ta_state a = ES_REQUESTED then a\<lparr>ta_state := ES_NOT_EXECUTED\<rparr> else a)"

lemma map_update_present:
  assumes "distinct (map fst (pre @ (k, a) # post))"
  shows "AList.update k b (pre @ (k, a) # post) = pre @ (k, b) # post"
  using assms by (induction pre) auto

lemma seal_actions_eq:
  assumes "action_inv h" and "th_actions h = map (\<lambda>(k, a). (k, sealed_action a)) pre @ items"
  shows "snd (seal_actions items h) = Inr ()
    \<and> th_actions (fst (seal_actions items h)) = map (\<lambda>(k, a). (k, sealed_action a)) (pre @ items)
    \<and> action_inv (fst (seal_actions items h)) \<and> extends h (fst (seal_actions items h))
    \<and> other_parts (fst (seal_actions items h)) = other_parts h"
  using assms
proof (induction items arbitrary: h pre)
  case Nil
  then show ?case by (simp add: extends_refl)
next
  case (Cons x items)
  obtain key a where x: "x = (key, a)" by fastforce
  show ?case
  proof (cases "ta_state a = ES_REQUESTED")
    case False
    then have "th_actions h = map (\<lambda>(k, a). (k, sealed_action a)) (pre @ [x]) @ items"
      using Cons.prems(2) by (simp add: x sealed_action_def)
    from Cons.IH [OF Cons.prems(1) this] False show ?thesis by (simp add: x)
  next
    case True
    let ?b = "sealed_action a" and ?h = "fst (settle_action key (sealed_action a) FK_ACTION_NOT_EXECUTED h)"
    have dist: "distinct (map fst (map (\<lambda>(k, a). (k, sealed_action a)) pre @ (key, a) # items))"
      using conjunct1 [OF Cons.prems(1) [unfolded action_inv_def]] unfolding Cons.prems(2) x .
    have look: "map_of (th_actions h) key = Some a"
      using dist by (intro map_of_is_SomeI) (simp_all add: Cons.prems(2) x)
    have "mk_trace_action a = Inr a" by (rule action_of_key(2) [OF Cons.prems(1) look])
    then have b: "mk_trace_action ?b = Inr ?b" using True
      by (auto simp: mk_trace_action_def sealed_action_def split: if_splits option.splits)
    have adv: "advances a ?b" using True by (simp add: advances_def sealed_action_def state_le_def terminal_state_def)
    note ok = settle_ok(1) [OF Cons.prems(1) look adv b, of FK_ACTION_NOT_EXECUTED]
    have acts: "th_actions ?h = map (\<lambda>(k, a). (k, sealed_action a)) (pre @ [x]) @ items"
      using map_update_present [OF dist, of ?b] Cons.prems(2) by (simp add: settle_action_eq x)
    have eq: "seal_actions (x # items) h = seal_actions items ?h"
      using True b by (simp add: x sealed_action_def settle_action_eq)
    from Cons.IH [OF conjunct1 [OF ok] acts] ok show ?thesis unfolding eq
      by (auto simp: x elim: extends_trans)
  qed
qed

section \<open>The machine\<close>

datatype trace_op =
    RecordFact trace_fact_kind string string "int option"
  | RegisterCalls string "action_call list"
  | RecordResult action_result string
  | RecordExecution execution_fact
  | AppendDecision message string "cycle_phase option"
  | AppendResult message string "message option" "string list"
  | AppendNote pyval string "cycle_phase option" "int option"
  | AppendInput pending_input bool
  | MarkConsumed "message list"
  | FoldOverlays
  | Compact int
  | Seal

definition outcome_of :: "'a context_result \<Rightarrow> context_error option" where
  "outcome_of r = (case r of Inl e \<Rightarrow> Some e | Inr _ \<Rightarrow> None)"

fun trace_step :: "trace_op \<Rightarrow> trace_heap \<Rightarrow> trace_heap \<times> context_error option" where
  "trace_step (RecordFact kind ref c n) h = apsnd outcome_of (record_fact kind ref c n h)"
| "trace_step (RegisterCalls c calls) h = apsnd outcome_of (register_action_calls c calls h)"
| "trace_step (RecordResult r c) h = apsnd outcome_of (record_action_result r c h)"
| "trace_step (RecordExecution f) h = apsnd outcome_of (record_execution f h)"
| "trace_step (AppendDecision m c p) h = apsnd outcome_of (append_decision m c p h)"
| "trace_step (AppendResult m c canon refs) h = apsnd outcome_of (append_action_result m c canon refs h)"
| "trace_step (AppendNote v c p n) h = apsnd outcome_of (append_phase_note v c p n h)"
| "trace_step (AppendInput i b) h = apsnd outcome_of (append_input i b h)"
| "trace_step (MarkConsumed ms) h = (mark_consumed ms h, None)"
| "trace_step FoldOverlays h = (fst (fold_overlays h), None)"
| "trace_step (Compact n) h = apsnd outcome_of (compact n h)"
| "trace_step Seal h = apsnd outcome_of (seal h)"

definition trace_inv :: "trace_heap \<Rightarrow> bool" where
  "trace_inv h = (layout_inv h \<and> action_inv h \<and> th_turn_id h \<noteq> [])"

definition keeps :: "trace_heap \<Rightarrow> trace_heap \<Rightarrow> bool" where
  "keeps h h' = (trace_inv h' \<and> extends h h')"

lemma keeps_refl: "trace_inv h \<Longrightarrow> keeps h h"
  by (simp add: keeps_def extends_refl)

lemma action_only_keeps:
  assumes "trace_inv h"
    and "action_inv h' \<and> extends h h' \<and> other_parts h' = other_parts h"
  shows "keeps h h'"
  using assms other_parts_layout [of h' h] other_parts_fields(6) [of h' h] by (simp add: keeps_def trace_inv_def)

text \<open>Operations that touch neither the Actions nor the timeline.\<close>

lemma entries_only_keeps:
  assumes "trace_inv h" and "layout_inv h'" and "th_actions h' = th_actions h" "th_timeline h' = th_timeline h"
    "th_turn_id h' = th_turn_id h" "th_min_hot_entries h' = th_min_hot_entries h"
    "th_branch_factor h' = th_branch_factor h"
    and "\<exists>es. map canonical (th_entries h') = map canonical (th_entries h) @ es"
  shows "keeps h h'"
  using assms by (simp add: keeps_def trace_inv_def extends_def action_inv_def advances_refl)

lemma append_entry_keeps:
  assumes "trace_inv h"
  shows "keeps h (fst (append_entry raw h))"
proof (cases raw h rule: append_entry_cases)
  case (rejected e)
  with assms show ?thesis by (simp add: keeps_refl)
next
  case (appended h')
  with assms append_entry_layout [of h raw] show ?thesis
    by (intro entries_only_keeps) (simp_all add: trace_inv_def)
qed

lemma fold_overlays_canonical:
  "map canonical (th_entries (fst (fold_overlays h))) = map canonical (th_entries h)"
  by (simp add: fold_overlays_def canonical_def)

lemma fold_overlays_keeps: "trace_inv h \<Longrightarrow> keeps h (fst (fold_overlays h))"
  using fold_overlays_layout [of h] fold_overlays_canonical [of h]
  by (intro entries_only_keeps) (simp_all add: trace_inv_def, simp_all add: fold_overlays_def)

lemma mark_consumed_keeps: "trace_inv h \<Longrightarrow> keeps h (mark_consumed ms h)"
  using mark_consumed_layout [of h ms] by (intro entries_only_keeps) (simp_all add: trace_inv_def mark_consumed_def)

lemma compact_keeps:
  assumes "trace_inv h"
  shows "keeps h (fst (compact n h))"
proof -
  from assms have "layout_inv h" by (simp add: trace_inv_def)
  then show ?thesis
  proof (cases rule: compact_cases [of h n])
    case (refused e)
    with assms show ?thesis by (simp add: keeps_refl)
  next
    case (folded report)
    with fold_overlays_keeps [OF assms] show ?thesis by simp
  next
    case (moved report h' taken)
    with assms fold_overlays_canonical [of h] show ?thesis by (intro entries_only_keeps) simp_all
  qed
qed

lemma seal_keeps:
  assumes "trace_inv h"
  shows "keeps h (fst (seal h))"
proof -
  from assms have "action_inv h" by (simp add: trace_inv_def)
  from seal_actions_eq [OF this, of "[]" "th_actions h"]
  have ok: "snd (seal_actions (th_actions h) h) = Inr ()"
    "keeps h (fst (seal_actions (th_actions h) h))"
    using action_only_keeps [OF assms] by simp_all
  have "fst (seal h) = fst (seal_actions (th_actions h) h)"
    using ok(1) by (cases "seal_actions (th_actions h) h") (simp add: seal_def)
  with ok show ?thesis by simp
qed

lemma trace_step_keeps:
  assumes "trace_inv h"
  shows "keeps h (fst (trace_step x h))"
proof -
  have act: "action_inv h" using assms by (simp add: trace_inv_def)
  show ?thesis
  proof (cases x)
    case (RecordFact kind ref c n)
    with action_only_keeps [OF assms record_fact_ok [OF act]] show ?thesis by simp
  next
    case (RegisterCalls c calls)
    with action_only_keeps [OF assms register_ok [OF act]] show ?thesis by simp
  next
    case (RecordResult r c)
    with action_only_keeps [OF assms record_action_result_ok [OF act]] show ?thesis by simp
  next
    case (RecordExecution f)
    with action_only_keeps [OF assms record_execution_ok [OF act]] show ?thesis by simp
  next
    case (AppendNote v c p n)
    with assms show ?thesis
      by (auto simp: append_phase_note_def keeps_refl append_entry_keeps split: sum.split llm_error.split)
  next
    case (AppendInput i b)
    with assms show ?thesis
      by (auto simp: append_input_def Let_def keeps_refl append_entry_keeps split: sum.split question_error.split)
  qed (use assms in \<open>simp_all add: append_decision_def append_action_result_def append_entry_keeps
      mark_consumed_keeps fold_overlays_keeps compact_keeps seal_keeps\<close>)
qed

interpretation trace_machine: monotone_machine trace_step trace_inv "\<lambda>h. length (th_timeline h)"
proof unfold_locales
  fix x h assume "trace_inv h"
  from trace_step_keeps [OF this] show "trace_inv (fst (trace_step x h))" by (simp add: keeps_def)
next
  fix x h assume "trace_inv h"
  from trace_step_keeps [OF this, of x] show "length (th_timeline h) \<le> length (th_timeline (fst (trace_step x h)))"
    by (auto simp: keeps_def extends_def)
qed

lemma trace_run_keeps: "trace_inv h \<Longrightarrow> keeps h (fst (run_ops trace_step xs h))"
proof (induction xs arbitrary: h)
  case Nil
  then show ?case by (simp add: keeps_refl)
next
  case (Cons x xs)
  from trace_step_keeps [OF Cons.prems, of x] have "keeps h (fst (trace_step x h))" .
  with Cons.IH [of "fst (trace_step x h)"] show ?case
    by (auto simp: keeps_def run_ops_fst_Cons simp del: run_ops.simps(2) elim: extends_trans)
qed

lemma mk_trace_heap_inv:
  assumes "mk_trace_heap turn_id chunk_chars branch_factor min_hot = Inr h"
  shows "trace_inv h" "th_entries h = []" "th_min_hot_entries h = nat min_hot"
proof -
  have h: "h = \<lparr>th_turn_id = turn_id, th_chunk_chars = nat chunk_chars,
        th_branch_factor = nat branch_factor, th_min_hot_entries = nat min_hot,
        th_entries = [], th_hot = [], th_nodes = [], th_roots = [], th_actions = [],
        th_timeline = [], th_protected = []\<rparr>" and bf: "2 \<le> branch_factor" and t: "turn_id \<noteq> []"
    using assms by (auto simp: mk_trace_heap_def split: if_splits)
  have "stands_for h []"
    by (simp add: stands_for_def h nodes_numbered_def numbered_def forest_def exI [of _ "[]"])
  then show "trace_inv h"
    using bf t by (simp add: trace_inv_def layout_inv_def action_inv_def h entry_ids_def numbered_def)
  show "th_entries h = []" "th_min_hot_entries h = nat min_hot" by (simp_all add: h)
qed

end
