(* ===== verification/Trace_Properties.thy ===== *)
theory Trace_Properties
  imports Trace_Proofs
begin

text \<open>
  What holds of every reachable trace: reading its nodes, its history, the Action state machine,
  compaction, sealing, and the references it hands out.
\<close>

section \<open>Reading a node\<close>

lemma forest_snoc:
  assumes "forest nodes (pending @ [i]) subs"
  obtains subs' k es where "subs = subs' @ [(k, es)]" "forest nodes pending subs'" "fringe nodes i k es"
  using assms by (auto simp: forest_def list_all2_append1 list_all2_Cons1)

lemma fringe_inv:
  assumes "fringe nodes i k es"
  obtains n subs where "map_of nodes i = Some n" "forest nodes (hn_child_ids n) subs"
    "k = Suc (sum_list (map fst subs))" "set es = set (hn_entry_ids n) \<union> set (concat (map snd subs))"
    "hn_kind n = NK_LEAF \<Longrightarrow> es = hn_entry_ids n" "hn_kind n \<noteq> NK_LEAF \<Longrightarrow> es = concat (map snd subs)"
  using assms
proof cases
  case (leaf n)
  then show thesis by (intro that [of n "[]"]) (simp_all add: forest_def)
next
  case (branch n subs)
  then show thesis by (intro that [of n subs]) (simp_all add: forest_def)
qed

text \<open>With at least one round per node below, the walk finds all the entries.\<close>

lemma collect_ids_fringe:
  "forest nodes pending subs \<Longrightarrow> sum_list (map fst subs) \<le> fuel
     \<Longrightarrow> set (collect_ids fuel nodes pending ids) = set ids \<union> set (concat (map snd subs))"
proof (induction fuel arbitrary: pending subs ids)
  case 0
  show ?case
  proof (cases pending rule: rev_cases)
    case Nil
    with 0 show ?thesis by (simp add: forest_def)
  next
    case (snoc p i)
    with 0(1) obtain subs' k es where "subs = subs' @ [(k, es)]" "fringe nodes i k es" by (auto elim: forest_snoc)
    with 0(2) show ?thesis by (auto elim!: fringe_inv)
  qed
next
  case (Suc fuel)
  show ?case
  proof (cases pending rule: rev_cases)
    case Nil
    with Suc show ?thesis by (simp add: forest_def)
  next
    case (snoc p i)
    with Suc.prems(1) obtain subs' k es where s: "subs = subs' @ [(k, es)]" "forest nodes p subs'" "fringe nodes i k es"
      by (auto elim: forest_snoc)
    from s(3) obtain n below where n: "map_of nodes i = Some n" "forest nodes (hn_child_ids n) below"
      "k = Suc (sum_list (map fst below))" "set es = set (hn_entry_ids n) \<union> set (concat (map snd below))"
      by (elim fringe_inv)
    have "collect_ids (Suc fuel) nodes pending ids
        = collect_ids fuel nodes (p @ hn_child_ids n) (ids @ hn_entry_ids n)"
      using n(1) snoc by (cases p) simp_all
    moreover have "sum_list (map fst (subs' @ below)) \<le> fuel" using Suc.prems(2) s(1) n(3) by simp
    ultimately show ?thesis
      using Suc.IH [OF forest_append [OF s(2) n(2)]] n(4) s(1) by auto
  qed
qed

lemma node_ref_read:
  assumes "map_of (th_nodes h) i = Some n"
  shows "node_for_ref (node_ref (th_turn_id h) i) h = Inr n"
    "node_ref (th_turn_id h) i \<noteq> head_ref h"
    "\<not> py_startswith (node_ref (th_turn_id h) i) (head_ref h @ ''#entry/'')"
proof -
  have ref: "node_ref (th_turn_id h) i = head_ref h @ ''#node/'' @ i" by (simp add: node_ref_def head_ref_def)
  show "node_for_ref (node_ref (th_turn_id h) i) h = Inr n"
    using assms py_startswith_append [of "head_ref h @ ''#node/''" i] by (simp add: node_for_ref_def ref)
  show "node_ref (th_turn_id h) i \<noteq> head_ref h" by (simp add: ref)
  show "\<not> py_startswith (node_ref (th_turn_id h) i) (head_ref h @ ''#entry/'')" by (simp add: ref py_startswith_iff)
qed

lemma segment_of_map:
  "map f xs = pre @ es @ post \<Longrightarrow> \<exists>xs1 xs2 xs3. xs = xs1 @ xs2 @ xs3 \<and> map f xs1 = pre \<and> map f xs2 = es \<and> map f xs3 = post"
  by (metis append_eq_map_conv map_eq_append_conv)

lemma filter_segment:
  assumes "distinct (map f (xs1 @ xs2 @ xs3))" and "set ids = set (map f xs2)"
  shows "filter (\<lambda>x. f x \<in> set ids) (xs1 @ xs2 @ xs3) = xs2"
proof -
  have "filter (\<lambda>x. f x \<in> set ids) xs1 = []" "filter (\<lambda>x. f x \<in> set ids) xs3 = []"
    using assms by (auto simp: filter_empty_conv)
  moreover have "filter (\<lambda>x. f x \<in> set ids) xs2 = xs2" using assms(2) by (simp add: filter_id_conv)
  ultimately show ?thesis by simp
qed

lemma read_node:
  assumes lay: "layout_inv h" and fr: "fringe (th_nodes h) i k (map te_entry_id es)" and k: "k \<le> length (th_nodes h)"
    and split: "th_entries h = es1 @ es @ es2"
  shows "entries_for_ref (node_ref (th_turn_id h) i) h = Inr es"
proof -
  from fr obtain n below where n: "map_of (th_nodes h) i = Some n" "forest (th_nodes h) (hn_child_ids n) below"
      "k = Suc (sum_list (map fst below))"
      "hn_kind n = NK_LEAF \<Longrightarrow> map te_entry_id es = hn_entry_ids n"
      "hn_kind n \<noteq> NK_LEAF \<Longrightarrow> map te_entry_id es = concat (map snd below)"
    by (elim fringe_inv) (rule that)
  have dist: "distinct (map te_entry_id (es1 @ es @ es2))"
    using layout_distinct [OF lay] unfolding entry_ids_def split .
  note ref = node_ref_read [OF n(1)]
  show ?thesis
  proof (cases "hn_kind n = NK_LEAF")
    case True
    have "entries_of h (map te_entry_id es) = es"
      by (rule entries_of_all [OF layout_distinct [OF lay]]) (auto simp: split)
    with True ref n(4) show ?thesis by (simp add: entries_for_ref_def Let_def leaf_entries_def)
  next
    case False
    let ?ids = "collect_ids (length (th_nodes h)) (th_nodes h) (hn_child_ids n) []"
    have "set ?ids = set (map te_entry_id es)"
      using collect_ids_fringe [OF n(2), of "length (th_nodes h)" "[]"] n(3) n(5) [OF False] k by simp
    from filter_segment [OF dist this] False ref show ?thesis
      by (simp add: entries_for_ref_def Let_def split)
  qed
qed

lemma read_roots:
  assumes "layout_inv h"
  shows "\<exists>ess. list_all2 (\<lambda>r es. entries_for_ref (node_ref (th_turn_id h) r) h = Inr es) (th_roots h) ess
     \<and> concat ess @ hot_entries h = th_entries h"
proof -
  from assms obtain cold where inv: "stands_for h cold" "cold @ th_hot h = entry_ids h" by (rule layoutE)
  from inv(1) obtain subs where subs: "forest (th_nodes h) (th_roots h) subs"
    "sum_list (map fst subs) = length (th_nodes h)" "concat (map snd subs) = cold"
    by (auto simp: stands_for_def)
  have gen: "\<exists>ess. list_all2 (\<lambda>r es. entries_for_ref (node_ref (th_turn_id h) r) h = Inr es) roots ess
      \<and> concat ess = es"
    if "forest (th_nodes h) roots below" "sum_list (map fst below) \<le> length (th_nodes h)"
      "map te_entry_id es = concat (map snd below)" "th_entries h = es1 @ es @ es2" for roots below es1 es es2
    using that
  proof (induction roots arbitrary: below es1 es)
    case Nil
    then show ?case by (simp add: forest_def)
  next
    case (Cons r roots)
    then obtain k ids below' where b: "below = (k, ids) # below'" "fringe (th_nodes h) r k ids"
      "forest (th_nodes h) roots below'"
      by (auto simp: forest_def list_all2_Cons1)
    with Cons.prems(3) obtain x y where xy: "es = x @ y" "map te_entry_id x = ids"
      "map te_entry_id y = concat (map snd below')"
      by (auto simp: map_eq_append_conv)
    have "entries_for_ref (node_ref (th_turn_id h) r) h = Inr x"
      using read_node [OF assms, of r k x es1 "y @ es2"] b(1,2) xy(1,2) Cons.prems(2,4) by simp
    moreover obtain ess where "list_all2 (\<lambda>r es. entries_for_ref (node_ref (th_turn_id h) r) h = Inr es) roots ess"
      "concat ess = y"
      using Cons.IH [OF b(3) _ xy(3), of "es1 @ x"] b(1) xy(1) Cons.prems(2,4) by auto
    ultimately show ?case using xy(1) by (intro exI [of _ "x # ess"]) simp
  qed
  obtain es hot where eh: "th_entries h = es @ hot" "map te_entry_id es = cold" "map te_entry_id hot = th_hot h"
    using inv(2) by (metis append_eq_map_conv entry_ids_def)
  have "hot_entries h = hot"
    using entries_of_all [OF layout_distinct [OF assms], of hot] eh(1,3) by (simp add: hot_entries_def)
  with gen [OF subs(1), of es "[]" hot] subs(2,3) eh(1,2) show ?thesis by auto
qed

section \<open>References\<close>

lemma hash_not_in_turn: "CHR ''#'' \<notin> set (turn_identity_str t)"
proof -
  have digit: "is_digit c \<Longrightarrow> c \<noteq> CHR ''#''" for c by (auto simp: is_digit_def)
  have "CHR ''#'' \<notin> set (pad_digits w n)" for w n
    using pad_digits_are_digits [of w n] digit by (auto simp: list_all_iff)
  moreover have "CHR ''#'' \<notin> set (show_nat n)" for n
    using show_nat_digits [of n] digit by (auto simp: list_all_iff)
  ultimately show ?thesis by (simp add: turn_identity_str_def calendar_day_str_def isoformat_def)
qed

definition trace_fragment :: "string \<Rightarrow> nat \<Rightarrow> bool" where
  "trace_fragment kind n = (kind \<in> set [''entry'', ''action'', ''input'', ''node'']
     \<and> (kind \<in> set [''entry'', ''node''] \<longrightarrow> 0 < n) \<and> length (show_nat n) \<le> 4300)"

definition trace_reference :: "string \<Rightarrow> string \<Rightarrow> bool" where
  "trace_reference turn ref = (ref = ''turn:trace/'' @ turn
     \<or> (\<exists>kind n. trace_fragment kind n \<and> ref = ''turn:trace/'' @ turn @ ''#'' @ kind @ ''/'' @ show_nat n))"

lemma removeprefix_append: "py_removeprefix (p @ s) p = s"
  by (simp add: py_removeprefix_def)

lemma parse_trace_reference_complete:
  assumes wf: "wf_turn_identity t" and ref: "trace_reference (turn_identity_str t) ref"
  shows "parse_trace_reference ref = Inr (turn_identity_str t)"
proof -
  let ?s = "turn_identity_str t"
  have parse: "turn_identity_parse ?s = Inr t" by (rule turn_identity_parse_str [OF wf])
  have absent: "CHR ''#'' \<notin> set (''turn:trace/'' @ ?s)" using hash_not_in_turn by simp
  have pre: "py_removeprefix (''turn:trace/'' @ ?s) ''turn:trace/'' = ?s" "py_startswith (''turn:trace/'' @ ?s) ''turn:trace/''"
    by (rule removeprefix_append, rule py_startswith_append)
  from ref consider "ref = ''turn:trace/'' @ ?s"
    | kind n where "trace_fragment kind n" "ref = ''turn:trace/'' @ ?s @ ''#'' @ kind @ ''/'' @ show_nat n"
    by (auto simp: trace_reference_def)
  then show ?thesis
  proof cases
    case 1
    then show ?thesis using py_partition_absent [OF absent] pre parse
      by (simp add: parse_trace_reference_def Let_def del: append.simps)
  next
    case 2
    have p1: "py_partition (CHR ''#'') ref = (''turn:trace/'' @ ?s, True, kind @ ''/'' @ show_nat n)"
      using py_partition_append [OF absent, of "kind @ ''/'' @ show_nat n"] 2(2) by simp
    have "CHR ''/'' \<notin> set kind" using 2(1) by (auto simp: trace_fragment_def)
    from py_partition_append [OF this, of "show_nat n"]
    have p2: "py_partition (CHR ''/'') (kind @ ''/'' @ show_nat n) = (kind, True, show_nat n)" by simp
    have "py_int_digits (show_nat n) = Some n" using 2(1) by (simp add: py_int_digits_def trace_fragment_def)
    then show ?thesis using p1 p2 pre parse 2(1)
      by (auto simp: parse_trace_reference_def Let_def trace_fragment_def simp del: append.simps)
  qed
qed

lemma parse_trace_reference_sound:
  assumes "parse_trace_reference ref = Inr turn"
  shows "\<exists>t. wf_turn_identity t \<and> turn = turn_identity_str t \<and> trace_reference turn ref"
proof -
  obtain resource marker fragment where p: "py_partition (CHR ''#'') ref = (resource, marker, fragment)"
    by (cases "py_partition (CHR ''#'') ref")
  from assms p obtain t where start: "py_startswith resource ''turn:trace/''"
    and t: "turn_identity_parse (py_removeprefix resource ''turn:trace/'') = Inr t"
    by (auto simp: parse_trace_reference_def Let_def split: if_splits sum.splits)
  have res: "resource = ''turn:trace/'' @ turn_identity_str t" "wf_turn_identity t"
    "py_removeprefix resource ''turn:trace/'' = turn_identity_str t"
    using start turn_identity_parse_sound [OF t] by (auto simp: py_startswith_iff removeprefix_append simp del: append.simps)
  have turn: "turn = turn_identity_str t"
    using assms p start t res(3) by (auto simp: parse_trace_reference_def Let_def split: if_splits sum.splits option.splits prod.splits)
  show ?thesis
  proof (cases marker)
    case False
    with p have "ref = resource" using py_partition_missing [of "CHR ''#''" ref resource fragment] by simp
    with res turn show ?thesis by (auto simp: trace_reference_def)
  next
    case True
    with p have ref: "ref = resource @ CHR ''#'' # fragment"
      using py_partition_found [of "CHR ''#''" ref resource fragment] by simp
    obtain kind sep v where q: "py_partition (CHR ''/'') fragment = (kind, sep, v)"
      by (cases "py_partition (CHR ''/'') fragment")
    from assms p start t True q obtain n where
      ok: "kind \<in> set [''entry'', ''action'', ''input'', ''node'']" "sep" "ascii_decimal v"
        "py_int_digits v = Some n" "show_nat n = v" "kind \<in> set [''entry'', ''node''] \<longrightarrow> 0 < n"
      by (auto simp: parse_trace_reference_def Let_def split: if_splits option.splits)
    have "fragment = kind @ CHR ''/'' # v"
      using q ok(2) py_partition_found [of "CHR ''/''" fragment kind v] by simp
    moreover have "length (show_nat n) \<le> 4300" using ok(4,5) by (auto simp: py_int_digits_def split: if_splits)
    ultimately have "trace_fragment kind n \<and> ref = ''turn:trace/'' @ turn @ ''#'' @ kind @ ''/'' @ show_nat n"
      using ok ref res(1) turn by (simp add: trace_fragment_def)
    then show ?thesis using res(2) turn unfolding trace_reference_def by blast
  qed
qed

section \<open>Properties\<close>

definition trace_after :: "trace_op list \<Rightarrow> trace_heap \<Rightarrow> trace_heap" where
  "trace_after ops h = fst (run_ops trace_step ops h)"

lemma trace_after_keeps: "trace_inv h \<Longrightarrow> keeps h (trace_after ops h)"
  unfolding trace_after_def by (rule trace_run_keeps)

lemma trace_after_inv: "trace_inv h \<Longrightarrow> trace_inv (trace_after ops h)"
  using trace_after_keeps by (simp add: keeps_def)

lemma extends_action:
  "extends h h' \<Longrightarrow> map_of (th_actions h) key = Some a \<Longrightarrow> \<exists>a'. map_of (th_actions h') key = Some a' \<and> advances a a'"
  unfolding extends_def by blast

lemma sealed_unsettled:
  "list_ex (\<lambda>a. ta_state a = ES_REQUESTED \<or> ta_state a = ES_STARTED) (map sealed_action as)
     = list_ex (\<lambda>a. ta_state a = ES_STARTED) as"
  by (induction as) (auto simp: sealed_action_def)

definition sample_trace :: trace_heap where
  "sample_trace = \<lparr>th_turn_id = ''2025-01-02/3'', th_chunk_chars = 1, th_branch_factor = 2, th_min_hot_entries = 1,
     th_entries = [], th_hot = [], th_nodes = [], th_roots = [], th_actions = [], th_timeline = [],
     th_protected = []\<rparr>"

lemma sample_trace_made: "mk_trace_heap ''2025-01-02/3'' 1 2 1 = Inr sample_trace"
  by (simp add: mk_trace_heap_def sample_trace_def)

definition sample_call :: action_call where
  "sample_call = \<lparr>ac_call_id = ''call_1'', ac_action_name = ''core.reply'', ac_params = [], ac_sequence = 1\<rparr>"

definition sample_ops :: "trace_op list" where
  "sample_ops = map (\<lambda>s. AppendNote (PyStr s) [] None None) [''aaaa'', ''bbbb'', ''cccc'']
     @ [RegisterCalls ''cycle_1'' [sample_call], Compact 1, Compact 1000]"

lemma sample_ops_compact: "th_roots (trace_after sample_ops sample_trace) = [''3'']"
  by code_simp

text \<open>
  C1: compaction loses nothing and reorders nothing. Start from a new heap and perform any
  operations: reading the roots of the visible hierarchy in order with \<open>entries_for_ref\<close> and then
  the hot entries gives back every canonical entry ever appended, in order, each exactly once.
\<close>

theorem trace_reads_back:
  assumes "mk_trace_heap turn chunk branch hot = Inr h0" and "h = trace_after ops h0"
  shows "\<exists>ess. list_all2 (\<lambda>r es. entries_for_ref (node_ref (th_turn_id h) r) h = Inr es) (th_roots h) ess
     \<and> concat ess @ hot_entries h = th_entries h"
  using read_roots trace_after_inv [OF mk_trace_heap_inv(1) [OF assms(1)], of ops] assms(2)
  by (simp add: trace_inv_def)

theorem trace_reads_back_witness:
  "th_roots (trace_after sample_ops sample_trace) = [''3'']
   \<and> (\<exists>ess. list_all2 (\<lambda>r es. entries_for_ref (node_ref (th_turn_id (trace_after sample_ops sample_trace)) r)
          (trace_after sample_ops sample_trace) = Inr es) (th_roots (trace_after sample_ops sample_trace)) ess
     \<and> concat ess @ hot_entries (trace_after sample_ops sample_trace) = th_entries (trace_after sample_ops sample_trace))"
  using sample_ops_compact trace_reads_back [OF sample_trace_made refl, of sample_ops] by blast

text \<open>
  C33: the hierarchy stays small and well formed: after any operations there are fewer roots than
  the branch factor, entries and nodes are numbered from 1 in order of creation, every node passes
  the checks of \<open>TraceHeapNode\<close>, and a protected overlay is always among the hot entries.
\<close>

theorem trace_layout:
  assumes "mk_trace_heap turn chunk branch hot = Inr h0" and "h = trace_after ops h0"
  shows "length (th_roots h) < th_branch_factor h
     \<and> map te_entry_id (th_entries h) = map show_nat [1..<Suc (length (th_entries h))]
     \<and> dict_keys (th_nodes h) = map show_nat [1..<Suc (length (th_nodes h))]
     \<and> list_all (\<lambda>n. is_ok (mk_heap_node n)) (map snd (th_nodes h))
     \<and> set (th_protected h) \<subseteq> set (th_hot h)"
proof -
  have "layout_inv h"
    using trace_after_inv [OF mk_trace_heap_inv(1) [OF assms(1)], of ops] assms(2) by (simp add: trace_inv_def)
  then show ?thesis
    by (elim layoutE) (simp only: stands_for_def nodes_numbered_def entry_ids_def numbered_def)
qed

theorem trace_layout_witness:
  "length (th_roots (trace_after sample_ops sample_trace)) < th_branch_factor (trace_after sample_ops sample_trace)"
  using trace_layout [OF sample_trace_made refl, of sample_ops] by blast

text \<open>
  C32: the trace is append-only. Whatever operations follow a reachable trace, its canonical entries
  (an overlay apart, which is what the reader sees, not what is recorded) and its timeline of facts
  are a prefix of the later ones, and the facts are numbered from 1 without a gap.
\<close>

theorem trace_append_only:
  assumes "mk_trace_heap turn chunk branch hot = Inr h0" and "h = trace_after ops h0" and "h' = trace_after more_ops h"
  shows "\<exists>es fs. map canonical (th_entries h') = map canonical (th_entries h) @ es
     \<and> th_timeline h' = th_timeline h @ fs
     \<and> map tf_sequence (th_timeline h') = [1..<Suc (length (th_timeline h'))]"
proof -
  have inv: "trace_inv h"
    using trace_after_inv [OF mk_trace_heap_inv(1) [OF assms(1)], of ops] assms(2) by simp
  from trace_after_keeps [OF this, of more_ops] assms(3) show ?thesis
    by (auto simp: keeps_def extends_def trace_inv_def action_inv_def simp del: upt_Suc)
qed

theorem trace_append_only_witness:
  "\<exists>es fs. map canonical (th_entries (trace_after [Compact 9, Seal] (trace_after sample_ops sample_trace)))
       = map canonical (th_entries (trace_after sample_ops sample_trace)) @ es
     \<and> th_timeline (trace_after [Compact 9, Seal] (trace_after sample_ops sample_trace))
       = th_timeline (trace_after sample_ops sample_trace) @ fs"
  using trace_append_only [OF sample_trace_made refl refl, where ops = sample_ops and more_ops = "[Compact 9, Seal]"] by blast

text \<open>
  C15: the life of an Action call. Once registered, a call is never forgotten and its identity never
  changes; its execution state only moves forward (requested, started, then one of settled,
  cancelled or unknown; or straight from requested to not executed or settled); and in a terminal
  state its fact, result included, is never changed again by any operation.
\<close>

theorem action_fact_advances:
  assumes "mk_trace_heap turn chunk branch hot = Inr h0" and "h = trace_after ops h0"
    and "map_of (th_actions h) key = Some a" and "h' = trace_after more_ops h"
  shows "\<exists>a'. map_of (th_actions h') key = Some a' \<and> ta_call a' = ta_call a
     \<and> state_le (ta_state a) (ta_state a') \<and> (\<not> terminal_state (ta_state a) \<or> a' = a)"
proof -
  have "trace_inv h"
    using trace_after_inv [OF mk_trace_heap_inv(1) [OF assms(1)], of ops] assms(2) by simp
  from trace_after_keeps [OF this, of more_ops] have "extends h h'" by (simp add: keeps_def assms(4))
  from extends_action [OF this assms(3)] show ?thesis by (auto simp: advances_def)
qed

theorem action_fact_advances_witness:
  "\<exists>a'. map_of (th_actions (trace_after [Seal] (trace_after sample_ops sample_trace))) (''cycle_1'', 1) = Some a'
     \<and> ta_call a' = sample_call"
proof -
  have "map_of (th_actions (trace_after sample_ops sample_trace)) (''cycle_1'', 1)
      = Some \<lparr>ta_cycle_id = ''cycle_1'', ta_call = sample_call, ta_state = ES_REQUESTED, ta_invoke_id = None,
          ta_result = None\<rparr>"
    by code_simp
  from action_fact_advances [OF sample_trace_made refl this refl, of "[Seal]"] show ?thesis by auto
qed

text \<open>
  sealing. \<open>seal\<close> succeeds exactly when no Action is still started; it then marks every requested
  Action as not executed, leaves all others, and hands over all canonical entries, all Action facts
  and the whole timeline.
\<close>

theorem seal_spec:
  assumes "mk_trace_heap turn chunk branch hot = Inr h0" and "h = trace_after ops h0"
  shows "snd (seal h) =
     (if list_ex (\<lambda>a. ta_state a = ES_STARTED) (map snd (th_actions h))
      then Inl (ContextInvariantError ''Sealed Trace contains unsettled Actions'')
      else Inr \<lparr>st_turn_id = th_turn_id h, st_entries = th_entries h,
        st_actions = map sealed_action (map snd (th_actions h)), st_timeline = th_timeline (fst (seal h))\<rparr>)"
proof -
  have inv: "trace_inv h"
    using trace_after_inv [OF mk_trace_heap_inv(1) [OF assms(1)], of ops] assms(2) by simp
  then have act: "action_inv h" by (simp add: trace_inv_def)
  obtain h1 where s: "seal_actions (th_actions h) h = (h1, Inr ())"
    and acts: "th_actions h1 = map (\<lambda>(k, a). (k, sealed_action a)) (th_actions h)" "action_inv h1"
      "other_parts h1 = other_parts h"
    using seal_actions_eq [OF act, of "[]" "th_actions h"] by (cases "seal_actions (th_actions h) h") auto
  note same = other_parts_fields [OF acts(3)]
  have snds: "map snd (th_actions h1) = map sealed_action (map snd (th_actions h))"
    by (simp add: acts(1) split_beta)
  have "map (\<lambda>a. (ta_cycle_id a, ac_sequence (ta_call a))) (map snd (th_actions h1)) = dict_keys (th_actions h1)"
    using acts(2) by (auto simp: action_inv_def action_key_of_def list_all_iff)
  then have dist: "distinct (map (\<lambda>a. (ta_cycle_id a, ac_sequence (ta_call a))) (map snd (th_actions h1)))"
    using acts(2) by (simp only: action_inv_def)
  have unsettled: "list_ex (\<lambda>a. ta_state a = ES_REQUESTED \<or> ta_state a = ES_STARTED) (map snd (th_actions h1))
      = list_ex (\<lambda>a. ta_state a = ES_STARTED) (map snd (th_actions h))"
    unfolding snds by (rule sealed_unsettled)
  have seq: "map tf_sequence (th_timeline h1) = [1..<length (th_timeline h1) + 1]"
    using acts(2) by (simp add: action_inv_def)
  have "th_turn_id h1 \<noteq> []" using inv same by (simp add: trace_inv_def)
  then have "mk_sealed_trace \<lparr>st_turn_id = th_turn_id h1, st_entries = th_entries h1,
      st_actions = map snd (th_actions h1), st_timeline = th_timeline h1\<rparr>
    = (if list_ex (\<lambda>a. ta_state a = ES_STARTED) (map snd (th_actions h))
       then Inl (ContextInvariantError ''Sealed Trace contains unsettled Actions'')
       else Inr \<lparr>st_turn_id = th_turn_id h1, st_entries = th_entries h1,
         st_actions = map snd (th_actions h1), st_timeline = th_timeline h1\<rparr>)"
    using dist unsettled seq by (simp add: mk_sealed_trace_def distinct_remdups_id del: map_map upt_Suc)
  moreover have "fst (seal h) = h1" "snd (seal h) = mk_sealed_trace \<lparr>st_turn_id = th_turn_id h1,
      st_entries = th_entries h1, st_actions = map snd (th_actions h1), st_timeline = th_timeline h1\<rparr>"
    by (simp_all add: seal_def s)
  ultimately show ?thesis by (simp add: same snds del: map_map)
qed

theorem seal_spec_witness:
  "is_ok (snd (seal (trace_after sample_ops sample_trace)))"
proof -
  have "\<not> list_ex (\<lambda>a. ta_state a = ES_STARTED) (map snd (th_actions (trace_after sample_ops sample_trace)))"
    by code_simp
  then show ?thesis using seal_spec [OF sample_trace_made refl, of sample_ops] by (simp add: is_ok_def)
qed



text \<open>
  trace references are canonical. \<open>parse_trace_reference\<close> accepts a text and answers a Turn
  exactly when the Turn is the text of a well-formed identity and the reference is either the
  resource itself or carries one fragment: a known kind and a canonical decimal number, positive
  for entries and nodes (and within the interpreter's 4300 digits).
\<close>

theorem parse_trace_reference_iff:
  "parse_trace_reference ref = Inr turn
     \<longleftrightarrow> (\<exists>t. wf_turn_identity t \<and> turn = turn_identity_str t \<and> trace_reference turn ref)"
  using parse_trace_reference_complete parse_trace_reference_sound by blast

text \<open>
  C36: an over-long fragment is not refused the way a malformed one is. For a reference whose number
  has more than 4300 digits the conversion \<open>int(value)\<close> itself raises \<open>ValueError\<close>, so the caller
  sees that error instead of the contract error every other malformed fragment gives.
\<close>

theorem trace_reference_value_error:
  assumes "wf_turn_identity t" and "kind \<in> set [''entry'', ''action'', ''input'', ''node'']"
    and "ascii_decimal v" and "4300 < length v"
  shows "parse_trace_reference (''turn:trace/'' @ turn_identity_str t @ ''#'' @ kind @ ''/'' @ v)
     = Inl (PyValueError ''Exceeds the limit for integer string conversion'')"
proof -
  let ?s = "turn_identity_str t"
  have absent: "CHR ''#'' \<notin> set (''turn:trace/'' @ ?s)" using hash_not_in_turn by simp
  from py_partition_append [OF absent, of "kind @ ''/'' @ v"]
  have p1: "py_partition (CHR ''#'') (''turn:trace/'' @ ?s @ ''#'' @ kind @ ''/'' @ v)
      = (''turn:trace/'' @ ?s, True, kind @ ''/'' @ v)" by simp
  have "CHR ''/'' \<notin> set kind" using assms(2) by auto
  from py_partition_append [OF this, of v]
  have p2: "py_partition (CHR ''/'') (kind @ ''/'' @ v) = (kind, True, v)" by simp
  show ?thesis
    using p1 p2 assms(2-4) turn_identity_parse_str [OF assms(1)]
    by (simp add: parse_trace_reference_def Let_def removeprefix_append py_int_digits_def del: append.simps)
qed

theorem trace_reference_value_error_witness:
  "parse_trace_reference (''turn:trace/'' @ turn_identity_str (TurnIdentity (CalendarDay 2025 1 2) 3)
       @ ''#'' @ ''node'' @ ''/'' @ replicate 4301 (CHR ''1''))
     = Inl (PyValueError ''Exceeds the limit for integer string conversion'')"
proof (rule trace_reference_value_error)
  have one: "is_digit (CHR ''1'')" by code_simp
  have gen: "ascii_decimal (replicate n (CHR ''1''))" if "0 < n" for n
    using that one by (simp add: ascii_decimal_def list_all_iff)
  show "ascii_decimal (replicate 4301 (CHR ''1''))" by (rule gen) simp
  show "wf_turn_identity (TurnIdentity (CalendarDay 2025 1 2) 3)" by code_simp
  show "4300 < length (replicate 4301 (CHR ''1''))" by (simp only: length_replicate)
qed simp

end
