(* ===== verification/Json_Parse.thy ===== *)
theory Json_Parse
  imports Json
begin

text \<open>
  \<open>json.loads\<close> of the standard library and \<open>bytes.decode("utf-8")\<close>, as the source uses them
  on its own canonical texts and on foreign ones: white space, escapes in either case, the three
  non-finite constants, the limit on the digits of an integer, and the last of several equal
  keys. A float is carried by the text of its literal. A text with a code point above U+00FF,
  written raw or as an escape, lies outside the alphabet of the model and is refused.
\<close>

section \<open>UTF-8\<close>

fun utf8_decode :: "string \<Rightarrow> string option" where
  "utf8_decode [] = Some []"
| "utf8_decode (b # bs) =
     (let n = (of_char b :: nat) in
      if n < 128 then map_option (\<lambda>s. b # s) (utf8_decode bs)
      else if n = 194 \<or> n = 195 then
        (case bs of
           [] \<Rightarrow> None
         | b' # bs' \<Rightarrow>
             (let m = (of_char b' :: nat) in
              if 128 \<le> m \<and> m < 192 then
                map_option (\<lambda>s. char_of ((n - 192) * 64 + (m - 128)) # s) (utf8_decode bs')
              else None))
      else None)"

section \<open>Scanning\<close>

definition json_space :: "char \<Rightarrow> bool" where
  "json_space c = (c = CHR '' '' \<or> c = CHR 0x09 \<or> c = CHR 0x0A \<or> c = CHR 0x0D)"

definition skip_space :: "string \<Rightarrow> string" where
  "skip_space s = dropWhile json_space s"

definition hex_value :: "char \<Rightarrow> nat option" where
  "hex_value c =
     (let n = (of_char c :: nat) in
      if 48 \<le> n \<and> n \<le> 57 then Some (n - 48)
      else if 97 \<le> n \<and> n \<le> 102 then Some (n - 87)
      else if 65 \<le> n \<and> n \<le> 70 then Some (n - 55)
      else None)"

fun hex4 :: "string \<Rightarrow> (nat \<times> string) option" where
  "hex4 (a # b # c # d # r) =
     (case (hex_value a, hex_value b, hex_value c, hex_value d) of
        (Some x, Some y, Some z, Some w) \<Rightarrow> Some (((x * 16 + y) * 16 + z) * 16 + w, r)
      | _ \<Rightarrow> None)"
| "hex4 _ = None"

definition unescape :: "char \<Rightarrow> char option" where
  "unescape c =
     (if c = CHR 0x22 \<or> c = CHR 0x5C \<or> c = CHR ''/'' then Some c
      else if c = CHR ''b'' then Some (CHR 0x08)
      else if c = CHR ''f'' then Some (CHR 0x0C)
      else if c = CHR ''n'' then Some (CHR 0x0A)
      else if c = CHR ''r'' then Some (CHR 0x0D)
      else if c = CHR ''t'' then Some (CHR 0x09)
      else None)"

lemma hex4_shorter: "hex4 s = Some (n, r) \<Longrightarrow> length r < length s"
  by (cases s rule: hex4.cases) (auto split: option.splits)

text \<open>The rest of a string after its opening quote: the contents and what follows the closing one.\<close>

function scan_string :: "string \<Rightarrow> (string \<times> string) option" where
  "scan_string s =
     (case s of
        [] \<Rightarrow> None
      | c # cs \<Rightarrow>
          if c = CHR 0x22 then Some ([], cs)
          else if c = CHR 0x5C then
            (case cs of
               [] \<Rightarrow> None
             | e # r \<Rightarrow>
                 if e = CHR ''u'' then
                   (case hex4 r of
                      None \<Rightarrow> None
                    | Some p \<Rightarrow>
                        if fst p < 256 then
                          map_option (\<lambda>q. (char_of (fst p) # fst q, snd q)) (scan_string (snd p))
                        else None)
                 else
                   (case unescape e of
                      None \<Rightarrow> None
                    | Some x \<Rightarrow> map_option (\<lambda>q. (x # fst q, snd q)) (scan_string r)))
          else if (of_char c :: nat) < 32 then None
          else map_option (\<lambda>q. (c # fst q, snd q)) (scan_string cs))"
  by pat_completeness auto
termination by (relation "measure length") (auto dest: hex4_shorter)

declare scan_string.simps [simp del]

lemma scan_string_shorter: "scan_string s = Some (k, r) \<Longrightarrow> length r < length s"
proof (induction "length s" arbitrary: s k r rule: less_induct)
  case less
  from less.prems obtain c cs where s: "s = c # cs"
    by (subst (asm) scan_string.simps) (auto split: list.splits)
  have rec: "length r < length t" if "map_option (\<lambda>q. (x # fst q, snd q)) (scan_string t) = Some (k, r)"
    and "length t \<le> length cs" for x t
    using that less.hyps [of t] s by auto
  show ?case
  proof (cases "c = CHR 0x22 \<or> c \<noteq> CHR 0x5C")
    case True
    then show ?thesis
      using less.prems rec [of c cs] s by (subst (asm) scan_string.simps) (auto split: if_splits)
  next
    case False
    then obtain e t where cs: "cs = e # t"
      using less.prems s by (subst (asm) scan_string.simps) (auto split: list.splits)
    show ?thesis
    proof (cases "e = CHR ''u''")
      case True
      with False cs s less.prems obtain p where p: "hex4 t = Some p"
        and m: "map_option (\<lambda>q. (char_of (fst p) # fst q, snd q)) (scan_string (snd p)) = Some (k, r)"
        by (subst (asm) scan_string.simps) (auto split: option.splits if_splits)
      have "length (snd p) < length t" using p hex4_shorter by (metis prod.collapse)
      then show ?thesis using rec [OF m] cs s by simp
    next
      case neq: False
      with False cs s less.prems obtain x
        where m: "map_option (\<lambda>q. (x # fst q, snd q)) (scan_string t) = Some (k, r)"
        by (subst (asm) scan_string.simps) (auto split: option.splits if_splits)
      then show ?thesis using rec [OF m] cs s by simp
    qed
  qed
qed

text \<open>
  A number: an optional sign, zero or digits without a leading zero, a fraction and an exponent
  that are only read when a digit follows. An integer of more than 4300 digits is refused.
\<close>

definition scan_sign :: "string \<Rightarrow> string \<times> string" where
  "scan_sign s = (if s \<noteq> [] \<and> hd s = CHR ''-'' then ([CHR ''-''], tl s) else ([], s))"

definition scan_int_part :: "string \<Rightarrow> (string \<times> string) option" where
  "scan_int_part s =
     (if s = [] \<or> \<not> is_digit (hd s) then None
      else if hd s = CHR ''0'' then Some (''0'', tl s)
      else Some (takeWhile is_digit s, dropWhile is_digit s))"

definition scan_fraction :: "string \<Rightarrow> string \<times> string" where
  "scan_fraction s =
     (if s \<noteq> [] \<and> hd s = CHR ''.'' \<and> takeWhile is_digit (tl s) \<noteq> []
      then (CHR ''.'' # takeWhile is_digit (tl s), dropWhile is_digit (tl s)) else ([], s))"

definition scan_exp_sign :: "string \<Rightarrow> string \<times> string" where
  "scan_exp_sign s =
     (if s \<noteq> [] \<and> (hd s = CHR ''+'' \<or> hd s = CHR ''-'') then ([hd s], tl s) else ([], s))"

definition scan_exponent :: "string \<Rightarrow> string \<times> string" where
  "scan_exponent s =
     (if s \<noteq> [] \<and> (hd s = CHR ''e'' \<or> hd s = CHR ''E'')
         \<and> takeWhile is_digit (snd (scan_exp_sign (tl s))) \<noteq> []
      then (hd s # fst (scan_exp_sign (tl s)) @ takeWhile is_digit (snd (scan_exp_sign (tl s))),
            dropWhile is_digit (snd (scan_exp_sign (tl s))))
      else ([], s))"

definition number_of :: "string \<Rightarrow> string \<Rightarrow> string \<Rightarrow> string \<Rightarrow> json option" where
  "number_of sign digits frac ex =
     (if frac = [] \<and> ex = [] then
        map_option (\<lambda>n. JInt (if sign = [] then int n else - int n)) (py_int_digits digits)
      else Some (JFloat (Finite (sign @ digits @ frac @ ex))))"

definition scan_number :: "string \<Rightarrow> (json \<times> string) option" where
  "scan_number s =
     (let sg = scan_sign s in
      case scan_int_part (snd sg) of
        None \<Rightarrow> None
      | Some ip \<Rightarrow>
          (let fr = scan_fraction (snd ip); ex = scan_exponent (snd fr) in
           map_option (\<lambda>v. (v, snd ex)) (number_of (fst sg) (fst ip) (fst fr) (fst ex))))"

section \<open>Values\<close>

lemma length_skip_space: "length (skip_space s) \<le> length s"
  by (simp add: skip_space_def length_dropWhile_le)

lemma skip_space_bounds:
  "length s < n \<Longrightarrow> length (skip_space s) < n"
  "length s < n \<Longrightarrow> 2 * length (skip_space s) < 2 * n"
  "length s < n \<Longrightarrow> Suc (2 * length (skip_space s)) < 2 * n"
  "length s < n \<Longrightarrow> 2 * length (skip_space s) < Suc (2 * n)"
  using length_skip_space [of s] by simp_all

text \<open>
  The recursion follows the rest of the text. The comparison of lengths after a comma is always
  true (\<open>parse_shorter\<close>); it is there for the termination of the function.
\<close>

function (sequential) parse_value :: "string \<Rightarrow> (json \<times> string) option"
  and parse_elems :: "string \<Rightarrow> (json list \<times> string) option"
  and parse_members :: "string \<Rightarrow> json_object \<Rightarrow> (json_object \<times> string) option"
where
  "parse_value s =
     (case s of
        [] \<Rightarrow> None
      | c # cs \<Rightarrow>
          if c = CHR 0x22 then map_option (\<lambda>p. (JStr (fst p), snd p)) (scan_string cs)
          else if c = CHR ''{'' then
            (if skip_space cs = [] then None
             else if hd (skip_space cs) = CHR ''}'' then Some (JObj [], tl (skip_space cs))
             else map_option (\<lambda>p. (JObj (fst p), snd p)) (parse_members (skip_space cs) []))
          else if c = CHR ''['' then
            (if skip_space cs = [] then None
             else if hd (skip_space cs) = CHR '']'' then Some (JArr [], tl (skip_space cs))
             else map_option (\<lambda>p. (JArr (fst p), snd p)) (parse_elems (skip_space cs)))
          else if py_startswith s ''null'' then Some (JNull, drop 4 s)
          else if py_startswith s ''true'' then Some (JBool True, drop 4 s)
          else if py_startswith s ''false'' then Some (JBool False, drop 5 s)
          else if py_startswith s ''NaN'' then Some (JFloat NaN, drop 3 s)
          else if py_startswith s ''Infinity'' then Some (JFloat PosInf, drop 8 s)
          else if py_startswith s ''-Infinity'' then Some (JFloat NegInf, drop 9 s)
          else scan_number s)"
| "parse_elems s =
     (case parse_value s of
        None \<Rightarrow> None
      | Some p \<Rightarrow>
          (case skip_space (snd p) of
             [] \<Rightarrow> None
           | c # cs \<Rightarrow>
               if c = CHR '']'' then Some ([fst p], cs)
               else if c = CHR '','' \<and> length cs < length s then
                 map_option (\<lambda>q. (fst p # fst q, snd q)) (parse_elems (skip_space cs))
               else None))"
| "parse_members s acc =
     (case s of
        [] \<Rightarrow> None
      | q # s1 \<Rightarrow>
          if q \<noteq> CHR 0x22 then None
          else
            (case scan_string s1 of
               None \<Rightarrow> None
             | Some kp \<Rightarrow>
                 (case skip_space (snd kp) of
                    [] \<Rightarrow> None
                  | d # s3 \<Rightarrow>
                      if d \<noteq> CHR '':'' \<or> \<not> length s3 < length s then None
                      else
                        (case parse_value (skip_space s3) of
                           None \<Rightarrow> None
                         | Some vp \<Rightarrow>
                             (let acc' = AList.update (fst kp) (fst vp) acc in
                              case skip_space (snd vp) of
                                [] \<Rightarrow> None
                              | c # cs \<Rightarrow>
                                  if c = CHR ''}'' then Some (acc', cs)
                                  else if c = CHR '','' \<and> length cs < length s then
                                    parse_members (skip_space cs) acc'
                                  else None)))))"
  by pat_completeness auto

termination
  by (relation "measure (\<lambda>x. case x of Inl s \<Rightarrow> 2 * length s
      | Inr (Inl s) \<Rightarrow> 2 * length s + 1 | Inr (Inr (s, _)) \<Rightarrow> 2 * length s + 1)")
    (simp_all add: skip_space_bounds del: mult_Suc_right)

declare parse_value.simps [simp del] parse_elems.simps [simp del] parse_members.simps [simp del]

definition json_loads :: "string \<Rightarrow> json option" where
  "json_loads s =
     (case parse_value (skip_space s) of
        None \<Rightarrow> None
      | Some p \<Rightarrow> if skip_space (snd p) = [] then Some (fst p) else None)"

section \<open>Every success consumes input\<close>

lemma scan_number_shorter: "scan_number s = Some (v, r) \<Longrightarrow> length r < length s"
proof -
  assume "scan_number s = Some (v, r)"
  then obtain ip where ip: "scan_int_part (snd (scan_sign s)) = Some ip"
    and r: "r = snd (scan_exponent (snd (scan_fraction (snd ip))))"
    by (auto simp: scan_number_def Let_def split: option.splits)
  have drop: "length (dropWhile is_digit t) \<le> length t" for t by (rule length_dropWhile_le)
  have "length (snd (scan_exponent t)) \<le> length t" for t
    using drop [of "snd (scan_exp_sign (tl t))"]
    by (auto simp: scan_exponent_def scan_exp_sign_def split: if_splits)
  moreover have "length (snd (scan_fraction t)) \<le> length t" for t
    using drop [of "tl t"] by (auto simp: scan_fraction_def split: if_splits)
  moreover have "length (snd ip) < length (snd (scan_sign s))"
    using ip drop [of "tl (snd (scan_sign s))"]
    by (cases "snd (scan_sign s)") (auto simp: scan_int_part_def split: if_splits)
  moreover have "length (snd (scan_sign s)) \<le> length s"
    by (simp add: scan_sign_def)
  ultimately show ?thesis unfolding r by (meson le_less_trans less_le_trans)
qed

lemma length_skip_less: "skip_space t = c # cs \<Longrightarrow> length cs < length t"
  using length_skip_space [of t] by simp

lemma parse_shorter:
  "parse_value s = Some (v, r) \<Longrightarrow> length r < length s"
  "parse_elems s = Some (vs, r) \<Longrightarrow> length r < length s"
  "parse_members s acc = Some (kvs, r) \<Longrightarrow> length r < length s"
proof (induction s and s and s acc arbitrary: v r and vs r and kvs r
    rule: parse_value_parse_elems_parse_members.induct)
  case (1 s)
  then obtain c cs where s: "s = c # cs"
    by (subst (asm) parse_value.simps) (auto split: list.splits)
  have sk: "length (skip_space cs) \<le> length cs" by (rule length_skip_space)
  consider (str) "c = CHR 0x22" | (obj) "c = CHR ''{''" | (arr) "c = CHR ''[''"
    | (other) "c \<noteq> CHR 0x22" "c \<noteq> CHR ''{''" "c \<noteq> CHR ''[''" by blast
  then show ?case
  proof cases
    case str
    then show ?thesis using "1.prems" s
      by (subst (asm) parse_value.simps) (auto dest: scan_string_shorter)
  next
    case obj
    show ?thesis using "1.prems" s obj sk "1.IH"(1) [OF s]
      by (subst (asm) parse_value.simps) (auto split: if_splits simp: neq_Nil_conv dest: length_skip_less)
  next
    case arr
    show ?thesis using "1.prems" s arr sk "1.IH"(2) [OF s]
      by (subst (asm) parse_value.simps) (auto split: if_splits simp: neq_Nil_conv dest: length_skip_less)
  next
    case other
    then show ?thesis using "1.prems" s scan_number_shorter [of s v r]
      by (subst (asm) parse_value.simps) (auto split: if_splits)
  qed
next
  case (2 s)
  then obtain v r1 where v: "parse_value s = Some (v, r1)"
    by (subst (asm) parse_elems.simps) (auto split: option.splits)
  have l: "length r1 < length s" using "2.IH"(1) v by blast
  from "2.prems" v obtain c cs where c: "skip_space r1 = c # cs"
    by (subst (asm) parse_elems.simps) (auto split: list.splits)
  have cs: "length cs < length s" using length_skip_less [OF c] l by simp
  show ?case
  proof (cases "c = CHR '']''")
    case True
    then show ?thesis using "2.prems" v c cs by (subst (asm) parse_elems.simps) auto
  next
    case False
    with "2.prems" v c cs obtain q where q: "parse_elems (skip_space cs) = Some q" and r: "r = snd q"
      and comma: "c = CHR '',''"
      by (subst (asm) parse_elems.simps) (auto split: if_splits)
    have "length (snd q) < length (skip_space cs)"
      using "2.IH"(2) [of "(v, r1)" c cs "fst q" "snd q"] v c cs comma False q by simp
    then show ?thesis using r cs length_skip_space [of cs] by simp
  qed
next
  case (3 s acc)
  then obtain s1 where s: "s = CHR 0x22 # s1"
    by (subst (asm) parse_members.simps) (auto split: list.splits if_splits)
  with "3.prems" obtain kp where k: "scan_string s1 = Some kp"
    by (subst (asm) parse_members.simps) (auto split: option.splits)
  with "3.prems" s obtain s3 where d: "skip_space (snd kp) = CHR '':'' # s3" and l3: "length s3 < length s"
    by (subst (asm) parse_members.simps) (auto split: list.splits if_splits)
  with "3.prems" s k obtain vp where v: "parse_value (skip_space s3) = Some vp"
    by (subst (asm) parse_members.simps) (auto split: option.splits)
  have lv: "length (snd vp) < length (skip_space s3)"
    using "3.IH"(1) [of "CHR 0x22" s1 kp "CHR '':''" s3 "fst vp" "snd vp"] s k d l3 v by simp
  from "3.prems" s k d l3 v obtain c cs where c: "skip_space (snd vp) = c # cs"
    by (subst (asm) parse_members.simps) (auto simp: Let_def split: list.splits)
  have cs: "length cs < length s"
    using length_skip_less [OF c] lv l3 length_skip_space [of s3] by simp
  show ?case
  proof (cases "c = CHR ''}''")
    case True
    then show ?thesis using "3.prems" s k d l3 v c cs
      by (subst (asm) parse_members.simps) (auto simp: Let_def)
  next
    case False
    with "3.prems" s k d l3 v c cs
    have q: "parse_members (skip_space cs) (AList.update (fst kp) (fst vp) acc) = Some (kvs, r)"
      and comma: "c = CHR '',''"
      by (subst (asm) parse_members.simps, auto simp: Let_def split: if_splits)+
    have "length r < length (skip_space cs)"
      using "3.IH"(2) [of "CHR 0x22" s1 kp "CHR '':''" s3 vp _ c cs kvs r] s k d l3 v c cs comma False q
      by simp
    then show ?thesis using cs length_skip_space [of cs] by simp
  qed
qed

end
