(* ===== verification/Json_Round.thy ===== *)
theory Json_Round
  imports Json_Parse
begin

text \<open>
  The canonical text of a JSON value read back: \<open>json_loads (dumps_json v)\<close> is \<open>v\<close> with the
  members of its objects sorted, which is \<open>v\<close> again under Python's equality of dictionaries.
  And the length of the text, computed from the parts of the value.
\<close>

section \<open>Python equality of JSON values\<close>

text \<open>
  \<open>==\<close> on JSON values: dictionaries compare without their order, \<open>True\<close> is \<open>1\<close>, a float
  equals the integer it spells with a zero fraction, and \<open>NaN\<close> equals nothing.
\<close>

fun float_eq_int :: "pyfloat \<Rightarrow> int \<Rightarrow> bool" where
  "float_eq_int (Finite r) i = (r = show_int i @ ''.0'' \<or> (i = 0 \<and> r = ''-0.0''))"
| "float_eq_int _ i = False"

definition float_zero :: "pyfloat \<Rightarrow> bool" where
  "float_zero x = (x = Finite ''0.0'' \<or> x = Finite ''-0.0'')"

definition float_eq :: "pyfloat \<Rightarrow> pyfloat \<Rightarrow> bool" where
  "float_eq x y = ((x = y \<and> x \<noteq> NaN) \<or> (float_zero x \<and> float_zero y))"

definition int_of_bool :: "bool \<Rightarrow> int" where
  "int_of_bool b = (if b then 1 else 0)"

fun json_eq :: "json \<Rightarrow> json \<Rightarrow> bool" where
  "json_eq JNull y = (y = JNull)"
| "json_eq (JBool b) y =
     (case y of JBool c \<Rightarrow> b = c | JInt i \<Rightarrow> int_of_bool b = i
      | JFloat f \<Rightarrow> float_eq_int f (int_of_bool b) | _ \<Rightarrow> False)"
| "json_eq (JInt i) y =
     (case y of JBool c \<Rightarrow> i = int_of_bool c | JInt j \<Rightarrow> i = j | JFloat f \<Rightarrow> float_eq_int f i | _ \<Rightarrow> False)"
| "json_eq (JFloat f) y =
     (case y of JBool c \<Rightarrow> float_eq_int f (int_of_bool c) | JInt j \<Rightarrow> float_eq_int f j
      | JFloat g \<Rightarrow> float_eq f g | _ \<Rightarrow> False)"
| "json_eq (JStr s) y = (y = JStr s)"
| "json_eq (JArr xs) y = (case y of JArr ys \<Rightarrow> list_all2 json_eq xs ys | _ \<Rightarrow> False)"
| "json_eq (JObj kvs) y =
     (case y of
        JObj kws \<Rightarrow> length kvs = length kws
          \<and> list_all (\<lambda>(k, v). case map_of kws k of None \<Rightarrow> False | Some w \<Rightarrow> json_eq v w) kvs
      | _ \<Rightarrow> False)"

section \<open>The canonical value\<close>

fun json_canon :: "json \<Rightarrow> json" where
  "json_canon (JArr xs) = JArr (map json_canon xs)"
| "json_canon (JObj kvs) = JObj (sort_key fst (map (\<lambda>(k, v). (k, json_canon v)) kvs))"
| "json_canon v = v"

text \<open>
  The values \<open>json.loads\<close> reads back: objects with distinct keys, integers within the limit of
  4300 digits, floats carried by a literal.
\<close>

definition float_literal :: "pyfloat \<Rightarrow> bool" where
  "float_literal x = (case x of Finite r \<Rightarrow> scan_number r = Some (JFloat (Finite r), []) | _ \<Rightarrow> True)"

fun json_loadable :: "json \<Rightarrow> bool" where
  "json_loadable (JInt i) = (length (show_nat (nat \<bar>i\<bar>)) \<le> 4300)"
| "json_loadable (JFloat x) = float_literal x"
| "json_loadable (JArr xs) = list_all json_loadable xs"
| "json_loadable (JObj kvs) = (distinct (dict_keys kvs) \<and> list_all (\<lambda>(k, v). json_loadable v) kvs)"
| "json_loadable _ = True"

section \<open>UTF-8\<close>

lemma char_codes:
  "char_of (34 :: nat) = CHR 0x22" "char_of (92 :: nat) = CHR 0x5C" "char_of (8 :: nat) = CHR 0x08"
  "char_of (12 :: nat) = CHR 0x0C" "char_of (10 :: nat) = CHR 0x0A" "char_of (13 :: nat) = CHR 0x0D"
  "char_of (9 :: nat) = CHR 0x09"
  by code_simp+

lemma utf8_decode_char: "utf8_decode (utf8_char c @ t) = map_option (\<lambda>s. c # s) (utf8_decode t)"
proof (cases "(of_char c :: nat) < 128")
  case False
  let ?n = "of_char c :: nat"
  have lt: "?n < 256" by simp
  have "?n div 64 < 4" using lt by (simp add: less_mult_imp_div_less)
  moreover have "128 div 64 \<le> ?n div 64" using False by (intro div_le_mono) simp
  ultimately have d: "?n div 64 = 2 \<or> ?n div 64 = 3" by auto
  have m: "?n mod 64 < 64" by simp
  have split: "?n div 64 * 64 + ?n mod 64 = ?n" by (rule div_mult_mod_eq)
  from d show ?thesis
  proof
    assume 2: "?n div 64 = 2"
    then have "128 + ?n mod 64 = ?n" using split by simp
    then have "char_of (128 + ?n mod 64) = c" by (metis char_of_char)
    moreover have "128 \<le> ?n" "?n < 192" using 2 split m by linarith+
    ultimately show ?thesis using 2 m by (simp add: utf8_char_def Let_def)
  next
    assume 3: "?n div 64 = 3"
    then have "192 + ?n mod 64 = ?n" using split by simp
    then have "char_of (192 + ?n mod 64) = c" by (metis char_of_char)
    moreover have "192 \<le> ?n" using 3 split by linarith
    ultimately show ?thesis using 3 m by (simp add: utf8_char_def Let_def)
  qed
qed (simp add: utf8_char_def)

lemma utf8_decode_utf8 [simp]: "utf8_decode (utf8 s) = Some s"
  by (induction s) (simp_all add: utf8_def utf8_decode_char)

section \<open>Strings\<close>

lemma scan_string_plain:
  assumes "(of_char c :: nat) \<ge> 32" "c \<noteq> CHR 0x22" "c \<noteq> CHR 0x5C"
  shows "scan_string (c # t) = map_option (\<lambda>q. (c # fst q, snd q)) (scan_string t)"
  using assms by (subst scan_string.simps) simp

lemma hex_value_digit: "n < 16 \<Longrightarrow> hex_value (hex_digit n) = Some n"
  by (auto simp: hex_value_def hex_digit_def Let_def)

lemma scan_escaped:
  "e \<noteq> CHR ''u'' \<Longrightarrow> unescape e = Some x \<Longrightarrow>
   scan_string (CHR 0x5C # e # t) = map_option (\<lambda>q. (x # fst q, snd q)) (scan_string t)"
  by (subst scan_string.simps) simp

lemma named_escapes:
  "\<forall>c \<in> {CHR 0x22, CHR 0x5C, CHR 0x08, CHR 0x0C, CHR 0x0A, CHR 0x0D, CHR 0x09}.
     \<exists>e. json_escape_char c = [CHR 0x5C, e] \<and> e \<noteq> CHR ''u'' \<and> unescape e = Some c"
proof -
  have "json_escape_char (CHR 0x22) = [CHR 0x5C, CHR 0x22]" "json_escape_char (CHR 0x5C) = [CHR 0x5C, CHR 0x5C]"
    "json_escape_char (CHR 0x08) = [CHR 0x5C, CHR ''b'']" "json_escape_char (CHR 0x0C) = [CHR 0x5C, CHR ''f'']"
    "json_escape_char (CHR 0x0A) = [CHR 0x5C, CHR ''n'']" "json_escape_char (CHR 0x0D) = [CHR 0x5C, CHR ''r'']"
    "json_escape_char (CHR 0x09) = [CHR 0x5C, CHR ''t'']"
    by code_simp+
  then show ?thesis by (simp add: unescape_def)
qed

lemma scan_string_escape:
  "scan_string (json_escape_char c @ t) = map_option (\<lambda>q. (c # fst q, snd q)) (scan_string t)"
proof -
  let ?n = "of_char c :: nat"
  have c: "c = char_of ?n" by simp
  consider (named) "?n \<in> {34, 92, 8, 12, 10, 13, 9}"
    | (hex) "?n \<notin> {34, 92, 8, 12, 10, 13, 9}" "?n < 32"
    | (plain) "?n \<notin> {34, 92}" "32 \<le> ?n" by force
  then show ?thesis
  proof cases
    case named
    then have "c \<in> char_of ` {34 :: nat, 92, 8, 12, 10, 13, 9}" using c by (metis image_eqI)
    then have "c \<in> {CHR 0x22, CHR 0x5C, CHR 0x08, CHR 0x0C, CHR 0x0A, CHR 0x0D, CHR 0x09}"
      by (simp add: char_codes)
    then obtain e where "json_escape_char c = [CHR 0x5C, e]" "e \<noteq> CHR ''u''" "unescape e = Some c"
      using named_escapes by blast
    then show ?thesis by (simp add: scan_escaped)
  next
    case hex
    have "?n div 16 < 16" "?n mod 16 < 16" using hex by simp_all
    moreover have "?n div 16 * 16 + ?n mod 16 = ?n" by (rule div_mult_mod_eq)
    moreover have "hex_value (CHR ''0'') = Some 0" by (simp add: hex_value_def)
    moreover have "json_escape_char c
        = [CHR 0x5C, CHR ''u'', CHR ''0'', CHR ''0'', hex_digit (?n div 16), hex_digit (?n mod 16)]"
      using hex by (simp add: json_escape_char_def char_codes Let_def)
    ultimately show ?thesis
      by (subst scan_string.simps) (simp add: hex_value_digit)
  next
    case plain
    then have "c \<noteq> CHR 0x22" "c \<noteq> CHR 0x5C" by auto
    with plain show ?thesis by (auto simp: json_escape_char_def Let_def scan_string_plain)
  qed
qed

lemma scan_string_body:
  "scan_string (concat (map json_escape_char s) @ CHR 0x22 # t) = Some (s, t)"
proof (induction s)
  case Nil
  show ?case by (subst scan_string.simps) simp
next
  case (Cons c s)
  then show ?case by (simp add: scan_string_escape)
qed

lemma json_quote_alt: "json_quote s = CHR 0x22 # concat (map json_escape_char s) @ [CHR 0x22]"
  by (simp add: json_quote_def char_codes Let_def)

lemma parse_quote: "parse_value (json_quote s @ t) = Some (JStr s, t)"
  by (subst parse_value.simps) (simp add: json_quote_alt scan_string_body)

section \<open>Numbers\<close>

text \<open>The text after a value: it starts with nothing a number could go on with.\<close>

definition delimited :: "string \<Rightarrow> bool" where
  "delimited t = (t = [] \<or> hd t \<in> {CHR '','', CHR '']'', CHR ''}''})"

lemma delimited_intros [simp]:
  "delimited []" "delimited (CHR '','' # t)" "delimited (CHR '']'' # t)" "delimited (CHR ''}'' # t)"
  by (simp_all add: delimited_def)

lemma delimited_cases:
  assumes "delimited t" "t \<noteq> []"
  shows "\<not> is_digit (hd t)" "hd t \<notin> {CHR ''.'', CHR ''e'', CHR ''E'', CHR ''+'', CHR ''-''}"
    "\<not> json_space (hd t)"
proof -
  have "hd t \<in> {CHR '','', CHR '']'', CHR ''}''}" using assms by (simp add: delimited_def)
  then show "\<not> is_digit (hd t)" "hd t \<notin> {CHR ''.'', CHR ''e'', CHR ''E'', CHR ''+'', CHR ''-''}"
    "\<not> json_space (hd t)"
    by (auto simp: is_digit_def json_space_def)
qed

lemma skip_space_delimited: "delimited t \<Longrightarrow> skip_space t = t"
  by (cases t) (use delimited_cases(3) [of t] in \<open>auto simp: skip_space_def\<close>)

lemma digits_append:
  assumes "delimited t"
  shows "takeWhile is_digit (s @ t) = takeWhile is_digit s"
    and "dropWhile is_digit (s @ t) = dropWhile is_digit s @ t"
proof -
  have t: "takeWhile is_digit t = []" "dropWhile is_digit t = t"
    using delimited_cases(1) [OF assms] by (cases t; simp)+
  show "takeWhile is_digit (s @ t) = takeWhile is_digit s"
    "dropWhile is_digit (s @ t) = dropWhile is_digit s @ t"
    by (induction s) (simp_all add: t)
qed

lemma scan_fraction_append:
  assumes "delimited t"
  shows "scan_fraction (s @ t) = (fst (scan_fraction s), snd (scan_fraction s) @ t)"
proof (cases s)
  case Nil
  then show ?thesis using delimited_cases(2) [OF assms] by (auto simp: scan_fraction_def)
next
  case (Cons c cs)
  then show ?thesis using digits_append [OF assms, of cs] by (simp add: scan_fraction_def)
qed

lemma scan_exp_sign_append:
  assumes "delimited t"
  shows "scan_exp_sign (s @ t) = (fst (scan_exp_sign s), snd (scan_exp_sign s) @ t)"
  using delimited_cases(2) [OF assms] by (cases s) (auto simp: scan_exp_sign_def)

lemma scan_exponent_append:
  assumes "delimited t"
  shows "scan_exponent (s @ t) = (fst (scan_exponent s), snd (scan_exponent s) @ t)"
proof (cases s)
  case Nil
  then show ?thesis using delimited_cases(2) [OF assms] by (auto simp: scan_exponent_def)
next
  case (Cons c cs)
  then show ?thesis
    using digits_append [OF assms, of "snd (scan_exp_sign cs)"] scan_exp_sign_append [OF assms, of cs]
    by (simp add: scan_exponent_def)
qed

lemma scan_int_part_append:
  assumes "delimited t" "scan_int_part s = Some p"
  shows "scan_int_part (s @ t) = Some (fst p, snd p @ t)"
  using assms digits_append [OF assms(1), of s]
  by (cases s) (auto simp: scan_int_part_def split: if_splits)

lemma scan_number_append:
  assumes t: "delimited t" and out: "scan_number s = Some (v, r)"
  shows "scan_number (s @ t) = Some (v, r @ t)"
proof -
  from out obtain ip where ip: "scan_int_part (snd (scan_sign s)) = Some ip"
    by (auto simp: scan_number_def Let_def split: option.splits)
  have "s \<noteq> []" using ip by (auto simp: scan_int_part_def scan_sign_def)
  then have sign: "scan_sign (s @ t) = (fst (scan_sign s), snd (scan_sign s) @ t)"
    by (auto simp: scan_sign_def)
  show ?thesis using out ip
    by (auto simp: scan_number_def Let_def sign scan_int_part_append [OF t ip]
        scan_fraction_append [OF t] scan_exponent_append [OF t])
qed

lemma show_nat_head: "0 < n \<Longrightarrow> hd (show_nat n) \<noteq> CHR ''0''"
proof (induction n rule: show_nat.induct)
  case (1 n)
  show ?case
  proof (cases "n < 10")
    case True
    have "digit_char n \<noteq> CHR ''0''"
    proof
      assume "digit_char n = CHR ''0''"
      then have "(of_char (digit_char n) :: nat) = of_char (CHR ''0'')" by simp
      with True "1.prems" show False by simp
    qed
    with True show ?thesis by (subst show_nat.simps) simp
  next
    case False
    then have "hd (show_nat (n div 10)) \<noteq> CHR ''0''" using 1 by simp
    with False show ?thesis by (subst show_nat.simps) simp
  qed
qed

lemma scan_int_part_show:
  "scan_int_part (show_nat n) = Some (show_nat n, [])"
proof (cases "n = 0")
  case True
  moreover have "show_nat 0 = ''0''" by code_simp
  ultimately show ?thesis by (simp add: scan_int_part_def is_digit_def)
next
  case False
  have d: "list_all is_digit (show_nat n)" by (rule show_nat_digits)
  then have "is_digit (hd (show_nat n))" by (cases "show_nat n") auto
  moreover have "takeWhile is_digit (show_nat n) = show_nat n" "dropWhile is_digit (show_nat n) = []"
    using d by (simp_all add: list_all_iff)
  ultimately show ?thesis using False by (simp add: scan_int_part_def show_nat_head)
qed

lemma scan_sign_show: "scan_sign (show_nat n) = ([], show_nat n)"
proof -
  have "hd (show_nat n) \<noteq> CHR ''-''"
    using show_nat_digits [of n] digit_not_dash by (cases "show_nat n") auto
  then show ?thesis by (simp add: scan_sign_def)
qed

lemma scan_number_int:
  assumes "length (show_nat (nat \<bar>i\<bar>)) \<le> 4300"
  shows "scan_number (show_int i) = Some (JInt i, [])"
proof (cases "i < 0")
  case True
  then have "scan_sign (show_int i) = ([CHR ''-''], show_nat (nat \<bar>i\<bar>))"
    by (simp add: show_int_def scan_sign_def)
  then show ?thesis using assms True
    by (simp add: scan_number_def scan_int_part_show scan_fraction_def scan_exponent_def number_of_def
        py_int_digits_def)
next
  case False
  then have "scan_sign (show_int i) = ([], show_nat (nat \<bar>i\<bar>))"
    by (simp add: show_int_def scan_sign_show)
  then show ?thesis using assms False
    by (simp add: scan_number_def scan_int_part_show scan_fraction_def scan_exponent_def number_of_def
        py_int_digits_def)
qed

section \<open>Reading the canonical text\<close>

text \<open>A text that starts a value: not with a space and not with a closing bracket.\<close>

definition value_start :: "string \<Rightarrow> bool" where
  "value_start s = (s \<noteq> [] \<and> \<not> json_space (hd s) \<and> hd s \<noteq> CHR '']'' \<and> hd s \<noteq> CHR ''}'')"

lemma skip_space_start: "value_start s \<Longrightarrow> skip_space (s @ t) = s @ t"
  by (cases s) (auto simp: value_start_def skip_space_def)

lemma scan_number_start:
  assumes "scan_number s = Some (v, r)"
  obtains (digit) c cs where "s = c # cs" "is_digit c"
    | (minus) c cs where "s = CHR ''-'' # c # cs" "is_digit c"
proof -
  have "scan_int_part (snd (scan_sign s)) \<noteq> None"
    using assms by (auto simp: scan_number_def Let_def split: option.splits)
  then have n: "snd (scan_sign s) \<noteq> []" "is_digit (hd (snd (scan_sign s)))"
    by (auto simp: scan_int_part_def split: if_splits)
  then obtain c cs where s: "snd (scan_sign s) = c # cs" "is_digit c"
    by (cases "snd (scan_sign s)") auto
  show thesis
  proof (cases "s \<noteq> [] \<and> hd s = CHR ''-''")
    case True
    then show thesis using s minus by (cases s) (auto simp: scan_sign_def)
  next
    case False
    then have "s = c # cs" using s by (auto simp: scan_sign_def split: if_splits)
    then show thesis using s digit by blast
  qed
qed

lemma digit_facts:
  assumes "is_digit c"
  shows "\<not> json_space c"
    "c \<notin> {CHR 0x22, CHR ''{'', CHR ''['', CHR '']'', CHR ''}'', CHR ''n'', CHR ''t'', CHR ''f'', CHR ''N'', CHR ''I'', CHR ''-''}"
  using assms by (auto simp: is_digit_def json_space_def)

lemma number_start: "scan_number s = Some (v, r) \<Longrightarrow> value_start s"
  by (erule scan_number_start) (use digit_facts in \<open>auto simp: value_start_def json_space_def\<close>)

lemma parse_number:
  assumes out: "scan_number s = Some (v, [])" and t: "delimited t"
  shows "parse_value (s @ t) = Some (v, t)"
proof -
  have n: "scan_number (s @ t) = Some (v, t)" using scan_number_append [OF t out] by simp
  from out show ?thesis
  proof (cases rule: scan_number_start)
    case (digit c cs)
    then show ?thesis using n digit_facts(2) [of c]
      by (subst parse_value.simps) (simp add: py_startswith_def)
  next
    case (minus c cs)
    then show ?thesis using n digit_facts(2) [of c]
      by (subst parse_value.simps) (simp add: py_startswith_def)
  qed
qed

lemma json_dumps_start: "json_loadable v \<Longrightarrow> value_start (json_dumps isep ksep v)"
proof (cases v)
  case (JInt i)
  moreover assume "json_loadable v"
  ultimately show ?thesis using number_start [OF scan_number_int] by simp
next
  case (JFloat x)
  moreover assume "json_loadable v"
  ultimately show ?thesis
    by (cases x) (auto simp: float_literal_def float_text_def value_start_def [of "_ # _"] json_space_def
        dest: number_start)
qed (auto simp: value_start_def json_space_def json_quote_alt)

lemma sort_key_map: "(\<And>x. g (h x) = f x) \<Longrightarrow> sort_key g (map h xs) = map h (sort_key f xs)"
proof -
  assume gh: "\<And>x. g (h x) = f x"
  have ins: "insort_key g (h x) (map h ys) = map h (insort_key f x ys)" for x ys
    by (induction ys) (simp_all add: gh)
  show ?thesis by (induction xs) (simp_all add: ins)
qed

lemma sort_fst_map:
  "sort_key fst (map (\<lambda>(k, v). (k, f v)) kvs) = map (\<lambda>(k, v). (k, f v)) (sort_key fst kvs)"
  by (rule sort_key_map) auto

lemma json_dumps_obj:
  "json_dumps isep ksep (JObj kvs) = ''{'' @ py_join isep
     (map (\<lambda>(k, v). json_quote k @ ksep @ json_dumps isep ksep v) (sort_key fst kvs)) @ ''}''"
proof -
  have "map (\<lambda>(k, t). json_quote k @ ksep @ t) (map (\<lambda>(k, v). (k, json_dumps isep ksep v)) xs)
      = map (\<lambda>(k, v). json_quote k @ ksep @ json_dumps isep ksep v) xs" for xs :: json_object
    by (simp add: case_prod_beta)
  then show ?thesis unfolding json_dumps.simps sort_fst_map by presburger
qed

lemma json_canon_obj: "json_canon (JObj kvs) = JObj (map (\<lambda>(k, v). (k, json_canon v)) (sort_key fst kvs))"
  by (simp only: json_canon.simps sort_fst_map)

declare json_dumps.simps(7) [simp del] json_canon.simps(2) [simp del]

lemma parse_elems_join:
  assumes "xs \<noteq> []"
    and "\<And>x t. x \<in> set xs \<Longrightarrow> delimited t \<Longrightarrow> parse_value (d x @ t) = Some (c x, t)"
    and "\<And>x. x \<in> set xs \<Longrightarrow> value_start (d x)"
  shows "parse_elems (py_join '','' (map d xs) @ CHR '']'' # t) = Some (map c xs, t)"
  using assms
proof (induction xs rule: list_nonempty_induct)
  case (single x)
  then show ?case by (subst parse_elems.simps) (simp add: skip_space_delimited)
next
  case (cons x xs)
  let ?r = "py_join '','' (map d xs) @ CHR '']'' # t"
  obtain y ys where xs: "xs = y # ys" using cons.hyps by (cases xs) auto
  have start: "skip_space ?r = ?r"
    using skip_space_start [of "d y"] cons.prems(2) xs by (cases ys) simp_all
  have IH: "parse_elems ?r = Some (map c xs, t)" using cons.IH cons.prems by simp
  have "parse_value (d x @ CHR '','' # ?r) = Some (c x, CHR '','' # ?r)"
    using cons.prems(1) [of x "CHR '','' # ?r"] by simp
  then show ?case using IH start xs
    by (subst parse_elems.simps) (simp add: skip_space_delimited)
qed

lemma parse_members_join:
  assumes "kvs \<noteq> []"
    and "\<And>k v t. (k, v) \<in> set kvs \<Longrightarrow> delimited t \<Longrightarrow> parse_value (d v @ t) = Some (c v, t)"
    and "\<And>k v. (k, v) \<in> set kvs \<Longrightarrow> value_start (d v)"
    and "distinct (dict_keys (acc @ kvs))"
  shows "parse_members (py_join '','' (map (\<lambda>(k, v). json_quote k @ '':'' @ d v) kvs) @ CHR ''}'' # t) acc
    = Some (acc @ map (\<lambda>(k, v). (k, c v)) kvs, t)"
  using assms
proof (induction kvs arbitrary: acc rule: list_nonempty_induct)
  case (single kv)
  obtain k v where kv: "kv = (k, v)" by (cases kv)
  have "parse_value (d v @ CHR ''}'' # t) = Some (c v, CHR ''}'' # t)"
    using single.prems(1) [of k v "CHR ''}'' # t"] kv by simp
  moreover have "skip_space (d v @ CHR ''}'' # t) = d v @ CHR ''}'' # t"
    using skip_space_start single.prems(2) [of k v] kv by simp
  moreover have "AList.update k (c v) acc = acc @ [(k, c v)]"
    using single.prems(3) kv by (simp add: update_fresh)
  ultimately show ?case using kv
    by (subst parse_members.simps)
      (simp add: json_quote_alt scan_string_body skip_space_delimited skip_space_def [of "CHR '':'' # _"] json_space_def)
next
  case (cons kv kvs)
  obtain k v where kv: "kv = (k, v)" by (cases kv)
  let ?j = "py_join '','' (map (\<lambda>(k, v). json_quote k @ '':'' @ d v) kvs) @ CHR ''}'' # t"
  obtain y ys where xs: "kvs = y # ys" using cons.hyps by (cases kvs) auto
  have start: "skip_space ?j = ?j"
    by (cases y; cases ys) (simp_all add: xs json_quote_alt skip_space_def json_space_def)
  have upd: "AList.update k (c v) acc = acc @ [(k, c v)]"
    using cons.prems(3) kv by (simp add: update_fresh)
  have IH: "parse_members ?j (acc @ [(k, c v)]) = Some ((acc @ [(k, c v)]) @ map (\<lambda>(k, v). (k, c v)) kvs, t)"
  proof (rule cons.IH)
    show "\<And>k v t. (k, v) \<in> set kvs \<Longrightarrow> delimited t \<Longrightarrow> parse_value (d v @ t) = Some (c v, t)"
      "\<And>k v. (k, v) \<in> set kvs \<Longrightarrow> value_start (d v)"
      by (meson cons.prems list.set_intros(2))+
    show "distinct (dict_keys ((acc @ [(k, c v)]) @ kvs))" using cons.prems(3) kv by auto
  qed
  have v: "parse_value (d v @ CHR '','' # ?j) = Some (c v, CHR '','' # ?j)"
    using cons.prems(1) [of k v "CHR '','' # ?j"] kv by simp
  have vs: "skip_space (d v @ CHR '','' # ?j) = d v @ CHR '','' # ?j"
    using skip_space_start cons.prems(2) [of k v] kv by simp
  have join: "py_join '','' (map (\<lambda>(k, v). json_quote k @ '':'' @ d v) (kv # kvs)) @ CHR ''}'' # t
      = CHR 0x22 # concat (map json_escape_char k) @ CHR 0x22 # CHR '':'' # d v @ CHR '','' # ?j"
    by (simp add: kv xs json_quote_alt)
  show ?case unfolding join using IH start upd v vs kv
    by (subst parse_members.simps)
      (simp add: scan_string_body skip_space_delimited skip_space_def [of "CHR '':'' # _"] json_space_def)
qed

lemma parse_dumps:
  "json_loadable v \<Longrightarrow> delimited t \<Longrightarrow> parse_value (dumps_json v @ t) = Some (json_canon v, t)"
proof (induction v arbitrary: t rule: json_canon.induct [case_names array object null bool int float str])
  case (array xs)
  show ?case
  proof (cases "xs = []")
    case True
    then show ?thesis
      by (subst parse_value.simps) (simp add: dumps_json_def skip_space_def json_space_def)
  next
    case False
    let ?r = "py_join '','' (map dumps_json xs) @ CHR '']'' # t"
    have start: "value_start (dumps_json x)" if "x \<in> set xs" for x
      using that array.prems by (auto simp: dumps_json_def list_all_iff intro: json_dumps_start)
    have "parse_elems ?r = Some (map json_canon xs, t)"
      by (rule parse_elems_join) (use False start array in \<open>auto simp: list_all_iff\<close>)
    moreover obtain y ys where xs: "xs = y # ys" using False by (cases xs) auto
    moreover have "skip_space ?r = ?r" "?r \<noteq> []" "hd ?r \<noteq> CHR '']''"
      using skip_space_start [of "dumps_json y"] start [of y] xs
      by (cases ys; auto simp: value_start_def)+
    moreover have "dumps_json (JArr xs) @ t = CHR ''['' # ?r"
      by (simp add: dumps_json_def [abs_def])
    ultimately show ?thesis by (subst parse_value.simps) simp
  qed
next
  case (object kvs)
  let ?ms = "sort_key fst kvs"
  show ?case
  proof (cases "kvs = []")
    case True
    then show ?thesis
      by (subst parse_value.simps)
        (simp add: dumps_json_def json_dumps_obj json_canon_obj skip_space_def json_space_def)
  next
    case False
    let ?r = "py_join '','' (map (\<lambda>(k, v). json_quote k @ '':'' @ dumps_json v) ?ms) @ CHR ''}'' # t"
    have ms: "?ms \<noteq> []" "set ?ms = set kvs" using False by (auto dest: arg_cong [of _ _ length])
    have "parse_members ?r [] = Some ([] @ map (\<lambda>(k, v). (k, json_canon v)) ?ms, t)"
    proof (rule parse_members_join [OF ms(1)])
      show "parse_value (dumps_json v @ u) = Some (json_canon v, u)"
        if "(k, v) \<in> set ?ms" "delimited u" for k v u
        using object.IH [of "(k, v)" k v u] that ms object.prems(1) by (auto simp: list_all_iff)
      show "value_start (dumps_json v)" if "(k, v) \<in> set ?ms" for k v
        using that ms object.prems by (auto simp: dumps_json_def list_all_iff intro!: json_dumps_start)
      show "distinct (dict_keys ([] @ ?ms))" using object.prems(1) by (simp add: distinct_map)
    qed
    moreover obtain y ys where y: "?ms = y # ys" using ms(1) by (cases ?ms) auto
    moreover have "skip_space ?r = ?r" "?r \<noteq> []" "hd ?r \<noteq> CHR ''}''"
      by (cases y; cases ys; simp add: y json_quote_alt skip_space_def json_space_def)+
    moreover have "dumps_json (JObj kvs) @ t = CHR ''{'' # ?r"
      by (simp add: dumps_json_def [abs_def] json_dumps_obj)
    ultimately show ?thesis
      by (subst parse_value.simps) (simp add: json_canon_obj)
  qed
next
  case null
  show ?case by (subst parse_value.simps) (simp add: dumps_json_def py_startswith_def)
next
  case (bool b)
  show ?case by (subst parse_value.simps) (simp add: dumps_json_def py_startswith_def)
next
  case (int i)
  then show ?case by (simp add: dumps_json_def parse_number scan_number_int)
next
  case (float x)
  show ?case
  proof (cases x)
    case (Finite r)
    then show ?thesis using float
      by (simp add: dumps_json_def float_text_def float_literal_def parse_number)
  qed (use float(2) in \<open>subst parse_value.simps; simp add: dumps_json_def float_text_def py_startswith_def\<close>)+
next
  case (str s)
  show ?case by (simp add: dumps_json_def parse_quote)
qed

lemma skip_space_nil: "skip_space [] = []"
  by (simp add: skip_space_def)

lemma json_loads_dumps: "json_loadable v \<Longrightarrow> json_loads (dumps_json v) = Some (json_canon v)"
  using parse_dumps [of v "[]"] skip_space_start [of "dumps_json v" "[]"]
    json_dumps_start [of v "'',''" "'':''"]
  by (simp add: json_loads_def skip_space_nil dumps_json_def)

section \<open>The canonical value is equal to the value\<close>

fun no_nan :: "json \<Rightarrow> bool" where
  "no_nan (JFloat x) = (x \<noteq> NaN)"
| "no_nan (JArr xs) = list_all no_nan xs"
| "no_nan (JObj kvs) = list_all (\<lambda>(k, v). no_nan v) kvs"
| "no_nan _ = True"

lemma json_eq_canon: "json_wf v \<Longrightarrow> no_nan v \<Longrightarrow> json_eq (json_canon v) v"
proof (induction v rule: json_canon.induct)
  case (1 xs)
  then show ?case by (auto simp: list_all2_conv_all_nth list_all_iff)
next
  case (2 kvs)
  have "case map_of kvs k of None \<Rightarrow> False | Some w \<Rightarrow> json_eq (json_canon v) w"
    if "(k, v) \<in> set kvs" for k v
  proof -
    have "json_eq (json_canon v) v" using "2.IH" [OF that refl] that "2.prems" by (auto simp: list_all_iff)
    then show ?thesis using that "2.prems" by (simp add: map_of_distinct_mem)
  qed
  then show ?case by (auto simp: json_canon_obj list_all_iff)
qed (auto simp: float_eq_def)

section \<open>The length of the text\<close>

text \<open>
  A weight of characters summed over a text (its length in characters, its length in bytes) does
  not depend on the order of the members.
\<close>

definition weigh :: "(char \<Rightarrow> nat) \<Rightarrow> string \<Rightarrow> nat" where
  "weigh w s = sum_list (map w s)"

lemma weigh_simps [simp]:
  "weigh w [] = 0" "weigh w (c # s) = w c + weigh w s" "weigh w (s @ t) = weigh w s + weigh w t"
  by (simp_all add: weigh_def)

lemma weigh_length: "weigh (\<lambda>_. 1) s = length s"
  by (induction s) simp_all

lemma weigh_utf8: "weigh (\<lambda>c. length (utf8_char c)) s = length (utf8 s)"
  by (induction s) (simp_all add: utf8_def)

lemma weigh_join:
  "weigh w (py_join sep xs) = sum_list (map (weigh w) xs) + (length xs - 1) * weigh w sep"
  by (induction sep xs rule: py_join.induct) simp_all

lemma sum_list_sort_key: "sum_list (map f (sort_key g xs)) = sum_list (map (f :: _ \<Rightarrow> nat) xs)"
  by (metis mset_map mset_sort sum_mset_sum_list)

lemma weigh_dumps_obj:
  "weigh w (dumps_json (JObj kvs)) =
     w (CHR ''{'') + w (CHR ''}'')
     + sum_list (map (\<lambda>(k, v). weigh w (json_quote k) + w (CHR '':'') + weigh w (dumps_json v)) kvs)
     + (length kvs - 1) * w (CHR '','')"
  by (simp add: dumps_json_def [abs_def] json_dumps_obj weigh_join sum_list_sort_key comp_def case_prod_beta' add.assoc)

lemma weigh_quote: "weigh w (json_quote s) = 2 * w (CHR 0x22) + sum_list (map (\<lambda>c. weigh w (json_escape_char c)) s)"
  by (induction s) (simp_all add: json_quote_alt)

end
