(* ===== verification/Sha256.thy ===== *)
theory Sha256
  imports Json "HOL-Library.Word"
begin

text \<open>
  \<open>hashlib.sha256(data).hexdigest()\<close> of the standard library, on 32-bit words with their
  wrap-around: padding, message schedule and compression of FIPS 180-4. Bytes are the
  characters of a string, as \<open>utf8\<close> produces them.
\<close>

unbundle bit_operations_syntax

type_synonym word32 = "32 word"

text \<open>
  The constants as the standard derives them: the first 32 bits of the fractional parts of the cube
  roots of the first 64 primes, and of the square roots of the first eight. \<open>integer_root k n b 0\<close>
  is the largest number below \<open>2 ^ b\<close> whose \<open>k\<close>-th power is at most \<open>n\<close>.
\<close>

fun integer_root :: "nat \<Rightarrow> nat \<Rightarrow> nat \<Rightarrow> nat \<Rightarrow> nat" where
  "integer_root k n 0 r = r"
| "integer_root k n (Suc b) r = integer_root k n b (if (r + 2 ^ b) ^ k \<le> n then r + 2 ^ b else r)"

definition sha_primes :: "nat list" where
  "sha_primes = filter (\<lambda>p. list_all (\<lambda>d. p mod d \<noteq> 0) [2..<p]) [2..<312]"

definition root_word :: "nat \<Rightarrow> nat \<Rightarrow> word32" where
  "root_word k p = word_of_nat (integer_root k (p * 2 ^ (32 * k)) 40 0)"

definition sha_constants :: "word32 list" where
  "sha_constants = map (root_word 3) sha_primes"

type_synonym sha_state = "word32 list"

definition sha_initial :: sha_state where
  "sha_initial = map (root_word 2) [2, 3, 5, 7, 11, 13, 17, 19]"

text \<open>The message with its padding: a one bit, zeros, and the length in bits on eight bytes.\<close>

definition sha_pad :: "string \<Rightarrow> string" where
  "sha_pad message =
     (let n = length message in
      message @ [char_of (128 :: nat)] @ replicate ((119 - n mod 64) mod 64) (char_of (0 :: nat))
        @ map (\<lambda>i. char_of ((8 * n) div 256 ^ (7 - i) mod 256)) [0..<8])"

definition sha_word :: "string \<Rightarrow> word32" where
  "sha_word bytes = foldl (\<lambda>w c. push_bit 8 w OR word_of_nat (of_char c)) 0 bytes"

fun chunks :: "nat \<Rightarrow> 'a list \<Rightarrow> 'a list list" where
  "chunks n [] = []"
| "chunks n (x # xs) = take (max 1 n) (x # xs) # chunks n (drop (max 1 n) (x # xs))"

definition small_sigma0 :: "word32 \<Rightarrow> word32" where
  "small_sigma0 x = word_rotr 7 x XOR word_rotr 18 x XOR drop_bit 3 x"

definition small_sigma1 :: "word32 \<Rightarrow> word32" where
  "small_sigma1 x = word_rotr 17 x XOR word_rotr 19 x XOR drop_bit 10 x"

definition big_sigma0 :: "word32 \<Rightarrow> word32" where
  "big_sigma0 x = word_rotr 2 x XOR word_rotr 13 x XOR word_rotr 22 x"

definition big_sigma1 :: "word32 \<Rightarrow> word32" where
  "big_sigma1 x = word_rotr 6 x XOR word_rotr 11 x XOR word_rotr 25 x"

text \<open>The schedule extends the sixteen words of a block to sixty-four.\<close>

definition sha_extend :: "word32 list \<Rightarrow> word32 list" where
  "sha_extend w =
     (let t = length w in
      w @ [small_sigma1 (w ! (t - 2)) + w ! (t - 7) + small_sigma0 (w ! (t - 15)) + w ! (t - 16)])"

definition sha_schedule :: "string \<Rightarrow> word32 list" where
  "sha_schedule block = (sha_extend ^^ 48) (map sha_word (chunks 4 block))"

definition sha_round :: "sha_state \<Rightarrow> word32 \<times> word32 \<Rightarrow> sha_state" where
  "sha_round s kw =
     (case s of
        [a, b, c, d, e, f, g, h] \<Rightarrow>
          (let t1 = h + big_sigma1 e + ((e AND f) XOR ((NOT e) AND g)) + fst kw + snd kw;
               t2 = big_sigma0 a + ((a AND b) XOR (a AND c) XOR (b AND c))
           in [t1 + t2, a, b, c, d + t1, e, f, g])
      | _ \<Rightarrow> s)"

definition sha_block :: "sha_state \<Rightarrow> string \<Rightarrow> sha_state" where
  "sha_block s block = map2 (+) s (foldl sha_round s (zip sha_constants (sha_schedule block)))"

definition sha256 :: "string \<Rightarrow> sha_state" where
  "sha256 message = foldl sha_block sha_initial (chunks 64 (sha_pad message))"

definition hex_word :: "word32 \<Rightarrow> string" where
  "hex_word w = map (\<lambda>i. hex_digit (unat w div 16 ^ (7 - i) mod 16)) [0..<8]"

definition sha256_hexdigest :: "string \<Rightarrow> string" where
  "sha256_hexdigest message = concat (map hex_word (sha256 message))"

section \<open>Shape of a digest\<close>

definition is_hex_char :: "char \<Rightarrow> bool" where
  "is_hex_char c = (c \<in> set ''0123456789abcdef'')"

lemma hex_digit_is_hex: "n < 16 \<Longrightarrow> is_hex_char (hex_digit n)"
proof -
  have "list_all (\<lambda>n. is_hex_char (hex_digit n)) [0..<16]" by code_simp
  then show "n < 16 \<Longrightarrow> is_hex_char (hex_digit n)" by (simp add: list_all_iff)
qed

lemma hex_word_shape: "length (hex_word w) = 8" "list_all is_hex_char (hex_word w)"
  by (simp_all add: hex_word_def list_all_iff hex_digit_is_hex)

lemma length_sha_round: "length (sha_round s kw) = length s"
  by (auto simp: sha_round_def Let_def split: list.split)

lemma length_sha_rounds: "length (foldl sha_round s kws) = length s"
  by (induction kws arbitrary: s) (simp_all add: length_sha_round)

lemma length_sha_block: "length (sha_block s block) = length s"
  by (simp add: sha_block_def length_sha_rounds)

lemma length_sha_blocks: "length (foldl sha_block s blocks) = length s"
  by (induction blocks arbitrary: s) (simp_all add: length_sha_block)

lemma length_sha_initial: "length sha_initial = 8"
  by (simp add: sha_initial_def)

lemma length_sha256: "length (sha256 message) = 8"
  by (simp add: sha256_def length_sha_blocks length_sha_initial)

lemma length_concat_hex: "length (concat (map hex_word ws)) = 8 * length ws"
  by (induction ws) (simp_all add: hex_word_shape)

lemma length_hexdigest [simp]: "length (sha256_hexdigest message) = 64"
  by (simp add: sha256_hexdigest_def length_concat_hex length_sha256)

lemma hexdigest_hex: "list_all is_hex_char (sha256_hexdigest message)"
  by (simp add: sha256_hexdigest_def list_all_iff) (metis hex_word_shape(2) list_all_iff)

end
