(* ===== verification/Base64.thy ===== *)
theory Base64
  imports Prelude
begin

text \<open>
  \<open>base64.urlsafe_b64encode\<close> and \<open>base64.urlsafe_b64decode\<close> of the standard library, on
  strings of bytes. The decoder is the lenient scanner of \<open>binascii.a2b_base64\<close>: it skips
  characters outside the alphabet, stops at a complete padding and ignores what follows, and
  refuses an incomplete group. Its state is the position in the group of four, the bits left
  over from the last character and the padding characters seen since then.
\<close>

definition b64_char :: "nat \<Rightarrow> char" where
  "b64_char n =
     (if n < 26 then char_of (65 + n)
      else if n < 52 then char_of (71 + n)
      else if n < 62 then char_of (n - 4)
      else if n = 62 then CHR ''-'' else CHR ''_'')"

fun b64_groups :: "nat list \<Rightarrow> string" where
  "b64_groups [] = []"
| "b64_groups [a] = [b64_char (a div 4), b64_char (a mod 4 * 16), CHR ''='', CHR ''='']"
| "b64_groups [a, b] =
     [b64_char (a div 4), b64_char (a mod 4 * 16 + b div 16), b64_char (b mod 16 * 4), CHR ''='']"
| "b64_groups (a # b # c # rest) =
     b64_char (a div 4) # b64_char (a mod 4 * 16 + b div 16) # b64_char (b mod 16 * 4 + c div 64)
       # b64_char (c mod 64) # b64_groups rest"

definition urlsafe_b64encode :: "string \<Rightarrow> string" where
  "urlsafe_b64encode body = b64_groups (map of_char body)"

text \<open>The decoder first translates \<open>-\<close> and \<open>_\<close> to \<open>+\<close> and \<open>/\<close>; both spellings are read.\<close>

definition b64_value :: "char \<Rightarrow> nat option" where
  "b64_value c =
     (let n = (of_char c :: nat) in
      if 65 \<le> n \<and> n \<le> 90 then Some (n - 65)
      else if 97 \<le> n \<and> n \<le> 122 then Some (n - 71)
      else if 48 \<le> n \<and> n \<le> 57 then Some (n + 4)
      else if n = 45 \<or> n = 43 then Some 62
      else if n = 95 \<or> n = 47 then Some 63
      else None)"

fun b64_scan :: "nat \<Rightarrow> nat \<Rightarrow> nat \<Rightarrow> string \<Rightarrow> string option" where
  "b64_scan quad left pads [] = (if quad = 0 then Some [] else None)"
| "b64_scan quad left pads (c # cs) =
     (if c = CHR ''='' then
        (if 2 \<le> quad \<and> 4 \<le> quad + Suc pads then Some []
         else b64_scan quad left (if 2 \<le> quad then Suc pads else pads) cs)
      else
        (case b64_value c of
           None \<Rightarrow> b64_scan quad left pads cs
         | Some v \<Rightarrow>
             (if quad = 0 then b64_scan 1 v 0 cs
              else if quad = 1 then
                map_option (\<lambda>out. char_of (left * 4 + v div 16) # out) (b64_scan 2 (v mod 16) 0 cs)
              else if quad = 2 then
                map_option (\<lambda>out. char_of (left * 16 + v div 4) # out) (b64_scan 3 (v mod 4) 0 cs)
              else map_option (\<lambda>out. char_of (left * 64 + v) # out) (b64_scan 0 0 0 cs))))"

definition urlsafe_b64decode :: "string \<Rightarrow> string option" where
  "urlsafe_b64decode s =
     (if list_all (\<lambda>c. (of_char c :: nat) < 128) s then b64_scan 0 0 0 s else None)"

text \<open>\<open>s.rstrip("=")\<close> and the padding \<open>"=" * (-len(s) % 4)\<close>.\<close>

definition rstrip_pad :: "string \<Rightarrow> string" where
  "rstrip_pad s = rev (dropWhile (\<lambda>c. c = CHR ''='') (rev s))"

definition pad_of :: "string \<Rightarrow> string" where
  "pad_of s = replicate ((4 - length s mod 4) mod 4) (CHR ''='')"

section \<open>Alphabet\<close>

definition b64_plain :: "char \<Rightarrow> bool" where
  "b64_plain c = (let n = (of_char c :: nat) in 45 \<le> n \<and> n < 128 \<and> n \<notin> {46, 61, 92, 126})"

lemma b64_char_code:
  "n < 64 \<Longrightarrow> (of_char (b64_char n) :: nat) =
     (if n < 26 then 65 + n else if n < 52 then 71 + n else if n < 62 then n - 4 else if n = 62 then 45 else 95)"
  by (simp add: b64_char_def)

lemma b64_value_char: "n < 64 \<Longrightarrow> b64_value (b64_char n) = Some n"
  by (auto simp: b64_value_def b64_char_code Let_def)

lemma b64_plain_char: "n < 64 \<Longrightarrow> b64_plain (b64_char n)"
  by (auto simp: b64_plain_def b64_char_code Let_def)

lemma b64_plain_code [dest]:
  "b64_plain c \<Longrightarrow> (of_char c :: nat) < 128 \<and> c \<notin> {CHR ''='', CHR ''.'', CHR ''~''}"
  by (auto simp: b64_plain_def Let_def)

lemma b64_char_not_pad: "n < 64 \<Longrightarrow> b64_char n \<noteq> CHR ''=''"
  using b64_plain_char [of n] by auto

lemma byte_bounds:
  assumes "(a :: nat) < 256" "b < 256" "c < 256"
  shows "a div 4 < 64" "a mod 4 * 16 < 64" "a mod 4 * 16 + b div 16 < 64"
    "b mod 16 * 4 < 64" "b mod 16 * 4 + c div 64 < 64" "c mod 64 < 64"
proof -
  have "a mod 4 \<le> 3" "b mod 16 \<le> 15" "c mod 64 < 64" "a div 4 < 64" "b div 16 < 16" "c div 64 < 4"
    using assms by (auto simp: less_mult_imp_div_less simp flip: less_Suc_eq_le)
  then show "a div 4 < 64" "a mod 4 * 16 < 64" "a mod 4 * 16 + b div 16 < 64"
    "b mod 16 * 4 < 64" "b mod 16 * 4 + c div 64 < 64" "c mod 64 < 64" by linarith+
qed

section \<open>Round trip\<close>

text \<open>The encoding without its padding.\<close>

fun b64_raw :: "nat list \<Rightarrow> string" where
  "b64_raw [] = []"
| "b64_raw [a] = [b64_char (a div 4), b64_char (a mod 4 * 16)]"
| "b64_raw [a, b] = [b64_char (a div 4), b64_char (a mod 4 * 16 + b div 16), b64_char (b mod 16 * 4)]"
| "b64_raw (a # b # c # rest) =
     b64_char (a div 4) # b64_char (a mod 4 * 16 + b div 16) # b64_char (b mod 16 * 4 + c div 64)
       # b64_char (c mod 64) # b64_raw rest"

lemma length_b64_raw: "length (b64_raw ns) = (4 * length ns + 2) div 3"
  by (induction ns rule: b64_raw.induct) simp_all

lemma b64_raw_plain: "list_all (\<lambda>n. n < 256) ns \<Longrightarrow> list_all b64_plain (b64_raw ns)"
proof (induction ns rule: b64_raw.induct)
  case (2 a)
  then show ?case using byte_bounds [of a 0 0] by (simp add: b64_plain_char)
next
  case (3 a b)
  then show ?case using byte_bounds [of a b 0] by (simp add: b64_plain_char)
next
  case (4 a b c rest)
  then show ?case using byte_bounds [of a b c] by (simp add: b64_plain_char)
qed simp

lemma pad_of_quad: "pad_of (a # b # c # d # s) = pad_of s"
proof -
  have "length (a # b # c # d # s) = length s + 4" by simp
  then show ?thesis unfolding pad_of_def by (metis mod_add_self2)
qed

lemma pad_of_short:
  "pad_of [] = []" "pad_of [a, b] = [CHR ''='', CHR ''='']" "pad_of [a, b, c] = [CHR ''='']"
  by (code_simp | simp add: pad_of_def numeral_2_eq_2)+

lemma b64_groups_raw: "b64_groups ns = b64_raw ns @ pad_of (b64_raw ns)"
  by (induction ns rule: b64_groups.induct) (simp_all add: pad_of_quad pad_of_short)

lemma rstrip_pad_raw:
  assumes "CHR ''='' \<notin> set s"
  shows "rstrip_pad (s @ replicate n (CHR ''='')) = s"
proof -
  have "dropWhile (\<lambda>c. c = CHR ''='') (replicate n (CHR ''='') @ rev s)
      = dropWhile (\<lambda>c. c = CHR ''='') (rev s)"
    by (induction n) simp_all
  moreover have "dropWhile (\<lambda>c. c = CHR ''='') (rev s) = rev s"
    using assms by (cases "rev s") auto
  ultimately show ?thesis by (simp add: rstrip_pad_def)
qed

lemma join_div_mod:
  assumes "(y :: nat) < k"
  shows "(x * k + y) div k = x" "(x * k + y) mod k = y"
proof -
  have "0 < k" using assms by linarith
  then show "(x * k + y) div k = x" using assms by (simp only: div_mult_self3 div_less add_0_right)
  show "(x * k + y) mod k = y" using assms by (simp only: mod_mult_self3 mod_less)
qed

lemma byte_join:
  shows "(a :: nat) div 4 * 4 + a mod 4 * 16 div 16 = a"
    and "b < 256 \<Longrightarrow> a div 4 * 4 + (a mod 4 * 16 + b div 16) div 16 = a"
    and "b < 256 \<Longrightarrow> (a mod 4 * 16 + b div 16) mod 16 * 16 + b mod 16 * 4 div 4 = b"
    and "b < 256 \<Longrightarrow> c < 256 \<Longrightarrow>
      (a mod 4 * 16 + b div 16) mod 16 * 16 + (b mod 16 * 4 + c div 64) div 4 = b"
    and "c < 256 \<Longrightarrow> (b mod 16 * 4 + c div 64) mod 4 * 64 + c mod 64 = c"
proof -
  have b: "b div 16 < 16" if "b < 256" using that by (simp add: less_mult_imp_div_less)
  have c: "c div 64 < 4" if "c < 256" using that by (simp add: less_mult_imp_div_less)
  show "a div 4 * 4 + a mod 4 * 16 div 16 = a" by simp
  show "a div 4 * 4 + (a mod 4 * 16 + b div 16) div 16 = a" if "b < 256"
    by (simp only: join_div_mod [OF b [OF that]] div_mult_mod_eq)
  show "(a mod 4 * 16 + b div 16) mod 16 * 16 + b mod 16 * 4 div 4 = b" if "b < 256"
    by (simp only: join_div_mod [OF b [OF that]]) simp
  show "(a mod 4 * 16 + b div 16) mod 16 * 16 + (b mod 16 * 4 + c div 64) div 4 = b"
    if "b < 256" "c < 256"
    by (simp only: join_div_mod [OF b [OF that(1)]] join_div_mod [OF c [OF that(2)]] div_mult_mod_eq)
  show "(b mod 16 * 4 + c div 64) mod 4 * 64 + c mod 64 = c" if "c < 256"
    by (simp only: join_div_mod [OF c [OF that]] div_mult_mod_eq)
qed

lemma b64_scan_raw:
  "list_all (\<lambda>n. n < 256) ns \<Longrightarrow>
   b64_scan 0 0 0 (b64_raw ns @ pad_of (b64_raw ns)) = Some (map char_of ns)"
proof (induction ns rule: b64_raw.induct)
  case (2 a)
  then show ?case using byte_bounds [of a 0 0]
    by (simp add: pad_of_short b64_value_char b64_char_not_pad byte_join del: mult_numeral_1)
next
  case (3 a b)
  then show ?case using byte_bounds [of a b 0] byte_join(2, 3) [of b a]
    by (simp add: pad_of_short b64_value_char b64_char_not_pad)
next
  case (4 a b c rest)
  then show ?case using byte_bounds [of a b c] byte_join(2) [of b a] byte_join(4) [of b c a]
      byte_join(5) [of c b]
    by (simp add: b64_value_char b64_char_not_pad pad_of_quad del: mod_mult_self3 mod_mult_self4)
qed (simp add: pad_of_short)

lemma bytes_of_string: "list_all (\<lambda>n. n < 256) (map of_char (s :: string) :: nat list)"
  by (simp add: list_all_iff)

definition b64_token :: "string \<Rightarrow> string" where
  "b64_token body = rstrip_pad (urlsafe_b64encode body)"

lemma b64_raw_no_pad: "CHR ''='' \<notin> set (b64_raw (map of_char body :: nat list))"
  using b64_raw_plain [OF bytes_of_string [of body]] by (auto simp: list_all_iff)

lemma b64_token_raw: "b64_token body = b64_raw (map of_char body)"
  using b64_raw_no_pad [of body]
  by (simp add: b64_token_def urlsafe_b64encode_def b64_groups_raw pad_of_def rstrip_pad_raw)

lemma length_b64_token: "length (b64_token body) = (4 * length body + 2) div 3"
  by (simp add: b64_token_raw length_b64_raw)

lemma b64_token_plain: "list_all b64_plain (b64_token body)"
  unfolding b64_token_raw by (rule b64_raw_plain) (rule bytes_of_string)

lemma b64_token_decode: "urlsafe_b64decode (b64_token body @ pad_of (b64_token body)) = Some body"
proof -
  have "list_all (\<lambda>c. (of_char c :: nat) < 128) (b64_token body)"
    using b64_token_plain [of body] by (auto simp: list_all_iff)
  moreover have "list_all (\<lambda>c. (of_char c :: nat) < 128) (pad_of s)" for s
    by (simp add: pad_of_def list_all_iff)
  moreover have "b64_scan 0 0 0 (b64_raw (map of_char body :: nat list) @ pad_of (b64_raw (map of_char body)))
      = Some (map char_of (map of_char body :: nat list))"
    by (rule b64_scan_raw) (rule bytes_of_string)
  ultimately show ?thesis
    by (simp add: urlsafe_b64decode_def b64_token_raw comp_def)
qed

end
