(* ===== verification/Continuation.thy ===== *)
theory Continuation
  imports Json_Round Sha256 Base64
begin

text \<open>
  Opaque continuation tokens (tinysoul/infra/continuation.py, the codec). A token is the
  canonical JSON of a position and of what it belongs to, in unpadded URL-safe Base64, with the
  SHA-256 of its bytes. The failures of a page request are \<open>ContinuationError\<close>s.
\<close>

datatype continuation_failure =
    Invalid_Continuation
  | Continuation_Mismatch
  | Continuation_Out_Of_Range
  | Content_Changed
  | Budget_Too_Small
  | Invalid_Limit

datatype continuation_error = ContinuationError continuation_failure string json_object

abbreviation cont_error :: "continuation_failure \<Rightarrow> string \<Rightarrow> continuation_error + 'a" where
  "cont_error reason message \<equiv> Inl (ContinuationError reason message [])"

section \<open>Positions\<close>

text \<open>
  A position is built from whatever the token holds, so its digest is a JSON value: the empty
  string for a whole item, but any falsy value passes the check.
\<close>

record continuation_position =
  cp_item_index :: nat
  cp_char_offset :: nat
  cp_item_digest :: json

definition json_truthy :: "json \<Rightarrow> bool" where
  "json_truthy v =
     (case v of
        JNull \<Rightarrow> False
      | JBool b \<Rightarrow> b
      | JInt i \<Rightarrow> i \<noteq> 0
      | JFloat x \<Rightarrow> \<not> float_zero x
      | JStr s \<Rightarrow> s \<noteq> []
      | JArr xs \<Rightarrow> xs \<noteq> []
      | JObj kvs \<Rightarrow> kvs \<noteq> [])"

definition is_digest :: "json \<Rightarrow> bool" where
  "is_digest value =
     (case value of
        JStr s \<Rightarrow> py_startswith s ''sha256:''
          \<and> length (py_removeprefix s ''sha256:'') = 64
          \<and> list_all is_hex_char (py_removeprefix s ''sha256:'')
      | _ \<Rightarrow> False)"

definition position_number :: "json \<Rightarrow> continuation_error + nat" where
  "position_number value =
     (case value of
        JInt i \<Rightarrow>
          if i < 0 then cont_error Invalid_Continuation ''Continuation position must be non-negative''
          else Inr (nat i)
      | _ \<Rightarrow> cont_error Invalid_Continuation ''Continuation position must be non-negative'')"

definition mk_position :: "json \<Rightarrow> json \<Rightarrow> json \<Rightarrow> continuation_error + continuation_position" where
  "mk_position item_index char_offset item_digest =
     bind_r (position_number item_index) (\<lambda>i. bind_r (position_number char_offset) (\<lambda>n.
       if n \<noteq> 0 \<and> \<not> is_digest item_digest then
         cont_error Invalid_Continuation ''Continuation fragment requires a content digest''
       else if n = 0 \<and> json_truthy item_digest then
         cont_error Invalid_Continuation ''Whole-item continuation cannot carry a content digest''
       else Inr \<lparr>cp_item_index = i, cp_char_offset = n, cp_item_digest = item_digest\<rparr>))"

definition whole_position :: "nat \<Rightarrow> continuation_position" where
  "whole_position i = \<lparr>cp_item_index = i, cp_char_offset = 0, cp_item_digest = JStr []\<rparr>"

section \<open>The codec\<close>

record continuation_codec =
  cc_owner :: string
  cc_operation :: string

definition mk_codec :: "string \<Rightarrow> string \<Rightarrow> continuation_error + continuation_codec" where
  "mk_codec owner operation =
     (if owner = [] \<or> operation = [] then
        cont_error Invalid_Continuation ''Continuation owner and operation must be non-empty''
      else Inr \<lparr>cc_owner = owner, cc_operation = operation\<rparr>)"

text \<open>\<open>to_json_object(binding or {})\<close>; the values of a binding are JSON already.\<close>

definition binding_object :: "json_object option \<Rightarrow> json_object" where
  "binding_object binding = (case binding of None \<Rightarrow> [] | Some b \<Rightarrow> b)"

definition token_claims :: "continuation_codec \<Rightarrow> string \<Rightarrow> json_object option \<Rightarrow> json_object" where
  "token_claims c ref binding =
     [(''version'', JInt 1),
      (''owner'', JStr (cc_owner c)),
      (''operation'', JStr (cc_operation c)),
      (''ref'', JStr ref),
      (''binding'', JObj (binding_object binding))]"

definition position_json :: "continuation_position \<Rightarrow> json" where
  "position_json p =
     JObj [(''item_index'', JInt (int (cp_item_index p))),
           (''char_offset'', JInt (int (cp_char_offset p))),
           (''item_digest'', cp_item_digest p)]"

definition token_value :: "continuation_codec \<Rightarrow> continuation_position \<Rightarrow> string \<Rightarrow> json_object option \<Rightarrow> json" where
  "token_value c p ref binding = JObj (token_claims c ref binding @ [(''position'', position_json p)])"

definition codec_encode ::
  "continuation_codec \<Rightarrow> continuation_position \<Rightarrow> string \<Rightarrow> json_object option \<Rightarrow> string" where
  "codec_encode c p ref binding =
     (let body = utf8 (dumps_json (token_value c p ref binding)) in
      ''v1.'' @ b64_token body @ ''.'' @ sha256_hexdigest body)"

text \<open>
  The part of \<open>decode\<close> under its \<open>try\<close>: \<open>token.split(".", 2)\<close> must give three parts; every
  failure (of the split, the version, Base64, the digest, UTF-8 or JSON) is \<open>None\<close>.
\<close>

definition token_payload :: "string \<Rightarrow> json option" where
  "token_payload token =
     (case py_partition (CHR ''.'') token of (prefix, found1, rest) \<Rightarrow>
      case py_partition (CHR ''.'') rest of (encoded, found2, digest) \<Rightarrow>
        if \<not> found1 \<or> \<not> found2 \<or> prefix \<noteq> ''v1'' then None
        else
          (case urlsafe_b64decode (encoded @ pad_of encoded) of
             None \<Rightarrow> None
           | Some body \<Rightarrow>
               if sha256_hexdigest body \<noteq> digest then None
               else (case utf8_decode body of None \<Rightarrow> None | Some s \<Rightarrow> json_loads s)))"

definition codec_invalid :: "continuation_error + 'a" where
  "codec_invalid = cont_error Invalid_Continuation ''Continuation is invalid; inspect the node again''"

definition claims_match :: "json_object \<Rightarrow> json_object \<Rightarrow> bool" where
  "claims_match raw expected =
     list_all (\<lambda>(name, value). json_eq (dict_get raw name JNull) value) expected"

definition position_names :: "string list" where
  "position_names = [''item_index'', ''char_offset'', ''item_digest'']"

definition codec_decode ::
  "continuation_codec \<Rightarrow> string option \<Rightarrow> string \<Rightarrow> json_object option
     \<Rightarrow> continuation_error + continuation_position" where
  "codec_decode c token ref binding =
     (case token of
        None \<Rightarrow> Inr (whole_position 0)
      | Some t \<Rightarrow>
          if t = [] then
            cont_error Invalid_Continuation ''Continuation must be a non-empty opaque string''
          else
            (case token_payload t of
               Some (JObj raw) \<Rightarrow>
                 if \<not> claims_match raw (token_claims c ref binding) then
                   cont_error Continuation_Mismatch
                     ''Continuation no longer matches this node; inspect it again''
                 else
                   (case map_of raw ''position'' of
                      Some (JObj position) \<Rightarrow>
                        if set (dict_keys position) \<noteq> set position_names then codec_invalid
                        else
                          (case mk_position (dict_get position ''item_index'' JNull)
                                  (dict_get position ''char_offset'' JNull)
                                  (dict_get position ''item_digest'' JNull) of
                             Inl e \<Rightarrow> codec_invalid
                           | Inr p \<Rightarrow> Inr p)
                    | _ \<Rightarrow> codec_invalid)
             | _ \<Rightarrow> codec_invalid))"

section \<open>Tokens\<close>

text \<open>The positions the constructor admits, within the digits \<open>json.loads\<close> reads back.\<close>

definition position_ok :: "continuation_position \<Rightarrow> bool" where
  "position_ok p =
     (length (show_nat (cp_item_index p)) \<le> 4300 \<and> length (show_nat (cp_char_offset p)) \<le> 4300
      \<and> (if cp_char_offset p = 0 then \<not> json_truthy (cp_item_digest p) else is_digest (cp_item_digest p)))"

lemma digest_loadable:
  assumes "\<not> json_truthy v \<or> is_digest v"
  shows "json_loadable v" "json_canon v = v"
proof -
  have "scan_number ''0.0'' = Some (JFloat (Finite ''0.0''), [])"
    "scan_number ''-0.0'' = Some (JFloat (Finite ''-0.0''), [])" by code_simp+
  moreover have "length (show_nat 0) \<le> 4300" by code_simp
  ultimately show "json_loadable v"
    using assms by (cases v) (auto simp: json_truthy_def is_digest_def float_zero_def float_literal_def)
  show "json_canon v = v"
    using assms by (cases v) (auto simp: json_truthy_def is_digest_def json_canon_obj)
qed

lemma position_ok_whole [simp]: "length (show_nat i) \<le> 4300 \<Longrightarrow> position_ok (whole_position i)"
proof -
  have "length (show_nat 0) \<le> 4300" by code_simp
  then show "length (show_nat i) \<le> 4300 \<Longrightarrow> position_ok (whole_position i)"
    by (simp add: position_ok_def whole_position_def json_truthy_def)
qed

lemma mk_position_ok:
  "position_ok p \<Longrightarrow>
   mk_position (JInt (int (cp_item_index p))) (JInt (int (cp_char_offset p))) (cp_item_digest p) = Inr p"
  by (auto simp: mk_position_def position_number_def position_ok_def split: if_splits)

lemma mk_position_Inr:
  "mk_position i n d = Inr p \<Longrightarrow>
   if cp_char_offset p = 0 then \<not> json_truthy (cp_item_digest p) else is_digest (cp_item_digest p)"
  by (auto simp: mk_position_def bind_r_Inr_iff split: if_splits)

lemma map_of_sort_key:
  assumes "distinct (dict_keys kvs)"
  shows "map_of (sort_key fst kvs) = map_of kvs"
  by (rule map_of_eqI)
    (use assms in \<open>auto simp: distinct_map intro!: map_of_is_SomeI [symmetric] dest: map_of_SomeD split: option.split\<close>)

lemma map_of_canon:
  "distinct (dict_keys kvs) \<Longrightarrow> json_canon (JObj kvs) = JObj raw \<Longrightarrow>
   map_of raw k = map_option json_canon (map_of kvs k)"
  by (auto simp: json_canon_obj map_of_map map_of_sort_key)

lemma canon_keys: "json_canon (JObj kvs) = JObj raw \<Longrightarrow> set (dict_keys raw) = set (dict_keys kvs)"
  by (force simp: json_canon_obj)

lemma token_value_loadable:
  assumes "position_ok p" "json_loadable (JObj (binding_object binding))"
  shows "json_loadable (token_value c p ref binding)"
proof -
  have "json_loadable (cp_item_digest p)"
    using assms(1) digest_loadable(1) by (auto simp: position_ok_def split: if_splits)
  moreover have "length (show_nat (Suc 0)) \<le> 4300" by code_simp
  ultimately show ?thesis
    using assms by (simp add: token_value_def token_claims_def position_json_def position_ok_def)
qed

lemma codec_payload:
  assumes "position_ok p" "json_loadable (JObj (binding_object binding))"
  shows "token_payload (codec_encode c p ref binding) = Some (json_canon (token_value c p ref binding))"
proof -
  let ?body = "utf8 (dumps_json (token_value c p ref binding))"
  have dot: "CHR ''.'' \<notin> set (b64_token ?body)"
    using b64_token_plain [of ?body] by (auto simp: list_all_iff)
  have "py_partition (CHR ''.'') (''v1'' @ CHR ''.'' # b64_token ?body @ CHR ''.'' # sha256_hexdigest ?body)
      = (''v1'', True, b64_token ?body @ CHR ''.'' # sha256_hexdigest ?body)"
    by (rule py_partition_append) simp
  moreover have "py_partition (CHR ''.'') (b64_token ?body @ CHR ''.'' # sha256_hexdigest ?body)
      = (b64_token ?body, True, sha256_hexdigest ?body)"
    by (rule py_partition_append) (rule dot)
  ultimately show ?thesis
    by (simp add: token_payload_def codec_encode_def Let_def b64_token_decode
        json_loads_dumps [OF token_value_loadable [OF assms]])
qed

definition claims_equal ::
  "continuation_codec \<Rightarrow> string \<Rightarrow> json_object option \<Rightarrow> continuation_codec \<Rightarrow> string \<Rightarrow> json_object option \<Rightarrow> bool" where
  "claims_equal c ref b c' ref' b' =
     (cc_owner c = cc_owner c' \<and> cc_operation c = cc_operation c' \<and> ref = ref'
      \<and> json_eq (json_canon (JObj (binding_object b))) (JObj (binding_object b')))"

lemma claims_match_token:
  assumes "json_canon (token_value c p ref b) = JObj raw"
  shows "claims_match raw (token_claims c' ref' b') = claims_equal c ref b c' ref' b'"
proof -
  have d: "distinct (dict_keys (token_claims c ref b @ [(''position'', position_json p)]))"
    by (simp add: token_claims_def)
  have get: "dict_get raw k JNull
      = (case map_of (token_claims c ref b @ [(''position'', position_json p)]) k of None \<Rightarrow> JNull | Some v \<Rightarrow> json_canon v)" for k
    using map_of_canon [OF d assms [unfolded token_value_def], of k]
    by (simp add: dict_get_def del: map_of_append split: option.split)
  show ?thesis
    by (auto simp: claims_match_def claims_equal_def token_claims_def get del: json_eq.simps(7))
qed

text \<open>What decoding makes of a token of this codec, for the same or for another owner.\<close>

lemma codec_decode_encode:
  assumes "position_ok p" "json_loadable (JObj (binding_object b))"
  shows "codec_decode c' (Some (codec_encode c p ref b)) ref' b' =
    (if claims_equal c ref b c' ref' b' then Inr p
     else cont_error Continuation_Mismatch ''Continuation no longer matches this node; inspect it again'')"
proof -
  obtain raw where raw: "json_canon (token_value c p ref b) = JObj raw"
    by (simp add: token_value_def json_canon_obj)
  have nonempty: "codec_encode c p ref b \<noteq> []" by (simp add: codec_encode_def Let_def)
  have d: "distinct (dict_keys (token_claims c ref b @ [(''position'', position_json p)]))"
    by (simp add: token_claims_def)
  obtain pos where pos: "json_canon (position_json p) = JObj pos"
    by (simp add: position_json_def json_canon_obj)
  have "map_of raw ''position'' = Some (JObj pos)"
    using map_of_canon [OF d raw [unfolded token_value_def], of "''position''"]
    by (simp add: token_claims_def pos)
  moreover have "set (dict_keys pos) = set position_names"
    using canon_keys [OF pos [unfolded position_json_def]] by (simp add: position_names_def)
  moreover have dp: "distinct (dict_keys [(''item_index'', JInt (int (cp_item_index p))),
      (''char_offset'', JInt (int (cp_char_offset p))), (''item_digest'', cp_item_digest p)])" by simp
  have "json_canon (cp_item_digest p) = cp_item_digest p"
    using assms(1) digest_loadable(2) by (auto simp: position_ok_def split: if_splits)
  then have "dict_get pos ''item_index'' JNull = JInt (int (cp_item_index p))"
    "dict_get pos ''char_offset'' JNull = JInt (int (cp_char_offset p))"
    "dict_get pos ''item_digest'' JNull = cp_item_digest p"
    using map_of_canon [OF dp pos [unfolded position_json_def]] by (simp_all add: dict_get_def)
  ultimately show ?thesis
    using nonempty mk_position_ok [OF assms(1)]
    by (simp add: codec_decode_def codec_payload [OF assms] raw claims_match_token [OF raw])
qed

text \<open>The length of a token is that of its body; the body grows with the digits of the position.\<close>

lemma length_codec_encode:
  "length (codec_encode c p ref b)
    = 68 + (4 * length (utf8 (dumps_json (token_value c p ref b))) + 2) div 3"
  by (simp add: codec_encode_def Let_def length_b64_token)

lemma weigh_digits:
  assumes "\<And>c. is_digit c \<Longrightarrow> w c = 1"
  shows "weigh w (show_nat n) = length (show_nat n)"
proof -
  have "weigh w s = length s" if "list_all is_digit s" for s
    using that by (induction s) (simp_all add: assms)
  then show ?thesis using show_nat_digits by blast
qed

text \<open>Characters that JSON does not escape and UTF-8 keeps.\<close>

definition plain_char :: "char \<Rightarrow> bool" where
  "plain_char c = (let n = (of_char c :: nat) in 35 \<le> n \<and> n \<noteq> 92 \<and> n < 128)"

lemma plain_escape: "plain_char c \<Longrightarrow> json_escape_char c = [c]"
  by (auto simp: plain_char_def json_escape_char_def Let_def)

lemma plain_utf8: "plain_char c \<Longrightarrow> utf8_char c = [c]"
  by (auto simp: plain_char_def utf8_char_def Let_def)

lemma plain_intros:
  "b64_plain c \<Longrightarrow> plain_char c" "is_hex_char c \<Longrightarrow> plain_char c" "is_digit c \<Longrightarrow> plain_char c"
  by (auto simp: plain_char_def b64_plain_def is_hex_char_def is_digit_def Let_def)

lemma weigh_quote_plain:
  assumes "list_all plain_char s" "\<And>c. plain_char c \<Longrightarrow> w c = 1" "w (CHR 0x22) = 1"
  shows "weigh w (json_quote s) = length s + 2"
proof -
  have "sum_list (map (\<lambda>c. weigh w (json_escape_char c)) s) = length s"
    using assms(1) by (induction s) (simp_all add: plain_escape assms(2))
  then show ?thesis by (simp add: weigh_quote assms(3))
qed

definition body_size :: "continuation_codec \<Rightarrow> continuation_position \<Rightarrow> string \<Rightarrow> json_object option \<Rightarrow> nat" where
  "body_size c p ref b = length (utf8 (dumps_json (token_value c p ref b)))"

lemma dumps_json_atoms:
  "dumps_json (JInt (int n)) = show_nat n" "dumps_json (JStr s) = json_quote s"
  by (simp_all add: dumps_json_def show_int_def)

lemma body_size_position:
  assumes "cp_item_digest p = JStr d" "list_all plain_char d"
  shows "body_size c p ref b + 2
    = body_size c (whole_position 0) ref b + length (show_nat (cp_item_index p))
      + length (show_nat (cp_char_offset p)) + length d"
proof -
  let ?w = "\<lambda>c. length (utf8_char c)"
  have w1: "?w c = 1" if "plain_char c" for c using that by (simp add: plain_utf8)
  have w2: "?w (CHR 0x22) = 1" by code_simp
  have digits: "weigh ?w (show_nat n) = length (show_nat n)" for n
    by (rule weigh_digits) (simp add: plain_utf8 plain_intros)
  have quote: "weigh ?w (json_quote d) = length d + 2" "weigh ?w (json_quote []) = 2"
    using weigh_quote_plain [of d ?w] weigh_quote_plain [of "[]" ?w] assms(2) w1 w2 by simp_all
  have zero: "length (show_nat 0) = 1" by code_simp
  have "weigh ?w (dumps_json (position_json p)) + 2
      = weigh ?w (dumps_json (position_json (whole_position 0)))
        + length (show_nat (cp_item_index p)) + length (show_nat (cp_char_offset p)) + length d"
    unfolding position_json_def weigh_dumps_obj
    by (simp add: assms(1) dumps_json_atoms digits quote whole_position_def zero
        dumps_json_atoms(1) [of 0, simplified])
  then show ?thesis
    unfolding body_size_def token_value_def weigh_utf8 [symmetric] weigh_dumps_obj by simp
qed

lemma length_token: "length (codec_encode c p ref b) = 68 + (4 * body_size c p ref b + 2) div 3"
  by (simp add: length_codec_encode body_size_def)

lemma token_plain: "list_all plain_char (codec_encode c p ref b)"
proof -
  have "list_all plain_char ''v1.''" by (simp add: plain_char_def)
  moreover have "list_all plain_char (b64_token body)" for body
    using b64_token_plain [of body] by (auto simp: list_all_iff plain_intros)
  moreover have "list_all plain_char (sha256_hexdigest body)" for body
    using hexdigest_hex [of body] by (auto simp: list_all_iff plain_intros)
  moreover have "plain_char (CHR ''.'')" by (simp add: plain_char_def)
  ultimately show ?thesis by (simp add: codec_encode_def Let_def)
qed

lemma length_quote_token: "length (json_quote (codec_encode c p ref b)) = length (codec_encode c p ref b) + 2"
  using weigh_quote_plain [OF token_plain, of "\<lambda>_. 1" c p ref b] by (simp only: weigh_length)

text \<open>Sizes of concrete texts by their formulas.\<close>

lemma utf8_quote_plain: "list_all plain_char s \<Longrightarrow> weigh (\<lambda>c. length (utf8_char c)) (json_quote s) = length s + 2"
proof (rule weigh_quote_plain)
  show "length (utf8_char (CHR 0x22)) = 1" by code_simp
qed (simp_all add: plain_utf8)

lemma length_quote_plain: "list_all plain_char s \<Longrightarrow> weigh (\<lambda>_. Suc 0) (json_quote s) = length s + 2"
  by (rule weigh_quote_plain) simp_all

lemma dumps_json_number: "dumps_json (JInt (numeral n)) = show_nat (numeral n)" "dumps_json (JInt 1) = show_nat 1"
  "dumps_json (JInt 0) = show_nat 0"
  using dumps_json_atoms(1) [of "numeral n"] dumps_json_atoms(1) [of 1] dumps_json_atoms(1) [of 0] by simp_all

lemma length_digit: "n < 10 \<Longrightarrow> length (show_nat n) = 1"
  by (subst show_nat.simps) simp

lemma weigh_digit: "n < 10 \<Longrightarrow> weigh (\<lambda>c. length (utf8_char c)) (show_nat n) = 1"
proof -
  have "weigh (\<lambda>c. length (utf8_char c)) (show_nat n) = length (show_nat n)"
    by (rule weigh_digits) (simp add: plain_utf8 plain_intros)
  then show "n < 10 \<Longrightarrow> weigh (\<lambda>c. length (utf8_char c)) (show_nat n) = 1" by (simp add: length_digit)
qed

lemmas size_simps = weigh_dumps_obj dumps_json_atoms dumps_json_number utf8_quote_plain length_quote_plain
  plain_char_def length_digit weigh_digit

end
