(* ===== verification/Paging.thy ===== *)
theory Paging
  imports Continuation
begin

text \<open>
  Pages of a JSON sequence under a hard budget of characters (continue_json_sequence and its
  helpers in tinysoul/infra/continuation.py, and tinysoul/infra/paging.py). A page carries whole
  items while they fit; an item that does not fit alone is sent as fragments of its canonical
  text, each the longest that fits by a binary search. The keyword arguments the helpers share
  are the record \<open>page_env\<close>.
\<close>

record page_env =
  pe_base :: json_object
  pe_field :: string
  pe_codec :: continuation_codec
  pe_ref :: string
  pe_binding :: "json_object option"
  pe_max_chars :: nat

section \<open>One page\<close>

definition page_value ::
  "json_object \<Rightarrow> string \<Rightarrow> json list \<Rightarrow> string option \<Rightarrow> string option \<Rightarrow> json_object" where
  "page_value base field items fragment next_token =
     (let v = AList.update field (JArr items) base;
          v = (case fragment of
                 None \<Rightarrow> v
               | Some t \<Rightarrow> AList.update ''content_fragment''
                   (JObj [(''encoding'', JStr ''canonical_json''), (''text'', JStr t)]) v)
      in case next_token of None \<Rightarrow> v | Some t \<Rightarrow> AList.update ''next_continuation'' (JStr t) v)"

definition env_page :: "page_env \<Rightarrow> json list \<Rightarrow> string option \<Rightarrow> continuation_position option \<Rightarrow> json_object" where
  "env_page env items fragment position =
     page_value (pe_base env) (pe_field env) items fragment
       (map_option (\<lambda>p. codec_encode (pe_codec env) p (pe_ref env) (pe_binding env)) position)"

definition page_fits :: "page_env \<Rightarrow> json_object \<Rightarrow> bool" where
  "page_fits env page = (length (dumps_json (JObj page)) \<le> pe_max_chars env)"

definition next_item :: "nat \<Rightarrow> nat \<Rightarrow> continuation_position option" where
  "next_item n_items index = (if index < n_items then Some (whole_position index) else None)"

section \<open>Fragments\<close>

definition text_digest :: "string \<Rightarrow> string" where
  "text_digest serialized = ''sha256:'' @ sha256_hexdigest (utf8 serialized)"

definition fragment_next :: "string \<Rightarrow> nat \<Rightarrow> nat \<Rightarrow> nat \<Rightarrow> continuation_position option" where
  "fragment_next serialized n_items index stop =
     (if stop < length serialized then
        Some \<lparr>cp_item_index = index, cp_char_offset = stop, cp_item_digest = JStr (text_digest serialized)\<rparr>
      else next_item n_items (index + 1))"

definition fragment_page :: "page_env \<Rightarrow> string \<Rightarrow> nat \<Rightarrow> nat \<Rightarrow> nat \<Rightarrow> nat \<Rightarrow> json_object" where
  "fragment_page env serialized n_items index start stop =
     env_page env [] (Some (take (stop - start) (drop start serialized)))
       (fragment_next serialized n_items index stop)"

text \<open>The loop of \<open>_continue_fragment\<close>; a stop of zero would leave \<open>high\<close> at -1 and end it.\<close>

function fragment_search :: "(nat \<Rightarrow> json_object) \<Rightarrow> (json_object \<Rightarrow> bool) \<Rightarrow> nat \<Rightarrow> nat
    \<Rightarrow> json_object option \<Rightarrow> json_object option" where
  "fragment_search candidate fits low high best =
     (if low \<le> high then
        (let stop = (low + high) div 2 in
         if fits (candidate stop) then fragment_search candidate fits (stop + 1) high (Some (candidate stop))
         else if stop = 0 then best
         else fragment_search candidate fits low (stop - 1) best)
      else best)"
  by pat_completeness auto
termination
  by (relation "measure (\<lambda>(_, _, low, high, _). Suc high - low)") auto

declare fragment_search.simps [simp del]

definition continue_fragment ::
  "page_env \<Rightarrow> json list \<Rightarrow> continuation_position \<Rightarrow> continuation_error + json_object" where
  "continue_fragment env items position =
     (let serialized = dumps_json (items ! cp_item_index position) in
      if json_truthy (cp_item_digest position)
         \<and> cp_item_digest position \<noteq> JStr (text_digest serialized) then
        cont_error Content_Changed ''Inspected content changed; inspect the node again''
      else if length serialized < cp_char_offset position then
        cont_error Continuation_Out_Of_Range
          ''Continuation no longer identifies content; inspect the node again''
      else
        (case fragment_search
                (fragment_page env serialized (length items) (cp_item_index position) (cp_char_offset position))
                (page_fits env) (cp_char_offset position + 1) (length serialized) None of
           None \<Rightarrow> cont_error Budget_Too_Small
             ''Inspect character limit is too small for one content character''
         | Some page \<Rightarrow> Inr page))"

section \<open>Whole items\<close>

definition fit_empty :: "page_env \<Rightarrow> continuation_error + json_object" where
  "fit_empty env =
     (let page = env_page env [] None None in
      if page_fits env page then Inr page
      else cont_error Budget_Too_Small ''Inspect character limit is too small for page metadata'')"

text \<open>The loop over the items: it stops full, or asks for a fragment of its first item.\<close>

datatype selection = Item_Too_Large | Selected "json list" nat

function select_items :: "page_env \<Rightarrow> json list \<Rightarrow> nat option \<Rightarrow> json list \<Rightarrow> nat \<Rightarrow> selection" where
  "select_items env items max_items selected index =
     (if index < length items \<and> (case max_items of None \<Rightarrow> True | Some m \<Rightarrow> length selected < m) then
        (if page_fits env
              (env_page env (selected @ [items ! index]) None (next_item (length items) (index + 1)))
         then select_items env items max_items (selected @ [items ! index]) (index + 1)
         else if selected = [] then Item_Too_Large
         else Selected selected index)
      else Selected selected index)"
  by pat_completeness auto
termination
  by (relation "measure (\<lambda>(_, items, _, _, index). length items - index)") auto

declare select_items.simps [simp del]

text \<open>\<open>continue_json_sequence\<close> after the token is decoded.\<close>

definition page_from ::
  "page_env \<Rightarrow> json list \<Rightarrow> nat option \<Rightarrow> string option \<Rightarrow> continuation_position
     \<Rightarrow> continuation_error + json_object" where
  "page_from env items max_items continuation position =
     (if length items \<le> cp_item_index position then
        (if continuation = None \<and> items = [] then fit_empty env
         else cont_error Continuation_Out_Of_Range
           ''Continuation no longer identifies content; inspect the node again'')
      else if cp_char_offset position \<noteq> 0 then continue_fragment env items position
      else
        (case select_items env items max_items [] (cp_item_index position) of
           Item_Too_Large \<Rightarrow> continue_fragment env items position
         | Selected selected index \<Rightarrow>
             (let page = env_page env selected None (next_item (length items) index) in
              if page_fits env page then Inr page
              else cont_error Budget_Too_Small
                ''Inspect character limit is too small for page metadata'')))"

definition continue_json_sequence ::
  "json list \<Rightarrow> json_object \<Rightarrow> string \<Rightarrow> string option \<Rightarrow> continuation_codec \<Rightarrow> string \<Rightarrow> int \<Rightarrow> int option
     \<Rightarrow> json_object option \<Rightarrow> continuation_error + json_object" where
  "continue_json_sequence items base item_field continuation token_codec ref max_chars max_items binding =
     (if max_chars \<le> 0 then
        cont_error Invalid_Limit ''Inspect character limit must be positive''
      else if (case max_items of None \<Rightarrow> False | Some m \<Rightarrow> m < 1) then
        cont_error Invalid_Limit ''Page item limit must be positive''
      else if item_field = [] \<or> item_field \<in> set (dict_keys base)
          \<or> ''next_continuation'' \<in> set (dict_keys base) then
        cont_error Invalid_Continuation ''Inspect page fields are invalid''
      else bind_r (codec_decode token_codec continuation ref binding) (\<lambda>position.
        page_from \<lparr>pe_base = base, pe_field = item_field, pe_codec = token_codec, pe_ref = ref,
            pe_binding = binding, pe_max_chars = nat max_chars\<rparr>
          items (map_option nat max_items) continuation position))"

section \<open>Bounded read projections\<close>

record page_options =
  po_continuation :: "string option"
  po_limit :: int
  po_max_chars :: int

definition default_page_chars :: int where "default_page_chars = 16 * 1024"
definition min_page_chars :: int where "min_page_chars = 1024"
definition max_page_chars :: int where "max_page_chars = 64 * 1024"

definition mk_page_options :: "string option \<Rightarrow> int \<Rightarrow> int \<Rightarrow> continuation_error + page_options" where
  "mk_page_options continuation limit max_chars =
     (if \<not> (1 \<le> limit \<and> limit \<le> 100) \<or> \<not> (min_page_chars \<le> max_chars \<and> max_chars \<le> max_page_chars) then
        cont_error Invalid_Limit ''Page limits are outside the supported range''
      else Inr \<lparr>po_continuation = continuation, po_limit = limit, po_max_chars = max_chars\<rparr>)"

definition content_binding :: "json list \<Rightarrow> json_object" where
  "content_binding items =
     [(''content'', JStr (sha256_hexdigest (utf8 (dumps_json (JObj [(''values'', JArr items)])))))]"

definition page_render ::
  "page_options \<Rightarrow> json list \<Rightarrow> string \<Rightarrow> string \<Rightarrow> json_object option \<Rightarrow> string \<Rightarrow> continuation_error + json_object" where
  "page_render options items owner ref base item_field =
     bind_r (mk_codec owner ''browse'') (\<lambda>token_codec.
       continue_json_sequence items (binding_object base) item_field (po_continuation options) token_codec ref
         (po_max_chars options) (Some (po_limit options)) (Some (content_binding items)))"

end
