(* ===== verification/Paging_Proofs.thy ===== *)
theory Paging_Proofs
  imports Paging
begin

text \<open>
  The lemmas of the pages: the binary search against a linear one, the selection of whole items,
  the length of a page, and one step of a reader from a valid position to the next.
\<close>

section \<open>The binary search\<close>

text \<open>The reference: try one stop after the other and keep the last before the first misfit.\<close>

function longest_fit :: "(nat \<Rightarrow> bool) \<Rightarrow> nat \<Rightarrow> nat \<Rightarrow> nat option" where
  "longest_fit fits low high =
     (if low \<le> high \<and> fits low then
        (case longest_fit fits (low + 1) high of None \<Rightarrow> Some low | Some stop \<Rightarrow> Some stop)
      else None)"
  by pat_completeness auto
termination
  by (relation "measure (\<lambda>(_, low, high). Suc high - low)") auto

declare longest_fit.simps [simp del]

lemma longest_fit_skip:
  assumes "\<And>a. low \<le> a \<Longrightarrow> a \<le> mid \<Longrightarrow> fits a" "low \<le> mid" "mid \<le> high"
  shows "longest_fit fits low high
    = (case longest_fit fits (mid + 1) high of None \<Rightarrow> Some mid | Some stop \<Rightarrow> Some stop)"
  using assms
proof (induction "mid - low" arbitrary: low)
  case 0
  then have "mid = low" by simp
  with 0 show ?case by (subst longest_fit.simps) (simp cong: option.case_cong)
next
  case (Suc n)
  have "longest_fit fits (low + 1) high
      = (case longest_fit fits (mid + 1) high of None \<Rightarrow> Some mid | Some stop \<Rightarrow> Some stop)"
    using Suc.hyps(2) Suc.prems by (intro Suc.hyps(1)) simp_all
  moreover have "fits low" using Suc.prems by simp
  ultimately show ?case using Suc.prems
    by (subst longest_fit.simps) (simp split: option.splits)
qed

lemma longest_fit_cut:
  assumes "\<not> fits mid" "low \<le> mid" "mid \<le> high"
  shows "longest_fit fits low high = longest_fit fits low (mid - 1)"
  using assms(2)
proof (induction "mid - low" arbitrary: low)
  case 0
  then have "low = mid" by simp
  then show ?case using assms by (subst (1 2) longest_fit.simps) auto
next
  case (Suc n)
  then have "longest_fit fits (low + 1) high = longest_fit fits (low + 1) (mid - 1)"
    by (intro Suc.hyps(1)) simp_all
  then show ?case using Suc.hyps(2) assms(3) by (subst (1 2) longest_fit.simps) simp
qed

lemma fragment_search_longest:
  assumes "\<And>a b. low \<le> a \<Longrightarrow> a < b \<Longrightarrow> b < high \<Longrightarrow> fits (c b) \<Longrightarrow> fits (c a)"
  shows "fragment_search c fits low high best
    = (case longest_fit (\<lambda>s. fits (c s)) low high of None \<Rightarrow> best | Some stop \<Rightarrow> Some (c stop))"
  using assms
proof (induction "Suc high - low" arbitrary: low high best rule: less_induct)
  case less
  let ?mid = "(low + high) div 2"
  show ?case
  proof (cases "low \<le> high")
    case False
    then show ?thesis by (subst fragment_search.simps, subst longest_fit.simps) simp
  next
    case le: True
    then have mid: "low \<le> ?mid" "?mid \<le> high" by auto
    show ?thesis
    proof (cases "fits (c ?mid)")
      case True
      have below: "fits (c a)" if "low \<le> a" "a \<le> ?mid" for a
      proof (cases "a = ?mid")
        case False
        with that have "a < ?mid" "?mid < high" by auto
        then show ?thesis using less.prems that True by blast
      qed (use True in simp)
      have "fragment_search c fits (?mid + 1) high (Some (c ?mid))
          = (case longest_fit (\<lambda>s. fits (c s)) (?mid + 1) high of None \<Rightarrow> Some (c ?mid) | Some stop \<Rightarrow> Some (c stop))"
      proof (rule less.hyps)
        show "Suc high - (?mid + 1) < Suc high - low" using mid le by linarith
        show "\<And>a b. ?mid + 1 \<le> a \<Longrightarrow> a < b \<Longrightarrow> b < high \<Longrightarrow> fits (c b) \<Longrightarrow> fits (c a)"
          using less.prems mid by (meson add_leD1 order_trans)
      qed
      moreover have "longest_fit (\<lambda>s. fits (c s)) low high
          = (case longest_fit (\<lambda>s. fits (c s)) (?mid + 1) high of None \<Rightarrow> Some ?mid | Some stop \<Rightarrow> Some stop)"
        by (rule longest_fit_skip) (use below mid in auto)
      ultimately show ?thesis using le True
        by (subst fragment_search.simps) (simp add: Let_def split: option.split)
    next
      case False
      have cut: "longest_fit (\<lambda>s. fits (c s)) low high = longest_fit (\<lambda>s. fits (c s)) low (?mid - 1)"
        by (rule longest_fit_cut) (use False mid in auto)
      show ?thesis
      proof (cases "?mid = 0")
        case True
        then have "low = 0" using mid by simp
        then have "longest_fit (\<lambda>s. fits (c s)) low (?mid - 1) = None"
          using False True by (subst longest_fit.simps) simp
        then show ?thesis using le False True cut
          by (subst fragment_search.simps) (simp add: Let_def)
      next
        case pos: False
        have "fragment_search c fits low (?mid - 1) best
            = (case longest_fit (\<lambda>s. fits (c s)) low (?mid - 1) of None \<Rightarrow> best | Some stop \<Rightarrow> Some (c stop))"
        proof (rule less.hyps)
          show "Suc (?mid - 1) - low < Suc high - low" using mid pos le by linarith
          show "\<And>a b. low \<le> a \<Longrightarrow> a < b \<Longrightarrow> b < ?mid - 1 \<Longrightarrow> fits (c b) \<Longrightarrow> fits (c a)"
            using less.prems mid by (meson diff_le_self less_le_trans order_trans)
        qed
        then show ?thesis using le False pos cut
          by (subst fragment_search.simps) (simp add: Let_def)
      qed
    qed
  qed
qed

text \<open>Without any monotonicity: what the search returns fits, and it finds something when the first stop fits.\<close>

lemma fragment_search_sound:
  "fragment_search c fits low high best = Some page \<Longrightarrow>
   best = Some page \<or> (fits page \<and> (\<exists>stop. low \<le> stop \<and> stop \<le> high \<and> page = c stop))"
proof (induction "Suc high - low" arbitrary: low high best rule: less_induct)
  case less
  let ?mid = "(low + high) div 2"
  show ?case
  proof (cases "low \<le> high")
    case False
    then show ?thesis using less.prems by (subst (asm) fragment_search.simps) simp
  next
    case le: True
    then have mid: "low \<le> ?mid" "?mid \<le> high" by auto
    show ?thesis
    proof (cases "fits (c ?mid)")
      case True
      then have "fragment_search c fits (?mid + 1) high (Some (c ?mid)) = Some page"
        using less.prems le by (subst (asm) fragment_search.simps) (simp add: Let_def)
      moreover have "Suc high - (?mid + 1) < Suc high - low" using mid le by linarith
      ultimately have "Some (c ?mid) = Some page
          \<or> (fits page \<and> (\<exists>stop. ?mid + 1 \<le> stop \<and> stop \<le> high \<and> page = c stop))"
        using less.hyps by blast
      then show ?thesis using mid True by (metis add_leD1 option.inject order_trans)
    next
      case False
      show ?thesis
      proof (cases "?mid = 0")
        case True
        then show ?thesis using less.prems le False by (subst (asm) fragment_search.simps) (simp add: Let_def)
      next
        case pos: False
        then have out: "fragment_search c fits low (?mid - 1) best = Some page"
          using less.prems le False by (subst (asm) fragment_search.simps) (simp add: Let_def)
        have "Suc (?mid - 1) - low < Suc high - low" using mid pos le by linarith
        from less.hyps [OF this out] show ?thesis using mid(2)
          by (metis diff_le_self order_trans)
      qed
    qed
  qed
qed

lemma fragment_search_progress:
  "best \<noteq> None \<or> (low \<le> high \<and> fits (c low)) \<Longrightarrow> \<exists>page. fragment_search c fits low high best = Some page"
proof (induction "Suc high - low" arbitrary: low high best rule: less_induct)
  case less
  let ?mid = "(low + high) div 2"
  show ?case
  proof (cases "low \<le> high")
    case False
    then show ?thesis using less.prems by (subst fragment_search.simps) simp
  next
    case le: True
    then have mid: "low \<le> ?mid" "?mid \<le> high" by auto
    show ?thesis
    proof (cases "fits (c ?mid)")
      case True
      have "\<exists>page. fragment_search c fits (?mid + 1) high (Some (c ?mid)) = Some page"
        by (rule less.hyps) (use mid le in auto)
      then show ?thesis using le True by (subst fragment_search.simps) (simp add: Let_def)
    next
      case misfit: False
      have keep: "best \<noteq> None \<or> (low \<le> ?mid - 1 \<and> fits (c low))"
      proof (cases "best = None")
        case True
        then have "fits (c low)" using less.prems by simp
        then have "low \<noteq> ?mid" using misfit by auto
        with mid \<open>fits (c low)\<close> show ?thesis by auto
      qed simp
      show ?thesis
      proof (cases "?mid = 0")
        case True
        then show ?thesis using keep misfit le mid less.prems
          by (subst fragment_search.simps) (auto simp: Let_def)
      next
        case False
        have "\<exists>page. fragment_search c fits low (?mid - 1) best = Some page"
          by (rule less.hyps) (use keep mid le False in auto)
        then show ?thesis using le misfit False by (subst fragment_search.simps) (simp add: Let_def)
      qed
    qed
  qed
qed

section \<open>The members of a page\<close>

text \<open>
  The fields of a page are distinct. The code refuses an item field or a continuation that the
  base holds already; that neither is the field of a fragment is up to its callers.
\<close>

definition page_fields :: "page_env \<Rightarrow> bool" where
  "page_fields env =
     (pe_field env \<notin> {''content_fragment'', ''next_continuation''}
      \<and> pe_field env \<notin> set (dict_keys (pe_base env))
      \<and> ''content_fragment'' \<notin> set (dict_keys (pe_base env))
      \<and> ''next_continuation'' \<notin> set (dict_keys (pe_base env)))"

definition fragment_json :: "string \<Rightarrow> json" where
  "fragment_json t = JObj [(''encoding'', JStr ''canonical_json''), (''text'', JStr t)]"

definition env_token :: "page_env \<Rightarrow> continuation_position \<Rightarrow> string" where
  "env_token env p = codec_encode (pe_codec env) p (pe_ref env) (pe_binding env)"

lemma env_page_members:
  assumes "page_fields env"
  shows "env_page env items fragment position =
    pe_base env @ [(pe_field env, JArr items)]
      @ (case fragment of None \<Rightarrow> [] | Some t \<Rightarrow> [(''content_fragment'', fragment_json t)])
      @ (case position of None \<Rightarrow> [] | Some p \<Rightarrow> [(''next_continuation'', JStr (env_token env p))])"
proof -
  let ?f = "pe_field env" and ?b = "pe_base env"
  have 1: "AList.update ?f (JArr items) ?b = ?b @ [(?f, JArr items)]"
    using assms by (subst update_fresh) (auto simp: page_fields_def)
  have 2: "AList.update ''content_fragment'' v (?b @ [(?f, JArr items)])
      = ?b @ [(?f, JArr items), (''content_fragment'', v)]" for v
    using assms by (subst update_fresh) (auto simp: page_fields_def)
  have 3: "AList.update ''next_continuation'' v (?b @ [(?f, JArr items)])
      = ?b @ [(?f, JArr items), (''next_continuation'', v)]" for v
    using assms by (subst update_fresh) (auto simp: page_fields_def)
  have 4: "AList.update ''next_continuation'' v (?b @ [(?f, JArr items), (''content_fragment'', u)])
      = ?b @ [(?f, JArr items), (''content_fragment'', u), (''next_continuation'', v)]" for u v
    using assms by (subst update_fresh) (auto simp: page_fields_def)
  show ?thesis
    by (cases fragment; cases position)
      (simp_all add: env_page_def page_value_def fragment_json_def env_token_def Let_def 1 2 3 4)
qed

text \<open>What a reader takes from a page: its items, its fragment and its token.\<close>

definition page_items :: "string \<Rightarrow> json_object \<Rightarrow> json list" where
  "page_items field page = (case map_of page field of Some (JArr xs) \<Rightarrow> xs | _ \<Rightarrow> [])"

definition page_fragment :: "json_object \<Rightarrow> string" where
  "page_fragment page =
     (case map_of page ''content_fragment'' of
        Some (JObj kvs) \<Rightarrow> (case map_of kvs ''text'' of Some (JStr t) \<Rightarrow> t | _ \<Rightarrow> [])
      | _ \<Rightarrow> [])"

definition page_token :: "json_object \<Rightarrow> string option" where
  "page_token page = (case map_of page ''next_continuation'' of Some (JStr t) \<Rightarrow> Some t | _ \<Rightarrow> None)"

definition page_text :: "string \<Rightarrow> json_object \<Rightarrow> string" where
  "page_text field page = concat (map dumps_json (page_items field page)) @ page_fragment page"

lemma env_page_reads:
  assumes "page_fields env"
  shows "page_items (pe_field env) (env_page env items fragment position) = items"
    and "page_fragment (env_page env items fragment position) = (case fragment of None \<Rightarrow> [] | Some t \<Rightarrow> t)"
    and "page_token (env_page env items fragment position) = map_option (env_token env) position"
proof -
  have "map_of (pe_base env) k = None" if "k \<in> {pe_field env, ''content_fragment'', ''next_continuation''}" for k
    using that assms unfolding page_fields_def map_of_eq_None_iff set_map by (metis insertE singletonD)
  moreover have "pe_field env \<noteq> ''content_fragment''" "pe_field env \<noteq> ''next_continuation''"
    using assms by (simp_all add: page_fields_def)
  ultimately show "page_items (pe_field env) (env_page env items fragment position) = items"
    "page_fragment (env_page env items fragment position) = (case fragment of None \<Rightarrow> [] | Some t \<Rightarrow> t)"
    "page_token (env_page env items fragment position) = map_option (env_token env) position"
    by (cases fragment; cases position;
        simp add: env_page_members [OF assms] page_items_def page_fragment_def page_token_def
          fragment_json_def map_add_def)+
qed

section \<open>The length of a page\<close>

definition page_length :: "json_object \<Rightarrow> nat" where
  "page_length page = length (dumps_json (JObj page))"

lemma page_fits_length: "page_fits env page \<longleftrightarrow> page_length page \<le> pe_max_chars env"
  by (simp add: page_fits_def page_length_def)

lemma weigh_one: "length s = weigh (\<lambda>_. Suc 0) s"
  using weigh_length by (simp only: One_nat_def)

lemma page_length_fragment:
  assumes "page_fields env"
  shows "page_length (env_page env [] (Some t) position) + 2
    = page_length (env_page env [] (Some []) None) + length (json_quote t)
      + (case position of None \<Rightarrow> 0 | Some p \<Rightarrow> 23 + length (env_token env p))"
proof -
  let ?w = "\<lambda>_ :: char. Suc 0"
  have q: "weigh ?w (json_quote []) = 2" by code_simp
  have n: "weigh ?w (json_quote ''next_continuation'') = 19" by code_simp
  have t: "weigh ?w (json_quote (env_token env p)) = weigh ?w (env_token env p) + 2" for p
    using length_quote_token by (simp only: env_token_def weigh_one)
  have f: "weigh ?w (dumps_json (fragment_json t)) + 2
      = weigh ?w (dumps_json (fragment_json [])) + weigh ?w (json_quote t)"
    unfolding fragment_json_def weigh_dumps_obj by (simp add: dumps_json_atoms q)
  show ?thesis
  proof (cases position)
    case None
    then show ?thesis
      unfolding page_length_def weigh_one env_page_members [OF assms] weigh_dumps_obj
      using f by simp
  next
    case (Some p)
    then show ?thesis
      unfolding page_length_def weigh_one env_page_members [OF assms] weigh_dumps_obj
      using f by (simp add: dumps_json_atoms n t)
  qed
qed

lemma length_show_nat_mono: "m \<le> n \<Longrightarrow> length (show_nat m) \<le> length (show_nat n)"
proof (induction n arbitrary: m rule: show_nat.induct)
  case (1 n)
  show ?case
  proof (cases "n < 10")
    case True
    then show ?thesis using "1.prems" by (subst (1 2) show_nat.simps) simp
  next
    case False
    show ?thesis
    proof (cases "m < 10")
      case True
      then show ?thesis using False by (subst (1 2) show_nat.simps) simp
    next
      case m: False
      have "length (show_nat (m div 10)) \<le> length (show_nat (n div 10))"
        using False "1.prems" by (intro "1.IH" div_le_mono) simp_all
      with m False show ?thesis by (subst (1 2) show_nat.simps) simp
    qed
  qed
qed

lemma length_quote_take: "m \<le> n \<Longrightarrow> length (json_quote (take m s)) \<le> length (json_quote (take n s))"
proof -
  assume "m \<le> n"
  then have "take n s = take m s @ take (n - m) (drop m s)" by (metis le_add_diff_inverse take_add)
  then show ?thesis by (simp add: json_quote_alt)
qed

lemma plain_digest: "list_all plain_char (text_digest serialized)"
proof -
  have "list_all plain_char ''sha256:''" by (simp add: plain_char_def)
  moreover have "list_all plain_char (sha256_hexdigest body)" for body
    using hexdigest_hex [of body] by (auto simp: list_all_iff plain_intros)
  ultimately show ?thesis by (simp add: text_digest_def)
qed

lemma length_text_digest: "length (text_digest serialized) = 71"
  by (simp add: text_digest_def)

text \<open>A token grows with the numbers of its position, and with its digest.\<close>

lemma length_env_token_mono:
  assumes "cp_item_digest p = JStr d" "cp_item_digest q = JStr e"
    and "list_all plain_char d" "list_all plain_char e" "length d \<le> length e"
    and "cp_item_index p \<le> cp_item_index q" "cp_char_offset p \<le> cp_char_offset q"
  shows "length (env_token env p) \<le> length (env_token env q)"
proof -
  let ?b = "\<lambda>p. body_size (pe_codec env) p (pe_ref env) (pe_binding env)"
  have "?b p \<le> ?b q"
    using body_size_position [OF assms(1, 3), of "pe_codec env" "pe_ref env" "pe_binding env"]
      body_size_position [OF assms(2, 4), of "pe_codec env" "pe_ref env" "pe_binding env"]
      length_show_nat_mono [OF assms(6)] length_show_nat_mono [OF assms(7)] assms(5) by linarith
  then have "(4 * ?b p + 2) div 3 \<le> (4 * ?b q + 2) div 3" by (intro div_le_mono) simp
  then show ?thesis by (simp add: env_token_def length_token)
qed

lemma fragment_page_mono:
  assumes "page_fields env" "start \<le> a" "a \<le> b" "b < length serialized"
  shows "page_length (fragment_page env serialized n index start a)
    \<le> page_length (fragment_page env serialized n index start b)"
proof -
  let ?p = "\<lambda>stop. \<lparr>cp_item_index = index, cp_char_offset = stop, cp_item_digest = JStr (text_digest serialized)\<rparr>"
  have page: "page_length (fragment_page env serialized n index start stop) + 2
      = page_length (env_page env [] (Some []) None)
        + length (json_quote (take (stop - start) (drop start serialized)))
        + (23 + length (env_token env (?p stop)))" if "stop < length serialized" for stop
    using page_length_fragment [OF assms(1), of "take (stop - start) (drop start serialized)" "Some (?p stop)"] that
    by (simp add: fragment_page_def fragment_next_def)
  have "length (env_token env (?p a)) \<le> length (env_token env (?p b))"
    by (rule length_env_token_mono [of _ "text_digest serialized" _ "text_digest serialized"])
      (use assms in \<open>simp_all add: plain_digest\<close>)
  moreover have "length (json_quote (take (a - start) (drop start serialized)))
      \<le> length (json_quote (take (b - start) (drop start serialized)))"
    using assms by (intro length_quote_take) simp
  ultimately show ?thesis using page [of a] page [of b] assms by linarith
qed

section \<open>The selection of whole items\<close>

lemma select_items_Selected:
  assumes "select_items env items mx selected index = Selected chosen stop" "index \<le> length items"
  shows "index \<le> stop \<and> stop \<le> length items \<and> chosen = selected @ take (stop - index) (drop index items)
    \<and> (chosen = selected \<or> page_fits env (env_page env chosen None (next_item (length items) stop)))"
  using assms
proof (induction "length items - index" arbitrary: selected index rule: less_induct)
  case less
  show ?case
  proof (cases "index < length items \<and> (case mx of None \<Rightarrow> True | Some m \<Rightarrow> length selected < m)
      \<and> page_fits env (env_page env (selected @ [items ! index]) None (next_item (length items) (index + 1)))")
    case True
    then have rec: "select_items env items mx (selected @ [items ! index]) (index + 1) = Selected chosen stop"
      using less.prems(1) by (subst (asm) select_items.simps) simp
    have IH: "index + 1 \<le> stop \<and> stop \<le> length items
        \<and> chosen = (selected @ [items ! index]) @ take (stop - (index + 1)) (drop (index + 1) items)
        \<and> (chosen = selected @ [items ! index] \<or> page_fits env (env_page env chosen None (next_item (length items) stop)))"
      by (rule less.hyps [OF _ rec]) (use True in auto)
    moreover have "take (stop - index) (drop index items)
        = items ! index # take (stop - (index + 1)) (drop (index + 1) items)"
    proof -
      have "drop index items = items ! index # drop (index + 1) items"
        using True by (simp add: Cons_nth_drop_Suc)
      moreover have "stop - index = Suc (stop - (index + 1))" using conjunct1 [OF IH] by simp
      ultimately show ?thesis by simp
    qed
    moreover have "page_fits env (env_page env chosen None (next_item (length items) stop))"
      if "chosen = selected @ [items ! index]"
    proof -
      have "take (stop - (index + 1)) (drop (index + 1) items) = []" using IH that by simp
      then have "stop = index + 1" using IH by auto
      then show ?thesis using True that by simp
    qed
    ultimately show ?thesis by auto
  next
    case False
    then have "chosen = selected \<and> stop = index"
      using less.prems(1) by (subst (asm) select_items.simps) (auto split: if_splits)
    then show ?thesis using less.prems(2) by simp
  qed
qed

lemma select_items_first:
  assumes "select_items env items mx [] index = Selected chosen stop" "index < length items" "mx \<noteq> Some 0"
  shows "index < stop" "stop \<le> length items" "chosen = take (stop - index) (drop index items)"
    "page_fits env (env_page env chosen None (next_item (length items) stop))"
proof -
  let ?one = "env_page env [items ! index] None (next_item (length items) (index + 1))"
  have eq: "select_items env items mx [] index
      = (if page_fits env ?one then select_items env items mx [items ! index] (index + 1) else Item_Too_Large)"
    using assms(2, 3) by (subst select_items.simps) (cases mx; simp)
  then have fits: "page_fits env ?one" and rec: "select_items env items mx [items ! index] (index + 1) = Selected chosen stop"
    using assms(1) by (simp_all split: if_splits)
  have "index + 1 \<le> stop \<and> stop \<le> length items
      \<and> chosen = [items ! index] @ take (stop - (index + 1)) (drop (index + 1) items)
      \<and> (chosen = [items ! index] \<or> page_fits env (env_page env chosen None (next_item (length items) stop)))"
    by (rule select_items_Selected [OF rec]) (use assms(2) in simp)
  then have r: "index + 1 \<le> stop" "stop \<le> length items"
    "chosen = [items ! index] \<or> page_fits env (env_page env chosen None (next_item (length items) stop))"
    "chosen = [items ! index] @ take (stop - (index + 1)) (drop (index + 1) items)"
    by blast+
  then show "index < stop" "stop \<le> length items" by simp_all
  have s: "stop - index = Suc (stop - (index + 1))" using r(1) by simp
  show "chosen = take (stop - index) (drop index items)"
    using r(4) assms(2) unfolding s by (simp flip: Cons_nth_drop_Suc)
  show "page_fits env (env_page env chosen None (next_item (length items) stop))"
  proof (cases "chosen = [items ! index]")
    case True
    then have "take (stop - (index + 1)) (drop (index + 1) items) = []" using r(4) by simp
    then have "stop = index + 1" using r(1, 2) by auto
    then show ?thesis using fits True by simp
  qed (use r(3) in simp)
qed

text \<open>Every page fits, whatever the token was.\<close>

lemma continue_fragment_fits: "continue_fragment env items p = Inr page \<Longrightarrow> page_fits env page"
  by (auto simp: continue_fragment_def Let_def split: if_splits option.splits dest: fragment_search_sound)

lemma page_from_fits: "page_from env items mx continuation p = Inr page \<Longrightarrow> page_fits env page"
  by (auto simp: page_from_def fit_empty_def Let_def split: if_splits selection.splits dest: continue_fragment_fits)

section \<open>Reading on\<close>

text \<open>The positions the code hands out, and the canonical text from a position on.\<close>

definition valid_position :: "json list \<Rightarrow> continuation_position \<Rightarrow> bool" where
  "valid_position items p =
     (cp_item_index p < length items
      \<and> (if cp_char_offset p = 0 then cp_item_digest p = JStr []
         else cp_char_offset p < length (dumps_json (items ! cp_item_index p))
           \<and> cp_item_digest p = JStr (text_digest (dumps_json (items ! cp_item_index p)))))"

definition remaining :: "json list \<Rightarrow> continuation_position \<Rightarrow> string" where
  "remaining items p =
     drop (cp_char_offset p) (dumps_json (items ! cp_item_index p))
       @ concat (map dumps_json (drop (cp_item_index p + 1) items))"

definition remaining_from :: "json list \<Rightarrow> continuation_position option \<Rightarrow> string" where
  "remaining_from items position = (case position of None \<Rightarrow> [] | Some p \<Rightarrow> remaining items p)"

lemma remaining_next_item: "remaining_from items (next_item (length items) i) = concat (map dumps_json (drop i items))"
proof (cases "i < length items")
  case True
  then have "drop i items = items ! i # drop (i + 1) items" by (simp add: Cons_nth_drop_Suc)
  with True show ?thesis by (simp add: remaining_from_def next_item_def remaining_def whole_position_def)
qed (simp add: remaining_from_def next_item_def)

lemma valid_next_item: "next_item (length items) i = Some q \<Longrightarrow> valid_position items q"
  by (auto simp: next_item_def valid_position_def whole_position_def split: if_splits)

text \<open>A budget that holds every page of one character.\<close>

definition longest_item :: "json list \<Rightarrow> nat" where
  "longest_item items = foldr (\<lambda>x m. max (length (dumps_json x)) m) items 0"

definition last_position :: "json list \<Rightarrow> continuation_position" where
  "last_position items =
     \<lparr>cp_item_index = length items, cp_char_offset = longest_item items, cp_item_digest = JStr (text_digest [])\<rparr>"

definition page_floor :: "page_env \<Rightarrow> json list \<Rightarrow> nat" where
  "page_floor env items =
     page_length (env_page env [] (Some []) None) + 29 + length (env_token env (last_position items))"

definition sequence_ok :: "json list \<Rightarrow> bool" where
  "sequence_ok items =
     (list_all json_loadable items \<and> length (show_nat (length items)) \<le> 4300
      \<and> length (show_nat (longest_item items)) \<le> 4300)"

lemma longest_item_ge: "x \<in> set items \<Longrightarrow> length (dumps_json x) \<le> longest_item items"
  by (induction items) (auto simp: longest_item_def)

lemma item_nonempty: "json_loadable x \<Longrightarrow> dumps_json x \<noteq> []"
  using json_dumps_start [of x "'',''" "'':''"] by (simp add: dumps_json_def value_start_def)

lemma length_escape: "length (json_escape_char c) \<le> 6"
  by (simp add: json_escape_char_def Let_def)

lemma one_char_fits:
  assumes env: "page_fields env" and budget: "page_floor env items \<le> pe_max_chars env"
    and i: "i < length items" and off: "off < length (dumps_json (items ! i))"
  shows "page_fits env (fragment_page env (dumps_json (items ! i)) (length items) i off (off + 1))"
proof -
  let ?s = "dumps_json (items ! i)"
  let ?t = "take 1 (drop off ?s)" and ?next = "fragment_next ?s (length items) i (off + 1)"
  obtain c where t: "?t = [c]" using off by (cases "drop off ?s") auto
  have quote: "length (json_quote ?t) \<le> 8" unfolding t using length_escape [of c] by (simp add: json_quote_alt)
  have token: "length (env_token env p) \<le> length (env_token env (last_position items))" if "?next = Some p" for p
  proof (cases "off + 1 < length ?s")
    case True
    have "length ?s \<le> longest_item items" using longest_item_ge i by simp
    then show ?thesis using that True i
      by (intro length_env_token_mono [of _ "text_digest ?s" _ "text_digest []"])
        (auto simp: fragment_next_def last_position_def plain_digest length_text_digest)
  next
    case False
    then show ?thesis using that
      by (intro length_env_token_mono [of _ "[]" _ "text_digest []"])
        (auto simp: fragment_next_def next_item_def whole_position_def last_position_def plain_digest split: if_splits)
  qed
  have "page_length (fragment_page env ?s (length items) i off (off + 1)) + 2
      \<le> page_length (env_page env [] (Some []) None) + 8 + (23 + length (env_token env (last_position items)))"
    using page_length_fragment [OF env, of ?t ?next] quote token
    by (cases ?next) (simp_all add: fragment_page_def)
  then show ?thesis using budget by (simp add: page_fits_length page_floor_def)
qed

lemma valid_position_ok:
  assumes "sequence_ok items" "valid_position items p"
  shows "position_ok p"
proof -
  have i: "length (show_nat (cp_item_index p)) \<le> length (show_nat (length items))"
    using assms(2) by (intro length_show_nat_mono) (simp add: valid_position_def)
  have "length (dumps_json (items ! cp_item_index p)) \<le> longest_item items"
    using assms(2) by (simp add: valid_position_def longest_item_ge)
  then have o: "length (show_nat (cp_char_offset p)) \<le> length (show_nat (longest_item items))"
    using assms(2) by (intro length_show_nat_mono) (auto simp: valid_position_def split: if_splits)
  have "is_digest (JStr (text_digest t))" for t
    using hexdigest_hex [of "utf8 t"]
    by (simp add: is_digest_def text_digest_def py_startswith_def py_removeprefix_def)
  then show ?thesis
    using i o assms by (auto simp: position_ok_def sequence_ok_def valid_position_def json_truthy_def split: if_splits)
qed

lemma fragment_step:
  assumes env: "page_fields env" and budget: "page_floor env items \<le> pe_max_chars env"
    and ok: "sequence_ok items" and p: "valid_position items p"
  obtains page q where "continue_fragment env items p = Inr page"
    and "page_token page = map_option (env_token env) q"
    and "page_text (pe_field env) page @ remaining_from items q = remaining items p"
    and "page_text (pe_field env) page \<noteq> []"
    and "\<And>p'. q = Some p' \<Longrightarrow> valid_position items p'"
proof -
  let ?i = "cp_item_index p" and ?off = "cp_char_offset p"
  let ?s = "dumps_json (items ! ?i)"
  let ?c = "fragment_page env ?s (length items) ?i ?off"
  have i: "?i < length items" using p by (simp add: valid_position_def)
  have "?s \<noteq> []" using i ok by (intro item_nonempty) (simp add: sequence_ok_def list_all_length)
  then have off: "?off < length ?s" using p by (auto simp: valid_position_def split: if_splits)
  have "page_fits env (?c (?off + 1))" by (rule one_char_fits [OF env budget i off])
  then obtain page where page: "fragment_search ?c (page_fits env) (?off + 1) (length ?s) None = Some page"
    using fragment_search_progress [of None "?off + 1" "length ?s" "page_fits env" ?c] off by auto
  then obtain stop where stop: "?off + 1 \<le> stop" "stop \<le> length ?s" "page = ?c stop"
    using fragment_search_sound [OF page] by blast
  let ?q = "fragment_next ?s (length items) ?i stop"
  have out: "continue_fragment env items p = Inr page"
    using page p off by (auto simp: continue_fragment_def valid_position_def json_truthy_def split: if_splits)
  have shown: "page_text (pe_field env) page = take (stop - ?off) (drop ?off ?s)"
    by (simp add: stop(3) fragment_page_def page_text_def env_page_reads [OF env])
  have token: "page_token page = map_option (env_token env) ?q"
    by (simp add: stop(3) fragment_page_def env_page_reads [OF env])
  show thesis
  proof (rule that [OF out token])
    show "page_text (pe_field env) page \<noteq> []" using stop(1, 2) off by (simp add: shown)
    show "page_text (pe_field env) page @ remaining_from items ?q = remaining items p"
    proof (cases "stop < length ?s")
      case True
      have "take (stop - ?off) (drop ?off ?s) @ drop stop ?s = drop ?off ?s"
        using stop(1) by (metis add_leD1 append_take_drop_id drop_drop le_add_diff_inverse2)
      then show ?thesis using True
        by (simp add: shown fragment_next_def remaining_from_def remaining_def flip: append_assoc)
    next
      case False
      then show ?thesis using stop(2)
        by (simp add: shown fragment_next_def remaining_next_item remaining_def)
    qed
    show "valid_position items p'" if "?q = Some p'" for p'
      using that i stop(1) valid_next_item
      by (auto simp: fragment_next_def valid_position_def split: if_splits)
  qed
qed

lemma page_step:
  assumes env: "page_fields env" and budget: "page_floor env items \<le> pe_max_chars env"
    and ok: "sequence_ok items" and p: "valid_position items p" and mx: "mx \<noteq> Some 0"
  obtains page q where "page_from env items mx token p = Inr page"
    and "page_token page = map_option (env_token env) q"
    and "page_text (pe_field env) page @ remaining_from items q = remaining items p"
    and "page_text (pe_field env) page \<noteq> []"
    and "\<And>p'. q = Some p' \<Longrightarrow> valid_position items p'"
proof (cases "cp_char_offset p = 0 \<and> select_items env items mx [] (cp_item_index p) \<noteq> Item_Too_Large")
  case False
  have "page_from env items mx token p = continue_fragment env items p"
    using False p by (auto simp: page_from_def valid_position_def)
  then show thesis using fragment_step [OF env budget ok p] that by metis
next
  case True
  let ?i = "cp_item_index p"
  obtain chosen stop where sel: "select_items env items mx [] ?i = Selected chosen stop"
    using True by (cases "select_items env items mx [] ?i") auto
  have i: "?i < length items" using p by (simp add: valid_position_def)
  note r = select_items_first [OF sel i mx]
  let ?q = "next_item (length items) stop"
  let ?page = "env_page env chosen None ?q"
  have out: "page_from env items mx token p = Inr ?page"
    using True i sel r(4) by (simp add: page_from_def)
  have shown: "page_text (pe_field env) ?page = concat (map dumps_json chosen)"
    by (simp add: page_text_def env_page_reads [OF env])
  have whole: "remaining items p = concat (map dumps_json (drop ?i items))"
    using True i by (simp add: remaining_def flip: Cons_nth_drop_Suc)
  have "drop ?i items = chosen @ drop stop items"
    using r(1, 3) by (metis append_take_drop_id drop_drop le_add_diff_inverse2 less_imp_le_nat)
  then have split: "page_text (pe_field env) ?page @ remaining_from items ?q = remaining items p"
    by (simp add: shown whole remaining_next_item)
  have "items ! ?i \<in> set chosen"
    using r(1, 2, 3) i by (cases "stop - ?i") (simp_all flip: Cons_nth_drop_Suc)
  moreover have "dumps_json (items ! ?i) \<noteq> []"
    using i ok by (intro item_nonempty) (simp add: sequence_ok_def list_all_length)
  ultimately have "page_text (pe_field env) ?page \<noteq> []" by (auto simp: shown)
  then show thesis using that [OF out _ split] valid_next_item env_page_reads(3) [OF env] by blast
qed

end
