(* ===== verification/Paging_Properties.thy ===== *)
theory Paging_Properties
  imports Paging_Proofs
begin

text \<open>
  What holds of the tokens and the pages: tokens come back to the owner they were made for and
  to nobody else, every page is within its budget, the fragment chosen is the longest that fits,
  and a reader who follows the tokens sees the whole sequence once, in order, in finitely many
  pages.
\<close>

section \<open>A reader\<close>

text \<open>A reader asks for pages until one carries no token; the fuel bounds the number of requests.\<close>

fun read_pages :: "nat \<Rightarrow> (string option \<Rightarrow> 'e + json_object) \<Rightarrow> string option \<Rightarrow> ('e + json_object list) option" where
  "read_pages 0 request token = None"
| "read_pages (Suc fuel) request token =
     (case request token of
        Inl e \<Rightarrow> Some (Inl e)
      | Inr page \<Rightarrow>
          (case page_token page of
             None \<Rightarrow> Some (Inr [page])
           | Some t \<Rightarrow>
               (case read_pages fuel request (Some t) of
                  Some (Inr pages) \<Rightarrow> Some (Inr (page # pages))
                | r \<Rightarrow> r)))"

definition binding_ok :: "json_object option \<Rightarrow> bool" where
  "binding_ok binding =
     (json_loadable (JObj (binding_object binding)) \<and> json_wf (JObj (binding_object binding))
      \<and> no_nan (JObj (binding_object binding)))"

lemma claims_equal_self: "binding_ok binding \<Longrightarrow> claims_equal c ref binding c ref binding"
  by (simp only: binding_ok_def claims_equal_def json_eq_canon simp_thms)

lemma decode_env_token:
  assumes "binding_ok (pe_binding env)" "sequence_ok items" "valid_position items p"
  shows "codec_decode (pe_codec env) (Some (env_token env p)) (pe_ref env) (pe_binding env) = Inr p"
proof -
  have "position_ok p" by (rule valid_position_ok [OF assms(2, 3)])
  moreover have "json_loadable (JObj (binding_object (pe_binding env)))"
    using assms(1) unfolding binding_ok_def by blast
  ultimately show ?thesis
    using claims_equal_self [OF assms(1)] unfolding env_token_def by (simp only: codec_decode_encode if_True)
qed

lemma read_pages_from:
  assumes env: "page_fields env" and budget: "page_floor env items \<le> pe_max_chars env"
    and ok: "sequence_ok items" and mx: "mx \<noteq> Some 0"
    and request: "\<And>p. valid_position items p \<Longrightarrow>
      request (Some (env_token env p)) = page_from env items mx (Some (env_token env p)) p"
    and p: "valid_position items p" and fuel: "length (remaining items p) \<le> fuel"
    and first: "request token = page_from env items mx token p"
  shows "\<exists>pages. read_pages fuel request token = Some (Inr pages)
    \<and> concat (map (page_text (pe_field env)) pages) = remaining items p
    \<and> (\<forall>page \<in> set pages. page_fits env page)"
  using p fuel first
proof (induction fuel arbitrary: p token)
  case 0
  obtain page q where "page_text (pe_field env) page @ remaining_from items q = remaining items p"
    "page_text (pe_field env) page \<noteq> []"
    using page_step [OF env budget ok "0.prems"(1) mx] by metis
  with "0.prems"(2) have False by auto
  then show ?case ..
next
  case (Suc fuel)
  obtain page q where page: "page_from env items mx token p = Inr page"
    and token: "page_token page = map_option (env_token env) q"
    and split: "page_text (pe_field env) page @ remaining_from items q = remaining items p"
    and shown: "page_text (pe_field env) page \<noteq> []"
    and valid: "\<And>p'. q = Some p' \<Longrightarrow> valid_position items p'"
    using page_step [OF env budget ok Suc.prems(1) mx] by metis
  have fits: "page_fits env page" by (rule page_from_fits [OF page])
  show ?case
  proof (cases q)
    case None
    then show ?thesis using Suc.prems(3) page token split fits by (simp add: remaining_from_def)
  next
    case (Some p')
    have "length (remaining items p') < length (remaining items p)"
      using split shown Some by (simp add: remaining_from_def flip: split)
    then have "length (remaining items p') \<le> fuel" using Suc.prems(2) by simp
    from Suc.IH [OF valid [OF Some] this request [OF valid [OF Some]]]
    obtain pages where "read_pages fuel request (Some (env_token env p')) = Some (Inr pages)"
      "concat (map (page_text (pe_field env)) pages) = remaining items p'"
      "\<forall>page \<in> set pages. page_fits env page" by blast
    then show ?thesis using Suc.prems(3) page token split fits Some
      by (simp add: remaining_from_def)
  qed
qed

lemma page_length_empty:
  assumes "page_fields env"
  shows "page_length (env_page env [] None None) \<le> page_length (env_page env [] (Some []) None)"
  unfolding page_length_def weigh_one env_page_members [OF assms] weigh_dumps_obj by simp

definition env_request :: "page_env \<Rightarrow> json list \<Rightarrow> int option \<Rightarrow> string option \<Rightarrow> continuation_error + json_object" where
  "env_request env items max_items token =
     continue_json_sequence items (pe_base env) (pe_field env) token (pe_codec env) (pe_ref env)
       (int (pe_max_chars env)) max_items (pe_binding env)"

lemma env_request_decode:
  assumes "page_fields env" "pe_field env \<noteq> []" "0 < pe_max_chars env"
    and "case max_items of None \<Rightarrow> True | Some m \<Rightarrow> 1 \<le> m"
    and "codec_decode (pe_codec env) token (pe_ref env) (pe_binding env) = Inr p"
  shows "env_request env items max_items token = page_from env items (map_option nat max_items) token p"
proof -
  have "\<lparr>pe_base = pe_base env, pe_field = pe_field env, pe_codec = pe_codec env, pe_ref = pe_ref env,
      pe_binding = pe_binding env, pe_max_chars = pe_max_chars env\<rparr> = env" by simp
  moreover have "\<not> int (pe_max_chars env) \<le> 0" using assms(3) by simp
  moreover have "\<not> (case max_items of None \<Rightarrow> False | Some m \<Rightarrow> m < 1)" using assms(4) by (cases max_items) auto
  moreover have "\<not> (pe_field env = [] \<or> pe_field env \<in> set (dict_keys (pe_base env))
      \<or> ''next_continuation'' \<in> set (dict_keys (pe_base env)))"
    using assms(1, 2) unfolding page_fields_def by blast
  ultimately show ?thesis
    unfolding env_request_def continue_json_sequence_def by (simp only: if_False assms(5) bind_r_simps nat_int)
qed

section \<open>Properties\<close>

text \<open>
  C9: A reader who starts without a token and follows the tokens of the pages gets, within as many requests as
  the sequence has characters (one for an empty sequence), pages whose items and fragments
  concatenate to the canonical texts of all items, each once and in order; every page is within
  the budget and no request fails, provided the budget holds a page of one character.
\<close>

theorem pages_cover_sequence:
  assumes fields: "page_fields env" "pe_field env \<noteq> []" and binding: "binding_ok (pe_binding env)"
    and budget: "page_floor env items \<le> pe_max_chars env" and ok: "sequence_ok items"
    and limit: "case max_items of None \<Rightarrow> True | Some m \<Rightarrow> 1 \<le> m"
  shows "\<exists>pages. read_pages (max 1 (length (concat (map dumps_json items)))) (env_request env items max_items) None
      = Some (Inr pages)
    \<and> concat (map (page_text (pe_field env)) pages) = concat (map dumps_json items)
    \<and> (\<forall>page \<in> set pages. length (dumps_json (JObj page)) \<le> pe_max_chars env)"
proof -
  have pos: "0 < pe_max_chars env" using budget by (simp add: page_floor_def)
  note request = env_request_decode [OF fields pos limit]
  have first: "codec_decode (pe_codec env) None (pe_ref env) (pe_binding env) = Inr (whole_position 0)"
    by (simp add: codec_decode_def)
  show ?thesis
  proof (cases "items = []")
    case True
    let ?page = "env_page env [] None None"
    have fits: "page_fits env ?page"
      using page_length_empty [OF fields(1)] budget by (simp add: page_fits_length page_floor_def)
    then have "env_request env items max_items None = Inr ?page"
      by (simp add: request [OF first] True page_from_def fit_empty_def whole_position_def)
    then show ?thesis using fits
      by (simp add: True env_page_reads [OF fields(1)] page_text_def page_fits_def)
  next
    case False
    let ?p = "whole_position 0"
    have valid: "valid_position items ?p" using False by (simp add: valid_position_def whole_position_def)
    have whole: "remaining items ?p = concat (map dumps_json items)"
      using False by (cases items) (simp_all add: remaining_def whole_position_def)
    have "\<exists>pages. read_pages (max 1 (length (concat (map dumps_json items)))) (env_request env items max_items) None
        = Some (Inr pages)
      \<and> concat (map (page_text (pe_field env)) pages) = remaining items ?p
      \<and> (\<forall>page \<in> set pages. page_fits env page)"
    proof (rule read_pages_from [OF fields(1) budget ok _ _ valid])
      show "map_option nat max_items \<noteq> Some 0" using limit by (cases max_items) auto
      show "env_request env items max_items (Some (env_token env p))
          = page_from env items (map_option nat max_items) (Some (env_token env p)) p"
        if "valid_position items p" for p
        by (rule request [OF decode_env_token [OF binding ok that]])
      show "length (remaining items ?p) \<le> max 1 (length (concat (map dumps_json items)))"
        by (simp add: whole)
      show "env_request env items max_items None = page_from env items (map_option nat max_items) None ?p"
        by (rule request [OF first])
    qed
    then show ?thesis by (simp add: whole page_fits_def)
  qed
qed

definition example_env :: page_env where
  "example_env =
     \<lparr>pe_base = [(''title'', JStr ''log'')], pe_field = ''items'',
      pe_codec = \<lparr>cc_owner = ''jobs'', cc_operation = ''browse''\<rparr>, pe_ref = ''job:1'',
      pe_binding = Some [(''day'', JStr ''1'')], pe_max_chars = 480\<rparr>"

definition example_items :: "json list" where
  "example_items = [JInt 1, JStr ''two'', JArr [JNull, JBool True]]"

lemma example_floor: "page_floor example_env example_items \<le> 480"
proof -
  let ?c = "\<lparr>cc_owner = ''jobs'', cc_operation = ''browse''\<rparr>" and ?b = "Some [(''day'', JStr ''1'')]"
  have "page_fields example_env" by (simp add: page_fields_def example_env_def)
  note members = env_page_members [OF this]
  have "page_length (env_page example_env [] (Some []) None) = 85"
    unfolding page_length_def weigh_one members
    by (simp add: example_env_def fragment_json_def size_simps dumps_json_def [of "JArr []"])
  moreover have "body_size ?c (whole_position 0) ''job:1'' ?b = 146"
    unfolding body_size_def weigh_utf8 [symmetric] token_value_def token_claims_def
    by (simp add: position_json_def whole_position_def binding_object_def size_simps plain_utf8)
  moreover have "longest_item example_items = 11" by code_simp
  moreover have "length example_items = 3" by code_simp
  moreover have "length (show_nat 3) = 1" "length (show_nat 11) = 2" by code_simp+
  ultimately show ?thesis
    using body_size_position [of "last_position example_items" "text_digest []" ?c "''job:1''" ?b]
    by (simp add: page_floor_def env_token_def length_token example_env_def last_position_def
        plain_digest length_text_digest)
qed

theorem pages_cover_sequence_witness:
  "\<exists>pages. read_pages (max 1 (length (concat (map dumps_json example_items))))
      (env_request example_env example_items (Some 2)) None = Some (Inr pages)
    \<and> concat (map (page_text ''items'') pages) = concat (map dumps_json example_items)
    \<and> (\<forall>page \<in> set pages. length (dumps_json (JObj page)) \<le> 480)"
proof -
  have "page_fields example_env" "pe_field example_env \<noteq> []" by code_simp+
  moreover have "binding_ok (pe_binding example_env)" by code_simp
  moreover have "page_floor example_env example_items \<le> pe_max_chars example_env"
    using example_floor by (simp add: example_env_def)
  moreover have "sequence_ok example_items" by code_simp
  moreover have "case Some (2 :: int) of None \<Rightarrow> True | Some m \<Rightarrow> 1 \<le> m" by simp
  moreover have "pe_field example_env = ''items''" "pe_max_chars example_env = 480"
    by (simp_all add: example_env_def)
  ultimately show ?thesis using pages_cover_sequence [of example_env example_items "Some 2"] by metis
qed

text \<open>
  No page exceeds its budget, whatever the items, the fields and the token are.
\<close>

theorem page_within_budget:
  assumes "continue_json_sequence items base item_field continuation token_codec ref max_chars max_items binding
    = Inr page"
  shows "length (dumps_json (JObj page)) \<le> nat max_chars"
proof -
  from assms obtain p where "page_from \<lparr>pe_base = base, pe_field = item_field, pe_codec = token_codec,
      pe_ref = ref, pe_binding = binding, pe_max_chars = nat max_chars\<rparr> items (map_option nat max_items)
      continuation p = Inr page"
    by (auto simp: continue_json_sequence_def bind_r_Inr_iff split: if_splits)
  from page_from_fits [OF this] show ?thesis by (simp add: page_fits_def)
qed

theorem page_within_budget_witness:
  "continue_json_sequence [JInt 7] [] ''items'' None \<lparr>cc_owner = ''a'', cc_operation = ''b''\<rparr> ''r'' 20 None None
     = Inr [(''items'', JArr [JInt 7])]
   \<and> length (dumps_json (JObj [(''items'', JArr [JInt 7])])) \<le> 20"
proof -
  have "continue_json_sequence [JInt 7] [] ''items'' None \<lparr>cc_owner = ''a'', cc_operation = ''b''\<rparr> ''r'' 20 None None
      = Inr [(''items'', JArr [JInt 7])]"
  proof -
    have "length (dumps_json (JObj [(''items'', JArr [JInt 7])])) = 13" by code_simp
    then show ?thesis
      by (simp add: continue_json_sequence_def codec_decode_def page_from_def whole_position_def
          select_items.simps env_page_def page_value_def next_item_def page_fits_def)
  qed
  with page_within_budget [OF this] show ?thesis by simp
qed

text \<open>
  C18: The binary search for a fragment gives what trying one stop after the other gives: the
  longest fragment up to the first that exceeds the budget. The length of the page is monotone
  below the end of the item, although the token of the last fragment is shorter than those
  before it.
\<close>

theorem fragment_search_is_linear:
  assumes "page_fields env"
  shows "fragment_search (fragment_page env serialized n_items index start) (page_fits env)
      (start + 1) (length serialized) None
    = map_option (fragment_page env serialized n_items index start)
        (longest_fit (\<lambda>stop. page_fits env (fragment_page env serialized n_items index start stop))
          (start + 1) (length serialized))"
proof -
  have "page_fits env (fragment_page env serialized n_items index start a)"
    if "start + 1 \<le> a" "a < b" "b < length serialized"
      "page_fits env (fragment_page env serialized n_items index start b)" for a b
    using fragment_page_mono [OF assms, of start a b serialized n_items index] that
    by (simp add: page_fits_length)
  then have "fragment_search (fragment_page env serialized n_items index start) (page_fits env)
      (start + 1) (length serialized) None
    = (case longest_fit (\<lambda>stop. page_fits env (fragment_page env serialized n_items index start stop))
          (start + 1) (length serialized) of
        None \<Rightarrow> None | Some stop \<Rightarrow> Some (fragment_page env serialized n_items index start stop))"
    by (rule fragment_search_longest)
  then show ?thesis by (simp split: option.split)
qed

theorem fragment_search_is_linear_witness:
  "fragment_search (fragment_page example_env ''[null,true]'' 3 2 4) (page_fits example_env) 5 11 None
    = map_option (fragment_page example_env ''[null,true]'' 3 2 4)
        (longest_fit (\<lambda>stop. page_fits example_env (fragment_page example_env ''[null,true]'' 3 2 4 stop)) 5 11)"
proof -
  have "page_fields example_env" by (simp add: page_fields_def example_env_def)
  moreover have "length ''[null,true]'' = 11" "(4 :: nat) + 1 = 5" by simp_all
  ultimately show ?thesis using fragment_search_is_linear [of example_env "''[null,true]''" 3 2 4] by metis
qed

text \<open>
  C19: A token decodes to the position it was made from for the same owner, operation, reference
  and an equal binding, and is a mismatch for any other.
\<close>

theorem continuation_owner_bound:
  assumes "position_ok p" "json_loadable (JObj (binding_object binding))"
  shows "codec_decode c' (Some (codec_encode c p ref binding)) ref' binding' =
    (if cc_owner c = cc_owner c' \<and> cc_operation c = cc_operation c' \<and> ref = ref'
        \<and> json_eq (json_canon (JObj (binding_object binding))) (JObj (binding_object binding'))
     then Inr p
     else Inl (ContinuationError Continuation_Mismatch
       ''Continuation no longer matches this node; inspect it again'' []))"
  using codec_decode_encode [OF assms] by (simp only: claims_equal_def)

theorem continuation_owner_bound_witness:
  "codec_decode \<lparr>cc_owner = ''jobs'', cc_operation = ''browse''\<rparr>
     (Some (codec_encode \<lparr>cc_owner = ''jobs'', cc_operation = ''browse''\<rparr> (whole_position 3) ''job:1'' None)) ''job:1'' None
   = Inr (whole_position 3)
   \<and> codec_decode \<lparr>cc_owner = ''jobs'', cc_operation = ''browse''\<rparr>
     (Some (codec_encode \<lparr>cc_owner = ''jobs'', cc_operation = ''browse''\<rparr> (whole_position 3) ''job:1'' None)) ''job:2'' None
   = Inl (ContinuationError Continuation_Mismatch ''Continuation no longer matches this node; inspect it again'' [])"
proof -
  have "position_ok (whole_position 3)" by (simp add: length_digit)
  moreover have "json_loadable (JObj (binding_object None))" by (simp add: binding_object_def)
  ultimately show ?thesis
    by (simp add: continuation_owner_bound binding_object_def json_canon_obj)
qed

end
