(* ===== verification/State_Result.thy ===== *)
theory State_Result
  imports Prelude
begin

text \<open>
  Operations on a state that end in a result or in an exception, both with the state they have
  reached: the shape of every method of an object that may raise. What it awaits is another
  operation on the same state, and may have changed the state in any way its contract allows.
\<close>

type_synonym ('s, 'e, 'a) op = "'s \<Rightarrow> 's \<times> ('e + 'a)"

definition op_return :: "'a \<Rightarrow> ('s, 'e, 'a) op" where
  "op_return a s = (s, Inr a)"

definition op_raise :: "'e \<Rightarrow> ('s, 'e, 'a) op" where
  "op_raise e s = (s, Inl e)"

definition op_bind :: "('s, 'e, 'a) op \<Rightarrow> ('a \<Rightarrow> ('s, 'e, 'b) op) \<Rightarrow> ('s, 'e, 'b) op" where
  "op_bind m k s = (case m s of (s', r) \<Rightarrow> (case r of Inl e \<Rightarrow> (s', Inl e) | Inr a \<Rightarrow> k a s'))"

text \<open>\<open>try: m except e: h\<close>\<close>

definition op_try :: "('s, 'e, 'a) op \<Rightarrow> ('e \<Rightarrow> ('s, 'e, 'a) op) \<Rightarrow> ('s, 'e, 'a) op" where
  "op_try m h s = (case m s of (s', r) \<Rightarrow> (case r of Inl e \<Rightarrow> h e s' | Inr a \<Rightarrow> (s', Inr a)))"

definition op_read :: "('s \<Rightarrow> ('s, 'e, 'a) op) \<Rightarrow> ('s, 'e, 'a) op" where
  "op_read k s = k s s"

definition op_update :: "('s \<Rightarrow> 's) \<Rightarrow> ('s, 'e, unit) op" where
  "op_update f s = (f s, Inr ())"

definition op_when :: "bool \<Rightarrow> ('s, 'e, unit) op \<Rightarrow> ('s, 'e, unit) op" where
  "op_when b m = (if b then m else op_return ())"

definition op_sum :: "'e + 'a \<Rightarrow> ('s, 'e, 'a) op" where
  "op_sum r s = (s, r)"

named_theorems op_simps \<open>equations of the operation combinators on a given state\<close>

lemma op_basic_simps [op_simps, simp]:
  "op_return a s = (s, Inr a)"
  "op_raise e s = (s, Inl e)"
  "op_read k s = k s s"
  "op_update f s = (f s, Inr ())"
  "op_sum r s = (s, r)"
  by (simp_all add: op_return_def op_raise_def op_read_def op_update_def op_sum_def)

lemma op_bind_step [op_simps]:
  "m s = (s', Inl e) \<Longrightarrow> op_bind m k s = (s', Inl e)"
  "m s = (s', Inr a) \<Longrightarrow> op_bind m k s = k a s'"
  by (simp_all add: op_bind_def)

lemma op_try_step [op_simps]:
  "m s = (s', Inl e) \<Longrightarrow> op_try m h s = h e s'"
  "m s = (s', Inr a) \<Longrightarrow> op_try m h s = (s', Inr a)"
  by (simp_all add: op_try_def)

lemma op_bind_Inr:
  "op_bind m k s = (s', Inr b) \<longleftrightarrow> (\<exists>s1 a. m s = (s1, Inr a) \<and> k a s1 = (s', Inr b))"
  by (auto simp: op_bind_def split: prod.splits sum.splits)

lemma op_bind_Inl:
  "op_bind m k s = (s', Inl e) \<longleftrightarrow>
     m s = (s', Inl e) \<or> (\<exists>s1 a. m s = (s1, Inr a) \<and> k a s1 = (s', Inl e))"
  by (auto simp: op_bind_def split: prod.splits sum.splits)

lemma op_try_Inr:
  "op_try m h s = (s', Inr b) \<longleftrightarrow>
     m s = (s', Inr b) \<or> (\<exists>s1 e. m s = (s1, Inl e) \<and> h e s1 = (s', Inr b))"
  by (auto simp: op_try_def split: prod.splits sum.splits)

lemma op_try_Inl:
  "op_try m h s = (s', Inl e') \<longleftrightarrow> (\<exists>s1 e. m s = (s1, Inl e) \<and> h e s1 = (s', Inl e'))"
  by (auto simp: op_try_def split: prod.splits sum.splits)

section \<open>Relations every operation guarantees\<close>

text \<open>
  \<open>op_under I R m\<close>: started in a state with \<open>I\<close>, and whatever it answers, the operation relates the
  states before and after by \<open>R\<close>.
\<close>

definition op_under :: "('s \<Rightarrow> bool) \<Rightarrow> ('s \<Rightarrow> 's \<Rightarrow> bool) \<Rightarrow> ('s, 'e, 'a) op \<Rightarrow> bool" where
  "op_under I R m = (\<forall>s. I s \<longrightarrow> R s (fst (m s)))"

definition stable :: "('s \<Rightarrow> 's \<Rightarrow> bool) \<Rightarrow> ('s \<Rightarrow> bool) \<Rightarrow> bool" where
  "stable R I = (\<forall>s t. I s \<longrightarrow> R s t \<longrightarrow> I t)"

lemma op_underD: "op_under I R m \<Longrightarrow> I s \<Longrightarrow> m s = (s', r) \<Longrightarrow> R s s'"
  by (metis fst_conv op_under_def)

lemma op_under_weaken: "op_under I R m \<Longrightarrow> (\<And>s. J s \<Longrightarrow> I s) \<Longrightarrow> op_under J R m"
  by (simp add: op_under_def)

lemma op_under_bind_spec:
  assumes "\<And>s t u. R s t \<Longrightarrow> R t u \<Longrightarrow> R s u"
    and "op_under I R m" "\<And>s s' a. I s \<Longrightarrow> m s = (s', Inr a) \<Longrightarrow> J a s'" "\<And>a. op_under (J a) R (k a)"
  shows "op_under I R (op_bind m k)"
  unfolding op_under_def
proof (intro allI impI)
  fix s
  assume I: "I s"
  obtain s' r where m: "m s = (s', r)" by (cases "m s")
  have R: "R s s'" using op_underD [OF assms(2) I m] .
  show "R s (fst (op_bind m k s))"
  proof (cases r)
    case (Inr a)
    then have "R s' (fst (k a s'))" using assms(3) [OF I] m assms(4) by (simp add: op_under_def)
    then show ?thesis using R assms(1) [OF R] Inr m by (simp add: op_bind_def)
  qed (use m R in \<open>simp add: op_bind_def\<close>)
qed

text \<open>A preorder on states, as every guarantee is: the closure rules are proved once.\<close>

locale guarantee =
  fixes R :: "'s \<Rightarrow> 's \<Rightarrow> bool"
  assumes R_refl: "R s s" and R_trans: "R s t \<Longrightarrow> R t u \<Longrightarrow> R s u"
begin

lemma under_return: "op_under I R (op_return a)"
  by (simp add: op_under_def R_refl)

lemma under_raise: "op_under I R (op_raise e)"
  by (simp add: op_under_def R_refl)

lemma under_sum: "op_under I R (op_sum r)"
  by (simp add: op_under_def R_refl)

lemma under_update: "(\<And>s. I s \<Longrightarrow> R s (f s)) \<Longrightarrow> op_under I R (op_update f)"
  by (simp add: op_under_def)

lemma under_read: "(\<And>s. I s \<Longrightarrow> op_under (\<lambda>t. t = s) R (k s)) \<Longrightarrow> op_under I R (op_read k)"
  by (simp add: op_under_def)

lemma under_read_any: "(\<And>s. op_under I R (k s)) \<Longrightarrow> op_under I R (op_read k)"
  by (simp add: op_under_def)

lemma under_bind_spec:
  "op_under I R m \<Longrightarrow> (\<And>s s' a. I s \<Longrightarrow> m s = (s', Inr a) \<Longrightarrow> J a s') \<Longrightarrow> (\<And>a. op_under (J a) R (k a))
     \<Longrightarrow> op_under I R (op_bind m k)"
  by (rule op_under_bind_spec [of R I m J]) (blast intro: R_trans)+

lemma under_bind:
  assumes "stable R I" "op_under I R m" "\<And>a. op_under I R (k a)"
  shows "op_under I R (op_bind m k)"
  by (rule under_bind_spec [OF assms(2) _ assms(3)]) (use assms(1, 2) in \<open>auto simp: stable_def dest: op_underD\<close>)

lemma under_try:
  assumes "stable R I" "op_under I R m" "\<And>e. op_under I R (h e)"
  shows "op_under I R (op_try m h)"
  unfolding op_under_def
proof (intro allI impI)
  fix s
  assume I: "I s"
  obtain s' r where m: "m s = (s', r)" by (cases "m s")
  have R: "R s s'" using op_underD [OF assms(2) I m] .
  then have "I s'" using I assms(1) by (simp add: stable_def)
  then have "R s' (fst (h e s'))" for e using assms(3) by (simp add: op_under_def)
  then show "R s (fst (op_try m h s))"
    using m R by (cases r) (auto simp: op_try_def intro: R_trans)
qed

lemma under_when: "op_under I R m \<Longrightarrow> op_under I R (op_when b m)"
  by (simp add: op_when_def under_return)

end

end
