(* ===== verification/Job_Models.thy ===== *)
theory Job_Models
  imports Continuation Outcomes Messages
begin

text \<open>
  The values of background Jobs (tinysoul/kernel/jobs: models.py, failures.py, config.py,
  runtime_bridge.py, output.py and the Context projection in segment.py): snapshots and requests
  for input with their bounds and JSON forms, failures and their projection to the runtime, the
  capacities, and the position of an output reader over several channels.
\<close>

section \<open>Failures\<close>

datatype job_failure_kind =
  JF_CONFIGURATION_FAILED | JF_CONTRACT_VIOLATION | JF_SUPERVISION_FAILED | JF_EXECUTION_CLOSE_FAILED

fun job_failure_value :: "job_failure_kind \<Rightarrow> string" where
  "job_failure_value JF_CONFIGURATION_FAILED = ''jobs.configuration_failed''"
| "job_failure_value JF_CONTRACT_VIOLATION = ''jobs.contract_violation''"
| "job_failure_value JF_SUPERVISION_FAILED = ''jobs.supervision_failed''"
| "job_failure_value JF_EXECUTION_CLOSE_FAILED = ''jobs.execution_close_failed''"

text \<open>A \<open>JobError\<close>; a \<open>JobRequestError\<close> is one with feedback for its caller.\<close>

datatype job_error =
    JobError string job_failure_kind
  | JobRequestError string string

definition job_error_kind :: "job_error \<Rightarrow> job_failure_kind" where
  "job_error_kind e = (case e of JobError m k \<Rightarrow> k | JobRequestError m f \<Rightarrow> JF_CONTRACT_VIOLATION)"

abbreviation contract_fault :: "string \<Rightarrow> job_error" where
  "contract_fault message \<equiv> JobError message JF_CONTRACT_VIOLATION"

fun job_reason :: "job_failure_kind \<Rightarrow> string" where
  "job_reason JF_CONFIGURATION_FAILED = runtime_startup_failed"
| "job_reason JF_CONTRACT_VIOLATION = runtime_turn_end"
| "job_reason JF_SUPERVISION_FAILED = runtime_turn_end"
| "job_reason JF_EXECUTION_CLOSE_FAILED = runtime_agent_end"

definition job_error_name :: "job_error \<Rightarrow> string" where
  "job_error_name e = (case e of JobError m k \<Rightarrow> ''JobError'' | JobRequestError m f \<Rightarrow> ''JobRequestError'')"

definition from_job_error :: "job_error \<Rightarrow> exn + runtime_exception" where
  "from_job_error e =
     module_failure ''jobs'' (job_failure_value (job_error_kind e)) (job_reason (job_error_kind e))
       (if job_error_kind e = JF_EXECUTION_CLOSE_FAILED then ''Controlled execution could not be closed.''
        else ''Job supervision contract failed.'')
       [(''error_type'', JStr (job_error_name e))]"

section \<open>Capacities\<close>

datatype config_error = ConfigError string string "pyval option"

definition reject_unknown_keys :: "(string \<times> pyval) list \<Rightarrow> string list \<Rightarrow> string \<Rightarrow> config_error + unit" where
  "reject_unknown_keys table allowed key =
     (case find (\<lambda>(name, value). name \<notin> set allowed) table of
        None \<Rightarrow> Inr ()
      | Some (name, value) \<Rightarrow> Inl (ConfigError ''Unknown configuration key''
          (if key = [] then name else key @ ''.'' @ name) (Some value)))"

definition from_config_error :: "config_error \<Rightarrow> exn + runtime_exception" where
  "from_config_error e =
     (case e of ConfigError m key v \<Rightarrow>
        module_failure ''jobs'' (job_failure_value JF_CONFIGURATION_FAILED) runtime_startup_failed
          ''Job configuration is invalid.''
          [(''error_type'', JStr ''ConfigError''), (''key'', JStr key)])"

record job_settings =
  js_retained_capacity :: int
  js_per_turn_live_capacity :: int

definition mk_job_settings :: "int \<Rightarrow> int \<Rightarrow> config_error + job_settings" where
  "mk_job_settings retained live =
     (if retained \<le> 0 then
        Inl (ConfigError ''Job capacity must be a positive integer'' ''jobs.retained_capacity'' None)
      else if live \<le> 0 then
        Inl (ConfigError ''Job capacity must be a positive integer'' ''jobs.per_turn_live_capacity'' None)
      else if retained < live then
        Inl (ConfigError ''Live Job capacity exceeds retained capacity'' ''jobs.per_turn_live_capacity'' None)
      else Inr \<lparr>js_retained_capacity = retained, js_per_turn_live_capacity = live\<rparr>)"

definition parse_job_settings :: "(string \<times> pyval) list \<Rightarrow> config_error + job_settings" where
  "parse_job_settings tree =
     bind_r (reject_unknown_keys tree [''retained_capacity'', ''per_turn_live_capacity''] ''jobs'') (\<lambda>_.
       case (dict_get tree ''retained_capacity'' (PyInt 16), dict_get tree ''per_turn_live_capacity'' (PyInt 1)) of
         (PyInt retained, PyInt live) \<Rightarrow> mk_job_settings retained live
       | _ \<Rightarrow> Inl (ConfigError ''Job capacities must be integers'' ''jobs'' None))"

section \<open>Requests for input\<close>

datatype job_state =
  JS_STARTING | JS_RUNNING | JS_WAITING_INPUT | JS_STOPPING | JS_SUCCEEDED | JS_FAILED | JS_CANCELLED

fun job_state_value :: "job_state \<Rightarrow> string" where
  "job_state_value JS_STARTING = ''starting''"
| "job_state_value JS_RUNNING = ''running''"
| "job_state_value JS_WAITING_INPUT = ''waiting_input''"
| "job_state_value JS_STOPPING = ''stopping''"
| "job_state_value JS_SUCCEEDED = ''succeeded''"
| "job_state_value JS_FAILED = ''failed''"
| "job_state_value JS_CANCELLED = ''cancelled''"

definition job_states :: "job_state list" where
  "job_states =
     [JS_STARTING, JS_RUNNING, JS_WAITING_INPUT, JS_STOPPING, JS_SUCCEEDED, JS_FAILED, JS_CANCELLED]"

text \<open>\<open>JobState(value)\<close>\<close>

definition job_state_of :: "string \<Rightarrow> job_state option" where
  "job_state_of s = find (\<lambda>st. job_state_value st = s) job_states"

definition job_terminal :: "job_state \<Rightarrow> bool" where
  "job_terminal st = (st \<in> {JS_SUCCEEDED, JS_FAILED, JS_CANCELLED})"

record job_input_option =
  jo_option_id :: string
  jo_label :: string

definition mk_job_input_option :: "string \<Rightarrow> string \<Rightarrow> job_error + job_input_option" where
  "mk_job_input_option option_id label =
     (if option_id = [] \<or> 128 < length option_id \<or> label = [] \<or> 256 < length label then
        Inl (contract_fault ''Job input option requires bounded identity and label'')
      else Inr \<lparr>jo_option_id = option_id, jo_label = label\<rparr>)"

datatype job_input_kind = JK_PERMISSION

fun job_input_kind_value :: "job_input_kind \<Rightarrow> string" where
  "job_input_kind_value JK_PERMISSION = ''permission''"

record job_input_request =
  jr_request_id :: string
  jr_question :: string
  jr_options :: "job_input_option list"
  jr_kind :: job_input_kind

definition job_input_to_json :: "job_input_request \<Rightarrow> json_object" where
  "job_input_to_json r =
     [(''request_id'', JStr (jr_request_id r)),
      (''kind'', JStr (job_input_kind_value (jr_kind r))),
      (''question'', JStr (jr_question r)),
      (''options'', JArr (map (\<lambda>i. JObj [(''option_id'', JStr (jo_option_id i)),
         (''label'', JStr (jo_label i))]) (jr_options r)))]"

definition mk_job_input_request ::
  "string \<Rightarrow> string \<Rightarrow> job_input_option list \<Rightarrow> job_input_kind \<Rightarrow> job_error + job_input_request" where
  "mk_job_input_request request_id question options kind =
     (let r = \<lparr>jr_request_id = request_id, jr_question = question, jr_options = options, jr_kind = kind\<rparr> in
      if request_id = [] \<or> 128 < length request_id \<or> question = [] \<or> 1000 < length question then
        Inl (contract_fault ''Job input requires bounded identity and question'')
      else if \<not> (1 \<le> length options \<and> length options \<le> 8)
          \<or> card (set (map jo_option_id options)) \<noteq> length options then
        Inl (contract_fault ''Job input requires distinct bounded options'')
      else if 7000 < length (utf8 (dumps_json (JObj (job_input_to_json r)))) then
        Inl (contract_fault ''Job input exceeds its delivery bound'')
      else Inr r)"

definition job_input_option_from_json :: "json \<Rightarrow> job_error + job_input_option" where
  "job_input_option_from_json item =
     (case item of
        JObj o' \<Rightarrow>
          (case (map_of o' ''option_id'', map_of o' ''label'') of
             (Some (JStr option_id), Some (JStr label)) \<Rightarrow> mk_job_input_option option_id label
           | _ \<Rightarrow> Inl (contract_fault ''Job input option is invalid''))
      | _ \<Rightarrow> Inl (contract_fault ''Job input option is invalid''))"

definition job_input_from_json :: "json \<Rightarrow> job_error + job_input_request" where
  "job_input_from_json value =
     (case value of
        JObj o' \<Rightarrow>
          (case (map_of o' ''request_id'', map_of o' ''question'', map_of o' ''options'') of
             (Some (JStr request_id), Some (JStr question), Some (JArr raw)) \<Rightarrow>
               bind_r (traverse job_input_option_from_json raw) (\<lambda>options.
                 if map_of o' ''kind'' = Some (JStr ''permission'') then
                   mk_job_input_request request_id question options JK_PERMISSION
                 else Inl (contract_fault ''Job input kind is invalid''))
           | _ \<Rightarrow> Inl (contract_fault ''Job input fields are invalid''))
      | _ \<Rightarrow> Inl (contract_fault ''Job input requires an object''))"

section \<open>Snapshots\<close>

text \<open>
  The arguments of the constructor are typed; its check that the texts encode as UTF-8 always
  passes on the model's alphabet.
\<close>

record job_snapshot =
  sn_job_id :: string
  sn_kind :: string
  sn_state :: job_state
  sn_summary :: string
  sn_reason :: string
  sn_pending_inputs :: "job_input_request list"
  sn_result_refs :: "string list"

definition mk_job_snapshot :: "job_snapshot \<Rightarrow> job_error + job_snapshot" where
  "mk_job_snapshot s =
     (if sn_job_id s = [] \<or> 128 < length (sn_job_id s) \<or> sn_kind s = [] \<or> 64 < length (sn_kind s) then
        Inl (contract_fault ''Job snapshot requires typed state and identity'')
      else if 1000 < length (sn_summary s) then
        Inl (contract_fault ''Job summary must be bounded text'')
      else if 128 < length (sn_reason s) then
        Inl (contract_fault ''Job reason must be a bounded identifier'')
      else if 4 < length (sn_pending_inputs s) then
        Inl (contract_fault ''Job pending inputs must be typed and bounded'')
      else if (sn_pending_inputs s \<noteq> []) \<noteq> (sn_state s = JS_WAITING_INPUT) then
        Inl (contract_fault ''Waiting Job state must describe its pending inputs'')
      else if 8 < length (sn_result_refs s)
          \<or> list_ex (\<lambda>ref. \<not> py_startswith ref ''workspace:'' \<or> 512 < length ref) (sn_result_refs s) then
        Inl (contract_fault ''Job results require bounded Workspace refs'')
      else Inr s)"

definition plain_snapshot :: "string \<Rightarrow> string \<Rightarrow> job_state \<Rightarrow> string \<Rightarrow> job_snapshot" where
  "plain_snapshot job_id kind state summary =
     \<lparr>sn_job_id = job_id, sn_kind = kind, sn_state = state, sn_summary = summary, sn_reason = [],
      sn_pending_inputs = [], sn_result_refs = []\<rparr>"

definition snapshot_ready :: "job_snapshot \<Rightarrow> bool" where
  "snapshot_ready s = (job_terminal (sn_state s) \<or> sn_pending_inputs s \<noteq> [])"

definition snapshot_to_json :: "job_snapshot \<Rightarrow> json_object" where
  "snapshot_to_json s =
     [(''job_id'', JStr (sn_job_id s)), (''kind'', JStr (sn_kind s)),
      (''state'', JStr (job_state_value (sn_state s))), (''summary'', JStr (sn_summary s)),
      (''reason'', JStr (sn_reason s)),
      (''pending_inputs'', JArr (map (\<lambda>r. JObj (job_input_to_json r)) (sn_pending_inputs s))),
      (''result_refs'', JArr (map JStr (sn_result_refs s)))]"

section \<open>The Context projection\<close>

text \<open>\<open>_decode\<close>: the payload of a \<open>context.jobs\<close> signal; every refusal is a \<open>ContextContractError\<close>.\<close>

datatype context_contract = ContextContractError string

definition json_string :: "json \<Rightarrow> context_contract + string" where
  "json_string v = (case v of JStr s \<Rightarrow> Inr s
     | _ \<Rightarrow> Inl (ContextContractError ''Job result refs must be a list of strings''))"

definition as_context :: "job_error + 'a \<Rightarrow> context_contract + 'a" where
  "as_context r = (case r of Inl e \<Rightarrow> Inl (ContextContractError ''Job snapshot contains an invalid state'')
     | Inr x \<Rightarrow> Inr x)"

definition decode_job :: "json \<Rightarrow> context_contract + job_snapshot" where
  "decode_job job =
     (case job of
        JObj o' \<Rightarrow>
          (case (map_of o' ''job_id'', map_of o' ''kind'', map_of o' ''state'', map_of o' ''summary'') of
             (Some (JStr job_id), Some (JStr kind), Some (JStr state), Some (JStr summary)) \<Rightarrow>
               (case dict_get o' ''reason'' (JStr []) of
                  JStr reason \<Rightarrow>
                    (case dict_get o' ''pending_inputs'' (JArr []) of
                       JArr pending \<Rightarrow>
                         (case dict_get o' ''result_refs'' (JArr []) of
                            JArr raw_refs \<Rightarrow>
                              bind_r (traverse json_string raw_refs) (\<lambda>refs.
                                case job_state_of state of
                                  None \<Rightarrow> Inl (ContextContractError ''Job snapshot contains an invalid state'')
                                | Some st \<Rightarrow>
                                    as_context (bind_r (traverse job_input_from_json pending) (\<lambda>inputs.
                                      mk_job_snapshot \<lparr>sn_job_id = job_id, sn_kind = kind, sn_state = st,
                                        sn_summary = summary, sn_reason = reason,
                                        sn_pending_inputs = inputs, sn_result_refs = refs\<rparr>)))
                          | _ \<Rightarrow> Inl (ContextContractError ''Job result refs must be a list of strings''))
                     | _ \<Rightarrow> Inl (ContextContractError ''Job inputs must be a list''))
                | _ \<Rightarrow> Inl (ContextContractError ''Job reason must be text''))
           | _ \<Rightarrow> Inl (ContextContractError ''Job snapshot contains invalid summary fields''))
      | _ \<Rightarrow> Inl (ContextContractError ''Job snapshot contains invalid summary fields''))"

definition decode_jobs :: "json_object \<Rightarrow> context_contract + job_snapshot list" where
  "decode_jobs payload =
     (case map_of payload ''jobs'' of
        Some (JArr jobs) \<Rightarrow> traverse decode_job jobs
      | _ \<Rightarrow> Inl (ContextContractError ''Job snapshot requires a list''))"

definition jobs_to_json :: "job_snapshot list \<Rightarrow> json_object" where
  "jobs_to_json jobs = [(''jobs'', JArr (map (\<lambda>s. JObj (snapshot_to_json s)) jobs))]"

text \<open>The segment of the Turn's Working context: the last update wins.\<close>

definition jobs_prepare :: "job_snapshot list list \<Rightarrow> job_snapshot list \<Rightarrow> job_snapshot list" where
  "jobs_prepare updates current = (if updates = [] then current else last updates)"

definition jobs_render :: "job_snapshot list \<Rightarrow> message llm_result list" where
  "jobs_render current =
     (if current = [] then []
      else [user_from_json (py_of_json (JObj (jobs_to_json current))) ''jobs''])"

section \<open>Positions of output readers\<close>

text \<open>\<open>s.split(sep)\<close> for a one-character separator.\<close>

function split_on :: "char \<Rightarrow> string \<Rightarrow> string list" where
  "split_on sep s =
     (if sep \<in> set s
      then takeWhile (\<lambda>c. c \<noteq> sep) s # split_on sep (tl (dropWhile (\<lambda>c. c \<noteq> sep) s))
      else [s])"
  by pat_completeness auto
termination
proof (relation "measure (\<lambda>(sep, s). length s)")
  fix sep :: char and s :: string
  assume "sep \<in> set s"
  then have "dropWhile (\<lambda>c. c \<noteq> sep) s \<noteq> []" by simp
  moreover have "length (dropWhile (\<lambda>c. c \<noteq> sep) s) \<le> length s" by (rule length_dropWhile_le)
  ultimately show "((sep, tl (dropWhile (\<lambda>c. c \<noteq> sep) s)), (sep, s)) \<in> measure (\<lambda>(sep, s). length s)"
    by (cases "dropWhile (\<lambda>c. c \<noteq> sep) s") auto
qed simp

declare split_on.simps [simp del]

definition output_codec :: continuation_codec where
  "output_codec = \<lparr>cc_owner = ''jobs'', cc_operation = ''output''\<rparr>"

definition output_ref :: "string \<Rightarrow> string \<Rightarrow> string" where
  "output_ref job_id channel = job_id @ '':'' @ channel"

definition output_decode :: "string option \<Rightarrow> string \<Rightarrow> string list \<Rightarrow> continuation_error + nat list" where
  "output_decode token job_id channels =
     (let tokens = (case token of
            Some (c # cs) \<Rightarrow> map Some (split_on (CHR ''~'') (c # cs))
          | _ \<Rightarrow> replicate (length channels) None)
      in if length tokens \<noteq> length channels then
           cont_error Continuation_Mismatch ''Job output continuation has different channels''
         else
           traverse (\<lambda>(channel, item).
             bind_r (codec_decode output_codec item (output_ref job_id channel) None)
               (\<lambda>p. Inr (cp_item_index p))) (zip channels tokens))"

text \<open>\<open>zip(..., strict=True)\<close> raises a \<open>ValueError\<close> (None) when the lengths differ.\<close>

definition output_encode :: "nat list \<Rightarrow> string \<Rightarrow> string list \<Rightarrow> string option" where
  "output_encode offsets job_id channels =
     (if length offsets \<noteq> length channels then None
      else Some (py_join ''~'' (map (\<lambda>(channel, offset).
        codec_encode output_codec (whole_position offset) (output_ref job_id channel) None)
          (zip channels offsets))))"

section \<open>Round trips\<close>

lemma job_state_of_value [simp]: "job_state_of (job_state_value st) = Some st"
  by (cases st) (simp_all add: job_state_of_def job_states_def)

definition wf_job_option :: "job_input_option \<Rightarrow> bool" where
  "wf_job_option i = (mk_job_input_option (jo_option_id i) (jo_label i) = Inr i)"

definition wf_job_input :: "job_input_request \<Rightarrow> bool" where
  "wf_job_input r =
     (mk_job_input_request (jr_request_id r) (jr_question r) (jr_options r) (jr_kind r) = Inr r
      \<and> list_all wf_job_option (jr_options r))"

definition wf_snapshot :: "job_snapshot \<Rightarrow> bool" where
  "wf_snapshot s = (mk_job_snapshot s = Inr s \<and> list_all wf_job_input (sn_pending_inputs s))"

lemma mk_job_input_option_wf: "mk_job_input_option i l = Inr x \<Longrightarrow> wf_job_option x"
  by (auto simp: mk_job_input_option_def wf_job_option_def split: if_splits)

lemma mk_job_input_request_eq: "mk_job_input_request i q options k = Inr r \<Longrightarrow>
    r = \<lparr>jr_request_id = i, jr_question = q, jr_options = options, jr_kind = k\<rparr>"
  by (auto simp: mk_job_input_request_def Let_def split: if_splits)

lemma mk_job_snapshot_eq: "mk_job_snapshot s = Inr s' \<Longrightarrow> s' = s"
  by (auto simp: mk_job_snapshot_def split: if_splits)

lemma option_from_to:
  "wf_job_option i \<Longrightarrow> job_input_option_from_json (JObj [(''option_id'', JStr (jo_option_id i)),
     (''label'', JStr (jo_label i))]) = Inr i"
  by (simp add: job_input_option_from_json_def wf_job_option_def)

lemma option_from_wf: "job_input_option_from_json j = Inr i \<Longrightarrow> wf_job_option i"
  by (auto simp: job_input_option_from_json_def mk_job_input_option_wf split: json.splits option.splits)

lemma job_input_from_to:
  assumes "wf_job_input r"
  shows "job_input_from_json (JObj (job_input_to_json r)) = Inr r"
proof -
  have options: "traverse job_input_option_from_json (map (\<lambda>i. JObj [(''option_id'', JStr (jo_option_id i)),
      (''label'', JStr (jo_label i))]) (jr_options r)) = Inr (jr_options r)"
    using assms by (intro traverse_map_ok option_from_to) (simp add: wf_job_input_def list_all_iff)
  moreover have "jr_kind r = JK_PERMISSION" by (cases "jr_kind r") simp
  moreover have "mk_job_input_request (jr_request_id r) (jr_question r) (jr_options r) (jr_kind r) = Inr r"
    using assms by (simp add: wf_job_input_def)
  ultimately show ?thesis by (simp add: job_input_from_json_def job_input_to_json_def)
qed

lemma job_input_from_wf:
  assumes "job_input_from_json j = Inr r"
  shows "wf_job_input r"
proof -
  obtain o' i q raw options where "traverse job_input_option_from_json raw = Inr options"
    and r: "mk_job_input_request i q options JK_PERMISSION = Inr r"
    using assms by (auto simp: job_input_from_json_def bind_r_Inr_iff split: json.splits option.splits if_splits)
  then have "list_all wf_job_option options"
    using traverse_Inr_all option_from_wf by (metis list_all_iff)
  with r mk_job_input_request_eq [OF r] show ?thesis by (simp add: wf_job_input_def)
qed

lemma traverse_refs: "traverse json_string (map JStr refs) = Inr refs"
  by (rule traverse_map_ok) (simp add: json_string_def)

lemma decode_job_to_json:
  assumes "wf_snapshot s"
  shows "decode_job (JObj (snapshot_to_json s)) = Inr s"
proof -
  have inputs: "traverse job_input_from_json (map (\<lambda>r. JObj (job_input_to_json r)) (sn_pending_inputs s))
      = Inr (sn_pending_inputs s)"
    using assms by (intro traverse_map_ok job_input_from_to) (simp add: wf_snapshot_def list_all_iff)
  have eta: "\<lparr>sn_job_id = sn_job_id s, sn_kind = sn_kind s, sn_state = sn_state s, sn_summary = sn_summary s,
      sn_reason = sn_reason s, sn_pending_inputs = sn_pending_inputs s, sn_result_refs = sn_result_refs s\<rparr> = s"
    by simp
  have "mk_job_snapshot s = Inr s" using assms by (simp add: wf_snapshot_def)
  with inputs show ?thesis
    by (simp add: decode_job_def snapshot_to_json_def dict_get_def traverse_refs as_context_def eta)
qed

lemma as_context_Inr [simp]: "as_context r = Inr x \<longleftrightarrow> r = Inr x"
  by (auto simp: as_context_def split: sum.splits)

lemma decode_job_wf:
  assumes "decode_job j = Inr s"
  shows "wf_snapshot s"
proof -
  obtain pending inputs s0 where "traverse job_input_from_json pending = Inr inputs"
    and s: "mk_job_snapshot s0 = Inr s" and i: "sn_pending_inputs s0 = inputs"
    using assms unfolding decode_job_def
    by (auto simp: bind_r_Inr_iff split: json.splits option.splits)
  then have "list_all wf_job_input inputs"
    using traverse_Inr_all job_input_from_wf by (metis list_all_iff)
  with s i mk_job_snapshot_eq [OF s] show ?thesis by (simp add: wf_snapshot_def)
qed

interpretation job_input_codec: codec "\<lambda>r. JObj (job_input_to_json r)" job_input_from_json wf_job_input
  by unfold_locales (auto intro: job_input_from_to job_input_from_wf)

interpretation snapshot_codec: codec "\<lambda>s. JObj (snapshot_to_json s)" decode_job wf_snapshot
  by unfold_locales (auto intro: decode_job_to_json decode_job_wf)

section \<open>Tokens of several channels\<close>

lemma split_on_absent: "sep \<notin> set s \<Longrightarrow> split_on sep s = [s]"
  by (subst split_on.simps) simp

lemma split_on_append: "sep \<notin> set a \<Longrightarrow> split_on sep (a @ sep # b) = a # split_on sep b"
  using py_partition_append [of sep a b] by (subst split_on.simps) (simp add: py_partition_def)

lemma split_on_join:
  "xs \<noteq> [] \<Longrightarrow> (\<And>x. x \<in> set xs \<Longrightarrow> sep \<notin> set x) \<Longrightarrow> split_on sep (py_join [sep] xs) = xs"
proof (induction xs rule: list_nonempty_induct)
  case (single x)
  then show ?case by (simp add: split_on_absent)
next
  case (cons x xs)
  obtain y ys where xs: "xs = y # ys" using cons.hyps by (cases xs) auto
  have "split_on sep (py_join [sep] xs) = xs" by (rule cons.IH) (simp add: cons.prems)
  moreover have "py_join [sep] (x # xs) = x @ sep # py_join [sep] xs" by (simp add: xs)
  moreover have "sep \<notin> set x" by (simp add: cons.prems)
  ultimately show ?case by (metis split_on_append)
qed

lemma token_no_tilde: "CHR ''~'' \<notin> set (codec_encode c p ref b)"
proof -
  have "CHR ''~'' \<notin> set (b64_token body)" for body
    using b64_token_plain [of body] by (auto simp: list_all_iff)
  moreover have "CHR ''~'' \<notin> set (sha256_hexdigest body)" for body
  proof -
    have "\<not> is_hex_char (CHR ''~'')" by (simp add: is_hex_char_def)
    then show ?thesis using hexdigest_hex [of body] unfolding list_all_iff by blast
  qed
  ultimately show ?thesis by (simp add: codec_encode_def Let_def)
qed

end
