(* ===== verification/Job_Registry.thy ===== *)
theory Job_Registry
  imports State_Result Job_Models Inbox
begin

text \<open>
  The supervisor of background Jobs (tinysoul/kernel/jobs/registry.py): admission under two
  capacities, ownership by Turn, polling and closing of backends, the terminal notice in the
  Turn's inbox, stop, release and the cleanup of a Turn.

  A \<open>_Job\<close> is an object that the registry's dictionary and the coroutines that work on it share,
  so it lives in a store and the dictionary holds its address; the same goes for the inboxes,
  which the Turns share with the registry. The backends, the factory that makes one, the end of a
  monitor task that is cancelled and joined, and whether the caller was cancelled meanwhile are
  parameters (\<open>job_env\<close>). They act on the whole world, so a backend that suspends may let any
  other operation of the registry run before it answers. A job's \<open>control_lock\<close> makes stop and
  release of the same Job wait for each other: such a call starts when the other has ended.
\<close>

section \<open>State\<close>

datatype job_failure = FailJob job_error | FailRuntime runtime_exception

record 'b job =
  jb_turn_id :: string
  jb_snapshot :: job_snapshot
  jb_backend :: "'b option"
  jb_monitor :: bool
  jb_terminal_delivered :: bool
  jb_execution_closed :: bool
  jb_failure :: "job_failure option"

record ('b, 'w) job_world =
  jw_capacity :: int
  jw_per_turn :: int
  jw_jobs :: "(string \<times> nat) list"
  jw_objects :: "'b job list"
  jw_inboxes :: "(string \<times> nat) list"
  jw_inbox_objects :: "inbox list"
  jw_diagnostics :: "(string \<times> cleanup_diagnostic list) list"
  jw_next_job_sequences :: "(string \<times> nat) list"
  jw_rest :: 'w

text \<open>The exceptions an operation may end with; \<open>JE_Other\<close> is any other \<open>Exception\<close>, by its class.\<close>

datatype job_exn =
    JE_Job job_error
  | JE_Runtime runtime_exception
  | JE_Continuation continuation_error
  | JE_Cancelled
  | JE_Contract exn
  | JE_Inbox inbox_error
  | JE_Other string

type_synonym ('b, 'w, 'a) job_op = "(('b, 'w) job_world, job_exn, 'a) op"

record ('b, 'w) job_env =
  je_poll :: "'b \<Rightarrow> ('b, 'w, job_snapshot option) job_op"
  je_close_execution :: "'b \<Rightarrow> ('b, 'w, cleanup_diagnostic list option) job_op"
  je_cleanup :: "'b \<Rightarrow> ('b, 'w, cleanup_diagnostic list option) job_op"
  je_request_stop :: "'b \<Rightarrow> ('b, 'w, unit) job_op"
  je_describe :: "'b \<Rightarrow> ('b, 'w, json_object) job_op"
  je_read_output :: "'b \<Rightarrow> string option \<Rightarrow> int \<Rightarrow> ('b, 'w, json_object) job_op"
  je_join :: "nat \<Rightarrow> ('b, 'w, unit) job_op"
  je_interrupted :: "('b, 'w) job_world \<Rightarrow> bool"
  je_received :: "('b, 'w) job_world \<Rightarrow> number"

definition mk_registry :: "int \<Rightarrow> int \<Rightarrow> inbox list \<Rightarrow> 'w \<Rightarrow> job_error + ('b, 'w) job_world" where
  "mk_registry capacity per_turn inboxes rest =
     (if capacity \<le> 0 \<or> per_turn \<le> 0 then Inl (contract_fault ''Job limits must be positive integers'')
      else Inr \<lparr>jw_capacity = capacity, jw_per_turn = per_turn, jw_jobs = [], jw_objects = [],
        jw_inboxes = [], jw_inbox_objects = inboxes, jw_diagnostics = [], jw_next_job_sequences = [],
        jw_rest = rest\<rparr>)"

abbreviation job_at :: "('b, 'w) job_world \<Rightarrow> nat \<Rightarrow> 'b job" where
  "job_at w ref \<equiv> jw_objects w ! ref"

definition set_job :: "nat \<Rightarrow> ('b job \<Rightarrow> 'b job) \<Rightarrow> ('b, 'w) job_world \<Rightarrow> ('b, 'w) job_world" where
  "set_job ref f w = w\<lparr>jw_objects := (jw_objects w)[ref := f (job_at w ref)]\<rparr>"

definition update_job :: "nat \<Rightarrow> ('b job \<Rightarrow> 'b job) \<Rightarrow> ('b, 'w, unit) job_op" where
  "update_job ref f = op_update (set_job ref f)"

definition read_job :: "nat \<Rightarrow> ('b job \<Rightarrow> ('b, 'w, 'a) job_op) \<Rightarrow> ('b, 'w, 'a) job_op" where
  "read_job ref k = op_read (\<lambda>w. k (job_at w ref))"

definition failure_exn :: "job_failure \<Rightarrow> job_exn" where
  "failure_exn f = (case f of FailJob e \<Rightarrow> JE_Job e | FailRuntime x \<Rightarrow> JE_Runtime x)"

text \<open>The exceptions an \<open>except (JobError, RuntimeException)\<close> clause catches.\<close>

definition caught_failure :: "job_exn \<Rightarrow> job_failure option" where
  "caught_failure e = (case e of JE_Job x \<Rightarrow> Some (FailJob x) | JE_Runtime x \<Rightarrow> Some (FailRuntime x) | _ \<Rightarrow> None)"

section \<open>Inboxes\<close>

definition bind_inbox :: "string \<Rightarrow> nat option \<Rightarrow> ('b, 'w, unit) job_op" where
  "bind_inbox turn_id inbox_ref = op_read (\<lambda>w.
     if turn_id = [] then op_raise (JE_Job (contract_fault ''Job owner Turn identity is required''))
     else if turn_id \<in> set (dict_keys (jw_inboxes w)) \<and> map_of (jw_inboxes w) turn_id \<noteq> inbox_ref then
       op_raise (JE_Job (contract_fault ''Job owner Inbox cannot change during a Turn''))
     else (case inbox_ref of
             None \<Rightarrow> op_return ()
           | Some i \<Rightarrow> op_update (\<lambda>w. w\<lparr>jw_inboxes := AList.update turn_id i (jw_inboxes w)\<rparr>)))"

text \<open>A call of the Turn's inbox, where one is bound; \<open>InboxError\<close>s become the given exception.\<close>

definition with_inbox ::
  "string \<Rightarrow> job_error \<Rightarrow> (inbox \<Rightarrow> inbox \<times> unit inbox_result) \<Rightarrow> ('b, 'w, unit) job_op" where
  "with_inbox turn_id failure f = op_read (\<lambda>w.
     case map_of (jw_inboxes w) turn_id of
       None \<Rightarrow> op_return ()
     | Some i \<Rightarrow>
         (case f (jw_inbox_objects w ! i) of
            (ib, r) \<Rightarrow>
              op_bind (op_update (\<lambda>w. w\<lparr>jw_inbox_objects := (jw_inbox_objects w)[i := ib]\<rparr>)) (\<lambda>_.
                case r of Inl e \<Rightarrow> op_raise (JE_Job failure) | Inr _ \<Rightarrow> op_return ())))"

section \<open>Backend calls\<close>

text \<open>\<open>_call\<close>; \<open>cancelled\<close> is the state of the caller's \<open>JoinedOperations\<close>, False without them.\<close>

definition call_backend :: "bool \<Rightarrow> job_failure_kind \<Rightarrow> ('b, 'w, 'a) job_op \<Rightarrow> ('b, 'w, 'a) job_op" where
  "call_backend cancelled kind operation =
     (if cancelled then op_raise JE_Cancelled
      else op_try operation (\<lambda>e. op_raise (case e of
        JE_Job x \<Rightarrow> e | JE_Runtime x \<Rightarrow> e | JE_Continuation x \<Rightarrow> e | JE_Cancelled \<Rightarrow> e
      | _ \<Rightarrow> JE_Job (JobError ''Job backend could not complete its operation'' kind))))"

definition job_backend :: "nat \<Rightarrow> ('b \<Rightarrow> ('b, 'w, 'a) job_op) \<Rightarrow> ('b, 'w, 'a) job_op" where
  "job_backend ref k = read_job ref (\<lambda>job.
     case jb_backend job of None \<Rightarrow> op_raise (JE_Other ''AssertionError'') | Some b \<Rightarrow> k b)"

definition poll_job :: "('b, 'w) job_env \<Rightarrow> nat \<Rightarrow> ('b, 'w, job_snapshot) job_op" where
  "poll_job env ref = job_backend ref (\<lambda>b.
     op_bind (call_backend False JF_SUPERVISION_FAILED (je_poll env b)) (\<lambda>answer.
     read_job ref (\<lambda>job.
       case answer of
         None \<Rightarrow> op_raise (JE_Job (contract_fault ''Backend changed Job identity''))
       | Some snapshot \<Rightarrow>
           if sn_job_id snapshot \<noteq> sn_job_id (jb_snapshot job) \<or> sn_kind snapshot \<noteq> sn_kind (jb_snapshot job)
           then op_raise (JE_Job (contract_fault ''Backend changed Job identity''))
           else op_return snapshot)))"

definition record_diagnostics :: "string \<Rightarrow> cleanup_diagnostic list option \<Rightarrow> ('b, 'w, unit) job_op" where
  "record_diagnostics turn_id diagnostics =
     (case diagnostics of
        None \<Rightarrow> op_raise (JE_Job (contract_fault ''Backend cleanup must return typed diagnostics''))
      | Some ds \<Rightarrow> op_update (\<lambda>w. w\<lparr>jw_diagnostics :=
          AList.update turn_id (dict_get (jw_diagnostics w) turn_id [] @ ds) (jw_diagnostics w)\<rparr>))"

definition close_execution :: "('b, 'w) job_env \<Rightarrow> nat \<Rightarrow> ('b, 'w, unit) job_op" where
  "close_execution env ref = read_job ref (\<lambda>job.
     case jb_backend job of
       None \<Rightarrow> op_return ()
     | Some b \<Rightarrow>
         if jb_execution_closed job then op_return ()
         else
           op_bind (call_backend False JF_EXECUTION_CLOSE_FAILED (je_close_execution env b)) (\<lambda>diagnostics.
           op_bind (record_diagnostics (jb_turn_id job) diagnostics) (\<lambda>_.
           update_job ref (\<lambda>j. j\<lparr>jb_execution_closed := True\<rparr>))))"

definition deliver_job_terminal :: "('b, 'w) job_env \<Rightarrow> nat \<Rightarrow> ('b, 'w, unit) job_op" where
  "deliver_job_terminal env ref = op_read (\<lambda>w.
     let job = job_at w ref in
     if jb_terminal_delivered job then op_return ()
     else
       op_bind (with_inbox (jb_turn_id job) (contract_fault ''Reserved Job delivery failed'')
         (deliver_terminal (je_received env w) (sn_job_id (jb_snapshot job)) (snapshot_to_json (jb_snapshot job)))) (\<lambda>_.
       update_job ref (\<lambda>j. j\<lparr>jb_terminal_delivered := True\<rparr>)))"

text \<open>\<open>_join_monitor\<close>: a cancelled monitor is what was asked for; another failure of it is kept apart.\<close>

definition join_monitor :: "('b, 'w) job_env \<Rightarrow> nat \<Rightarrow> ('b, 'w, unit) job_op" where
  "join_monitor env ref = read_job ref (\<lambda>job.
     if \<not> jb_monitor job then op_return ()
     else
       op_bind (op_try (je_join env ref) (\<lambda>e.
         case e of
           JE_Cancelled \<Rightarrow> op_return ()
         | JE_Runtime x \<Rightarrow> op_raise e
         | _ \<Rightarrow> op_raise (JE_Job (JobError ''Job monitor failed'' JF_SUPERVISION_FAILED)))) (\<lambda>_.
       update_job ref (\<lambda>j. j\<lparr>jb_monitor := False\<rparr>)))"

section \<open>Release\<close>

definition runtime_error :: "job_error \<Rightarrow> job_exn" where
  "runtime_error e = (case from_job_error e of Inl x \<Rightarrow> JE_Contract x | Inr x \<Rightarrow> JE_Runtime x)"

definition closed_failure :: job_error where
  "closed_failure = JobError ''Backend reported a live Job after closing execution'' JF_EXECUTION_CLOSE_FAILED"

text \<open>Closing the execution inside \<open>release\<close>, with the last snapshot.\<close>

definition settle_execution :: "('b, 'w) job_env \<Rightarrow> nat \<Rightarrow> string \<Rightarrow> ('b, 'w, unit) job_op" where
  "settle_execution env ref job_id =
     op_bind (close_execution env ref) (\<lambda>_.
     op_bind (op_try
         (op_bind (poll_job env ref) (\<lambda>snapshot. update_job ref (\<lambda>j. j\<lparr>jb_snapshot := snapshot\<rparr>)))
         (\<lambda>e. case e of
            JE_Job x \<Rightarrow> update_job ref (\<lambda>j. j\<lparr>
              jb_failure := (case jb_failure j of None \<Rightarrow> Some (FailJob x) | Some f \<Rightarrow> Some f),
              jb_snapshot := plain_snapshot job_id (sn_kind (jb_snapshot j)) JS_FAILED
                ''Execution closed; final result is unavailable.''\<rparr>)
          | _ \<Rightarrow> op_raise e)) (\<lambda>_.
     read_job ref (\<lambda>job.
       if job_terminal (sn_state (jb_snapshot job)) then op_return ()
       else op_bind (update_job ref (\<lambda>j. j\<lparr>jb_execution_closed := False\<rparr>)) (\<lambda>_.
         op_raise (JE_Job closed_failure)))))"

definition release_close :: "('b, 'w) job_env \<Rightarrow> nat \<Rightarrow> string \<Rightarrow> string \<Rightarrow> ('b, 'w, unit) job_op" where
  "release_close env ref turn_id job_id = op_read (\<lambda>w.
     if job_id \<notin> set (dict_keys (jw_jobs w)) then op_return ()
     else
       op_bind (join_monitor env ref) (\<lambda>_.
       op_bind (read_job ref (\<lambda>job.
         case jb_backend job of
           None \<Rightarrow> op_return ()
         | Some b \<Rightarrow>
             op_bind (op_when (\<not> jb_execution_closed job) (settle_execution env ref job_id)) (\<lambda>_.
             op_bind (call_backend False JF_SUPERVISION_FAILED (je_cleanup env b)) (\<lambda>diagnostics.
             op_bind (record_diagnostics turn_id diagnostics) (\<lambda>_.
             deliver_job_terminal env ref))))) (\<lambda>_.
       op_bind (with_inbox turn_id (contract_fault '''') (\<lambda>ib. (release_terminal job_id ib, Inr ()))) (\<lambda>_.
       op_bind (op_update (\<lambda>w. w\<lparr>jw_jobs := AList.delete job_id (jw_jobs w)\<rparr>)) (\<lambda>_.
       read_job ref (\<lambda>job.
         case jb_failure job of None \<Rightarrow> op_return () | Some f \<Rightarrow> op_raise (failure_exn f)))))))"

text \<open>\<open>operation.check_cancelled()\<close> of a \<open>JoinedOperations\<close> that ran one operation to its end.\<close>

definition check_interrupted :: "('b, 'w) job_env \<Rightarrow> ('b, 'w, unit) job_op" where
  "check_interrupted env = op_read (\<lambda>w. if je_interrupted env w then op_raise JE_Cancelled else op_return ())"

definition release_job :: "('b, 'w) job_env \<Rightarrow> string \<Rightarrow> string \<Rightarrow> ('b, 'w, unit) job_op" where
  "release_job env turn_id job_id = op_read (\<lambda>w.
     case map_of (jw_jobs w) job_id of
       None \<Rightarrow> op_return ()
     | Some ref \<Rightarrow>
         if jb_turn_id (job_at w ref) \<noteq> turn_id then
           op_raise (JE_Job (JobRequestError ''Cannot release another Turn's Job'' ''''))
         else
           op_bind (op_try (release_close env ref turn_id job_id) (\<lambda>e.
             case e of JE_Job x \<Rightarrow> op_raise (runtime_error x) | _ \<Rightarrow> op_raise e)) (\<lambda>_.
           check_interrupted env))"

section \<open>Start\<close>

definition live_capacity_text :: "int \<Rightarrow> string" where
  "live_capacity_text limit =
     ''This Turn has reached its limit of '' @ show_int limit @ '' live Jobs. ''
       @ ''Wait for a Job to finish or stop one before starting another.''"

definition retained_capacity_text :: "int \<Rightarrow> string" where
  "retained_capacity_text capacity =
     ''Job result capacity ('' @ show_int capacity @ '') is full. ''
       @ ''Finish this Turn before starting more Jobs.''"

definition job_unavailable_text :: string where
  "job_unavailable_text = ''Job is not available in this Turn. Use a job_id from the current Turn.''"

definition live_jobs :: "string \<Rightarrow> ('b, 'w) job_world \<Rightarrow> (string \<times> nat) list" where
  "live_jobs turn_id w =
     filter (\<lambda>(i, ref). \<not> jb_execution_closed (job_at w ref) \<and> jb_turn_id (job_at w ref) = turn_id) (jw_jobs w)"

definition job_identity :: "turn_identity \<Rightarrow> nat \<Rightarrow> string" where
  "job_identity identity job_sequence =
     filter (\<lambda>c. c \<noteq> CHR ''-'') (calendar_day_str (ti_day identity))
       @ ''-'' @ show_nat (ti_sequence identity) @ ''-'' @ show_nat job_sequence"

definition new_job :: "string \<Rightarrow> job_snapshot \<Rightarrow> 'b job" where
  "new_job turn_id snapshot =
     \<lparr>jb_turn_id = turn_id, jb_snapshot = snapshot, jb_backend = None, jb_monitor = False,
      jb_terminal_delivered = False, jb_execution_closed = False, jb_failure = None\<rparr>"

text \<open>
  The part of \<open>start\<close> before its first await, one atomic step: the checks, the next number and the
  entry of the new Job. It answers the Job's identity and its address.
\<close>

definition admit_job :: "string \<Rightarrow> string \<Rightarrow> ('b, 'w, string \<times> nat) job_op" where
  "admit_job turn_id kind = op_read (\<lambda>w.
     if turn_id = [] then op_raise (JE_Job (JobRequestError ''Job requires an owner Turn'' []))
     else
       (case turn_identity_parse turn_id of
          Inl _ \<Rightarrow> op_raise (JE_Job (JobRequestError ''Job requires a canonical owner Turn identity'' []))
        | Inr identity \<Rightarrow>
            if jw_per_turn w \<le> int (length (live_jobs turn_id w)) then
              op_raise (JE_Job (JobRequestError ''Turn already owns its maximum live Jobs''
                (live_capacity_text (jw_per_turn w))))
            else if jw_capacity w \<le> int (length (jw_jobs w)) then
              op_raise (JE_Job (JobRequestError
                ''Retained Job result capacity is full; finish this Turn before starting more work''
                (retained_capacity_text (jw_capacity w))))
            else
              (let job_sequence = dict_get (jw_next_job_sequences w) turn_id 0 + 1;
                   job_id = job_identity identity job_sequence
               in op_bind (op_update (\<lambda>w. w\<lparr>jw_next_job_sequences :=
                    AList.update turn_id job_sequence (jw_next_job_sequences w)\<rparr>)) (\<lambda>_.
                  case mk_job_snapshot (plain_snapshot job_id kind JS_STARTING []) of
                    Inl e \<Rightarrow> op_raise (JE_Job e)
                  | Inr snapshot \<Rightarrow>
                      op_bind (op_update (\<lambda>w. w\<lparr>jw_objects := jw_objects w @ [new_job turn_id snapshot],
                        jw_jobs := AList.update job_id (length (jw_objects w)) (jw_jobs w)\<rparr>)) (\<lambda>_.
                      op_return (job_id, length (jw_objects w)))))))"

text \<open>The body of the \<open>try\<close>: the reservation, the factory, the monitor.\<close>

definition launch_job ::
  "('b, 'w) job_env \<Rightarrow> string \<Rightarrow> (string \<Rightarrow> ('b, 'w, 'b) job_op) \<Rightarrow> string \<times> nat \<Rightarrow> ('b, 'w, 'b) job_op" where
  "launch_job env turn_id factory slot =
     op_bind (with_inbox turn_id (JobRequestError ''Job terminal capacity is unavailable'' [])
       (reserve_terminal (fst slot) 8192)) (\<lambda>_.
     op_bind (factory (fst slot)) (\<lambda>backend.
     op_bind (update_job (snd slot) (\<lambda>j. j\<lparr>jb_backend := Some backend\<rparr>)) (\<lambda>_.
     op_bind (check_interrupted env) (\<lambda>_.
     op_bind (update_job (snd slot) (\<lambda>j. j\<lparr>jb_monitor := True\<rparr>)) (\<lambda>_.
     op_return backend)))))"

definition start_job ::
  "('b, 'w) job_env \<Rightarrow> string \<Rightarrow> string \<Rightarrow> (string \<Rightarrow> ('b, 'w, 'b) job_op) \<Rightarrow> ('b, 'w, 'b) job_op" where
  "start_job env turn_id kind factory =
     op_bind (admit_job turn_id kind) (\<lambda>slot.
     op_try (launch_job env turn_id factory slot) (\<lambda>e.
       op_bind (release_job env turn_id (fst slot)) (\<lambda>_. op_raise e)))"

section \<open>Queries\<close>

definition owned_job :: "string \<Rightarrow> string \<Rightarrow> ('b, 'w, nat) job_op" where
  "owned_job turn_id job_id = op_read (\<lambda>w.
     let unavailable = op_raise (JE_Job (JobRequestError ''Job is not available in this Turn'' job_unavailable_text)) in
     case map_of (jw_jobs w) job_id of
       None \<Rightarrow> unavailable
     | Some ref \<Rightarrow>
         if jb_turn_id (job_at w ref) \<noteq> turn_id \<or> jb_backend (job_at w ref) = None then unavailable
         else op_return ref)"

definition get_job :: "string \<Rightarrow> string \<Rightarrow> ('b, 'w, 'b) job_op" where
  "get_job turn_id job_id =
     op_bind (owned_job turn_id job_id) (\<lambda>ref. read_job ref (\<lambda>job.
       case jb_failure job of
         Some f \<Rightarrow> op_raise (failure_exn f)
       | None \<Rightarrow>
           (case jb_backend job of None \<Rightarrow> op_raise (JE_Other ''AssertionError'') | Some b \<Rightarrow> op_return b)))"

text \<open>\<open>backend\<close>: \<open>is_kind\<close> is \<open>isinstance(backend, kind)\<close>.\<close>

definition typed_backend :: "('b \<Rightarrow> bool) \<Rightarrow> string \<Rightarrow> string \<Rightarrow> ('b, 'w, 'b) job_op" where
  "typed_backend is_kind turn_id job_id =
     op_bind (get_job turn_id job_id) (\<lambda>b.
       if is_kind b then op_return b
       else op_raise (JE_Job (JobRequestError ''Job belongs to a different capability''
         (''This Job belongs to a different capability. '' @ ''Use the controls for that Job's capability.''))))"

definition job_ids :: "string \<Rightarrow> ('b, 'w) job_world \<Rightarrow> string list" where
  "job_ids turn_id w = map fst (filter (\<lambda>(i, ref). jb_turn_id (job_at w ref) = turn_id) (jw_jobs w))"

definition has_unresolved :: "string \<Rightarrow> ('b, 'w) job_world \<Rightarrow> bool" where
  "has_unresolved turn_id w =
     list_ex (\<lambda>(i, ref). jb_turn_id (job_at w ref) = turn_id \<and> \<not> jb_execution_closed (job_at w ref)) (jw_jobs w)"

definition job_snapshots :: "string \<Rightarrow> ('b, 'w) job_world \<Rightarrow> job_snapshot list" where
  "job_snapshots turn_id w =
     map (\<lambda>(i, ref). jb_snapshot (job_at w ref)) (filter (\<lambda>(i, ref). jb_turn_id (job_at w ref) = turn_id) (jw_jobs w))"

definition snapshot_job :: "string \<Rightarrow> string \<Rightarrow> ('b, 'w, job_snapshot) job_op" where
  "snapshot_job turn_id job_id =
     op_bind (get_job turn_id job_id) (\<lambda>_. op_read (\<lambda>w.
       case map_of (jw_jobs w) job_id of
         None \<Rightarrow> op_raise (JE_Other ''KeyError'')
       | Some ref \<Rightarrow> op_return (jb_snapshot (job_at w ref))))"

definition describe_job :: "('b, 'w) job_env \<Rightarrow> bool \<Rightarrow> string \<Rightarrow> string \<Rightarrow> ('b, 'w, json_object) job_op" where
  "describe_job env cancelled turn_id job_id =
     op_bind (get_job turn_id job_id) (\<lambda>b.
     op_bind (call_backend cancelled JF_SUPERVISION_FAILED (je_describe env b)) (\<lambda>details.
     op_bind (snapshot_job turn_id job_id) (\<lambda>snapshot.
     op_return (AList.update ''details'' (JObj details) (snapshot_to_json snapshot)))))"

definition output_job ::
  "('b, 'w) job_env \<Rightarrow> bool \<Rightarrow> string option \<Rightarrow> int \<Rightarrow> string \<Rightarrow> string \<Rightarrow> ('b, 'w, json_object) job_op" where
  "output_job env cancelled continuation max_chars turn_id job_id =
     op_bind (get_job turn_id job_id) (\<lambda>b.
       call_backend cancelled JF_SUPERVISION_FAILED (je_read_output env b continuation max_chars))"

section \<open>Stop\<close>

text \<open>The body of the \<open>try\<close> under the Job's lock.\<close>

definition stop_execution :: "('b, 'w) job_env \<Rightarrow> bool \<Rightarrow> nat \<Rightarrow> string \<Rightarrow> ('b, 'w, unit) job_op" where
  "stop_execution env cancelled ref job_id = job_backend ref (\<lambda>b.
     op_bind (update_job ref (\<lambda>j. j\<lparr>jb_snapshot :=
       plain_snapshot job_id (sn_kind (jb_snapshot j)) JS_STOPPING []\<rparr>)) (\<lambda>_.
     op_bind (call_backend cancelled JF_EXECUTION_CLOSE_FAILED (je_request_stop env b)) (\<lambda>_.
     op_bind (close_execution env ref) (\<lambda>_.
     op_bind (poll_job env ref) (\<lambda>snapshot.
       if \<not> job_terminal (sn_state snapshot) then op_raise (JE_Job closed_failure)
       else
         op_bind (update_job ref (\<lambda>j. j\<lparr>jb_snapshot := snapshot\<rparr>)) (\<lambda>_.
         deliver_job_terminal env ref))))))"

definition stop_body :: "('b, 'w) job_env \<Rightarrow> bool \<Rightarrow> nat \<Rightarrow> string \<Rightarrow> ('b, 'w, job_snapshot) job_op" where
  "stop_body env cancelled ref job_id =
     op_bind (join_monitor env ref) (\<lambda>_.
     op_bind (read_job ref (\<lambda>job. op_when (\<not> jb_execution_closed job) (stop_execution env cancelled ref job_id))) (\<lambda>_.
     read_job ref (\<lambda>job.
       case jb_failure job of Some f \<Rightarrow> op_raise (failure_exn f) | None \<Rightarrow> op_return (jb_snapshot job))))"

definition stop_job :: "('b, 'w) job_env \<Rightarrow> bool \<Rightarrow> string \<Rightarrow> string \<Rightarrow> ('b, 'w, job_snapshot) job_op" where
  "stop_job env cancelled turn_id job_id =
     op_bind (owned_job turn_id job_id) (\<lambda>ref.
     op_try (stop_body env cancelled ref job_id) (\<lambda>e.
       case caught_failure e of
         None \<Rightarrow> op_raise e
       | Some f \<Rightarrow>
           op_bind (update_job ref (\<lambda>j. j\<lparr>jb_failure := Some f\<rparr>)) (\<lambda>_.
           op_bind (deliver_job_terminal env ref) (\<lambda>_.
           op_raise e))))"

section \<open>The monitor\<close>

text \<open>One pass of the loop: it answers whether the monitor sleeps and goes on.\<close>

definition monitor_try :: "('b, 'w) job_env \<Rightarrow> nat \<Rightarrow> ('b, 'w, bool) job_op" where
  "monitor_try env ref =
     op_bind (poll_job env ref) (\<lambda>snapshot.
       if job_terminal (sn_state snapshot) then
         op_bind (close_execution env ref) (\<lambda>_.
         op_bind (update_job ref (\<lambda>j. j\<lparr>jb_snapshot := snapshot\<rparr>)) (\<lambda>_.
         op_bind (deliver_job_terminal env ref) (\<lambda>_. op_return False)))
       else
         op_bind (update_job ref (\<lambda>j. j\<lparr>jb_snapshot := snapshot\<rparr>)) (\<lambda>_.
         op_bind (op_read (\<lambda>w. with_inbox (jb_turn_id (job_at w ref)) (contract_fault ''Reserved Job input delivery failed'')
           (deliver_job_inputs (je_received env w) (sn_job_id snapshot) (map job_input_to_json (sn_pending_inputs snapshot))))) (\<lambda>_.
         op_return True)))"

definition monitor_failed :: "('b, 'w) job_env \<Rightarrow> nat \<Rightarrow> job_failure \<Rightarrow> ('b, 'w, bool) job_op" where
  "monitor_failed env ref failure =
     op_bind (update_job ref (\<lambda>j. j\<lparr>jb_failure := Some failure\<rparr>)) (\<lambda>_.
     op_bind (op_try
         (op_when (case failure of FailJob x \<Rightarrow> job_error_kind x \<noteq> JF_EXECUTION_CLOSE_FAILED | FailRuntime x \<Rightarrow> True)
           (close_execution env ref))
         (\<lambda>e. case caught_failure e of
            None \<Rightarrow> op_raise e
          | Some f \<Rightarrow> update_job ref (\<lambda>j. j\<lparr>jb_failure := Some f\<rparr>))) (\<lambda>_.
     op_bind (update_job ref (\<lambda>j.
       if jb_execution_closed j \<and> \<not> job_terminal (sn_state (jb_snapshot j))
       then j\<lparr>jb_snapshot := plain_snapshot (sn_job_id (jb_snapshot j)) (sn_kind (jb_snapshot j)) JS_FAILED
              ''Execution closed after a supervision failure.''\<rparr>
       else j)) (\<lambda>_.
     op_bind (deliver_job_terminal env ref) (\<lambda>_. op_return False))))"

definition monitor_pass :: "('b, 'w) job_env \<Rightarrow> nat \<Rightarrow> ('b, 'w, bool) job_op" where
  "monitor_pass env ref =
     op_try (monitor_try env ref) (\<lambda>e.
       case caught_failure e of None \<Rightarrow> op_raise e | Some f \<Rightarrow> monitor_failed env ref f)"

section \<open>The end of a Turn\<close>

fun release_all :: "('b, 'w) job_env \<Rightarrow> string \<Rightarrow> string list \<Rightarrow> runtime_exception option
    \<Rightarrow> ('b, 'w, runtime_exception option) job_op" where
  "release_all env turn_id [] failure = op_return failure"
| "release_all env turn_id (job_id # rest) failure =
     op_bind (op_try (op_bind (release_job env turn_id job_id) (\<lambda>_. op_return failure)) (\<lambda>e.
       case e of
         JE_Runtime x \<Rightarrow>
           op_return (if failure = None \<or> rx_reason x = runtime_agent_end then Some x else failure)
       | _ \<Rightarrow> op_raise e)) (\<lambda>failure'. release_all env turn_id rest failure')"

definition forget_turn :: "string \<Rightarrow> ('b, 'w) job_world \<Rightarrow> ('b, 'w) job_world" where
  "forget_turn turn_id w =
     (if job_ids turn_id w = []
      then w\<lparr>jw_inboxes := AList.delete turn_id (jw_inboxes w),
             jw_next_job_sequences := AList.delete turn_id (jw_next_job_sequences w)\<rparr>
      else w)"

definition cleanup_turn :: "('b, 'w) job_env \<Rightarrow> string \<Rightarrow> ('b, 'w, cleanup_diagnostic list) job_op" where
  "cleanup_turn env turn_id = op_read (\<lambda>w.
     op_bind (release_all env turn_id (job_ids turn_id w) None) (\<lambda>failure.
     op_bind (op_update (forget_turn turn_id)) (\<lambda>_.
     case failure of
       Some x \<Rightarrow> op_raise (JE_Runtime x)
     | None \<Rightarrow> op_read (\<lambda>w.
         op_bind (op_update (\<lambda>w. w\<lparr>jw_diagnostics := AList.delete turn_id (jw_diagnostics w)\<rparr>)) (\<lambda>_.
         op_return (dict_get (jw_diagnostics w) turn_id []))))))"

text \<open>\<open>sync\<close> publishes the snapshots, then raises the first failure of a Job of the Turn.\<close>

definition sync_jobs :: "string \<Rightarrow> run_scope \<Rightarrow> ('b, 'w) job_world \<Rightarrow> signal_bus \<Rightarrow> signal_bus \<times> (job_exn + unit)" where
  "sync_jobs turn_id scope w bus =
     (case mk_signal ''context.jobs'' ''kernel.jobs'' scope (py_of_json (JObj (jobs_to_json (job_snapshots turn_id w)))) of
        Inl e \<Rightarrow> (bus, Inl (JE_Contract e))
      | Inr s \<Rightarrow>
          (bus_emit s bus,
           case find (\<lambda>(i, ref). jb_turn_id (job_at w ref) = turn_id \<and> jb_failure (job_at w ref) \<noteq> None) (jw_jobs w) of
             None \<Rightarrow> Inr ()
           | Some (i, ref) \<Rightarrow>
               (case jb_failure (job_at w ref) of
                  Some (FailRuntime x) \<Rightarrow> Inl (JE_Runtime x)
                | Some (FailJob x) \<Rightarrow> Inl (runtime_error x)
                | None \<Rightarrow> Inr ())))"

end
