(* ===== verification/Job_Proofs.thy ===== *)
theory Job_Proofs
  imports Job_Registry
begin

text \<open>
  The invariant of the Job registry and what every operation guarantees to the others: the
  invariant, the capacities, and the identity of every Job object. Each operation is shown to
  keep the guarantee when its backends do, so any interleaving of operations keeps it.
\<close>

section \<open>Identities of Jobs\<close>

lemma filter_digits: "list_all is_digit s \<Longrightarrow> filter (\<lambda>c. c \<noteq> CHR ''-'') s = s"
  by (induction s) (auto dest: digit_not_dash)

lemma day_digits:
  "filter (\<lambda>c. c \<noteq> CHR ''-'') (calendar_day_str d) =
     pad_digits 4 (cd_year d) @ pad_digits 2 (cd_month d) @ pad_digits 2 (cd_day d)"
  by (simp add: calendar_day_str_def isoformat_def filter_digits)

lemma day_digits_inject:
  assumes "valid_day d" "valid_day e"
    and "filter (\<lambda>c. c \<noteq> CHR ''-'') (calendar_day_str d) = filter (\<lambda>c. c \<noteq> CHR ''-'') (calendar_day_str e)"
  shows "d = e"
proof -
  have "pad_digits 4 (cd_year d) = pad_digits 4 (cd_year e)" "pad_digits 2 (cd_month d) = pad_digits 2 (cd_month e)"
    "pad_digits 2 (cd_day d) = pad_digits 2 (cd_day e)"
    using assms(3) by (simp_all add: day_digits)
  then have "isoformat d = isoformat e" by (simp add: isoformat_def)
  then show ?thesis using assms(1, 2) day_codec.enc_inject by (metis calendar_day_str_def)
qed

lemma no_dash:
  "CHR ''-'' \<notin> set (filter (\<lambda>c. c \<noteq> CHR ''-'') s)"
  "CHR ''-'' \<notin> set (show_nat n)"
proof -
  show "CHR ''-'' \<notin> set (filter (\<lambda>c. c \<noteq> CHR ''-'') s)" by simp
  show "CHR ''-'' \<notin> set (show_nat n)"
    using show_nat_digits [of n] digit_not_dash by (auto simp: list_all_iff)
qed

lemma job_identity_inject:
  assumes "wf_turn_identity t" "wf_turn_identity u" "job_identity t m = job_identity u n"
  shows "t = u \<and> m = n"
proof -
  let ?d = "\<lambda>t. filter (\<lambda>c. c \<noteq> CHR ''-'') (calendar_day_str (ti_day t))"
  have p: "py_partition (CHR ''-'') (job_identity t m) = (?d t, True, show_nat (ti_sequence t) @ ''-'' @ show_nat m)" for t m
    using py_partition_append [OF no_dash(1)] by (simp add: job_identity_def)
  have d: "?d t = ?d u" and r: "show_nat (ti_sequence t) @ ''-'' @ show_nat m = show_nat (ti_sequence u) @ ''-'' @ show_nat n"
    using p [of t m] p [of u n] unfolding assms(3) by (metis prod.inject)+
  have q: "py_partition (CHR ''-'') (show_nat i @ ''-'' @ show_nat j) = (show_nat i, True, show_nat j)" for i j
    using py_partition_append [OF no_dash(2)] by simp
  have "show_nat (ti_sequence t) = show_nat (ti_sequence u)" "show_nat m = show_nat n"
    using q [of "ti_sequence t" m] q [of "ti_sequence u" n] unfolding r by (metis prod.inject)+
  then have "ti_sequence t = ti_sequence u" "m = n" by simp_all
  moreover have "ti_day t = ti_day u"
    using day_digits_inject [OF _ _ d] assms(1, 2) by (simp add: wf_turn_identity_def)
  ultimately show ?thesis by (simp add: turn_identity.expand)
qed

lemma turn_identity_parse_inject:
  "turn_identity_parse a = Inr t \<Longrightarrow> turn_identity_parse b = Inr t \<Longrightarrow> a = b"
  by (rule turn_codec.dec_inject)

section \<open>The invariant\<close>

text \<open>A name the registry has given: the Turn's identity with a number it has used.\<close>

definition named_job :: "(string \<times> nat) list \<Rightarrow> string \<Rightarrow> string \<Rightarrow> bool" where
  "named_job numbers turn_id i =
     (\<exists>t n. turn_identity_parse turn_id = Inr t \<and> 1 \<le> n \<and> n \<le> dict_get numbers turn_id 0 \<and> i = job_identity t n)"

definition entry_ok :: "('b, 'w) job_world \<Rightarrow> string \<times> nat \<Rightarrow> bool" where
  "entry_ok w e =
     (snd e < length (jw_objects w) \<and> sn_job_id (jb_snapshot (job_at w (snd e))) = fst e
      \<and> named_job (jw_next_job_sequences w) (jb_turn_id (job_at w (snd e))) (fst e))"

definition registry_inv :: "('b, 'w) job_world \<Rightarrow> bool" where
  "registry_inv w =
     (distinct (dict_keys (jw_jobs w)) \<and> distinct (map snd (jw_jobs w))
      \<and> (\<forall>e \<in> set (jw_jobs w). entry_ok w e) \<and> int (length (jw_jobs w)) \<le> jw_capacity w)"

text \<open>What no operation changes of a Job object, nor takes back.\<close>

definition job_frame :: "'b job \<Rightarrow> 'b job \<Rightarrow> bool" where
  "job_frame j j' =
     (jb_turn_id j' = jb_turn_id j \<and> sn_job_id (jb_snapshot j') = sn_job_id (jb_snapshot j)
      \<and> sn_kind (jb_snapshot j') = sn_kind (jb_snapshot j)
      \<and> (jb_terminal_delivered j \<longrightarrow> jb_terminal_delivered j'))"

definition world_frame :: "('b, 'w) job_world \<Rightarrow> ('b, 'w) job_world \<Rightarrow> bool" where
  "world_frame w w' =
     (jw_capacity w' = jw_capacity w \<and> jw_per_turn w' = jw_per_turn w
      \<and> length (jw_objects w) \<le> length (jw_objects w')
      \<and> (\<forall>ref < length (jw_objects w). job_frame (job_at w ref) (job_at w' ref)))"

definition registry_guarantee :: "('b, 'w) job_world \<Rightarrow> ('b, 'w) job_world \<Rightarrow> bool" where
  "registry_guarantee w w' = (world_frame w w' \<and> (registry_inv w \<longrightarrow> registry_inv w'))"

lemma job_frame_refl: "job_frame j j"
  by (simp add: job_frame_def)

lemma world_frame_refl: "world_frame w w"
  by (simp add: world_frame_def job_frame_refl)

lemma world_frame_trans:
  assumes "world_frame u v" "world_frame v w"
  shows "world_frame u w"
proof -
  have "job_frame (job_at u ref) (job_at w ref)" if "ref < length (jw_objects u)" for ref
  proof -
    have "job_frame (job_at u ref) (job_at v ref)" "job_frame (job_at v ref) (job_at w ref)"
      using assms that by (auto simp: world_frame_def)
    then show ?thesis by (simp add: job_frame_def)
  qed
  then show ?thesis using assms by (simp add: world_frame_def)
qed

interpretation job_guarantee: guarantee registry_guarantee
  by unfold_locales (auto simp: registry_guarantee_def world_frame_refl intro: world_frame_trans)

text \<open>Changes outside the jobs.\<close>

lemma guarantee_rest:
  assumes "jw_jobs w' = jw_jobs w" "jw_objects w' = jw_objects w" "jw_capacity w' = jw_capacity w"
    "jw_per_turn w' = jw_per_turn w" "jw_next_job_sequences w' = jw_next_job_sequences w"
  shows "registry_guarantee w w'"
  using assms by (simp add: registry_guarantee_def world_frame_def job_frame_refl registry_inv_def entry_ok_def)

lemma set_job_facts [simp]:
  "jw_jobs (set_job ref f w) = jw_jobs w" "jw_capacity (set_job ref f w) = jw_capacity w"
  "jw_per_turn (set_job ref f w) = jw_per_turn w" "jw_next_job_sequences (set_job ref f w) = jw_next_job_sequences w"
  "length (jw_objects (set_job ref f w)) = length (jw_objects w)"
  "jw_inboxes (set_job ref f w) = jw_inboxes w" "jw_inbox_objects (set_job ref f w) = jw_inbox_objects w"
  "jw_diagnostics (set_job ref f w) = jw_diagnostics w" "jw_rest (set_job ref f w) = jw_rest w"
  by (simp_all add: set_job_def)

lemma job_at_set_job:
  "r < length (jw_objects w) \<Longrightarrow> job_at (set_job ref f w) r = (if r = ref then f (job_at w ref) else job_at w r)"
  by (simp add: set_job_def nth_list_update)

lemma guarantee_objects:
  assumes "world_frame w w'" "jw_jobs w' = jw_jobs w" "jw_next_job_sequences w' = jw_next_job_sequences w"
  shows "registry_guarantee w w'"
  using assms by (auto simp: registry_guarantee_def registry_inv_def entry_ok_def world_frame_def job_frame_def)

lemma guarantee_set_job:
  assumes "job_frame (job_at w ref) (f (job_at w ref))"
  shows "registry_guarantee w (set_job ref f w)"
  using assms by (intro guarantee_objects) (auto simp: world_frame_def job_at_set_job job_frame_refl)

text \<open>A Job object of a known name and kind; the fact is stable.\<close>

definition job_named :: "nat \<Rightarrow> string \<Rightarrow> string \<Rightarrow> ('b, 'w) job_world \<Rightarrow> bool" where
  "job_named ref i k w =
     (ref < length (jw_objects w) \<and> sn_job_id (jb_snapshot (job_at w ref)) = i \<and> sn_kind (jb_snapshot (job_at w ref)) = k)"

definition known_job :: "nat \<Rightarrow> string \<Rightarrow> ('b, 'w) job_world \<Rightarrow> bool" where
  "known_job ref i w = (\<exists>k. job_named ref i k w)"

abbreviation under :: "(('b, 'w) job_world \<Rightarrow> bool) \<Rightarrow> ('b, 'w, 'a) job_op \<Rightarrow> bool" where
  "under I m \<equiv> op_under I registry_guarantee m"

lemma stable_named: "stable registry_guarantee (job_named ref i k)"
  by (auto simp: stable_def job_named_def registry_guarantee_def world_frame_def job_frame_def)

lemma stable_known: "stable registry_guarantee (known_job ref i)"
  using stable_named unfolding stable_def known_job_def by blast

lemma stable_inv: "stable registry_guarantee registry_inv"
  by (auto simp: stable_def registry_guarantee_def)

lemma stable_True: "stable registry_guarantee (\<lambda>_. True)"
  by (simp add: stable_def)

lemma stable_conj: "stable R I \<Longrightarrow> stable R J \<Longrightarrow> stable R (\<lambda>s. I s \<and> J s)"
  by (auto simp: stable_def)

lemmas stable_facts = stable_named stable_known stable_inv stable_True

lemma under_update_job:
  "(\<And>j. job_frame j (f j)) \<Longrightarrow> under I (update_job ref f)"
  unfolding update_job_def by (rule job_guarantee.under_update) (rule guarantee_set_job, simp)

lemma under_update_snapshot:
  assumes "sn_job_id sn = i" "sn_kind sn = k"
  shows "under (job_named ref i k) (update_job ref (\<lambda>j. j\<lparr>jb_snapshot := sn\<rparr>))"
  unfolding update_job_def
  by (rule job_guarantee.under_update, rule guarantee_set_job) (use assms in \<open>simp add: job_named_def job_frame_def\<close>)

lemma under_read_job: "(\<And>j. under I (k j)) \<Longrightarrow> under I (read_job ref k)"
  unfolding read_job_def by (rule job_guarantee.under_read_any) simp

section \<open>Every operation keeps the guarantee\<close>

text \<open>
  Backends that keep the guarantee: while they run, other operations of the registry may run, and
  nothing else touches it.
\<close>

definition kept :: "('b, 'w, 'a) job_op \<Rightarrow> bool" where
  "kept m = under registry_inv m"

definition kept_env :: "('b, 'w) job_env \<Rightarrow> bool" where
  "kept_env env =
     ((\<forall>b. kept (je_poll env b)) \<and> (\<forall>b. kept (je_close_execution env b)) \<and> (\<forall>b. kept (je_cleanup env b))
      \<and> (\<forall>b. kept (je_request_stop env b)) \<and> (\<forall>b. kept (je_describe env b))
      \<and> (\<forall>b c n. kept (je_read_output env b c n)) \<and> (\<forall>ref. kept (je_join env ref)))"

lemma kept_bind: "kept m \<Longrightarrow> (\<And>a. kept (k a)) \<Longrightarrow> kept (op_bind m k)"
  unfolding kept_def by (rule job_guarantee.under_bind [OF stable_inv])

lemma kept_try: "kept m \<Longrightarrow> (\<And>e. kept (h e)) \<Longrightarrow> kept (op_try m h)"
  unfolding kept_def by (rule job_guarantee.under_try [OF stable_inv])

lemma kept_read: "(\<And>s. kept (k s)) \<Longrightarrow> kept (op_read k)"
  unfolding kept_def by (rule job_guarantee.under_read_any)

lemma kept_read_job: "(\<And>j. kept (k j)) \<Longrightarrow> kept (read_job ref k)"
  unfolding kept_def by (rule under_read_job)

lemma kept_return: "kept (op_return a)"
  unfolding kept_def by (rule job_guarantee.under_return)

lemma kept_raise: "kept (op_raise e)"
  unfolding kept_def by (rule job_guarantee.under_raise)

lemma kept_when: "kept m \<Longrightarrow> kept (op_when b m)"
  unfolding kept_def by (rule job_guarantee.under_when)

lemma kept_update_job: "(\<And>j. job_frame j (f j)) \<Longrightarrow> kept (update_job ref f)"
  unfolding kept_def by (rule under_update_job)

lemmas kept_rules = kept_bind kept_try kept_read kept_read_job kept_return kept_raise kept_when

lemma kept_rest:
  "(\<And>w. jw_jobs (f w) = jw_jobs w \<and> jw_objects (f w) = jw_objects w \<and> jw_capacity (f w) = jw_capacity w
      \<and> jw_per_turn (f w) = jw_per_turn w \<and> jw_next_job_sequences (f w) = jw_next_job_sequences w)
   \<Longrightarrow> kept (op_update f)"
  unfolding kept_def by (rule job_guarantee.under_update) (simp add: guarantee_rest)

lemma kept_bind_inbox: "kept (bind_inbox turn_id inbox_ref)"
  unfolding bind_inbox_def
  by (rule kept_read) (auto intro!: kept_raise kept_return kept_rest split: option.split)

lemma kept_with_inbox: "kept (with_inbox turn_id failure f)"
  unfolding with_inbox_def
  by (rule kept_read) (auto intro!: kept_bind kept_raise kept_return kept_rest split: option.split prod.split sum.split)

lemma kept_call_backend: "kept m \<Longrightarrow> kept (call_backend cancelled kind m)"
  unfolding call_backend_def by (auto intro!: kept_try kept_raise split: job_exn.split)

lemma kept_record_diagnostics: "kept (record_diagnostics turn_id ds)"
  unfolding record_diagnostics_def by (auto intro!: kept_raise kept_rest split: option.split)

lemma kept_poll_job: "kept_env env \<Longrightarrow> kept (poll_job env ref)"
  unfolding poll_job_def job_backend_def
  by (auto intro!: kept_read_job kept_bind kept_call_backend kept_raise kept_return simp: kept_env_def split: option.split)

lemma kept_close_execution: "kept_env env \<Longrightarrow> kept (close_execution env ref)"
  unfolding close_execution_def
  by (auto intro!: kept_read_job kept_bind kept_call_backend kept_record_diagnostics kept_update_job kept_return
      simp: kept_env_def job_frame_def split: option.split)

lemma kept_deliver: "kept (deliver_job_terminal env ref)"
  unfolding deliver_job_terminal_def
  by (auto intro!: kept_read kept_bind kept_with_inbox kept_update_job kept_return simp: job_frame_def Let_def)

lemma kept_join_monitor: "kept_env env \<Longrightarrow> kept (join_monitor env ref)"
  unfolding join_monitor_def
  by (auto intro!: kept_read_job kept_bind kept_try kept_update_job kept_return kept_raise
      simp: kept_env_def job_frame_def split: job_exn.split)

text \<open>Operations on a Job whose name is known.\<close>

definition on_known :: "nat \<Rightarrow> string \<Rightarrow> ('b, 'w) job_world \<Rightarrow> bool" where
  "on_known ref i w = (registry_inv w \<and> known_job ref i w)"

lemma stable_on_known: "stable registry_guarantee (on_known ref i)"
  unfolding on_known_def [abs_def] by (rule stable_conj [OF stable_inv stable_known])

lemma kept_known: "kept m \<Longrightarrow> under (on_known ref i) m"
  unfolding kept_def by (erule op_under_weaken) (simp add: on_known_def)

lemmas known_bind = job_guarantee.under_bind [OF stable_on_known]
  and known_try = job_guarantee.under_try [OF stable_on_known]

lemma under_update_known:
  assumes "\<And>j. sn_job_id (jb_snapshot j) = i \<Longrightarrow> job_frame j (f j)"
  shows "under (on_known ref i) (update_job ref f)"
  unfolding update_job_def
proof (rule job_guarantee.under_update)
  fix s :: "('a, 'b) job_world"
  assume "on_known ref i s"
  then have "sn_job_id (jb_snapshot (job_at s ref)) = i" by (auto simp: on_known_def known_job_def job_named_def)
  then show "registry_guarantee s (set_job ref f s)" by (intro guarantee_set_job assms)
qed

lemma poll_job_answer:
  assumes "poll_job env ref s = (s', Inr sn)"
  shows "sn_job_id sn = sn_job_id (jb_snapshot (job_at s' ref)) \<and> sn_kind sn = sn_kind (jb_snapshot (job_at s' ref))"
  using assms unfolding poll_job_def job_backend_def read_job_def
  by (auto simp: op_bind_Inr split: option.splits if_splits)

lemma under_poll_then:
  assumes env: "kept_env env" and k: "\<And>sn. under (\<lambda>w. registry_inv w \<and> job_named ref i (sn_kind sn) w \<and> sn_job_id sn = i) (k sn)"
  shows "under (on_known ref i) (op_bind (poll_job env ref) k)"
proof (rule job_guarantee.under_bind_spec [OF kept_known [OF kept_poll_job [OF env]] _ k])
  fix s s' sn
  assume I: "on_known ref i s" and out: "poll_job env ref s = (s', Inr sn)"
  have "registry_guarantee s s'"
    using op_underD [OF kept_known [OF kept_poll_job [OF env]] I out] .
  then have "on_known ref i s'" using I stable_on_known by (auto simp: stable_def)
  then show "registry_inv s' \<and> job_named ref i (sn_kind sn) s' \<and> sn_job_id sn = i"
    using poll_job_answer [OF out] by (auto simp: on_known_def known_job_def job_named_def)
qed

lemma under_store_snapshot:
  "under (\<lambda>w. registry_inv w \<and> job_named ref i (sn_kind sn) w \<and> sn_job_id sn = i)
     (update_job ref (\<lambda>j. j\<lparr>jb_snapshot := sn\<rparr>))"
proof (cases "sn_job_id sn = i")
  case True
  from under_update_snapshot [OF True refl] show ?thesis by (rule op_under_weaken) simp
qed (simp add: op_under_def)

lemma known_settle:
  assumes "kept_env env"
  shows "under (on_known ref i) (settle_execution env ref i)"
  unfolding settle_execution_def
proof (rule known_bind)
  show "under (on_known ref i) (close_execution env ref)"
    by (rule kept_known, rule kept_close_execution, rule assms)
next
  have poll: "under (on_known ref i) (op_bind (poll_job env ref) (\<lambda>snapshot. update_job ref (\<lambda>j. j\<lparr>jb_snapshot := snapshot\<rparr>)))"
    by (rule under_poll_then [OF assms under_store_snapshot])
  have handler: "under (on_known ref i) (case e of
      JE_Job x \<Rightarrow> update_job ref (\<lambda>j. j\<lparr>jb_failure := (case jb_failure j of None \<Rightarrow> Some (FailJob x) | Some f \<Rightarrow> Some f),
        jb_snapshot := plain_snapshot i (sn_kind (jb_snapshot j)) JS_FAILED ''Execution closed; final result is unavailable.''\<rparr>)
    | _ \<Rightarrow> op_raise e)" for e
    by (cases e) (auto intro!: under_update_known job_guarantee.under_raise simp: job_frame_def plain_snapshot_def)
  have last: "under (on_known ref i) (read_job ref (\<lambda>job. if job_terminal (sn_state (jb_snapshot job)) then op_return ()
      else op_bind (update_job ref (\<lambda>j. j\<lparr>jb_execution_closed := False\<rparr>)) (\<lambda>_. op_raise (JE_Job closed_failure))))"
    by (rule kept_known) (auto intro!: kept_read_job kept_bind kept_update_job kept_return kept_raise simp: job_frame_def)
  show "under (on_known ref i) (op_bind (op_try
         (op_bind (poll_job env ref) (\<lambda>snapshot. update_job ref (\<lambda>j. j\<lparr>jb_snapshot := snapshot\<rparr>)))
         (\<lambda>e. case e of
            JE_Job x \<Rightarrow> update_job ref (\<lambda>j. j\<lparr>
              jb_failure := (case jb_failure j of None \<Rightarrow> Some (FailJob x) | Some f \<Rightarrow> Some f),
              jb_snapshot := plain_snapshot i (sn_kind (jb_snapshot j)) JS_FAILED
                ''Execution closed; final result is unavailable.''\<rparr>)
          | _ \<Rightarrow> op_raise e)) (\<lambda>_.
     read_job ref (\<lambda>job.
       if job_terminal (sn_state (jb_snapshot job)) then op_return ()
       else op_bind (update_job ref (\<lambda>j. j\<lparr>jb_execution_closed := False\<rparr>)) (\<lambda>_.
         op_raise (JE_Job closed_failure)))))" for a
    by (rule known_bind [OF known_try [OF poll handler] last])
qed

lemma kept_remove: "kept (op_update (\<lambda>w. w\<lparr>jw_jobs := AList.delete i (jw_jobs w)\<rparr>))"
  unfolding kept_def
proof (rule job_guarantee.under_update)
  fix s :: "('a, 'b) job_world"
  assume inv: "registry_inv s"
  let ?s = "s\<lparr>jw_jobs := AList.delete i (jw_jobs s)\<rparr>"
  have "set (AList.delete i (jw_jobs s)) \<subseteq> set (jw_jobs s)" by (auto simp: AList.delete_eq)
  moreover have "distinct (dict_keys (AList.delete i (jw_jobs s)))" "distinct (map snd (AList.delete i (jw_jobs s)))"
    using inv by (auto simp: registry_inv_def AList.delete_eq distinct_map_filter)
  moreover have "length (AList.delete i (jw_jobs s)) \<le> length (jw_jobs s)" by (simp add: AList.delete_eq)
  ultimately have "registry_inv ?s" using inv by (auto simp: registry_inv_def entry_ok_def)
  then show "registry_guarantee s ?s" by (simp add: registry_guarantee_def world_frame_def job_frame_refl)
qed

lemma known_release_close:
  assumes "kept_env env"
  shows "under (on_known ref i) (release_close env ref turn_id i)"
  unfolding release_close_def
proof (rule job_guarantee.under_read_any, simp only: if_split, intro conjI impI)
  fix s :: "('a, 'b) job_world"
  have backend: "under (on_known ref i) (case jb_backend job of None \<Rightarrow> op_return ()
      | Some b \<Rightarrow> op_bind (op_when (\<not> jb_execution_closed job) (settle_execution env ref i)) (\<lambda>_.
          op_bind (call_backend False JF_SUPERVISION_FAILED (je_cleanup env b)) (\<lambda>diagnostics.
          op_bind (record_diagnostics turn_id diagnostics) (\<lambda>_. deliver_job_terminal env ref))))" for job
  proof (cases "jb_backend job")
    case (Some b)
    have "kept (je_cleanup env b)" using assms by (simp add: kept_env_def)
    then show ?thesis using Some assms
      by (auto intro!: known_bind job_guarantee.under_when known_settle kept_known [OF kept_call_backend]
          kept_known [OF kept_record_diagnostics] kept_known [OF kept_deliver])
  qed (simp add: job_guarantee.under_return)
  show "under (on_known ref i) (op_return ())" by (rule job_guarantee.under_return)
  show "under (on_known ref i) (op_bind (join_monitor env ref) (\<lambda>_.
      op_bind (read_job ref (\<lambda>job. case jb_backend job of None \<Rightarrow> op_return ()
        | Some b \<Rightarrow> op_bind (op_when (\<not> jb_execution_closed job) (settle_execution env ref i)) (\<lambda>_.
          op_bind (call_backend False JF_SUPERVISION_FAILED (je_cleanup env b)) (\<lambda>diagnostics.
          op_bind (record_diagnostics turn_id diagnostics) (\<lambda>_. deliver_job_terminal env ref))))) (\<lambda>_.
      op_bind (with_inbox turn_id (contract_fault []) (\<lambda>ib. (release_terminal i ib, Inr ()))) (\<lambda>_.
      op_bind (op_update (\<lambda>w. w\<lparr>jw_jobs := AList.delete i (jw_jobs w)\<rparr>)) (\<lambda>_.
      read_job ref (\<lambda>job. case jb_failure job of None \<Rightarrow> op_return () | Some f \<Rightarrow> op_raise (failure_exn f)))))))"
    by (intro known_bind under_read_job backend kept_known [OF kept_join_monitor [OF assms]]
        kept_known [OF kept_with_inbox] kept_known [OF kept_remove])
      (auto intro!: kept_return kept_raise job_guarantee.under_return job_guarantee.under_raise split: option.split)
qed

lemma kept_check_interrupted: "kept (check_interrupted env)"
  unfolding check_interrupted_def by (auto intro!: kept_read kept_raise kept_return)

lemma inv_known: "registry_inv w \<Longrightarrow> map_of (jw_jobs w) i = Some ref \<Longrightarrow> on_known ref i w"
  by (auto simp: registry_inv_def entry_ok_def on_known_def known_job_def job_named_def dest!: map_of_SomeD)

lemma kept_release_job:
  assumes "kept_env env"
  shows "kept (release_job env turn_id i)"
  unfolding kept_def release_job_def
proof (rule job_guarantee.under_read)
  fix w :: "('a, 'b) job_world"
  assume inv: "registry_inv w"
  show "op_under (\<lambda>t. t = w) registry_guarantee (case map_of (jw_jobs w) i of None \<Rightarrow> op_return ()
     | Some ref \<Rightarrow> if jb_turn_id (job_at w ref) \<noteq> turn_id then
           op_raise (JE_Job (JobRequestError ''Cannot release another Turn's Job'' []))
         else op_bind (op_try (release_close env ref turn_id i) (\<lambda>e.
             case e of JE_Job x \<Rightarrow> op_raise (runtime_error x) | _ \<Rightarrow> op_raise e)) (\<lambda>_. check_interrupted env))"
  proof (cases "map_of (jw_jobs w) i")
    case (Some ref)
    have "under (on_known ref i) (op_bind (op_try (release_close env ref turn_id i) (\<lambda>e.
        case e of JE_Job x \<Rightarrow> op_raise (runtime_error x) | _ \<Rightarrow> op_raise e)) (\<lambda>_. check_interrupted env))"
      by (intro known_bind known_try known_release_close assms kept_known [OF kept_check_interrupted])
        (auto intro!: job_guarantee.under_raise split: job_exn.split)
    then have "op_under (\<lambda>t. t = w) registry_guarantee (op_bind (op_try (release_close env ref turn_id i) (\<lambda>e.
        case e of JE_Job x \<Rightarrow> op_raise (runtime_error x) | _ \<Rightarrow> op_raise e)) (\<lambda>_. check_interrupted env))"
      by (rule op_under_weaken) (use inv_known [OF inv Some] in simp)
    then show ?thesis using Some by (auto intro: job_guarantee.under_raise)
  qed (simp add: job_guarantee.under_return)
qed

text \<open>Admission.\<close>

lemma named_job_mono:
  "named_job numbers turn i \<Longrightarrow> dict_get numbers turn 0 \<le> dict_get numbers' turn 0 \<Longrightarrow> named_job numbers' turn i"
  unfolding named_job_def by (blast intro: order_trans)

lemma dict_get_update: "dict_get (AList.update k v d) k' x = (if k' = k then v else dict_get d k' x)"
  by (simp add: dict_get_def update_conv')

lemma dict_get_delete: "dict_get (AList.delete k d) k' x = (if k' = k then x else dict_get d k' x)"
  by (simp add: dict_get_def AList.delete_conv')

lemma inv_next_number:
  "registry_inv w \<Longrightarrow> registry_inv (w\<lparr>jw_next_job_sequences :=
     AList.update turn_id (dict_get (jw_next_job_sequences w) turn_id 0 + 1) (jw_next_job_sequences w)\<rparr>)"
  by (auto simp: registry_inv_def entry_ok_def dict_get_update intro: named_job_mono)

text \<open>The number given next names no Job the registry still has.\<close>

lemma next_identity_fresh:
  assumes inv: "registry_inv w" and t: "turn_identity_parse turn_id = Inr t"
  shows "job_identity t (dict_get (jw_next_job_sequences w) turn_id 0 + 1) \<notin> set (dict_keys (jw_jobs w))"
proof
  let ?n = "dict_get (jw_next_job_sequences w) turn_id 0"
  assume "job_identity t (?n + 1) \<in> set (dict_keys (jw_jobs w))"
  then obtain ref where e: "(job_identity t (?n + 1), ref) \<in> set (jw_jobs w)" by auto
  let ?turn = "jb_turn_id (job_at w ref)"
  have "named_job (jw_next_job_sequences w) ?turn (job_identity t (?n + 1))"
    using inv e by (auto simp: registry_inv_def entry_ok_def)
  then obtain u m where u: "turn_identity_parse ?turn = Inr u" "m \<le> dict_get (jw_next_job_sequences w) ?turn 0"
    "job_identity t (?n + 1) = job_identity u m" by (auto simp: named_job_def)
  have "wf_turn_identity t" "wf_turn_identity u"
    using t u(1) by (auto dest: turn_codec.dec_wf)
  then have "t = u" "?n + 1 = m" using job_identity_inject u(3) by blast+
  moreover have "?turn = turn_id" using turn_identity_parse_inject u(1) t \<open>t = u\<close> by blast
  ultimately show False using u(2) by simp
qed

definition admitted_job :: "string \<Rightarrow> string \<Rightarrow> turn_identity \<Rightarrow> ('b, 'w) job_world \<Rightarrow> ('b, 'w) job_world" where
  "admitted_job turn_id kind t w =
     (let n = dict_get (jw_next_job_sequences w) turn_id 0 + 1 in
      w\<lparr>jw_next_job_sequences := AList.update turn_id n (jw_next_job_sequences w),
        jw_objects := jw_objects w @ [new_job turn_id (plain_snapshot (job_identity t n) kind JS_STARTING [])],
        jw_jobs := AList.update (job_identity t n) (length (jw_objects w)) (jw_jobs w)\<rparr>)"

lemma admit_job_cases:
  obtains (refused) e where "admit_job turn_id kind w = (w, Inl e)"
  | (invalid) e where "admit_job turn_id kind w = (w\<lparr>jw_next_job_sequences :=
      AList.update turn_id (dict_get (jw_next_job_sequences w) turn_id 0 + 1) (jw_next_job_sequences w)\<rparr>, Inl e)"
  | (admitted) t where "turn_identity_parse turn_id = Inr t"
      "int (length (live_jobs turn_id w)) < jw_per_turn w" "int (length (jw_jobs w)) < jw_capacity w"
      "admit_job turn_id kind w = (admitted_job turn_id kind t w,
         Inr (job_identity t (dict_get (jw_next_job_sequences w) turn_id 0 + 1), length (jw_objects w)))"
proof (cases "turn_id \<noteq> [] \<and> is_ok (turn_identity_parse turn_id) \<and> int (length (live_jobs turn_id w)) < jw_per_turn w
    \<and> int (length (jw_jobs w)) < jw_capacity w")
  case False
  have "\<exists>e. admit_job turn_id kind w = (w, Inl e)"
  proof (cases "turn_identity_parse turn_id")
    case (Inl e)
    then show ?thesis by (simp add: admit_job_def)
  next
    case (Inr t)
    then show ?thesis using False by (auto simp: admit_job_def)
  qed
  then show thesis using refused by blast
next
  case True
  then obtain t where t: "turn_identity_parse turn_id = Inr t" by (cases "turn_identity_parse turn_id") auto
  let ?n = "dict_get (jw_next_job_sequences w) turn_id 0 + 1"
  let ?s = "plain_snapshot (job_identity t ?n) kind JS_STARTING []"
  show thesis
  proof (cases "mk_job_snapshot ?s")
    case (Inl e)
    then show thesis using True t invalid by (simp add: admit_job_def op_bind_def Let_def)
  next
    case (Inr s)
    then have "s = ?s" by (rule mk_job_snapshot_eq)
    then show thesis using True t admitted Inr
      by (simp add: admit_job_def op_bind_def Let_def admitted_job_def)
  qed
qed

lemma guarantee_admitted:
  assumes "registry_inv w" "turn_identity_parse turn_id = Inr t" "int (length (jw_jobs w)) < jw_capacity w"
  shows "registry_guarantee w (admitted_job turn_id kind t w)"
proof -
  let ?n = "dict_get (jw_next_job_sequences w) turn_id 0 + 1"
  let ?i = "job_identity t ?n"
  let ?w = "admitted_job turn_id kind t w"
  have jobs: "jw_jobs ?w = jw_jobs w @ [(?i, length (jw_objects w))]"
    using next_identity_fresh [OF assms(1, 2)] by (simp add: admitted_job_def Let_def update_fresh)
  have at: "job_at ?w r = (if r = length (jw_objects w) then new_job turn_id (plain_snapshot ?i kind JS_STARTING [])
      else job_at w r)" if "r \<le> length (jw_objects w)" for r
    using that by (simp add: admitted_job_def Let_def nth_append)
  have len: "length (jw_objects ?w) = length (jw_objects w) + 1" by (simp add: admitted_job_def Let_def)
  have num: "dict_get (jw_next_job_sequences w) u 0 \<le> dict_get (jw_next_job_sequences ?w) u 0" for u
    by (simp add: admitted_job_def Let_def dict_get_update)
  have old: "entry_ok ?w e" if "e \<in> set (jw_jobs w)" for e
  proof -
    have e: "entry_ok w e" using assms(1) that by (simp add: registry_inv_def)
    then have "snd e < length (jw_objects w)" by (simp add: entry_ok_def)
    then have "job_at ?w (snd e) = job_at w (snd e)" using at [of "snd e"] by simp
    then show ?thesis using e len num named_job_mono unfolding entry_ok_def by fastforce
  qed
  have "entry_ok ?w (?i, length (jw_objects w))"
    using at [of "length (jw_objects w)"] len assms(2)
    by (auto simp: entry_ok_def new_job_def plain_snapshot_def named_job_def admitted_job_def Let_def dict_get_update)
  moreover have "length (jw_objects w) \<notin> set (map snd (jw_jobs w))"
    using assms(1) by (auto simp: registry_inv_def entry_ok_def)
  ultimately have "registry_inv ?w"
    using assms next_identity_fresh [OF assms(1, 2)] old jobs
    by (auto simp: registry_inv_def admitted_job_def Let_def)
  moreover have "world_frame w ?w"
    using at len by (simp add: world_frame_def job_frame_refl) (simp add: admitted_job_def Let_def)
  ultimately show ?thesis by (simp add: registry_guarantee_def)
qed

lemma kept_admit: "kept (admit_job turn_id kind)"
  unfolding kept_def op_under_def
proof (intro allI impI)
  fix w :: "('a, 'b) job_world"
  assume inv: "registry_inv w"
  show "registry_guarantee w (fst (admit_job turn_id kind w))"
  proof (cases rule: admit_job_cases [of turn_id kind w])
    case (refused e)
    then show ?thesis by (simp add: job_guarantee.R_refl)
  next
    case (invalid e)
    then show ?thesis using inv_next_number [OF inv]
      by (simp add: registry_guarantee_def world_frame_def job_frame_refl)
  next
    case (admitted t)
    then show ?thesis using guarantee_admitted [OF inv] by simp
  qed
qed

lemma kept_start_job:
  assumes "kept_env env" "\<And>i. kept (factory i)"
  shows "kept (start_job env turn_id kind factory)"
proof -
  have "kept (launch_job env turn_id factory slot)" for slot
    unfolding launch_job_def
    by (auto intro!: kept_bind kept_with_inbox assms(2) kept_update_job kept_check_interrupted kept_return simp: job_frame_def)
  then show ?thesis
    unfolding start_job_def by (intro kept_bind kept_admit kept_try kept_release_job assms(1) kept_raise)
qed

text \<open>Stop.\<close>

lemma known_stop_execution:
  assumes "kept_env env"
  shows "under (on_known ref i) (stop_execution env cancelled ref i)"
  unfolding stop_execution_def job_backend_def
proof (rule under_read_job)
  fix j :: "'a job"
  show "under (on_known ref i) (case jb_backend j of None \<Rightarrow> op_raise (JE_Other ''AssertionError'') | Some b \<Rightarrow>
     op_bind (update_job ref (\<lambda>j. j\<lparr>jb_snapshot := plain_snapshot i (sn_kind (jb_snapshot j)) JS_STOPPING []\<rparr>)) (\<lambda>_.
     op_bind (call_backend cancelled JF_EXECUTION_CLOSE_FAILED (je_request_stop env b)) (\<lambda>_.
     op_bind (close_execution env ref) (\<lambda>_.
     op_bind (poll_job env ref) (\<lambda>snapshot.
       if \<not> job_terminal (sn_state snapshot) then op_raise (JE_Job closed_failure)
       else
         op_bind (update_job ref (\<lambda>j. j\<lparr>jb_snapshot := snapshot\<rparr>)) (\<lambda>_.
         deliver_job_terminal env ref))))))"
  proof (cases "jb_backend j")
    case (Some b)
    have request: "kept (je_request_stop env b)" using assms by (simp add: kept_env_def)
    have stopping: "under (on_known ref i)
        (update_job ref (\<lambda>j. j\<lparr>jb_snapshot := plain_snapshot i (sn_kind (jb_snapshot j)) JS_STOPPING []\<rparr>))"
      by (rule under_update_known) (simp add: job_frame_def plain_snapshot_def)
    have last: "under (on_known ref i) (op_bind (poll_job env ref) (\<lambda>snapshot.
       if \<not> job_terminal (sn_state snapshot) then op_raise (JE_Job closed_failure)
       else op_bind (update_job ref (\<lambda>j. j\<lparr>jb_snapshot := snapshot\<rparr>)) (\<lambda>_. deliver_job_terminal env ref)))"
    proof (rule under_poll_then [OF assms])
      fix sn :: job_snapshot
      let ?I = "\<lambda>w. registry_inv w \<and> job_named ref i (sn_kind sn) w \<and> sn_job_id sn = i"
      have "stable registry_guarantee ?I"
        by (intro stable_conj stable_inv stable_named) (simp add: stable_def)
      then have "under ?I (op_bind (update_job ref (\<lambda>j. j\<lparr>jb_snapshot := sn\<rparr>)) (\<lambda>_. deliver_job_terminal env ref))"
        by (rule job_guarantee.under_bind [OF _ under_store_snapshot])
          (rule op_under_weaken [OF kept_deliver [unfolded kept_def]], simp)
      then show "under ?I (if \<not> job_terminal (sn_state sn) then op_raise (JE_Job closed_failure)
          else op_bind (update_job ref (\<lambda>j. j\<lparr>jb_snapshot := sn\<rparr>)) (\<lambda>_. deliver_job_terminal env ref))"
        by (simp add: job_guarantee.under_raise)
    qed
    show ?thesis unfolding Some option.case
      by (intro known_bind [OF stopping] known_bind [OF kept_known [OF kept_call_backend [OF request]]]
          known_bind [OF kept_known [OF kept_close_execution [OF assms]]] last)
  qed (simp add: job_guarantee.under_raise)
qed

lemma owned_job_known:
  "registry_inv s \<Longrightarrow> owned_job turn_id i s = (s', Inr ref) \<Longrightarrow> s' = s \<and> on_known ref i s"
  by (auto simp: owned_job_def Let_def split: option.splits if_splits intro: inv_known)

lemma kept_owned_job: "kept (owned_job turn_id i)"
  unfolding owned_job_def by (auto intro!: kept_read kept_raise kept_return simp: Let_def split: option.split)

lemma kept_stop_job:
  assumes "kept_env env"
  shows "kept (stop_job env cancelled turn_id i)"
  unfolding kept_def stop_job_def
proof (rule job_guarantee.under_bind_spec [OF kept_owned_job [unfolded kept_def]])
  fix s s' :: "('a, 'b) job_world" and ref
  assume "registry_inv s" "owned_job turn_id i s = (s', Inr ref)"
  then show "on_known ref i s'" using owned_job_known by blast
next
  fix ref
  have body: "under (on_known ref i) (stop_body env cancelled ref i)"
    unfolding stop_body_def
    by (intro known_bind kept_known [OF kept_join_monitor [OF assms]] under_read_job job_guarantee.under_when
        known_stop_execution assms)
      (auto intro!: job_guarantee.under_raise job_guarantee.under_return split: option.split)
  have handler: "under (on_known ref i) (case caught_failure e of None \<Rightarrow> op_raise e
     | Some f \<Rightarrow> op_bind (update_job ref (\<lambda>j. j\<lparr>jb_failure := Some f\<rparr>)) (\<lambda>_.
         op_bind (deliver_job_terminal env ref) (\<lambda>_. op_raise e)))" for e
    by (rule kept_known) (auto intro!: kept_bind kept_update_job kept_deliver kept_raise simp: job_frame_def split: option.split)
  show "under (on_known ref i) (op_try (stop_body env cancelled ref i) (\<lambda>e.
     case caught_failure e of None \<Rightarrow> op_raise e
     | Some f \<Rightarrow> op_bind (update_job ref (\<lambda>j. j\<lparr>jb_failure := Some f\<rparr>)) (\<lambda>_.
         op_bind (deliver_job_terminal env ref) (\<lambda>_. op_raise e))))"
    by (rule known_try [OF body handler])
qed

text \<open>The monitor.\<close>

definition on_polled :: "nat \<Rightarrow> string \<Rightarrow> job_snapshot \<Rightarrow> ('b, 'w) job_world \<Rightarrow> bool" where
  "on_polled ref i sn w = (registry_inv w \<and> job_named ref i (sn_kind sn) w \<and> sn_job_id sn = i)"

lemma stable_on_polled: "stable registry_guarantee (on_polled ref i sn)"
  unfolding on_polled_def [abs_def] by (intro stable_conj stable_inv stable_named) (simp add: stable_def)

lemma kept_polled: "kept m \<Longrightarrow> under (on_polled ref i sn) m"
  unfolding kept_def by (erule op_under_weaken) (simp add: on_polled_def)

lemma under_poll: "kept_env env \<Longrightarrow> (\<And>sn. under (on_polled ref i sn) (k sn))
    \<Longrightarrow> under (on_known ref i) (op_bind (poll_job env ref) k)"
  by (rule under_poll_then) (simp_all add: on_polled_def [abs_def])

lemma under_store: "under (on_polled ref i sn) (update_job ref (\<lambda>j. j\<lparr>jb_snapshot := sn\<rparr>))"
  using under_store_snapshot by (simp add: on_polled_def [abs_def])

lemmas polled_bind = job_guarantee.under_bind [OF stable_on_polled]

lemma known_monitor_pass:
  assumes env: "kept_env env"
  shows "under (on_known ref i) (monitor_pass env ref)"
  unfolding monitor_pass_def
proof (rule known_try)
  show "under (on_known ref i) (monitor_try env ref)"
    unfolding monitor_try_def
  proof (rule under_poll [OF env])
    fix sn
    have terminal: "under (on_polled ref i sn) (op_bind (close_execution env ref) (\<lambda>_.
        op_bind (update_job ref (\<lambda>j. j\<lparr>jb_snapshot := sn\<rparr>)) (\<lambda>_.
        op_bind (deliver_job_terminal env ref) (\<lambda>_. op_return False))))"
      by (intro polled_bind kept_polled [OF kept_close_execution [OF env]] under_store kept_polled [OF kept_deliver]
          job_guarantee.under_return)
    have waiting: "under (on_polled ref i sn) (op_bind (update_job ref (\<lambda>j. j\<lparr>jb_snapshot := sn\<rparr>)) (\<lambda>_.
        op_bind (op_read (\<lambda>w. with_inbox (jb_turn_id (job_at w ref)) (contract_fault ''Reserved Job input delivery failed'')
           (deliver_job_inputs (je_received env w) (sn_job_id sn) (map job_input_to_json (sn_pending_inputs sn))))) (\<lambda>_.
        op_return True)))"
      by (intro polled_bind under_store kept_polled [OF kept_read] kept_with_inbox job_guarantee.under_return)
    show "under (on_polled ref i sn) (if job_terminal (sn_state sn) then
        op_bind (close_execution env ref) (\<lambda>_.
        op_bind (update_job ref (\<lambda>j. j\<lparr>jb_snapshot := sn\<rparr>)) (\<lambda>_.
        op_bind (deliver_job_terminal env ref) (\<lambda>_. op_return False)))
       else op_bind (update_job ref (\<lambda>j. j\<lparr>jb_snapshot := sn\<rparr>)) (\<lambda>_.
        op_bind (op_read (\<lambda>w. with_inbox (jb_turn_id (job_at w ref)) (contract_fault ''Reserved Job input delivery failed'')
           (deliver_job_inputs (je_received env w) (sn_job_id sn) (map job_input_to_json (sn_pending_inputs sn))))) (\<lambda>_.
        op_return True)))"
      using terminal waiting by simp
  qed
  have "kept (monitor_failed env ref f)" for f
    unfolding monitor_failed_def
    by (intro kept_bind kept_update_job kept_try kept_when kept_close_execution env kept_deliver kept_return)
      (auto intro!: kept_raise kept_update_job simp: job_frame_def plain_snapshot_def split: option.split)
  then show "under (on_known ref i) (case caught_failure e of None \<Rightarrow> op_raise e | Some f \<Rightarrow> monitor_failed env ref f)" for e
    by (auto intro!: kept_known kept_raise split: option.split)
qed

text \<open>The end of a Turn.\<close>

lemma kept_release_all: "kept_env env \<Longrightarrow> kept (release_all env turn_id is failure)"
  by (induction "is" arbitrary: failure)
    (auto intro!: kept_bind kept_try kept_release_job kept_return kept_raise split: job_exn.split)

lemma kept_forget: "kept (op_update (forget_turn turn_id))"
  unfolding kept_def
proof (rule job_guarantee.under_update)
  fix s :: "('a, 'b) job_world"
  assume inv: "registry_inv s"
  show "registry_guarantee s (forget_turn turn_id s)"
  proof (cases "job_ids turn_id s = []")
    case True
    let ?n = "AList.delete turn_id (jw_next_job_sequences s)"
    have other: "jb_turn_id (job_at s ref) \<noteq> turn_id" if "(i, ref) \<in> set (jw_jobs s)" for i ref
      using True that by (auto simp: job_ids_def filter_empty_conv)
    have "entry_ok (forget_turn turn_id s) e" if e: "e \<in> set (jw_jobs s)" for e
    proof -
      have "jb_turn_id (job_at s (snd e)) \<noteq> turn_id" using other [of "fst e" "snd e"] e by simp
      moreover have "entry_ok s e" using inv e by (simp add: registry_inv_def)
      ultimately show ?thesis using True
        by (auto simp: entry_ok_def forget_turn_def dict_get_delete elim!: named_job_mono)
    qed
    then have "registry_inv (forget_turn turn_id s)"
      using inv True by (simp add: registry_inv_def forget_turn_def)
    then show ?thesis using True
      by (simp add: registry_guarantee_def world_frame_def job_frame_refl forget_turn_def)
  qed (simp add: forget_turn_def job_guarantee.R_refl)
qed

lemma kept_cleanup_turn: "kept_env env \<Longrightarrow> kept (cleanup_turn env turn_id)"
  unfolding cleanup_turn_def
  by (auto intro!: kept_read kept_bind kept_release_all kept_forget kept_raise kept_return kept_rest split: option.split)

section \<open>Runs\<close>

text \<open>
  The calls of a registry; a call's answer is dropped. A pass of the monitor is of an existing
  Job. The factory of a start is a parameter of the call.
\<close>

datatype ('b, 'w) registry_call =
    CallBind string "nat option"
  | CallStart string string "string \<Rightarrow> ('b, 'w, 'b) job_op"
  | CallStop bool string string
  | CallMonitor nat
  | CallRelease string string
  | CallCleanup string

definition drop_answer :: "('b, 'w, 'a) job_op \<Rightarrow> ('b, 'w) job_world \<Rightarrow> ('b, 'w) job_world" where
  "drop_answer m w = fst (m w)"

fun job_call :: "('b, 'w) job_env \<Rightarrow> ('b, 'w) registry_call \<Rightarrow> ('b, 'w) job_world \<Rightarrow> ('b, 'w) job_world" where
  "job_call env (CallBind t i) w = drop_answer (bind_inbox t i) w"
| "job_call env (CallStart t k f) w = drop_answer (start_job env t k f) w"
| "job_call env (CallStop c t i) w = drop_answer (stop_job env c t i) w"
| "job_call env (CallMonitor ref) w =
     (if ref < length (jw_objects w) then drop_answer (monitor_pass env ref) w else w)"
| "job_call env (CallRelease t i) w = drop_answer (release_job env t i) w"
| "job_call env (CallCleanup t) w = drop_answer (cleanup_turn env t) w"

definition job_run :: "('b, 'w) job_env \<Rightarrow> ('b, 'w) registry_call list \<Rightarrow> ('b, 'w) job_world \<Rightarrow> ('b, 'w) job_world" where
  "job_run env calls w = foldl (\<lambda>w c. job_call env c w) w calls"

definition kept_call :: "('b, 'w) registry_call \<Rightarrow> bool" where
  "kept_call c = (case c of CallStart t k f \<Rightarrow> \<forall>i. kept (f i) | _ \<Rightarrow> True)"

lemma keptD: "kept m \<Longrightarrow> registry_inv w \<Longrightarrow> registry_guarantee w (drop_answer m w)"
  by (simp add: kept_def op_under_def drop_answer_def)

lemma guarantee_call:
  assumes env: "kept_env env" and c: "kept_call c" and inv: "registry_inv w"
  shows "registry_guarantee w (job_call env c w)"
proof (cases c)
  case (CallMonitor ref)
  show ?thesis
  proof (cases "ref < length (jw_objects w)")
    case True
    then have "on_known ref (sn_job_id (jb_snapshot (job_at w ref))) w"
      using inv by (auto simp: on_known_def known_job_def job_named_def)
    then show ?thesis using known_monitor_pass [OF env] CallMonitor True
      by (auto simp: op_under_def drop_answer_def)
  qed (simp add: CallMonitor job_guarantee.R_refl)
qed (use c in \<open>auto intro!: keptD [OF _ inv] kept_bind_inbox kept_start_job kept_stop_job kept_release_job
      kept_cleanup_turn env simp: kept_call_def\<close>)

lemma guarantee_run:
  assumes "kept_env env" "list_all kept_call calls" "registry_inv w"
  shows "registry_guarantee w (job_run env calls w)"
  using assms(2, 3)
proof (induction calls arbitrary: w)
  case (Cons c cs)
  have step: "registry_guarantee w (job_call env c w)" using guarantee_call [OF assms(1)] Cons.prems by simp
  then have "registry_inv (job_call env c w)" using Cons.prems by (simp add: registry_guarantee_def)
  then have "registry_guarantee (job_call env c w) (job_run env cs (job_call env c w))"
    using Cons by simp
  with step show ?case by (auto simp: job_run_def intro: job_guarantee.R_trans)
qed (simp add: job_run_def job_guarantee.R_refl)

end
