(* ===== verification/Job_Quiet.thy ===== *)
theory Job_Quiet
  imports Job_Proofs
begin

text \<open>
  The registry with backends that keep to themselves: whatever they do and answer, they change
  nothing but the rest of the world. An operation on one Job then leaves every other Job, the
  table of Jobs and the bindings as they were, and what it does to its own Job can be followed
  to the end of a stop, a release and the cleanup of a Turn.
\<close>

section \<open>Backends that keep to themselves\<close>

definition touches_rest :: "('b, 'w, 'a) job_op \<Rightarrow> bool" where
  "touches_rest m = (\<forall>w. \<exists>x. fst (m w) = w\<lparr>jw_rest := x\<rparr>)"

definition rest_env :: "('b, 'w) job_env \<Rightarrow> bool" where
  "rest_env env =
     ((\<forall>b. touches_rest (je_poll env b)) \<and> (\<forall>b. touches_rest (je_close_execution env b))
      \<and> (\<forall>b. touches_rest (je_cleanup env b)) \<and> (\<forall>b. touches_rest (je_request_stop env b))
      \<and> (\<forall>ref. touches_rest (je_join env ref)))"

lemma touches_restD: "touches_rest m \<Longrightarrow> m w = (w', r) \<Longrightarrow> \<exists>x. w' = w\<lparr>jw_rest := x\<rparr>"
  by (metis fst_conv touches_rest_def)

section \<open>Operations on one Job\<close>

definition ref_frame :: "nat \<Rightarrow> ('b, 'w) job_world \<Rightarrow> ('b, 'w) job_world \<Rightarrow> bool" where
  "ref_frame ref w w' =
     (jw_jobs w' = jw_jobs w \<and> jw_inboxes w' = jw_inboxes w
      \<and> jw_next_job_sequences w' = jw_next_job_sequences w
      \<and> length (jw_objects w') = length (jw_objects w)
      \<and> (\<forall>r < length (jw_objects w). r \<noteq> ref \<longrightarrow> job_at w' r = job_at w r)
      \<and> (ref < length (jw_objects w) \<longrightarrow> jb_turn_id (job_at w' ref) = jb_turn_id (job_at w ref)
           \<and> jb_backend (job_at w' ref) = jb_backend (job_at w ref)))"

interpretation ref_guarantee: guarantee "ref_frame ref" for ref
  by unfold_locales (simp_all add: ref_frame_def)

abbreviation on_ref :: "nat \<Rightarrow> ('b, 'w, 'a) job_op \<Rightarrow> bool" where
  "on_ref ref m \<equiv> op_under (\<lambda>_. True) (ref_frame ref) m"

lemma stable_any: "stable R (\<lambda>_. True)"
  by (simp add: stable_def)

lemmas ref_rules = ref_guarantee.under_bind [OF stable_any] ref_guarantee.under_try [OF stable_any]
  ref_guarantee.under_return ref_guarantee.under_raise ref_guarantee.under_when ref_guarantee.under_read_any

lemma ref_rest:
  assumes "touches_rest m"
  shows "on_ref ref m"
  unfolding op_under_def
proof (intro allI impI)
  fix s
  obtain x where "fst (m s) = s\<lparr>jw_rest := x\<rparr>" using assms by (auto simp: touches_rest_def)
  then show "ref_frame ref s (fst (m s))" by (simp add: ref_frame_def)
qed

lemma ref_update_world:
  "(\<And>w. jw_jobs (f w) = jw_jobs w \<and> jw_inboxes (f w) = jw_inboxes w
      \<and> jw_next_job_sequences (f w) = jw_next_job_sequences w \<and> jw_objects (f w) = jw_objects w)
   \<Longrightarrow> on_ref ref (op_update f)"
  by (rule ref_guarantee.under_update) (simp add: ref_frame_def)

lemma ref_update_job:
  "(\<And>j. jb_turn_id (f j) = jb_turn_id j \<and> jb_backend (f j) = jb_backend j) \<Longrightarrow> on_ref ref (update_job ref f)"
  unfolding update_job_def
  by (rule ref_guarantee.under_update) (simp add: ref_frame_def job_at_set_job set_job_def)

lemma ref_read_job: "(\<And>j. on_ref ref (k j)) \<Longrightarrow> on_ref ref (read_job ref k)"
  unfolding read_job_def by (rule ref_guarantee.under_read_any) simp

lemma ref_call_backend:
  assumes "touches_rest m"
  shows "on_ref ref (call_backend cancelled kind m)"
  unfolding call_backend_def by (auto intro!: ref_rules ref_rest [OF assms])

lemma ref_with_inbox: "on_ref ref (with_inbox turn_id failure f)"
  unfolding with_inbox_def
  by (auto intro!: ref_rules ref_update_world split: option.split prod.split sum.split)

lemma ref_record_diagnostics: "on_ref ref (record_diagnostics turn_id ds)"
  unfolding record_diagnostics_def by (auto intro!: ref_rules ref_update_world split: option.split)

lemma ref_poll_job: "rest_env env \<Longrightarrow> on_ref ref (poll_job env ref)"
  unfolding poll_job_def job_backend_def
  by (auto intro!: ref_read_job ref_rules ref_call_backend simp: rest_env_def split: option.split)

lemma ref_close_execution: "rest_env env \<Longrightarrow> on_ref ref (close_execution env ref)"
  unfolding close_execution_def
  by (auto intro!: ref_read_job ref_rules ref_call_backend ref_record_diagnostics ref_update_job
      simp: rest_env_def split: option.split)

lemma ref_deliver: "on_ref ref (deliver_job_terminal env ref)"
  unfolding deliver_job_terminal_def
  by (auto intro!: ref_rules ref_with_inbox ref_update_job simp: Let_def)

lemma ref_join_monitor:
  assumes "rest_env env"
  shows "on_ref ref (join_monitor env ref)"
proof -
  have "touches_rest (je_join env ref)" using assms by (simp add: rest_env_def)
  note join = ref_rest [OF this]
  show ?thesis unfolding join_monitor_def
    by (auto intro!: ref_read_job ref_rules join ref_update_job split: job_exn.split)
qed

lemma ref_check_interrupted: "on_ref ref (check_interrupted env)"
  unfolding check_interrupted_def by (auto intro!: ref_rules)

lemma ref_settle: "rest_env env \<Longrightarrow> on_ref ref (settle_execution env ref i)"
  unfolding settle_execution_def
  by (auto intro!: ref_rules ref_read_job ref_close_execution ref_poll_job ref_update_job split: job_exn.split)

section \<open>Release\<close>

definition release_frame :: "nat \<Rightarrow> string \<Rightarrow> ('b, 'w) job_world \<Rightarrow> ('b, 'w) job_world \<Rightarrow> bool" where
  "release_frame ref i w w' =
     ((jw_jobs w' = jw_jobs w \<or> jw_jobs w' = AList.delete i (jw_jobs w))
      \<and> jw_inboxes w' = jw_inboxes w \<and> jw_next_job_sequences w' = jw_next_job_sequences w
      \<and> length (jw_objects w') = length (jw_objects w)
      \<and> (\<forall>r < length (jw_objects w). r \<noteq> ref \<longrightarrow> job_at w' r = job_at w r)
      \<and> (ref < length (jw_objects w) \<longrightarrow> jb_turn_id (job_at w' ref) = jb_turn_id (job_at w ref)))"

interpretation release_guarantee: guarantee "release_frame ref i" for ref i
proof unfold_locales
  fix w :: "('a, 'b) job_world" and ref i
  show "release_frame ref i w w" by (simp add: release_frame_def)
next
  fix s t u :: "('a, 'b) job_world" and ref i
  assume st: "release_frame ref i s t" and tu: "release_frame ref i t u"
  have "jw_jobs u = jw_jobs s \<or> jw_jobs u = AList.delete i (jw_jobs s)"
    using st tu by (auto simp: release_frame_def AList.delete_idem)
  then show "release_frame ref i s u" using st tu unfolding release_frame_def by simp
qed

abbreviation on_release :: "nat \<Rightarrow> string \<Rightarrow> ('b, 'w, 'a) job_op \<Rightarrow> bool" where
  "on_release ref i m \<equiv> op_under (\<lambda>_. True) (release_frame ref i) m"

lemmas release_rules = release_guarantee.under_bind [OF stable_any] release_guarantee.under_try [OF stable_any]
  release_guarantee.under_return release_guarantee.under_raise release_guarantee.under_when
  release_guarantee.under_read_any

lemma release_of_ref: "on_ref ref m \<Longrightarrow> on_release ref i m"
  unfolding op_under_def ref_frame_def release_frame_def by simp

lemma release_read_job: "(\<And>j. on_release ref i (k j)) \<Longrightarrow> on_release ref i (read_job ref k)"
  unfolding read_job_def by (rule release_guarantee.under_read_any) simp

lemma on_release_close:
  assumes env: "rest_env env"
  shows "on_release ref i (release_close env ref turn_id i)"
proof -
  have remove: "on_release ref i (op_update (\<lambda>w. w\<lparr>jw_jobs := AList.delete i (jw_jobs w)\<rparr>))"
    by (rule release_guarantee.under_update) (simp add: release_frame_def)
  have cleanup: "on_ref ref (call_backend False JF_SUPERVISION_FAILED (je_cleanup env b))" for b
    using env by (intro ref_call_backend) (simp add: rest_env_def)
  note parts = release_of_ref [OF ref_join_monitor [OF env]] release_of_ref [OF ref_settle [OF env]]
    release_of_ref [OF cleanup] release_of_ref [OF ref_record_diagnostics] release_of_ref [OF ref_deliver]
    release_of_ref [OF ref_with_inbox]
  show ?thesis unfolding release_close_def
    by (auto intro!: release_rules release_read_job remove parts split: option.split)
qed

lemma release_close_done:
  assumes "release_close env ref turn_id i w = (w', Inr ())"
  shows "i \<notin> set (dict_keys (jw_jobs w'))"
  using assms unfolding release_close_def read_job_def
  by (auto simp: op_bind_Inr AList.delete_eq split: if_splits option.splits)

lemma release_job_frame:
  assumes env: "rest_env env" and out: "release_job env turn_id i w = (w', r)"
  shows "\<exists>ref. release_frame ref i w w'"
proof -
  have "\<exists>ref. release_frame ref i w (fst (release_job env turn_id i w))"
  proof (cases "map_of (jw_jobs w) i")
    case (Some ref)
    have "on_release ref i (op_bind (op_try (release_close env ref turn_id i) (\<lambda>e.
        case e of JE_Job x \<Rightarrow> op_raise (runtime_error x) | _ \<Rightarrow> op_raise e)) (\<lambda>_. check_interrupted env))"
      by (auto intro!: release_rules on_release_close env release_of_ref [OF ref_check_interrupted]
          split: job_exn.split)
    then have "release_frame ref i w (fst (op_bind (op_try (release_close env ref turn_id i) (\<lambda>e.
        case e of JE_Job x \<Rightarrow> op_raise (runtime_error x) | _ \<Rightarrow> op_raise e)) (\<lambda>_. check_interrupted env) w))"
      by (simp add: op_under_def)
    moreover have "release_frame ref i w w" by (rule release_guarantee.R_refl)
    ultimately show ?thesis using Some by (auto simp: release_job_def)
  qed (auto simp: release_job_def intro: release_guarantee.R_refl)
  then show ?thesis using out by simp
qed

lemma release_job_done:
  assumes env: "rest_env env" and out: "release_job env turn_id i w = (w', Inr ())"
  shows "jw_jobs w' = AList.delete i (jw_jobs w)"
proof -
  have absent: "i \<notin> set (dict_keys (jw_jobs w'))"
  proof (cases "map_of (jw_jobs w) i")
    case None
    then have "w' = w" using out by (simp add: release_job_def)
    then show ?thesis using None by (simp add: map_of_eq_None_iff)
  next
    case (Some ref)
    have "\<not> (case e of JE_Job x \<Rightarrow> op_raise (runtime_error x) | _ \<Rightarrow> op_raise e) s = (s', Inr ())" for e and s s' :: "('a, 'b) job_world"
      by (cases e) auto
    then obtain w1 where "release_close env ref turn_id i w = (w1, Inr ())" "check_interrupted env w1 = (w', Inr ())"
      using out Some by (auto simp: release_job_def op_bind_Inr op_try_Inr split: if_splits)
    moreover from this(2) have "w' = w1" by (auto simp: check_interrupted_def split: if_splits)
    ultimately show ?thesis using release_close_done by blast
  qed
  from release_job_frame [OF env out] consider "jw_jobs w' = jw_jobs w" | "jw_jobs w' = AList.delete i (jw_jobs w)"
    by (auto simp: release_frame_def)
  then show ?thesis
  proof cases
    case 1
    then show ?thesis using absent by simp
  qed
qed

lemma release_frame_turns:
  "release_frame ref i w w' \<Longrightarrow> length (jw_objects w') = length (jw_objects w)
    \<and> (\<forall>r < length (jw_objects w). jb_turn_id (job_at w' r) = jb_turn_id (job_at w r))"
  unfolding release_frame_def by (metis (full_types))

lemma release_all_none:
  assumes env: "rest_env env"
  shows "release_all env turn_id is failure w = (w', Inr None) \<Longrightarrow>
    failure = None \<and> jw_jobs w' = filter (\<lambda>e. fst e \<notin> set is) (jw_jobs w)
    \<and> length (jw_objects w') = length (jw_objects w)
    \<and> (\<forall>r < length (jw_objects w). jb_turn_id (job_at w' r) = jb_turn_id (job_at w r))"
proof (induction "is" arbitrary: failure w)
  case (Cons i "is")
  let ?head = "op_try (op_bind (release_job env turn_id i) (\<lambda>_. op_return failure)) (\<lambda>e.
       case e of JE_Runtime x \<Rightarrow> op_return (if failure = None \<or> rx_reason x = runtime_agent_end then Some x else failure)
       | _ \<Rightarrow> op_raise e)"
  obtain w1 f1 where head: "?head w = (w1, Inr f1)" and rest: "release_all env turn_id is f1 w1 = (w', Inr None)"
    using Cons.prems by (auto simp: op_bind_Inr)
  note IH = Cons.IH [OF rest]
  have "f1 = None" using IH by blast
  have "\<not> (case e of JE_Runtime x \<Rightarrow> op_return (if failure = None \<or> rx_reason x = runtime_agent_end then Some x else failure)
       | _ \<Rightarrow> op_raise e) s = (w1, Inr None)" for e s
    by (cases e) auto
  then have "op_bind (release_job env turn_id i) (\<lambda>_. op_return failure) w = (w1, Inr None)"
    using head \<open>f1 = None\<close> by (auto simp: op_try_Inr)
  then have "failure = None" and out: "release_job env turn_id i w = (w1, Inr ())"
    by (auto simp: op_bind_Inr)
  obtain ref where "release_frame ref i w w1" using release_job_frame [OF env out] by blast
  note turns = release_frame_turns [OF this]
  have "jw_jobs w1 = filter (\<lambda>e. fst e \<noteq> i) (jw_jobs w)"
    using release_job_done [OF env out] by (auto simp: AList.delete_eq case_prod_unfold intro: filter_cong)
  then have "jw_jobs w' = filter (\<lambda>e. fst e \<notin> set (i # is)) (jw_jobs w)"
    using IH by (auto intro: filter_cong)
  then show ?case using \<open>failure = None\<close> IH turns by simp
qed simp

section \<open>Stop\<close>

lemma with_inbox_objects:
  "with_inbox turn_id failure f w = (w', r) \<Longrightarrow> jw_objects w' = jw_objects w \<and> jw_jobs w' = jw_jobs w"
  by (auto simp: with_inbox_def op_bind_def split: option.splits prod.splits sum.splits)

lemma touches_rest_objects: "touches_rest m \<Longrightarrow> m w = (w', r) \<Longrightarrow> jw_objects w' = jw_objects w \<and> jw_jobs w' = jw_jobs w"
  by (auto dest!: touches_restD)

lemma call_backend_objects:
  "touches_rest m \<Longrightarrow> call_backend cancelled kind m w = (w', r) \<Longrightarrow> jw_objects w' = jw_objects w \<and> jw_jobs w' = jw_jobs w"
  by (cases "m w") (auto simp: call_backend_def op_try_def split: if_splits sum.splits dest: touches_rest_objects)

lemma poll_job_objects:
  assumes "rest_env env" "poll_job env ref w = (w', r)"
  shows "jw_objects w' = jw_objects w \<and> jw_jobs w' = jw_jobs w"
proof (cases "jb_backend (job_at w ref)")
  case None
  then show ?thesis using assms(2) by (simp add: poll_job_def job_backend_def read_job_def)
next
  case (Some b)
  obtain w1 a where call: "call_backend False JF_SUPERVISION_FAILED (je_poll env b) w = (w1, a)" by fastforce
  have "touches_rest (je_poll env b)" using assms(1) by (simp add: rest_env_def)
  with call have "jw_objects w1 = jw_objects w \<and> jw_jobs w1 = jw_jobs w" by (rule call_backend_objects [rotated])
  then show ?thesis using assms(2) Some call
    by (auto simp: poll_job_def job_backend_def read_job_def op_bind_def split: sum.splits option.splits if_splits)
qed

lemma deliver_done:
  assumes "deliver_job_terminal env ref w = (w', Inr ())" "ref < length (jw_objects w)"
  shows "job_at w' ref = (job_at w ref)\<lparr>jb_terminal_delivered := True\<rparr>
    \<and> length (jw_objects w') = length (jw_objects w)"
proof (cases "jb_terminal_delivered (job_at w ref)")
  case True
  then have "w' = w" using assms(1) by (simp add: deliver_job_terminal_def)
  then show ?thesis using True by simp
next
  case False
  then obtain w1 where "with_inbox (jb_turn_id (job_at w ref)) (contract_fault ''Reserved Job delivery failed'')
      (deliver_terminal (je_received env w) (sn_job_id (jb_snapshot (job_at w ref)))
        (snapshot_to_json (jb_snapshot (job_at w ref)))) w = (w1, Inr ())"
    and w': "w' = set_job ref (\<lambda>j. j\<lparr>jb_terminal_delivered := True\<rparr>) w1"
    using assms(1) by (auto simp: deliver_job_terminal_def Let_def op_bind_Inr update_job_def)
  then have "jw_objects w1 = jw_objects w" by (auto dest: with_inbox_objects)
  then show ?thesis using w' assms(2) by (simp add: job_at_set_job)
qed

lemma record_diagnostics_objects:
  "record_diagnostics t ds w = (w', r) \<Longrightarrow> jw_objects w' = jw_objects w \<and> jw_jobs w' = jw_jobs w"
  by (auto simp: record_diagnostics_def split: option.splits)

lemma close_done:
  assumes env: "rest_env env" and out: "close_execution env ref w = (w', Inr ())"
    and b: "jb_backend (job_at w ref) \<noteq> None" and ref: "ref < length (jw_objects w)"
  shows "job_at w' ref = (job_at w ref)\<lparr>jb_execution_closed := True\<rparr> \<and> length (jw_objects w') = length (jw_objects w)"
proof (cases "jb_execution_closed (job_at w ref)")
  case True
  then have "w' = w" using out b by (auto simp: close_execution_def read_job_def split: option.splits)
  then show ?thesis using True by simp
next
  case False
  from b obtain be where be: "jb_backend (job_at w ref) = Some be" by auto
  with False out obtain w1 w2 ds where
    call: "call_backend False JF_EXECUTION_CLOSE_FAILED (je_close_execution env be) w = (w1, Inr ds)"
    and rec: "record_diagnostics (jb_turn_id (job_at w ref)) ds w1 = (w2, Inr ())"
    and w': "w' = set_job ref (\<lambda>j. j\<lparr>jb_execution_closed := True\<rparr>) w2"
    by (auto simp: close_execution_def read_job_def update_job_def op_bind_Inr)
  have "touches_rest (je_close_execution env be)" using env by (simp add: rest_env_def)
  then have "jw_objects w2 = jw_objects w"
    using call_backend_objects [OF _ call] record_diagnostics_objects [OF rec] by simp
  then show ?thesis using w' ref by (simp add: job_at_set_job)
qed

lemma join_done:
  assumes env: "rest_env env" and out: "join_monitor env ref w = (w', Inr ())" and ref: "ref < length (jw_objects w)"
  shows "job_at w' ref = (job_at w ref)\<lparr>jb_monitor := False\<rparr> \<and> length (jw_objects w') = length (jw_objects w)"
proof (cases "jb_monitor (job_at w ref)")
  case False
  then have "w' = w" using out by (simp add: join_monitor_def read_job_def)
  then show ?thesis using False by simp
next
  case True
  let ?m = "op_try (je_join env ref) (\<lambda>e.
         case e of JE_Cancelled \<Rightarrow> op_return () | JE_Runtime x \<Rightarrow> op_raise e
         | _ \<Rightarrow> op_raise (JE_Job (JobError ''Job monitor failed'' JF_SUPERVISION_FAILED)))"
  obtain w1 where join: "?m w = (w1, Inr ())" and w': "w' = set_job ref (\<lambda>j. j\<lparr>jb_monitor := False\<rparr>) w1"
    using out True by (auto simp: join_monitor_def read_job_def update_job_def op_bind_Inr)
  have same: "(case e of JE_Cancelled \<Rightarrow> op_return () | JE_Runtime x \<Rightarrow> op_raise e
         | _ \<Rightarrow> op_raise (JE_Job (JobError ''Job monitor failed'' JF_SUPERVISION_FAILED))) s = (s', Inr ()) \<Longrightarrow> s' = s"
    for e and s s' :: "('a, 'b) job_world" by (cases e) auto
  have "touches_rest (je_join env ref)" using env by (simp add: rest_env_def)
  note join_rest = touches_rest_objects [OF this]
  have "jw_objects w1 = jw_objects w"
    using join unfolding op_try_Inr using join_rest same by metis
  then show ?thesis using w' ref by (simp add: job_at_set_job)
qed

lemma stop_execution_done:
  assumes env: "rest_env env" and out: "stop_execution env cancelled ref i w = (w', Inr ())"
    and ref: "ref < length (jw_objects w)"
  shows "job_terminal (sn_state (jb_snapshot (job_at w' ref))) \<and> jb_execution_closed (job_at w' ref)
    \<and> jb_terminal_delivered (job_at w' ref)"
proof -
  obtain b where b: "jb_backend (job_at w ref) = Some b"
    using out by (auto simp: stop_execution_def job_backend_def read_job_def split: option.splits)
  let ?w0 = "set_job ref (\<lambda>j. j\<lparr>jb_snapshot := plain_snapshot i (sn_kind (jb_snapshot j)) JS_STOPPING []\<rparr>) w"
  obtain w1 w2 w3 sn where
    req: "call_backend cancelled JF_EXECUTION_CLOSE_FAILED (je_request_stop env b) ?w0 = (w1, Inr ())"
    and close: "close_execution env ref w1 = (w2, Inr ())" and poll: "poll_job env ref w2 = (w3, Inr sn)"
    and terminal: "job_terminal (sn_state sn)"
    and deliver: "deliver_job_terminal env ref (set_job ref (\<lambda>j. j\<lparr>jb_snapshot := sn\<rparr>) w3) = (w', Inr ())"
    using out b by (auto simp: stop_execution_def job_backend_def read_job_def update_job_def op_bind_Inr split: if_splits)
  have "touches_rest (je_request_stop env b)" using env by (simp add: rest_env_def)
  note w1 = call_backend_objects [OF this req]
  then have "jb_backend (job_at w1 ref) \<noteq> None" "ref < length (jw_objects w1)"
    using b ref by (simp_all add: job_at_set_job)
  note w2 = close_done [OF env close this]
  note w3 = poll_job_objects [OF env poll]
  have len: "ref < length (jw_objects w3)" using w2 w3 \<open>ref < length (jw_objects w1)\<close> by simp
  then have "ref < length (jw_objects (set_job ref (\<lambda>j. j\<lparr>jb_snapshot := sn\<rparr>) w3))" by simp
  note w' = deliver_done [OF deliver this]
  have "job_at w3 ref = job_at w2 ref" using w3 by simp
  then show ?thesis using w' w2 len terminal by (simp add: job_at_set_job)
qed

lemma stop_body_done:
  assumes env: "rest_env env" and out: "stop_body env cancelled ref i w = (w', Inr sn)"
    and ref: "ref < length (jw_objects w)" and live: "\<not> jb_execution_closed (job_at w ref)"
  shows "jb_snapshot (job_at w' ref) = sn \<and> job_terminal (sn_state sn) \<and> jb_execution_closed (job_at w' ref)
    \<and> jb_terminal_delivered (job_at w' ref) \<and> jb_failure (job_at w' ref) = None"
proof -
  obtain w1 w2 where join: "join_monitor env ref w = (w1, Inr ())"
    and stop: "op_when (\<not> jb_execution_closed (job_at w1 ref)) (stop_execution env cancelled ref i) w1 = (w2, Inr ())"
    and final: "w' = w2" "jb_failure (job_at w2 ref) = None" "sn = jb_snapshot (job_at w2 ref)"
    using out by (auto simp: stop_body_def read_job_def op_bind_Inr split: option.splits)
  note w1 = join_done [OF env join ref]
  then have "stop_execution env cancelled ref i w1 = (w2, Inr ())" using stop live by (simp add: op_when_def)
  moreover have "ref < length (jw_objects w1)" using w1 ref by simp
  ultimately show ?thesis using stop_execution_done [OF env] final by blast
qed

lemma ref_stop_body:
  assumes env: "rest_env env"
  shows "on_ref ref (stop_body env cancelled ref i)"
proof -
  have request: "on_ref ref (call_backend cancelled kind (je_request_stop env b))" for kind b
    using env by (intro ref_call_backend) (simp add: rest_env_def)
  show ?thesis unfolding stop_body_def stop_execution_def job_backend_def
    by (auto intro!: ref_rules ref_read_job ref_join_monitor ref_close_execution ref_poll_job ref_deliver request
        ref_update_job env split: option.split)
qed

lemma deliver_failure:
  assumes "deliver_job_terminal env ref w = (w', r)" "ref < length (jw_objects w)"
    and "jb_failure (job_at w ref) = Some f"
  shows "jb_failure (job_at w' ref) = Some f"
proof (cases r)
  case (Inr u)
  then show ?thesis using deliver_done [of env ref w w'] assms by simp
next
  case (Inl e)
  have "jw_objects w' = jw_objects w"
    using assms(1) Inl unfolding deliver_job_terminal_def Let_def
    by (auto simp: op_bind_Inl update_job_def split: if_splits dest!: with_inbox_objects)
  then show ?thesis using assms(3) by simp
qed

section \<open>A start that fails\<close>

lemma release_reserved:
  assumes "i \<notin> set (dict_keys (ib_terminals ib))" "i \<notin> fst ` set (dict_keys (ib_job_inputs ib))"
  shows "release_terminal i (fst (reserve_terminal i n ib)) = ib"
proof -
  have inputs: "filter (\<lambda>(key, item). fst key \<noteq> i \<or> item \<noteq> None) (ib_job_inputs ib) = ib_job_inputs ib"
    using assms(2) by (auto simp: filter_id_conv image_iff)
  have absent: "map_of (ib_terminals ib) i = None" using assms(1) by (simp add: map_of_eq_None_iff)
  have restored: "AList.delete i (AList.update i None (ib_terminals ib)) = ib_terminals ib"
    using assms(1) by (simp add: update_fresh AList.delete_eq) (auto simp: filter_id_conv image_iff)
  have eta: "ib\<lparr>ib_terminals := ib_terminals ib, ib_job_inputs := ib_job_inputs ib\<rparr> = ib" by simp
  show ?thesis
    using absent restored eta inputs by (simp add: reserve_terminal_def release_terminal_def update_conv' Let_def)
qed

lemma launch_failed:
  assumes "\<And>i v. \<exists>x e. factory i v = (v\<lparr>jw_rest := x\<rparr>, Inl e)"
  shows "\<exists>w1 e. launch_job env turn_id factory slot w = (w1, Inl e)
    \<and> jw_jobs w1 = jw_jobs w \<and> jw_inboxes w1 = jw_inboxes w \<and> jw_objects w1 = jw_objects w
    \<and> (case map_of (jw_inboxes w) turn_id of
         None \<Rightarrow> jw_inbox_objects w1 = jw_inbox_objects w
       | Some b \<Rightarrow> jw_inbox_objects w1 =
           (jw_inbox_objects w)[b := fst (reserve_terminal (fst slot) 8192 (jw_inbox_objects w ! b))])"
proof (cases "map_of (jw_inboxes w) turn_id")
  case None
  obtain x e where "factory (fst slot) w = (w\<lparr>jw_rest := x\<rparr>, Inl e)" using assms by blast
  then show ?thesis using None by (simp add: launch_job_def with_inbox_def op_bind_def)
next
  case (Some b)
  obtain ib r where res: "reserve_terminal (fst slot) 8192 (jw_inbox_objects w ! b) = (ib, r)" by fastforce
  let ?w = "w\<lparr>jw_inbox_objects := (jw_inbox_objects w)[b := ib]\<rparr>"
  obtain x e where "factory (fst slot) ?w = (?w\<lparr>jw_rest := x\<rparr>, Inl e)" using assms by blast
  then show ?thesis using Some res by (cases r) (simp_all add: launch_job_def with_inbox_def op_bind_def)
qed

lemma release_unlaunched:
  assumes out: "release_job env turn_id i w = (w', r)" and i: "map_of (jw_jobs w) i = Some ref"
    and job: "job_at w ref = new_job turn_id sn"
  shows "jw_jobs w' = AList.delete i (jw_jobs w) \<and> jw_inbox_objects w' = (case map_of (jw_inboxes w) turn_id of
      None \<Rightarrow> jw_inbox_objects w
    | Some b \<Rightarrow> (jw_inbox_objects w)[b := release_terminal i (jw_inbox_objects w ! b)])"
proof -
  have "i \<in> set (dict_keys (jw_jobs w))" using i by (metis domI dom_map_of_conv_image_fst set_map)
  then show ?thesis
    using out i job
    by (auto simp: release_job_def release_close_def join_monitor_def read_job_def with_inbox_def check_interrupted_def
        op_bind_def op_try_def new_job_def split: option.splits if_splits)
qed

end
