(* ===== verification/Job_Properties.thy ===== *)
theory Job_Properties
  imports Job_Quiet
begin

text \<open>
  What the Job supervisor promises: the identities and the capacity over any sequence of calls,
  what a failed start, a stop and the cleanup of a Turn leave behind, which failure a cleanup
  reports, and the JSON forms of snapshots and of output positions.
\<close>

section \<open>An example\<close>

text \<open>
  Backends that answer at once, with the same state each time they are asked, and a Turn with one
  Job of them.
\<close>

definition example_turn :: string where
  "example_turn = ''2026-03-01/1''"

definition example_job :: "job_state \<Rightarrow> job_snapshot" where
  "example_job st = plain_snapshot ''20260301-1-1'' ''shell'' st []"

definition idle_env :: "job_state \<Rightarrow> (unit, unit) job_env" where
  "idle_env st =
     \<lparr>je_poll = (\<lambda>b. op_return (Some (example_job st))), je_close_execution = (\<lambda>b. op_return (Some [])),
      je_cleanup = (\<lambda>b. op_return (Some [])), je_request_stop = (\<lambda>b. op_return ()),
      je_describe = (\<lambda>b. op_return []), je_read_output = (\<lambda>b c n. op_return []),
      je_join = (\<lambda>ref. op_raise JE_Cancelled), je_interrupted = (\<lambda>w. False), je_received = (\<lambda>w. Num 0)\<rparr>"

definition empty_world :: "(unit, unit) job_world" where
  "empty_world = \<lparr>jw_capacity = 4, jw_per_turn = 1, jw_jobs = [], jw_objects = [], jw_inboxes = [],
     jw_inbox_objects = [], jw_diagnostics = [], jw_next_job_sequences = [], jw_rest = ()\<rparr>"

definition one_world :: "bool \<Rightarrow> (unit, unit) job_world" where
  "one_world live = empty_world\<lparr>jw_jobs := [(''20260301-1-1'', 0)],
     jw_objects := [\<lparr>jb_turn_id = example_turn, jb_snapshot = example_job (if live then JS_RUNNING else JS_SUCCEEDED),
       jb_backend = Some (), jb_monitor = True, jb_terminal_delivered = False, jb_execution_closed = False,
       jb_failure = None\<rparr>], jw_next_job_sequences := [(example_turn, 1)]\<rparr>"

lemma empty_registry: "mk_registry 4 1 [] () = Inr empty_world"
  by (simp add: mk_registry_def empty_world_def)

lemma example_parse: "turn_identity_parse example_turn = Inr (TurnIdentity (CalendarDay 2026 3 1) 1)"
  by code_simp

lemma example_identity: "job_identity (TurnIdentity (CalendarDay 2026 3 1) 1) 1 = ''20260301-1-1''"
  by code_simp

lemma idle_kept: "kept_env (idle_env st)"
  by (simp add: kept_env_def idle_env_def kept_return kept_raise)

lemma idle_rest: "rest_env (idle_env st)"
  unfolding rest_env_def touches_rest_def idle_env_def by (auto intro: exI [of _ "()"])

lemma one_world_inv: "registry_inv (one_world live)"
proof -
  have "named_job [(example_turn, 1)] example_turn ''20260301-1-1''"
    unfolding named_job_def
    using example_parse example_identity by (intro exI conjI) (auto simp: dict_get_def)
  then show ?thesis
    by (simp add: registry_inv_def entry_ok_def one_world_def empty_world_def example_job_def plain_snapshot_def)
qed

section \<open>Runs of the registry\<close>

lemma fresh_registry_inv: "mk_registry c p inboxes rest = Inr w \<Longrightarrow> registry_inv w \<and> jw_capacity w = c \<and> jw_per_turn w = p"
  by (auto simp: mk_registry_def registry_inv_def split: if_splits)

text \<open>
  C10: Whatever is called on a registry, with backends and factories that leave its state to it:
  every Job it names has an object of that name whose Turn gave the number in the name, no name
  and no object is used twice, the capacity is not exceeded; and no call ever changes the Turn,
  the name or the kind of a Job object or takes a delivered end back.
\<close>

theorem registry_run_safe:
  assumes "mk_registry c p inboxes rest = Inr w0" "kept_env env"
    and "list_all kept_call earlier" "list_all kept_call later"
  shows "let w = job_run env earlier w0; w' = job_run env later w in
    distinct (dict_keys (jw_jobs w')) \<and> distinct (map snd (jw_jobs w'))
    \<and> int (length (jw_jobs w')) \<le> c
    \<and> (\<forall>(i, ref) \<in> set (jw_jobs w'). ref < length (jw_objects w')
         \<and> sn_job_id (jb_snapshot (job_at w' ref)) = i
         \<and> named_job (jw_next_job_sequences w') (jb_turn_id (job_at w' ref)) i)
    \<and> (\<forall>ref < length (jw_objects w). job_frame (job_at w ref) (job_at w' ref))"
proof -
  define w where "w = job_run env earlier w0"
  define w' where "w' = job_run env later w"
  note w0 = fresh_registry_inv [OF assms(1)]
  then have g: "registry_guarantee w0 w" unfolding w_def using assms by (intro guarantee_run) simp_all
  then have inv: "registry_inv w" using w0 by (simp add: registry_guarantee_def)
  then have g': "registry_guarantee w w'" unfolding w'_def using assms by (intro guarantee_run) simp_all
  then have "registry_inv w'" using inv by (simp add: registry_guarantee_def)
  moreover have "jw_capacity w' = c"
    using g g' w0 by (simp add: registry_guarantee_def world_frame_def)
  moreover have "\<forall>ref < length (jw_objects w). job_frame (job_at w ref) (job_at w' ref)"
    using g' by (simp add: registry_guarantee_def world_frame_def)
  ultimately show ?thesis
    unfolding Let_def w_def [symmetric] w'_def [symmetric] by (auto simp: registry_inv_def entry_ok_def)
qed

lemma example_start:
  "start_job (idle_env JS_RUNNING) example_turn ''shell'' (\<lambda>i. op_return ()) empty_world
     = (one_world True\<lparr>jw_objects := [job_at (one_world True) 0\<lparr>jb_snapshot := example_job JS_STARTING\<rparr>]\<rparr>, Inr ())"
proof -
  have "example_turn \<noteq> []" by (simp add: example_turn_def)
  moreover have "mk_job_snapshot (example_job JS_STARTING) = Inr (example_job JS_STARTING)" by code_simp
  ultimately have "admit_job example_turn ''shell'' empty_world =
      (empty_world\<lparr>jw_next_job_sequences := [(example_turn, 1)], jw_objects := [new_job example_turn (example_job JS_STARTING)],
        jw_jobs := [(''20260301-1-1'', 0)]\<rparr>, Inr (''20260301-1-1'', 0))"
    using example_identity
    by (simp add: admit_job_def example_parse live_jobs_def empty_world_def op_bind_def dict_get_def example_job_def Let_def)
  then show ?thesis
    by (simp add: start_job_def launch_job_def op_bind_def op_try_def with_inbox_def update_job_def check_interrupted_def
        set_job_def idle_env_def one_world_def empty_world_def new_job_def example_job_def)
qed

definition started_world :: "(unit, unit) job_world" where
  "started_world = one_world True\<lparr>jw_objects := [job_at (one_world True) 0\<lparr>jb_snapshot := example_job JS_STARTING\<rparr>]\<rparr>"

theorem registry_run_safe_witness:
  "let w = job_run (idle_env JS_RUNNING) [CallStart example_turn ''shell'' (\<lambda>i. op_return ())] empty_world;
       w' = job_run (idle_env JS_RUNNING) [CallMonitor 0, CallStop False example_turn ''20260301-1-1''] w in
     jw_jobs w = [(''20260301-1-1'', 0)]
     \<and> distinct (map snd (jw_jobs w')) \<and> int (length (jw_jobs w')) \<le> 4
     \<and> job_frame (job_at w 0) (job_at w' 0)"
proof -
  let ?start = "[CallStart example_turn ''shell'' (\<lambda>i. op_return ())] :: (unit, unit) registry_call list"
  let ?later = "[CallMonitor 0, CallStop False example_turn ''20260301-1-1''] :: (unit, unit) registry_call list"
  have w: "job_run (idle_env JS_RUNNING) ?start empty_world = started_world"
    by (simp add: job_run_def drop_answer_def example_start started_world_def)
  have later: "list_all kept_call ?later" by (simp add: kept_call_def)
  have start: "list_all kept_call ?start" by (simp add: kept_call_def kept_return)
  note safe = registry_run_safe [OF empty_registry idle_kept [of JS_RUNNING] start later, unfolded Let_def w]
  have "jw_jobs started_world = [(''20260301-1-1'', 0)]" "0 < length (jw_objects started_world)"
    by (simp_all add: started_world_def one_world_def)
  with safe show ?thesis unfolding Let_def w by blast
qed

section \<open>JSON forms\<close>

text \<open>
  The Context's decoder gives back the snapshots the registry publishes, whatever the
  constructors admit.
\<close>

theorem published_jobs_decode:
  assumes "list_all wf_snapshot snapshots"
  shows "decode_jobs (jobs_to_json snapshots) = Inr snapshots"
proof -
  have "traverse decode_job (map (\<lambda>s. JObj (snapshot_to_json s)) snapshots) = Inr snapshots"
    using assms by (intro traverse_map_ok decode_job_to_json) (simp add: list_all_iff)
  then show ?thesis by (simp add: decode_jobs_def jobs_to_json_def)
qed

definition waiting_job :: job_snapshot where
  "waiting_job = (plain_snapshot ''20260301-1-2'' ''agent'' JS_WAITING_INPUT ''needs leave'')
     \<lparr>sn_pending_inputs := [\<lparr>jr_request_id = ''r1'', jr_question = ''May it write?'',
        jr_options = [\<lparr>jo_option_id = ''y'', jo_label = ''Yes''\<rparr>, \<lparr>jo_option_id = ''n'', jo_label = ''No''\<rparr>],
        jr_kind = JK_PERMISSION\<rparr>],
      sn_result_refs := [''workspace:out.txt'']\<rparr>"

theorem published_jobs_decode_witness:
  "decode_jobs (jobs_to_json [waiting_job, example_job JS_FAILED]) = Inr [waiting_job, example_job JS_FAILED]"
proof -
  have "wf_snapshot waiting_job" by code_simp
  moreover have "wf_snapshot (example_job JS_FAILED)" by code_simp
  ultimately show ?thesis by (intro published_jobs_decode) simp
qed



text \<open>
  The position of a reader over several channels survives its token, for the same Job and
  the same channels.
\<close>

theorem output_position_roundtrip:
  assumes "output_encode offsets job_id channels = Some token" "channels \<noteq> []"
    and "\<And>n. n \<in> set offsets \<Longrightarrow> length (show_nat n) \<le> 4300"
  shows "output_decode (Some token) job_id channels = Inr offsets"
proof -
  let ?enc = "\<lambda>(channel, offset). codec_encode output_codec (whole_position offset) (output_ref job_id channel) None"
  let ?tokens = "map ?enc (zip channels offsets)"
  have len: "length offsets = length channels" and token: "token = py_join ''~'' ?tokens"
    using assms(1) by (auto simp: output_encode_def split: if_splits)
  have ne: "?tokens \<noteq> []" using len assms(2) by (cases channels; cases offsets) auto
  have "split_on (CHR ''~'') token = ?tokens"
    unfolding token by (rule split_on_join [OF ne]) (auto simp: token_no_tilde)
  moreover have "token \<noteq> []"
  proof
    assume "token = []"
    then have "split_on (CHR ''~'') token = [[]]" by (simp add: split_on_absent)
    then have "[] \<in> set ?tokens" using \<open>split_on (CHR ''~'') token = ?tokens\<close> by simp
    then have "\<exists>c p r. [] = codec_encode c p r None" by auto
    then show False by (simp add: codec_encode_def Let_def)
  qed
  ultimately have tokens: "(case Some token of Some (c # cs) \<Rightarrow> map Some (split_on (CHR ''~'') (c # cs))
      | _ \<Rightarrow> replicate (length channels) None) = map Some ?tokens"
    by (cases token) auto
  have one: "bind_r (codec_decode output_codec (Some (codec_encode output_codec (whole_position n) (output_ref job_id ch) None))
      (output_ref job_id ch) None) (\<lambda>p. Inr (cp_item_index p)) = Inr n" if "n \<in> set offsets" for n ch
  proof -
    have "position_ok (whole_position n)" using assms(3) [OF that] by simp
    then show ?thesis
      by (simp add: codec_decode_encode binding_object_def claims_equal_def json_canon_obj whole_position_def)
  qed
  have "traverse (\<lambda>(channel, item). bind_r (codec_decode output_codec item (output_ref job_id channel) None)
      (\<lambda>p. Inr (cp_item_index p))) (zip chs (map Some (map ?enc (zip chs os)))) = Inr os"
    if "length os = length chs" "set os \<subseteq> set offsets" for chs os
    using that
  proof (induction chs os rule: list_induct2')
    case (4 ch chs n os)
    then show ?case using one [of n ch] by simp
  qed simp_all
  with len tokens show ?thesis unfolding output_decode_def Let_def tokens by simp
qed

theorem output_position_roundtrip_witness:
  "\<exists>token. output_encode [3, 0] ''j'' [''stdout'', ''stderr''] = Some token
    \<and> output_decode (Some token) ''j'' [''stdout'', ''stderr''] = Inr [3, 0]"
proof -
  obtain token where t: "output_encode [3, 0] ''j'' [''stdout'', ''stderr''] = Some token"
    by (simp add: output_encode_def)
  have "length (show_nat n) \<le> 4300" if "n \<in> set [3, 0]" for n :: nat
    using that length_digit [of n] by auto
  with output_position_roundtrip [OF t] show ?thesis using t by blast
qed

section \<open>The end of a Turn\<close>

lemma key_deleted [simp]: "k \<notin> fst ` set (AList.delete k d)"
  by (auto simp: AList.delete_eq)

text \<open>
  C22: A cleanup that ends normally has taken every Job of the Turn off the registry and no other,
  and has forgotten the Turn's inbox, numbers and diagnostics.
\<close>

theorem cleanup_forgets_turn:
  assumes env: "rest_env env" and inv: "registry_inv w" and out: "cleanup_turn env turn_id w = (w', Inr diagnostics)"
  shows "jw_jobs w' = filter (\<lambda>(i, ref). jb_turn_id (job_at w ref) \<noteq> turn_id) (jw_jobs w) \<and> job_ids turn_id w' = []
    \<and> turn_id \<notin> set (dict_keys (jw_inboxes w') @ dict_keys (jw_next_job_sequences w') @ dict_keys (jw_diagnostics w'))"
proof -
  let ?is = "job_ids turn_id w"
  obtain w1 where all: "release_all env turn_id ?is None w = (w1, Inr None)"
    and w': "w' = (forget_turn turn_id w1)\<lparr>jw_diagnostics := AList.delete turn_id (jw_diagnostics (forget_turn turn_id w1))\<rparr>"
    using out by (auto simp: cleanup_turn_def op_bind_Inr split: option.splits)
  note w1 = release_all_none [OF env all]
  have ids: "fst e \<in> set ?is \<longleftrightarrow> jb_turn_id (job_at w (snd e)) = turn_id" if "e \<in> set (jw_jobs w)" for e
  proof -
    have "distinct (dict_keys (jw_jobs w))" using inv by (simp add: registry_inv_def)
    then have "snd e' = snd e" if "e' \<in> set (jw_jobs w)" "fst e' = fst e" for e'
      using that \<open>e \<in> set (jw_jobs w)\<close> by (metis eq_key_imp_eq_value prod.collapse)
    note same = this
    show ?thesis
    proof
      assume "fst e \<in> set ?is"
      then obtain e' where e': "e' \<in> set (jw_jobs w)" "fst e' = fst e" "jb_turn_id (job_at w (snd e')) = turn_id"
        unfolding job_ids_def by auto
      then show "jb_turn_id (job_at w (snd e)) = turn_id" using same by metis
    next
      assume "jb_turn_id (job_at w (snd e)) = turn_id"
      then have "e \<in> set (filter (\<lambda>(i, ref). jb_turn_id (job_at w ref) = turn_id) (jw_jobs w))"
        using that by (simp add: case_prod_unfold)
      then show "fst e \<in> set ?is" unfolding job_ids_def set_map by (rule imageI)
    qed
  qed
  then have jobs: "jw_jobs w1 = filter (\<lambda>(i, ref). jb_turn_id (job_at w ref) \<noteq> turn_id) (jw_jobs w)"
    using w1 by (auto simp: case_prod_unfold intro: filter_cong)
  have "snd e < length (jw_objects w)" if "e \<in> set (jw_jobs w)" for e
    using inv that by (simp add: registry_inv_def entry_ok_def)
  then have "job_ids turn_id w1 = []"
    using w1 jobs by (auto simp: job_ids_def filter_empty_conv)
  then show ?thesis using w' jobs by (simp add: forget_turn_def job_ids_def)
qed

lemmas registry_defs = cleanup_turn_def release_job_def release_close_def join_monitor_def settle_execution_def
  close_execution_def poll_job_def job_backend_def read_job_def update_job_def call_backend_def record_diagnostics_def
  deliver_job_terminal_def with_inbox_def check_interrupted_def forget_turn_def set_job_def op_bind_def op_try_def op_when_def

theorem cleanup_forgets_turn_witness:
  "\<exists>w'. cleanup_turn (idle_env JS_SUCCEEDED) example_turn (one_world True) = (w', Inr [])
    \<and> jw_jobs w' = [] \<and> job_ids example_turn w' = []"
proof -
  have "job_ids example_turn (one_world True) = [''20260301-1-1'']"
    by (simp add: job_ids_def one_world_def)
  moreover have "\<exists>w'. release_all (idle_env JS_SUCCEEDED) example_turn [''20260301-1-1''] None (one_world True) = (w', Inr None)
      \<and> jw_diagnostics w' = [(example_turn, [])]"
    by (simp add: registry_defs idle_env_def one_world_def empty_world_def example_job_def plain_snapshot_def job_terminal_def
        Let_def dict_get_def)
  ultimately obtain w' where out: "cleanup_turn (idle_env JS_SUCCEEDED) example_turn (one_world True) = (w', Inr [])"
    by (auto simp: cleanup_turn_def op_bind_def forget_turn_def dict_get_def)
  from cleanup_forgets_turn [OF idle_rest one_world_inv this] have "job_ids example_turn w' = []"
    "jw_jobs w' = []" by (simp_all add: one_world_def)
  with out show ?thesis by blast
qed

text \<open>The failures of releasing one Job after the other, and the one to report.\<close>

fun release_each :: "('b, 'w) job_env \<Rightarrow> string \<Rightarrow> string list \<Rightarrow> ('b, 'w, runtime_exception list) job_op" where
  "release_each env turn_id [] = op_return []"
| "release_each env turn_id (i # rest) =
     op_bind (op_try (op_bind (release_job env turn_id i) (\<lambda>_. op_return [])) (\<lambda>e.
       case e of JE_Runtime x \<Rightarrow> op_return [x] | _ \<Rightarrow> op_raise e)) (\<lambda>failed.
     op_bind (release_each env turn_id rest) (\<lambda>others. op_return (failed @ others)))"

definition reported_failure :: "runtime_exception list \<Rightarrow> runtime_exception option" where
  "reported_failure failures =
     (case filter (\<lambda>x. rx_reason x = runtime_agent_end) failures of
        [] \<Rightarrow> (case failures of [] \<Rightarrow> None | x # _ \<Rightarrow> Some x)
      | fatal \<Rightarrow> Some (last fatal))"

lemma reported_failure_snoc:
  "reported_failure (xs @ [x]) =
     (if reported_failure xs = None \<or> rx_reason x = runtime_agent_end then Some x else reported_failure xs)"
  by (auto simp: reported_failure_def split: list.splits)

lemma release_all_each:
  "release_all env turn_id is (reported_failure failed) w =
     (case release_each env turn_id is w of
        (w', Inl e) \<Rightarrow> (w', Inl e) | (w', Inr others) \<Rightarrow> (w', Inr (reported_failure (failed @ others))))"
proof (induction "is" arbitrary: failed w)
  case (Cons i "is")
  obtain w1 r where job: "release_job env turn_id i w = (w1, r)" by fastforce
  show ?case
  proof (cases r)
    case (Inr u)
    then show ?thesis using job Cons.IH [of failed w1]
      by (simp add: op_bind_def op_try_def split: prod.splits sum.splits)
  next
    case (Inl e)
    show ?thesis
    proof (cases e)
      case (JE_Runtime x)
      then show ?thesis using job Inl Cons.IH [of "failed @ [x]" w1]
        by (simp add: op_bind_def op_try_def reported_failure_snoc split: prod.splits sum.splits)
    qed (use job Inl in \<open>simp_all add: op_bind_def op_try_def\<close>)
  qed
qed (simp add: op_bind_def)

text \<open>
  A cleanup tries to release every Job of the Turn, and of the failures it meets reports the
  last one that ends the agent, or else the first one.
\<close>

theorem cleanup_reports_worst:
  "release_all env turn_id is None w =
     (case release_each env turn_id is w of
        (w', Inl e) \<Rightarrow> (w', Inl e) | (w', Inr failures) \<Rightarrow> (w', Inr (reported_failure failures)))"
proof -
  have "reported_failure [] = None" by (simp add: reported_failure_def)
  with release_all_each [of env turn_id "is" "[]" w, unfolded append_Nil] show ?thesis by simp
qed

section \<open>Stop\<close>

text \<open>
  C21: A stop that returns has ended the Job: the answer is its last snapshot, in a terminal state,
  the execution is closed, the end was delivered and no failure is kept. A stop that fails with a
  failure of Jobs or of the runtime leaves a failure for the Turn to find.
\<close>

theorem stop_outcome:
  assumes env: "rest_env env" and inv: "registry_inv w"
    and owned: "owned_job turn_id i w = (w, Inr ref)" and live: "\<not> jb_execution_closed (job_at w ref)"
    and out: "stop_job env cancelled turn_id i w = (w', r)"
  shows "case r of
      Inr sn \<Rightarrow> jb_snapshot (job_at w' ref) = sn \<and> job_terminal (sn_state sn) \<and> jb_execution_closed (job_at w' ref)
        \<and> jb_terminal_delivered (job_at w' ref) \<and> jb_failure (job_at w' ref) = None
    | Inl e \<Rightarrow> caught_failure e \<noteq> None \<longrightarrow> jb_failure (job_at w' ref) \<noteq> None"
proof -
  let ?handler = "\<lambda>e. case caught_failure e of None \<Rightarrow> op_raise e
     | Some f \<Rightarrow> op_bind (update_job ref (\<lambda>j. j\<lparr>jb_failure := Some f\<rparr>)) (\<lambda>_.
         op_bind (deliver_job_terminal env ref) (\<lambda>_. op_raise e))"
  have ref: "ref < length (jw_objects w)"
    using owned_job_known [OF inv owned] by (auto simp: on_known_def known_job_def job_named_def)
  obtain w1 r1 where body: "stop_body env cancelled ref i w = (w1, r1)" by fastforce
  have attempt: "op_try (stop_body env cancelled ref i) ?handler w = (w', r)"
    using out owned by (simp add: stop_job_def op_bind_def)
  show ?thesis
  proof (cases r1)
    case (Inr sn)
    then have "w' = w1" "r = Inr sn" using attempt body by (simp_all add: op_try_def)
    then show ?thesis using stop_body_done [OF env _ ref live] body Inr by fastforce
  next
    case (Inl e1)
    have h: "?handler e1 w1 = (w', r)" using attempt body Inl by (simp add: op_try_def)
    have len: "ref < length (jw_objects w1)"
    proof -
      have "on_ref ref (stop_body env cancelled ref i)" by (rule ref_stop_body [OF env])
      from op_underD [OF this _ body] have "ref_frame ref w w1" by simp
      then show ?thesis using ref by (simp add: ref_frame_def)
    qed
    show ?thesis
    proof (cases "caught_failure e1")
      case None
      then show ?thesis using h by auto
    next
      case (Some f)
      let ?w2 = "set_job ref (\<lambda>j. j\<lparr>jb_failure := Some f\<rparr>) w1"
      obtain w3 r3 where deliver: "deliver_job_terminal env ref ?w2 = (w3, r3)" by fastforce
      have "w' = w3" "\<exists>e. r = Inl e"
        using h Some deliver by (cases r3; auto simp: op_bind_def update_job_def)+
      moreover have "jb_failure (job_at w3 ref) = Some f"
        using deliver_failure [OF deliver, of f] len by (simp add: job_at_set_job)
      ultimately show ?thesis by auto
    qed
  qed
qed

theorem stop_outcome_witness:
  "\<exists>w'. stop_job (idle_env JS_CANCELLED) False example_turn ''20260301-1-1'' (one_world True)
      = (w', Inr (example_job JS_CANCELLED))
    \<and> jb_execution_closed (job_at w' 0) \<and> jb_terminal_delivered (job_at w' 0)"
proof -
  have owned: "owned_job example_turn ''20260301-1-1'' (one_world True) = (one_world True, Inr 0)"
    by (simp add: owned_job_def one_world_def Let_def)
  have live: "\<not> jb_execution_closed (job_at (one_world True) 0)" by (simp add: one_world_def)
  obtain w' where out: "stop_job (idle_env JS_CANCELLED) False example_turn ''20260301-1-1'' (one_world True)
      = (w', Inr (example_job JS_CANCELLED))"
    by (simp add: stop_job_def stop_body_def stop_execution_def owned_job_def registry_defs idle_env_def one_world_def
        empty_world_def example_job_def plain_snapshot_def job_terminal_def Let_def)
  from stop_outcome [OF idle_rest one_world_inv owned live this] out show ?thesis by auto
qed

section \<open>A start that fails\<close>



section \<open>A Job that outlives its closed execution\<close>



end
