(* ===== verification/Schema.thy ===== *)
theory Schema
  imports Action Json_Round Json_Number
begin

text \<open>
  The parameters of an Action against its tool schema (tinysoul/kernel/action/catalog/schema.py,
  with the feedback of prompts/kernel/action.py): the check of a schema's definition and the
  validation of a value, both over the JSON of the schema as the catalog has it. A set of names is
  iterated in the order it is written; in Python that order, and with it the name an error picks
  among several, depends on the hash seed.
\<close>

section \<open>Feedback\<close>

definition parameter_text :: "string \<Rightarrow> string \<Rightarrow> string" where
  "parameter_text path rest = ''Action parameter '' @ path @ rest"

definition invalid_oneof_definition :: string where
  "invalid_oneof_definition = ''Invalid oneOf definition''"

definition parameter_variant_mismatch :: "string \<Rightarrow> nat \<Rightarrow> string list \<Rightarrow> string" where
  "parameter_variant_mismatch path matches details =
     (if matches \<noteq> 0 then parameter_text path ('' matches '' @ show_nat matches @ '' variants; ''
         @ ''choose exactly one form from the tool definition.'')
      else parameter_text path '' matches no declared variant. '' @ py_join '' Alternative: '' details)"

definition invalid_parameter_schema_type :: "string \<Rightarrow> string" where
  "invalid_parameter_schema_type path = ''Action parameter schema type for '' @ path @ '' is invalid''"

definition parameter_type_mismatch :: "string \<Rightarrow> string \<Rightarrow> string \<Rightarrow> string" where
  "parameter_type_mismatch path expected_type actual_type =
     parameter_text path ('' must be '' @ expected_type @ ''; received '' @ actual_type @ ''. ''
       @ ''Follow this field's tool definition.'')"

definition parameter_enum_mismatch :: "string \<Rightarrow> string list \<Rightarrow> bool \<Rightarrow> string" where
  "parameter_enum_mismatch path choices is_more =
     parameter_text path ('' must be one of: '' @ py_join '', '' choices
       @ (if is_more then ''; see the tool definition for remaining values'' else []) @ ''.'')"

definition parameter_below_minimum :: "string \<Rightarrow> json \<Rightarrow> string" where
  "parameter_below_minimum path minimum = parameter_text path ('' must be >= '' @ number_str minimum)"

definition parameter_above_maximum :: "string \<Rightarrow> json \<Rightarrow> string" where
  "parameter_above_maximum path maximum = parameter_text path ('' must be <= '' @ number_str maximum)"

definition parameter_size_below_minimum :: "string \<Rightarrow> json \<Rightarrow> string" where
  "parameter_size_below_minimum path minimum = parameter_text path ('' size must be >= '' @ number_str minimum)"

definition parameter_size_above_maximum :: "string \<Rightarrow> json \<Rightarrow> string" where
  "parameter_size_above_maximum path maximum = parameter_text path ('' size must be <= '' @ number_str maximum)"

definition parameter_must_be_object :: "string \<Rightarrow> string" where
  "parameter_must_be_object path = parameter_text path '' must be object''"

definition parameter_must_be_array :: "string \<Rightarrow> string" where
  "parameter_must_be_array path = parameter_text path '' must be array''"

definition invalid_schema_properties :: "string \<Rightarrow> string" where
  "invalid_schema_properties path = ''Action parameter schema properties for '' @ path @ '' is invalid''"

definition invalid_schema_required :: "string \<Rightarrow> string" where
  "invalid_schema_required path = ''Action parameter schema required for '' @ path @ '' is invalid''"

definition missing_parameter :: "string \<Rightarrow> string" where
  "missing_parameter name = ''Missing required action parameter: '' @ name"

definition unexpected_parameter :: "string \<Rightarrow> string" where
  "unexpected_parameter name = ''Unexpected action parameter: '' @ name"

section \<open>Values\<close>

text \<open>An \<open>ActionSchemaValidationError\<close>, whose feedback is clipped.\<close>

datatype validation_error = ActionSchemaValidationError string

definition invalid_param :: "string \<Rightarrow> validation_error + 'a" where
  "invalid_param feedback = Inl (ActionSchemaValidationError (take max_failure_feedback_chars feedback))"

definition json_type :: "json \<Rightarrow> string" where
  "json_type v =
     (case v of JNull \<Rightarrow> ''null'' | JBool b \<Rightarrow> ''boolean'' | JInt i \<Rightarrow> ''integer'' | JFloat x \<Rightarrow> ''number''
      | JStr s \<Rightarrow> ''string'' | JObj kvs \<Rightarrow> ''object'' | JArr xs \<Rightarrow> ''array'')"

definition is_json_number :: "json \<Rightarrow> bool" where
  "is_json_number v = (case v of JInt i \<Rightarrow> True | JFloat x \<Rightarrow> True | _ \<Rightarrow> False)"

definition matches_json_type :: "json \<Rightarrow> string \<Rightarrow> bool" where
  "matches_json_type v expected_type =
     (if expected_type = ''number'' then is_json_number v else json_type v = expected_type)"

text \<open>The checks of a list one after the other: the first failure is the answer.\<close>

fun check_each :: "('a \<Rightarrow> 'e + unit) \<Rightarrow> 'a list \<Rightarrow> 'e + unit" where
  "check_each f [] = Inr ()"
| "check_each f (x # xs) = bind_r (f x) (\<lambda>_. check_each f xs)"

lemma check_each_cong [fundef_cong]:
  "xs = ys \<Longrightarrow> (\<And>x. x \<in> set ys \<Longrightarrow> f x = g x) \<Longrightarrow> check_each f xs = check_each g ys"
  by (induction xs arbitrary: ys) auto

lemma check_each_ok: "check_each f xs = Inr () \<longleftrightarrow> (\<forall>x \<in> set xs. f x = Inr ())"
  by (induction xs) (auto simp: bind_r_Inr_iff)

lemma bind_r_cong [fundef_cong]:
  "m = n \<Longrightarrow> (\<And>y. f y = g y) \<Longrightarrow> bind_r m f = bind_r n g"
  by (cases n) auto

text \<open>\<open>isinstance(m, int)\<close> holds of booleans.\<close>

definition int_of_json :: "json \<Rightarrow> int option" where
  "int_of_json v = (case v of JInt i \<Rightarrow> Some i | JBool b \<Rightarrow> Some (int_of_bool b) | _ \<Rightarrow> None)"

definition check_size :: "string \<Rightarrow> json_object \<Rightarrow> string \<Rightarrow> string \<Rightarrow> nat \<Rightarrow> validation_error + unit" where
  "check_size path schema lower upper n =
     bind_r (case get_value schema lower of
         Some minimum \<Rightarrow>
           (case int_of_json minimum of
              Some m \<Rightarrow> if int n < m then invalid_param (parameter_size_below_minimum path minimum) else Inr ()
            | None \<Rightarrow> Inr ())
       | None \<Rightarrow> Inr ()) (\<lambda>_.
     case get_value schema upper of
       Some maximum \<Rightarrow>
         (case int_of_json maximum of
            Some m \<Rightarrow> if m < int n then invalid_param (parameter_size_above_maximum path maximum) else Inr ()
          | None \<Rightarrow> Inr ())
     | None \<Rightarrow> Inr ())"

text \<open>The branches of \<open>oneOf\<close> after each was tried: at most three distinct details are kept.\<close>

fun variant_details :: "(validation_error + unit) list \<Rightarrow> string list \<Rightarrow> string list" where
  "variant_details [] failures = failures"
| "variant_details (Inr _ # rest) failures = variant_details rest failures"
| "variant_details (Inl (ActionSchemaValidationError feedback) # rest) failures =
     (let detail = take 320 feedback in
      variant_details rest (if detail \<notin> set failures \<and> length failures < 3 then failures @ [detail] else failures))"

definition variants_verdict :: "string \<Rightarrow> (validation_error + unit) list \<Rightarrow> validation_error + unit" where
  "variants_verdict path outcomes =
     (let matches = length (filter is_ok outcomes) in
      if matches \<noteq> 1 then
        invalid_param (parameter_variant_mismatch path matches (variant_details outcomes []))
      else Inr ())"

definition is_object :: "json \<Rightarrow> bool" where
  "is_object v = (case v of JObj kvs \<Rightarrow> True | _ \<Rightarrow> False)"

definition check_type :: "json \<Rightarrow> json_object \<Rightarrow> string \<Rightarrow> validation_error + unit" where
  "check_type v schema path =
     (case get_value schema ''type'' of
        None \<Rightarrow> Inr ()
      | Some (JStr expected_type) \<Rightarrow>
          if matches_json_type v expected_type then Inr ()
          else invalid_param (parameter_type_mismatch path expected_type (json_type v))
      | Some _ \<Rightarrow> invalid_param (invalid_parameter_schema_type path))"

definition check_enum :: "json \<Rightarrow> json_object \<Rightarrow> string \<Rightarrow> validation_error + unit" where
  "check_enum v schema path =
     (case get_value schema ''enum'' of
        Some (JArr enum_values) \<Rightarrow>
          if list_ex (json_eq v) enum_values then Inr ()
          else invalid_param (parameter_enum_mismatch path
            (map (\<lambda>item. take 120 (dumps_json item)) (take 8 enum_values)) (8 < length enum_values))
      | _ \<Rightarrow> Inr ())"

definition check_range :: "json \<Rightarrow> json_object \<Rightarrow> string \<Rightarrow> validation_error + unit" where
  "check_range v schema path =
     (if is_json_number v then
        bind_r (case get_value schema ''minimum'' of
            Some minimum \<Rightarrow>
              (case (number_of_json minimum, number_of_json v) of
                 (Some m, Some n) \<Rightarrow> if number_less n m then invalid_param (parameter_below_minimum path minimum) else Inr ()
               | _ \<Rightarrow> Inr ())
          | None \<Rightarrow> Inr ()) (\<lambda>_.
        case get_value schema ''maximum'' of
          Some maximum \<Rightarrow>
            (case (number_of_json maximum, number_of_json v) of
               (Some m, Some n) \<Rightarrow> if number_less m n then invalid_param (parameter_above_maximum path maximum) else Inr ()
             | _ \<Rightarrow> Inr ())
        | None \<Rightarrow> Inr ())
      else Inr ())"

definition check_length :: "json \<Rightarrow> json_object \<Rightarrow> string \<Rightarrow> validation_error + unit" where
  "check_length v schema path =
     (case v of
        JStr s \<Rightarrow> check_size path schema ''minLength'' ''maxLength'' (length s)
      | JArr xs \<Rightarrow> check_size path schema ''minItems'' ''maxItems'' (length xs)
      | _ \<Rightarrow> Inr ())"

text \<open>The two loops over names of \<open>_validate_object\<close>.\<close>

definition check_names ::
  "json_object \<Rightarrow> json_object \<Rightarrow> json_object \<Rightarrow> string \<Rightarrow> validation_error + unit" where
  "check_names members schema properties path =
     (case dict_get schema ''required'' (JArr []) of
        JArr required \<Rightarrow>
          bind_r (check_each (\<lambda>name. case name of
              JStr n \<Rightarrow> if n \<in> set (dict_keys members) then Inr ()
                 else invalid_param (missing_parameter (path @ ''.'' @ n))
            | _ \<Rightarrow> Inr ()) required) (\<lambda>_.
          if get_value schema ''additionalProperties'' = Some (JBool False) then
            check_each (\<lambda>name. if name \<in> set (dict_keys properties) then Inr ()
              else invalid_param (unexpected_parameter (path @ ''.'' @ name))) (dict_keys members)
          else Inr ())
      | _ \<Rightarrow> invalid_param (invalid_schema_required path))"

text \<open>A measure of JSON values; a schema's parts are smaller than the schema.\<close>

fun json_size :: "json \<Rightarrow> nat" where
  "json_size (JArr xs) = Suc (sum_list (map json_size xs))"
| "json_size (JObj kvs) = Suc (sum_list (map (\<lambda>(k, v). json_size v) kvs))"
| "json_size _ = 1"

abbreviation members_size :: "json_object \<Rightarrow> nat" where
  "members_size kvs \<equiv> sum_list (map (\<lambda>(k, v). json_size v) kvs)"

lemma json_size_mem: "(k, v) \<in> set kvs \<Longrightarrow> json_size v \<le> members_size kvs"
  by (rule member_le_sum_list; force)

lemma json_size_get: "map_of kvs k = Some v \<Longrightarrow> json_size v \<le> members_size kvs"
  by (rule json_size_mem, rule map_of_SomeD)

lemma get_value_Some: "get_value kvs k = Some v \<longleftrightarrow> map_of kvs k = Some v \<and> v \<noteq> JNull"
  by (auto simp: get_value_def split: option.splits json.splits)

lemma json_size_item: "x \<in> set xs \<Longrightarrow> json_size x \<le> sum_list (map json_size xs)"
  by (rule member_le_sum_list; simp)

lemma alternative_smaller:
  "get_value schema k = Some (JArr alternatives) \<Longrightarrow> JObj s \<in> set alternatives \<Longrightarrow> members_size s < members_size schema"
  using json_size_get [of schema k "JArr alternatives"] json_size_item [of "JObj s" alternatives]
  by (auto simp: get_value_Some)

lemma part_smaller: "get_value schema k = Some (JObj s) \<Longrightarrow> members_size s < members_size schema"
  using json_size_get [of schema k "JObj s"] by (auto simp: get_value_Some)

lemma property_smaller:
  assumes "dict_get schema k (JObj []) = JObj properties" "(name, JObj s) \<in> set properties"
  shows "members_size s < members_size schema"
proof -
  have "map_of schema k = Some (JObj properties)"
    using assms by (auto simp: dict_get_def split: option.splits)
  then show ?thesis using json_size_get [of schema k] json_size_mem [OF assms(2)] by fastforce
qed

function validate_value :: "json \<Rightarrow> json_object \<Rightarrow> string \<Rightarrow> validation_error + unit" where
  "validate_value v schema path =
     bind_r (case get_value schema ''oneOf'' of
         Some (JArr alternatives) \<Rightarrow>
           if list_all is_object alternatives then
             variants_verdict path (map (\<lambda>a. case a of JObj s \<Rightarrow> validate_value v s path | _ \<Rightarrow> Inr ()) alternatives)
           else invalid_param invalid_oneof_definition
       | _ \<Rightarrow> Inr ()) (\<lambda>_.
     bind_r (check_type v schema path) (\<lambda>_.
     bind_r (check_enum v schema path) (\<lambda>_.
     bind_r (check_range v schema path) (\<lambda>_.
     bind_r (check_length v schema path) (\<lambda>_.
     if get_value schema ''type'' = Some (JStr ''object'') then
       (case v of
          JObj members \<Rightarrow>
            bind_r (check_size path schema ''minProperties'' ''maxProperties'' (length members)) (\<lambda>_.
            case dict_get schema ''properties'' (JObj []) of
              JObj properties \<Rightarrow>
                bind_r (check_names members schema properties path) (\<lambda>_.
                check_each (\<lambda>(name, item).
                  case map_of properties name of
                    Some (JObj s) \<Rightarrow> validate_value item s (path @ ''.'' @ name)
                  | _ \<Rightarrow> Inr ()) members)
            | _ \<Rightarrow> invalid_param (invalid_schema_properties path))
        | _ \<Rightarrow> invalid_param (parameter_must_be_object path))
     else if get_value schema ''type'' = Some (JStr ''array'') then
       (case v of
          JArr items \<Rightarrow>
            (case get_value schema ''items'' of
               Some (JObj s) \<Rightarrow>
                 check_each (\<lambda>(index, item). validate_value item s (path @ ''['' @ show_nat index @ '']''))
                   (enumerate 0 items)
             | _ \<Rightarrow> Inr ())
        | _ \<Rightarrow> invalid_param (parameter_must_be_array path))
     else Inr ())))))"
  by pat_completeness auto
termination
  by (relation "measure (\<lambda>(v, schema, path). members_size schema)")
    (auto intro: alternative_smaller part_smaller property_smaller dest: map_of_SomeD)

declare validate_value.simps [simp del]

definition validate_action_params :: "json_object \<Rightarrow> json_object \<Rightarrow> validation_error + unit" where
  "validate_action_params params schema = validate_value (JObj params) schema ''params''"

section \<open>Definitions\<close>

text \<open>An \<open>ActionSchemaDefinitionError\<close>: message, key, value (null for None) and what was expected.\<close>

datatype definition_error = ActionSchemaDefinitionError string string json string

definition bad_schema :: "string \<Rightarrow> string \<Rightarrow> json \<Rightarrow> string \<Rightarrow> definition_error + 'a" where
  "bad_schema message key value expected = Inl (ActionSchemaDefinitionError message key value expected)"

definition supported_schema_keys :: "string list" where
  "supported_schema_keys =
     [''additionalProperties'', ''default'', ''description'', ''enum'', ''items'', ''maxItems'', ''maxLength'',
      ''maxProperties'', ''maximum'', ''minItems'', ''minLength'', ''minProperties'', ''minimum'', ''oneOf'',
      ''properties'', ''required'', ''type'']"

definition supported_types :: "string list" where
  "supported_types = [''array'', ''boolean'', ''integer'', ''null'', ''number'', ''object'', ''string'']"

definition json_or_null :: "json option \<Rightarrow> json" where
  "json_or_null v = (case v of None \<Rightarrow> JNull | Some j \<Rightarrow> j)"

definition check_keywords :: "json_object \<Rightarrow> string \<Rightarrow> definition_error + unit" where
  "check_keywords schema key = check_each (\<lambda>name.
     if name \<in> set supported_schema_keys then Inr ()
     else bad_schema ''Action tool schema keyword is not supported'' (key @ ''.'' @ name) (JStr name)
       (py_join '', '' supported_schema_keys)) (dict_keys schema)"

definition check_type_keyword :: "json_object \<Rightarrow> string \<Rightarrow> bool \<Rightarrow> definition_error + unit" where
  "check_type_keyword schema key is_root =
     (let schema_type = get_value schema ''type'' in
      if is_root \<and> schema_type \<noteq> Some (JStr ''object'') then
        bad_schema ''Action tool schema root type must be object'' (key @ ''.type'') (json_or_null schema_type) ''object''
      else
        (case schema_type of
           None \<Rightarrow> Inr ()
         | Some t \<Rightarrow>
             if (case t of JStr s \<Rightarrow> s \<in> set supported_types | _ \<Rightarrow> False) then Inr ()
             else bad_schema ''Action tool schema type is not supported'' (key @ ''.type'') t
               (py_join '', '' supported_types)))"

definition check_annotations :: "json_object \<Rightarrow> string \<Rightarrow> definition_error + unit" where
  "check_annotations schema key =
     bind_r (case get_value schema ''description'' of
         None \<Rightarrow> Inr () | Some (JStr s) \<Rightarrow> Inr ()
       | Some d \<Rightarrow> bad_schema ''Action tool schema description must be a string'' (key @ ''.description'') d ''str'') (\<lambda>_.
     case get_value schema ''enum'' of
       None \<Rightarrow> Inr () | Some (JArr xs) \<Rightarrow> Inr ()
     | Some e \<Rightarrow> bad_schema ''Action tool schema enum must be a list'' (key @ ''.enum'') e ''list'')"

definition check_numeric_boundaries :: "json_object \<Rightarrow> string \<Rightarrow> definition_error + unit" where
  "check_numeric_boundaries schema key =
     (case filter (\<lambda>name. name \<in> set (dict_keys schema)) [''minimum'', ''maximum''] of
        [] \<Rightarrow> Inr ()
      | first # others \<Rightarrow>
          if get_value schema ''type'' \<notin> {Some (JStr ''integer''), Some (JStr ''number'')} then
            bad_schema ''Action tool schema numeric boundary requires a numeric type'' (key @ ''.'' @ first)
              (json_or_null (map_of schema first)) ''integer or number schema''
          else
            bind_r (check_each (\<lambda>name.
              if is_json_number (json_or_null (map_of schema name)) then Inr ()
              else bad_schema ''Action tool schema numeric boundary must be a number'' (key @ ''.'' @ name)
                (json_or_null (map_of schema name)) ''int or float'') (first # others)) (\<lambda>_.
            case (get_value schema ''minimum'', get_value schema ''maximum'') of
              (Some minimum, Some maximum) \<Rightarrow>
                (case (number_of_json minimum, number_of_json maximum) of
                   (Some m, Some n) \<Rightarrow>
                     if is_json_number minimum \<and> is_json_number maximum \<and> number_less n m then
                       bad_schema ''Action tool schema numeric boundaries are inconsistent'' (key @ ''.minimum'') minimum
                         (''<= '' @ number_str maximum)
                     else Inr ()
                 | _ \<Rightarrow> Inr ())
            | _ \<Rightarrow> Inr ()))"

definition size_keywords :: "(string \<times> string \<times> string) list" where
  "size_keywords = [(''array'', ''minItems'', ''maxItems''), (''object'', ''minProperties'', ''maxProperties''),
     (''string'', ''minLength'', ''maxLength'')]"

definition check_size_keyword :: "json_object \<Rightarrow> string \<Rightarrow> string \<Rightarrow> string \<Rightarrow> definition_error + unit" where
  "check_size_keyword schema key expected_type name =
     (case map_of schema name of
        None \<Rightarrow> Inr ()
      | Some value \<Rightarrow>
          if get_value schema ''type'' \<noteq> Some (JStr expected_type) then
            bad_schema ''Action tool schema size boundary requires its matching type'' (key @ ''.'' @ name) JNull expected_type
          else if (case value of JInt i \<Rightarrow> i < 0 | _ \<Rightarrow> True) then
            bad_schema ''Action tool schema size boundary must be a non-negative integer'' (key @ ''.'' @ name) value
              ''non-negative int''
          else Inr ())"

definition check_size_boundaries :: "json_object \<Rightarrow> string \<Rightarrow> definition_error + unit" where
  "check_size_boundaries schema key = check_each (\<lambda>(expected_type, lower, upper).
     bind_r (check_size_keyword schema key expected_type lower) (\<lambda>_.
     bind_r (check_size_keyword schema key expected_type upper) (\<lambda>_.
     case (get_value schema lower, get_value schema upper) of
       (Some minimum, Some maximum) \<Rightarrow>
         (case (int_of_json minimum, int_of_json maximum) of
            (Some m, Some n) \<Rightarrow>
              if n < m then
                bad_schema ''Action tool schema size boundaries are inconsistent'' (key @ ''.'' @ lower) minimum
                  (''<= '' @ number_str maximum)
              else Inr ()
          | _ \<Rightarrow> Inr ())
     | _ \<Rightarrow> Inr ()))) size_keywords"

definition reject_schema_keys :: "json_object \<Rightarrow> string list \<Rightarrow> string \<Rightarrow> definition_error + unit" where
  "reject_schema_keys schema names key = check_each (\<lambda>name.
     if name \<in> set (dict_keys schema) then
       bad_schema ''Action tool schema keyword is not valid for this type'' (key @ ''.'' @ name) (JStr name)
         ''keyword compatible with schema type''
     else Inr ()) names"

definition check_required :: "json_object \<Rightarrow> json_object \<Rightarrow> string \<Rightarrow> definition_error + unit" where
  "check_required schema properties key =
     (case dict_get schema ''required'' (JArr []) of
        JArr required \<Rightarrow> check_each (\<lambda>item.
          case item of
            JStr (c # cs) \<Rightarrow>
              if c # cs \<in> set (dict_keys properties) then Inr ()
              else bad_schema ''Action tool schema required field must be declared in properties'' (key @ ''.required'')
                item ''declared property name''
          | _ \<Rightarrow> bad_schema ''Action tool schema required must contain non-empty strings'' (key @ ''.required'')
              (JArr required) ''list[str]'') required
      | r \<Rightarrow> bad_schema ''Action tool schema required must be a list of strings'' (key @ ''.required'') r ''list[str]'')"

definition check_additional :: "json_object \<Rightarrow> string \<Rightarrow> definition_error + unit" where
  "check_additional schema key =
     (case dict_get schema ''additionalProperties'' (JBool True) of
        JBool b \<Rightarrow> Inr ()
      | a \<Rightarrow> bad_schema ''Action tool schema additionalProperties must be boolean'' (key @ ''.additionalProperties'') a ''bool'')"

definition check_default :: "json_object \<Rightarrow> string \<Rightarrow> definition_error + unit" where
  "check_default schema key =
     (case map_of schema ''default'' of
        None \<Rightarrow> Inr ()
      | Some d \<Rightarrow>
          (case validate_value d schema (key @ ''.default'') of
             Inr _ \<Rightarrow> Inr ()
           | Inl _ \<Rightarrow> bad_schema ''Action tool schema default does not satisfy its schema'' (key @ ''.default'') d
               ''value accepted by the containing schema''))"

lemma in_enumerate: "(i, x) \<in> set (enumerate n xs) \<Longrightarrow> x \<in> set xs"
  by (simp add: enumerate_eq_zip set_zip_rightD)

function check_schema_node :: "json_object \<Rightarrow> string \<Rightarrow> bool \<Rightarrow> definition_error + unit" where
  "check_schema_node schema key is_root =
     bind_r (check_keywords schema key) (\<lambda>_.
     bind_r (case get_value schema ''oneOf'' of
         None \<Rightarrow> Inr ()
       | Some (JArr (first # others)) \<Rightarrow>
           check_each (\<lambda>(index, a). case a of
             JObj s \<Rightarrow> check_schema_node s (key @ ''.oneOf.'' @ show_nat index) False
           | _ \<Rightarrow> bad_schema ''oneOf alternatives must be objects'' (key @ ''.oneOf.'' @ show_nat index) JNull [])
             (enumerate 0 (first # others))
       | _ \<Rightarrow> bad_schema ''oneOf requires nonempty schema alternatives'' (key @ ''.oneOf'') JNull []) (\<lambda>_.
     bind_r (check_type_keyword schema key is_root) (\<lambda>_.
     bind_r (check_annotations schema key) (\<lambda>_.
     bind_r (check_numeric_boundaries schema key) (\<lambda>_.
     bind_r (check_size_boundaries schema key) (\<lambda>_.
     bind_r (if get_value schema ''type'' = Some (JStr ''object'') \<or> is_root then
         bind_r (reject_schema_keys schema [''items''] key) (\<lambda>_.
         case dict_get schema ''properties'' (JObj []) of
           JObj properties \<Rightarrow>
             bind_r (check_each (\<lambda>(name, p). case p of
               JObj s \<Rightarrow> check_schema_node s (key @ ''.properties.'' @ name) False
             | _ \<Rightarrow> bad_schema ''Action tool property schema must be an object'' (key @ ''.properties.'' @ name) p ''object'')
               properties) (\<lambda>_.
             bind_r (check_required schema properties key) (\<lambda>_.
             check_additional schema key))
         | p \<Rightarrow> bad_schema ''Action tool schema properties must be an object'' (key @ ''.properties'') p ''object'')
       else if get_value schema ''type'' = Some (JStr ''array'') then
         bind_r (reject_schema_keys schema [''properties'', ''required'', ''additionalProperties''] key) (\<lambda>_.
         case get_value schema ''items'' of
           None \<Rightarrow> Inr ()
         | Some (JObj s) \<Rightarrow> check_schema_node s (key @ ''.items'') False
         | Some i \<Rightarrow> bad_schema ''Action tool schema items must be an object'' (key @ ''.items'') i ''object'')
       else reject_schema_keys schema [''properties'', ''required'', ''additionalProperties'', ''items''] key) (\<lambda>_.
     check_default schema key)))))))"
  by pat_completeness auto
termination
  by (relation "measure (\<lambda>(schema, key, is_root). members_size schema)")
    (auto simp del: enumerate_simps intro: alternative_smaller part_smaller property_smaller dest!: in_enumerate)

declare check_schema_node.simps [simp del]

definition validate_schema_definition :: "json_object \<Rightarrow> string \<Rightarrow> definition_error + unit" where
  "validate_schema_definition schema key = check_schema_node schema key True"

end
