(* ===== verification/Catalog.thy ===== *)
theory Catalog
  imports Schema Job_Models Messages
begin

text \<open>
  The Action catalog (tinysoul/kernel/action/catalog: specs.py, catalog.py): the specification of
  an Action with the checks of each constructor, the catalog with its views, and the visibility
  policy that selects Actions for a scenario (kernel/action/config.py, class ActionPolicy).
\<close>

text \<open>
  The exceptions the Action module raises while it is assembled and asked: \<open>ActionContractError\<close>,
  \<open>ActionInvariantError\<close>, the error of a schema's definition, the configuration error and the
  error of the model protocol.
\<close>

datatype engine_error =
    EngineContract string
  | EngineInvariant string
  | EngineDefinition definition_error
  | EngineConfig config_error
  | EngineLLM llm_error

definition of_action :: "action_error + 'a \<Rightarrow> engine_error + 'a" where
  "of_action r = map_sum (\<lambda>e. case e of ActionInvariantError m \<Rightarrow> EngineInvariant m) id r"

definition of_llm :: "llm_error + 'a \<Rightarrow> engine_error + 'a" where
  "of_llm r = map_sum EngineLLM id r"

lemma of_action_Inr [simp]: "of_action r = Inr x \<longleftrightarrow> r = Inr x"
  by (cases r) (simp_all add: of_action_def)

lemma of_llm_Inr [simp]: "of_llm r = Inr x \<longleftrightarrow> r = Inr x"
  by (cases r) (simp_all add: of_llm_def)

lemma of_ok [simp]: "of_action (Inr x) = Inr x" "of_llm (Inr x) = Inr x"
  by (simp_all add: of_action_def of_llm_def)

section \<open>Specifications\<close>

datatype environment_effect = EE_READ_ONLY | EE_ADDITIVE | EE_MODIFYING

fun effect_value :: "environment_effect \<Rightarrow> string" where
  "effect_value EE_READ_ONLY = ''read_only''"
| "effect_value EE_ADDITIVE = ''additive''"
| "effect_value EE_MODIFYING = ''modifying''"

datatype parallel_policy = PP_ALLOWED | PP_SERIAL

definition require_spec_name :: "string \<Rightarrow> string \<Rightarrow> engine_error + unit" where
  "require_spec_name value label =
     (if value = [] then Inl (EngineInvariant (label @ '' must be non-empty'')) else Inr ())"

definition str_tuple :: "string list \<Rightarrow> string \<Rightarrow> engine_error + string list" where
  "str_tuple strings label =
     (if [] \<in> set strings then Inl (EngineInvariant (label @ '' must contain non-empty strings''))
      else Inr strings)"

record visibility_spec =
  vs_default :: "bool option"
  vs_scenarios :: "(string \<times> bool) list"

definition mk_visibility_spec :: "visibility_spec \<Rightarrow> engine_error + visibility_spec" where
  "mk_visibility_spec v =
     (if list_ex (\<lambda>(name, enabled). name = []) (vs_scenarios v)
      then Inl (EngineInvariant ''ActionVisibilitySpec.scenarios must be named booleans'')
      else if length (remdups (dict_keys (vs_scenarios v))) \<noteq> length (vs_scenarios v)
      then Inl (EngineInvariant ''ActionVisibilitySpec.scenarios must be unique'')
      else Inr v)"

definition for_scenario :: "visibility_spec \<Rightarrow> string \<Rightarrow> bool option" where
  "for_scenario v scenario = map_of (vs_scenarios v) scenario"

record domain_spec =
  ds_name :: string
  ds_description :: string
  ds_selection_hint :: string
  ds_visibility :: visibility_spec

definition mk_domain_spec :: "domain_spec \<Rightarrow> engine_error + domain_spec" where
  "mk_domain_spec d =
     bind_r (require_spec_name (ds_name d) ''ActionDomainSpec.name'') (\<lambda>_.
     if ds_description d = [] then Inl (EngineInvariant ''ActionDomainSpec.description must be non-empty'')
     else Inr d)"

record action_tool =
  at_name :: string
  at_description :: string
  at_schema :: json_object

definition mk_action_tool :: "action_tool \<Rightarrow> engine_error + action_tool" where
  "mk_action_tool t =
     bind_r (require_spec_name (at_name t) ''ActionToolSpec.name'') (\<lambda>_.
     if at_description t = [] then Inl (EngineInvariant ''ActionToolSpec.description must be non-empty'')
     else (case validate_schema_definition (at_schema t) (''ActionToolSpec('' @ at_name t @ '').schema'') of
         Inl e \<Rightarrow> Inl (EngineDefinition e)
       | Inr _ \<Rightarrow> Inr t))"

record semantic_spec =
  sm_use_when :: "string list"
  sm_avoid_when :: "string list"
  sm_effects :: "environment_effect list"
  sm_examples :: "string list"

definition mk_semantic_spec :: "semantic_spec \<Rightarrow> engine_error + semantic_spec" where
  "mk_semantic_spec s =
     bind_r (str_tuple (sm_use_when s) ''ActionSemanticSpec.use_when'') (\<lambda>_.
     bind_r (str_tuple (sm_avoid_when s) ''ActionSemanticSpec.avoid_when'') (\<lambda>_.
     bind_r (str_tuple (sm_examples s) ''ActionSemanticSpec.examples'') (\<lambda>_. Inr s)))"

record hook_spec =
  hk_normalize :: "string list"
  hk_execution :: "string list"

definition mk_hook_spec :: "hook_spec \<Rightarrow> engine_error + hook_spec" where
  "mk_hook_spec h =
     bind_r (str_tuple (hk_normalize h) ''ActionHookSpec.normalize_hooks'') (\<lambda>_.
     bind_r (str_tuple (hk_execution h) ''ActionHookSpec.execution_hooks'') (\<lambda>_. Inr h))"

record runtime_spec =
  rs_timeout_seconds :: "rat option"
  rs_parallel_policy :: parallel_policy
  rs_hooks :: hook_spec
  rs_trace_mode :: trace_mode

definition mk_runtime_spec :: "runtime_spec \<Rightarrow> engine_error + runtime_spec" where
  "mk_runtime_spec r =
     (if (case rs_timeout_seconds r of None \<Rightarrow> False | Some t \<Rightarrow> t \<le> 0)
      then Inl (EngineInvariant ''ActionRuntimeSpec.timeout_seconds must be positive'')
      else Inr r)"

record execution_spec =
  xs_executor :: string
  xs_options :: json_object

definition mk_execution_spec :: "execution_spec \<Rightarrow> engine_error + execution_spec" where
  "mk_execution_spec x =
     bind_r (require_spec_name (xs_executor x) ''ActionExecutionSpec.executor'') (\<lambda>_. Inr x)"

record action_spec =
  sp_name :: string
  sp_domain :: string
  sp_tool :: action_tool
  sp_semantic :: semantic_spec
  sp_runtime :: runtime_spec
  sp_execution :: execution_spec
  sp_visibility :: visibility_spec

definition mk_action_spec :: "action_spec \<Rightarrow> engine_error + action_spec" where
  "mk_action_spec a =
     bind_r (require_spec_name (sp_name a) ''ActionSpec.name'') (\<lambda>_.
     bind_r (require_spec_name (sp_domain a) ''ActionSpec.domain'') (\<lambda>_.
     if at_name (sp_tool a) \<noteq> sp_name a
     then Inl (EngineInvariant ''ActionSpec.tool.name must match ActionSpec.name'')
     else Inr a))"

text \<open>What the constructors of an Action's parts establish together.\<close>

definition wf_action_spec :: "action_spec \<Rightarrow> bool" where
  "wf_action_spec a \<longleftrightarrow>
     mk_action_spec a = Inr a \<and> mk_action_tool (sp_tool a) = Inr (sp_tool a)
     \<and> mk_semantic_spec (sp_semantic a) = Inr (sp_semantic a)
     \<and> mk_hook_spec (rs_hooks (sp_runtime a)) = Inr (rs_hooks (sp_runtime a))
     \<and> mk_runtime_spec (sp_runtime a) = Inr (sp_runtime a)
     \<and> mk_execution_spec (sp_execution a) = Inr (sp_execution a)
     \<and> mk_visibility_spec (sp_visibility a) = Inr (sp_visibility a)"

section \<open>The catalog\<close>

record catalog =
  ca_domains :: "(string \<times> domain_spec) list"
  ca_actions :: "(string \<times> action_spec) list"

definition register_domain :: "catalog \<Rightarrow> domain_spec \<Rightarrow> engine_error + catalog" where
  "register_domain c d =
     (if ds_name d \<in> set (dict_keys (ca_domains c))
      then Inl (EngineInvariant (''Duplicate action domain: '' @ ds_name d))
      else Inr (c\<lparr>ca_domains := AList.update (ds_name d) d (ca_domains c)\<rparr>))"

definition register_action :: "catalog \<Rightarrow> action_spec \<Rightarrow> engine_error + catalog" where
  "register_action c a =
     (if sp_name a \<in> set (dict_keys (ca_actions c))
      then Inl (EngineInvariant (''Duplicate action: '' @ sp_name a))
      else if sp_domain a \<notin> set (dict_keys (ca_domains c))
      then Inl (EngineInvariant (''Action '' @ [CHR 0x27] @ sp_name a @ [CHR 0x27]
        @ '' references unknown domain: '' @ sp_domain a))
      else if \<not> py_startswith (sp_name a) (sp_domain a @ ''.'')
      then Inl (EngineInvariant (''Action '' @ [CHR 0x27] @ sp_name a @ [CHR 0x27]
        @ '' must use the '' @ [CHR 0x27] @ sp_domain a @ ''.'' @ [CHR 0x27] @ '' namespace''))
      else Inr (c\<lparr>ca_actions := AList.update (sp_name a) a (ca_actions c)\<rparr>))"

fun register_all :: "('c \<Rightarrow> 'a \<Rightarrow> 'e + 'c) \<Rightarrow> 'c \<Rightarrow> 'a list \<Rightarrow> 'e + 'c" where
  "register_all f c [] = Inr c"
| "register_all f c (x # xs) = bind_r (f c x) (\<lambda>c'. register_all f c' xs)"

definition mk_catalog :: "domain_spec list \<Rightarrow> action_spec list \<Rightarrow> engine_error + catalog" where
  "mk_catalog domains actions =
     bind_r (register_all register_domain \<lparr>ca_domains = [], ca_actions = []\<rparr> domains) (\<lambda>c.
     register_all register_action c actions)"

definition catalog_domains :: "catalog \<Rightarrow> domain_spec list" where
  "catalog_domains c = map snd (sort_key fst (ca_domains c))"

definition catalog_actions :: "catalog \<Rightarrow> action_spec list" where
  "catalog_actions c = map snd (sort_key fst (ca_actions c))"

definition get_domain :: "catalog \<Rightarrow> string \<Rightarrow> engine_error + domain_spec" where
  "get_domain c name =
     (case map_of (ca_domains c) name of
        None \<Rightarrow> Inl (EngineContract (''Unknown action domain: '' @ name)) | Some d \<Rightarrow> Inr d)"

definition get_action :: "catalog \<Rightarrow> string \<Rightarrow> engine_error + action_spec" where
  "get_action c name =
     (case map_of (ca_actions c) name of
        None \<Rightarrow> Inl (EngineContract (''Unknown action: '' @ name)) | Some a \<Rightarrow> Inr a)"

definition has_domain :: "catalog \<Rightarrow> string \<Rightarrow> bool" where
  "has_domain c name = (name \<in> set (dict_keys (ca_domains c)))"

definition has_action :: "catalog \<Rightarrow> string \<Rightarrow> bool" where
  "has_action c name = (name \<in> set (dict_keys (ca_actions c)))"

definition actions_in_domain :: "catalog \<Rightarrow> string \<Rightarrow> engine_error + action_spec list" where
  "actions_in_domain c name =
     bind_r (get_domain c name) (\<lambda>_. Inr (filter (\<lambda>a. sp_domain a = name) (catalog_actions c)))"

definition with_domains :: "catalog \<Rightarrow> string list \<Rightarrow> engine_error + catalog" where
  "with_domains c names =
     bind_r (traverse (get_domain c) names) (\<lambda>domains.
     mk_catalog domains (filter (\<lambda>a. sp_domain a \<in> set names) (catalog_actions c)))"

definition with_actions :: "catalog \<Rightarrow> string list \<Rightarrow> engine_error + catalog" where
  "with_actions c names =
     bind_r (traverse (get_action c) names) (\<lambda>actions.
     bind_r (traverse (get_domain c) (sort (remdups (map sp_domain actions)))) (\<lambda>domains.
     mk_catalog domains actions))"

section \<open>Visibility\<close>

record action_selection =
  sl_enabled :: bool
  sl_source :: string

fun first_choice :: "(bool option \<times> string) list \<Rightarrow> action_selection" where
  "first_choice [] = \<lparr>sl_enabled = True, sl_source = ''default''\<rparr>"
| "first_choice ((Some value, source) # rest) = \<lparr>sl_enabled = value, sl_source = source\<rparr>"
| "first_choice ((None, source) # rest) = first_choice rest"

definition policy_selection :: "catalog \<Rightarrow> action_spec \<Rightarrow> string \<Rightarrow> engine_error + action_selection" where
  "policy_selection c a scenario =
     bind_r (get_domain c (sp_domain a)) (\<lambda>d.
     Inr (first_choice
       [(for_scenario (sp_visibility a) scenario, ''action.visibility.scenarios.'' @ scenario),
        (for_scenario (ds_visibility d) scenario, ''domain.visibility.scenarios.'' @ scenario),
        (vs_default (sp_visibility a), ''action.visibility.default''),
        (vs_default (ds_visibility d), ''domain.visibility.default'')]))"

definition check_scenarios :: "string list \<Rightarrow> string \<Rightarrow> visibility_spec \<Rightarrow> engine_error + unit" where
  "check_scenarios scenarios name v =
     (if list_ex (\<lambda>(s, enabled). s \<notin> set scenarios) (vs_scenarios v)
      then Inl (EngineConfig (ConfigError ''Unknown Action visibility scenario'' (name @ ''.visibility.scenarios'') None))
      else Inr ())"

definition policy_validate ::
  "catalog \<Rightarrow> string list \<Rightarrow> string \<Rightarrow> string list \<Rightarrow> engine_error + unit" where
  "policy_validate c granted scenario scenarios =
     (if scenario \<notin> set scenarios
      then Inl (EngineConfig (ConfigError ''Unknown Action scenario'' ''action.scenario'' (Some (PyStr scenario))))
      else
        bind_r (check_each (\<lambda>d. check_scenarios scenarios (ds_name d) (ds_visibility d)) (catalog_domains c)) (\<lambda>_.
        bind_r (check_each (\<lambda>a. check_scenarios scenarios (sp_name a) (sp_visibility a)) (catalog_actions c)) (\<lambda>_.
        check_each (\<lambda>a.
          if for_scenario (sp_visibility a) scenario = Some True \<and> sp_name a \<notin> set granted then
            Inl (EngineConfig (ConfigError ''Action scenario selection cannot grant an operation''
              (sp_name a @ ''.visibility.scenarios.'' @ scenario) None))
          else Inr ()) (catalog_actions c))))"

section \<open>What a catalog is\<close>

definition wf_catalog :: "catalog \<Rightarrow> bool" where
  "wf_catalog c \<longleftrightarrow>
     distinct (dict_keys (ca_domains c)) \<and> distinct (dict_keys (ca_actions c))
     \<and> (\<forall>(n, d) \<in> set (ca_domains c). n = ds_name d)
     \<and> (\<forall>(n, a) \<in> set (ca_actions c). n = sp_name a \<and> sp_domain a \<in> set (dict_keys (ca_domains c))
          \<and> py_startswith (sp_name a) (sp_domain a @ ''.''))"

abbreviation by_name :: "('a \<Rightarrow> string) \<Rightarrow> 'a list \<Rightarrow> (string \<times> 'a) list" where
  "by_name name xs \<equiv> map (\<lambda>x. (name x, x)) xs"

lemma register_domains:
  "register_all register_domain c ds = Inr c' \<longleftrightarrow>
     distinct (map ds_name ds) \<and> set (map ds_name ds) \<inter> set (dict_keys (ca_domains c)) = {}
     \<and> c' = c\<lparr>ca_domains := ca_domains c @ by_name ds_name ds\<rparr>"
  by (induction ds arbitrary: c) (auto simp: register_domain_def bind_r_Inr_iff update_fresh)

lemma register_actions:
  "register_all register_action c as = Inr c' \<longleftrightarrow>
     distinct (map sp_name as) \<and> set (map sp_name as) \<inter> set (dict_keys (ca_actions c)) = {}
     \<and> (\<forall>a \<in> set as. sp_domain a \<in> set (dict_keys (ca_domains c))
          \<and> py_startswith (sp_name a) (sp_domain a @ ''.''))
     \<and> c' = c\<lparr>ca_actions := ca_actions c @ by_name sp_name as\<rparr>"
  by (induction as arbitrary: c) (auto simp: register_action_def bind_r_Inr_iff update_fresh)

lemma mk_catalog_Inr:
  "mk_catalog ds as = Inr c \<longleftrightarrow>
     distinct (map ds_name ds) \<and> distinct (map sp_name as)
     \<and> (\<forall>a \<in> set as. sp_domain a \<in> ds_name ` set ds \<and> py_startswith (sp_name a) (sp_domain a @ ''.''))
     \<and> c = \<lparr>ca_domains = by_name ds_name ds, ca_actions = by_name sp_name as\<rparr>"
  by (auto simp: mk_catalog_def bind_r_Inr_iff register_domains register_actions comp_def image_image)

lemma mk_catalog_wf: "mk_catalog ds as = Inr c \<Longrightarrow> wf_catalog c"
  by (auto simp: mk_catalog_Inr wf_catalog_def comp_def image_image)

lemma set_catalog_actions: "set (catalog_actions c) = snd ` set (ca_actions c)"
  by (simp add: catalog_actions_def)

lemma set_catalog_domains: "set (catalog_domains c) = snd ` set (ca_domains c)"
  by (simp add: catalog_domains_def)

lemma get_action_mem: "get_action c n = Inr a \<Longrightarrow> (n, a) \<in> set (ca_actions c)"
  by (auto simp: get_action_def split: option.splits dest: map_of_SomeD)

lemma get_domain_mem: "get_domain c n = Inr d \<Longrightarrow> (n, d) \<in> set (ca_domains c)"
  by (auto simp: get_domain_def split: option.splits dest: map_of_SomeD)

lemma get_action_wf:
  assumes "wf_catalog c" "get_action c n = Inr a"
  shows "sp_name a = n" "sp_domain a \<in> set (dict_keys (ca_domains c))" "py_startswith n (sp_domain a @ ''.'')"
  using assms get_action_mem [OF assms(2)] by (auto simp: wf_catalog_def)

lemma get_action_of_mem: "wf_catalog c \<Longrightarrow> (n, a) \<in> set (ca_actions c) \<Longrightarrow> get_action c n = Inr a"
  by (auto simp: wf_catalog_def get_action_def map_of_is_SomeI)

lemma has_action_iff: "has_action c n \<longleftrightarrow> (\<exists>a. get_action c n = Inr a)"
proof (cases "map_of (ca_actions c) n")
  case None
  then show ?thesis using map_of_eq_None_iff [of "ca_actions c" n] by (simp add: has_action_def get_action_def)
next
  case (Some a)
  then show ?thesis using map_of_eq_None_iff [of "ca_actions c" n] by (simp add: has_action_def get_action_def)
qed

lemma has_domain_get: "wf_catalog c \<Longrightarrow> has_domain c n \<Longrightarrow> \<exists>d. get_domain c n = Inr d \<and> ds_name d = n"
  by (auto simp: wf_catalog_def has_domain_def get_domain_def map_of_is_SomeI)

lemma traverse_get:
  "traverse f xs = Inr ys \<Longrightarrow> list_all2 (\<lambda>x y. f x = Inr y) xs ys"
  by (induction xs arbitrary: ys) (auto split: sum.splits)

lemma traverse_total: "(\<And>x. x \<in> set xs \<Longrightarrow> is_ok (f x)) \<Longrightarrow> is_ok (traverse f xs)"
proof (induction xs)
  case (Cons x xs)
  then have "is_ok (f x)" "is_ok (traverse f xs)" by simp_all
  then show ?case by (cases "f x"; cases "traverse f xs") simp_all
qed simp

lemma list_all2_names:
  "list_all2 (\<lambda>x y. f x = Inr y) xs ys \<Longrightarrow> (\<And>x y. f x = Inr y \<Longrightarrow> name y = x) \<Longrightarrow> map name ys = xs"
  by (induction rule: list_all2_induct) auto

text \<open>A view holds exactly the Actions named, each as the catalog has it, under their domains.\<close>

lemma with_actions_Inr:
  assumes wf: "wf_catalog c" and view: "with_actions c names = Inr v"
  shows "wf_catalog v" "dict_keys (ca_actions v) = names"
    "n \<in> set names \<Longrightarrow> get_action v n = get_action c n"
    "set (dict_keys (ca_domains v)) = {d. \<exists>n \<in> set names. \<exists>a. get_action c n = Inr a \<and> d = sp_domain a}"
proof -
  obtain as ds where as: "traverse (get_action c) names = Inr as"
    and ds: "traverse (get_domain c) (sort (remdups (map sp_domain as))) = Inr ds"
    and v: "mk_catalog ds as = Inr v"
    using view by (auto simp: with_actions_def bind_r_Inr_iff)
  show "wf_catalog v" using v by (rule mk_catalog_wf)
  have names: "map sp_name as = names"
    by (rule list_all2_names [OF traverse_get [OF as]]) (rule get_action_wf(1) [OF wf])
  then show keys: "dict_keys (ca_actions v) = names"
    using v by (auto simp: mk_catalog_Inr comp_def)
  have dnames: "map ds_name ds = sort (remdups (map sp_domain as))"
    by (rule list_all2_names [OF traverse_get [OF ds]])
      (use wf get_domain_mem in \<open>fastforce simp: wf_catalog_def\<close>)
  have mem: "\<exists>a \<in> set as. get_action c n = Inr a \<and> sp_name a = n" if "n \<in> set names" for n
    using traverse_get [OF as] that get_action_wf(1) [OF wf]
    by (auto simp: list_all2_conv_all_nth in_set_conv_nth)
  show "n \<in> set names \<Longrightarrow> get_action v n = get_action c n"
  proof -
    assume "n \<in> set names"
    then obtain a where a: "a \<in> set as" "get_action c n = Inr a" "sp_name a = n" using mem by blast
    then have "(n, a) \<in> set (ca_actions v)" using v by (auto simp: mk_catalog_Inr)
    then show ?thesis using a get_action_of_mem [OF mk_catalog_wf [OF v]] by simp
  qed
  have "set (dict_keys (ca_domains v)) = set (map ds_name ds)"
    using v by (auto simp: mk_catalog_Inr)
  also have "\<dots> = sp_domain ` set as" using dnames by simp
  also have "\<dots> = {d. \<exists>n \<in> set names. \<exists>a. get_action c n = Inr a \<and> d = sp_domain a}"
    using traverse_get [OF as] by (fastforce simp: list_all2_conv_all_nth in_set_conv_nth image_iff)
  finally show "set (dict_keys (ca_domains v)) = {d. \<exists>n \<in> set names. \<exists>a. get_action c n = Inr a \<and> d = sp_domain a}" .
qed

lemma with_actions_total:
  assumes wf: "wf_catalog c" and "distinct names" "\<And>n. n \<in> set names \<Longrightarrow> has_action c n"
  shows "is_ok (with_actions c names)"
proof -
  have "is_ok (traverse (get_action c) names)"
    by (rule traverse_total) (use assms(3) in \<open>fastforce simp: has_action_iff\<close>)
  then obtain as where as: "traverse (get_action c) names = Inr as"
    by (cases "traverse (get_action c) names") auto
  have each: "get_action c (sp_name a) = Inr a" if "a \<in> set as" for a
    using traverse_get [OF as] that get_action_wf(1) [OF wf]
    by (fastforce simp: list_all2_conv_all_nth in_set_conv_nth)
  have names: "map sp_name as = names"
    by (rule list_all2_names [OF traverse_get [OF as]]) (rule get_action_wf(1) [OF wf])
  have "is_ok (traverse (get_domain c) (sort (remdups (map sp_domain as))))"
  proof (rule traverse_total)
    fix d assume "d \<in> set (sort (remdups (map sp_domain as)))"
    then obtain a where "a \<in> set as" "d = sp_domain a" by auto
    then have "has_domain c d" using get_action_wf(2) [OF wf each] by (simp add: has_domain_def)
    then show "is_ok (get_domain c d)" using has_domain_get [OF wf] by fastforce
  qed
  then obtain ds where ds: "traverse (get_domain c) (sort (remdups (map sp_domain as))) = Inr ds"
    by (cases "traverse (get_domain c) (sort (remdups (map sp_domain as)))") auto
  have dnames: "map ds_name ds = sort (remdups (map sp_domain as))"
    by (rule list_all2_names [OF traverse_get [OF ds]])
      (use wf get_domain_mem in \<open>fastforce simp: wf_catalog_def\<close>)
  have "distinct (map ds_name ds)" using dnames by simp
  moreover have "ds_name ` set ds = sp_domain ` set as" using dnames by (metis set_map set_remdups set_sort)
  ultimately have "\<exists>v. mk_catalog ds as = Inr v"
    using names assms(2) each get_action_wf(3) [OF wf] by (fastforce simp: mk_catalog_Inr)
  then show ?thesis using as ds by (auto simp: with_actions_def)
qed

end
