(* ===== verification/Schema_Properties.thy ===== *)
theory Schema_Properties
  imports Schema
begin

text \<open>
  What a checked tool schema means: each keyword constrains a value on its own, without the order,
  the paths and the messages of \<open>validate_value\<close>, which decides just that.
\<close>

section \<open>The meaning of a schema\<close>

definition within_range :: "json_object \<Rightarrow> json \<Rightarrow> bool" where
  "within_range schema v =
     (case (is_json_number v, number_of_json v) of
        (True, Some n) \<Rightarrow>
          \<not> (case Option.bind (get_value schema ''minimum'') number_of_json of None \<Rightarrow> False | Some m \<Rightarrow> number_less n m)
          \<and> \<not> (case Option.bind (get_value schema ''maximum'') number_of_json of None \<Rightarrow> False | Some m \<Rightarrow> number_less m n)
      | _ \<Rightarrow> True)"

definition within_size :: "json_object \<Rightarrow> string \<Rightarrow> string \<Rightarrow> nat \<Rightarrow> bool" where
  "within_size schema lower upper n =
     ((case Option.bind (get_value schema lower) int_of_json of None \<Rightarrow> True | Some m \<Rightarrow> m \<le> int n)
      \<and> (case Option.bind (get_value schema upper) int_of_json of None \<Rightarrow> True | Some m \<Rightarrow> int n \<le> m))"

definition of_schema_type :: "json_object \<Rightarrow> json \<Rightarrow> bool" where
  "of_schema_type schema v =
     (case get_value schema ''type'' of Some (JStr t) \<Rightarrow> matches_json_type v t | _ \<Rightarrow> True)"

definition among_enum :: "json_object \<Rightarrow> json \<Rightarrow> bool" where
  "among_enum schema v =
     (case get_value schema ''enum'' of Some (JArr xs) \<Rightarrow> list_ex (json_eq v) xs | _ \<Rightarrow> True)"

definition has_required :: "json_object \<Rightarrow> json_object \<Rightarrow> bool" where
  "has_required schema members =
     (case map_of schema ''required'' of
        Some (JArr names) \<Rightarrow> \<forall>n \<in> set names. case n of JStr s \<Rightarrow> s \<in> set (dict_keys members) | _ \<Rightarrow> True
      | _ \<Rightarrow> True)"

definition property_schemas :: "json_object \<Rightarrow> json_object" where
  "property_schemas schema = (case map_of schema ''properties'' of Some (JObj ps) \<Rightarrow> ps | _ \<Rightarrow> [])"

definition has_no_extra :: "json_object \<Rightarrow> json_object \<Rightarrow> bool" where
  "has_no_extra schema members =
     (get_value schema ''additionalProperties'' = Some (JBool False) \<longrightarrow>
        set (dict_keys members) \<subseteq> set (dict_keys (property_schemas schema)))"

definition alternative_schemas :: "json_object \<Rightarrow> json_object list option" where
  "alternative_schemas schema =
     (case get_value schema ''oneOf'' of
        Some (JArr xs) \<Rightarrow> Some (concat (map (\<lambda>a. case a of JObj s \<Rightarrow> [s] | _ \<Rightarrow> []) xs))
      | _ \<Rightarrow> None)"

definition item_schema :: "json_object \<Rightarrow> json_object option" where
  "item_schema schema = (case get_value schema ''items'' of Some (JObj s) \<Rightarrow> Some s | _ \<Rightarrow> None)"

lemma alternative_schemas_smaller:
  "alternative_schemas schema = Some ss \<Longrightarrow> s \<in> set ss \<Longrightarrow> members_size s < members_size schema"
  by (auto simp: alternative_schemas_def split: option.splits json.splits intro: alternative_smaller)

lemma item_schema_smaller: "item_schema schema = Some s \<Longrightarrow> members_size s < members_size schema"
  by (auto simp: item_schema_def split: option.splits json.splits intro: part_smaller)

lemma property_schemas_smaller:
  "map_of (property_schemas schema) name = Some (JObj s) \<Longrightarrow> members_size s < members_size schema"
  by (rule property_smaller [of schema "''properties''" "property_schemas schema" name])
    (auto simp: property_schemas_def dict_get_def split: option.splits json.splits dest: map_of_SomeD)

function conforms :: "json_object \<Rightarrow> json \<Rightarrow> bool" where
  "conforms schema v =
     ((case alternative_schemas schema of
         None \<Rightarrow> True
       | Some ss \<Rightarrow> length (filter (\<lambda>s. conforms s v) ss) = 1)
      \<and> of_schema_type schema v \<and> among_enum schema v \<and> within_range schema v
      \<and> (case v of
           JStr s \<Rightarrow> within_size schema ''minLength'' ''maxLength'' (length s)
         | JArr xs \<Rightarrow> within_size schema ''minItems'' ''maxItems'' (length xs)
             \<and> (case item_schema schema of None \<Rightarrow> True | Some s \<Rightarrow> list_all (\<lambda>x. conforms s x) xs)
         | JObj members \<Rightarrow> within_size schema ''minProperties'' ''maxProperties'' (length members)
             \<and> has_required schema members \<and> has_no_extra schema members
             \<and> list_all (\<lambda>(name, x). case map_of (property_schemas schema) name of
                 Some (JObj s) \<Rightarrow> conforms s x | _ \<Rightarrow> True) members
         | _ \<Rightarrow> True))"
  by pat_completeness auto
termination
  by (relation "measure (\<lambda>(schema, v). members_size schema)")
    (auto intro: alternative_schemas_smaller item_schema_smaller property_schemas_smaller)

declare conforms.simps [simp del]

section \<open>What the check of a definition establishes\<close>

definition checked :: "json_object \<Rightarrow> bool" where
  "checked schema \<longleftrightarrow> (\<exists>key is_root. check_schema_node schema key is_root = Inr ())"

named_theorems check_simps

lemma bad_schema_not_ok [check_simps]: "bad_schema m k v e \<noteq> Inr x"
  by (simp add: bad_schema_def)

lemma checkedE:
  assumes "checked schema"
  obtains key is_root where "check_schema_node schema key is_root = Inr ()"
  using assms by (auto simp: checked_def)

lemma checked_alternatives:
  assumes "checked schema" "get_value schema ''oneOf'' = Some j"
  obtains ss where "j = JArr (map JObj ss)" "alternative_schemas schema = Some ss" "\<And>t. t \<in> set ss \<Longrightarrow> checked t"
proof -
  obtain key is_root where ok: "check_schema_node schema key is_root = Inr ()"
    using assms by (auto elim: checkedE)
  then obtain xs where j: "j = JArr xs"
    and xs: "\<And>i a. (i, a) \<in> set (enumerate 0 xs) \<Longrightarrow> \<exists>t. a = JObj t \<and> checked t"
    using assms(2)
    by (subst (asm) check_schema_node.simps)
      (fastforce simp: check_simps bind_r_Inr_iff check_each_ok checked_def split: json.splits list.splits
        simp del: enumerate_simps)
  have each: "\<exists>t. a = JObj t \<and> checked t" if "a \<in> set xs" for a
  proof -
    obtain i where "(i, a) \<in> set (enumerate 0 xs)"
      using \<open>a \<in> set xs\<close> by (metis (no_types, lifting) imageE map_snd_enumerate list.set_map prod.collapse)
    then show ?thesis using xs by blast
  qed
  then obtain f where f: "\<And>a. a \<in> set xs \<Longrightarrow> a = JObj (f a) \<and> checked (f a)" by metis
  have "xs = map JObj (map f xs)" using f by (simp add: map_idI)
  moreover have "concat (map (\<lambda>a. case a of JObj s \<Rightarrow> [s] | _ \<Rightarrow> []) xs) = map f xs"
    using f by (induction xs) (auto split: json.splits)
  ultimately show ?thesis
    using that [of "map f xs"] f j assms(2) by (auto simp: alternative_schemas_def)
qed

lemma checked_type:
  assumes "checked schema" "get_value schema ''type'' = Some j"
  shows "\<exists>t. j = JStr t"
proof -
  obtain key is_root where ok: "check_schema_node schema key is_root = Inr ()"
    using assms by (auto elim: checkedE)
  then have "check_type_keyword schema key is_root = Inr ()"
    by (subst (asm) check_schema_node.simps) (auto simp: bind_r_Inr_iff)
  then show ?thesis using assms(2)
    by (auto simp: check_type_keyword_def Let_def check_simps split: if_splits json.splits)
qed

lemma checked_size:
  assumes "checked schema" "(t, lower, upper) \<in> set size_keywords"
    "get_value schema ''type'' \<noteq> Some (JStr t)"
  shows "map_of schema lower = None \<and> map_of schema upper = None"
proof -
  obtain key is_root where ok: "check_schema_node schema key is_root = Inr ()"
    using assms by (auto elim: checkedE)
  then have "check_size_boundaries schema key = Inr ()"
    by (subst (asm) check_schema_node.simps) (auto simp: bind_r_Inr_iff)
  then have "check_size_keyword schema key t lower = Inr () \<and> check_size_keyword schema key t upper = Inr ()"
    using assms(2) by (fastforce simp: check_size_boundaries_def check_each_ok bind_r_Inr_iff)
  then show ?thesis using assms(3)
    by (auto simp: check_size_keyword_def check_simps split: option.splits)
qed

lemma reject_schema_keys_ok:
  "reject_schema_keys schema names key = Inr () \<longleftrightarrow> (\<forall>n \<in> set names. map_of schema n = None)"
  by (auto simp: reject_schema_keys_def check_each_ok check_simps map_of_eq_None_iff split: if_splits)

lemma checked_not_object:
  assumes "checked schema" "get_value schema ''type'' \<noteq> Some (JStr ''object'')"
  shows "map_of schema ''properties'' = None \<and> map_of schema ''required'' = None \<and> map_of schema ''additionalProperties'' = None"
proof -
  obtain key is_root where ok: "check_schema_node schema key is_root = Inr ()"
    using assms by (auto elim: checkedE)
  moreover have "\<not> is_root"
  proof -
    have "check_type_keyword schema key is_root = Inr ()"
      using ok by (subst (asm) check_schema_node.simps) (auto simp: bind_r_Inr_iff)
    then show ?thesis using assms(2) by (auto simp: check_type_keyword_def Let_def check_simps split: if_splits)
  qed
  ultimately show ?thesis using assms(2)
    by (subst (asm) check_schema_node.simps)
      (auto simp: bind_r_Inr_iff reject_schema_keys_ok split: if_splits)
qed

lemma checked_items:
  assumes "checked schema" "get_value schema ''items'' = Some j"
  obtains t where "get_value schema ''type'' = Some (JStr ''array'')" "j = JObj t" "checked t"
proof -
  have present: "map_of schema ''items'' \<noteq> None" using assms(2) by (auto simp: get_value_Some)
  obtain key is_root where "check_schema_node schema key is_root = Inr ()"
    using assms by (auto elim: checkedE)
  then show ?thesis using assms(2) present that
    by (subst (asm) check_schema_node.simps)
      (fastforce simp: bind_r_Inr_iff reject_schema_keys_ok check_simps checked_def split: if_splits json.splits)
qed

lemma checked_object:
  assumes "checked schema" "get_value schema ''type'' = Some (JStr ''object'')"
  obtains required where "dict_get schema ''properties'' (JObj []) = JObj (property_schemas schema)"
    "dict_get schema ''required'' (JArr []) = JArr required"
    "\<And>name p. (name, p) \<in> set (property_schemas schema) \<Longrightarrow> \<exists>t. p = JObj t \<and> checked t"
proof -
  obtain key is_root where "check_schema_node schema key is_root = Inr ()"
    using assms by (auto elim: checkedE)
  then obtain properties where p: "dict_get schema ''properties'' (JObj []) = JObj properties"
    and ps: "\<And>name p. (name, p) \<in> set properties \<Longrightarrow> \<exists>t. p = JObj t \<and> checked t"
    and "check_required schema properties key = Inr ()"
    using assms(2)
    by (subst (asm) check_schema_node.simps)
      (fastforce simp: bind_r_Inr_iff check_each_ok check_simps checked_def split: if_splits json.splits)
  then obtain required where "dict_get schema ''required'' (JArr []) = JArr required"
    by (auto simp: check_required_def check_simps split: json.splits)
  moreover have "property_schemas schema = properties"
    using p by (auto simp: property_schemas_def dict_get_def split: option.splits)
  ultimately show ?thesis using that p ps by blast
qed

section \<open>Validation decides conformance\<close>

definition accepted :: "'e + unit \<Rightarrow> bool" where
  "accepted r = (r = Inr ())"

lemma accepted_simps [simp]:
  "accepted (Inr ())" "\<not> accepted (invalid_param feedback)"
  "accepted (if b then invalid_param feedback else Inr ()) = (\<not> b)"
  "accepted (if b then Inr () else invalid_param feedback) = b"
  by (simp_all add: accepted_def invalid_param_def)

lemma accepted_bind [simp]: "accepted (bind_r m (\<lambda>_. n)) \<longleftrightarrow> accepted m \<and> accepted n"
  by (auto simp: accepted_def bind_r_Inr_iff)

lemma accepted_each [simp]: "accepted (check_each f xs) \<longleftrightarrow> (\<forall>x \<in> set xs. accepted (f x))"
  by (simp add: accepted_def check_each_ok)

lemma accepted_is_ok: "is_ok (r :: 'e + unit) = accepted r"
  by (cases r) (simp_all add: accepted_def)

lemma accepted_size: "accepted (check_size path schema lower upper n) = within_size schema lower upper n"
  by (simp add: check_size_def within_size_def not_less split: option.split)

lemma accepted_range: "accepted (check_range v schema path) = within_range schema v"
  by (cases "number_of_json v")
    (auto simp: check_range_def within_range_def is_json_number_def number_of_json_def split: option.split json.splits)

lemma accepted_enum: "accepted (check_enum v schema path) = among_enum schema v"
  by (simp add: check_enum_def among_enum_def split: option.split json.split)

lemma accepted_type: "checked schema \<Longrightarrow> accepted (check_type v schema path) = of_schema_type schema v"
  using checked_type [of schema]
  by (auto simp: check_type_def of_schema_type_def split: option.split json.split)

lemma accepted_variants:
  assumes "checked schema"
    "\<And>s. s \<in> set (case alternative_schemas schema of None \<Rightarrow> [] | Some ss \<Rightarrow> ss) \<Longrightarrow>
      accepted (validate_value v s path) = conforms s v"
  shows "accepted (case get_value schema ''oneOf'' of
         Some (JArr alternatives) \<Rightarrow>
           if list_all is_object alternatives then
             variants_verdict path (map (\<lambda>a. case a of JObj s \<Rightarrow> validate_value v s path | _ \<Rightarrow> Inr ()) alternatives)
           else invalid_param invalid_oneof_definition
       | _ \<Rightarrow> Inr ()) \<longleftrightarrow>
     (case alternative_schemas schema of None \<Rightarrow> True | Some ss \<Rightarrow> length (filter (\<lambda>s. conforms s v) ss) = 1)"
proof (cases "get_value schema ''oneOf''")
  case None
  then show ?thesis by (simp add: alternative_schemas_def)
next
  case (Some j)
  obtain ss where j: "j = JArr (map JObj ss)" and ss: "alternative_schemas schema = Some ss"
    using checked_alternatives [OF assms(1) Some] by metis
  have "filter is_ok (map (\<lambda>a. case a of JObj s \<Rightarrow> validate_value v s path | _ \<Rightarrow> Inr ()) (map JObj ss))
    = map (\<lambda>s. validate_value v s path) (filter (\<lambda>s. conforms s v) ss)"
    using assms(2) ss by (simp add: filter_map comp_def accepted_is_ok cong: filter_cong)
  moreover have "list_all is_object (map JObj ss)" by (simp add: list_all_iff is_object_def)
  ultimately show ?thesis using Some j ss by (auto simp: variants_verdict_def Let_def simp del: map_map)
qed

lemma checked_parts:
  assumes "checked schema"
  shows "alternative_schemas schema = Some ss \<Longrightarrow> s \<in> set ss \<Longrightarrow> checked s"
    and "item_schema schema = Some s \<Longrightarrow> checked s"
    and "map_of (property_schemas schema) name = Some (JObj s) \<Longrightarrow> checked s"
proof -
  show "alternative_schemas schema = Some ss \<Longrightarrow> s \<in> set ss \<Longrightarrow> checked s"
    by (cases "get_value schema ''oneOf''", simp add: alternative_schemas_def)
      (metis assms checked_alternatives option.inject)
  show "item_schema schema = Some s \<Longrightarrow> checked s"
  proof (cases "get_value schema ''items''")
    case (Some j)
    obtain t where "j = JObj t" "checked t" using checked_items [OF assms Some] by metis
    then show "item_schema schema = Some s \<Longrightarrow> checked s" using Some by (simp add: item_schema_def)
  qed (simp add: item_schema_def)
  show "map_of (property_schemas schema) name = Some (JObj s) \<Longrightarrow> checked s"
  proof (cases "get_value schema ''type'' = Some (JStr ''object'')")
    case True
    assume "map_of (property_schemas schema) name = Some (JObj s)"
    then have "(name, JObj s) \<in> set (property_schemas schema)" by (rule map_of_SomeD)
    moreover have "\<And>name p. (name, p) \<in> set (property_schemas schema) \<Longrightarrow> \<exists>t. p = JObj t \<and> checked t"
      using checked_object [OF assms True] by metis
    ultimately show "checked s" by blast
  next
    case False
    then show "map_of (property_schemas schema) name = Some (JObj s) \<Longrightarrow> checked s"
      using checked_not_object [OF assms] by (simp add: property_schemas_def)
  qed
qed

lemma accepted_members:
  assumes "checked schema" "get_value schema ''type'' = Some (JStr ''object'')"
    "\<And>name s x. (name, x) \<in> set members \<Longrightarrow> map_of (property_schemas schema) name = Some (JObj s) \<Longrightarrow>
      accepted (validate_value x s (path @ ''.'' @ name)) = conforms s x"
  shows "accepted (bind_r (check_size path schema ''minProperties'' ''maxProperties'' (length members)) (\<lambda>_.
            case dict_get schema ''properties'' (JObj []) of
              JObj properties \<Rightarrow>
                bind_r (check_names members schema properties path) (\<lambda>_.
                check_each (\<lambda>(name, item).
                  case map_of properties name of
                    Some (JObj s) \<Rightarrow> validate_value item s (path @ ''.'' @ name)
                  | _ \<Rightarrow> Inr ()) members)
            | _ \<Rightarrow> invalid_param (invalid_schema_properties path))) \<longleftrightarrow>
     within_size schema ''minProperties'' ''maxProperties'' (length members)
     \<and> has_required schema members \<and> has_no_extra schema members
     \<and> list_all (\<lambda>(name, x). case map_of (property_schemas schema) name of
         Some (JObj s) \<Rightarrow> conforms s x | _ \<Rightarrow> True) members"
proof -
  obtain required where p: "dict_get schema ''properties'' (JObj []) = JObj (property_schemas schema)"
    and r: "dict_get schema ''required'' (JArr []) = JArr required"
    using checked_object [OF assms(1,2)] by metis
  have "has_required schema members \<longleftrightarrow>
      (\<forall>n \<in> set required. case n of JStr s \<Rightarrow> s \<in> set (dict_keys members) | _ \<Rightarrow> True)"
    using r by (auto simp: has_required_def dict_get_def split: option.splits)
  then have "accepted (check_names members schema (property_schemas schema) path) \<longleftrightarrow>
      has_required schema members \<and> has_no_extra schema members"
    using r by (auto simp: check_names_def has_no_extra_def subset_eq split: json.splits)
  moreover have "(\<forall>x \<in> set members. accepted (case x of (name, item) \<Rightarrow>
        (case map_of (property_schemas schema) name of
           Some (JObj s) \<Rightarrow> validate_value item s (path @ ''.'' @ name) | _ \<Rightarrow> Inr ())))
      \<longleftrightarrow> list_all (\<lambda>(name, x). case map_of (property_schemas schema) name of
         Some (JObj s) \<Rightarrow> conforms s x | _ \<Rightarrow> True) members"
    unfolding list_all_iff
    by (rule ball_cong [OF refl]) (use assms(3) in \<open>auto split: option.split json.split\<close>)
  ultimately show ?thesis using p by (simp add: accepted_size conj_assoc)
qed

lemma members_unconstrained:
  assumes "checked schema" "get_value schema ''type'' \<noteq> Some (JStr ''object'')"
  shows "within_size schema ''minProperties'' ''maxProperties'' n" "has_required schema members"
    "has_no_extra schema members" "property_schemas schema = []"
proof -
  have "map_of schema ''minProperties'' = None \<and> map_of schema ''maxProperties'' = None"
    by (rule checked_size [OF assms(1) _ assms(2)]) (simp add: size_keywords_def)
  then show "within_size schema ''minProperties'' ''maxProperties'' n"
    by (simp add: within_size_def get_value_def)
  show "has_required schema members" "has_no_extra schema members" "property_schemas schema = []"
    using checked_not_object [OF assms]
    by (simp_all add: has_required_def has_no_extra_def property_schemas_def get_value_def)
qed

lemma items_unconstrained:
  "checked schema \<Longrightarrow> get_value schema ''type'' \<noteq> Some (JStr ''array'') \<Longrightarrow> item_schema schema = None"
  by (cases "get_value schema ''items''") (auto simp: item_schema_def elim: checked_items)

lemma of_schema_typeD:
  "of_schema_type schema v \<Longrightarrow> get_value schema ''type'' = Some (JStr ''object'') \<Longrightarrow> \<exists>members. v = JObj members"
  "of_schema_type schema v \<Longrightarrow> get_value schema ''type'' = Some (JStr ''array'') \<Longrightarrow> \<exists>xs. v = JArr xs"
  by (cases v; simp add: of_schema_type_def matches_json_type_def json_type_def)+

text \<open>What is left of a validation after the keywords that hold of every value.\<close>

lemma accepted_items:
  assumes "checked schema" "get_value schema ''type'' = Some (JStr ''array'')"
    "\<And>s x q. item_schema schema = Some s \<Longrightarrow> x \<in> set xs \<Longrightarrow> accepted (validate_value x s q) = conforms s x"
  shows "accepted (case get_value schema ''items'' of
           Some (JObj s) \<Rightarrow>
             check_each (\<lambda>(index, item). validate_value item s (path @ ''['' @ show_nat index @ '']''))
               (enumerate 0 xs)
         | _ \<Rightarrow> Inr ()) \<longleftrightarrow> (case item_schema schema of None \<Rightarrow> True | Some s \<Rightarrow> list_all (\<lambda>x. conforms s x) xs)"
proof (cases "item_schema schema")
  case None
  then show ?thesis by (auto simp: item_schema_def split: option.splits json.splits)
next
  case (Some s)
  then have items: "get_value schema ''items'' = Some (JObj s)"
    by (auto simp: item_schema_def split: option.splits json.splits)
  have "(\<forall>y \<in> set (enumerate 0 xs). accepted (case y of (index, item) \<Rightarrow>
          validate_value item s (path @ ''['' @ show_nat index @ '']''))) \<longleftrightarrow>
      (\<forall>y \<in> set (enumerate 0 xs). conforms s (snd y))"
    by (rule ball_cong [OF refl]) (auto simp del: enumerate_simps simp: assms(3) [OF Some] dest: in_enumerate)
  also have "\<dots> \<longleftrightarrow> (\<forall>x \<in> snd ` set (enumerate 0 xs). conforms s x)" by simp
  also have "snd ` set (enumerate 0 xs) = set xs" by (metis list.set_map map_snd_enumerate)
  finally show ?thesis using items Some by (simp add: list_all_iff)
qed

lemma validate_conforms:
  "checked schema \<Longrightarrow> accepted (validate_value v schema path) = conforms schema v"
proof (induction schema v arbitrary: path rule: conforms.induct)
  case (1 schema v)
  let ?ty = "get_value schema ''type''"
  have variants: "accepted (validate_value v s q) = conforms s v"
    if mem: "s \<in> set (case alternative_schemas schema of None \<Rightarrow> [] | Some ss \<Rightarrow> ss)" for s q
  proof -
    obtain ss where "alternative_schemas schema = Some ss" "s \<in> set ss"
      using mem by (cases "alternative_schemas schema") simp_all
    then show ?thesis using "1.IH"(1) checked_parts(1) [OF "1.prems"] by blast
  qed
  have item: "accepted (validate_value x s q) = conforms s x"
    if "v = JArr xs" "item_schema schema = Some s" "x \<in> set xs" for xs x s q
    using that "1.IH"(2) checked_parts(2) [OF "1.prems"] by blast
  have member: "accepted (validate_value x s q) = conforms s x"
    if "v = JObj members" "(name, x) \<in> set members" "map_of (property_schemas schema) name = Some (JObj s)"
    for members name x s q
    using that "1.IH"(3) checked_parts(3) [OF "1.prems"] by blast
  have members: "accepted (bind_r (check_size path schema ''minProperties'' ''maxProperties'' (length members)) (\<lambda>_.
            case dict_get schema ''properties'' (JObj []) of
              JObj properties \<Rightarrow>
                bind_r (check_names members schema properties path) (\<lambda>_.
                check_each (\<lambda>(name, item).
                  case map_of properties name of
                    Some (JObj s) \<Rightarrow> validate_value item s (path @ ''.'' @ name)
                  | _ \<Rightarrow> Inr ()) members)
            | _ \<Rightarrow> invalid_param (invalid_schema_properties path))) \<longleftrightarrow>
      within_size schema ''minProperties'' ''maxProperties'' (length members)
      \<and> has_required schema members \<and> has_no_extra schema members
      \<and> list_all (\<lambda>(name, x). case map_of (property_schemas schema) name of
         Some (JObj s) \<Rightarrow> conforms s x | _ \<Rightarrow> True) members"
    if "v = JObj members" "?ty = Some (JStr ''object'')" for members
    by (rule accepted_members [OF "1.prems" that(2)]) (rule member [OF that(1)])
  have items: "accepted (case get_value schema ''items'' of
           Some (JObj s) \<Rightarrow>
             check_each (\<lambda>(index, item). validate_value item s (path @ ''['' @ show_nat index @ '']''))
               (enumerate 0 xs)
         | _ \<Rightarrow> Inr ()) \<longleftrightarrow> (case item_schema schema of None \<Rightarrow> True | Some s \<Rightarrow> list_all (\<lambda>x. conforms s x) xs)"
    if "v = JArr xs" "?ty = Some (JStr ''array'')" for xs
    by (rule accepted_items [OF "1.prems" that(2)]) (rule item [OF that(1)])
  note facts = accepted_variants [OF "1.prems" variants] accepted_type [OF "1.prems"] accepted_enum accepted_range
  show ?case
    by (subst validate_value.simps, subst conforms.simps, simp only: accepted_bind facts, (rule conj_cong [OF refl])+,
        cases "?ty = Some (JStr ''object'')"; cases "?ty = Some (JStr ''array'')"; cases v)
      (use members items of_schema_typeD [of schema v] "1.prems" in
        \<open>simp_all add: check_length_def accepted_size members_unconstrained items_unconstrained list.pred_True split_def\<close>)
qed

section \<open>The feedback of a validation\<close>

lemma strip_not_blank: "\<not> py_isspace c \<Longrightarrow> py_strip (c # cs) \<noteq> []"
  by (auto simp: py_strip_def dropWhile_eq_Nil_conv)

definition usable_feedback :: "validation_error + 'a \<Rightarrow> bool" where
  "usable_feedback r =
     (case r of Inr _ \<Rightarrow> True
      | Inl (ActionSchemaValidationError f) \<Rightarrow> py_strip f \<noteq> [] \<and> length f \<le> max_failure_feedback_chars)"

lemma usable_feedback_simps [simp]:
  "usable_feedback (Inr x)"
  "usable_feedback (bind_r m (\<lambda>_. n)) \<longleftrightarrow> usable_feedback m \<and> (is_ok m \<longrightarrow> usable_feedback n)"
  by (cases m; simp add: usable_feedback_def split: sum.split validation_error.split)+

lemma usable_bind: "usable_feedback m \<Longrightarrow> (\<And>x. usable_feedback (f x)) \<Longrightarrow> usable_feedback (bind_r m f)"
  by (cases m) (simp_all add: usable_feedback_def)

lemma usable_invalid:
  assumes "feedback = c # cs" "\<not> py_isspace c"
  shows "usable_feedback (invalid_param feedback)"
  using assms strip_not_blank [of c "take 1999 cs"]
  by (simp add: usable_feedback_def invalid_param_def max_failure_feedback_chars_def take_Cons')

lemma usable_texts [simp]:
  "usable_feedback (invalid_param (parameter_text path rest))"
  "usable_feedback (invalid_param (parameter_text path rest @ details))"
  "usable_feedback (invalid_param invalid_oneof_definition)"
  "usable_feedback (invalid_param (invalid_parameter_schema_type path))"
  "usable_feedback (invalid_param (invalid_schema_properties path))"
  "usable_feedback (invalid_param (invalid_schema_required path))"
  "usable_feedback (invalid_param (missing_parameter name))"
  "usable_feedback (invalid_param (unexpected_parameter name))"
  unfolding parameter_text_def invalid_oneof_definition_def invalid_parameter_schema_type_def
    invalid_schema_properties_def invalid_schema_required_def missing_parameter_def unexpected_parameter_def
  by (rule usable_invalid, (simp only: append_Cons; rule refl), simp add: py_isspace_def)+

lemmas parameter_texts =
  parameter_variant_mismatch_def parameter_type_mismatch_def parameter_enum_mismatch_def
  parameter_below_minimum_def parameter_above_maximum_def parameter_size_below_minimum_def
  parameter_size_above_maximum_def parameter_must_be_object_def parameter_must_be_array_def

lemma usable_each: "(\<And>x. x \<in> set xs \<Longrightarrow> usable_feedback (f x)) \<Longrightarrow> usable_feedback (check_each f xs)"
  by (induction xs) simp_all

lemma usable_keywords [simp]:
  "usable_feedback (variants_verdict path outcomes)"
  "usable_feedback (check_type v schema path)"
  "usable_feedback (check_enum v schema path)"
  "usable_feedback (check_range v schema path)"
  "usable_feedback (check_size path schema lower upper n)"
  "usable_feedback (check_length v schema path)"
  "usable_feedback (check_names members schema properties path)"
  by (auto simp: variants_verdict_def Let_def check_type_def check_enum_def check_range_def check_size_def
      check_length_def check_names_def parameter_texts intro!: usable_each usable_bind split: option.split json.split)

lemma usable_validation: "usable_feedback (validate_value v schema path)"
proof (induction v schema path rule: validate_value.induct)
  case (1 v schema path)
  have members: "usable_feedback (check_each (\<lambda>(name, item).
      case map_of properties name of
        Some (JObj s) \<Rightarrow> validate_value item s (path @ ''.'' @ name) | _ \<Rightarrow> Inr ()) members)"
    if "get_value schema ''type'' = Some (JStr ''object'')" "v = JObj members"
      "dict_get schema ''properties'' (JObj []) = JObj properties" for members properties
    by (rule usable_each) (use "1.IH"(2) that in \<open>fastforce split: option.split json.split\<close>)
  have items: "usable_feedback (check_each (\<lambda>(index, item).
      validate_value item s (path @ CHR ''['' # show_nat index @ '']'')) (enumerate 0 xs))"
    if "get_value schema ''type'' = Some (JStr ''array'')" "v = JArr xs" "get_value schema ''items'' = Some (JObj s)"
    for xs s
    by (rule usable_each) (use "1.IH"(3) that in \<open>fastforce simp del: enumerate_simps\<close>)
  show ?case
    by (subst validate_value.simps) (auto simp: members items parameter_texts split: option.split json.split)
qed

lemma validation_feedback:
  assumes "validate_action_params params schema = Inl (ActionSchemaValidationError f)"
  shows "py_strip f \<noteq> []" "length f \<le> max_failure_feedback_chars"
  using usable_validation [of "JObj params" schema "''params''"] assms
  by (auto simp: validate_action_params_def usable_feedback_def)

lemma params_iff:
  assumes "validate_schema_definition schema key = Inr ()"
  shows "validate_action_params params schema = Inr () \<longleftrightarrow> conforms schema (JObj params)"
  using validate_conforms [of schema "JObj params" "''params''"] assms
  by (auto simp: validate_action_params_def accepted_def checked_def validate_schema_definition_def)

section \<open>Properties\<close>

text \<open>
  C7: a parameter object is accepted by a tool schema that passed the check of its definition exactly
  when it conforms to the schema: the order of the tests, the paths and the messages of the
  validation do not decide, and no keyword of the schema is left out.
\<close>

theorem params_conform:
  assumes "validate_schema_definition schema key = Inr ()"
  shows "validate_action_params params schema = Inr () \<longleftrightarrow> conforms schema (JObj params)"
  by (rule params_iff [OF assms])

definition sample_schema :: json_object where
  "sample_schema =
     [(''type'', JStr ''object''),
      (''properties'', JObj [(''n'', JObj [(''type'', JStr ''integer''), (''minimum'', JInt 1)])]),
      (''required'', JArr [JStr ''n'']), (''additionalProperties'', JBool False)]"

theorem params_conform_witness:
  "\<not> conforms sample_schema (JObj [(''n'', JInt 0)]) \<and> conforms sample_schema (JObj [(''n'', JInt 7)])"
proof -
  have "validate_schema_definition sample_schema ''s'' = Inr ()" by code_simp
  note decides = params_conform [OF this]
  have "validate_action_params [(''n'', JInt 0)] sample_schema \<noteq> Inr ()"
    "validate_action_params [(''n'', JInt 7)] sample_schema = Inr ()" by code_simp+
  then show ?thesis using decides by blast
qed

end
