(* ===== verification/Action_Hooks.thy ===== *)
theory Action_Hooks
  imports Catalog Schema_Properties State_Result Outcomes
begin

text \<open>
  The hooks of the Action module (tinysoul/kernel/action/execution/hooks.py): the outcome of a check,
  the registry, the schema hook that comes first, and the two pipelines. A hook is code of a plugin:
  an operation on a world, which returns an outcome, an object of another class, or raises.
\<close>

text \<open>What leaves a pipeline: an exception it lets pass, or one of the Action module's own.\<close>

datatype action_exn = Raised exn | Broken engine_error

definition op_own :: "engine_error + 'a \<Rightarrow> ('w, action_exn, 'a) op" where
  "op_own r = op_sum (map_sum Broken id r)"

definition op_built :: "action_error + 'a \<Rightarrow> ('w, action_exn, 'a) op" where
  "op_built r = op_own (of_action r)"

lemma op_own_simps [simp]: "op_own (Inr x) w = (w, Inr x)" "op_own (Inl e) w = (w, Inl (Broken e))"
  by (simp_all add: op_own_def)

lemma op_built_Inr [simp]: "op_built (Inr x) w = (w, Inr x)"
  by (simp add: op_built_def of_action_def)

text \<open>\<open>except (RuntimeException, RuntimeTransferInterrupt): raise\<close>, then \<open>except Exception\<close>.\<close>

definition is_local_exception :: "exn \<Rightarrow> bool" where
  "is_local_exception e =
     (case e of RuntimeException x \<Rightarrow> False | RuntimeTransferInterrupt t x \<Rightarrow> False
      | AsyncCancelled \<Rightarrow> False | _ \<Rightarrow> True)"

section \<open>Outcomes\<close>

definition hook_frame_reserved_fields :: "string list" where
  "hook_frame_reserved_fields =
     [''hook'', ''failure'', ''reason'', ''scope'', ''disposition'', ''feedback'', ''model_feedback'', ''constraint'']"

record hook_outcome =
  ho_failure :: "local_failure option"
  ho_payload :: json_object
  ho_frame_data :: json_object

definition mk_hook_outcome :: "hook_outcome \<Rightarrow> hook_outcome action_result_of" where
  "mk_hook_outcome out =
     (if ''failure'' \<in> set (dict_keys (ho_payload out))
      then Inl (ActionInvariantError ''HookOutcome.payload cannot contain failure'')
      else if ho_failure out = None \<and> (ho_payload out \<noteq> [] \<or> ho_frame_data out \<noteq> [])
      then Inl (ActionInvariantError ''A successful HookOutcome cannot carry payload or frame_data'')
      else
        (let reserved = sort (remdups (filter (\<lambda>k. k \<in> set hook_frame_reserved_fields) (dict_keys (ho_frame_data out)))) in
         if reserved \<noteq> [] then
           Inl (ActionInvariantError (''HookOutcome.frame_data contains reserved fields: '' @ py_join '', '' reserved))
         else Inr out))"

definition hook_success :: "hook_outcome action_result_of" where
  "hook_success = mk_hook_outcome \<lparr>ho_failure = None, ho_payload = [], ho_frame_data = []\<rparr>"

definition hook_reject ::
  "local_failure \<Rightarrow> json_object option \<Rightarrow> json_object option \<Rightarrow> hook_outcome action_result_of" where
  "hook_reject failure payload frame_data = mk_hook_outcome
     \<lparr>ho_failure = Some failure, ho_payload = or_empty payload, ho_frame_data = or_empty frame_data\<rparr>"

datatype hook_return = Returned hook_outcome | Returned_Other string

section \<open>The input of a normalize hook and the schema hook\<close>

record normalize_input =
  ni_tool_call :: tool_call
  ni_action :: action_spec
  ni_sequence :: int

definition mk_normalize_input :: "normalize_input \<Rightarrow> normalize_input action_result_of" where
  "mk_normalize_input i =
     (if ni_sequence i \<le> 0 then Inl (ActionInvariantError ''ActionNormalizeInput.sequence must be positive'')
      else Inr i)"

definition schema_check :: "normalize_input \<Rightarrow> hook_outcome action_result_of" where
  "schema_check item =
     (case validate_action_params (tc_arguments (ni_tool_call item)) (at_schema (sp_tool (ni_action item))) of
        Inl (ActionSchemaValidationError feedback) \<Rightarrow>
          bind_r (mk_local_failure
              \<lparr>lf_reason = ''invalid_action_params'', lf_scope = ''action.schema'',
               lf_disposition = FD_CHANGE_REQUEST, lf_feedback = feedback, lf_constraint = []\<rparr>) (\<lambda>failure.
          hook_reject failure None (Some [(''error_type'', JStr ''ActionSchemaValidationError'')]))
      | Inr _ \<Rightarrow> hook_success)"

type_synonym ('i, 'w) hook = "'i \<Rightarrow> ('w, exn, hook_return) op"

definition schema_hook :: "(normalize_input, 'w) hook" where
  "schema_hook item =
     (case schema_check item of
        Inr outcome \<Rightarrow> op_return (Returned outcome)
      | Inl _ \<Rightarrow> op_raise (OtherException ''ActionInvariantError''))"

section \<open>An execution with its Action\<close>

record prepared_execution =
  pe_action :: action_spec
  pe_call :: action_call
  pe_framework :: action_framework

definition as_execution :: "prepared_execution \<Rightarrow> action_execution" where
  "as_execution p =
     \<lparr>ex_spec_name = sp_name (pe_action p), ex_spec_domain = sp_domain (pe_action p), ex_call = pe_call p,
      ex_framework = pe_framework p\<rparr>"

section \<open>The registry\<close>

record ('n, 'e) hook_registry =
  hr_global_normalize :: "string list"
  hr_global_execution :: "string list"
  hr_domain_normalize :: "(string \<times> string list) list"
  hr_domain_execution :: "(string \<times> string list) list"
  hr_action_normalize :: "(string \<times> string list) list"
  hr_action_execution :: "(string \<times> string list) list"
  hr_normalize_hooks :: "(string \<times> 'n) list"
  hr_execution_hooks :: "(string \<times> 'e) list"

definition empty_hooks :: "('n, 'e) hook_registry" where
  "empty_hooks = \<lparr>hr_global_normalize = [], hr_global_execution = [], hr_domain_normalize = [],
     hr_domain_execution = [], hr_action_normalize = [], hr_action_execution = [],
     hr_normalize_hooks = [], hr_execution_hooks = []\<rparr>"

definition hook_names :: "string list \<Rightarrow> engine_error + string list" where
  "hook_names names =
     bind_r (check_each (\<lambda>name. require_spec_name name ''hook name'') names) (\<lambda>_. Inr names)"

definition register_normalize_hook ::
  "string \<Rightarrow> 'n \<Rightarrow> ('n, 'e) hook_registry \<Rightarrow> engine_error + ('n, 'e) hook_registry" where
  "register_normalize_hook name hook r =
     bind_r (require_spec_name name ''normalize hook name'') (\<lambda>_.
     if name \<in> set (dict_keys (hr_normalize_hooks r))
     then Inl (EngineInvariant (''Action normalize hook already registered: '' @ name))
     else Inr (r\<lparr>hr_normalize_hooks := AList.update name hook (hr_normalize_hooks r)\<rparr>))"

definition register_execution_hook ::
  "string \<Rightarrow> 'e \<Rightarrow> ('n, 'e) hook_registry \<Rightarrow> engine_error + ('n, 'e) hook_registry" where
  "register_execution_hook name hook r =
     bind_r (require_spec_name name ''execution hook name'') (\<lambda>_.
     if name \<in> set (dict_keys (hr_execution_hooks r))
     then Inl (EngineInvariant (''Action execution hook already registered: '' @ name))
     else Inr (r\<lparr>hr_execution_hooks := AList.update name hook (hr_execution_hooks r)\<rparr>))"

definition register_global_normalize ::
  "string list \<Rightarrow> ('n, 'e) hook_registry \<Rightarrow> engine_error + ('n, 'e) hook_registry" where
  "register_global_normalize names r =
     bind_r (hook_names names) (\<lambda>names. Inr (r\<lparr>hr_global_normalize := hr_global_normalize r @ names\<rparr>))"

definition register_global_execution ::
  "string list \<Rightarrow> ('n, 'e) hook_registry \<Rightarrow> engine_error + ('n, 'e) hook_registry" where
  "register_global_execution names r =
     bind_r (hook_names names) (\<lambda>names. Inr (r\<lparr>hr_global_execution := hr_global_execution r @ names\<rparr>))"

text \<open>\<open>table[key] = (*table.get(key, ()), *names)\<close>\<close>

definition add_names :: "string \<Rightarrow> string list \<Rightarrow> (string \<times> string list) list \<Rightarrow> (string \<times> string list) list" where
  "add_names key names table = AList.update key (dict_get table key [] @ names) table"

definition register_domain_normalize ::
  "string \<Rightarrow> string list \<Rightarrow> ('n, 'e) hook_registry \<Rightarrow> engine_error + ('n, 'e) hook_registry" where
  "register_domain_normalize domain names r =
     bind_r (require_spec_name domain ''domain'') (\<lambda>_.
     bind_r (hook_names names) (\<lambda>names.
     Inr (r\<lparr>hr_domain_normalize := add_names domain names (hr_domain_normalize r)\<rparr>)))"

definition register_domain_execution ::
  "string \<Rightarrow> string list \<Rightarrow> ('n, 'e) hook_registry \<Rightarrow> engine_error + ('n, 'e) hook_registry" where
  "register_domain_execution domain names r =
     bind_r (require_spec_name domain ''domain'') (\<lambda>_.
     bind_r (hook_names names) (\<lambda>names.
     Inr (r\<lparr>hr_domain_execution := add_names domain names (hr_domain_execution r)\<rparr>)))"

definition register_action_normalize ::
  "string \<Rightarrow> string list \<Rightarrow> ('n, 'e) hook_registry \<Rightarrow> engine_error + ('n, 'e) hook_registry" where
  "register_action_normalize action_name names r =
     bind_r (require_spec_name action_name ''action_name'') (\<lambda>_.
     bind_r (hook_names names) (\<lambda>names.
     Inr (r\<lparr>hr_action_normalize := add_names action_name names (hr_action_normalize r)\<rparr>)))"

definition register_action_execution ::
  "string \<Rightarrow> string list \<Rightarrow> ('n, 'e) hook_registry \<Rightarrow> engine_error + ('n, 'e) hook_registry" where
  "register_action_execution action_name names r =
     bind_r (require_spec_name action_name ''action_name'') (\<lambda>_.
     bind_r (hook_names names) (\<lambda>names.
     Inr (r\<lparr>hr_action_execution := add_names action_name names (hr_action_execution r)\<rparr>)))"

definition normalize_hook_for :: "('n, 'e) hook_registry \<Rightarrow> string \<Rightarrow> engine_error + 'n" where
  "normalize_hook_for r name =
     (case map_of (hr_normalize_hooks r) name of
        None \<Rightarrow> Inl (EngineContract (''Unknown action normalize hook: '' @ name)) | Some hook \<Rightarrow> Inr hook)"

definition execution_hook_for :: "('n, 'e) hook_registry \<Rightarrow> string \<Rightarrow> engine_error + 'e" where
  "execution_hook_for r name =
     (case map_of (hr_execution_hooks r) name of
        None \<Rightarrow> Inl (EngineContract (''Unknown action execution hook: '' @ name)) | Some hook \<Rightarrow> Inr hook)"

definition normalize_names_for :: "('n, 'e) hook_registry \<Rightarrow> action_spec \<Rightarrow> string list" where
  "normalize_names_for r a =
     hr_global_normalize r @ dict_get (hr_domain_normalize r) (sp_domain a) []
       @ hk_normalize (rs_hooks (sp_runtime a)) @ dict_get (hr_action_normalize r) (sp_name a) []"

definition execution_names_for :: "('n, 'e) hook_registry \<Rightarrow> action_spec \<Rightarrow> string list" where
  "execution_names_for r a =
     hr_global_execution r @ dict_get (hr_domain_execution r) (sp_domain a) []
       @ hk_execution (rs_hooks (sp_runtime a)) @ dict_get (hr_action_execution r) (sp_name a) []"

section \<open>The pipelines\<close>

definition normalize_hook_unavailable :: "string \<Rightarrow> string" where
  "normalize_hook_unavailable name = ''Action normalize hook is not available: '' @ name"

definition normalize_hook_failed :: "string \<Rightarrow> string" where
  "normalize_hook_failed name = ''Action normalize hook failed: '' @ name"

definition execution_hook_unavailable :: "string \<Rightarrow> string" where
  "execution_hook_unavailable name = ''Action execution hook is not available: '' @ name"

definition execution_hook_failed :: "string \<Rightarrow> string" where
  "execution_hook_failed name = ''Action execution hook failed: '' @ name"

text \<open>The facts a pipeline reports a rejection with: the owner's failure, or a reason and a feedback.\<close>

record rejection =
  rj_feedback :: "string option"
  rj_reason :: "string option"
  rj_failure :: "local_failure option"
  rj_payload :: "json_object option"
  rj_frame_data :: json_object

definition pipeline_failure :: "string \<Rightarrow> rejection \<Rightarrow> engine_error + local_failure" where
  "pipeline_failure scope r =
     (case rj_failure r of
        Some failure \<Rightarrow>
          if rj_reason r \<noteq> None \<or> rj_feedback r \<noteq> None
          then Inl (EngineInvariant ''A hook failure cannot combine an owner failure with pipeline facts'')
          else Inr failure
      | None \<Rightarrow>
          (case (rj_reason r, rj_feedback r) of
             (Some (c # cs), Some (d # ds)) \<Rightarrow> of_action (mk_local_failure
               \<lparr>lf_reason = c # cs, lf_scope = scope, lf_disposition = FD_CHANGE_REQUEST, lf_feedback = d # ds,
                lf_constraint = []\<rparr>)
           | _ \<Rightarrow> Inl (EngineInvariant ''A pipeline-owned hook failure requires facts'')))"

definition normalize_hook_failure :: "string \<Rightarrow> normalize_input \<Rightarrow> rejection \<Rightarrow> engine_error + action_result" where
  "normalize_hook_failure fresh item r =
     bind_r (pipeline_failure ''action.normalize_hook'' r) (\<lambda>failure.
     of_action (result_failed fresh
       \<lparr>ro_call_id = tc_id (ni_tool_call item), ro_invoke_id = None, ro_batch_id = None,
        ro_action_name = tc_name (ni_tool_call item), ro_sequence = ni_sequence item, ro_domain = [],
        ro_payload = rj_payload r, ro_frame_data = Some (rj_frame_data r)\<rparr> ST_NORMALIZE failure))"

definition execution_hook_failure :: "string \<Rightarrow> prepared_execution \<Rightarrow> rejection \<Rightarrow> engine_error + action_result" where
  "execution_hook_failure fresh e r =
     bind_r (pipeline_failure ''action.execution_hook'' r) (\<lambda>failure.
     of_action (result_failed fresh
       \<lparr>ro_call_id = ac_call_id (pe_call e), ro_invoke_id = Some (af_invoke_id (pe_framework e)),
        ro_batch_id = Some (af_batch_id (pe_framework e)), ro_action_name = ac_action_name (pe_call e),
        ro_sequence = ac_sequence (pe_call e), ro_domain = af_domain (pe_framework e),
        ro_payload = rj_payload r, ro_frame_data = Some (rj_frame_data r)\<rparr> ST_HOOK failure))"

text \<open>One hook: an exception or a foreign object is a failure of the hook, a rejection is the owner's.\<close>

definition run_hook ::
  "(rejection \<Rightarrow> engine_error + action_result) \<Rightarrow> string \<Rightarrow> (string \<Rightarrow> string) \<Rightarrow> ('w, exn, hook_return) op
     \<Rightarrow> string \<Rightarrow> ('w, action_exn, action_result option) op" where
  "run_hook reject reason feedback check name w =
     (case check w of
        (w', Inl e) \<Rightarrow>
          if is_local_exception e then
            op_own (bind_r (reject \<lparr>rj_feedback = Some (feedback name), rj_reason = Some reason, rj_failure = None,
              rj_payload = None, rj_frame_data = [(''hook'', JStr name), (''error_type'', JStr (exn_name e))]\<rparr>)
              (\<lambda>r. Inr (Some r))) w'
          else (w', Inl (Raised e))
      | (w', Inr (Returned_Other class_name)) \<Rightarrow>
          op_own (bind_r (reject \<lparr>rj_feedback = Some (feedback name), rj_reason = Some reason, rj_failure = None,
            rj_payload = None, rj_frame_data = [(''hook'', JStr name), (''returned_type'', JStr class_name)]\<rparr>)
            (\<lambda>r. Inr (Some r))) w'
      | (w', Inr (Returned out)) \<Rightarrow>
          (case ho_failure out of
             Some failure \<Rightarrow>
               op_own (bind_r (reject \<lparr>rj_feedback = None, rj_reason = None, rj_failure = Some failure,
                 rj_payload = Some (ho_payload out),
                 rj_frame_data = AList.update ''hook'' (JStr name) (ho_frame_data out)\<rparr>)
                 (\<lambda>r. Inr (Some r))) w'
           | None \<Rightarrow> (w', Inr None)))"

fun run_normalize_hooks ::
  "((normalize_input, 'w) hook, 'e) hook_registry \<Rightarrow> string \<Rightarrow> normalize_input \<Rightarrow> string list
     \<Rightarrow> ('w, action_exn, action_result option) op" where
  "run_normalize_hooks registry fresh item [] = op_return None"
| "run_normalize_hooks registry fresh item (name # names) =
     (case normalize_hook_for registry name of
        Inl _ \<Rightarrow>
          op_own (bind_r (normalize_hook_failure fresh item
            \<lparr>rj_feedback = Some (normalize_hook_unavailable name), rj_reason = Some ''normalize_hook_unavailable'',
             rj_failure = None, rj_payload = None,
             rj_frame_data = [(''hook'', JStr name), (''error_type'', JStr ''ActionContractError'')]\<rparr>)
            (\<lambda>r. Inr (Some r)))
      | Inr hook \<Rightarrow>
          op_bind (run_hook (normalize_hook_failure fresh item) ''normalize_hook_failed'' normalize_hook_failed
            (hook item) name) (\<lambda>result.
          case result of Some r \<Rightarrow> op_return (Some r) | None \<Rightarrow> run_normalize_hooks registry fresh item names))"

definition normalize_pipeline ::
  "((normalize_input, 'w) hook, 'e) hook_registry \<Rightarrow> (normalize_input, 'w) hook \<Rightarrow> string \<Rightarrow> normalize_input
     \<Rightarrow> ('w, action_exn, action_result option) op" where
  "normalize_pipeline registry schema fresh item =
     op_bind (run_hook (normalize_hook_failure fresh item) ''normalize_hook_failed'' normalize_hook_failed
       (schema item) ''builtin.schema'') (\<lambda>result.
     case result of
       Some r \<Rightarrow> op_return (Some r)
     | None \<Rightarrow> run_normalize_hooks registry fresh item (normalize_names_for registry (ni_action item)))"

fun run_execution_hooks ::
  "('n, (prepared_execution, 'w) hook) hook_registry \<Rightarrow> string \<Rightarrow> prepared_execution \<Rightarrow> string list
     \<Rightarrow> ('w, action_exn, action_result option) op" where
  "run_execution_hooks registry fresh e [] = op_return None"
| "run_execution_hooks registry fresh e (name # names) =
     (case execution_hook_for registry name of
        Inl _ \<Rightarrow>
          op_own (bind_r (execution_hook_failure fresh e
            \<lparr>rj_feedback = Some (execution_hook_unavailable name), rj_reason = Some ''execution_hook_unavailable'',
             rj_failure = None, rj_payload = None,
             rj_frame_data = [(''hook'', JStr name), (''error_type'', JStr ''ActionContractError'')]\<rparr>)
            (\<lambda>r. Inr (Some r)))
      | Inr hook \<Rightarrow>
          op_bind (run_hook (execution_hook_failure fresh e) ''execution_hook_failed'' execution_hook_failed
            (hook e) name) (\<lambda>result.
          case result of Some r \<Rightarrow> op_return (Some r) | None \<Rightarrow> run_execution_hooks registry fresh e names))"

definition execution_pipeline ::
  "('n, (prepared_execution, 'w) hook) hook_registry \<Rightarrow> string \<Rightarrow> prepared_execution
     \<Rightarrow> ('w, action_exn, action_result option) op" where
  "execution_pipeline registry fresh e =
     run_execution_hooks registry fresh e (execution_names_for registry (pe_action e))"

section \<open>Results of the pipelines\<close>

lemma local_failure_ok:
  assumes "validate_failure_identifier reason ''reason'' = Inr ()" "validate_failure_identifier scope ''scope'' = Inr ()"
    "py_strip feedback \<noteq> []" "length feedback \<le> max_failure_feedback_chars"
  shows "mk_local_failure \<lparr>lf_reason = reason, lf_scope = scope, lf_disposition = d, lf_feedback = feedback,
      lf_constraint = []\<rparr> = Inr \<lparr>lf_reason = reason, lf_scope = scope, lf_disposition = d,
      lf_feedback = feedback, lf_constraint = []\<rparr>"
proof -
  have "length (dumps_json (JObj [])) \<le> max_failure_constraint_chars" by code_simp
  then show ?thesis using assms by (simp add: mk_local_failure_def)
qed

lemmas identifier_simps = validate_failure_identifier_def failure_identifier_chars_def

text \<open>The schema hook always answers, and it rejects exactly what the validation rejects.\<close>

lemma schema_check_total:
  "\<exists>out. schema_check item = Inr out \<and> mk_hook_outcome out = Inr out
     \<and> (ho_failure out = None \<longleftrightarrow>
          validate_action_params (tc_arguments (ni_tool_call item)) (at_schema (sp_tool (ni_action item))) = Inr ())"
proof (cases "validate_action_params (tc_arguments (ni_tool_call item)) (at_schema (sp_tool (ni_action item)))")
  case (Inr u)
  then show ?thesis by (simp add: schema_check_def hook_success_def mk_hook_outcome_def Let_def)
next
  case (Inl e)
  then obtain feedback where e: "e = ActionSchemaValidationError feedback" by (cases e)
  have "mk_local_failure \<lparr>lf_reason = ''invalid_action_params'', lf_scope = ''action.schema'',
      lf_disposition = FD_CHANGE_REQUEST, lf_feedback = feedback, lf_constraint = []\<rparr>
    = Inr \<lparr>lf_reason = ''invalid_action_params'', lf_scope = ''action.schema'',
      lf_disposition = FD_CHANGE_REQUEST, lf_feedback = feedback, lf_constraint = []\<rparr>"
    by (rule local_failure_ok) (use Inl e validation_feedback in \<open>auto simp: identifier_simps\<close>)
  then show ?thesis using Inl e
    by (simp add: schema_check_def hook_reject_def mk_hook_outcome_def or_empty_def hook_frame_reserved_fields_def Let_def)
qed

text \<open>What a rejection may carry so that its result can be built.\<close>

definition sound_rejection :: "rejection \<Rightarrow> bool" where
  "sound_rejection r \<longleftrightarrow>
     ''failure'' \<notin> set (dict_keys (or_empty (rj_payload r)))
     \<and> (case rj_failure r of
          Some f \<Rightarrow> rj_reason r = None \<and> rj_feedback r = None
        | None \<Rightarrow>
            (case (rj_reason r, rj_feedback r) of
               (Some reason, Some feedback) \<Rightarrow> validate_failure_identifier reason ''reason'' = Inr ()
                 \<and> py_strip feedback \<noteq> [] \<and> length feedback \<le> max_failure_feedback_chars
             | _ \<Rightarrow> False))"

lemma pipeline_failure_total:
  assumes "sound_rejection r" "validate_failure_identifier scope ''scope'' = Inr ()"
  shows "\<exists>f. pipeline_failure scope r = Inr f"
proof (cases "rj_failure r")
  case None
  then obtain reason feedback where r: "rj_reason r = Some reason" "rj_feedback r = Some feedback"
    "validate_failure_identifier reason ''reason'' = Inr ()" "py_strip feedback \<noteq> []"
    "length feedback \<le> max_failure_feedback_chars"
    using assms by (auto simp: sound_rejection_def split: option.splits)
  moreover have "reason \<noteq> []" using r by (auto simp: identifier_simps)
  moreover have "feedback \<noteq> []" using r by (auto simp: py_strip_def)
  ultimately show ?thesis using None assms(2)
    by (auto simp: pipeline_failure_def local_failure_ok neq_Nil_conv)
qed (use assms in \<open>auto simp: pipeline_failure_def sound_rejection_def\<close>)

text \<open>The result that answers a tool call, or an execution, with a failure of the given stage.\<close>

definition answers_call :: "tool_call \<Rightarrow> int \<Rightarrow> action_result \<Rightarrow> bool" where
  "answers_call tc n r \<longleftrightarrow>
     ar_call_id r = tc_id tc \<and> ar_action_name r = tc_name tc \<and> ar_sequence r = n \<and> ar_status r = RS_FAILED
     \<and> ar_stage r = ST_NORMALIZE \<and> mk_action_result r = Inr r"

definition answers_execution :: "prepared_execution \<Rightarrow> action_result \<Rightarrow> bool" where
  "answers_execution e r \<longleftrightarrow>
     ar_call_id r = ac_call_id (pe_call e) \<and> ar_invoke_id r = Some (af_invoke_id (pe_framework e))
     \<and> ar_batch_id r = Some (af_batch_id (pe_framework e)) \<and> ar_action_name r = ac_action_name (pe_call e)
     \<and> ar_sequence r = ac_sequence (pe_call e) \<and> ar_domain r = af_domain (pe_framework e)"

lemma result_failed_Inr:
  "result_failed fresh origin stage failure = Inr r \<Longrightarrow>
     ar_call_id r = ro_call_id origin \<and> ar_action_name r = ro_action_name origin \<and> ar_sequence r = ro_sequence origin
     \<and> ar_status r = RS_FAILED \<and> ar_stage r = stage \<and> ar_invoke_id r = ro_invoke_id origin
     \<and> ar_batch_id r = ro_batch_id origin \<and> ar_domain r = ro_domain origin \<and> ar_failure r = Some failure
     \<and> ar_trace_projection r = None \<and> mk_action_result r = Inr r"
  by (auto simp: result_failed_def mk_action_result_def bind_r_Inr_iff result_payload_def split: if_splits)

lemma result_failed_total:
  "ro_call_id origin \<noteq> [] \<Longrightarrow> ro_action_name origin \<noteq> [] \<Longrightarrow> 0 < ro_sequence origin \<Longrightarrow>
   ''failure'' \<notin> set (dict_keys (or_empty (ro_payload origin))) \<Longrightarrow>
     \<exists>r. result_failed fresh origin stage failure = Inr r"
  by (simp add: result_failed_def mk_action_result_def validate_failure_status_def result_payload_def)

definition live_call :: "tool_call \<Rightarrow> bool" where
  "live_call tc \<longleftrightarrow> tc_id tc \<noteq> [] \<and> tc_name tc \<noteq> []"

lemma normalize_hook_failure_answers:
  "normalize_hook_failure fresh item r = Inr a \<Longrightarrow> answers_call (ni_tool_call item) (ni_sequence item) a"
  by (auto simp: normalize_hook_failure_def bind_r_Inr_iff answers_call_def dest: result_failed_Inr)

lemma normalize_hook_failure_total:
  assumes "sound_rejection r" "live_call (ni_tool_call item)" "0 < ni_sequence item"
  shows "\<exists>a. normalize_hook_failure fresh item r = Inr a"
proof -
  obtain f where "pipeline_failure ''action.normalize_hook'' r = Inr f"
    using pipeline_failure_total [OF assms(1), of "''action.normalize_hook''"] by (auto simp: identifier_simps)
  then show ?thesis using assms
    by (auto simp: normalize_hook_failure_def live_call_def sound_rejection_def intro!: result_failed_total)
qed

lemma execution_hook_failure_answers:
  "execution_hook_failure fresh e r = Inr a \<Longrightarrow> answers_execution e a \<and> ar_status a = RS_FAILED"
  by (auto simp: execution_hook_failure_def bind_r_Inr_iff answers_execution_def dest: result_failed_Inr)

lemma execution_hook_failure_total:
  assumes "sound_rejection r" "mk_action_call (pe_call e) = Inr (pe_call e)"
  shows "\<exists>a. execution_hook_failure fresh e r = Inr a"
proof -
  obtain f where "pipeline_failure ''action.execution_hook'' r = Inr f"
    using pipeline_failure_total [OF assms(1), of "''action.execution_hook''"] by (auto simp: identifier_simps)
  then show ?thesis using assms
    by (auto simp: execution_hook_failure_def sound_rejection_def mk_action_call_def bind_r_Inr_iff
        require_non_empty_def split: if_splits intro!: result_failed_total)
qed

section \<open>What every pipeline guarantees\<close>

text \<open>A hook's outcome is an object its constructor accepted.\<close>

definition sound_hook :: "('i, 'w) hook \<Rightarrow> bool" where
  "sound_hook hook \<longleftrightarrow> (\<forall>i w w' out. hook i w = (w', Inr (Returned out)) \<longrightarrow> mk_hook_outcome out = Inr out)"

text \<open>The name of a hook leaves room for itself in a feedback.\<close>

definition short_name :: "string \<Rightarrow> bool" where
  "short_name name \<longleftrightarrow> length name \<le> 1900"

definition usable_facts :: "string \<Rightarrow> (string \<Rightarrow> string) \<Rightarrow> bool" where
  "usable_facts reason feedback \<longleftrightarrow>
     validate_failure_identifier reason ''reason'' = Inr ()
     \<and> (\<forall>name. short_name name \<longrightarrow> py_strip (feedback name) \<noteq> [] \<and> length (feedback name) \<le> max_failure_feedback_chars)"

lemma usable_hook_facts:
  "usable_facts ''normalize_hook_failed'' normalize_hook_failed"
  "usable_facts ''normalize_hook_unavailable'' normalize_hook_unavailable"
  "usable_facts ''execution_hook_failed'' execution_hook_failed"
  "usable_facts ''execution_hook_unavailable'' execution_hook_unavailable"
  by (simp_all add: usable_facts_def short_name_def identifier_simps normalize_hook_failed_def
      normalize_hook_unavailable_def execution_hook_failed_def execution_hook_unavailable_def
      max_failure_feedback_chars_def strip_not_blank py_isspace_def)

lemma sound_facts:
  "usable_facts reason feedback \<Longrightarrow> short_name name \<Longrightarrow>
     sound_rejection \<lparr>rj_feedback = Some (feedback name), rj_reason = Some reason, rj_failure = None,
       rj_payload = None, rj_frame_data = fd\<rparr>"
  by (simp add: usable_facts_def sound_rejection_def or_empty_def)

lemma sound_owner:
  "mk_hook_outcome out = Inr out \<Longrightarrow>
     sound_rejection \<lparr>rj_feedback = None, rj_reason = None, rj_failure = Some f,
       rj_payload = Some (ho_payload out), rj_frame_data = fd\<rparr>"
  by (simp add: sound_rejection_def or_empty_def mk_hook_outcome_def split: if_splits)

locale rejecting =
  fixes reject :: "string \<Rightarrow> 'i \<Rightarrow> rejection \<Rightarrow> engine_error + action_result"
    and ready :: "'i \<Rightarrow> bool"
    and answers :: "'i \<Rightarrow> action_result \<Rightarrow> bool"
  assumes rejected: "reject fresh i r = Inr a \<Longrightarrow> answers i a"
    and buildable: "ready i \<Longrightarrow> sound_rejection r \<Longrightarrow> \<exists>a. reject fresh i r = Inr a"
begin

text \<open>A step of a pipeline on \<open>i\<close>: it answers, goes on, or passes an exception that is not local.\<close>

definition settles :: "'i \<Rightarrow> ('w, action_exn, action_result option) op \<Rightarrow> bool" where
  "settles i m \<longleftrightarrow> (\<forall>w w' x. m w = (w', x) \<longrightarrow>
     (case x of
        Inr None \<Rightarrow> True
      | Inr (Some a) \<Rightarrow> answers i a
      | Inl (Raised e) \<Rightarrow> \<not> is_local_exception e
      | Inl (Broken _) \<Rightarrow> False))"

lemma settles_return: "settles i (op_return None)"
  by (auto simp: settles_def)

lemma settles_bind:
  "settles i m \<Longrightarrow> (\<And>x. settles i (k x)) \<Longrightarrow>
     settles i (op_bind m (\<lambda>r. case r of Some a \<Rightarrow> op_return (Some a) | None \<Rightarrow> k ()))"
  unfolding settles_def
  by (fastforce simp: op_bind_def split: prod.splits sum.splits option.splits action_exn.splits)

lemma settles_reject:
  assumes "ready i" "sound_rejection r"
  shows "settles i (op_own (bind_r (reject fresh i r) (\<lambda>a. Inr (Some a))))"
proof -
  obtain a where "reject fresh i r = Inr a" using buildable [OF assms] by blast
  then show ?thesis using rejected by (auto simp: settles_def)
qed

lemma settles_run_hook:
  assumes "ready i" "usable_facts reason feedback" "short_name name" "sound_hook hook"
  shows "settles i (run_hook (reject fresh i) reason feedback (hook i) name)"
  unfolding settles_def
proof (intro allI impI)
  fix w w' x
  assume run: "run_hook (reject fresh i) reason feedback (hook i) name w = (w', x)"
  have answer: "\<exists>a. reject fresh i r = Inr a \<and> answers i a" if "sound_rejection r" for r
    using buildable [OF assms(1) that] rejected by blast
  obtain w1 y where check: "hook i w = (w1, y)" by (cases "hook i w")
  show "case x of Inr None \<Rightarrow> True | Inr (Some a) \<Rightarrow> answers i a
      | Inl (Raised e) \<Rightarrow> \<not> is_local_exception e | Inl (Broken _) \<Rightarrow> False"
  proof (cases y)
    case (Inl e)
    obtain a where "reject fresh i \<lparr>rj_feedback = Some (feedback name), rj_reason = Some reason, rj_failure = None,
        rj_payload = None, rj_frame_data = [(''hook'', JStr name), (''error_type'', JStr (exn_name e))]\<rparr> = Inr a"
      "answers i a"
      using answer [OF sound_facts [OF assms(2,3)]] by blast
    then show ?thesis using run check Inl by (cases "is_local_exception e") (auto simp: run_hook_def)
  next
    case (Inr ret)
    show ?thesis
    proof (cases ret)
      case (Returned_Other class_name)
      obtain a where "reject fresh i \<lparr>rj_feedback = Some (feedback name), rj_reason = Some reason, rj_failure = None,
          rj_payload = None, rj_frame_data = [(''hook'', JStr name), (''returned_type'', JStr class_name)]\<rparr> = Inr a"
        "answers i a"
        using answer [OF sound_facts [OF assms(2,3)]] by blast
      then show ?thesis using run check Inr Returned_Other by (auto simp: run_hook_def)
    next
      case (Returned out)
      have "mk_hook_outcome out = Inr out"
        using assms(4) check Inr Returned by (auto simp: sound_hook_def)
      note owner = answer [OF sound_owner [OF this]]
      show ?thesis
      proof (cases "ho_failure out")
        case (Some f)
        obtain a where "reject fresh i \<lparr>rj_feedback = None, rj_reason = None, rj_failure = Some f,
            rj_payload = Some (ho_payload out),
            rj_frame_data = AList.update ''hook'' (JStr name) (ho_frame_data out)\<rparr> = Inr a" "answers i a"
          using owner by blast
        then show ?thesis using run check Inr Returned Some by (auto simp: run_hook_def)
      qed (use run check Inr Returned in \<open>auto simp: run_hook_def\<close>)
    qed
  qed
qed

end

definition normalize_ready :: "normalize_input \<Rightarrow> bool" where
  "normalize_ready i \<longleftrightarrow> live_call (ni_tool_call i) \<and> 0 < ni_sequence i"

interpretation normalize_rejecting: rejecting normalize_hook_failure normalize_ready
  "\<lambda>i. answers_call (ni_tool_call i) (ni_sequence i)"
  by unfold_locales
    (auto simp: normalize_ready_def intro: normalize_hook_failure_answers normalize_hook_failure_total)

interpretation execution_rejecting: rejecting execution_hook_failure
  "\<lambda>e. mk_action_call (pe_call e) = Inr (pe_call e)" "\<lambda>e a. answers_execution e a \<and> ar_status a = RS_FAILED"
  by unfold_locales (auto dest: execution_hook_failure_answers intro: execution_hook_failure_total)

lemma schema_hook_sound: "sound_hook schema_hook"
proof -
  have "mk_hook_outcome out = Inr out" if "schema_check item = Inr out" for item out
    using schema_check_total [of item] that by auto
  then show ?thesis by (auto simp: sound_hook_def schema_hook_def split: sum.splits)
qed

definition sound_normalize_hooks :: "((normalize_input, 'w) hook, 'e) hook_registry \<Rightarrow> bool" where
  "sound_normalize_hooks r \<longleftrightarrow> (\<forall>(name, hook) \<in> set (hr_normalize_hooks r). sound_hook hook)"

definition sound_execution_hooks :: "('n, (prepared_execution, 'w) hook) hook_registry \<Rightarrow> bool" where
  "sound_execution_hooks r \<longleftrightarrow> (\<forall>(name, hook) \<in> set (hr_execution_hooks r). sound_hook hook)"

lemma normalize_hooks_settle:
  assumes "sound_normalize_hooks r" "normalize_ready i" "list_all short_name names"
  shows "normalize_rejecting.settles i (run_normalize_hooks r fresh i names)"
  using assms(3)
proof (induction names)
  case (Cons name names)
  show ?case
  proof (cases "normalize_hook_for r name")
    case (Inl e)
    then show ?thesis using Cons.prems
      by (auto intro!: normalize_rejecting.settles_reject assms(2) sound_facts [where feedback = normalize_hook_unavailable]
          usable_hook_facts)
  next
    case (Inr hook)
    then have "sound_hook hook"
      using assms(1) by (auto simp: normalize_hook_for_def sound_normalize_hooks_def split: option.splits dest!: map_of_SomeD)
    then show ?thesis using Inr Cons
      by (auto intro!: normalize_rejecting.settles_bind normalize_rejecting.settles_run_hook assms(2) usable_hook_facts)
  qed
qed (simp add: normalize_rejecting.settles_return)

lemma execution_hooks_settle:
  assumes "sound_execution_hooks r" "mk_action_call (pe_call e) = Inr (pe_call e)" "list_all short_name names"
  shows "execution_rejecting.settles e (run_execution_hooks r fresh e names)"
  using assms(3)
proof (induction names)
  case (Cons name names)
  show ?case
  proof (cases "execution_hook_for r name")
    case (Inl err)
    then show ?thesis using Cons.prems
      by (auto intro!: execution_rejecting.settles_reject assms(2) sound_facts [where feedback = execution_hook_unavailable]
          usable_hook_facts)
  next
    case (Inr hook)
    then have "sound_hook hook"
      using assms(1) by (auto simp: execution_hook_for_def sound_execution_hooks_def split: option.splits dest!: map_of_SomeD)
    then show ?thesis using Inr Cons
      by (auto intro!: execution_rejecting.settles_bind execution_rejecting.settles_run_hook assms(2) usable_hook_facts)
  qed
qed (simp add: execution_rejecting.settles_return)

lemma normalize_pipeline_settles:
  assumes "sound_normalize_hooks r" "normalize_ready i" "list_all short_name (normalize_names_for r (ni_action i))"
  shows "normalize_rejecting.settles i (normalize_pipeline r schema_hook fresh i)"
  unfolding normalize_pipeline_def
  by (intro normalize_rejecting.settles_bind normalize_rejecting.settles_run_hook normalize_hooks_settle
      schema_hook_sound usable_hook_facts assms) (simp add: short_name_def)

lemma execution_pipeline_settles:
  assumes "sound_execution_hooks r" "mk_action_call (pe_call e) = Inr (pe_call e)"
    "list_all short_name (execution_names_for r (pe_action e))"
  shows "execution_rejecting.settles e (execution_pipeline r fresh e)"
  unfolding execution_pipeline_def by (rule execution_hooks_settle [OF assms])

lemma own_answer: "op_own (bind_r m (\<lambda>r. Inr (Some r))) w \<noteq> (w', Inr None)"
  by (cases m) auto

lemma run_hook_passes:
  assumes "run_hook reject reason feedback check name w = (w', Inr None)"
  obtains out where "check w = (w', Inr (Returned out))" "ho_failure out = None"
proof -
  obtain w1 y where check: "check w = (w1, y)" by (cases "check w")
  show ?thesis
  proof (cases y)
    case (Inl e)
    then show ?thesis using assms check by (cases "is_local_exception e") (auto simp: run_hook_def own_answer)
  next
    case (Inr ret)
    show ?thesis
    proof (cases ret)
      case (Returned out)
      then show ?thesis using assms check Inr that by (cases "ho_failure out") (auto simp: run_hook_def own_answer)
    qed (use assms check Inr in \<open>auto simp: run_hook_def own_answer\<close>)
  qed
qed

text \<open>What passes has parameters the schema accepts, whatever the other hooks do.\<close>

lemma normalize_pipeline_validates:
  assumes "normalize_pipeline r schema_hook fresh i w = (w', Inr None)"
  shows "validate_action_params (tc_arguments (ni_tool_call i)) (at_schema (sp_tool (ni_action i))) = Inr ()"
proof -
  obtain w1 x where first: "run_hook (normalize_hook_failure fresh i) ''normalize_hook_failed'' normalize_hook_failed
      (schema_hook i) ''builtin.schema'' w = (w1, Inr x)" and "x = None"
    using assms by (auto simp: normalize_pipeline_def op_bind_Inr split: option.splits)
  then obtain out where "schema_hook i w = (w1, Inr (Returned out))" "ho_failure out = None"
    by (auto elim: run_hook_passes)
  then show ?thesis using schema_check_total [of i] by (auto simp: schema_hook_def split: sum.splits)
qed

end
