(* ===== verification/Action_Planning.thy ===== *)
theory Action_Planning
  imports Action_Hooks
begin

text \<open>
  Planning and preparation of Actions (tinysoul/kernel/action: planning/scope.py, normalization.py,
  rendering.py, execution/preparation.py): the selection of domains in Phase 1, the tools of
  Phase 2, the tool calls of the model turned into Action calls or local results, the batch that is
  executed, and the messages that answer the calls. Identities made with \<open>uuid4\<close> are parameters.
\<close>

section \<open>Phase 1: the selection of domains\<close>

definition domain_selection_tool :: string where
  "domain_selection_tool = ''select_action_domains''"

definition available_domains :: "catalog \<Rightarrow> domain_spec list" where
  "available_domains c =
     filter (\<lambda>d. list_ex (\<lambda>a. sp_domain a = ds_name d) (catalog_actions c)) (catalog_domains c)"

definition domain_tool_parameters :: "catalog \<Rightarrow> json_object" where
  "domain_tool_parameters c =
     [(''type'', JStr ''object''),
      (''properties'', JObj
        [(''domains'', JObj
           [(''type'', JStr ''array''), (''minItems'', JInt 1),
            (''items'', JObj [(''type'', JStr ''string''),
               (''enum'', JArr (map (\<lambda>d. JStr (ds_name d)) (available_domains c)))]),
            (''description'', JStr ''Action domain names to expose in Phase2.'')]),
         (''intent'', JObj
           [(''type'', JStr ''string''),
            (''description'', JStr (''Brief intent for this Cycle, passed to Phase2 with ''
               @ ''the selected action domains.''))])]),
      (''required'', JArr [JStr ''domains'']), (''additionalProperties'', JBool False)]"

definition phase1_scope :: "catalog \<Rightarrow> engine_error + tool_scope" where
  "phase1_scope c =
     bind_r (of_llm (mk_tool_spec domain_selection_tool
       ''Select action domains for the next action-parameter generation phase.''
       (py_of_json (JObj (domain_tool_parameters c))) TK_CONTROL None)) (\<lambda>tool.
     bind_r (of_llm (mk_tool_selection [ts_name tool] None)) (\<lambda>selection.
     of_llm (mk_tool_scope [tool] selection)))"

record domain_selection =
  dm_selected_domains :: "string list"
  dm_intent :: string
  dm_feedback :: "string list"

definition refuse_selection :: "string \<Rightarrow> domain_selection" where
  "refuse_selection feedback = \<lparr>dm_selected_domains = [], dm_intent = [], dm_feedback = [feedback]\<rparr>"

definition domain_selection_feedback :: "catalog \<Rightarrow> string \<Rightarrow> string option" where
  "domain_selection_feedback c domain =
     (if \<not> has_domain c domain then Some (''Unknown action domain: '' @ domain)
      else case actions_in_domain c domain of
        Inr [] \<Rightarrow> Some (''Action domain has no available actions: '' @ domain)
      | _ \<Rightarrow> None)"

text \<open>The loop over the names of the call, with what it has selected, reported and seen.\<close>

fun select_domains ::
  "catalog \<Rightarrow> json list \<Rightarrow> string list \<Rightarrow> string list \<Rightarrow> string list \<Rightarrow> string list \<times> string list" where
  "select_domains c [] selected feedback seen = (selected, feedback)"
| "select_domains c (item # items) selected feedback seen =
     (case item of
        JStr (ch # chs) \<Rightarrow>
          if ch # chs \<in> set seen then select_domains c items selected feedback seen
          else (case domain_selection_feedback c (ch # chs) of
              Some f \<Rightarrow> select_domains c items selected (feedback @ [f]) ((ch # chs) # seen)
            | None \<Rightarrow> select_domains c items (selected @ [ch # chs]) feedback ((ch # chs) # seen))
      | _ \<Rightarrow> select_domains c items selected
          (feedback @ [''select_action_domains.domains must contain non-empty strings.'']) seen)"

definition normalize_selection :: "catalog \<Rightarrow> tool_call list \<Rightarrow> domain_selection" where
  "normalize_selection c tool_calls =
     (case filter (\<lambda>call. tc_name call = domain_selection_tool) tool_calls of
        [] \<Rightarrow> refuse_selection (''Phase1 must include one select_action_domains call with at least one ''
          @ ''valid domain; other context control calls remain optional.'')
      | [selection] \<Rightarrow>
          (case get_value (tc_arguments selection) ''domains'' of
             Some (JArr (item # items)) \<Rightarrow>
               (case dict_get (tc_arguments selection) ''intent'' (JStr []) of
                  JStr intent \<Rightarrow>
                    (case select_domains c (item # items) [] [] [] of (selected, feedback) \<Rightarrow>
                       (let feedback = (if selected = [] \<and> feedback = []
                          then [''select_action_domains.domains contained no usable domains.''] else feedback)
                        in \<lparr>dm_selected_domains = selected,
                            dm_intent = (if feedback = [] then py_strip intent else []), dm_feedback = feedback\<rparr>))
                | _ \<Rightarrow> refuse_selection ''select_action_domains.intent must be text when supplied.'')
           | _ \<Rightarrow> refuse_selection ''select_action_domains.domains must be a non-empty list of valid domain names.'')
      | _ \<Rightarrow> refuse_selection ''Phase1 must call select_action_domains only once.'')"

definition newline :: string where
  "newline = [CHR 0x0A]"

definition phase1_domain_prompt :: "catalog \<Rightarrow> string" where
  "phase1_domain_prompt c = py_join newline (''Available action domains:'' #
     concat (map (\<lambda>d. (''- '' @ ds_name d @ '': '' @ ds_description d)
         # (if ds_selection_hint d \<noteq> [] then [''  Selection hint: '' @ ds_selection_hint d] else []))
       (available_domains c)))"

section \<open>Phase 2: the tools of the selected domains\<close>

definition action_description :: "action_spec \<Rightarrow> string" where
  "action_description a = py_join newline
     (at_description (sp_tool a)
      # (if sm_use_when (sp_semantic a) \<noteq> [] then [''Use when: '' @ py_join ''; '' (sm_use_when (sp_semantic a))] else [])
      @ (if sm_avoid_when (sp_semantic a) \<noteq> [] then [''Avoid when: '' @ py_join ''; '' (sm_avoid_when (sp_semantic a))] else [])
      @ (if sm_effects (sp_semantic a) \<noteq> []
         then [''Effects: '' @ py_join '', '' (map effect_value (sm_effects (sp_semantic a)))] else [])
      @ (if sm_examples (sp_semantic a) \<noteq> [] then [''Examples: '' @ py_join ''; '' (sm_examples (sp_semantic a))] else []))"

definition action_tool_spec :: "action_spec \<Rightarrow> engine_error + tool_spec" where
  "action_tool_spec a = of_llm (mk_tool_spec (sp_name a) (action_description a)
     (py_of_json (JObj (at_schema (sp_tool a)))) TK_ACTION None)"

definition phase2_scope :: "catalog \<Rightarrow> string list \<Rightarrow> engine_error + tool_scope" where
  "phase2_scope c selected_domains =
     bind_r (traverse (actions_in_domain c) selected_domains) (\<lambda>groups.
     if concat groups = [] then Inl (EngineContract ''Phase2 action scope must contain at least one action'')
     else
       bind_r (traverse action_tool_spec (concat groups)) (\<lambda>tools.
       bind_r (of_llm (mk_tool_selection (map ts_name tools) None)) (\<lambda>selection.
       of_llm (mk_tool_scope tools selection))))"

record scope_preparation =
  sn_tool_scope :: "tool_scope option"
  sn_phase_results :: "phase_result list"

definition phase2_prepare ::
  "catalog \<Rightarrow> string list \<Rightarrow> string \<Rightarrow> cycle_phase \<Rightarrow> string \<Rightarrow> string \<Rightarrow> engine_error + scope_preparation" where
  "phase2_prepare c selected_domains fresh phase turn_id cycle_id =
     (case phase2_scope c selected_domains of
        Inr scope \<Rightarrow> Inr \<lparr>sn_tool_scope = Some scope, sn_phase_results = []\<rparr>
      | Inl (EngineContract m) \<Rightarrow>
          bind_r (of_action (mk_local_failure
            \<lparr>lf_reason = ''scope_preparation_failed'', lf_scope = ''action.scope'', lf_disposition = FD_STOP,
             lf_feedback = ''Action scope preparation failed.'', lf_constraint = []\<rparr>)) (\<lambda>failure.
          bind_r (of_action (phase_result_failed fresh phase PS_SCOPE failure
            (Some [(''error_type'', JStr ''ActionContractError''),
                   (''selected_domains'', JArr (map JStr selected_domains))]) turn_id cycle_id)) (\<lambda>result.
          Inr \<lparr>sn_tool_scope = None, sn_phase_results = [result]\<rparr>))
      | Inl e \<Rightarrow> Inl e)"

section \<open>Tool calls into Action calls\<close>

definition normalize_failure ::
  "string \<Rightarrow> tool_call \<Rightarrow> int \<Rightarrow> string \<Rightarrow> string \<Rightarrow> json_object option \<Rightarrow> engine_error + action_result" where
  "normalize_failure fresh tc sequence feedback reason frame_data =
     bind_r (of_action (mk_local_failure
       \<lparr>lf_reason = reason, lf_scope = ''action.normalize'', lf_disposition = FD_CHANGE_REQUEST,
        lf_feedback = feedback, lf_constraint = []\<rparr>)) (\<lambda>failure.
     of_action (result_failed fresh
       \<lparr>ro_call_id = tc_id tc, ro_invoke_id = None, ro_batch_id = None, ro_action_name = tc_name tc,
        ro_sequence = sequence, ro_domain = [], ro_payload = None, ro_frame_data = frame_data\<rparr>
       ST_NORMALIZE failure))"

fun tool_kind_value :: "tool_kind \<Rightarrow> string" where
  "tool_kind_value TK_CONTROL = ''control''"
| "tool_kind_value TK_ACTION = ''action''"

record ('w, 'e) normalizer =
  nm_registry :: "((normalize_input, 'w) hook, 'e) hook_registry"
  nm_schema_hook :: "(normalize_input, 'w) hook"
  nm_catalog :: catalog
  nm_fresh :: "int \<Rightarrow> string"

text \<open>One tool call of the loop: a local result, or a call to execute.\<close>

definition normalize_call ::
  "('w, 'e) normalizer \<Rightarrow> int \<Rightarrow> tool_call \<Rightarrow> bool \<Rightarrow> ('w, action_exn, action_result + action_call) op" where
  "normalize_call n sequence tc seen =
     (if seen then
        op_own (bind_r (normalize_failure (nm_fresh n sequence) tc sequence
          (''Duplicate action tool call id: '' @ tc_id tc) ''duplicate_call_id'' None) (\<lambda>r. Inr (Inl r)))
      else if tc_kind tc \<noteq> Some TK_ACTION then
        op_own (bind_r (normalize_failure (nm_fresh n sequence) tc sequence
          (''Expected an action tool call, but received a control or uncategorized tool call.'') ''unexpected_tool_kind''
          (Some [(''tool_kind'', case tc_kind tc of None \<Rightarrow> JNull | Some k \<Rightarrow> JStr (tool_kind_value k))]))
          (\<lambda>r. Inr (Inl r)))
      else if \<not> has_action (nm_catalog n) (tc_name tc) then
        op_own (bind_r (normalize_failure (nm_fresh n sequence) tc sequence
          (''Unknown action tool call: '' @ tc_name tc) ''unknown_action'' None) (\<lambda>r. Inr (Inl r)))
      else
        op_bind (op_own (get_action (nm_catalog n) (tc_name tc))) (\<lambda>a.
        op_bind (op_built (mk_normalize_input
          \<lparr>ni_tool_call = tc, ni_action = a, ni_sequence = sequence\<rparr>)) (\<lambda>item.
        op_bind (normalize_pipeline (nm_registry n) (nm_schema_hook n) (nm_fresh n sequence) item) (\<lambda>hook_result.
        case hook_result of
          Some r \<Rightarrow> op_return (Inl r)
        | None \<Rightarrow> op_built (bind_r (mk_action_call
            \<lparr>ac_call_id = tc_id tc, ac_action_name = tc_name tc, ac_params = tc_arguments tc,
             ac_sequence = sequence\<rparr>) (\<lambda>c. Inr (Inr c)))))))"

record normalization =
  nz_calls :: "action_call list"
  nz_results :: "action_result list"

fun normalize_loop ::
  "('w, 'e) normalizer \<Rightarrow> int \<Rightarrow> tool_call list \<Rightarrow> string list \<Rightarrow> normalization
     \<Rightarrow> ('w, action_exn, normalization) op" where
  "normalize_loop n index [] seen_call_ids acc = op_return acc"
| "normalize_loop n index (tc # tcs) seen_call_ids acc =
     op_bind (normalize_call n (index + 1) tc (tc_id tc \<in> set seen_call_ids)) (\<lambda>answer.
     normalize_loop n (index + 1) tcs (tc_id tc # seen_call_ids)
       (case answer of
          Inl r \<Rightarrow> acc\<lparr>nz_results := nz_results acc @ [r]\<rparr>
        | Inr c \<Rightarrow> acc\<lparr>nz_calls := nz_calls acc @ [c]\<rparr>))"

definition normalize :: "('w, 'e) normalizer \<Rightarrow> tool_call list \<Rightarrow> ('w, action_exn, normalization) op" where
  "normalize n tool_calls = normalize_loop n 0 tool_calls [] \<lparr>nz_calls = [], nz_results = []\<rparr>"

section \<open>Calls into a batch\<close>

definition prepare_failure ::
  "string \<Rightarrow> action_call \<Rightarrow> string \<Rightarrow> string \<Rightarrow> string \<Rightarrow> engine_error + action_result" where
  "prepare_failure fresh c batch_id feedback reason =
     bind_r (of_action (mk_local_failure
       \<lparr>lf_reason = reason, lf_scope = ''action.prepare'', lf_disposition = FD_STOP,
        lf_feedback = feedback, lf_constraint = []\<rparr>)) (\<lambda>failure.
     of_action (result_failed fresh
       \<lparr>ro_call_id = ac_call_id c, ro_invoke_id = None, ro_batch_id = Some batch_id,
        ro_action_name = ac_action_name c, ro_sequence = ac_sequence c, ro_domain = [], ro_payload = None,
        ro_frame_data = None\<rparr> ST_PREPARE failure))"

record prepared_batch =
  pb_batch_id :: string
  pb_executions :: "prepared_execution list"

definition mk_prepared_batch :: "prepared_batch \<Rightarrow> prepared_batch action_result_of" where
  "mk_prepared_batch b =
     bind_r (mk_action_batch \<lparr>ab_batch_id = pb_batch_id b, ab_executions = map as_execution (pb_executions b)\<rparr>)
       (\<lambda>_. Inr b)"

record batch_request =
  br_catalog :: catalog
  br_scope :: run_scope
  br_batch_id :: string
  br_turn_id :: string
  br_cycle_id :: string
  br_phase :: cycle_phase
  br_fresh :: "nat \<Rightarrow> string"

definition prepare_execution :: "batch_request \<Rightarrow> nat \<Rightarrow> action_call \<Rightarrow> action_spec \<Rightarrow> engine_error + prepared_execution" where
  "prepare_execution q k c a =
     bind_r (of_action (mk_action_framework
       \<lparr>af_invoke_id = ''action_invoke_'' @ br_fresh q k, af_batch_id = br_batch_id q, af_scope = br_scope q,
        af_domain = sp_domain a, af_deadline = None, af_timeout_seconds = rs_timeout_seconds (sp_runtime a),
        af_turn_id = br_turn_id q, af_cycle_id = br_cycle_id q, af_phase = br_phase q\<rparr>)) (\<lambda>f.
     bind_r (of_action (mk_action_execution (as_execution \<lparr>pe_action = a, pe_call = c, pe_framework = f\<rparr>))) (\<lambda>_.
     Inr \<lparr>pe_action = a, pe_call = c, pe_framework = f\<rparr>))"

text \<open>The loop of \<open>prepare_batch\<close>: \<open>k\<close> counts the calls, to name the identities drawn.\<close>

fun prepare_loop ::
  "batch_request \<Rightarrow> nat \<Rightarrow> action_call list \<Rightarrow> string list \<Rightarrow> int list \<Rightarrow> prepared_execution list
     \<Rightarrow> action_result list \<Rightarrow> engine_error + (prepared_execution list \<times> action_result list)" where
  "prepare_loop q k [] seen_call_ids seen_sequences executions results = Inr (executions, results)"
| "prepare_loop q k (c # cs) seen_call_ids seen_sequences executions results =
     (if ac_call_id c \<in> set seen_call_ids then
        bind_r (prepare_failure (br_fresh q k) c (br_batch_id q) (''Duplicate action call id: '' @ ac_call_id c)
          ''duplicate_call_id'') (\<lambda>r.
        prepare_loop q (Suc k) cs seen_call_ids seen_sequences executions (results @ [r]))
      else if ac_sequence c \<in> set seen_sequences then
        bind_r (prepare_failure (br_fresh q k) c (br_batch_id q)
          (''Duplicate action sequence: '' @ show_int (ac_sequence c)) ''duplicate_sequence'') (\<lambda>r.
        prepare_loop q (Suc k) cs seen_call_ids seen_sequences executions (results @ [r]))
      else if \<not> has_action (br_catalog q) (ac_action_name c) then
        bind_r (prepare_failure (br_fresh q k) c (br_batch_id q)
          (''Unknown action during preparation: '' @ ac_action_name c) ''unknown_action'') (\<lambda>r.
        prepare_loop q (Suc k) cs (ac_call_id c # seen_call_ids) (ac_sequence c # seen_sequences) executions
          (results @ [r]))
      else
        bind_r (get_action (br_catalog q) (ac_action_name c)) (\<lambda>a.
        bind_r (prepare_execution q k c a) (\<lambda>e.
        prepare_loop q (Suc k) cs (ac_call_id c # seen_call_ids) (ac_sequence c # seen_sequences)
          (executions @ [e]) results)))"

record batch_preparation =
  bp_batch :: prepared_batch
  bp_results :: "action_result list"
  bp_phase_results :: "phase_result list"

definition prepare_batch :: "batch_request \<Rightarrow> action_call list \<Rightarrow> engine_error + batch_preparation" where
  "prepare_batch q calls =
     bind_r (prepare_loop q 0 calls [] [] [] []) (\<lambda>(executions, results).
     case mk_prepared_batch \<lparr>pb_batch_id = br_batch_id q, pb_executions = executions\<rparr> of
       Inr batch \<Rightarrow> Inr \<lparr>bp_batch = batch, bp_results = results, bp_phase_results = []\<rparr>
     | Inl _ \<Rightarrow>
         bind_r (of_action (mk_prepared_batch \<lparr>pb_batch_id = br_batch_id q, pb_executions = []\<rparr>)) (\<lambda>batch.
         bind_r (of_action (mk_local_failure
           \<lparr>lf_reason = ''batch_invariant_error'', lf_scope = ''action.prepare'', lf_disposition = FD_STOP,
            lf_feedback = ''Action batch preparation failed.'', lf_constraint = []\<rparr>)) (\<lambda>failure.
         bind_r (of_action (phase_result_failed (br_fresh q (length calls)) (br_phase q) PS_PREPARE failure
           (Some [(''error_type'', JStr ''ActionInvariantError'')]) (br_turn_id q) (br_cycle_id q))) (\<lambda>r.
         Inr \<lparr>bp_batch = batch, bp_results = results, bp_phase_results = [r]\<rparr>))))"

definition build_batch :: "batch_request \<Rightarrow> action_call list \<Rightarrow> engine_error + prepared_batch" where
  "build_batch q calls =
     bind_r (prepare_batch q calls) (\<lambda>p.
     if bp_results p \<noteq> [] \<or> bp_phase_results p \<noteq> []
     then Inl (EngineContract ''Action batch preparation produced local results'')
     else Inr (bp_batch p))"

end
