(* ===== verification/Action_Runner.thy ===== *)
theory Action_Runner
  imports Action_Planning Trace
begin

text \<open>
  The execution of a batch (tinysoul/kernel/action/execution: executor.py, runner.py, and the bridge
  of kernel/action/runtime_bridge.py): the executor registry, the control of an execution, the plan
  of the groups, the task that runs one execution and reports its facts, and the run of the batch.

  What a task meets while it waits (a cancellation, the deadline, what its work ends with, what the
  recorder of facts answers) is the \<open>task_schedule\<close>: the task is a function of it. The event loop
  that runs the tasks of a group side by side is a relation: their facts interleave, and the group
  ends with the results of all, the exception of one, or a cancellation.
\<close>

section \<open>Executors\<close>

definition register_executor ::
  "string \<Rightarrow> 'x \<Rightarrow> (string \<times> 'x) list \<Rightarrow> engine_error + (string \<times> 'x) list" where
  "register_executor executor_id executor registry =
     (if executor_id = [] then Inl (EngineContract ''executor_id must be non-empty'')
      else if executor_id \<in> set (dict_keys registry)
      then Inl (EngineContract (''Action executor already registered: '' @ executor_id))
      else Inr (AList.update executor_id executor registry))"

definition get_executor :: "(string \<times> 'x) list \<Rightarrow> string \<Rightarrow> engine_error + 'x" where
  "get_executor registry executor_id =
     (case map_of registry executor_id of
        None \<Rightarrow> Inl (EngineContract (''Unknown action executor: '' @ executor_id))
      | Some executor \<Rightarrow> Inr executor)"

definition missing_executors_for :: "(string \<times> 'x) list \<Rightarrow> catalog \<Rightarrow> string list" where
  "missing_executors_for registry c = sort (remdups (filter (\<lambda>x. x \<notin> set (dict_keys registry))
     (map (\<lambda>a. xs_executor (sp_execution a)) (catalog_actions c))))"

definition validate_executors :: "(string \<times> 'x) list \<Rightarrow> catalog \<Rightarrow> engine_error + unit" where
  "validate_executors registry c =
     (if missing_executors_for registry c \<noteq> [] then
        Inl (EngineContract (''Action catalog references unregistered executors: ''
          @ py_join '', '' (missing_executors_for registry c)))
      else Inr ())"

section \<open>The control of an execution\<close>

text \<open>
  The reason is empty until a cancellation is requested, and the first request stays. Callbacks wait
  for it in order; one that raises is passed over.
\<close>

record 'cb execution_control =
  xc_deadline :: "rat option"
  xc_cancelled :: bool
  xc_reason :: string
  xc_callbacks :: "'cb list"

definition remaining_seconds :: "rat \<Rightarrow> 'cb execution_control \<Rightarrow> rat option" where
  "remaining_seconds now c = map_option (\<lambda>d. max 0 (d - now)) (xc_deadline c)"

definition control_expired :: "rat \<Rightarrow> 'cb execution_control \<Rightarrow> bool" where
  "control_expired now c = (case xc_deadline c of None \<Rightarrow> False | Some d \<Rightarrow> d \<le> now)"

text \<open>The callbacks to run come with the new control, in their order.\<close>

definition request_cancel :: "string \<Rightarrow> 'cb execution_control \<Rightarrow> 'cb execution_control \<times> 'cb list" where
  "request_cancel reason c =
     (if xc_cancelled c then (c, [])
      else (c\<lparr>xc_reason := (if reason = [] then ''cancelled'' else reason), xc_cancelled := True,
              xc_callbacks := []\<rparr>, xc_callbacks c))"

definition add_cancel_callback :: "'cb \<Rightarrow> 'cb execution_control \<Rightarrow> 'cb execution_control \<times> 'cb list" where
  "add_cancel_callback callback c =
     (if xc_cancelled c then (c, [callback]) else (c\<lparr>xc_callbacks := xc_callbacks c @ [callback]\<rparr>, []))"

definition remove_cancel_callback :: "'cb \<Rightarrow> 'cb execution_control \<Rightarrow> 'cb execution_control" where
  "remove_cancel_callback callback c = c\<lparr>xc_callbacks := remove1 callback (xc_callbacks c)\<rparr>"

text \<open>\<open>check_cancelled\<close> raises \<open>ActionExecutionCancelled\<close> when it is cancelled or expired.\<close>

definition check_control :: "rat \<Rightarrow> 'cb execution_control \<Rightarrow> exn + unit" where
  "check_control now c =
     (if xc_cancelled c \<or> control_expired now c then Inl ActionExecutionCancelled else Inr ())"

section \<open>Failures of the Action module in the runtime\<close>

datatype action_failure_kind =
  AK_CONFIGURATION_FAILED | AK_CONTRACT_VIOLATION | AK_INTERNAL_FAILURE | AK_MODEL_INVOCATION_FAILED

fun action_failure_value :: "action_failure_kind \<Rightarrow> string" where
  "action_failure_value AK_CONFIGURATION_FAILED = ''action.configuration_failed''"
| "action_failure_value AK_CONTRACT_VIOLATION = ''action.contract_violation''"
| "action_failure_value AK_INTERNAL_FAILURE = ''action.internal_failure''"
| "action_failure_value AK_MODEL_INVOCATION_FAILED = ''action.model_invocation_failed''"

fun action_failure_reason :: "action_failure_kind \<Rightarrow> string" where
  "action_failure_reason AK_CONFIGURATION_FAILED = runtime_startup_failed"
| "action_failure_reason AK_CONTRACT_VIOLATION = runtime_turn_end"
| "action_failure_reason AK_INTERNAL_FAILURE = runtime_turn_end"
| "action_failure_reason AK_MODEL_INVOCATION_FAILED = runtime_turn_end"

fun action_failure_message :: "action_failure_kind \<Rightarrow> string" where
  "action_failure_message AK_CONFIGURATION_FAILED = ''Action configuration is invalid.''"
| "action_failure_message AK_CONTRACT_VIOLATION = ''Action call violated its contract.''"
| "action_failure_message AK_INTERNAL_FAILURE = ''Action operation failed internally.''"
| "action_failure_message AK_MODEL_INVOCATION_FAILED = ''Action model dependency failed.''"

definition action_from_failure ::
  "action_failure_kind \<Rightarrow> string \<Rightarrow> json_object \<Rightarrow> exn + runtime_exception" where
  "action_from_failure kind message payload =
     module_failure ''action'' (action_failure_value kind) (action_failure_reason kind) message payload"

text \<open>\<open>from_action_error\<close>: of the error the bridge reads its class.\<close>

definition from_action_error :: "string \<Rightarrow> bool \<Rightarrow> exn + runtime_exception" where
  "from_action_error error_type is_contract =
     (let kind = (if is_contract then AK_CONTRACT_VIOLATION else AK_INTERNAL_FAILURE) in
      action_from_failure kind (action_failure_message kind) [(''error_type'', JStr error_type)])"

text \<open>
  The failure kinds of the model module with the reason of each (tinysoul/llm: failures.py,
  runtime_bridge.py).
\<close>

datatype llm_failure_kind =
    LK_MODEL_CHAIN_EXHAUSTED | LK_MODEL_CONTEXT_PRESSURE | LK_MODEL_CONTEXT_LIMIT_REACHED
  | LK_CONFIGURATION_FAILED | LK_CONTRACT_VIOLATION | LK_INTERNAL_FAILURE

fun llm_failure_value :: "llm_failure_kind \<Rightarrow> string" where
  "llm_failure_value LK_MODEL_CHAIN_EXHAUSTED = ''llm.model_chain_exhausted''"
| "llm_failure_value LK_MODEL_CONTEXT_PRESSURE = ''llm.model_context_pressure''"
| "llm_failure_value LK_MODEL_CONTEXT_LIMIT_REACHED = ''llm.model_context_limit_reached''"
| "llm_failure_value LK_CONFIGURATION_FAILED = ''llm.configuration_failed''"
| "llm_failure_value LK_CONTRACT_VIOLATION = ''llm.contract_violation''"
| "llm_failure_value LK_INTERNAL_FAILURE = ''llm.internal_failure''"

fun llm_failure_reason :: "llm_failure_kind \<Rightarrow> string" where
  "llm_failure_reason LK_MODEL_CONTEXT_PRESSURE = ''llm.context_capacity_exceeded''"
| "llm_failure_reason LK_CONFIGURATION_FAILED = runtime_startup_failed"
| "llm_failure_reason _ = runtime_turn_end"

fun llm_failure_message :: "llm_failure_kind \<Rightarrow> string" where
  "llm_failure_message LK_MODEL_CHAIN_EXHAUSTED = ''LLM model chain is exhausted.''"
| "llm_failure_message LK_MODEL_CONTEXT_PRESSURE = ''LLM request exceeds model context capacity.''"
| "llm_failure_message LK_MODEL_CONTEXT_LIMIT_REACHED = ''LLM request exceeds model context capacity.''"
| "llm_failure_message LK_CONFIGURATION_FAILED = ''LLM configuration is invalid.''"
| "llm_failure_message LK_CONTRACT_VIOLATION = ''LLM call violated its contract.''"
| "llm_failure_message LK_INTERNAL_FAILURE = ''LLM operation failed internally.''"

definition llm_from_failure :: "llm_failure_kind \<Rightarrow> string \<Rightarrow> json_object \<Rightarrow> exn + runtime_exception" where
  "llm_from_failure kind message payload =
     module_failure ''llm'' (llm_failure_value kind) (llm_failure_reason kind) message payload"

section \<open>Groups\<close>

text \<open>\<open>BatchConcurrencyPlanner.plan\<close>, with the parallel executions collected so far.\<close>

fun plan_groups :: "prepared_execution list \<Rightarrow> prepared_execution list \<Rightarrow> prepared_execution list list" where
  "plan_groups [] parallel = (if parallel \<noteq> [] then [parallel] else [])"
| "plan_groups (e # es) parallel =
     (if rs_parallel_policy (sp_runtime (pe_action e)) = PP_ALLOWED then plan_groups es (parallel @ [e])
      else (if parallel \<noteq> [] then [parallel] else []) @ [e] # plan_groups es [])"

definition plan :: "prepared_batch \<Rightarrow> prepared_execution list list" where
  "plan b = plan_groups (pb_executions b) []"

section \<open>One execution\<close>

text \<open>What the work of an execution raises: an exception, or a failure of a model dependency.\<close>

datatype run_exn = RunAction action_exn | RunLLM llm_failure_kind json_object | RunModel string

abbreviation raises :: "exn \<Rightarrow> run_exn" where
  "raises e \<equiv> RunAction (Raised e)"

definition result_mismatch :: "prepared_execution \<Rightarrow> action_result \<Rightarrow> bool" where
  "result_mismatch e r \<longleftrightarrow>
     ar_call_id r \<noteq> ac_call_id (pe_call e) \<or> ar_invoke_id r \<noteq> Some (af_invoke_id (pe_framework e))
     \<or> ar_batch_id r \<noteq> Some (af_batch_id (pe_framework e)) \<or> ar_action_name r \<noteq> ac_action_name (pe_call e)
     \<or> ar_sequence r \<noteq> ac_sequence (pe_call e) \<or> ar_domain r \<noteq> af_domain (pe_framework e)"

definition trace_projection_mismatch :: "prepared_execution \<Rightarrow> action_result \<Rightarrow> bool" where
  "trace_projection_mismatch e r \<longleftrightarrow>
     ar_status r = RS_SUCCESS
     \<and> (rs_trace_mode (sp_runtime (pe_action e)) = TM_FOLDABLE) \<noteq> (ar_trace_projection r \<noteq> None)"

text \<open>
  \<open>_run_one\<close>: the execution hooks, else the executor; an executor returns a result or an object of
  another class (None here). Both are operations on a world.
\<close>

type_synonym 'w executor = "prepared_execution \<Rightarrow> ('w, run_exn, action_result option) op"

definition of_pipeline :: "('w, action_exn, 'a) op \<Rightarrow> ('w, run_exn, 'a) op" where
  "of_pipeline m w = (case m w of (w', r) \<Rightarrow> (w', map_sum RunAction id r))"

definition run_one ::
  "('n, (prepared_execution, 'w) hook) hook_registry \<Rightarrow> (string \<times> 'w executor) list \<Rightarrow> string
     \<Rightarrow> prepared_execution \<Rightarrow> ('w, run_exn, action_result) op" where
  "run_one hooks executors fresh e =
     op_bind (of_pipeline (execution_pipeline hooks fresh e)) (\<lambda>hook_result.
     op_bind (case hook_result of
         Some r \<Rightarrow> op_return (Some r)
       | None \<Rightarrow> op_bind (of_pipeline (op_own (get_executor executors (xs_executor (sp_execution (pe_action e))))))
           (\<lambda>executor. executor e)) (\<lambda>result.
     case result of
       None \<Rightarrow> op_raise (RunAction (Broken (EngineInvariant ''Action executor returned an invalid result object'')))
     | Some r \<Rightarrow>
         if result_mismatch e r then
           op_raise (RunAction (Broken (EngineInvariant ''Action executor returned another invocation's result'')))
         else if trace_projection_mismatch e r then
           op_raise (RunAction (Broken (EngineInvariant ''Action executor violated the result trace policy'')))
         else op_return r))"

definition timeout_result :: "string \<Rightarrow> json option \<Rightarrow> prepared_execution \<Rightarrow> engine_error + action_result" where
  "timeout_result fresh timeout_seconds e =
     bind_r (of_action (mk_local_failure
       \<lparr>lf_reason = ''execution_timeout'', lf_scope = ''action.timeout'', lf_disposition = FD_RETRY_SAME,
        lf_feedback = ''Action exceeded its execution deadline.'',
        lf_constraint = (case timeout_seconds of None \<Rightarrow> [] | Some t \<Rightarrow> [(''timeout_seconds'', t)])\<rparr>)) (\<lambda>failure.
     of_action (result_timeout fresh
       \<lparr>ro_call_id = ac_call_id (pe_call e), ro_invoke_id = Some (af_invoke_id (pe_framework e)),
        ro_batch_id = Some (af_batch_id (pe_framework e)), ro_action_name = ac_action_name (pe_call e),
        ro_sequence = ac_sequence (pe_call e), ro_domain = af_domain (pe_framework e), ro_payload = None,
        ro_frame_data = Some [(''executor_started'', JBool True), (''cancel_reason'', JStr ''timeout''),
          (''executor_leaked'', JBool False), (''late_success'', JBool False), (''cancel_requested'', JBool True)]\<rparr>
       failure))"

section \<open>The task of an execution\<close>

datatype wait_end = Work_Done | Deadline_Passed | Cancelled_Waiting

text \<open>
  What the task meets, in order: a cancellation at the gate, the Turn already cancelled, the time it
  starts, how its wait ends and whether the group has asked to cancel by then, a second cancellation
  while it joins its work, what the work ended with, whether the deadline had passed then, and whether
  an owner's operation was cancelled. \<open>tk_refusal\<close> is the recorder's exception, if it refuses a fact;
  \<open>tk_timeout_json\<close> is the timeout as a JSON number.
\<close>

record task_schedule =
  tk_gate_cancelled :: bool
  tk_turn_cancelled :: bool
  tk_start :: rat
  tk_group_cancelled :: bool
  tk_wait :: wait_end
  tk_join_cancelled :: bool
  tk_work :: "run_exn + action_result"
  tk_expired :: bool
  tk_owner_cancelled :: bool
  tk_refusal :: "execution_state \<Rightarrow> exn option"
  tk_fresh :: string
  tk_timeout_json :: "json option"

definition is_cancellation :: "run_exn \<Rightarrow> bool" where
  "is_cancellation e = (e \<in> {raises AsyncCancelled, raises ActionExecutionCancelled, raises TaskCancelled})"

text \<open>A fact the task records: the fact itself, and the exception of its construction or of the recorder.\<close>

definition attempt_fact ::
  "task_schedule \<Rightarrow> prepared_execution \<Rightarrow> execution_state \<Rightarrow> action_result option
     \<Rightarrow> execution_fact list \<times> (run_exn + unit)" where
  "attempt_fact s e state result =
     (case of_action (mk_execution_fact
        \<lparr>ef_call = pe_call e, ef_framework = pe_framework e, ef_state = state, ef_result = result\<rparr>) of
        Inl err \<Rightarrow> ([], Inl (RunAction (Broken err)))
      | Inr f \<Rightarrow> ([f], case tk_refusal s state of None \<Rightarrow> Inr () | Some x \<Rightarrow> Inl (raises x)))"

text \<open>Where the body of the task leaves it: the execution, with its deadline once it started, its facts, how far it came, and what it ends with.\<close>

record task_end =
  td_execution :: prepared_execution
  td_facts :: "execution_fact list"
  td_started :: bool
  td_settled :: bool
  td_outcome :: "run_exn + action_result"

text \<open>From the end of the work on: the result, or the timeout that explains a cancelled work.\<close>

definition task_settle ::
  "task_schedule \<Rightarrow> prepared_execution \<Rightarrow> execution_fact list \<Rightarrow> bool \<Rightarrow> string \<Rightarrow> task_end" where
  "task_settle s e facts cancelled reason =
     (let reason = (case tk_work s of
            Inl x \<Rightarrow> if is_cancellation x \<and> reason = [] \<and> tk_expired s then ''timeout'' else reason
          | Inr _ \<Rightarrow> reason);
          result = (case tk_work s of
            Inr r \<Rightarrow> Inr r
          | Inl x \<Rightarrow> if is_cancellation x \<and> reason = ''timeout''
              then map_sum (\<lambda>err. RunAction (Broken err)) id (timeout_result (tk_fresh s) (tk_timeout_json s) e)
              else Inl x)
      in case result of
           Inl x \<Rightarrow> \<lparr>td_execution = e, td_facts = facts, td_started = True, td_settled = False, td_outcome = Inl x\<rparr>
         | Inr r \<Rightarrow>
             (case attempt_fact s e ES_SETTLED (Some r) of
                (fs, Inl x) \<Rightarrow> \<lparr>td_execution = e, td_facts = facts @ fs, td_started = True, td_settled = False, td_outcome = Inl x\<rparr>
              | (fs, Inr _) \<Rightarrow>
                  \<lparr>td_execution = e, td_facts = facts @ fs, td_started = True, td_settled = True,
                   td_outcome =
                     (if cancelled \<or> (reason \<noteq> ''timeout'' \<and> tk_owner_cancelled s)
                      then Inl (raises AsyncCancelled) else Inr r)\<rparr>))"

text \<open>The body of the task: the gate, the start, the wait, the join.\<close>

definition task_body :: "task_schedule \<Rightarrow> prepared_execution \<Rightarrow> task_end" where
  "task_body s e0 =
     (let stop = (\<lambda>e fs started x. \<lparr>td_execution = e, td_facts = fs, td_started = started, td_settled = False, td_outcome = Inl x\<rparr>) in
      if tk_gate_cancelled s then stop e0 [] False (raises AsyncCancelled)
      else if tk_turn_cancelled s then stop e0 [] False (raises ActionExecutionCancelled)
      else
        let f = pe_framework e0;
            e = e0\<lparr>pe_framework := f\<lparr>af_deadline := map_option (\<lambda>t. tk_start s + t) (af_timeout_seconds f)\<rparr>\<rparr>
        in case attempt_fact s e ES_STARTED None of
             (fs, Inl x) \<Rightarrow> stop e fs False x
           | (fs, Inr _) \<Rightarrow>
               let reason = (if tk_group_cancelled s then ''cancelled'' else []);
                   reason = (if reason = [] then
                       (case tk_wait s of Work_Done \<Rightarrow> [] | Deadline_Passed \<Rightarrow> ''timeout''
                        | Cancelled_Waiting \<Rightarrow> ''cancelled'') else reason);
                   again = (tk_wait s \<noteq> Work_Done \<and> tk_join_cancelled s);
                   cancelled = (tk_wait s = Cancelled_Waiting \<or> again);
                   reason = (if reason = [] \<and> again then ''cancelled'' else reason)
               in task_settle s e fs cancelled reason)"

text \<open>The handlers: the fact an unsettled execution is left with, and the exception the task raises.\<close>

definition closing_state :: "bool \<Rightarrow> run_exn \<Rightarrow> execution_state" where
  "closing_state started x =
     (if is_cancellation x then (if started then ES_CANCELLED else ES_NOT_EXECUTED) else ES_UNKNOWN)"

definition raised_by_task :: "run_exn \<Rightarrow> exn" where
  "raised_by_task x =
     (case x of
        RunLLM kind payload \<Rightarrow> raised (llm_from_failure kind (llm_failure_message kind) payload)
      | RunModel kind \<Rightarrow> raised (action_from_failure AK_MODEL_INVOCATION_FAILED
          ''Action model dependency failed.'' [(''model_failure'', JStr kind)])
      | RunAction (Broken err) \<Rightarrow> raised (case err of
            EngineContract m \<Rightarrow> from_action_error ''ActionContractError'' True
          | EngineInvariant m \<Rightarrow> from_action_error ''ActionInvariantError'' False
          | EngineDefinition d \<Rightarrow> from_action_error ''ActionSchemaDefinitionError'' False
          | EngineConfig c \<Rightarrow> from_action_error ''ConfigError'' False
          | EngineLLM l \<Rightarrow> from_action_error ''LLMContractError'' False)
      | RunAction (Raised y) \<Rightarrow>
          (case y of
             RuntimeException r \<Rightarrow> y
           | RuntimeTransferInterrupt t r \<Rightarrow> y
           | _ \<Rightarrow> if is_cancellation x then y else raised (from_action_error (exn_name y) False)))"

definition limited :: "task_schedule \<Rightarrow> prepared_execution \<Rightarrow> execution_fact list \<times> (exn + action_result)" where
  "limited s e =
     (let t = task_body s e in
      case td_outcome t of
        Inr r \<Rightarrow> (td_facts t, Inr r)
      | Inl x \<Rightarrow>
          if td_settled t then (td_facts t, Inl (raised_by_task x))
          else (case attempt_fact s (td_execution t) (closing_state (td_started t) x) None of
            (fs, Inl y) \<Rightarrow> (td_facts t @ fs,
              Inl (case y of RunAction (Raised z) \<Rightarrow> z | _ \<Rightarrow> OtherException ''ActionInvariantError''))
          | (fs, Inr _) \<Rightarrow> (td_facts t @ fs, Inl (raised_by_task x))))"

section \<open>The run of a batch\<close>

text \<open>Sequences recorded side by side: each keeps its own order.\<close>

inductive interleaved :: "'a list list \<Rightarrow> 'a list \<Rightarrow> bool" where
  interleaved_end: "list_all (\<lambda>xs. xs = []) xss \<Longrightarrow> interleaved xss []"
| interleaved_step: "i < length xss \<Longrightarrow> xss ! i = x # xs \<Longrightarrow> interleaved (xss[i := xs]) ys \<Longrightarrow>
    interleaved xss (x # ys)"

text \<open>
  How the tasks of a group end it: with all their results in the order of submission, with the
  exception of one, or because the Turn or the caller was cancelled.
\<close>

inductive group_outcome :: "(exn + action_result) list \<Rightarrow> exn + action_result list \<Rightarrow> bool" where
  all_returned: "group_outcome (map Inr rs) (Inr rs)"
| one_raised: "Inl x \<in> set outcomes \<Longrightarrow> group_outcome outcomes (Inl x)"
| turn_cancelled: "group_outcome outcomes (Inl ActionExecutionCancelled)"
| caller_cancelled: "group_outcome outcomes (Inl AsyncCancelled)"

text \<open>The groups one after the other; the last argument holds the executions that were scheduled.\<close>

inductive run_groups ::
  "(prepared_execution \<Rightarrow> task_schedule) \<Rightarrow> prepared_execution list list \<Rightarrow> execution_fact list
     \<Rightarrow> exn + action_result list \<Rightarrow> prepared_execution list \<Rightarrow> bool" where
  groups_done: "run_groups s [] [] (Inr []) []"
| group_refused: "run_groups s (g # gs) [] (Inl ActionExecutionCancelled) []"
| group_raised: "interleaved (map (\<lambda>e. fst (limited (s e) e)) g) fs \<Longrightarrow>
    group_outcome (map (\<lambda>e. snd (limited (s e) e)) g) (Inl x) \<Longrightarrow> run_groups s (g # gs) fs (Inl x) g"
| group_returned: "interleaved (map (\<lambda>e. fst (limited (s e) e)) g) fs \<Longrightarrow>
    group_outcome (map (\<lambda>e. snd (limited (s e) e)) g) (Inr rs) \<Longrightarrow> run_groups s gs fs' r scheduled \<Longrightarrow>
    run_groups s (g # gs) (fs @ fs') (map_sum id (\<lambda>rs'. rs @ rs') r) (g @ scheduled)"

definition invoke_id :: "prepared_execution \<Rightarrow> string" where
  "invoke_id e = af_invoke_id (pe_framework e)"

definition state_fact :: "execution_state \<Rightarrow> prepared_execution \<Rightarrow> execution_fact" where
  "state_fact state e =
     \<lparr>ef_call = pe_call e, ef_framework = pe_framework e, ef_state = state, ef_result = None\<rparr>"

text \<open>
  \<open>ActionBatchRunner.run\<close>, where the recorder accepts the facts of \<open>run\<close> itself: the facts in the
  order they are recorded, and how the run ends.
\<close>

inductive batch_run ::
  "(prepared_execution \<Rightarrow> task_schedule) \<Rightarrow> prepared_batch \<Rightarrow> execution_fact list \<Rightarrow> exn + action_result list \<Rightarrow> bool" where
  run_batch: "run_groups s (plan b) fs r scheduled \<Longrightarrow>
    batch_run s b
      (map (state_fact ES_REQUESTED) (pb_executions b) @ fs
        @ map (state_fact ES_NOT_EXECUTED)
            (filter (\<lambda>e. invoke_id e \<notin> set (map invoke_id scheduled)) (pb_executions b)))
      (map_sum id (sort_key ar_sequence) r)"

inductive_cases group_outcome_returned: "group_outcome outcomes (Inr rs)"
inductive_cases interleaved_nilE: "interleaved xss []"
inductive_cases interleaved_consE: "interleaved xss (x # ys)"
inductive_cases batch_runE: "batch_run s b fs r"

end
