(* ===== verification/Action_Planning_Proofs.thy ===== *)
theory Action_Planning_Proofs
  imports Action_Planning
begin

text \<open>
  What planning guarantees: every tool call of a batch is answered once, by a local result or by the
  call that is executed, and a batch prepared from normalized calls holds each of them.
\<close>

section \<open>Answers\<close>

fun left_parts :: "('a + 'b) list \<Rightarrow> 'a list" where
  "left_parts [] = []"
| "left_parts (Inl x # xs) = x # left_parts xs"
| "left_parts (Inr y # xs) = left_parts xs"

fun right_parts :: "('a + 'b) list \<Rightarrow> 'b list" where
  "right_parts [] = []"
| "right_parts (Inl x # xs) = right_parts xs"
| "right_parts (Inr y # xs) = y # right_parts xs"

lemma mem_left_parts: "x \<in> set (left_parts xs) \<longleftrightarrow> Inl x \<in> set xs"
  by (induction xs rule: left_parts.induct) auto

lemma mem_right_parts: "y \<in> set (right_parts xs) \<longleftrightarrow> Inr y \<in> set xs"
  by (induction xs rule: right_parts.induct) auto

lemma mset_parts:
  "mset (map f (left_parts xs)) + mset (map g (right_parts xs)) = mset (map (case_sum f g) xs)"
  by (induction xs rule: left_parts.induct) auto

lemma sorted_parts: "sorted (map (case_sum f g) xs) \<Longrightarrow> sorted (map g (right_parts xs))"
proof (induction xs rule: right_parts.induct)
  case (3 y xs)
  then show ?case by (fastforce simp: mem_right_parts)
qed simp_all

definition call_of :: "tool_call \<Rightarrow> int \<Rightarrow> action_call" where
  "call_of tc sequence =
     \<lparr>ac_call_id = tc_id tc, ac_action_name = tc_name tc, ac_params = tc_arguments tc, ac_sequence = sequence\<rparr>"

text \<open>The answer to a tool call: a result with its identity, or the call with validated parameters.\<close>

definition normal_answer ::
  "('w, 'e) normalizer \<Rightarrow> int \<Rightarrow> tool_call \<Rightarrow> bool \<Rightarrow> action_result + action_call \<Rightarrow> bool" where
  "normal_answer n sequence tc seen answer =
     (case answer of
        Inl r \<Rightarrow> answers_call tc sequence r
      | Inr c \<Rightarrow> c = call_of tc sequence \<and> \<not> seen \<and> tc_kind tc = Some TK_ACTION \<and> mk_action_call c = Inr c
          \<and> (\<exists>a. get_action (nm_catalog n) (tc_name tc) = Inr a
               \<and> validate_action_params (tc_arguments tc) (at_schema (sp_tool a)) = Inr ()))"

definition sound_normalizer :: "('w, 'e) normalizer \<Rightarrow> bool" where
  "sound_normalizer n \<longleftrightarrow>
     nm_schema_hook n = schema_hook \<and> sound_normalize_hooks (nm_registry n)
     \<and> (\<forall>a \<in> set (catalog_actions (nm_catalog n)). list_all short_name (normalize_names_for (nm_registry n) a))"

text \<open>A tool call as the model protocol builds it, with room for its names in a feedback.\<close>

definition fit_call :: "tool_call \<Rightarrow> bool" where
  "fit_call tc \<longleftrightarrow> live_call tc \<and> short_name (tc_id tc) \<and> short_name (tc_name tc)"

lemma normalize_failure_answers:
  "normalize_failure fresh tc sequence feedback reason fd = Inr r \<Longrightarrow> answers_call tc sequence r"
  by (auto simp: normalize_failure_def bind_r_Inr_iff answers_call_def dest: result_failed_Inr)

lemma normalize_failure_total:
  assumes "live_call tc" "0 < sequence" "validate_failure_identifier reason ''reason'' = Inr ()"
    "py_strip feedback \<noteq> []" "length feedback \<le> max_failure_feedback_chars"
  shows "\<exists>r. normalize_failure fresh tc sequence feedback reason fd = Inr r"
proof -
  obtain r where "result_failed fresh
      \<lparr>ro_call_id = tc_id tc, ro_invoke_id = None, ro_batch_id = None, ro_action_name = tc_name tc,
        ro_sequence = sequence, ro_domain = [], ro_payload = None, ro_frame_data = fd\<rparr> ST_NORMALIZE
      \<lparr>lf_reason = reason, lf_scope = ''action.normalize'', lf_disposition = FD_CHANGE_REQUEST,
        lf_feedback = feedback, lf_constraint = []\<rparr> = Inr r"
    using result_failed_total assms(1,2) by (fastforce simp: live_call_def or_empty_def)
  moreover have "validate_failure_identifier ''action.normalize'' ''scope'' = Inr ()"
    by (simp add: identifier_simps)
  ultimately show ?thesis using assms(3-5) by (simp add: normalize_failure_def local_failure_ok)
qed

lemma own_result:
  "op_own (bind_r m (\<lambda>r. Inr (Inl r))) w = (w', Inr answer) \<Longrightarrow> \<exists>r. m = Inr r \<and> answer = Inl r"
  by (cases m) auto

lemma normalize_call_answer:
  assumes "sound_normalizer n" "normalize_call n sequence tc seen w = (w', Inr answer)"
    "wf_catalog (nm_catalog n)" "0 < sequence" "fit_call tc"
  shows "normal_answer n sequence tc seen answer"
proof (cases "seen \<or> tc_kind tc \<noteq> Some TK_ACTION \<or> \<not> has_action (nm_catalog n) (tc_name tc)")
  case True
  then have "\<exists>r. answer = Inl r \<and> answers_call tc sequence r"
    using assms(2) by (auto simp: normalize_call_def split: if_splits dest!: own_result intro: normalize_failure_answers)
  then show ?thesis by (auto simp: normal_answer_def)
next
  case False
  then obtain a where a: "get_action (nm_catalog n) (tc_name tc) = Inr a" by (auto simp: has_action_iff)
  let ?item = "\<lparr>ni_tool_call = tc, ni_action = a, ni_sequence = sequence\<rparr>"
  have short: "list_all short_name (normalize_names_for (nm_registry n) a)"
    using assms(1) get_action_mem [OF a] by (force simp: sound_normalizer_def set_catalog_actions)
  have settles: "normalize_rejecting.settles ?item
      (normalize_pipeline (nm_registry n) schema_hook (nm_fresh n sequence) ?item)"
    by (rule normalize_pipeline_settles)
      (use assms short in \<open>auto simp: sound_normalizer_def normalize_ready_def fit_call_def\<close>)
  obtain w1 x where run: "normalize_pipeline (nm_registry n) schema_hook (nm_fresh n sequence) ?item w = (w1, x)"
    by (cases "normalize_pipeline (nm_registry n) schema_hook (nm_fresh n sequence) ?item w")
  have "mk_normalize_input ?item = Inr ?item" using assms(4) by (simp add: mk_normalize_input_def)
  then have rest: "(case x of Inl e \<Rightarrow> (w1, Inl e)
      | Inr (Some r) \<Rightarrow> (w1, Inr (Inl r))
      | Inr None \<Rightarrow> op_built (bind_r (mk_action_call (call_of tc sequence)) (\<lambda>c. Inr (Inr c))) w1) = (w', Inr answer)"
    using assms(1,2) a False run
    by (simp add: normalize_call_def op_bind_def sound_normalizer_def call_of_def split: sum.splits option.splits)
  then obtain y where x: "x = Inr y" by (cases x) auto
  show ?thesis
  proof (cases y)
    case (Some r)
    then have "answer = Inl r" using rest x by simp
    moreover have "answers_call tc sequence r"
      using settles run x Some unfolding normalize_rejecting.settles_def by fastforce
    ultimately show ?thesis by (simp add: normal_answer_def)
  next
    case None
    then have "validate_action_params (tc_arguments tc) (at_schema (sp_tool a)) = Inr ()"
      using normalize_pipeline_validates [of "nm_registry n" "nm_fresh n sequence" ?item w w1] run x by simp
    moreover have "mk_action_call (call_of tc sequence) = Inr (call_of tc sequence) \<and> answer = Inr (call_of tc sequence)"
      using rest x None assms(4,5)
      by (auto simp: mk_action_call_def call_of_def require_non_empty_def fit_call_def live_call_def)
    ultimately show ?thesis using a False by (simp add: normal_answer_def)
  qed
qed

lemma normalize_loop_answers:
  assumes "sound_normalizer n" "wf_catalog (nm_catalog n)" "0 \<le> index" "list_all fit_call tcs"
    "normalize_loop n index tcs seen acc w = (w', Inr z)"
  shows "\<exists>answers. length answers = length tcs
    \<and> nz_results z = nz_results acc @ left_parts answers \<and> nz_calls z = nz_calls acc @ right_parts answers
    \<and> (\<forall>k < length tcs. normal_answer n (index + int k + 1) (tcs ! k)
          (tc_id (tcs ! k) \<in> set seen \<union> set (map tc_id (take k tcs))) (answers ! k))"
  using assms
proof (induction n index tcs seen acc arbitrary: w rule: normalize_loop.induct)
  case (1 n index seen acc)
  then show ?case by (intro exI [of _ "[]"]) simp
next
  case (2 n index tc tcs seen acc)
  obtain w1 a where step: "normalize_call n (index + 1) tc (tc_id tc \<in> set seen) w = (w1, Inr a)"
    and rest: "normalize_loop n (index + 1) tcs (tc_id tc # seen)
       (case a of Inl r \<Rightarrow> acc\<lparr>nz_results := nz_results acc @ [r]\<rparr>
        | Inr c \<Rightarrow> acc\<lparr>nz_calls := nz_calls acc @ [c]\<rparr>) w1 = (w', Inr z)"
    using "2.prems"(5) by (auto simp: op_bind_Inr)
  let ?acc = "case a of Inl r \<Rightarrow> acc\<lparr>nz_results := nz_results acc @ [r]\<rparr>
      | Inr c \<Rightarrow> acc\<lparr>nz_calls := nz_calls acc @ [c]\<rparr>"
  obtain answers where answers: "length answers = length tcs"
      "nz_results z = nz_results ?acc @ left_parts answers" "nz_calls z = nz_calls ?acc @ right_parts answers"
      "\<And>k. k < length tcs \<Longrightarrow> normal_answer n (index + 1 + int k + 1) (tcs ! k)
          (tc_id (tcs ! k) \<in> set (tc_id tc # seen) \<union> set (map tc_id (take k tcs))) (answers ! k)"
    using "2.IH" [OF _ _ _ _ rest] "2.prems" by auto
  have first: "normal_answer n (index + 1) tc (tc_id tc \<in> set seen) a"
    by (rule normalize_call_answer [OF "2.prems"(1) step "2.prems"(2)]) (use "2.prems" in auto)
  have "normal_answer n (index + int k + 1) ((tc # tcs) ! k)
      (tc_id ((tc # tcs) ! k) \<in> set seen \<union> set (map tc_id (take k (tc # tcs)))) ((a # answers) ! k)"
    if "k < length (tc # tcs)" for k
    using first answers(4) [of "k - 1"] that by (cases k) (auto simp: algebra_simps)
  then show ?case
    using answers(1-3) by (intro exI [of _ "a # answers"]) (cases a; simp)
qed

section \<open>Normalization raises nothing of its own\<close>

lemma fit_feedback:
  "short_name name \<Longrightarrow> length prefix \<le> 60 \<Longrightarrow> prefix = c # cs \<Longrightarrow> \<not> py_isspace c \<Longrightarrow>
     py_strip (prefix @ name) \<noteq> [] \<and> length (prefix @ name) \<le> max_failure_feedback_chars"
  by (simp add: strip_not_blank short_name_def max_failure_feedback_chars_def)

lemma normalize_call_errors:
  assumes "sound_normalizer n" "normalize_call n sequence tc seen w = (w', Inl e)"
    "wf_catalog (nm_catalog n)" "0 < sequence" "fit_call tc"
  shows "\<exists>x. e = Raised x \<and> \<not> is_local_exception x"
proof (cases "seen \<or> tc_kind tc \<noteq> Some TK_ACTION \<or> \<not> has_action (nm_catalog n) (tc_name tc)")
  case True
  have total: "\<exists>r. normalize_failure (nm_fresh n sequence) tc sequence feedback reason fd = Inr r"
    if "validate_failure_identifier reason ''reason'' = Inr ()" "py_strip feedback \<noteq> []"
      "length feedback \<le> max_failure_feedback_chars" for feedback reason fd
    using normalize_failure_total that assms(4,5) by (simp add: fit_call_def)
  have named: "\<exists>r. normalize_failure (nm_fresh n sequence) tc sequence (prefix @ name) reason fd = Inr r"
    if "validate_failure_identifier reason ''reason'' = Inr ()" "short_name name" "length prefix \<le> 60"
      "prefix = c # cs" "\<not> py_isspace c" for prefix name reason fd c cs
    using total fit_feedback that by blast
  have "\<exists>r. normalize_failure (nm_fresh n sequence) tc sequence
      (''Duplicate action tool call id: '' @ tc_id tc) ''duplicate_call_id'' None = Inr r"
    by (rule named) (use assms(5) in \<open>auto simp: identifier_simps fit_call_def py_isspace_def\<close>)
  then obtain r1 where r1: "normalize_failure (nm_fresh n sequence) tc sequence
      (''Duplicate action tool call id: '' @ tc_id tc) ''duplicate_call_id'' None = Inr r1" ..
  have "\<exists>r. normalize_failure (nm_fresh n sequence) tc sequence
      (''Expected an action tool call, but received a control or uncategorized tool call.'') ''unexpected_tool_kind''
      fd = Inr r" for fd
    by (rule total) (auto simp: identifier_simps strip_not_blank py_isspace_def max_failure_feedback_chars_def)
  then obtain r2 where r2: "\<And>fd. normalize_failure (nm_fresh n sequence) tc sequence
      (''Expected an action tool call, but received a control or uncategorized tool call.'') ''unexpected_tool_kind''
      fd = Inr (r2 fd)" by metis
  have "\<exists>r. normalize_failure (nm_fresh n sequence) tc sequence
      (''Unknown action tool call: '' @ tc_name tc) ''unknown_action'' None = Inr r"
    by (rule named) (use assms(5) in \<open>auto simp: identifier_simps fit_call_def py_isspace_def\<close>)
  then obtain r3 where r3: "normalize_failure (nm_fresh n sequence) tc sequence
      (''Unknown action tool call: '' @ tc_name tc) ''unknown_action'' None = Inr r3" ..
  have False using assms(2) True r1 r2 r3 by (auto simp: normalize_call_def split: if_splits)
  then show ?thesis ..
next
  case False
  then obtain a where a: "get_action (nm_catalog n) (tc_name tc) = Inr a" by (auto simp: has_action_iff)
  let ?item = "\<lparr>ni_tool_call = tc, ni_action = a, ni_sequence = sequence\<rparr>"
  have short: "list_all short_name (normalize_names_for (nm_registry n) a)"
    using assms(1) get_action_mem [OF a] by (force simp: sound_normalizer_def set_catalog_actions)
  have settles: "normalize_rejecting.settles ?item
      (normalize_pipeline (nm_registry n) schema_hook (nm_fresh n sequence) ?item)"
    by (rule normalize_pipeline_settles)
      (use assms short in \<open>auto simp: sound_normalizer_def normalize_ready_def fit_call_def\<close>)
  obtain w1 x where run: "normalize_pipeline (nm_registry n) schema_hook (nm_fresh n sequence) ?item w = (w1, x)"
    by (cases "normalize_pipeline (nm_registry n) schema_hook (nm_fresh n sequence) ?item w")
  have input: "mk_normalize_input ?item = Inr ?item" using assms(4) by (simp add: mk_normalize_input_def)
  have built: "mk_action_call (call_of tc sequence) = Inr (call_of tc sequence)"
    using assms(4,5) by (simp add: mk_action_call_def call_of_def require_non_empty_def fit_call_def live_call_def)
  have "x = Inl e"
    using assms(1,2) a False run input built
    by (auto simp: normalize_call_def op_bind_def sound_normalizer_def call_of_def split: sum.splits option.splits)
  then show ?thesis using settles run
    unfolding normalize_rejecting.settles_def by (fastforce split: action_exn.splits)
qed

lemma normalize_loop_errors:
  assumes "sound_normalizer n" "wf_catalog (nm_catalog n)" "0 \<le> index" "list_all fit_call tcs"
    "normalize_loop n index tcs seen acc w = (w', Inl e)"
  shows "\<exists>x. e = Raised x \<and> \<not> is_local_exception x"
  using assms
proof (induction n index tcs seen acc arbitrary: w rule: normalize_loop.induct)
  case (2 n index tc tcs seen acc)
  have "normalize_call n (index + 1) tc (tc_id tc \<in> set seen) w = (w', Inl e)
    \<or> (\<exists>w1 a. normalize_loop n (index + 1) tcs (tc_id tc # seen)
       (case a of Inl r \<Rightarrow> acc\<lparr>nz_results := nz_results acc @ [r]\<rparr>
        | Inr c \<Rightarrow> acc\<lparr>nz_calls := nz_calls acc @ [c]\<rparr>) w1 = (w', Inl e))"
    using "2.prems"(5) by (auto simp: op_bind_Inl)
  then show ?case
    using normalize_call_errors [OF "2.prems"(1) _ "2.prems"(2)] "2.IH" "2.prems"(1-4) by fastforce
qed simp

section \<open>The batch of the normalized calls\<close>

text \<open>A catalog whose Actions were built by their constructors.\<close>

definition solid_catalog :: "catalog \<Rightarrow> bool" where
  "solid_catalog c \<longleftrightarrow> wf_catalog c \<and> (\<forall>a \<in> set (catalog_actions c). wf_action_spec a)"

lemma solid_get:
  assumes "solid_catalog c" "get_action c n = Inr a"
  shows "wf_action_spec a" "sp_name a = n"
  using assms get_action_mem [OF assms(2)] get_action_wf(1)
  by (force simp: solid_catalog_def set_catalog_actions)+

definition prepared_from :: "batch_request \<Rightarrow> action_call \<Rightarrow> prepared_execution \<Rightarrow> bool" where
  "prepared_from q c e \<longleftrightarrow>
     pe_call e = c \<and> get_action (br_catalog q) (ac_action_name c) = Inr (pe_action e)
     \<and> af_batch_id (pe_framework e) = br_batch_id q \<and> af_domain (pe_framework e) = sp_domain (pe_action e)
     \<and> af_timeout_seconds (pe_framework e) = rs_timeout_seconds (sp_runtime (pe_action e))
     \<and> af_scope (pe_framework e) = br_scope q \<and> af_invoke_id (pe_framework e) \<noteq> []
     \<and> af_turn_id (pe_framework e) = br_turn_id q \<and> af_cycle_id (pe_framework e) = br_cycle_id q"

lemma prepare_execution_ok:
  assumes "solid_catalog (br_catalog q)" "get_action (br_catalog q) (ac_action_name c) = Inr a" "br_batch_id q \<noteq> []"
  obtains e where "prepare_execution q k c a = Inr e" "prepared_from q c e"
    "af_invoke_id (pe_framework e) = ''action_invoke_'' @ br_fresh q k"
proof -
  have a: "wf_action_spec a" "sp_name a = ac_action_name c" using solid_get [OF assms(1,2)] by simp_all
  then have "sp_domain a \<noteq> []" "\<not> (case rs_timeout_seconds (sp_runtime a) of None \<Rightarrow> False | Some t \<Rightarrow> t \<le> 0)"
    by (auto simp: wf_action_spec_def mk_action_spec_def mk_runtime_spec_def require_spec_name_def bind_r_Inr_iff
        split: if_splits)
  let ?f = "\<lparr>af_invoke_id = ''action_invoke_'' @ br_fresh q k, af_batch_id = br_batch_id q, af_scope = br_scope q,
        af_domain = sp_domain a, af_deadline = None, af_timeout_seconds = rs_timeout_seconds (sp_runtime a),
        af_turn_id = br_turn_id q, af_cycle_id = br_cycle_id q, af_phase = br_phase q\<rparr>"
  let ?e = "\<lparr>pe_action = a, pe_call = c, pe_framework = ?f\<rparr>"
  have "mk_action_framework ?f = Inr ?f"
    using \<open>sp_domain a \<noteq> []\<close> assms(3) \<open>\<not> (case rs_timeout_seconds (sp_runtime a) of None \<Rightarrow> False | Some t \<Rightarrow> t \<le> 0)\<close>
    by (simp add: mk_action_framework_def require_non_empty_def)
  moreover have "mk_action_execution (as_execution ?e) = Inr (as_execution ?e)"
    using a(2) by (simp add: mk_action_execution_def as_execution_def)
  ultimately have "prepare_execution q k c a = Inr ?e" by (simp add: prepare_execution_def)
  moreover have "prepared_from q c ?e" using assms(2) by (simp add: prepared_from_def)
  ultimately show ?thesis by (rule that) simp
qed

lemma prepare_loop_ok:
  assumes "solid_catalog (br_catalog q)" "br_batch_id q \<noteq> []"
    "\<And>c. c \<in> set cs \<Longrightarrow> has_action (br_catalog q) (ac_action_name c)"
    "distinct (map ac_call_id cs)" "set (map ac_call_id cs) \<inter> set seen_call_ids = {}"
    "distinct (map ac_sequence cs)" "set (map ac_sequence cs) \<inter> set seen_sequences = {}"
  shows "\<exists>es. prepare_loop q k cs seen_call_ids seen_sequences executions results = Inr (executions @ es, results)
    \<and> list_all2 (prepared_from q) cs es
    \<and> map (\<lambda>e. af_invoke_id (pe_framework e)) es = map (\<lambda>i. ''action_invoke_'' @ br_fresh q i) [k..<k + length cs]"
  using assms(3-7)
proof (induction cs arbitrary: k seen_call_ids seen_sequences executions)
  case (Cons c cs)
  obtain a where a: "get_action (br_catalog q) (ac_action_name c) = Inr a"
    using Cons.prems(1) by (auto simp: has_action_iff)
  obtain e where e: "prepare_execution q k c a = Inr e" "prepared_from q c e"
    "af_invoke_id (pe_framework e) = ''action_invoke_'' @ br_fresh q k"
    using prepare_execution_ok [OF assms(1) a assms(2)] .
  have "\<exists>es. prepare_loop q (Suc k) cs (ac_call_id c # seen_call_ids) (ac_sequence c # seen_sequences)
        (executions @ [e]) results = Inr ((executions @ [e]) @ es, results)
      \<and> list_all2 (prepared_from q) cs es
      \<and> map (\<lambda>e. af_invoke_id (pe_framework e)) es
          = map (\<lambda>i. ''action_invoke_'' @ br_fresh q i) [Suc k..<Suc k + length cs]"
    by (rule Cons.IH) (use Cons.prems in auto)
  then obtain es where es: "prepare_loop q (Suc k) cs (ac_call_id c # seen_call_ids) (ac_sequence c # seen_sequences)
        (executions @ [e]) results = Inr ((executions @ [e]) @ es, results)"
      "list_all2 (prepared_from q) cs es"
      "map (\<lambda>e. af_invoke_id (pe_framework e)) es
          = map (\<lambda>i. ''action_invoke_'' @ br_fresh q i) [Suc k..<Suc k + length cs]" by blast
  have "[k..<k + length (c # cs)] = k # [Suc k..<Suc k + length cs]" by (simp add: upt_rec)
  then show ?case using Cons.prems a e es
    by (intro exI [of _ "e # es"]) (auto simp: has_action_def)
qed simp

lemma prepared_calls:
  "list_all2 (prepared_from q) cs es \<Longrightarrow> map pe_call es = cs"
  "list_all2 (prepared_from q) cs es \<Longrightarrow> e \<in> set es \<Longrightarrow> prepared_from q (pe_call e) e"
  by (induction rule: list_all2_induct) (auto simp: prepared_from_def)

text \<open>Known calls of distinct identities and sequences make a batch with one execution each.\<close>

lemma prepare_batch_ok:
  assumes "solid_catalog (br_catalog q)" "br_batch_id q \<noteq> []" "inj_on (br_fresh q) {..<length cs}"
    "\<And>c. c \<in> set cs \<Longrightarrow> has_action (br_catalog q) (ac_action_name c)"
    "distinct (map ac_call_id cs)" "distinct (map ac_sequence cs)"
  obtains es where "prepare_batch q cs = Inr \<lparr>bp_batch = \<lparr>pb_batch_id = br_batch_id q, pb_executions = es\<rparr>,
      bp_results = [], bp_phase_results = []\<rparr>" "map pe_call es = cs" "list_all2 (prepared_from q) cs es"
    "is_ok (mk_prepared_batch \<lparr>pb_batch_id = br_batch_id q, pb_executions = es\<rparr>)"
proof -
  obtain es where es: "prepare_loop q 0 cs [] [] [] [] = Inr (es, [])" "list_all2 (prepared_from q) cs es"
    "map (\<lambda>e. af_invoke_id (pe_framework e)) es = map (\<lambda>i. ''action_invoke_'' @ br_fresh q i) [0..<length cs]"
    using prepare_loop_ok [OF assms(1,2,4,5) _ assms(6), of "[]" "[]" 0 "[]" "[]"] by auto
  note calls = prepared_calls [OF es(2)]
  let ?b = "\<lparr>ab_batch_id = br_batch_id q, ab_executions = map as_execution es\<rparr>"
  have "distinct (map (\<lambda>e. af_invoke_id (pe_framework e)) es)"
    unfolding es(3) using assms(3) by (simp add: distinct_map inj_on_def)
  moreover have "distinct (map (\<lambda>e. ac_call_id (pe_call e)) es)" "distinct (map (\<lambda>e. ac_sequence (pe_call e)) es)"
    using assms(5,6) unfolding calls(1) [symmetric] by (simp_all add: comp_def)
  moreover have "list_all (\<lambda>e. af_batch_id (pe_framework e) = br_batch_id q) es"
    using calls(2) by (auto simp: list_all_iff prepared_from_def)
  ultimately have "is_ok (check_executions (br_batch_id q) (map as_execution es) [] [] [])"
    by (simp add: check_executions_iff as_execution_def comp_def list_all_iff)
  then have "is_ok (mk_action_batch ?b)"
    using assms(2) by (cases "check_executions (br_batch_id q) (map as_execution es) [] [] []")
      (simp_all add: mk_action_batch_def require_non_empty_def)
  then have "mk_prepared_batch \<lparr>pb_batch_id = br_batch_id q, pb_executions = es\<rparr>
      = Inr \<lparr>pb_batch_id = br_batch_id q, pb_executions = es\<rparr>"
    by (cases "mk_action_batch ?b") (auto simp: mk_prepared_batch_def)
  then show ?thesis using that [of es] es calls(1) by (simp add: prepare_batch_def)
qed

end
