(* ===== verification/Action_Runner_Proofs.thy ===== *)
theory Action_Runner_Proofs
  imports Action_Runner Action_Planning_Proofs
begin

text \<open>
  What the runner guarantees: the groups of the plan, the facts of each execution, one result for
  each execution when the run returns, and the acceptance of every fact by the trace of the Turn.
\<close>

section \<open>The plan\<close>

lemma concat_plan_groups: "concat (plan_groups es parallel) = parallel @ es"
  by (induction es parallel rule: plan_groups.induct) auto

definition is_serial :: "prepared_execution \<Rightarrow> bool" where
  "is_serial e \<longleftrightarrow> rs_parallel_policy (sp_runtime (pe_action e)) = PP_SERIAL"

lemma plan_groups_shape:
  "list_all (\<lambda>e. \<not> is_serial e) parallel \<Longrightarrow> g \<in> set (plan_groups es parallel) \<Longrightarrow>
     g \<noteq> [] \<and> (list_all (\<lambda>e. \<not> is_serial e) g \<or> (\<exists>e. g = [e] \<and> is_serial e))"
proof (induction es parallel rule: plan_groups.induct)
  case (1 parallel)
  then show ?case by (auto split: if_splits)
next
  case (2 e es parallel)
  then show ?case
    by (cases "rs_parallel_policy (sp_runtime (pe_action e))") (auto simp: is_serial_def split: if_splits)
qed

section \<open>Interleaving\<close>

lemma interleaved_filter:
  assumes "interleaved xss ys" "i < length xss" "list_all P (xss ! i)"
    "\<And>j. j < length xss \<Longrightarrow> j \<noteq> i \<Longrightarrow> list_all (\<lambda>x. \<not> P x) (xss ! j)"
  shows "filter P ys = xss ! i"
  using assms
proof (induction rule: interleaved.induct)
  case (interleaved_end xss)
  then show ?case by (simp add: list_all_length)
next
  case (interleaved_step k xss x xs ys)
  have tail: "list_all (\<lambda>x. \<not> P x) xs" if "k \<noteq> i"
    using interleaved_step.prems(3) [of k] interleaved_step.hyps that by simp
  have rest: "filter P ys = xss[k := xs] ! i"
    by (rule interleaved_step.IH) (use interleaved_step tail in \<open>auto simp: nth_list_update split: if_splits\<close>)
  show ?case
  proof (cases "k = i")
    case True
    then show ?thesis using rest interleaved_step.prems(1,2) interleaved_step.hyps by simp
  next
    case False
    then have "\<not> P x" using interleaved_step.prems(3) [of k] interleaved_step.hyps by simp
    then show ?thesis using rest False by simp
  qed
qed

lemma interleaved_none:
  "interleaved xss ys \<Longrightarrow> (\<And>xs. xs \<in> set xss \<Longrightarrow> list_all (\<lambda>x. \<not> P x) xs) \<Longrightarrow> filter P ys = []"
proof (induction rule: interleaved.induct)
  case (interleaved_step k xss x xs ys)
  have "list_all (\<lambda>x. \<not> P x) (x # xs)"
    using interleaved_step.prems interleaved_step.hyps by (metis nth_mem)
  moreover have "filter P ys = []"
    by (rule interleaved_step.IH)
      (use interleaved_step.prems calculation set_update_subset_insert in \<open>fastforce\<close>)
  ultimately show ?case by simp
qed simp

lemma interleaved_mem: "interleaved xss ys \<Longrightarrow> y \<in> set ys \<Longrightarrow> \<exists>xs \<in> set xss. y \<in> set xs"
proof (induction rule: interleaved.induct)
  case (interleaved_step k xss x xs ys)
  have k: "x # xs \<in> set xss" using interleaved_step.hyps by (metis nth_mem)
  show ?case
  proof (cases "y = x")
    case False
    then obtain zs where "zs \<in> set (xss[k := xs])" "y \<in> set zs" using interleaved_step by auto
    then have "zs \<in> set xss \<or> zs = xs" using set_update_subset_insert [of xss k xs] by blast
    then show ?thesis using k \<open>y \<in> set zs\<close> by (metis list.set_intros(2))
  qed (use k in \<open>metis list.set_intros(1)\<close>)
qed simp

section \<open>The facts of one execution\<close>

text \<open>A recorder that refuses nothing, and work that ends with a result only for its own execution.\<close>

definition accepting :: "task_schedule \<Rightarrow> bool" where
  "accepting s \<longleftrightarrow> tk_refusal s = (\<lambda>_. None)"

definition own_work :: "task_schedule \<Rightarrow> prepared_execution \<Rightarrow> bool" where
  "own_work s e \<longleftrightarrow> (\<forall>r. tk_work s = Inr r \<longrightarrow> answers_execution e r)"

definition fact_of :: "prepared_execution \<Rightarrow> execution_fact \<Rightarrow> bool" where
  "fact_of e f \<longleftrightarrow>
     ef_call f = pe_call e \<and> mk_execution_fact f = Inr f
     \<and> ef_framework f = (pe_framework e)\<lparr>af_deadline := af_deadline (ef_framework f)\<rparr>"

definition full_runs :: "execution_state list set" where
  "full_runs = {[ES_NOT_EXECUTED], [ES_STARTED, ES_SETTLED], [ES_STARTED, ES_CANCELLED], [ES_STARTED, ES_UNKNOWN]}"

lemma timeout_result_answers: "timeout_result fresh t e = Inr r \<Longrightarrow> answers_execution e r"
  by (auto simp: timeout_result_def bind_r_Inr_iff result_timeout_def mk_action_result_def result_payload_def
      answers_execution_def split: if_splits)

lemma attempt_plain:
  "accepting s \<Longrightarrow> state \<noteq> ES_SETTLED \<Longrightarrow> attempt_fact s e state None = ([state_fact state e], Inr ())"
  by (simp add: attempt_fact_def mk_execution_fact_def accepting_def state_fact_def)

lemma attempt_settled:
  "accepting s \<Longrightarrow> answers_execution e r \<Longrightarrow>
     attempt_fact s e ES_SETTLED (Some r) = ([(state_fact ES_SETTLED e)\<lparr>ef_result := Some r\<rparr>], Inr ())"
  by (simp add: attempt_fact_def mk_execution_fact_def accepting_def state_fact_def answers_execution_def)

text \<open>After the start, a task settles its execution with a result of its own or leaves it unsettled.\<close>

lemma task_settle_cases:
  assumes "accepting s" "own_work s e"
  shows "(\<exists>r. answers_execution e r
        \<and> td_facts (task_settle s e fs cancelled reason) = fs @ [(state_fact ES_SETTLED e)\<lparr>ef_result := Some r\<rparr>]
        \<and> td_settled (task_settle s e fs cancelled reason)
        \<and> (td_outcome (task_settle s e fs cancelled reason) = Inr r
           \<or> td_outcome (task_settle s e fs cancelled reason) = Inl (raises AsyncCancelled)))
    \<or> (\<exists>x. task_settle s e fs cancelled reason
        = \<lparr>td_execution = e, td_facts = fs, td_started = True, td_settled = False, td_outcome = Inl x\<rparr>)"
proof (cases "tk_work s")
  case (Inr r)
  then have "answers_execution e r" using assms(2) by (simp add: own_work_def)
  then show ?thesis using Inr attempt_settled [OF assms(1)]
    by (intro disjI1 exI [of _ r]) (simp add: task_settle_def Let_def)
next
  case (Inl x)
  define why where "why = (if is_cancellation x \<and> reason = [] \<and> tk_expired s then ''timeout'' else reason)"
  show ?thesis
  proof (cases "is_cancellation x \<and> why = ''timeout''")
    case True
    show ?thesis
    proof (cases "timeout_result (tk_fresh s) (tk_timeout_json s) e")
      case (Inr r)
      then show ?thesis using Inl True attempt_settled [OF assms(1) timeout_result_answers [OF Inr]]
          timeout_result_answers [OF Inr]
        by (intro disjI1 exI [of _ r]) (auto simp: task_settle_def Let_def why_def split: if_splits)
    next
      case (Inl err)
      then show ?thesis using \<open>tk_work s = Inl x\<close> True
        by (auto simp: task_settle_def Let_def why_def split: if_splits)
    qed
  next
    case False
    then show ?thesis using Inl by (auto simp: task_settle_def Let_def why_def)
  qed
qed

lemma closing_state_not_settled: "closing_state started x \<noteq> ES_SETTLED"
  by (simp add: closing_state_def)

text \<open>The facts of a task: it never started, or it started and was closed once.\<close>

lemma limited_cases:
  assumes "accepting s" "own_work s e"
  obtains (refused) x where "limited s e = ([state_fact ES_NOT_EXECUTED e], Inl x)"
  | (settled) e' r y where "limited s e
      = ([state_fact ES_STARTED e', (state_fact ES_SETTLED e')\<lparr>ef_result := Some r\<rparr>], y)"
      "answers_execution e r" "y = Inr r \<or> (\<exists>x. y = Inl x)"
      "e' = e\<lparr>pe_framework := (pe_framework e)\<lparr>af_deadline := af_deadline (pe_framework e')\<rparr>\<rparr>"
  | (unsettled) e' x state where "limited s e = ([state_fact ES_STARTED e', state_fact state e'], Inl x)"
      "state \<in> {ES_CANCELLED, ES_UNKNOWN}"
      "e' = e\<lparr>pe_framework := (pe_framework e)\<lparr>af_deadline := af_deadline (pe_framework e')\<rparr>\<rparr>"
proof (cases "tk_gate_cancelled s \<or> tk_turn_cancelled s")
  case True
  show ?thesis
  proof (cases "tk_gate_cancelled s")
    case True
    then show ?thesis using assms
      by (intro refused) (simp add: limited_def task_body_def Let_def closing_state_def is_cancellation_def attempt_plain)
  next
    case False
    then show ?thesis using assms True
      by (intro refused) (simp add: limited_def task_body_def Let_def closing_state_def is_cancellation_def attempt_plain)
  qed
next
  case False
  let ?e = "e\<lparr>pe_framework := (pe_framework e)\<lparr>af_deadline :=
      map_option (\<lambda>t. tk_start s + t) (af_timeout_seconds (pe_framework e))\<rparr>\<rparr>"
  have own: "own_work s ?e" "\<And>r. answers_execution ?e r = answers_execution e r"
    using assms(2) by (simp_all add: own_work_def answers_execution_def)
  have start: "attempt_fact s ?e ES_STARTED None = ([state_fact ES_STARTED ?e], Inr ())"
    using assms(1) by (simp add: attempt_plain)
  obtain cancelled reason where body: "task_body s e = task_settle s ?e [state_fact ES_STARTED ?e] cancelled reason"
    using False start by (simp add: task_body_def Let_def)
  consider (result) r where "answers_execution e r"
      "td_facts (task_body s e) = [state_fact ES_STARTED ?e, (state_fact ES_SETTLED ?e)\<lparr>ef_result := Some r\<rparr>]"
      "td_settled (task_body s e)" "td_outcome (task_body s e) = Inr r \<or> td_outcome (task_body s e) = Inl (raises AsyncCancelled)"
    | (open_end) x where "task_body s e = \<lparr>td_execution = ?e, td_facts = [state_fact ES_STARTED ?e], td_started = True,
        td_settled = False, td_outcome = Inl x\<rparr>"
    using task_settle_cases [OF assms(1) own(1), of "[state_fact ES_STARTED ?e]" cancelled reason] body own(2) by auto
  then show ?thesis
  proof cases
    case result
    then show ?thesis
      by (intro settled [of ?e r "snd (limited s e)"])
        (auto simp: limited_def Let_def split: sum.splits)
  next
    case open_end
    have state: "closing_state True x \<in> {ES_CANCELLED, ES_UNKNOWN}" by (simp add: closing_state_def)
    have "attempt_fact s ?e (closing_state True x) None = ([state_fact (closing_state True x) ?e], Inr ())"
      by (rule attempt_plain [OF assms(1) closing_state_not_settled])
    then have "limited s e = ([state_fact ES_STARTED ?e, state_fact (closing_state True x) ?e], Inl (raised_by_task x))"
      using open_end by (simp add: limited_def Let_def)
    then show ?thesis using state by (intro unsettled [of ?e "closing_state True x" "raised_by_task x"]) simp_all
  qed
qed

lemma state_fact_of:
  "e' = e\<lparr>pe_framework := (pe_framework e)\<lparr>af_deadline := af_deadline (pe_framework e')\<rparr>\<rparr> \<Longrightarrow>
     state \<noteq> ES_SETTLED \<Longrightarrow> fact_of e (state_fact state e')"
  "e' = e\<lparr>pe_framework := (pe_framework e)\<lparr>af_deadline := af_deadline (pe_framework e')\<rparr>\<rparr> \<Longrightarrow>
     answers_execution e r \<Longrightarrow> fact_of e ((state_fact ES_SETTLED e')\<lparr>ef_result := Some r\<rparr>)"
proof -
  assume e': "e' = e\<lparr>pe_framework := (pe_framework e)\<lparr>af_deadline := af_deadline (pe_framework e')\<rparr>\<rparr>"
  have parts: "pe_call e' = pe_call e"
      "pe_framework e' = (pe_framework e)\<lparr>af_deadline := af_deadline (pe_framework e')\<rparr>"
    by (subst e', simp)+
  have ids: "af_invoke_id (pe_framework e') = af_invoke_id (pe_framework e)"
      "af_batch_id (pe_framework e') = af_batch_id (pe_framework e)" "af_domain (pe_framework e') = af_domain (pe_framework e)"
    by (subst parts(2), simp)+
  show "state \<noteq> ES_SETTLED \<Longrightarrow> fact_of e (state_fact state e')"
    using parts by (simp add: fact_of_def state_fact_def mk_execution_fact_def)
  show "answers_execution e r \<Longrightarrow> fact_of e ((state_fact ES_SETTLED e')\<lparr>ef_result := Some r\<rparr>)"
    using parts ids by (simp add: fact_of_def state_fact_def mk_execution_fact_def answers_execution_def)
qed

lemma state_fact_self: "state \<noteq> ES_SETTLED \<Longrightarrow> fact_of e (state_fact state e)"
  by (simp add: fact_of_def state_fact_def mk_execution_fact_def)

lemma state_of_fact [simp]: "ef_state (state_fact state e) = state" "ef_result (state_fact state e) = None"
  by (simp_all add: state_fact_def)

lemma limited_facts:
  assumes "accepting s" "own_work s e"
  shows "list_all (fact_of e) (fst (limited s e)) \<and> map ef_state (fst (limited s e)) \<in> full_runs
    \<and> (\<forall>r. snd (limited s e) = Inr r \<longrightarrow> answers_execution e r
         \<and> map ef_state (fst (limited s e)) = [ES_STARTED, ES_SETTLED]
         \<and> ef_result (last (fst (limited s e))) = Some r)"
  using assms
proof (cases rule: limited_cases)
  case (refused x)
  then show ?thesis by (simp add: full_runs_def state_fact_self)
next
  case (settled e' r y)
  have "fact_of e (state_fact ES_STARTED e')" by (rule state_fact_of(1) [OF settled(4)]) simp
  moreover have "fact_of e ((state_fact ES_SETTLED e')\<lparr>ef_result := Some r\<rparr>)"
    by (rule state_fact_of(2) [OF settled(4,2)])
  ultimately show ?thesis unfolding settled(1) using settled(2,3) by (auto simp: full_runs_def)
next
  case (unsettled e' x state)
  have "fact_of e (state_fact ES_STARTED e')" "fact_of e (state_fact state e')"
    by (rule state_fact_of(1) [OF unsettled(3)]; use unsettled(2) in auto)+
  then show ?thesis unfolding unsettled(1) using unsettled(2) by (auto simp: full_runs_def)
qed

section \<open>The facts of a batch\<close>

definition fact_invoke :: "execution_fact \<Rightarrow> string" where
  "fact_invoke f = af_invoke_id (ef_framework f)"

definition facts_about :: "prepared_execution \<Rightarrow> execution_fact list \<Rightarrow> execution_fact list" where
  "facts_about e fs = filter (\<lambda>f. fact_invoke f = invoke_id e) fs"

lemma fact_of_invoke: "fact_of e f \<Longrightarrow> fact_invoke f = invoke_id e"
proof -
  assume "fact_of e f"
  then have "ef_framework f = (pe_framework e)\<lparr>af_deadline := af_deadline (ef_framework f)\<rparr>"
    by (simp add: fact_of_def)
  then have "af_invoke_id (ef_framework f) = af_invoke_id (pe_framework e)"
    by (metis action_framework.surjective action_framework.update_convs(5) action_framework.select_convs(1))
  then show ?thesis by (simp add: fact_invoke_def invoke_id_def)
qed

definition sound_schedules :: "(prepared_execution \<Rightarrow> task_schedule) \<Rightarrow> prepared_execution list \<Rightarrow> bool" where
  "sound_schedules s es \<longleftrightarrow> (\<forall>e \<in> set es. accepting (s e) \<and> own_work (s e) e)"

lemma limited_fact_of: "accepting s \<Longrightarrow> own_work s e \<Longrightarrow> f \<in> set (fst (limited s e)) \<Longrightarrow> fact_of e f"
  using limited_facts by (auto simp: list_all_iff)

lemma task_facts:
  assumes "sound_schedules s es" "e \<in> set es"
  shows "list_all (\<lambda>f. fact_invoke f = invoke_id e) (fst (limited (s e) e))"
proof -
  have "list_all (fact_of e) (fst (limited (s e) e))"
    using assms limited_facts [of "s e" e] by (simp add: sound_schedules_def)
  then show ?thesis by (rule list.pred_mono_strong) (rule fact_of_invoke)
qed

lemma group_facts:
  assumes "interleaved (map (\<lambda>e. fst (limited (s e) e)) g) fs" "sound_schedules s g" "distinct (map invoke_id g)"
  shows "e \<in> set g \<Longrightarrow> facts_about e fs = fst (limited (s e) e)"
    and "f \<in> set fs \<Longrightarrow> \<exists>e \<in> set g. fact_of e f"
proof -
  show "\<exists>e \<in> set g. fact_of e f" if f: "f \<in> set fs"
  proof -
    obtain e where e: "e \<in> set g" "f \<in> set (fst (limited (s e) e))"
      using interleaved_mem [OF assms(1) f] by auto
    then have "fact_of e f" using assms(2) limited_fact_of [of "s e" e f] by (auto simp: sound_schedules_def)
    then show ?thesis using e(1) by blast
  qed
  assume "e \<in> set g"
  then obtain i where i: "i < length g" "g ! i = e" by (auto simp: in_set_conv_nth)
  have "filter (\<lambda>f. fact_invoke f = invoke_id e) fs = map (\<lambda>e. fst (limited (s e) e)) g ! i"
  proof (rule interleaved_filter [OF assms(1)])
    show "list_all (\<lambda>f. fact_invoke f = invoke_id e) (map (\<lambda>e. fst (limited (s e) e)) g ! i)"
      using i task_facts [OF assms(2) \<open>e \<in> set g\<close>] by simp
  next
    fix j assume j: "j < length (map (\<lambda>e. fst (limited (s e) e)) g)" "j \<noteq> i"
    then have other: "invoke_id (g ! j) \<noteq> invoke_id e"
      using nth_eq_iff_index_eq [OF assms(3), of j i] i by simp
    have "g ! j \<in> set g" using j by simp
    then have "list_all (\<lambda>f. fact_invoke f = invoke_id (g ! j)) (fst (limited (s (g ! j)) (g ! j)))"
      by (rule task_facts [OF assms(2)])
    then have "list_all (\<lambda>x. \<not> fact_invoke x = invoke_id e) (fst (limited (s (g ! j)) (g ! j)))"
      by (rule list.pred_mono_strong) (use other in simp)
    then show "list_all (\<lambda>x. \<not> fact_invoke x = invoke_id e) (map (\<lambda>e. fst (limited (s e) e)) g ! j)"
      using j by simp
  qed (use i in simp)
  then show "facts_about e fs = fst (limited (s e) e)" using i by (simp add: facts_about_def)
qed

lemma no_facts_about:
  "(\<And>f. f \<in> set fs \<Longrightarrow> \<exists>x \<in> set xs. fact_of x f) \<Longrightarrow> invoke_id e \<notin> set (map invoke_id xs) \<Longrightarrow> facts_about e fs = []"
proof -
  assume facts: "\<And>f. f \<in> set fs \<Longrightarrow> \<exists>x \<in> set xs. fact_of x f" and e: "invoke_id e \<notin> set (map invoke_id xs)"
  have "fact_invoke f \<noteq> invoke_id e" if "f \<in> set fs" for f
  proof -
    from facts [OF that] obtain x where "x \<in> set xs" "fact_of x f" by blast
    then have "fact_invoke f \<in> set (map invoke_id xs)" using fact_of_invoke [of x f] by simp
    then show ?thesis using e by metis
  qed
  then show ?thesis by (simp add: facts_about_def)
qed

lemma map_Inr_list_all2: "map f es = map Inr rs \<Longrightarrow> list_all2 (\<lambda>e x. f e = Inr x) es rs"
proof (induction es arbitrary: rs)
  case (Cons e es)
  then show ?case by (cases rs) auto
qed simp

lemma run_groups_facts:
  assumes "run_groups s gs fs r scheduled" "sound_schedules s (concat gs)" "distinct (map invoke_id (concat gs))"
  shows "(\<exists>rest. concat gs = scheduled @ rest)
    \<and> (\<forall>e \<in> set scheduled. facts_about e fs = fst (limited (s e) e))
    \<and> (\<forall>f \<in> set fs. \<exists>e \<in> set scheduled. fact_of e f)
    \<and> (\<forall>rs. r = Inr rs \<longrightarrow> scheduled = concat gs \<and> list_all2 (\<lambda>e x. snd (limited (s e) e) = Inr x) scheduled rs)"
  using assms
proof (induction rule: run_groups.induct)
  case (group_raised s g fs x gs)
  have "sound_schedules s g" "distinct (map invoke_id g)"
    using group_raised.prems by (auto simp: sound_schedules_def)
  then show ?case using group_facts [OF group_raised.hyps(1)] by auto
next
  case (group_returned s g fs rs gs fs' r scheduled)
  have g: "sound_schedules s g" "distinct (map invoke_id g)"
    and gs: "sound_schedules s (concat gs)" "distinct (map invoke_id (concat gs))"
    and apart: "set (map invoke_id g) \<inter> set (map invoke_id (concat gs)) = {}"
    using group_returned.prems by (auto simp: sound_schedules_def)
  note own = group_facts [OF group_returned.hyps(1) g]
  obtain rest where rest: "concat gs = scheduled @ rest" using group_returned.IH [OF gs] by blast
  note later = group_returned.IH [OF gs]
  have returned: "list_all2 (\<lambda>e x. snd (limited (s e) e) = Inr x) g rs"
    by (rule group_outcome_returned [OF group_returned.hyps(2)], rule map_Inr_list_all2) simp
  have first: "facts_about e (fs @ fs') = fst (limited (s e) e)" if "e \<in> set g" for e
  proof -
    have "invoke_id e \<notin> set (map invoke_id scheduled)" using apart that rest by auto
    then have "facts_about e fs' = []" using later by (intro no_facts_about [of _ scheduled]) blast+
    then show ?thesis using own(1) [OF that] by (simp add: facts_about_def)
  qed
  have second: "facts_about e (fs @ fs') = fst (limited (s e) e)" if "e \<in> set scheduled" for e
  proof -
    have "invoke_id e \<notin> set (map invoke_id g)" using apart that rest by auto
    then have "facts_about e fs = []" using own(2) by (intro no_facts_about [of _ g]) blast+
    then show ?thesis using later that by (simp add: facts_about_def)
  qed
  show ?case
  proof (intro conjI ballI allI impI)
    show "\<exists>rest. concat (g # gs) = (g @ scheduled) @ rest" using rest by auto
    show "facts_about e (fs @ fs') = fst (limited (s e) e)" if "e \<in> set (g @ scheduled)" for e
      using that first second by auto
    show "\<exists>e \<in> set (g @ scheduled). fact_of e f" if "f \<in> set (fs @ fs')" for f
      using that own(2) [of f] later by (auto simp: bex_Un)
    fix rs' assume "map_sum id ((@) rs) r = Inr rs'"
    then obtain rs2 where r: "r = Inr rs2" "rs' = rs @ rs2" by (cases r) auto
    show "g @ scheduled = concat (g # gs)" using later r by simp
    show "list_all2 (\<lambda>e x. snd (limited (s e) e) = Inr x) (g @ scheduled) rs'"
      unfolding r(2) using returned later r(1) by (auto intro: list_all2_appendI)
  qed
qed (auto simp: facts_about_def)

lemma facts_about_append: "facts_about e (xs @ ys) = facts_about e xs @ facts_about e ys"
  by (simp add: facts_about_def)

lemma facts_about_states:
  assumes "distinct (map invoke_id es)"
  shows "facts_about e (map (state_fact state) (filter P es)) = (if e \<in> set es \<and> P e then [state_fact state e] else
    map (state_fact state) (filter (\<lambda>x. P x \<and> invoke_id x = invoke_id e) es))"
proof -
  have all: "facts_about e (map (state_fact state) (filter P es))
      = map (state_fact state) (filter (\<lambda>x. P x \<and> invoke_id x = invoke_id e) es)"
    by (induction es) (auto simp: facts_about_def fact_invoke_def state_fact_def invoke_id_def)
  have "filter (\<lambda>x. P x \<and> invoke_id x = invoke_id e) es = [e]" if "e \<in> set es" "P e"
    using assms that
  proof (induction es)
    case (Cons x es)
    show ?case
    proof (cases "x = e")
      case True
      then have "filter (\<lambda>x. P x \<and> invoke_id x = invoke_id e) es = []"
        using Cons.prems(1) unfolding filter_empty_conv by (metis distinct.simps(2) image_eqI list.simps(9) set_map)
      then show ?thesis using True Cons.prems(3) by simp
    next
      case False
      then have "e \<in> set es" using Cons.prems by simp
      then have "invoke_id x \<noteq> invoke_id e" using Cons.prems(1) by auto
      then show ?thesis using Cons False by simp
    qed
  qed simp
  then show ?thesis using all by simp
qed

lemma concat_plan: "concat (plan b) = pb_executions b"
  by (simp add: plan_def concat_plan_groups)

text \<open>Each execution of a batch has its whole run among the facts: requested, then closed once.\<close>

lemma batch_facts:
  assumes "batch_run s b fs r" "sound_schedules s (pb_executions b)" "distinct (map invoke_id (pb_executions b))"
    "e \<in> set (pb_executions b)"
  shows "\<exists>rest. facts_about e fs = state_fact ES_REQUESTED e # rest
      \<and> (rest = [state_fact ES_NOT_EXECUTED e] \<or> rest = fst (limited (s e) e))"
proof -
  obtain gfs scheduled r' where run: "run_groups s (plan b) gfs r' scheduled"
    and fs: "fs = map (state_fact ES_REQUESTED) (pb_executions b) @ gfs
        @ map (state_fact ES_NOT_EXECUTED)
            (filter (\<lambda>e. invoke_id e \<notin> set (map invoke_id scheduled)) (pb_executions b))"
    using assms(1) by (auto elim: batch_runE)
  have facts: "(\<exists>rest. pb_executions b = scheduled @ rest)"
      "\<And>x. x \<in> set scheduled \<Longrightarrow> facts_about x gfs = fst (limited (s x) x)"
      "\<And>f. f \<in> set gfs \<Longrightarrow> \<exists>x \<in> set scheduled. fact_of x f"
    using run_groups_facts [OF run] assms(2,3) by (auto simp: concat_plan)
  have requested: "facts_about e (map (state_fact ES_REQUESTED) (pb_executions b)) = [state_fact ES_REQUESTED e]"
    using facts_about_states [OF assms(3), of e ES_REQUESTED "\<lambda>_. True"] assms(4) by simp
  have middle: "facts_about e gfs @ facts_about e (map (state_fact ES_NOT_EXECUTED)
        (filter (\<lambda>e. invoke_id e \<notin> set (map invoke_id scheduled)) (pb_executions b)))
      \<in> {[state_fact ES_NOT_EXECUTED e], fst (limited (s e) e)}"
  proof (cases "e \<in> set scheduled")
    case True
    then have "filter (\<lambda>x. invoke_id x \<notin> set (map invoke_id scheduled) \<and> invoke_id x = invoke_id e) (pb_executions b) = []"
      by (auto simp: filter_empty_conv)
    then show ?thesis using True facts(2) facts_about_states [OF assms(3), of e ES_NOT_EXECUTED
          "\<lambda>e. invoke_id e \<notin> set (map invoke_id scheduled)"] by simp
  next
    case False
    obtain rest where rest: "pb_executions b = scheduled @ rest" using facts(1) by blast
    then have "e \<in> set rest" using False assms(4) by simp
    then have fresh: "invoke_id e \<notin> set (map invoke_id scheduled)" using rest assms(3) by auto
    then have "facts_about e gfs = []" by (intro no_facts_about [OF facts(3)])
    moreover have "facts_about e (map (state_fact ES_NOT_EXECUTED)
        (filter (\<lambda>e. invoke_id e \<notin> set (map invoke_id scheduled)) (pb_executions b))) = [state_fact ES_NOT_EXECUTED e]"
      using fresh assms(4) by (subst facts_about_states [OF assms(3)]) simp
    ultimately show ?thesis by simp
  qed
  then show ?thesis unfolding fs facts_about_append requested by auto
qed

section \<open>One result for each execution\<close>

lemma list_all2_sequences:
  "list_all2 (\<lambda>e x. answers_execution e x \<and> Q e x) es rs \<Longrightarrow> map ar_sequence rs = map (\<lambda>e. ac_sequence (pe_call e)) es"
  by (induction rule: list_all2_induct) (auto simp: answers_execution_def)

lemma batch_results:
  assumes "batch_run s b fs (Inr rs)" "sound_schedules s (pb_executions b)" "distinct (map invoke_id (pb_executions b))"
    "sorted (map (\<lambda>e. ac_sequence (pe_call e)) (pb_executions b))"
  shows "list_all2 (\<lambda>e x. answers_execution e x \<and> snd (limited (s e) e) = Inr x) (pb_executions b) rs"
proof -
  obtain gfs scheduled rs0 where run: "run_groups s (plan b) gfs (Inr rs0) scheduled" and rs: "rs = sort_key ar_sequence rs0"
    using assms(1) by (auto elim!: batch_runE simp: map_sum_def split: sum.splits)
  have "scheduled = pb_executions b \<and> list_all2 (\<lambda>e x. snd (limited (s e) e) = Inr x) scheduled rs0"
    using run_groups_facts [OF run] assms(2,3) unfolding concat_plan by blast
  then have all: "list_all2 (\<lambda>e x. snd (limited (s e) e) = Inr x) (pb_executions b) rs0" by metis
  have "list_all2 (\<lambda>e x. answers_execution e x \<and> snd (limited (s e) e) = Inr x) (pb_executions b) rs0"
  proof (rule list.rel_mono_strong [OF all])
    fix e x assume "e \<in> set (pb_executions b)" "snd (limited (s e) e) = Inr x"
    then show "answers_execution e x \<and> snd (limited (s e) e) = Inr x"
      using assms(2) limited_facts [of "s e" e] by (simp add: sound_schedules_def)
  qed
  moreover from list_all2_sequences [OF this] have "sorted (map ar_sequence rs0)" using assms(4) by simp
  then have "rs = rs0" using rs by (simp add: sort_key_id_if_sorted)
  ultimately show ?thesis by simp
qed

section \<open>One answer for each tool call\<close>

text \<open>The answers of the normalization, with the result of its execution in place of each call.\<close>

fun fill_answers :: "(action_result + action_call) list \<Rightarrow> action_result list \<Rightarrow> action_result list" where
  "fill_answers [] rs = []"
| "fill_answers (Inl r # answers) rs = r # fill_answers answers rs"
| "fill_answers (Inr c # answers) (x # rs) = x # fill_answers answers rs"
| "fill_answers (Inr c # answers) [] = []"

lemma mset_fill:
  "length rs = length (right_parts answers) \<Longrightarrow> mset (fill_answers answers rs) = mset (left_parts answers) + mset rs"
  by (induction answers rs rule: fill_answers.induct) auto

definition answered :: "tool_call \<Rightarrow> int \<Rightarrow> action_result \<Rightarrow> bool" where
  "answered tc sequence r \<longleftrightarrow> ar_call_id r = tc_id tc \<and> ar_action_name r = tc_name tc \<and> ar_sequence r = sequence"

lemma fill_answered:
  assumes "length answers = length tcs" "\<And>k. k < length tcs \<Longrightarrow> normal_answer n (i + int k) (tcs ! k) (seen k) (answers ! k)"
    "list_all2 (\<lambda>c x. ar_call_id x = ac_call_id c \<and> ar_action_name x = ac_action_name c \<and> ar_sequence x = ac_sequence c)
       (right_parts answers) rs"
  shows "length (fill_answers answers rs) = length tcs
    \<and> (\<forall>k < length tcs. answered (tcs ! k) (i + int k) (fill_answers answers rs ! k))"
  using assms
proof (induction answers rs arbitrary: tcs i seen rule: fill_answers.induct)
  case (2 r answers rs)
  then obtain tc ts where tcs: "tcs = tc # ts" by (cases tcs) auto
  have later: "normal_answer n ((i + 1) + int k) (ts ! k) (seen (Suc k)) (answers ! k)" if "k < length ts" for k
    using "2.prems"(2) [of "Suc k"] that tcs by (simp add: algebra_simps)
  have "length (fill_answers answers rs) = length ts
      \<and> (\<forall>k < length ts. answered (ts ! k) ((i + 1) + int k) (fill_answers answers rs ! k))"
    by (rule "2.IH" [of ts "i + 1" "\<lambda>k. seen (Suc k)"]) (use "2.prems" tcs later in auto)
  moreover have "answered tc i r"
    using "2.prems"(2) [of 0] tcs by (simp add: normal_answer_def answers_call_def answered_def)
  ultimately show ?case using tcs by (auto simp: nth_Cons algebra_simps split: nat.split)
next
  case (3 c answers x rs)
  then obtain tc ts where tcs: "tcs = tc # ts" by (cases tcs) auto
  have later: "normal_answer n ((i + 1) + int k) (ts ! k) (seen (Suc k)) (answers ! k)" if "k < length ts" for k
    using "3.prems"(2) [of "Suc k"] that tcs by (simp add: algebra_simps)
  have "length (fill_answers answers rs) = length ts
      \<and> (\<forall>k < length ts. answered (ts ! k) ((i + 1) + int k) (fill_answers answers rs ! k))"
    by (rule "3.IH" [of ts "i + 1" "\<lambda>k. seen (Suc k)"]) (use "3.prems" tcs later in auto)
  moreover have "answered tc i x"
    using "3.prems"(2) [of 0] "3.prems"(3) tcs by (simp add: normal_answer_def call_of_def answered_def)
  ultimately show ?case using tcs by (auto simp: nth_Cons algebra_simps split: nat.split)
qed auto

end
