(* ===== verification/Action_Recording.thy ===== *)
theory Action_Recording
  imports Action_Runner_Proofs
begin

text \<open>
  The runner and the trace of the Turn together (kernel/action/execution/runner.py and
  kernel/context/builtin/trace.py): the trace is the recorder of the facts. It accepts the facts of a
  batch in any order in which the groups interleave them, and leaves each Action closed.
\<close>

section \<open>One fact on one Action\<close>

definition key_of :: "prepared_execution \<Rightarrow> action_key" where
  "key_of e = (af_cycle_id (pe_framework e), ac_sequence (pe_call e))"

definition observed :: "execution_fact \<Rightarrow> trace_action \<Rightarrow> trace_action" where
  "observed f a = a\<lparr>ta_state := ef_state f, ta_invoke_id := Some (af_invoke_id (ef_framework f)),
     ta_result := ef_result f\<rparr>"

text \<open>An Action takes the next fact of an execution, before its identity is known or once it is.\<close>

definition takes :: "execution_fact \<Rightarrow> trace_action \<Rightarrow> bool" where
  "takes f a \<longleftrightarrow>
     ta_call a = ef_call f \<and> mk_trace_action (observed f a) = Inr (observed f a)
     \<and> ta_invoke_id a \<in> {None, Some (af_invoke_id (ef_framework f))}
     \<and> ef_state f \<in> set (execution_transition (ta_state a))"

fun takes_all :: "execution_fact list \<Rightarrow> trace_action \<Rightarrow> bool" where
  "takes_all [] a \<longleftrightarrow> True"
| "takes_all (f # fs) a \<longleftrightarrow> takes f a \<and> takes_all fs (observed f a)"

lemma record_fact_kept:
  "ref \<noteq> [] \<Longrightarrow> \<exists>h'. record_fact kind ref cycle None h = (h', Inr ())
     \<and> th_actions h' = th_actions h \<and> th_turn_id h' = th_turn_id h"
  by (simp add: record_fact_def mk_trace_fact_def)

lemma settle_action_kept:
  "\<exists>h'. settle_action key a kind h = (h', Inr ()) \<and> map_of (th_actions h') = (map_of (th_actions h))(key \<mapsto> a)
     \<and> th_turn_id h' = th_turn_id h"
proof -
  let ?h1 = "h\<lparr>th_actions := AList.update key a (th_actions h)\<rparr>"
  have "action_ref key ?h1 \<noteq> []" by (simp add: action_ref_def head_ref_def)
  then obtain h' where "record_fact kind (action_ref key ?h1) (fst key) None ?h1 = (h', Inr ())"
    "th_actions h' = th_actions ?h1" "th_turn_id h' = th_turn_id ?h1"
    using record_fact_kept by blast
  then show ?thesis by (simp add: settle_action_def update_conv')
qed

lemma record_taken:
  assumes "af_turn_id (ef_framework f) = th_turn_id h"
    "map_of (th_actions h) (af_cycle_id (ef_framework f), ac_sequence (ef_call f)) = Some a" "takes f a"
  shows "\<exists>h'. record_execution f h = (h', Inr ())
    \<and> map_of (th_actions h')
        = (map_of (th_actions h))((af_cycle_id (ef_framework f), ac_sequence (ef_call f)) \<mapsto> observed f a)
    \<and> th_turn_id h' = th_turn_id h"
proof -
  let ?key = "(af_cycle_id (ef_framework f), ac_sequence (ef_call f))"
  have made: "mk_trace_action (a\<lparr>ta_state := ef_state f, ta_invoke_id := Some (af_invoke_id (ef_framework f)),
      ta_result := ef_result f\<rparr>) = Inr (observed f a)"
    using assms(3) by (simp add: takes_def observed_def)
  have invoke: "ta_invoke_id (observed f a) = Some (af_invoke_id (ef_framework f))" by (simp add: observed_def)
  consider (same) "a = observed f a" | (asked) "a \<noteq> observed f a" "ef_state f = ES_REQUESTED"
    | (later) "a \<noteq> observed f a" "ef_state f \<noteq> ES_REQUESTED" by blast
  then show ?thesis
  proof cases
    case same
    then have "record_execution f h = (h, Inr ())"
      using assms made by (simp add: record_execution_def takes_def Let_def)
    then show ?thesis using same assms(2) by (auto simp: fun_upd_idem)
  next
    case asked
    then have "record_execution f h = (h\<lparr>th_actions := AList.update ?key (observed f a) (th_actions h)\<rparr>, Inr ())"
      using assms made invoke by (auto simp: record_execution_def takes_def Let_def)
    then show ?thesis by (simp add: update_conv')
  next
    case later
    then have "record_execution f h = settle_action ?key (observed f a) (fact_of_state (ef_state f)) h"
      using assms made invoke by (auto simp: record_execution_def takes_def Let_def)
    then show ?thesis using settle_action_kept by simp
  qed
qed

section \<open>The facts of a batch\<close>

fun record_all :: "execution_fact list \<Rightarrow> trace_heap \<Rightarrow> trace_heap \<times> unit context_result" where
  "record_all [] h = (h, Inr ())"
| "record_all (f # fs) h =
     (case record_execution f h of (h', Inl e) \<Rightarrow> (h', Inl e) | (h', Inr _) \<Rightarrow> record_all fs h')"

lemma fact_of_parts:
  assumes "fact_of e f"
  shows "af_turn_id (ef_framework f) = af_turn_id (pe_framework e)"
    "(af_cycle_id (ef_framework f), ac_sequence (ef_call f)) = key_of e" "ef_call f = pe_call e"
    "af_invoke_id (ef_framework f) = invoke_id e"
proof -
  have f: "ef_framework f = (pe_framework e)\<lparr>af_deadline := af_deadline (ef_framework f)\<rparr>" "ef_call f = pe_call e"
    using assms by (simp_all add: fact_of_def)
  show "af_turn_id (ef_framework f) = af_turn_id (pe_framework e)" by (subst f(1), simp)
  have "af_cycle_id (ef_framework f) = af_cycle_id (pe_framework e)" by (subst f(1), simp)
  then show "(af_cycle_id (ef_framework f), ac_sequence (ef_call f)) = key_of e" using f(2) by (simp add: key_of_def)
  show "ef_call f = pe_call e" by (rule f(2))
  show "af_invoke_id (ef_framework f) = invoke_id e" unfolding invoke_id_def by (subst f(1), simp)
qed

text \<open>What an Action is after the facts about its execution.\<close>

definition after_facts :: "execution_fact list \<Rightarrow> trace_action \<Rightarrow> trace_action" where
  "after_facts fs a = fold observed fs a"

lemma record_all_taken:
  assumes "\<And>f. f \<in> set fs \<Longrightarrow> \<exists>e \<in> set es. fact_of e f" "inj_on invoke_id (set es)" "inj_on key_of (set es)"
    "\<And>e. e \<in> set es \<Longrightarrow> af_turn_id (pe_framework e) = th_turn_id h"
    "\<And>e. e \<in> set es \<Longrightarrow> map_of (th_actions h) (key_of e) = Some (act e)"
    "\<And>e. e \<in> set es \<Longrightarrow> takes_all (facts_about e fs) (act e)"
  shows "\<exists>h'. record_all fs h = (h', Inr ())
    \<and> (\<forall>e \<in> set es. map_of (th_actions h') (key_of e) = Some (after_facts (facts_about e fs) (act e)))"
  using assms
proof (induction fs arbitrary: h act)
  case Nil
  then show ?case by (simp add: facts_about_def after_facts_def)
next
  case (Cons f fs)
  obtain e where e: "e \<in> set es" "fact_of e f" using Cons.prems(1) [of f] by auto
  note parts = fact_of_parts [OF e(2)]
  have about: "facts_about x (f # fs) = (if x = e then f # facts_about x fs else facts_about x fs)" if "x \<in> set es" for x
    using parts(4) Cons.prems(2) that e(1) by (auto simp: facts_about_def fact_invoke_def dest: inj_onD)
  have takes: "takes f (act e)" using Cons.prems(6) [OF e(1)] about [OF e(1)] by simp
  obtain h1 where h1: "record_execution f h = (h1, Inr ())"
    "map_of (th_actions h1) = (map_of (th_actions h))(key_of e \<mapsto> observed f (act e))" "th_turn_id h1 = th_turn_id h"
    using record_taken [of f h "act e"] parts Cons.prems(4,5) [OF e(1)] takes by auto
  have keys: "key_of x \<noteq> key_of e" if "x \<in> set es" "x \<noteq> e" for x
    using Cons.prems(3) that e(1) by (auto dest: inj_onD)
  have "\<exists>h'. record_all fs h1 = (h', Inr ())
      \<and> (\<forall>x \<in> set es. map_of (th_actions h') (key_of x)
          = Some (after_facts (facts_about x fs) ((act(e := observed f (act e))) x)))"
  proof (rule Cons.IH)
    show "map_of (th_actions h1) (key_of x) = Some ((act(e := observed f (act e))) x)" if "x \<in> set es" for x
      using h1(2) Cons.prems(5) [OF that] keys [OF that] by simp
    show "takes_all (facts_about x fs) ((act(e := observed f (act e))) x)" if "x \<in> set es" for x
      using Cons.prems(6) [OF that] about [OF that] by (auto split: if_splits)
  qed (use Cons.prems h1(3) in auto)
  then show ?case using h1(1) about by (fastforce simp: after_facts_def)
qed

section \<open>The facts of a run are taken\<close>

text \<open>An Action of the trace that no execution has claimed yet.\<close>

definition awaiting :: "trace_heap \<Rightarrow> prepared_execution \<Rightarrow> bool" where
  "awaiting h e \<longleftrightarrow> (\<exists>a. map_of (th_actions h) (key_of e) = Some a \<and> ta_cycle_id a \<noteq> [] \<and> ta_call a = pe_call e
     \<and> ta_state a = ES_REQUESTED \<and> ta_invoke_id a = None \<and> ta_result a = None)"

definition closed_by :: "trace_action \<Rightarrow> prepared_execution \<Rightarrow> bool" where
  "closed_by a e \<longleftrightarrow> ta_call a = pe_call e \<and> ta_invoke_id a = Some (invoke_id e)
     \<and> ta_state a \<in> {ES_SETTLED, ES_CANCELLED, ES_NOT_EXECUTED, ES_UNKNOWN}
     \<and> (ta_state a = ES_SETTLED \<longrightarrow> (\<exists>r. ta_result a = Some r \<and> answers_execution e r))"

lemma takes_fact:
  assumes "fact_of e f" "ta_call a = pe_call e" "ta_cycle_id a \<noteq> []" "ta_invoke_id a \<in> {None, Some (invoke_id e)}"
    "ef_state f \<in> set (execution_transition (ta_state a))"
  shows "takes f a \<and> ta_call (observed f a) = pe_call e \<and> ta_cycle_id (observed f a) \<noteq> []
    \<and> ta_invoke_id (observed f a) = Some (invoke_id e) \<and> ta_state (observed f a) = ef_state f
    \<and> ta_result (observed f a) = ef_result f"
proof -
  note parts = fact_of_parts [OF assms(1)]
  have made: "mk_execution_fact f = Inr f" using assms(1) by (simp add: fact_of_def)
  have state: "(ef_state f = ES_SETTLED) = (ef_result f \<noteq> None)"
    using made by (auto simp: mk_execution_fact_def split: if_splits)
  have result: "ar_call_id r = ac_call_id (pe_call e) \<and> ar_action_name r = ac_action_name (pe_call e)
      \<and> ar_sequence r = ac_sequence (pe_call e) \<and> ar_invoke_id r = Some (invoke_id e)" if "ef_result f = Some r" for r
    using made that parts(3,4) by (auto simp: mk_execution_fact_def split: if_splits)
  have "mk_trace_action (observed f a) = Inr (observed f a)"
    using state result assms(2,3) parts(3,4) by (auto simp: mk_trace_action_def observed_def split: option.split)
  then show ?thesis using assms parts by (auto simp: takes_def observed_def)
qed

lemma settled_result:
  assumes "fact_of e f" "ef_state f = ES_SETTLED"
  shows "\<exists>r. ef_result f = Some r \<and> answers_execution e r"
proof -
  have made: "mk_execution_fact f = Inr f" using assms(1) by (simp add: fact_of_def)
  have f: "ef_framework f = (pe_framework e)\<lparr>af_deadline := af_deadline (ef_framework f)\<rparr>" "ef_call f = pe_call e"
    using assms by (simp_all add: fact_of_def)
  have ids: "af_batch_id (ef_framework f) = af_batch_id (pe_framework e)"
      "af_domain (ef_framework f) = af_domain (pe_framework e)"
      "af_invoke_id (ef_framework f) = af_invoke_id (pe_framework e)"
    by (subst f(1), simp)+
  then show ?thesis using made assms(2) f(2)
    by (auto simp: mk_execution_fact_def answers_execution_def split: if_splits option.splits)
qed

lemma run_taken:
  assumes "list_all (fact_of e) fs" "map ef_state fs \<in> (#) ES_REQUESTED ` full_runs"
    "ta_call a = pe_call e" "ta_cycle_id a \<noteq> []" "ta_state a = ES_REQUESTED" "ta_invoke_id a = None"
  shows "takes_all fs a \<and> closed_by (after_facts fs a) e"
proof -
  obtain f0 fs' where fs: "fs = f0 # fs'" "ef_state f0 = ES_REQUESTED" "map ef_state fs' \<in> full_runs" "fact_of e f0"
    using assms(1,2) by (cases fs) auto
  let ?a0 = "observed f0 a"
  have a0: "takes f0 a" "ta_call ?a0 = pe_call e" "ta_cycle_id ?a0 \<noteq> []" "ta_invoke_id ?a0 = Some (invoke_id e)"
    "ta_state ?a0 = ES_REQUESTED"
    using takes_fact [OF fs(4) assms(3,4)] assms(5,6) fs(2) by simp_all
  consider (one) f1 where "fs' = [f1]" "ef_state f1 = ES_NOT_EXECUTED"
    | (two) f1 f2 where "fs' = [f1, f2]" "ef_state f1 = ES_STARTED" "ef_state f2 \<in> {ES_SETTLED, ES_CANCELLED, ES_UNKNOWN}"
    using fs(3) by (auto simp: full_runs_def map_eq_Cons_conv)
  then show ?thesis
  proof cases
    case one
    have "fact_of e f1" using assms(1) fs(1) one by simp
    from takes_fact [OF this a0(2,3)] show ?thesis
      using a0 one fs(1) by (simp add: after_facts_def closed_by_def)
  next
    case two
    let ?a1 = "observed f1 ?a0"
    have f: "fact_of e f1" "fact_of e f2" using assms(1) fs(1) two by simp_all
    have a1: "takes f1 ?a0" "ta_call ?a1 = pe_call e" "ta_cycle_id ?a1 \<noteq> []" "ta_invoke_id ?a1 = Some (invoke_id e)"
      "ta_state ?a1 = ES_STARTED"
      using takes_fact [OF f(1) a0(2,3)] a0(4,5) two(2) by simp_all
    have "ef_state f2 \<in> set (execution_transition (ta_state ?a1))" using two(3) a1(5) by auto
    from takes_fact [OF f(2) a1(2,3) _ this] settled_result [OF f(2)] show ?thesis
      using a0(1) a1(1,4) two fs(1) by (auto simp: after_facts_def closed_by_def)
  qed
qed

lemma batch_fact_of:
  assumes "batch_run s b fs r" "sound_schedules s (pb_executions b)" "distinct (map invoke_id (pb_executions b))"
    "f \<in> set fs"
  shows "\<exists>e \<in> set (pb_executions b). fact_of e f"
proof -
  obtain gfs scheduled r' where run: "run_groups s (plan b) gfs r' scheduled"
    and fs: "fs = map (state_fact ES_REQUESTED) (pb_executions b) @ gfs
        @ map (state_fact ES_NOT_EXECUTED)
            (filter (\<lambda>e. invoke_id e \<notin> set (map invoke_id scheduled)) (pb_executions b))"
    using assms(1) by (auto elim: batch_runE)
  have "(\<exists>rest. pb_executions b = scheduled @ rest)" "\<forall>f \<in> set gfs. \<exists>e \<in> set scheduled. fact_of e f"
    using run_groups_facts [OF run] assms(2,3) unfolding concat_plan by blast+
  moreover have "\<exists>e \<in> set (pb_executions b). fact_of e (state_fact state x)"
    if "x \<in> set (pb_executions b)" "state \<noteq> ES_SETTLED" for x state
    using that state_fact_self by blast
  ultimately show ?thesis using assms(4) unfolding fs by fastforce
qed

text \<open>The facts about an execution are its run: it was requested, then it was closed in one way.\<close>

lemma batch_states:
  assumes "batch_run s b fs r" "sound_schedules s (pb_executions b)" "distinct (map invoke_id (pb_executions b))"
    "e \<in> set (pb_executions b)"
  shows "list_all (fact_of e) (facts_about e fs) \<and> map ef_state (facts_about e fs) \<in> (#) ES_REQUESTED ` full_runs"
proof -
  obtain rest where rest: "facts_about e fs = state_fact ES_REQUESTED e # rest"
      "rest = [state_fact ES_NOT_EXECUTED e] \<or> rest = fst (limited (s e) e)"
    using batch_facts [OF assms] by blast
  have "list_all (fact_of e) (fst (limited (s e) e)) \<and> map ef_state (fst (limited (s e) e)) \<in> full_runs"
    using limited_facts [of "s e" e] assms(2,4) by (simp add: sound_schedules_def)
  moreover have "list_all (fact_of e) [state_fact ES_NOT_EXECUTED e]
      \<and> map ef_state [state_fact ES_NOT_EXECUTED e] \<in> full_runs"
    by (simp add: state_fact_self full_runs_def)
  ultimately show ?thesis using rest by (auto simp: state_fact_self)
qed

section \<open>Registered calls\<close>

definition requested_action :: "string \<Rightarrow> action_call \<Rightarrow> trace_action" where
  "requested_action cycle_id c = \<lparr>ta_cycle_id = cycle_id, ta_call = c, ta_state = ES_REQUESTED,
     ta_invoke_id = None, ta_result = None\<rparr>"

text \<open>Calls of a new Cycle are registered, each as an Action that was requested.\<close>

lemma register_new_calls:
  assumes "cycle_id \<noteq> []" "distinct (map ac_sequence calls)"
    "\<And>c. c \<in> set calls \<Longrightarrow> map_of (th_actions h) (cycle_id, ac_sequence c) = None"
  shows "\<exists>h'. register_action_calls cycle_id calls h = (h', Inr ()) \<and> th_turn_id h' = th_turn_id h
    \<and> (\<forall>c \<in> set calls. map_of (th_actions h') (cycle_id, ac_sequence c) = Some (requested_action cycle_id c))
    \<and> (\<forall>k. k \<notin> (\<lambda>c. (cycle_id, ac_sequence c)) ` set calls \<longrightarrow> map_of (th_actions h') k = map_of (th_actions h) k)"
  using assms(2,3)
proof (induction calls arbitrary: h)
  case (Cons c calls)
  let ?key = "(cycle_id, ac_sequence c)"
  let ?h1 = "h\<lparr>th_actions := AList.update ?key (requested_action cycle_id c) (th_actions h)\<rparr>"
  have made: "mk_trace_action (requested_action cycle_id c) = Inr (requested_action cycle_id c)"
    using assms(1) by (simp add: mk_trace_action_def requested_action_def)
  have "action_ref ?key ?h1 \<noteq> []" by (simp add: action_ref_def head_ref_def)
  then obtain h2 where h2: "record_fact FK_ACTION_REQUESTED (action_ref ?key ?h1) cycle_id None ?h1 = (h2, Inr ())"
    "th_actions h2 = th_actions ?h1" "th_turn_id h2 = th_turn_id ?h1"
    using record_fact_kept by blast
  have "map_of (th_actions h2) (cycle_id, ac_sequence d) = None" if d: "d \<in> set calls" for d
  proof -
    have "ac_sequence d \<noteq> ac_sequence c" using Cons.prems(1) imageI [OF d, of ac_sequence] by auto
    then show ?thesis using Cons.prems(2) [of d] d h2(2) by (simp add: update_conv')
  qed
  then obtain h3 where h3: "register_action_calls cycle_id calls h2 = (h3, Inr ())" "th_turn_id h3 = th_turn_id h2"
    "\<forall>d \<in> set calls. map_of (th_actions h3) (cycle_id, ac_sequence d) = Some (requested_action cycle_id d)"
    "\<forall>k. k \<notin> (\<lambda>c. (cycle_id, ac_sequence c)) ` set calls \<longrightarrow> map_of (th_actions h3) k = map_of (th_actions h2) k"
    using Cons.IH [of h2] Cons.prems(1) by auto
  have "map_of (th_actions h) ?key = None" using Cons.prems(2) by simp
  then have run: "register_action_calls cycle_id (c # calls) h = register_action_calls cycle_id calls h2"
    using made h2(1) by (simp add: Let_def requested_action_def [symmetric])
  have "?key \<notin> (\<lambda>d. (cycle_id, ac_sequence d)) ` set calls" using Cons.prems(1) by force
  then have "map_of (th_actions h3) ?key = map_of (th_actions h2) ?key" using h3(4) by blast
  then have key: "map_of (th_actions h3) ?key = Some (requested_action cycle_id c)"
    using h2(2) by (simp add: update_conv')
  have old: "map_of (th_actions h3) k = map_of (th_actions h) k"
    if "k \<notin> (\<lambda>d. (cycle_id, ac_sequence d)) ` set (c # calls)" for k
  proof -
    have "map_of (th_actions h3) k = map_of (th_actions h2) k" using that spec [OF h3(4), of k] by simp
    then show ?thesis using that h2(2) by (simp add: update_conv')
  qed
  show ?case
    by (intro exI [of _ h3] conjI) (use run h3(1,2,3) h2(3) key old in simp_all)
qed simp

end
