(* ===== verification/Action_Properties.thy ===== *)
theory Action_Properties
  imports Action_Recording
begin

text \<open>
  The path of the tool calls of a Phase 2 through normalization, preparation, execution and merging
  (kernel/loop/phases/phase3.py), and the trace that records it: the properties that span these parts.
\<close>

section \<open>The calls of a normalization\<close>

lemma parts_length: "length (right_parts xs) + length (left_parts xs) = length xs"
  by (induction xs rule: left_parts.induct) auto

lemma right_parts_calls:
  assumes "length answers = length tcs"
    "\<And>k. k < length tcs \<Longrightarrow> normal_answer n (i + int k) (tcs ! k)
       (tc_id (tcs ! k) \<in> set seen \<union> set (map tc_id (take k tcs))) (answers ! k)"
  shows "distinct (map ac_call_id (right_parts answers))
    \<and> set (map ac_call_id (right_parts answers)) \<inter> set seen = {}
    \<and> sorted_wrt (<) (map ac_sequence (right_parts answers)) \<and> list_all (\<lambda>c. i \<le> ac_sequence c) (right_parts answers)"
  using assms
proof (induction answers arbitrary: tcs i seen)
  case (Cons a answers)
  obtain tc ts where tcs: "tcs = tc # ts" using Cons.prems(1) by (cases tcs) auto
  have "normal_answer n ((i + 1) + int k) (ts ! k)
      (tc_id (ts ! k) \<in> set (tc_id tc # seen) \<union> set (map tc_id (take k ts))) (answers ! k)" if "k < length ts" for k
    using Cons.prems(2) [of "Suc k"] that tcs by (simp add: algebra_simps)
  then have later: "distinct (map ac_call_id (right_parts answers))
      \<and> set (map ac_call_id (right_parts answers)) \<inter> set (tc_id tc # seen) = {}
      \<and> sorted_wrt (<) (map ac_sequence (right_parts answers))
      \<and> list_all (\<lambda>c. i + 1 \<le> ac_sequence c) (right_parts answers)"
    by (intro Cons.IH) (use Cons.prems(1) tcs in auto)
  show ?case
  proof (cases a)
    case (Inl r)
    then show ?thesis using later by (auto simp: list_all_iff)
  next
    case (Inr c)
    then have "c = call_of tc i" "tc_id tc \<notin> set seen"
      using Cons.prems(2) [of 0] tcs by (auto simp: normal_answer_def)
    then show ?thesis using later Inr by (fastforce simp: call_of_def list_all_iff)
  qed
qed simp

lemma normalize_answers:
  assumes "sound_normalizer n" "solid_catalog (nm_catalog n)" "list_all fit_call tcs" "normalize n tcs w = (w', Inr z)"
  obtains answers where "length answers = length tcs" "nz_results z = left_parts answers" "nz_calls z = right_parts answers"
    "\<And>k. k < length tcs \<Longrightarrow> normal_answer n (1 + int k) (tcs ! k)
       (tc_id (tcs ! k) \<in> set (map tc_id (take k tcs))) (answers ! k)"
proof -
  have "\<exists>answers. length answers = length tcs
    \<and> nz_results z = [] @ left_parts answers \<and> nz_calls z = [] @ right_parts answers
    \<and> (\<forall>k < length tcs. normal_answer n (0 + int k + 1) (tcs ! k)
          (tc_id (tcs ! k) \<in> set [] \<union> set (map tc_id (take k tcs))) (answers ! k))"
    using normalize_loop_answers [OF assms(1) _ _ assms(3), of 0 "[]" "\<lparr>nz_calls = [], nz_results = []\<rparr>" w w' z]
      assms(2,4) by (simp add: normalize_def solid_catalog_def)
  then show ?thesis using that by (auto simp: algebra_simps)
qed

lemma answer_in:
  assumes "length answers = length tcs" "\<And>k. k < length tcs \<Longrightarrow> normal_answer n (1 + int k) (tcs ! k) (seen k) (answers ! k)"
    "c \<in> set (right_parts answers)"
  obtains k where "k < length tcs" "c = call_of (tcs ! k) (1 + int k)"
    "\<exists>a. get_action (nm_catalog n) (ac_action_name c) = Inr a
       \<and> validate_action_params (ac_params c) (at_schema (sp_tool a)) = Inr ()" "mk_action_call c = Inr c"
proof -
  obtain k where k: "k < length tcs" "answers ! k = Inr c"
    using assms(1,3) in_set_conv_nth [of "Inr c" answers] by (auto simp: mem_right_parts)
  then show ?thesis using that assms(2) [OF k(1)] by (auto simp: normal_answer_def call_of_def)
qed

lemma normalized_calls:
  assumes "sound_normalizer n" "solid_catalog (nm_catalog n)" "list_all fit_call tcs" "normalize n tcs w = (w', Inr z)"
  shows "distinct (map ac_call_id (nz_calls z))" "sorted_wrt (<) (map ac_sequence (nz_calls z))"
    "c \<in> set (nz_calls z) \<Longrightarrow> mk_action_call c = Inr c \<and> (\<exists>a. get_action (nm_catalog n) (ac_action_name c) = Inr a
       \<and> validate_action_params (ac_params c) (at_schema (sp_tool a)) = Inr ())"
proof -
  obtain answers where a: "length answers = length tcs" "nz_calls z = right_parts answers"
    "\<And>k. k < length tcs \<Longrightarrow> normal_answer n (1 + int k) (tcs ! k)
       (tc_id (tcs ! k) \<in> set (map tc_id (take k tcs))) (answers ! k)"
    using normalize_answers [OF assms] by metis
  show "distinct (map ac_call_id (nz_calls z))" "sorted_wrt (<) (map ac_sequence (nz_calls z))"
    using right_parts_calls [OF a(1), of n 1 "[]"] a(2,3) by auto
  show "c \<in> set (nz_calls z) \<Longrightarrow> mk_action_call c = Inr c \<and> (\<exists>a. get_action (nm_catalog n) (ac_action_name c) = Inr a
       \<and> validate_action_params (ac_params c) (at_schema (sp_tool a)) = Inr ())"
    unfolding a(2) by (rule answer_in [OF a(1,3)]) auto
qed

lemma prepare_normalized:
  assumes "sound_normalizer n" "solid_catalog (nm_catalog n)" "list_all fit_call tcs" "normalize n tcs w = (w', Inr z)"
    "br_catalog q = nm_catalog n" "br_batch_id q \<noteq> []" "inj_on (br_fresh q) {..<length (nz_calls z)}"
  obtains b where "prepare_batch q (nz_calls z) = Inr \<lparr>bp_batch = b, bp_results = [], bp_phase_results = []\<rparr>"
    "map pe_call (pb_executions b) = nz_calls z" "list_all2 (prepared_from q) (nz_calls z) (pb_executions b)"
    "is_ok (mk_prepared_batch b)"
proof -
  note calls = normalized_calls [OF assms(1-4)]
  have dist: "distinct (map ac_sequence (nz_calls z))" using calls(2) strict_sorted_iff by blast
  have known: "has_action (br_catalog q) (ac_action_name c)" if "c \<in> set (nz_calls z)" for c
    using calls(3) [OF that] assms(5) by (auto simp: has_action_iff)
  have solid: "solid_catalog (br_catalog q)" using assms(2,5) by simp
  obtain es where "prepare_batch q (nz_calls z) = Inr \<lparr>bp_batch = \<lparr>pb_batch_id = br_batch_id q, pb_executions = es\<rparr>,
      bp_results = [], bp_phase_results = []\<rparr>" "map pe_call es = nz_calls z" "list_all2 (prepared_from q) (nz_calls z) es"
    "is_ok (mk_prepared_batch \<lparr>pb_batch_id = br_batch_id q, pb_executions = es\<rparr>)"
    by (rule prepare_batch_ok [OF solid assms(6,7) known calls(1) dist])
  then show ?thesis using that [of "\<lparr>pb_batch_id = br_batch_id q, pb_executions = es\<rparr>"] by simp
qed

lemma batch_distinct:
  assumes "is_ok (mk_prepared_batch b)"
  shows "distinct (map invoke_id (pb_executions b))"
proof -
  have "is_ok (check_executions (pb_batch_id b) (map as_execution (pb_executions b)) [] [] [])"
    using assms by (cases "check_executions (pb_batch_id b) (map as_execution (pb_executions b)) [] [] []")
      (auto simp: mk_prepared_batch_def mk_action_batch_def bind_r_def is_ok_def require_non_empty_def split: sum.splits)
  then show ?thesis
    by (simp add: check_executions_iff as_execution_def comp_def invoke_id_def [abs_def])
qed

lemma batch_distinct_calls:
  assumes "is_ok (mk_prepared_batch b)"
  shows "distinct (map (\<lambda>e. ac_sequence (pe_call e)) (pb_executions b))"
proof -
  have "is_ok (check_executions (pb_batch_id b) (map as_execution (pb_executions b)) [] [] [])"
    using assms by (cases "check_executions (pb_batch_id b) (map as_execution (pb_executions b)) [] [] []")
      (auto simp: mk_prepared_batch_def mk_action_batch_def bind_r_def is_ok_def require_non_empty_def split: sum.splits)
  then show ?thesis by (simp add: check_executions_iff as_execution_def comp_def)
qed

lemma conforming_tool:
  assumes "solid_catalog c" "get_action c n = Inr a"
  shows "validate_action_params params (at_schema (sp_tool a)) = Inr () \<longleftrightarrow> conforms (at_schema (sp_tool a)) (JObj params)"
proof -
  have "mk_action_tool (sp_tool a) = Inr (sp_tool a)" using solid_get [OF assms] by (simp add: wf_action_spec_def)
  then have "validate_schema_definition (at_schema (sp_tool a)) (''ActionToolSpec('' @ at_name (sp_tool a) @ '').schema'') = Inr ()"
    by (auto simp: mk_action_tool_def bind_r_Inr_iff split: if_splits sum.splits)
  then show ?thesis by (rule params_iff)
qed

text \<open>
  What \<open>_run_one\<close> returns is a result of that execution: the identity of the call, of the
  invocation and of the batch, the name, the sequence and the domain, and a trace projection exactly
  when the Action succeeded and its trace is foldable, whatever the hooks and the executor do.
\<close>

lemma run_one_answers:
  assumes "run_one hooks executors fresh e w = (w', Inr r)"
  shows "answers_execution e r
    \<and> (ar_status r = RS_SUCCESS \<longrightarrow>
        (ar_trace_projection r \<noteq> None \<longleftrightarrow> rs_trace_mode (sp_runtime (pe_action e)) = TM_FOLDABLE))"
proof -
  obtain hook_result x w1 w2 where steps: "of_pipeline (execution_pipeline hooks fresh e) w = (w1, Inr hook_result)"
    and "(case x of
       None \<Rightarrow> op_raise (RunAction (Broken (EngineInvariant ''Action executor returned an invalid result object'')))
     | Some r \<Rightarrow>
         if result_mismatch e r then
           op_raise (RunAction (Broken (EngineInvariant ''Action executor returned another invocation's result'')))
         else if trace_projection_mismatch e r then
           op_raise (RunAction (Broken (EngineInvariant ''Action executor violated the result trace policy'')))
         else op_return r) w2 = (w', Inr r)"
    using assms unfolding run_one_def op_bind_Inr by blast
  then have "\<not> result_mismatch e r \<and> \<not> trace_projection_mismatch e r"
    by (cases x) (simp_all split: if_splits)
  then show ?thesis by (auto simp: result_mismatch_def trace_projection_mismatch_def answers_execution_def)
qed

text \<open>
  The trace of the Turn accepts every fact the runner records for a batch, whichever way the facts
  of its groups interleave and however the run ends, and it leaves every Action of the batch closed.
\<close>

lemma trace_closes_batch:
  assumes "is_ok (mk_prepared_batch b)" "sound_schedules s (pb_executions b)" "batch_run s b fs r"
    "\<And>e. e \<in> set (pb_executions b) \<Longrightarrow> af_turn_id (pe_framework e) = th_turn_id h \<and> awaiting h e"
  shows "\<exists>h'. record_all fs h = (h', Inr ())
    \<and> (\<forall>e \<in> set (pb_executions b). \<exists>a. map_of (th_actions h') (key_of e) = Some a \<and> closed_by a e)"
proof -
  note invokes = batch_distinct [OF assms(1)]
  have inj: "inj_on invoke_id (set (pb_executions b))" using invokes by (simp add: distinct_map)
  have keys: "inj_on key_of (set (pb_executions b))"
    using batch_distinct_calls [OF assms(1)] by (auto simp: distinct_map inj_on_def key_of_def)
  define act where "act e = the (map_of (th_actions h) (key_of e))" for e
  have act: "map_of (th_actions h) (key_of e) = Some (act e)" "ta_cycle_id (act e) \<noteq> []" "ta_call (act e) = pe_call e"
      "ta_state (act e) = ES_REQUESTED" "ta_invoke_id (act e) = None" if "e \<in> set (pb_executions b)" for e
    using assms(4) [OF that] by (auto simp: awaiting_def act_def)
  have taken: "takes_all (facts_about e fs) (act e) \<and> closed_by (after_facts (facts_about e fs) (act e)) e"
    if "e \<in> set (pb_executions b)" for e
    using batch_states [OF assms(3,2) invokes that] by (intro run_taken act that) blast+
  have "\<exists>h'. record_all fs h = (h', Inr ())
      \<and> (\<forall>e \<in> set (pb_executions b). map_of (th_actions h') (key_of e) = Some (after_facts (facts_about e fs) (act e)))"
    by (rule record_all_taken [OF batch_fact_of [OF assms(3,2) invokes] inj keys]) (use assms(4) act taken in auto)
  then show ?thesis using taken by blast
qed

section \<open>A batch of one call\<close>

text \<open>
  A catalog of one Action with the schema of Schema_Properties, and two calls of the model: the first
  names the Action, the second an Action the catalog does not have.
\<close>

definition sample_visibility :: visibility_spec where
  "sample_visibility = \<lparr>vs_default = None, vs_scenarios = []\<rparr>"

definition sample_domain :: domain_spec where
  "sample_domain = \<lparr>ds_name = ''core'', ds_description = ''Core'', ds_selection_hint = [], ds_visibility = sample_visibility\<rparr>"

definition sample_action :: action_spec where
  "sample_action = \<lparr>sp_name = ''core.x'', sp_domain = ''core'',
     sp_tool = \<lparr>at_name = ''core.x'', at_description = ''X'', at_schema = sample_schema\<rparr>,
     sp_semantic = \<lparr>sm_use_when = [], sm_avoid_when = [], sm_effects = [EE_READ_ONLY], sm_examples = []\<rparr>,
     sp_runtime = \<lparr>rs_timeout_seconds = Some 5, rs_parallel_policy = PP_SERIAL,
       rs_hooks = \<lparr>hk_normalize = [], hk_execution = []\<rparr>, rs_trace_mode = TM_STANDARD\<rparr>,
     sp_execution = \<lparr>xs_executor = ''run'', xs_options = []\<rparr>, sp_visibility = sample_visibility\<rparr>"

definition sample_catalog :: catalog where
  "sample_catalog = \<lparr>ca_domains = [(''core'', sample_domain)], ca_actions = [(''core.x'', sample_action)]\<rparr>"

definition sample_normalizer :: "(unit, unit) normalizer" where
  "sample_normalizer = \<lparr>nm_registry = empty_hooks, nm_schema_hook = schema_hook, nm_catalog = sample_catalog,
     nm_fresh = (\<lambda>_. ''f'')\<rparr>"

definition sample_tool_calls :: "tool_call list" where
  "sample_tool_calls =
     [\<lparr>tc_id = ''a'', tc_name = ''core.x'', tc_arguments = [(''n'', JInt 7)], tc_kind = Some TK_ACTION\<rparr>,
      \<lparr>tc_id = ''b'', tc_name = ''core.y'', tc_arguments = [], tc_kind = Some TK_ACTION\<rparr>]"

definition sample_call :: action_call where
  "sample_call = \<lparr>ac_call_id = ''a'', ac_action_name = ''core.x'', ac_params = [(''n'', JInt 7)], ac_sequence = 1\<rparr>"

definition sample_request :: batch_request where
  "sample_request = \<lparr>br_catalog = sample_catalog, br_scope = [], br_batch_id = ''batch'', br_turn_id = ''t'',
     br_cycle_id = ''c'', br_phase = PHASE3, br_fresh = (\<lambda>_. ''0'')\<rparr>"

definition sample_execution :: prepared_execution where
  "sample_execution = \<lparr>pe_action = sample_action, pe_call = sample_call,
     pe_framework = \<lparr>af_invoke_id = ''action_invoke_0'', af_batch_id = ''batch'', af_scope = [], af_domain = ''core'',
       af_deadline = None, af_timeout_seconds = Some 5, af_turn_id = ''t'', af_cycle_id = ''c'', af_phase = PHASE3\<rparr>\<rparr>"

definition sample_result :: action_result where
  "sample_result = \<lparr>ar_result_id = ''r'', ar_call_id = ''a'', ar_action_name = ''core.x'', ar_status = RS_SUCCESS,
     ar_stage = ST_EXECUTE, ar_sequence = 1, ar_invoke_id = Some ''action_invoke_0'', ar_batch_id = Some ''batch'',
     ar_domain = ''core'', ar_payload = [], ar_failure = None, ar_frame_data = [], ar_trace_projection = None,
     ar_model_text = None\<rparr>"

definition sample_schedule :: "prepared_execution \<Rightarrow> task_schedule" where
  "sample_schedule e = \<lparr>tk_gate_cancelled = False, tk_turn_cancelled = False, tk_start = 0, tk_group_cancelled = False,
     tk_wait = Work_Done, tk_join_cancelled = False, tk_work = Inr sample_result, tk_expired = False,
     tk_owner_cancelled = False, tk_refusal = (\<lambda>_. None), tk_fresh = ''f'', tk_timeout_json = None\<rparr>"

definition sample_batch :: prepared_batch where
  "sample_batch = \<lparr>pb_batch_id = ''batch'', pb_executions = [sample_execution]\<rparr>"

lemmas sample_defs = sample_visibility_def sample_domain_def sample_action_def sample_catalog_def

lemma sample_solid: "solid_catalog sample_catalog"
proof -
  have "validate_schema_definition sample_schema ''ActionToolSpec(core.x).schema'' = Inr ()" by code_simp
  then have "wf_action_spec sample_action"
    by (simp add: wf_action_spec_def sample_defs mk_action_spec_def mk_action_tool_def require_spec_name_def
        mk_semantic_spec_def str_tuple_def mk_hook_spec_def mk_runtime_spec_def mk_execution_spec_def
        mk_visibility_spec_def)
  moreover have "wf_catalog sample_catalog" by code_simp
  moreover have "catalog_actions sample_catalog = [sample_action]" by (simp add: catalog_actions_def sample_catalog_def)
  ultimately show ?thesis by (simp add: solid_catalog_def)
qed

lemma sample_sound: "sound_normalizer sample_normalizer"
  by (simp add: sound_normalizer_def sample_normalizer_def sound_normalize_hooks_def empty_hooks_def
      catalog_actions_def sample_defs normalize_names_for_def dict_get_def)

lemma sample_fit: "list_all fit_call sample_tool_calls"
  by (simp add: sample_tool_calls_def fit_call_def live_call_def short_name_def)

lemma sample_normalized:
  obtains r where "normalize sample_normalizer sample_tool_calls () = ((), Inr \<lparr>nz_calls = [sample_call], nz_results = [r]\<rparr>)"
proof -
  have "case normalize sample_normalizer sample_tool_calls () of (_, Inr z) \<Rightarrow> nz_calls z = [sample_call] \<and> length (nz_results z) = 1
      | _ \<Rightarrow> False" by code_simp
  then obtain z where z: "normalize sample_normalizer sample_tool_calls () = ((), Inr z)" "nz_calls z = [sample_call]"
    "length (nz_results z) = 1"
    by (cases "normalize sample_normalizer sample_tool_calls ()") (auto split: sum.splits)
  from z(3) obtain r where "nz_results z = [r]" by (auto simp: length_Suc_conv)
  then have "z = \<lparr>nz_calls = [sample_call], nz_results = [r]\<rparr>" using z(2) by (cases z) simp
  then show ?thesis using z(1) that by simp
qed

lemma sample_prepared:
  "prepare_batch sample_request [sample_call] = Inr \<lparr>bp_batch = sample_batch, bp_results = [], bp_phase_results = []\<rparr>"
  by code_simp

lemma sample_schedules: "sound_schedules sample_schedule [sample_execution]"
  by (simp add: sound_schedules_def accepting_def own_work_def sample_schedule_def answers_execution_def sample_result_def
      sample_execution_def sample_call_def)

lemma interleaved_single: "interleaved [xs] xs"
  by (induction xs) (auto intro: interleaved.intros interleaved_step [of 0])

lemma sample_plan: "plan sample_batch = [[sample_execution]]"
  by (simp add: plan_def sample_batch_def sample_execution_def sample_defs)

lemma sample_run:
  obtains fs where "batch_run sample_schedule sample_batch fs (Inr [sample_result])"
proof -
  have outcome: "snd (limited (sample_schedule sample_execution) sample_execution) = Inr sample_result" by code_simp
  have facts: "interleaved (map (\<lambda>e. fst (limited (sample_schedule e) e)) [sample_execution])
      (fst (limited (sample_schedule sample_execution) sample_execution))"
    by (simp add: interleaved_single)
  have results: "group_outcome (map (\<lambda>e. snd (limited (sample_schedule e) e)) [sample_execution]) (Inr [sample_result])"
    using outcome all_returned [of "[sample_result]"] by simp
  have "run_groups sample_schedule (plan sample_batch)
      (fst (limited (sample_schedule sample_execution) sample_execution) @ [])
      (map_sum id ((@) [sample_result]) (Inr [])) ([sample_execution] @ [])"
    unfolding sample_plan by (rule group_returned [OF facts results groups_done])
  from run_batch [OF this] have "\<exists>fs. batch_run sample_schedule sample_batch fs
      (map_sum id (sort_key ar_sequence) (map_sum id ((@) [sample_result]) (Inr [])))" by blast
  then show ?thesis using that by auto
qed

section \<open>Properties\<close>

text \<open>
  C2: no tool call of the model goes unanswered and none is answered twice. Whatever the hooks, the
  executors and the event loop do, when the run of the prepared batch returns, the merged results
  answer the tool calls one for one and in their order, each with the identity and the name of its call.
\<close>

theorem tool_calls_answered:
  assumes "sound_normalizer n" "solid_catalog (nm_catalog n)" "list_all fit_call tcs" "normalize n tcs w = (w', Inr z)"
    "br_catalog q = nm_catalog n" "br_batch_id q \<noteq> []" "inj_on (br_fresh q) {..<length (nz_calls z)}"
    "prepare_batch q (nz_calls z) = Inr p" "sound_schedules s (pb_executions (bp_batch p))"
    "batch_run s (bp_batch p) fs (Inr rs)"
  shows "list_all2 (\<lambda>tc r. ar_call_id r = tc_id tc \<and> ar_action_name r = tc_name tc) tcs
    (merged_results (nz_results z) (bp_results p @ rs))"
proof -
  obtain answers where a: "length answers = length tcs" "nz_results z = left_parts answers" "nz_calls z = right_parts answers"
    "\<And>k. k < length tcs \<Longrightarrow> normal_answer n (1 + int k) (tcs ! k) (tc_id (tcs ! k) \<in> set (map tc_id (take k tcs))) (answers ! k)"
    using normalize_answers [OF assms(1-4)] by metis
  obtain b where b: "p = \<lparr>bp_batch = b, bp_results = [], bp_phase_results = []\<rparr>"
    "map pe_call (pb_executions b) = nz_calls z" "is_ok (mk_prepared_batch b)"
    using prepare_normalized [OF assms(1-7)] assms(8) by (metis sum.inject(2))
  have "sorted_wrt (<) (map (\<lambda>e. ac_sequence (pe_call e)) (pb_executions b))"
    using normalized_calls(2) [OF assms(1-4)] unfolding b(2) [symmetric] by (simp add: comp_def)
  then have order: "sorted (map (\<lambda>e. ac_sequence (pe_call e)) (pb_executions b))" using strict_sorted_iff by blast
  have "list_all2 (\<lambda>e x. answers_execution e x \<and> snd (limited (s e) e) = Inr x) (pb_executions b) rs"
    by (rule batch_results [OF _ _ batch_distinct [OF b(3)] order, of s fs]) (use assms(9,10) b(1) in simp_all)
  then have runs: "list_all2 (\<lambda>e x. ar_call_id x = ac_call_id (pe_call e) \<and> ar_action_name x = ac_action_name (pe_call e)
      \<and> ar_sequence x = ac_sequence (pe_call e)) (pb_executions b) rs"
    by (rule list_all2_mono) (simp add: answers_execution_def)
  then have results: "list_all2 (\<lambda>c x. ar_call_id x = ac_call_id c \<and> ar_action_name x = ac_action_name c
      \<and> ar_sequence x = ac_sequence c) (right_parts answers) rs"
    unfolding a(3) [symmetric] b(2) [symmetric] by (simp add: list_all2_map1)
  have fill: "length (fill_answers answers rs) = length tcs
      \<and> (\<forall>k < length tcs. answered (tcs ! k) (1 + int k) (fill_answers answers rs ! k))"
    by (rule fill_answered [OF a(1,4) results])
  have "map ar_sequence (fill_answers answers rs) = map (\<lambda>k. 1 + int k) [0..<length tcs]"
    using fill by (intro nth_equalityI) (auto simp: answered_def)
  then have sorted: "sorted (map ar_sequence (fill_answers answers rs))"
    and "distinct (map ar_sequence (fill_answers answers rs))"
    by (simp_all add: sorted_iff_nth_mono distinct_map inj_on_def)
  then have inj: "inj_on ar_sequence (set (nz_results z @ rs))"
    using mset_fill [of rs answers] list_all2_lengthD [OF results] a(2)
    by (metis distinct_map mset_append set_mset_mset)
  have "merged_results (nz_results z) rs = fill_answers answers rs"
    unfolding merged_results_def
    by (rule sort_key_inj_key_eq [OF _ inj sorted]) (use mset_fill list_all2_lengthD [OF results] a(2) in simp)
  then show ?thesis using fill b(1) by (simp add: list_all2_conv_all_nth answered_def)
qed

theorem tool_calls_answered_witness:
  "\<exists>z p fs. normalize sample_normalizer sample_tool_calls () = ((), Inr z)
    \<and> prepare_batch sample_request (nz_calls z) = Inr p \<and> batch_run sample_schedule (bp_batch p) fs (Inr [sample_result])
    \<and> list_all2 (\<lambda>tc r. ar_call_id r = tc_id tc \<and> ar_action_name r = tc_name tc) sample_tool_calls
        (merged_results (nz_results z) (bp_results p @ [sample_result]))"
proof -
  obtain r where n: "normalize sample_normalizer sample_tool_calls () = ((), Inr \<lparr>nz_calls = [sample_call], nz_results = [r]\<rparr>)"
    by (rule sample_normalized)
  obtain fs where run: "batch_run sample_schedule sample_batch fs (Inr [sample_result])" by (rule sample_run)
  have "list_all2 (\<lambda>tc r. ar_call_id r = tc_id tc \<and> ar_action_name r = tc_name tc) sample_tool_calls
      (merged_results (nz_results \<lparr>nz_calls = [sample_call], nz_results = [r]\<rparr>)
        (bp_results \<lparr>bp_batch = sample_batch, bp_results = [], bp_phase_results = []\<rparr> @ [sample_result]))"
    by (rule tool_calls_answered [OF sample_sound _ sample_fit n, where q = sample_request and s = sample_schedule and fs = fs])
      (use sample_solid sample_prepared sample_schedules run in
        \<open>simp_all add: sample_normalizer_def sample_request_def sample_batch_def inj_on_def\<close>)
  then show ?thesis using n sample_prepared run by (intro exI conjI) auto
qed

text \<open>
  C3: Phase 3 leaves no Action open. The calls a normalization let through are registered in the trace,
  prepared and run; the trace accepts each fact the runner records, whichever way the facts of the
  groups interleave and however the run ends, and then every one of these calls is closed: settled with
  a result of its own execution, cancelled, not executed or unknown, under the one invocation identity.
\<close>

theorem phase3_closes_calls:
  assumes "sound_normalizer n" "solid_catalog (nm_catalog n)" "list_all fit_call tcs" "normalize n tcs w = (w', Inr z)"
    "br_catalog q = nm_catalog n" "br_batch_id q \<noteq> []" "inj_on (br_fresh q) {..<length (nz_calls z)}"
    "prepare_batch q (nz_calls z) = Inr p" "sound_schedules s (pb_executions (bp_batch p))"
    "batch_run s (bp_batch p) fs r"
    "br_turn_id q = th_turn_id h" "br_cycle_id q \<noteq> []" "\<And>i. map_of (th_actions h) (br_cycle_id q, i) = None"
  shows "\<exists>h1 h2. register_action_calls (br_cycle_id q) (nz_calls z) h = (h1, Inr ()) \<and> record_all fs h1 = (h2, Inr ())
    \<and> (\<forall>c \<in> set (nz_calls z). \<exists>e \<in> set (pb_executions (bp_batch p)). pe_call e = c
         \<and> (\<exists>a. map_of (th_actions h2) (br_cycle_id q, ac_sequence c) = Some a \<and> closed_by a e))"
proof -
  obtain b where b: "p = \<lparr>bp_batch = b, bp_results = [], bp_phase_results = []\<rparr>" "map pe_call (pb_executions b) = nz_calls z"
    "list_all2 (prepared_from q) (nz_calls z) (pb_executions b)" "is_ok (mk_prepared_batch b)"
    using prepare_normalized [OF assms(1-7)] assms(8) by (metis sum.inject(2))
  have dist: "distinct (map ac_sequence (nz_calls z))"
    using normalized_calls(2) [OF assms(1-4)] strict_sorted_iff by blast
  have from_q: "prepared_from q (pe_call e) e" if "e \<in> set (pb_executions b)" for e
    by (rule prepared_calls(2) [OF b(3) that])
  obtain h1 where h1: "register_action_calls (br_cycle_id q) (nz_calls z) h = (h1, Inr ())" "th_turn_id h1 = th_turn_id h"
    "\<And>c. c \<in> set (nz_calls z) \<Longrightarrow>
       map_of (th_actions h1) (br_cycle_id q, ac_sequence c) = Some (requested_action (br_cycle_id q) c)"
    using register_new_calls [OF assms(12) dist] assms(13) by blast
  have key: "key_of e = (br_cycle_id q, ac_sequence (pe_call e))" if "e \<in> set (pb_executions b)" for e
    using from_q [OF that] by (simp add: prepared_from_def key_of_def)
  have ready: "af_turn_id (pe_framework e) = th_turn_id h1 \<and> awaiting h1 e" if e: "e \<in> set (pb_executions b)" for e
  proof -
    have "pe_call e \<in> set (map pe_call (pb_executions b))" using e by simp
    then have "pe_call e \<in> set (nz_calls z)" unfolding b(2) .
    then show ?thesis using h1(2,3) key [OF e] from_q [OF e] assms(11,12)
      by (simp add: awaiting_def requested_action_def prepared_from_def)
  qed
  have "\<exists>h2. record_all fs h1 = (h2, Inr ())
      \<and> (\<forall>e \<in> set (pb_executions b). \<exists>a. map_of (th_actions h2) (key_of e) = Some a \<and> closed_by a e)"
    by (rule trace_closes_batch [OF b(4) _ _ ready]) (use assms(9,10) b(1) in simp_all)
  then obtain h2 where h2: "record_all fs h1 = (h2, Inr ())"
    "\<And>e. e \<in> set (pb_executions b) \<Longrightarrow> \<exists>a. map_of (th_actions h2) (key_of e) = Some a \<and> closed_by a e" by blast
  have "\<exists>e \<in> set (pb_executions b). pe_call e = c
      \<and> (\<exists>a. map_of (th_actions h2) (br_cycle_id q, ac_sequence c) = Some a \<and> closed_by a e)" if "c \<in> set (nz_calls z)" for c
  proof -
    have "c \<in> set (map pe_call (pb_executions b))" unfolding b(2) by (rule that)
    then obtain e where e: "e \<in> set (pb_executions b)" "pe_call e = c" by auto
    then show ?thesis using h2(2) [OF e(1)] key [OF e(1)] by auto
  qed
  then show ?thesis using h1(1) h2(1) b(1) by auto
qed

definition sample_trace :: trace_heap where
  "sample_trace = \<lparr>th_turn_id = ''t'', th_chunk_chars = 1, th_branch_factor = 2, th_min_hot_entries = 0,
     th_entries = [], th_hot = [], th_nodes = [], th_roots = [], th_actions = [], th_timeline = [], th_protected = []\<rparr>"

theorem phase3_closes_calls_witness:
  "\<exists>fs h1 h2. batch_run sample_schedule sample_batch fs (Inr [sample_result])
    \<and> register_action_calls ''c'' [sample_call] sample_trace = (h1, Inr ()) \<and> record_all fs h1 = (h2, Inr ())
    \<and> (\<exists>a. map_of (th_actions h2) (''c'', 1) = Some a \<and> closed_by a sample_execution)"
proof -
  obtain r where n: "normalize sample_normalizer sample_tool_calls () = ((), Inr \<lparr>nz_calls = [sample_call], nz_results = [r]\<rparr>)"
    by (rule sample_normalized)
  obtain fs where run: "batch_run sample_schedule sample_batch fs (Inr [sample_result])" by (rule sample_run)
  have "\<exists>h1 h2. register_action_calls (br_cycle_id sample_request) (nz_calls \<lparr>nz_calls = [sample_call], nz_results = [r]\<rparr>)
        sample_trace = (h1, Inr ()) \<and> record_all fs h1 = (h2, Inr ())
      \<and> (\<forall>c \<in> set (nz_calls \<lparr>nz_calls = [sample_call], nz_results = [r]\<rparr>).
           \<exists>e \<in> set (pb_executions (bp_batch \<lparr>bp_batch = sample_batch, bp_results = [], bp_phase_results = []\<rparr>)). pe_call e = c
           \<and> (\<exists>a. map_of (th_actions h2) (br_cycle_id sample_request, ac_sequence c) = Some a \<and> closed_by a e))"
    by (rule phase3_closes_calls [OF sample_sound _ sample_fit n, where s = sample_schedule and r = "Inr [sample_result]"])
      (use sample_solid sample_prepared sample_schedules run in
        \<open>simp_all add: sample_normalizer_def sample_request_def sample_batch_def sample_trace_def inj_on_def\<close>)
  then show ?thesis using run by (auto simp: sample_request_def sample_batch_def sample_call_def)
qed



text \<open>
  C14: a call that leaves normalization is fit to run: its Action is in the catalog, its parameters
  conform to the schema of the tool, its identity is its own and the sequence numbers increase.
\<close>

theorem normalized_calls_conform:
  assumes "sound_normalizer n" "solid_catalog (nm_catalog n)" "list_all fit_call tcs" "normalize n tcs w = (w', Inr z)"
  shows "distinct (map ac_call_id (nz_calls z)) \<and> sorted_wrt (<) (map ac_sequence (nz_calls z))
    \<and> (\<forall>c \<in> set (nz_calls z). \<exists>a. get_action (nm_catalog n) (ac_action_name c) = Inr a
         \<and> conforms (at_schema (sp_tool a)) (JObj (ac_params c)))"
  using normalized_calls [OF assms] conforming_tool [OF assms(2)] by blast

theorem normalized_calls_conform_witness:
  "\<exists>z. normalize sample_normalizer sample_tool_calls () = ((), Inr z) \<and> nz_calls z = [sample_call]
    \<and> (\<exists>a. get_action sample_catalog ''core.x'' = Inr a \<and> conforms (at_schema (sp_tool a)) (JObj [(''n'', JInt 7)]))"
proof -
  obtain r where n: "normalize sample_normalizer sample_tool_calls () = ((), Inr \<lparr>nz_calls = [sample_call], nz_results = [r]\<rparr>)"
    by (rule sample_normalized)
  have "solid_catalog (nm_catalog sample_normalizer)" using sample_solid by (simp add: sample_normalizer_def)
  from normalized_calls_conform [OF sample_sound this sample_fit n] n show ?thesis
    by (auto simp: sample_call_def sample_normalizer_def)
qed

text \<open>
  the plan runs each execution of the batch once, in the order of the batch, in groups that are
  not empty, and an execution whose policy is serial has a group to itself.
\<close>

theorem plan_keeps_order:
  "concat (plan b) = pb_executions b
    \<and> list_all (\<lambda>g. g \<noteq> [] \<and> (list_all (\<lambda>e. \<not> is_serial e) g \<or> (\<exists>e. g = [e] \<and> is_serial e))) (plan b)"
  using concat_plan [of b] plan_groups_shape [of "[]" _ "pb_executions b"] by (simp add: plan_def list_all_iff)

text \<open>
  the view of a catalog on a list of Actions holds these Actions in this order, as the catalog has
  them, under exactly their domains, and it is well formed.
\<close>

theorem view_is_exact:
  assumes "wf_catalog c" "with_actions c names = Inr v"
  shows "wf_catalog v \<and> dict_keys (ca_actions v) = names
    \<and> (\<forall>n \<in> set names. get_action v n = get_action c n)
    \<and> set (dict_keys (ca_domains v)) = {d. \<exists>n \<in> set names. \<exists>a. get_action c n = Inr a \<and> d = sp_domain a}"
  using with_actions_Inr [OF assms] by blast

theorem view_is_exact_witness:
  "\<exists>v. with_actions sample_catalog [''core.x''] = Inr v \<and> wf_catalog v \<and> dict_keys (ca_actions v) = [''core.x'']"
proof -
  have wf: "wf_catalog sample_catalog" by code_simp
  have "is_ok (with_actions sample_catalog [''core.x''])" by code_simp
  then obtain v where "with_actions sample_catalog [''core.x''] = Inr v" by (auto simp: is_ok_def split: sum.splits)
  then show ?thesis using view_is_exact [OF wf] by blast
qed

end
