(* ===== verification/Action_Engine.thy ===== *)
theory Action_Engine
  imports Action_Runner
begin

text \<open>
  The assembly of the Action module (tinysoul/kernel/action/engine.py) and the rendering of its
  results (planning/rendering.py): the builder that binds executors, hooks and guidance to a catalog,
  the engine it makes with its views and the check of an edited catalog, and the messages that answer
  the tool calls of the model. Sets of names are lists. \<open>catalog_json\<close> is not modelled.
\<close>

section \<open>The builder\<close>

record ('n, 'e, 'x) engine_builder =
  eb_catalog :: catalog
  eb_executors :: "(string \<times> 'x) list"
  eb_hooks :: "('n, 'e) hook_registry"
  eb_max_workers :: int
  eb_unsupported :: "string list"
  eb_included :: "string list option"
  eb_bindings :: "(string \<times> string) list"
  eb_semantics :: "(string \<times> (string \<times> semantic_spec)) list"
  eb_hints :: "(string \<times> string) list"
  eb_scenarios :: "string list"
  eb_scenario :: string

definition mk_engine_builder :: "catalog \<Rightarrow> string list \<Rightarrow> engine_error + ('n, 'e, 'x) engine_builder" where
  "mk_engine_builder c scenarios =
     (if scenarios = [] \<or> list_ex (\<lambda>s. py_strip s = []) scenarios
      then Inl (EngineContract ''Action assembly requires declared scenario identities'')
      else Inr \<lparr>eb_catalog = c, eb_executors = [], eb_hooks = empty_hooks, eb_max_workers = 8, eb_unsupported = [],
        eb_included = None, eb_bindings = [], eb_semantics = [], eb_hints = [], eb_scenarios = scenarios,
        eb_scenario = ''user''\<rparr>)"

definition with_scenario :: "string \<Rightarrow> ('n, 'e, 'x) engine_builder \<Rightarrow> engine_error + ('n, 'e, 'x) engine_builder" where
  "with_scenario scenario b =
     (if py_strip scenario = [] then Inl (EngineContract ''Action scenario must be non-empty'')
      else Inr (b\<lparr>eb_scenario := scenario\<rparr>))"

text \<open>\<open>executor_id or action_name\<close>\<close>

definition bind_executor ::
  "string \<Rightarrow> 'x \<Rightarrow> string option \<Rightarrow> ('n, 'e, 'x) engine_builder \<Rightarrow> engine_error + ('n, 'e, 'x) engine_builder" where
  "bind_executor action_name executor executor_id b =
     (let bound = (case executor_id of Some (c # cs) \<Rightarrow> c # cs | _ \<Rightarrow> action_name) in
      if action_name \<in> set (dict_keys (eb_bindings b))
      then Inl (EngineContract ''Action identity is already registered'')
      else bind_r (register_executor bound executor (eb_executors b)) (\<lambda>executors.
        Inr (b\<lparr>eb_executors := executors, eb_bindings := AList.update action_name bound (eb_bindings b)\<rparr>)))"

definition with_action_semantics ::
  "string \<Rightarrow> string \<Rightarrow> semantic_spec \<Rightarrow> ('n, 'e, 'x) engine_builder \<Rightarrow> engine_error + ('n, 'e, 'x) engine_builder" where
  "with_action_semantics action_name description semantic b =
     (if py_strip description = []
      then Inl (EngineContract ''Profile Action guidance must be typed and non-empty'')
      else Inr (b\<lparr>eb_semantics := AList.update action_name (description, semantic) (eb_semantics b)\<rparr>))"

definition with_action_hint ::
  "string \<Rightarrow> string \<Rightarrow> ('n, 'e, 'x) engine_builder \<Rightarrow> engine_error + ('n, 'e, 'x) engine_builder" where
  "with_action_hint action_name hint b =
     (if action_name = [] then Inl (EngineContract ''Action guidance requires an Action name'')
      else if py_strip hint = [] then Inl (EngineContract ''Action guidance must be non-empty text'')
      else Inr (b\<lparr>eb_hints := AList.update action_name (py_strip hint) (eb_hints b)\<rparr>))"

text \<open>The names before an empty one are marked before it raises.\<close>

fun mark_actions_unsupported ::
  "string list \<Rightarrow> ('n, 'e, 'x) engine_builder \<Rightarrow> ('n, 'e, 'x) engine_builder \<times> (engine_error + unit)" where
  "mark_actions_unsupported [] b = (b, Inr ())"
| "mark_actions_unsupported (name # names) b =
     (if name = [] then (b, Inl (EngineContract ''Unsupported action name must be non-empty''))
      else mark_actions_unsupported names (b\<lparr>eb_unsupported := List.insert name (eb_unsupported b)\<rparr>))"

definition include_actions ::
  "string list \<Rightarrow> ('n, 'e, 'x) engine_builder \<Rightarrow> engine_error + ('n, 'e, 'x) engine_builder" where
  "include_actions names b =
     (if eb_included b \<noteq> None then Inl (EngineContract ''Included actions can only be configured once'')
      else if [] \<in> set names then Inl (EngineContract ''Included action names must be non-empty'')
      else if length names \<noteq> length (remdups names)
      then Inl (EngineContract ''Included action names must be unique'')
      else Inr (b\<lparr>eb_included := Some names\<rparr>))"

text \<open>The eight operations on the hooks are those of the registry.\<close>

definition on_hooks ::
  "(('n, 'e) hook_registry \<Rightarrow> engine_error + ('n, 'e) hook_registry) \<Rightarrow> ('n, 'e, 'x) engine_builder
     \<Rightarrow> engine_error + ('n, 'e, 'x) engine_builder" where
  "on_hooks f b = bind_r (f (eb_hooks b)) (\<lambda>hooks. Inr (b\<lparr>eb_hooks := hooks\<rparr>))"

section \<open>The engine\<close>

record ('n, 'e, 'x) action_engine =
  en_catalog :: catalog
  en_configured :: catalog
  en_supported :: "string list"
  en_granted :: "string list"
  en_bindings :: "(string \<times> string) list"
  en_scenario :: string
  en_scenarios :: "string list"
  en_executors :: "(string \<times> 'x) list"
  en_hooks :: "('n, 'e) hook_registry"
  en_max_workers :: int

definition action_names :: "catalog \<Rightarrow> string list" where
  "action_names c = map sp_name (catalog_actions c)"

definition check_bindings :: "catalog \<Rightarrow> (string \<Rightarrow> engine_error) \<Rightarrow> (string \<times> string) list \<Rightarrow> engine_error + unit" where
  "check_bindings c changed bindings = check_each (\<lambda>(name, executor).
     bind_r (get_action c name) (\<lambda>a.
     if xs_executor (sp_execution a) \<noteq> executor then Inl (changed name) else Inr ())) bindings"

text \<open>The names of the Actions that are supported, pass \<open>keep\<close> and are enabled in the scenario.\<close>

definition enabled_names :: "catalog \<Rightarrow> (string \<Rightarrow> bool) \<Rightarrow> string \<Rightarrow> engine_error + string list" where
  "enabled_names c keep scenario =
     bind_r (traverse (\<lambda>a.
       if keep (sp_name a) then
         bind_r (policy_selection c a scenario) (\<lambda>s. Inr (if sl_enabled s then [sp_name a] else []))
       else Inr []) (catalog_actions c)) (\<lambda>names. Inr (concat names))"

definition adapt_semantics :: "(string \<times> (string \<times> semantic_spec)) list \<Rightarrow> action_spec \<Rightarrow> engine_error + action_spec" where
  "adapt_semantics semantics a =
     (case map_of semantics (sp_name a) of
        None \<Rightarrow> Inr a
      | Some (description, semantic) \<Rightarrow>
          bind_r (mk_action_tool ((sp_tool a)\<lparr>at_description := description\<rparr>)) (\<lambda>tool.
          mk_action_spec (a\<lparr>sp_tool := tool, sp_semantic := semantic\<rparr>)))"

definition adapt_hint :: "(string \<times> string) list \<Rightarrow> action_spec \<Rightarrow> engine_error + action_spec" where
  "adapt_hint hints a =
     (case map_of hints (sp_name a) of
        None \<Rightarrow> Inr a
      | Some hint \<Rightarrow>
          bind_r (mk_action_tool ((sp_tool a)\<lparr>at_description := at_description (sp_tool a) @ newline @ hint\<rparr>)) (\<lambda>tool.
          mk_action_spec (a\<lparr>sp_tool := tool\<rparr>)))"

definition adapt_catalog :: "(action_spec \<Rightarrow> engine_error + action_spec) \<Rightarrow> catalog \<Rightarrow> engine_error + catalog" where
  "adapt_catalog f c = bind_r (traverse f (catalog_actions c)) (\<lambda>as. mk_catalog (catalog_domains c) as)"

definition declared_names :: "('n, 'e, 'x) engine_builder \<Rightarrow> string list" where
  "declared_names b = dict_keys (eb_bindings b) @ eb_unsupported b"

definition granted_names :: "('n, 'e, 'x) engine_builder \<Rightarrow> string list" where
  "granted_names b = filter (\<lambda>n. case eb_included b of None \<Rightarrow> True | Some names \<Rightarrow> n \<in> set names)
     (remdups (declared_names b))"

definition engine_build :: "('n, 'e, 'x) engine_builder \<Rightarrow> engine_error + ('n, 'e, 'x) action_engine" where
  "engine_build b =
     (let c = eb_catalog b;
          names = action_names c;
          unknown = sort (remdups (filter (\<lambda>n. n \<notin> set names) (declared_names b)))
      in if unknown \<noteq> [] then
           Inl (EngineContract (''Registered actions are absent from the catalog: '' @ py_join '', '' unknown))
         else
           bind_r (check_bindings c (\<lambda>name. EngineContract
             (''Action catalog changed a registered execution binding: '' @ name)) (eb_bindings b)) (\<lambda>_.
           if (case eb_included b of None \<Rightarrow> False | Some inc \<Rightarrow> \<not> set inc \<subseteq> set names)
           then Inl (EngineContract ''Included actions are absent from the catalog'')
           else
             (let granted = granted_names b;
                  supported = filter (\<lambda>n. n \<notin> set (eb_unsupported b)) granted
              in bind_r (policy_validate c granted (eb_scenario b) (eb_scenarios b)) (\<lambda>_.
                 bind_r (enabled_names c (\<lambda>n. n \<in> set supported) (eb_scenario b)) (\<lambda>enabled.
                 bind_r (with_actions c enabled) (\<lambda>effective.
                 if \<not> set (dict_keys (eb_semantics b)) \<subseteq> set names
                 then Inl (EngineContract ''Profile guidance names an unknown Action'')
                 else if \<not> set (dict_keys (eb_hints b)) \<subseteq> set names
                 then Inl (EngineContract ''Runtime guidance names an unknown Action'')
                 else
                   bind_r (adapt_catalog (adapt_semantics (eb_semantics b)) effective) (\<lambda>effective.
                   bind_r (adapt_catalog (adapt_hint (eb_hints b)) effective) (\<lambda>effective.
                   bind_r (validate_executors (eb_executors b) effective) (\<lambda>_.
                   if eb_max_workers b \<le> 0 then Inl (EngineContract ''max_workers must be positive'')
                   else Inr \<lparr>en_catalog = effective, en_configured = c, en_supported = supported,
                     en_granted = granted, en_bindings = eb_bindings b, en_scenario = eb_scenario b,
                     en_scenarios = eb_scenarios b, en_executors = eb_executors b, en_hooks = eb_hooks b,
                     en_max_workers = eb_max_workers b\<rparr>)))))))))"

text \<open>An edited catalog: the same grants and bindings, and the Actions it makes effective.\<close>

definition validate_candidate :: "('n, 'e, 'x) action_engine \<Rightarrow> catalog \<Rightarrow> engine_error + string list" where
  "validate_candidate e c =
     (if \<not> set (en_granted e) \<subseteq> set (action_names c)
      then Inl (EngineConfig (ConfigError ''Catalog is missing registered actions'' ''action.catalog'' None))
      else
        bind_r (check_bindings c (\<lambda>name. EngineConfig (ConfigError
          ''Catalog changed a registered execution binding'' (name @ ''.execution.executor'') None))
          (en_bindings e)) (\<lambda>_.
        bind_r (policy_validate c (en_granted e) (en_scenario e) (en_scenarios e)) (\<lambda>_.
        enabled_names c (\<lambda>n. n \<in> set (en_supported e) \<and> n \<in> set (en_granted e)) (en_scenario e))))"

definition engine_view :: "('n, 'e, 'x) action_engine \<Rightarrow> string list \<Rightarrow> engine_error + ('n, 'e, 'x) action_engine" where
  "engine_view e names =
     (if [] \<in> set names
      then Inl (EngineContract ''ActionEngine view requires a tuple of non-empty action names'')
      else if length names \<noteq> length (remdups names)
      then Inl (EngineContract ''ActionEngine view actions must be unique'')
      else
        bind_r (with_actions (en_configured e) names) (\<lambda>configured.
        bind_r (with_actions (en_catalog e) (filter (has_action (en_catalog e)) names)) (\<lambda>effective.
        Inr (e\<lparr>en_catalog := effective, en_configured := configured,
          en_supported := filter (\<lambda>n. n \<in> set names) (en_supported e),
          en_granted := filter (\<lambda>n. n \<in> set names) (en_granted e),
          en_bindings := filter (\<lambda>(n, x). n \<in> set names) (en_bindings e)\<rparr>))))"

definition domain_names :: "('n, 'e, 'x) action_engine \<Rightarrow> string list" where
  "domain_names e = map ds_name (catalog_domains (en_catalog e))"

definition action_identifiers :: "('n, 'e, 'x) action_engine \<Rightarrow> (string \<times> string) list" where
  "action_identifiers e = map (\<lambda>a. (sp_domain a, sp_name a)) (catalog_actions (en_catalog e))"

definition catalog_projection :: "('n, 'e, 'x) action_engine \<Rightarrow> json list" where
  "catalog_projection e = map (\<lambda>a. JObj
     [(''id'', JStr (sp_name a)), (''domain'', JStr (sp_domain a)),
      (''description'', JStr (at_description (sp_tool a))), (''executor'', JStr (xs_executor (sp_execution a)))])
     (catalog_actions (en_catalog e))"

text \<open>The guard of \<open>run_batch\<close>: every execution is of an Action of this engine, as it has it.\<close>

definition check_batch :: "('n, 'e, 'x) action_engine \<Rightarrow> prepared_batch \<Rightarrow> engine_error + unit" where
  "check_batch e b = check_each (\<lambda>x.
     if get_action (en_catalog e) (ac_action_name (pe_call x)) \<noteq> Inr (pe_action x)
     then Inl (EngineContract ''Batch contains an action outside the effective profile'')
     else Inr ()) (pb_executions b)"

definition call_trace_payload :: "('n, 'e, 'x) action_engine \<Rightarrow> action_call \<Rightarrow> engine_error + json_object" where
  "call_trace_payload e c =
     bind_r (get_action (en_catalog e) (ac_action_name c)) (\<lambda>a. Inr
       [(''call_id'', JStr (ac_call_id c)), (''action'', JStr (ac_action_name c)), (''domain'', JStr (sp_domain a)),
        (''sequence'', JInt (ac_sequence c)), (''params'', JObj (ac_params c))])"

section \<open>Rendering\<close>

definition model_payload :: "json_object option \<Rightarrow> action_result \<Rightarrow> engine_error + json" where
  "model_payload payload r =
     bind_r (of_action (result_to_envelope payload r)) (\<lambda>env. Inr (envelope_to_json env))"

definition or_null :: "string option \<Rightarrow> json" where
  "or_null s = (case s of None \<Rightarrow> JNull | Some x \<Rightarrow> JStr x)"

definition result_trace_payload :: "action_result \<Rightarrow> json_object" where
  "result_trace_payload r =
     [(''result_id'', JStr (ar_result_id r)), (''call_id'', JStr (ar_call_id r)), (''action'', JStr (ar_action_name r)),
      (''status'', JStr (status_value (ar_status r))), (''stage'', JStr (stage_value (ar_stage r))),
      (''sequence'', JInt (ar_sequence r)), (''domain'', JStr (ar_domain r)),
      (''invoke_id'', or_null (ar_invoke_id r)), (''batch_id'', or_null (ar_batch_id r))]
     @ (case ar_failure r of None \<Rightarrow> [] | Some f \<Rightarrow> [(''failure'', local_failure_to_json f)])
     @ (if ar_payload r \<noteq> [] then [(''payload'', JObj (ar_payload r))] else [])
     @ (if ar_frame_data r \<noteq> [] then [(''frame_data'', JObj (ar_frame_data r))] else [])"

fun phase_stage_value :: "phase_stage \<Rightarrow> string" where
  "phase_stage_value PS_SCOPE = ''scope''"
| "phase_stage_value PS_NORMALIZE = ''normalize''"
| "phase_stage_value PS_PREPARE = ''prepare''"
| "phase_stage_value PS_RUN = ''run''"

definition phase_model_payload :: "phase_result \<Rightarrow> json_object" where
  "phase_model_payload r =
     [(''phase'', JStr (cycle_phase_value (pr_phase r))), (''status'', JStr ''failed''),
      (''stage'', JStr (phase_stage_value (pr_stage r))), (''failure'', local_failure_to_json (pr_failure r))]"

definition phase_trace_payload :: "phase_result \<Rightarrow> json_object" where
  "phase_trace_payload r =
     [(''result_id'', JStr (pr_result_id r)), (''phase'', JStr (cycle_phase_value (pr_phase r))), (''status'', JStr ''failed''),
      (''stage'', JStr (phase_stage_value (pr_stage r))), (''turn_id'', JStr (pr_turn_id r)),
      (''cycle_id'', JStr (pr_cycle_id r)), (''failure'', local_failure_to_json (pr_failure r))]
     @ (if pr_frame_data r \<noteq> [] then [(''frame_data'', JObj (pr_frame_data r))] else [])"

record rendered_result =
  rr_visible :: message
  rr_canonical :: message
  rr_origin_refs :: "string list"

definition result_message ::
  "action_result \<Rightarrow> string option \<Rightarrow> json_object option \<Rightarrow> string \<Rightarrow> engine_error + message" where
  "result_message r text_form payload label =
     (let status = (if ar_status r = RS_SUCCESS then TR_OK else TR_ERROR) in
      case text_form of
        Some s \<Rightarrow> of_llm (mk_tool_result_message (ar_call_id r) (ar_action_name r) [TextPart s] status label)
      | None \<Rightarrow>
          bind_r (model_payload payload r) (\<lambda>value.
          of_llm (mk_tool_result_message (ar_call_id r) (ar_action_name r)
            [case value of JObj kvs \<Rightarrow> JsonPart kvs | _ \<Rightarrow> TextPart []] status label)))"

definition render_tool_result :: "action_result \<Rightarrow> engine_error + rendered_result" where
  "render_tool_result r =
     bind_r (result_message r (ar_model_text r) None ''action_result'') (\<lambda>visible.
     case ar_trace_projection r of
       None \<Rightarrow> Inr \<lparr>rr_visible = visible, rr_canonical = visible, rr_origin_refs = []\<rparr>
     | Some projection \<Rightarrow>
         bind_r (result_message r (tp_model_text projection) (Some (tp_canonical_payload projection))
           ''action_result_folded'') (\<lambda>canonical.
         Inr \<lparr>rr_visible = visible, rr_canonical = canonical, rr_origin_refs = tp_origin_refs projection\<rparr>))"

definition render_many :: "action_result list \<Rightarrow> engine_error + rendered_result list" where
  "render_many = traverse render_tool_result"

end
