(* ===== verification/Action_Engine_Proofs.thy ===== *)
theory Action_Engine_Proofs
  imports Action_Engine Action_Recording
begin

text \<open>
  What an assembled engine is: the Actions it makes effective are those that were registered, are
  included and supported and are visible in the scenario, a view only narrows it, and the check of an
  edited catalog agrees with the assembly.
\<close>

section \<open>Catalogs as maps\<close>

lemma catalog_actions_iff:
  assumes "wf_catalog c"
  shows "a \<in> set (catalog_actions c) \<longleftrightarrow> get_action c (sp_name a) = Inr a"
proof
  assume "a \<in> set (catalog_actions c)"
  then obtain n where n: "(n, a) \<in> set (ca_actions c)" by (auto simp: set_catalog_actions)
  then have "n = sp_name a" using assms by (auto simp: wf_catalog_def)
  then show "get_action c (sp_name a) = Inr a" using get_action_of_mem [OF assms] n by simp
next
  assume "get_action c (sp_name a) = Inr a"
  from get_action_mem [OF this] show "a \<in> set (catalog_actions c)"
    unfolding set_catalog_actions by (intro image_eqI [of _ snd "(sp_name a, a)"]) simp_all
qed

lemma catalog_domains_iff:
  assumes "wf_catalog c"
  shows "d \<in> set (catalog_domains c) \<longleftrightarrow> get_domain c (ds_name d) = Inr d"
proof
  assume "d \<in> set (catalog_domains c)"
  then obtain n where n: "(n, d) \<in> set (ca_domains c)" by (auto simp: set_catalog_domains)
  then have "n = ds_name d" using assms by (auto simp: wf_catalog_def)
  then show "get_domain c (ds_name d) = Inr d"
    using assms n by (auto simp: wf_catalog_def get_domain_def map_of_is_SomeI)
next
  assume "get_domain c (ds_name d) = Inr d"
  from get_domain_mem [OF this] show "d \<in> set (catalog_domains c)"
    unfolding set_catalog_domains by (intro image_eqI [of _ snd "(ds_name d, d)"]) simp_all
qed

lemma action_names_iff:
  assumes "wf_catalog c"
  shows "n \<in> set (action_names c) \<longleftrightarrow> has_action c n"
proof
  assume "n \<in> set (action_names c)"
  then obtain a where "a \<in> set (catalog_actions c)" "sp_name a = n" by (auto simp: action_names_def)
  then show "has_action c n" using catalog_actions_iff [OF assms] by (auto simp: has_action_iff)
next
  assume "has_action c n"
  then obtain a where a: "get_action c n = Inr a" by (auto simp: has_action_iff)
  then have "sp_name a = n" by (rule get_action_wf(1) [OF assms])
  then have "a \<in> set (catalog_actions c)" using catalog_actions_iff [OF assms] a by simp
  then show "n \<in> set (action_names c)" using \<open>sp_name a = n\<close> by (auto simp: action_names_def)
qed

lemma action_domain:
  assumes "wf_catalog c" "get_action c n = Inr a"
  obtains d where "get_domain c (sp_domain a) = Inr d" "ds_name d = sp_domain a"
  using has_domain_get [OF assms(1)] get_action_wf(2) [OF assms] by (auto simp: has_domain_def)

lemma with_actions_domain:
  assumes wf: "wf_catalog c" and view: "with_actions c names = Inr v" and d: "get_domain v n = Inr d"
  shows "get_domain c n = Inr d"
proof -
  obtain as ds where ds: "traverse (get_domain c) (sort (remdups (map sp_domain as))) = Inr ds"
    and v: "mk_catalog ds as = Inr v"
    using view by (auto simp: with_actions_def bind_r_Inr_iff)
  have "(n, d) \<in> set (by_name ds_name ds)" using get_domain_mem [OF d] v by (simp add: mk_catalog_Inr)
  then have "d \<in> set ds" "ds_name d = n" by auto
  then obtain m where m: "get_domain c m = Inr d" using traverse_Inr_all [OF ds] by blast
  then have "m = ds_name d" using wf get_domain_mem [OF m] by (auto simp: wf_catalog_def)
  then show ?thesis using m \<open>ds_name d = n\<close> by simp
qed

lemma get_action_key: "get_action c n = Inr a \<Longrightarrow> n \<in> set (dict_keys (ca_actions c))"
  by (force dest: get_action_mem)

section \<open>Visible Actions\<close>

definition visible :: "catalog \<Rightarrow> string \<Rightarrow> string \<Rightarrow> bool" where
  "visible c scenario n \<longleftrightarrow>
     (\<exists>a s. get_action c n = Inr a \<and> policy_selection c a scenario = Inr s \<and> sl_enabled s)"

lemma traverse_concat:
  "traverse f xs = Inr ys \<Longrightarrow> z \<in> set (concat ys) \<longleftrightarrow> (\<exists>x \<in> set xs. \<exists>y. f x = Inr y \<and> z \<in> set y)"
proof (induction xs arbitrary: ys)
  case (Cons x xs)
  then show ?case by (auto split: sum.splits)
qed auto

lemma enabled_names_set:
  assumes "wf_catalog c" "enabled_names c keep scenario = Inr ns"
  shows "n \<in> set ns \<longleftrightarrow> keep n \<and> visible c scenario n"
proof -
  obtain parts where parts: "traverse (\<lambda>a. if keep (sp_name a) then
         bind_r (policy_selection c a scenario) (\<lambda>s. Inr (if sl_enabled s then [sp_name a] else []))
       else Inr []) (catalog_actions c) = Inr parts" "ns = concat parts"
    using assms(2) by (auto simp: enabled_names_def bind_r_Inr_iff)
  have "n \<in> set ns \<longleftrightarrow> (\<exists>a \<in> set (catalog_actions c). sp_name a = n \<and> keep n
      \<and> (\<exists>s. policy_selection c a scenario = Inr s \<and> sl_enabled s))"
    unfolding parts(2) traverse_concat [OF parts(1)]
    by (intro bex_cong refl) (auto simp: bind_r_Inr_iff split: if_splits)
  also have "\<dots> \<longleftrightarrow> keep n \<and> visible c scenario n"
    using catalog_actions_iff [OF assms(1)] get_action_wf(1) [OF assms(1)] unfolding visible_def by metis
  finally show ?thesis .
qed

lemma enabled_names_total:
  assumes "wf_catalog c"
  shows "is_ok (enabled_names c keep scenario)"
proof -
  have "is_ok (traverse (\<lambda>a. if keep (sp_name a) then
         bind_r (policy_selection c a scenario) (\<lambda>s. Inr (if sl_enabled s then [sp_name a] else []))
       else Inr []) (catalog_actions c))"
  proof (rule traverse_total)
    fix a assume "a \<in> set (catalog_actions c)"
    then obtain d where "get_domain c (sp_domain a) = Inr d"
      using action_domain [OF assms] catalog_actions_iff [OF assms] by metis
    then show "is_ok (if keep (sp_name a) then
         bind_r (policy_selection c a scenario) (\<lambda>s. Inr (if sl_enabled s then [sp_name a] else []))
       else Inr [])"
      by (simp add: policy_selection_def)
  qed
  then show ?thesis by (auto simp: enabled_names_def is_ok_def bind_r_def split: sum.splits)
qed

section \<open>Adapted guidance\<close>

definition same_grant :: "action_spec \<Rightarrow> action_spec \<Rightarrow> bool" where
  "same_grant a b \<longleftrightarrow>
     sp_name b = sp_name a \<and> sp_domain b = sp_domain a \<and> sp_runtime b = sp_runtime a
     \<and> sp_execution b = sp_execution a \<and> sp_visibility b = sp_visibility a
     \<and> at_schema (sp_tool b) = at_schema (sp_tool a)"

lemma same_grant_refl [simp]: "same_grant a a"
  by (simp add: same_grant_def)

lemma same_grant_trans: "same_grant a b \<Longrightarrow> same_grant b c \<Longrightarrow> same_grant a c"
  by (simp add: same_grant_def)

lemma mk_action_tool_same: "mk_action_tool t = Inr u \<Longrightarrow> u = t"
  by (auto simp: mk_action_tool_def bind_r_Inr_iff split: if_splits sum.splits)

lemma mk_action_spec_same: "mk_action_spec a = Inr b \<Longrightarrow> b = a"
  by (auto simp: mk_action_spec_def bind_r_Inr_iff split: if_splits)

lemma adapt_semantics_grant: "adapt_semantics semantics a = Inr b \<Longrightarrow> same_grant a b"
  by (auto simp: adapt_semantics_def bind_r_Inr_iff same_grant_def split: option.splits
      dest!: mk_action_spec_same mk_action_tool_same)

lemma adapt_hint_grant: "adapt_hint hints a = Inr b \<Longrightarrow> same_grant a b"
  by (auto simp: adapt_hint_def bind_r_Inr_iff same_grant_def split: option.splits
      dest!: mk_action_spec_same mk_action_tool_same)

definition granted_from :: "catalog \<Rightarrow> catalog \<Rightarrow> bool" where
  "granted_from c v \<longleftrightarrow> (\<forall>n b. get_action v n = Inr b \<longrightarrow> (\<exists>a. get_action c n = Inr a \<and> same_grant a b))"

lemma granted_from_trans: "granted_from c v \<Longrightarrow> granted_from v w \<Longrightarrow> granted_from c w"
  unfolding granted_from_def using same_grant_trans by meson

lemma adapt_catalog_grant:
  assumes "wf_catalog c" "adapt_catalog f c = Inr v" "\<And>a b. f a = Inr b \<Longrightarrow> same_grant a b"
  shows "wf_catalog v" "granted_from c v" "has_action v n \<longleftrightarrow> has_action c n"
proof -
  obtain as where as: "traverse f (catalog_actions c) = Inr as" and v: "mk_catalog (catalog_domains c) as = Inr v"
    using assms(2) by (auto simp: adapt_catalog_def bind_r_Inr_iff)
  show wf: "wf_catalog v" using v by (rule mk_catalog_wf)
  have pairs: "list_all2 (\<lambda>a b. f a = Inr b) (catalog_actions c) as" using as by (rule traverse_get)
  then have names: "map sp_name as = map sp_name (catalog_actions c)"
    by (induction rule: list_all2_induct) (use assms(3) in \<open>auto simp: same_grant_def\<close>)
  have "set (dict_keys (ca_actions v)) = set (map sp_name (catalog_actions c))"
    using v names by (simp add: mk_catalog_Inr comp_def)
  then show "has_action v n \<longleftrightarrow> has_action c n"
    using action_names_iff [OF assms(1)] by (auto simp: has_action_def action_names_def)
  show "granted_from c v"
    unfolding granted_from_def
  proof (intro allI impI)
    fix m b assume b: "get_action v m = Inr b"
    then have "b \<in> set as" using get_action_mem [OF b] v by (auto simp: mk_catalog_Inr)
    then obtain a where a: "a \<in> set (catalog_actions c)" "f a = Inr b" using traverse_Inr_all [OF as] by blast
    then have "get_action c (sp_name a) = Inr a" "same_grant a b"
      using catalog_actions_iff [OF assms(1)] assms(3) by blast+
    moreover have "sp_name b = m" by (rule get_action_wf(1) [OF wf b])
    ultimately show "\<exists>a. get_action c m = Inr a \<and> same_grant a b" by (auto simp: same_grant_def)
  qed
qed

section \<open>The invariant of an engine\<close>

lemma bind_r_InrE: "bind_r m f = Inr y \<Longrightarrow> (\<And>x. m = Inr x \<Longrightarrow> f x = Inr y \<Longrightarrow> P) \<Longrightarrow> P"
  by (auto simp: bind_r_Inr_iff)

lemma guard_InrE: "(if c then Inl e else m) = Inr y \<Longrightarrow> (\<not> c \<Longrightarrow> m = Inr y \<Longrightarrow> P) \<Longrightarrow> P"
  by (auto split: if_splits)

lemma sort_remdups_empty: "sort (remdups xs) = [] \<longleftrightarrow> xs = []"
  by (metis remdups_eq_nil_iff set_empty set_sort)

definition sound_engine :: "('n, 'e, 'x) action_engine \<Rightarrow> bool" where
  "sound_engine e \<longleftrightarrow>
     wf_catalog (en_catalog e) \<and> wf_catalog (en_configured e)
     \<and> (\<forall>n. has_action (en_catalog e) n \<longleftrightarrow>
          n \<in> set (en_supported e) \<and> n \<in> set (en_granted e) \<and> visible (en_configured e) (en_scenario e) n)
     \<and> (\<forall>n \<in> set (en_granted e). has_action (en_configured e) n)
     \<and> (\<forall>(n, x) \<in> set (en_bindings e). \<exists>a. get_action (en_configured e) n = Inr a \<and> xs_executor (sp_execution a) = x)
     \<and> policy_validate (en_configured e) (en_granted e) (en_scenario e) (en_scenarios e) = Inr ()
     \<and> granted_from (en_configured e) (en_catalog e)
     \<and> (\<forall>a \<in> set (catalog_actions (en_catalog e)). xs_executor (sp_execution a) \<in> set (dict_keys (en_executors e)))"

lemma check_bindings_ok:
  "check_bindings c changed bindings = Inr () \<longleftrightarrow>
     (\<forall>(n, x) \<in> set bindings. \<exists>a. get_action c n = Inr a \<and> xs_executor (sp_execution a) = x)"
  unfolding check_bindings_def check_each_ok by (intro ball_cong refl) (auto simp: bind_r_Inr_iff split: if_splits)

text \<open>The check of an edited catalog, on the catalog as it is, answers what is effective.\<close>

lemma sound_candidate:
  assumes "sound_engine e"
  obtains ns where "validate_candidate e (en_configured e) = Inr ns" "set ns = set (action_names (en_catalog e))"
proof -
  have wf: "wf_catalog (en_catalog e)" "wf_catalog (en_configured e)" using assms by (simp_all add: sound_engine_def)
  let ?keep = "\<lambda>n. n \<in> set (en_supported e) \<and> n \<in> set (en_granted e)"
  obtain ns where ns: "enabled_names (en_configured e) ?keep (en_scenario e) = Inr ns"
    using enabled_names_total [OF wf(2), of ?keep "en_scenario e"] by (auto simp: is_ok_def split: sum.splits)
  have "set (en_granted e) \<subseteq> set (action_names (en_configured e))"
    using assms action_names_iff [OF wf(2)] by (auto simp: sound_engine_def)
  moreover have "\<And>changed. check_bindings (en_configured e) changed (en_bindings e) = Inr ()"
    using assms by (simp add: sound_engine_def check_bindings_ok)
  moreover have "policy_validate (en_configured e) (en_granted e) (en_scenario e) (en_scenarios e) = Inr ()"
    using assms by (simp add: sound_engine_def)
  ultimately have "validate_candidate e (en_configured e) = Inr ns" using ns by (simp add: validate_candidate_def)
  moreover have "set ns = set (action_names (en_catalog e))"
    using enabled_names_set [OF wf(2) ns] action_names_iff [OF wf(1)] assms by (auto simp: sound_engine_def)
  ultimately show ?thesis by (rule that)
qed

lemma validate_executors_ok:
  "validate_executors registry c = Inr () \<longleftrightarrow>
     (\<forall>a \<in> set (catalog_actions c). xs_executor (sp_execution a) \<in> set (dict_keys registry))"
proof -
  have "missing_executors_for registry c = [] \<longleftrightarrow> set (missing_executors_for registry c) = {}" by simp
  also have "\<dots> \<longleftrightarrow> (\<forall>a \<in> set (catalog_actions c). xs_executor (sp_execution a) \<in> set (dict_keys registry))"
    unfolding missing_executors_for_def by auto
  finally show ?thesis by (auto simp: validate_executors_def)
qed

lemma view_granted_from: "wf_catalog c \<Longrightarrow> with_actions c names = Inr v \<Longrightarrow> granted_from c v"
  unfolding granted_from_def
proof (intro allI impI)
  fix n b assume wf: "wf_catalog c" and v: "with_actions c names = Inr v" and b: "get_action v n = Inr b"
  have "n \<in> set names"
    using get_action_key [OF b] unfolding with_actions_Inr(2) [OF wf v] .
  then have "get_action c n = Inr b" using with_actions_Inr(3) [OF wf v] b by simp
  then show "\<exists>a. get_action c n = Inr a \<and> same_grant a b" by auto
qed

lemma build_sound:
  assumes wf: "wf_catalog (eb_catalog b)" and build: "engine_build b = Inr e"
  shows "sound_engine e" "en_configured e = eb_catalog b" "en_bindings e = eb_bindings b"
    "en_granted e = granted_names b" "en_supported e = filter (\<lambda>n. n \<notin> set (eb_unsupported b)) (granted_names b)"
    "en_scenario e = eb_scenario b" "en_executors e = eb_executors b"
proof -
  let ?c = "eb_catalog b"
  let ?supported = "filter (\<lambda>n. n \<notin> set (eb_unsupported b)) (granted_names b)"
  let ?changed = "\<lambda>name. EngineContract (''Action catalog changed a registered execution binding: '' @ name)"
  obtain enabled v0 v1 v2 where known: "filter (\<lambda>n. n \<notin> set (action_names ?c)) (declared_names b) = []"
    and bindings: "check_bindings ?c ?changed (eb_bindings b) = Inr ()"
    and policy: "policy_validate ?c (granted_names b) (eb_scenario b) (eb_scenarios b) = Inr ()"
    and enabled: "enabled_names ?c (\<lambda>n. n \<in> set ?supported) (eb_scenario b) = Inr enabled"
    and v0: "with_actions ?c enabled = Inr v0"
    and v1: "adapt_catalog (adapt_semantics (eb_semantics b)) v0 = Inr v1"
    and v2: "adapt_catalog (adapt_hint (eb_hints b)) v1 = Inr v2"
    and executors: "validate_executors (eb_executors b) v2 = Inr ()"
    and made: "Inr \<lparr>en_catalog = v2, en_configured = ?c, en_supported = ?supported,
                     en_granted = granted_names b, en_bindings = eb_bindings b, en_scenario = eb_scenario b,
                     en_scenarios = eb_scenarios b, en_executors = eb_executors b, en_hooks = eb_hooks b,
                     en_max_workers = eb_max_workers b\<rparr> = Inr e"
    using build unfolding engine_build_def Let_def
    unfolding sort_remdups_empty by (elim bind_r_InrE guard_InrE) (rule that; (assumption | simp))
  note e = made [THEN sum.inject(2) [THEN iffD1], symmetric]
  have w0: "wf_catalog v0" by (rule with_actions_Inr(1) [OF wf v0])
  note a1 = adapt_catalog_grant [OF w0 v1 adapt_semantics_grant]
  note a2 = adapt_catalog_grant [OF a1(1) v2 adapt_hint_grant]
  have from_c: "granted_from ?c v2"
    by (rule granted_from_trans [OF granted_from_trans [OF view_granted_from [OF wf v0] a1(2)] a2(2)])
  have has: "has_action v2 n \<longleftrightarrow> n \<in> set ?supported \<and> visible ?c (eb_scenario b) n" for n
    using a1(3) a2(3) enabled_names_set [OF wf enabled, of n] with_actions_Inr(2) [OF wf v0]
    by (auto simp: has_action_def)
  have granted: "has_action ?c n" if "n \<in> set (granted_names b)" for n
  proof -
    have "n \<in> set (declared_names b)" using that by (auto simp: granted_names_def)
    then have "n \<in> set (action_names ?c)" using known by (auto simp: filter_empty_conv)
    then show ?thesis using action_names_iff [OF wf] by simp
  qed
  show "sound_engine e"
    unfolding sound_engine_def e using wf a2(1) has granted bindings policy executors from_c
    by (auto simp: check_bindings_ok validate_executors_ok)
  show "en_configured e = ?c" "en_bindings e = eb_bindings b" "en_granted e = granted_names b"
    "en_supported e = ?supported" "en_scenario e = eb_scenario b" "en_executors e = eb_executors b"
    unfolding e by simp_all
qed

section \<open>Views\<close>

lemma policy_validate_view:
  assumes wf: "wf_catalog c" and v: "with_actions c names = Inr v"
    and ok: "policy_validate c granted scenario scenarios = Inr ()"
  shows "policy_validate v (filter (\<lambda>n. n \<in> set names) granted) scenario scenarios = Inr ()"
proof -
  note w = with_actions_Inr(1) [OF wf v]
  have known: "scenario \<in> set scenarios"
    and domains: "\<And>d. d \<in> set (catalog_domains c) \<Longrightarrow> check_scenarios scenarios (ds_name d) (ds_visibility d) = Inr ()"
    and actions: "\<And>a. a \<in> set (catalog_actions c) \<Longrightarrow> check_scenarios scenarios (sp_name a) (sp_visibility a) = Inr ()"
    and grants: "\<And>a. a \<in> set (catalog_actions c) \<Longrightarrow> for_scenario (sp_visibility a) scenario = Some True \<Longrightarrow>
      sp_name a \<in> set granted"
    using ok by (auto simp: policy_validate_def bind_r_Inr_iff check_each_ok split: if_splits)
  have d: "d \<in> set (catalog_domains c)" if "d \<in> set (catalog_domains v)" for d
    using that with_actions_domain [OF wf v] catalog_domains_iff [OF wf] catalog_domains_iff [OF w] by blast
  have a: "a \<in> set (catalog_actions c) \<and> sp_name a \<in> set names" if "a \<in> set (catalog_actions v)" for a
  proof -
    have get: "get_action v (sp_name a) = Inr a" using that catalog_actions_iff [OF w] by blast
    then have mem: "sp_name a \<in> set names"
      using get_action_key [OF get] with_actions_Inr(2) [OF wf v] by metis
    then show ?thesis using get with_actions_Inr(3) [OF wf v mem] catalog_actions_iff [OF wf] by simp
  qed
  have "check_each (\<lambda>d. check_scenarios scenarios (ds_name d) (ds_visibility d)) (catalog_domains v) = Inr ()"
    using domains d by (simp add: check_each_ok)
  moreover have "check_each (\<lambda>a. check_scenarios scenarios (sp_name a) (sp_visibility a)) (catalog_actions v) = Inr ()"
    using actions a by (simp add: check_each_ok)
  moreover have "check_each (\<lambda>a.
        if for_scenario (sp_visibility a) scenario = Some True \<and> sp_name a \<notin> set (filter (\<lambda>n. n \<in> set names) granted) then
          Inl (EngineConfig (ConfigError ''Action scenario selection cannot grant an operation''
            (sp_name a @ ''.visibility.scenarios.'' @ scenario) None))
        else Inr ()) (catalog_actions v) = Inr ()"
    using grants a by (auto simp: check_each_ok)
  ultimately show ?thesis using known by (simp add: policy_validate_def)
qed

lemma visible_view:
  assumes wf: "wf_catalog c" and v: "with_actions c names = Inr v"
  shows "visible v scenario n \<longleftrightarrow> n \<in> set names \<and> visible c scenario n"
proof -
  note w = with_actions_Inr(1) [OF wf v]
  have mem: "n \<in> set names" if "get_action v n = Inr a" for a
    using get_action_key [OF that] unfolding with_actions_Inr(2) [OF wf v] .
  have same: "policy_selection v a scenario = policy_selection c a scenario" if a: "get_action v n = Inr a" for a
  proof -
    obtain d where "get_domain v (sp_domain a) = Inr d" by (rule action_domain [OF w a])
    moreover from this have "get_domain c (sp_domain a) = Inr d" by (rule with_actions_domain [OF wf v])
    ultimately show ?thesis by (simp add: policy_selection_def)
  qed
  show ?thesis unfolding visible_def using mem same with_actions_Inr(3) [OF wf v, of n] by metis
qed

lemma view_sound:
  assumes sound: "sound_engine e" and view: "engine_view e names = Inr v"
  shows "sound_engine v" "has_action (en_catalog v) n \<longleftrightarrow> n \<in> set names \<and> has_action (en_catalog e) n"
    "en_scenario v = en_scenario e" "en_executors v = en_executors e"
    "n \<in> set names \<Longrightarrow> get_action (en_configured v) n = get_action (en_configured e) n"
    "n \<in> set (en_supported v) \<longleftrightarrow> n \<in> set names \<and> n \<in> set (en_supported e)"
    "set (en_bindings v) \<subseteq> set (en_bindings e)" "granted_from (en_configured e) (en_configured v)"
proof -
  let ?live = "filter (has_action (en_catalog e)) names"
  have wf: "wf_catalog (en_catalog e)" "wf_catalog (en_configured e)" using sound by (simp_all add: sound_engine_def)
  obtain configured effective where c: "with_actions (en_configured e) names = Inr configured"
    and f: "with_actions (en_catalog e) ?live = Inr effective"
    and made: "Inr (e\<lparr>en_catalog := effective, en_configured := configured,
          en_supported := filter (\<lambda>n. n \<in> set names) (en_supported e),
          en_granted := filter (\<lambda>n. n \<in> set names) (en_granted e),
          en_bindings := filter (\<lambda>(n, x). n \<in> set names) (en_bindings e)\<rparr>) = Inr v"
    using view unfolding engine_view_def by (elim bind_r_InrE guard_InrE) (rule that; (assumption | simp))
  note parts = made [THEN sum.inject(2) [THEN iffD1], symmetric]
  note wc = with_actions_Inr [OF wf(2) c] and we = with_actions_Inr [OF wf(1) f]
  have has: "has_action effective m \<longleftrightarrow> m \<in> set names \<and> has_action (en_catalog e) m" for m
    using we(2) by (auto simp: has_action_def)
  have grants: "has_action (en_configured e) m" if "m \<in> set (en_granted e)" for m
    using sound that by (simp add: sound_engine_def)
  have keeps: "has_action configured m" if "m \<in> set (en_granted e)" "m \<in> set names" for m
    using grants [OF that(1)] wc(3) [OF that(2)] by (simp add: has_action_iff)
  have bound: "\<exists>a. get_action configured m = Inr a \<and> xs_executor (sp_execution a) = x"
    if "(m, x) \<in> set (en_bindings e)" "m \<in> set names" for m x
    using sound that wc(3) [OF that(2)] by (auto simp: sound_engine_def)
  have from_c: "granted_from configured effective"
    unfolding granted_from_def
  proof (intro allI impI)
    fix m b assume b: "get_action effective m = Inr b"
    then have m: "m \<in> set ?live" using get_action_key [OF b] we(2) by metis
    then have "get_action (en_catalog e) m = Inr b" using we(3) b by simp
    moreover have "granted_from (en_configured e) (en_catalog e)" using sound by (simp add: sound_engine_def)
    ultimately obtain a where "get_action (en_configured e) m = Inr a" "same_grant a b"
      unfolding granted_from_def by blast
    then show "\<exists>a. get_action configured m = Inr a \<and> same_grant a b" using wc(3) [of m] m by auto
  qed
  have executors: "xs_executor (sp_execution a) \<in> set (dict_keys (en_executors e))" if a: "a \<in> set (catalog_actions effective)" for a
  proof -
    have "get_action effective (sp_name a) = Inr a" using a catalog_actions_iff [OF we(1)] by blast
    moreover from get_action_key [OF this] have "sp_name a \<in> set ?live" unfolding we(2) .
    ultimately have "a \<in> set (catalog_actions (en_catalog e))"
      using we(3) catalog_actions_iff [OF wf(1)] by simp
    then show ?thesis using sound by (simp add: sound_engine_def)
  qed
  have policy: "policy_validate configured (filter (\<lambda>n. n \<in> set names) (en_granted e)) (en_scenario e) (en_scenarios e) = Inr ()"
    by (rule policy_validate_view [OF wf(2) c]) (use sound in \<open>simp add: sound_engine_def\<close>)
  have visible: "visible configured (en_scenario e) m \<longleftrightarrow> m \<in> set names \<and> visible (en_configured e) (en_scenario e) m" for m
    by (rule visible_view [OF wf(2) c])
  have effective: "has_action (en_catalog e) m \<longleftrightarrow> m \<in> set (en_supported e) \<and> m \<in> set (en_granted e)
      \<and> visible (en_configured e) (en_scenario e) m" for m
    using sound by (simp add: sound_engine_def)
  show "sound_engine v"
    unfolding sound_engine_def parts using we(1) wc(1) from_c policy executors
    by (auto simp: has visible effective keeps bound)
  show "has_action (en_catalog v) n \<longleftrightarrow> n \<in> set names \<and> has_action (en_catalog e) n"
    unfolding parts by (simp add: has)
  show "en_scenario v = en_scenario e" "en_executors v = en_executors e"
    "n \<in> set names \<Longrightarrow> get_action (en_configured v) n = get_action (en_configured e) n"
    "n \<in> set (en_supported v) \<longleftrightarrow> n \<in> set names \<and> n \<in> set (en_supported e)"
    "set (en_bindings v) \<subseteq> set (en_bindings e)" "granted_from (en_configured e) (en_configured v)"
    unfolding parts using wc(3) view_granted_from [OF wf(2) c] by auto
qed

text \<open>The views taken of an engine one after the other.\<close>

fun engine_views :: "('n, 'e, 'x) action_engine \<Rightarrow> string list list \<Rightarrow> engine_error + ('n, 'e, 'x) action_engine" where
  "engine_views e [] = Inr e"
| "engine_views e (names # rest) = bind_r (engine_view e names) (\<lambda>v. engine_views v rest)"

lemma views_sound:
  "sound_engine e \<Longrightarrow> engine_views e nss = Inr v \<Longrightarrow>
     sound_engine v \<and> en_executors v = en_executors e \<and> granted_from (en_configured e) (en_configured v)
     \<and> (\<forall>n. has_action (en_catalog v) n \<longleftrightarrow> has_action (en_catalog e) n \<and> (\<forall>names \<in> set nss. n \<in> set names))"
proof (induction e nss rule: engine_views.induct)
  case (1 e)
  then show ?case by (auto simp: granted_from_def)
next
  case (2 e names rest)
  obtain w where w: "engine_view e names = Inr w" "engine_views w rest = Inr v"
    using "2.prems"(2) by (auto simp: bind_r_Inr_iff)
  note step = view_sound [OF "2.prems"(1) w(1)]
  from "2.IH" [OF step(1) w(2)] show ?case using step(2,4,8) granted_from_trans by auto
qed

section \<open>Rendering\<close>

lemma result_message_ok:
  assumes "mk_action_result r = Inr r" "\<And>p. payload = Some p \<Longrightarrow> ''failure'' \<notin> set (dict_keys p)"
  obtains parts where "result_message r text_form payload label = Inr (ToolResultMessage (ar_call_id r) (ar_action_name r)
    parts (if ar_status r = RS_SUCCESS then TR_OK else TR_ERROR) label)"
proof -
  have ids: "ar_call_id r \<noteq> []" "ar_action_name r \<noteq> []" and failure: "(ar_status r = RS_SUCCESS) = (ar_failure r = None)"
    and payload: "''failure'' \<notin> set (dict_keys (ar_payload r))"
    using assms(1) by (auto simp: mk_action_result_def validate_failure_status_def bind_r_Inr_iff result_payload_def
        split: if_splits)
  have "\<exists>env. result_to_envelope payload r = Inr env"
    using ids failure payload assms(2)
    by (auto simp: result_to_envelope_def mk_result_envelope_def validate_failure_status_def result_payload_def
        split: option.split)
  then obtain env where env: "result_to_envelope payload r = Inr env" by blast
  obtain kvs where kvs: "envelope_to_json env = JObj kvs" by (simp add: envelope_to_json_def)
  have built: "mk_tool_result_message (ar_call_id r) (ar_action_name r) [part] status label
      = Inr (ToolResultMessage (ar_call_id r) (ar_action_name r) [part] status label)" if "textual_part part" for part status
    using ids that by (simp add: mk_tool_result_message_def)
  show ?thesis
  proof (cases text_form)
    case None
    have "model_payload payload r = Inr (JObj kvs)" using env kvs by (simp add: model_payload_def)
    then show ?thesis using None by (intro that [of "[JsonPart kvs]"]) (simp add: result_message_def built)
  next
    case (Some s)
    then show ?thesis by (intro that [of "[TextPart s]"]) (simp add: result_message_def built)
  qed
qed

lemma render_tool_result_ok:
  assumes "mk_action_result r = Inr r" "pred_option (\<lambda>p. mk_trace_projection p = Inr p) (ar_trace_projection r)"
  shows "\<exists>x. render_tool_result r = Inr x
    \<and> msg_call_id (rr_visible x) = ar_call_id r \<and> msg_tool_name (rr_visible x) = ar_action_name r
    \<and> msg_call_id (rr_canonical x) = ar_call_id r \<and> msg_tool_name (rr_canonical x) = ar_action_name r
    \<and> (msg_status (rr_visible x) = TR_OK \<longleftrightarrow> ar_status r = RS_SUCCESS)
    \<and> (ar_trace_projection r = None \<longrightarrow> rr_canonical x = rr_visible x)"
proof -
  let ?message = "\<lambda>parts. ToolResultMessage (ar_call_id r) (ar_action_name r) parts
    (if ar_status r = RS_SUCCESS then TR_OK else TR_ERROR)"
  obtain parts where visible: "result_message r (ar_model_text r) None ''action_result'' = Inr (?message parts ''action_result'')"
    by (rule result_message_ok [OF assms(1)]) auto
  show ?thesis
  proof (cases "ar_trace_projection r")
    case None
    then show ?thesis using visible by (simp add: render_tool_result_def)
  next
    case (Some p)
    then have payload: "\<And>q. Some (tp_canonical_payload p) = Some q \<Longrightarrow> ''failure'' \<notin> set (dict_keys q)"
      using assms(2) by (auto simp: mk_trace_projection_def split: if_splits)
    obtain parts' where "result_message r (tp_model_text p) (Some (tp_canonical_payload p)) ''action_result_folded''
        = Inr (?message parts' ''action_result_folded'')"
      by (rule result_message_ok [OF assms(1) payload])
    then show ?thesis using Some visible by (simp add: render_tool_result_def)
  qed
qed

end
