(* ===== verification/Action_Assembly.thy ===== *)
theory Action_Assembly
  imports Action_Properties Action_Engine_Proofs
begin

text \<open>
  What the assembled Action module promises: which Actions an engine and its views make effective,
  and how every result of an Action becomes the message that answers its tool call.
\<close>

lemma bound_executor:
  assumes "sound_engine e" "get_action (en_catalog e) n = Inr a" "(n, x) \<in> set (en_bindings e)"
  shows "x = xs_executor (sp_execution a)"
proof -
  have "granted_from (en_configured e) (en_catalog e)" using assms(1) by (simp add: sound_engine_def)
  then obtain b where b: "get_action (en_configured e) n = Inr b" "same_grant b a"
    using assms(2) unfolding granted_from_def by blast
  moreover obtain c where "get_action (en_configured e) n = Inr c" "xs_executor (sp_execution c) = x"
    using assms(1,3) by (auto simp: sound_engine_def)
  ultimately show ?thesis by (simp add: same_grant_def)
qed

lemma registered_only:
  assumes "wf_catalog (eb_catalog b)" "engine_build b = Inr e" "get_action (en_catalog e) n = Inr a"
  shows "map_of (eb_bindings b) n = Some (xs_executor (sp_execution a))" "n \<notin> set (eb_unsupported b)"
    "pred_option (\<lambda>names. n \<in> set names) (eb_included b)" "visible (eb_catalog b) (eb_scenario b) n"
proof -
  note built = build_sound [OF assms(1,2)]
  have "has_action (en_catalog e) n" using assms(3) by (simp add: has_action_iff)
  then have n: "n \<in> set (en_supported e)" "visible (en_configured e) (en_scenario e) n"
    using built(1) by (auto simp: sound_engine_def)
  then show supported: "n \<notin> set (eb_unsupported b)" and "visible (eb_catalog b) (eb_scenario b) n"
    using built by simp_all
  have granted: "n \<in> set (granted_names b)" using n built(5) by simp
  then show "pred_option (\<lambda>names. n \<in> set names) (eb_included b)" by (auto simp: granted_names_def split: option.splits)
  have "n \<in> set (dict_keys (eb_bindings b))" using granted supported by (auto simp: granted_names_def declared_names_def)
  then obtain x where x: "map_of (eb_bindings b) n = Some x" by (cases "map_of (eb_bindings b) n") (auto simp: map_of_eq_None_iff)
  then have "x = xs_executor (sp_execution a)"
    using bound_executor [OF built(1) assms(3)] map_of_SomeD [OF x] built(3) by simp
  then show "map_of (eb_bindings b) n = Some (xs_executor (sp_execution a))" using x by simp
qed

lemma views_same_execution:
  assumes "sound_engine e" "engine_views e nss = Inr v" "get_action (en_catalog v) n = Inr a"
    "get_action (en_catalog e) n = Inr a'"
  shows "sp_execution a' = sp_execution a"
proof -
  note views = views_sound [OF assms(1,2)]
  have "granted_from (en_configured v) (en_catalog v)" using views by (simp add: sound_engine_def)
  then have "granted_from (en_configured e) (en_catalog v)" using granted_from_trans views by blast
  moreover have "granted_from (en_configured e) (en_catalog e)" using assms(1) by (simp add: sound_engine_def)
  ultimately show ?thesis using assms(3,4) unfolding granted_from_def same_grant_def by (metis sum.inject(2))
qed

section \<open>Properties\<close>

text \<open>
  C8: assembly grants nothing. An Action that an engine, or any chain of its views, makes effective was
  registered with the executor it names and that executor is there to run it; it is included, not
  marked unsupported, visible in the scenario and named by every view. The check of an edited catalog,
  applied to the catalog the engine has, answers exactly the Actions that are effective.
\<close>

theorem engine_effective:
  assumes "wf_catalog (eb_catalog b)" "engine_build b = Inr e" "engine_views e nss = Inr v"
  shows "(\<forall>a \<in> set (catalog_actions (en_catalog v)).
      map_of (eb_bindings b) (sp_name a) = Some (xs_executor (sp_execution a))
      \<and> xs_executor (sp_execution a) \<in> set (dict_keys (en_executors v))
      \<and> sp_name a \<notin> set (eb_unsupported b) \<and> pred_option (\<lambda>names. sp_name a \<in> set names) (eb_included b)
      \<and> visible (eb_catalog b) (eb_scenario b) (sp_name a) \<and> (\<forall>names \<in> set nss. sp_name a \<in> set names))
    \<and> (\<exists>ns. validate_candidate v (en_configured v) = Inr ns \<and> set ns = set (action_names (en_catalog v)))"
proof (intro conjI ballI)
  note built = build_sound [OF assms(1,2)]
  note views = views_sound [OF built(1) assms(3)]
  have sound: "sound_engine v" using views by blast
  show "\<exists>ns. validate_candidate v (en_configured v) = Inr ns \<and> set ns = set (action_names (en_catalog v))"
    using sound_candidate [OF sound] by blast
  fix a assume a: "a \<in> set (catalog_actions (en_catalog v))"
  have wf: "wf_catalog (en_catalog v)" using sound by (simp add: sound_engine_def)
  have get: "get_action (en_catalog v) (sp_name a) = Inr a" using a catalog_actions_iff [OF wf] by blast
  then have "has_action (en_catalog e) (sp_name a)" and named: "\<forall>names \<in> set nss. sp_name a \<in> set names"
    using views by (auto simp: has_action_iff)
  then obtain a' where a': "get_action (en_catalog e) (sp_name a) = Inr a'" by (auto simp: has_action_iff)
  note only = registered_only [OF assms(1,2) a']
  have "sp_execution a' = sp_execution a" by (rule views_same_execution [OF built(1) assms(3) get a'])
  then show "map_of (eb_bindings b) (sp_name a) = Some (xs_executor (sp_execution a))" using only(1) by simp
  show "xs_executor (sp_execution a) \<in> set (dict_keys (en_executors v))" using sound a by (simp add: sound_engine_def)
  show "sp_name a \<notin> set (eb_unsupported b)" "pred_option (\<lambda>names. sp_name a \<in> set names) (eb_included b)"
    "visible (eb_catalog b) (eb_scenario b) (sp_name a)" by (rule only)+
  fix names assume "names \<in> set nss"
  then show "sp_name a \<in> set names" using named by blast
qed

definition sample_builder :: "(unit, unit, unit) engine_builder" where
  "sample_builder = \<lparr>eb_catalog = sample_catalog, eb_executors = [(''run'', ())], eb_hooks = empty_hooks, eb_max_workers = 8,
     eb_unsupported = [], eb_included = None, eb_bindings = [(''core.x'', ''run'')], eb_semantics = [],
     eb_hints = [(''core.x'', ''Prefer it.'')], eb_scenarios = [''user''], eb_scenario = ''user''\<rparr>"

theorem engine_effective_witness:
  "\<exists>e v. engine_build sample_builder = Inr e \<and> engine_views e [[''core.x'']] = Inr v
    \<and> has_action (en_catalog v) ''core.x''
    \<and> (\<exists>ns. validate_candidate v (en_configured v) = Inr ns \<and> set ns = set (action_names (en_catalog v)))"
proof -
  have wf: "wf_catalog (eb_catalog sample_builder)" by code_simp
  have "case engine_build sample_builder of Inr e \<Rightarrow> (case engine_views e [[''core.x'']] of
      Inr v \<Rightarrow> has_action (en_catalog v) ''core.x'' | Inl _ \<Rightarrow> False) | Inl _ \<Rightarrow> False" by code_simp
  then obtain e v where run: "engine_build sample_builder = Inr e" "engine_views e [[''core.x'']] = Inr v"
    "has_action (en_catalog v) ''core.x''" by (auto split: sum.splits)
  from engine_effective [OF wf run(1,2)] show ?thesis using run by blast
qed

text \<open>
  C40: every valid result is rendered. Its messages, the one the model sees and the one the trace keeps,
  are tool results with the call and the name of the result, an error unless the Action succeeded; they
  are the same message unless the result has a projection for the trace.
\<close>

theorem results_rendered:
  assumes "\<And>r. r \<in> set rs \<Longrightarrow> mk_action_result r = Inr r"
    "\<And>r p. r \<in> set rs \<Longrightarrow> ar_trace_projection r = Some p \<Longrightarrow> mk_trace_projection p = Inr p"
  shows "\<exists>xs. render_many rs = Inr xs \<and> list_all2 (\<lambda>r x.
      msg_call_id (rr_visible x) = ar_call_id r \<and> msg_tool_name (rr_visible x) = ar_action_name r
      \<and> msg_call_id (rr_canonical x) = ar_call_id r \<and> msg_tool_name (rr_canonical x) = ar_action_name r
      \<and> (msg_status (rr_visible x) = TR_OK \<longleftrightarrow> ar_status r = RS_SUCCESS)
      \<and> (ar_trace_projection r = None \<longrightarrow> rr_canonical x = rr_visible x)) rs xs"
  using assms
proof (induction rs)
  case Nil
  then show ?case by (simp add: render_many_def)
next
  case (Cons r rs)
  have "pred_option (\<lambda>p. mk_trace_projection p = Inr p) (ar_trace_projection r)"
    using Cons.prems(2) by (cases "ar_trace_projection r") auto
  then obtain x where x: "render_tool_result r = Inr x"
    "msg_call_id (rr_visible x) = ar_call_id r \<and> msg_tool_name (rr_visible x) = ar_action_name r
      \<and> msg_call_id (rr_canonical x) = ar_call_id r \<and> msg_tool_name (rr_canonical x) = ar_action_name r
      \<and> (msg_status (rr_visible x) = TR_OK \<longleftrightarrow> ar_status r = RS_SUCCESS)
      \<and> (ar_trace_projection r = None \<longrightarrow> rr_canonical x = rr_visible x)"
    using render_tool_result_ok [of r] Cons.prems(1) by auto
  moreover obtain xs where "render_many rs = Inr xs" "list_all2 (\<lambda>r x.
      msg_call_id (rr_visible x) = ar_call_id r \<and> msg_tool_name (rr_visible x) = ar_action_name r
      \<and> msg_call_id (rr_canonical x) = ar_call_id r \<and> msg_tool_name (rr_canonical x) = ar_action_name r
      \<and> (msg_status (rr_visible x) = TR_OK \<longleftrightarrow> ar_status r = RS_SUCCESS)
      \<and> (ar_trace_projection r = None \<longrightarrow> rr_canonical x = rr_visible x)) rs xs"
    using Cons.IH Cons.prems by auto
  ultimately show ?case by (intro exI [of _ "x # xs"]) (simp add: render_many_def)
qed

theorem results_rendered_witness:
  "\<exists>x. render_many [sample_result] = Inr [x] \<and> msg_call_id (rr_visible x) = ''a'' \<and> msg_status (rr_visible x) = TR_OK"
proof -
  have "mk_action_result sample_result = Inr sample_result" by code_simp
  moreover have "ar_trace_projection sample_result = None" by (simp add: sample_result_def)
  ultimately obtain xs where "render_many [sample_result] = Inr xs" "list_all2 (\<lambda>r x.
      msg_call_id (rr_visible x) = ar_call_id r \<and> msg_tool_name (rr_visible x) = ar_action_name r
      \<and> msg_call_id (rr_canonical x) = ar_call_id r \<and> msg_tool_name (rr_canonical x) = ar_action_name r
      \<and> (msg_status (rr_visible x) = TR_OK \<longleftrightarrow> ar_status r = RS_SUCCESS)
      \<and> (ar_trace_projection r = None \<longrightarrow> rr_canonical x = rr_visible x)) [sample_result] xs"
    using results_rendered [of "[sample_result]"] by auto
  then show ?thesis by (auto simp: list_all2_Cons1 sample_result_def)
qed

end
